(* ===== verification/ArchPrelude.thy ===== *)
theory ArchPrelude
  imports Main "HOL-Library.Word" "HOL-Library.AList" "HOL-Library.List_Lexorder"
begin

text \<open>
  The prelude of the development: what every component uses of JavaScript and of lists.

  \<^item> A JavaScript string is the list of its UTF-16 code units, a @\<open>16 word\<close> each
    (\<open>jstring\<close>); \<open>js\<close> turns an ASCII literal of HOL into one.
  \<^item> Every number of the modelled data is an integral counter, index or millisecond time
    stamp inside the safe range of JavaScript, and is an \<open>int\<close>.
  \<^item> A plain object used as a dictionary, and a \<open>Map\<close>, is an association list in insertion
    order (\<open>dict\<close>); setting a key keeps its place or appends it (\<open>AList.update\<close>).
  \<^item> A thrown exception is the left summand of \<open>js_error + 'a\<close>.
  \<^item> \<open>find_index\<close>, \<open>at_last\<close> are \<open>Array.findIndex\<close> and \<open>Array.at(-1)\<close>.
\<close>

named_theorems event_frame \<open>what a step leaves unchanged\<close>

section \<open>Strings\<close>

type_synonym jchar = "16 word"
type_synonym jstring = "jchar list"
type_synonym ('k, 'v) dict = "('k \<times> 'v) list"

definition js :: "string \<Rightarrow> jstring" where
  "js s = map of_char s"

lemma inj_of_char16: "inj (of_char :: char \<Rightarrow> jchar)"
proof (rule injI)
  fix c d :: char
  assume eq: "(of_char c :: jchar) = of_char d"
  have small: "(of_char x :: nat) < 256" for x :: char
    by simp
  have unat: "unat (of_char x :: jchar) = of_char x" for x :: char
  proof -
    have "(of_char x :: jchar) = of_nat (of_char x)"
      by (simp only: of_nat_of_char)
    moreover have "unat (of_nat (of_char x) :: jchar) = of_char x"
      using less_trans [OF small [of x], of 65536] by (simp add: unat_of_nat)
    ultimately show ?thesis by simp
  qed
  from eq have "(of_char c :: nat) = of_char d"
    using unat by metis
  then show "c = d"
    by (simp add: of_char_eq_iff)
qed

lemma js_eq_iff [simp]: "js a = js b \<longleftrightarrow> a = b"
  unfolding js_def by (rule inj_map_eq_map [OF inj_of_char16])

lemma js_Nil [simp]: "js [] = []"
  by (simp add: js_def)

lemma js_eq_Nil_iff [simp]: "js a = [] \<longleftrightarrow> a = []" "[] = js a \<longleftrightarrow> a = []"
  by (auto simp: js_def)

lemma length_js [simp]: "length (js a) = length a"
  by (simp add: js_def)

lemma js_append: "js (a @ b) = js a @ js b"
  by (simp add: js_def)

text \<open>\<open>String.prototype.startsWith\<close>.\<close>

definition startsWith :: "jstring \<Rightarrow> jstring \<Rightarrow> bool" where
  "startsWith s p \<longleftrightarrow> take (length p) s = p"

section \<open>Exceptions\<close>

datatype js_error =
    TypeError jstring
  | GenericError jstring
  | InvalidExecutionTransitionError jstring
  | InvalidTodoStateError jstring

fun bindE :: "'e + 'a \<Rightarrow> ('a \<Rightarrow> 'e + 'b) \<Rightarrow> 'e + 'b" where
  "bindE (Inl e) f = Inl e"
| "bindE (Inr x) f = f x"

fun mapE :: "('a \<Rightarrow> 'e + 'b) \<Rightarrow> 'a list \<Rightarrow> 'e + 'b list" where
  "mapE f [] = Inr []"
| "mapE f (x # xs) = bindE (f x) (\<lambda>y. bindE (mapE f xs) (\<lambda>ys. Inr (y # ys)))"

lemma bindE_Inr_iff: "bindE r f = Inr y \<longleftrightarrow> (\<exists>x. r = Inr x \<and> f x = Inr y)"
  by (cases r) auto

lemma mapE_Inr: "(\<And>x. x \<in> set xs \<Longrightarrow> f x = Inr (g x)) \<Longrightarrow> mapE f xs = Inr (map g xs)"
  by (induction xs) auto

lemma mapE_Inr_iff: "mapE f xs = Inr ys \<longleftrightarrow> list_all2 (\<lambda>x y. f x = Inr y) xs ys"
  by (induction xs arbitrary: ys) (auto simp: bindE_Inr_iff list_all2_Cons1)

section \<open>Lists as arrays\<close>

fun find_index :: "('a \<Rightarrow> bool) \<Rightarrow> 'a list \<Rightarrow> nat option" where
  "find_index P [] = None"
| "find_index P (x # xs) = (if P x then Some 0 else map_option Suc (find_index P xs))"

definition at_last :: "'a list \<Rightarrow> 'a option" where
  "at_last xs = (if xs = [] then None else Some (last xs))"

text \<open>\<open>x !== undefined && P(x)\<close>.\<close>

definition option_test :: "('a \<Rightarrow> bool) \<Rightarrow> 'a option \<Rightarrow> bool" where
  "option_test P x = (case x of None \<Rightarrow> False | Some v \<Rightarrow> P v)"

lemma option_test_iff: "option_test P x \<longleftrightarrow> (\<exists>v. x = Some v \<and> P v)"
  by (cases x) (simp_all add: option_test_def)

lemma find_index_None_iff: "find_index P xs = None \<longleftrightarrow> (\<forall>x \<in> set xs. \<not> P x)"
  by (induction xs) auto

lemma find_index_SomeD: "find_index P xs = Some i \<Longrightarrow> i < length xs \<and> P (xs ! i) \<and> (\<forall>j < i. \<not> P (xs ! j))"
proof (induction xs arbitrary: i)
  case Nil
  then show ?case by simp
next
  case (Cons x xs)
  show ?case
  proof (cases "P x")
    case True
    with Cons.prems show ?thesis by auto
  next
    case False
    with Cons.prems obtain k where k: "find_index P xs = Some k" "i = Suc k"
      by auto
    from Cons.IH [OF k(1)] k(2) False show ?thesis
      by (auto simp: nth_Cons split: nat.splits)
  qed
qed

lemma find_SomeD: "find P xs = Some x \<Longrightarrow> x \<in> set xs \<and> P x"
  by (auto simp: find_Some_iff in_set_conv_nth)

lemma find_NoneD: "find P xs = None \<Longrightarrow> x \<in> set xs \<Longrightarrow> \<not> P x"
  by (auto simp: find_None_iff)

lemma find_map_same:
  "(\<And>x. P (f x) = P x) \<Longrightarrow> find P (map f xs) = map_option f (find P xs)"
  by (induction xs) auto

lemma find_unique:
  "distinct (map k xs) \<Longrightarrow> x \<in> set xs \<Longrightarrow> find (\<lambda>y. k y = k x) xs = Some x"
proof (induction xs)
  case Nil
  then show ?case by simp
next
  case (Cons a xs)
  show ?case
  proof (cases "a = x")
    case True
    then show ?thesis by simp
  next
    case False
    with Cons.prems have "x \<in> set xs" "k a \<noteq> k x"
      by (auto simp: image_iff)
    with Cons show ?thesis by simp
  qed
qed

lemma at_last_map: "at_last (map f xs) = map_option f (at_last xs)"
  by (simp add: at_last_def last_map)

lemma at_last_snoc [simp]: "at_last (xs @ [x]) = Some x"
  by (simp add: at_last_def)

lemma at_last_Some_iff: "at_last xs = Some x \<longleftrightarrow> (\<exists>ys. xs = ys @ [x])"
  by (auto simp: at_last_def) (metis append_butlast_last_id)

lemma at_last_None_iff [simp]: "at_last xs = None \<longleftrightarrow> xs = []"
  by (simp add: at_last_def)

lemma map_cong_if:
  "(\<And>x. x \<in> set xs \<Longrightarrow> P x \<Longrightarrow> f x = x) \<Longrightarrow> map (\<lambda>x. if P x then f x else x) xs = xs"
  by (induction xs) auto

section \<open>Keyed insertion\<close>

text \<open>
  Several arrays of the program are kept by key: a new entry replaces the first entry with the
  same key, in place, and is appended when there is none. The contract is an interface; the
  components that keep such arrays provide it.
\<close>

definition replace_or_append :: "('a \<Rightarrow> bool) \<Rightarrow> 'a \<Rightarrow> 'a list \<Rightarrow> 'a list" where
  "replace_or_append P x xs = (case find_index P xs of None \<Rightarrow> xs @ [x] | Some i \<Rightarrow> xs[i := x])"

locale keyed_upsert =
  fixes key :: "'a \<Rightarrow> 'k"
    and upsert :: "'a list \<Rightarrow> 'a \<Rightarrow> 'a list"
  assumes keys_upsert:
      "map key (upsert xs x) = (if key x \<in> key ` set xs then map key xs else map key xs @ [key x])"
    and mem_upsert: "x \<in> set (upsert xs x)"
    and other_upsert: "key y \<noteq> key x \<Longrightarrow> y \<in> set (upsert xs x) \<longleftrightarrow> y \<in> set xs"
begin

lemma distinct_upsert: "distinct (map key xs) \<Longrightarrow> distinct (map key (upsert xs x))"
  by (auto simp: keys_upsert)

lemma length_upsert: "length (upsert xs x) = (if key x \<in> key ` set xs then length xs else Suc (length xs))"
  by (metis keys_upsert length_append_singleton length_map)

lemma set_upsert:
  assumes "distinct (map key xs)"
  shows "set (upsert xs x) = insert x {y \<in> set xs. key y \<noteq> key x}"
proof -
  have inj: "inj_on key (set (upsert xs x))"
    using distinct_upsert [OF assms] by (simp add: distinct_map)
  have "y = x \<or> key y \<noteq> key x" if "y \<in> set (upsert xs x)" for y
    using inj_onD [OF inj _ that mem_upsert] by blast
  then show ?thesis
    using mem_upsert other_upsert by blast
qed

lemma lookup_upsert:
  assumes "distinct (map key xs)"
  shows "find (\<lambda>y. key y = key x) (upsert xs x) = Some x"
  using find_unique [OF distinct_upsert [OF assms] mem_upsert] .

end

lemma replace_or_append_keys:
  assumes same: "\<And>y. P y \<longleftrightarrow> key y = key x"
  shows "map key (replace_or_append P x xs)
    = (if key x \<in> key ` set xs then map key xs else map key xs @ [key x])"
proof (cases "find_index P xs")
  case None
  then have "key x \<notin> key ` set xs"
    using same by (force simp: find_index_None_iff)
  with None show ?thesis
    by (simp add: replace_or_append_def)
next
  case (Some i)
  then have i: "i < length xs" "key (xs ! i) = key x"
    using same by (auto dest: find_index_SomeD)
  then have "key x \<in> key ` set xs"
    by (metis image_eqI nth_mem)
  moreover have "map key (xs[i := x]) = map key xs"
    using i by (simp add: map_update list_update_same_conv)
  ultimately show ?thesis
    using Some by (simp add: replace_or_append_def)
qed

lemma replace_or_append_mem: "x \<in> set (replace_or_append P x xs)"
  by (auto simp: replace_or_append_def set_update_memI split: option.splits dest: find_index_SomeD)

lemma replace_or_append_other:
  assumes same: "\<And>y. P y \<longleftrightarrow> key y = key x" and ne: "key y \<noteq> key x"
  shows "y \<in> set (replace_or_append P x xs) \<longleftrightarrow> y \<in> set xs"
proof (cases "find_index P xs")
  case None
  then show ?thesis
    using ne by (auto simp: replace_or_append_def)
next
  case (Some i)
  then have i: "i < length xs" "key (xs ! i) = key x"
    using same by (auto dest: find_index_SomeD)
  have "y \<in> set (xs[i := x]) \<longleftrightarrow> y \<in> set xs"
  proof
    assume "y \<in> set (xs[i := x])"
    then show "y \<in> set xs"
      using ne set_update_subset_insert [of xs i x] by blast
  next
    assume "y \<in> set xs"
    then obtain j where j: "j < length xs" "xs ! j = y"
      by (auto simp: in_set_conv_nth)
    with i ne have "j \<noteq> i"
      by auto
    with j have "xs[i := x] ! j = y"
      by simp
    with j show "y \<in> set (xs[i := x])"
      by (metis length_list_update nth_mem)
  qed
  then show ?thesis
    using Some by (simp add: replace_or_append_def)
qed

section \<open>Runs of a fallible step\<close>

text \<open>
  A projection is folded from a log of events by a step that may throw. What an event may assume of
  the state it meets (identifiers that are fresh there, say) is \<open>ok\<close>, and \<open>run_ok\<close> asks it of
  every event of the log. A property that one step keeps holds after every such log that is folded
  without an exception.
\<close>

fun run_log :: "('s \<Rightarrow> 'e \<Rightarrow> js_error + 's) \<Rightarrow> 's \<Rightarrow> 'e list \<Rightarrow> js_error + 's" where
  "run_log step s [] = Inr s"
| "run_log step s (e # es) = bindE (step s e) (\<lambda>s'. run_log step s' es)"

text \<open>The equations by which a fold is evaluated: the state is computed before the rest is unfolded.\<close>

lemma run_log_code [code]:
  "run_log step s [] = Inr s"
  "run_log step s (e # es) = (case step s e of Inl x \<Rightarrow> Inl x | Inr s' \<Rightarrow> run_log step s' es)"
  by (simp_all split: sum.splits)

fun run_ok :: "('s \<Rightarrow> 'e \<Rightarrow> js_error + 's) \<Rightarrow> ('s \<Rightarrow> 'e \<Rightarrow> bool) \<Rightarrow> 's \<Rightarrow> 'e list \<Rightarrow> bool" where
  "run_ok step ok s [] = True"
| "run_ok step ok s (e # es) = (ok s e \<and> (case step s e of Inl _ \<Rightarrow> True | Inr s' \<Rightarrow> run_ok step ok s' es))"

locale log_invariant =
  fixes step :: "'s \<Rightarrow> 'e \<Rightarrow> js_error + 's"
    and ok :: "'s \<Rightarrow> 'e \<Rightarrow> bool"
    and inv :: "'s \<Rightarrow> bool"
  assumes step_inv: "inv s \<Longrightarrow> ok s e \<Longrightarrow> step s e = Inr s' \<Longrightarrow> inv s'"
begin

lemma run_inv: "inv s \<Longrightarrow> run_ok step ok s es \<Longrightarrow> run_log step s es = Inr s' \<Longrightarrow> inv s'"
proof (induction es arbitrary: s)
  case Nil
  then show ?case by simp
next
  case (Cons e es)
  then obtain t where t: "step s e = Inr t" "run_log step t es = Inr s'"
    by (auto simp: bindE_Inr_iff)
  with Cons.prems have "inv t" "run_ok step ok t es"
    using step_inv by auto
  with Cons.IH t show ?case by blast
qed

lemma run_inv_events:
  assumes "inv s" "\<And>s e. e \<in> set es \<Longrightarrow> ok s e" "run_log step s es = Inr s'"
  shows "inv s'"
proof -
  have "run_ok step ok t es" for t
    using assms(2) by (induction es arbitrary: t) (auto split: sum.splits)
  with run_inv assms(1,3) show ?thesis by blast
qed

end

lemma run_log_append:
  "run_log step s (es @ fs) = bindE (run_log step s es) (\<lambda>t. run_log step t fs)"
proof (induction es arbitrary: s)
  case Nil
  then show ?case by simp
next
  case (Cons e es)
  then show ?case by (cases "step s e") auto
qed

end
