(* ===== verification/JsValue.thy ===== *)
theory JsValue
  imports ArchPrelude "HOL-Library.Multiset"
begin

text \<open>
  Untyped JavaScript values (the \<open>unknown\<close> of the source: tool inputs, provider usage, part
  metadata) and the deep equality of packages/protocol/src/execution.ts.

  An object is the list of its own enumerable properties in insertion order, with distinct keys
  (\<open>wf_value\<close>). Numbers are integral or one of the three non-finite values.
\<close>

datatype jsnumber = JsFinite int | JsNaN | JsInfinity | JsNegInfinity

datatype jsvalue =
    JsUndefined
  | JsNull
  | JsBool bool
  | JsNumber jsnumber
  | JsString jstring
  | JsArray "jsvalue list"
  | JsObject "(jstring \<times> jsvalue) list"

lemma size_object_member [termination_simp]:
  "(k, v) \<in> set ps \<Longrightarrow> size v < Suc (size_list (size_prod (\<lambda>_. 0) size) ps)"
  by (induction ps) auto

fun wf_value :: "jsvalue \<Rightarrow> bool" where
  "wf_value (JsArray xs) = (\<forall>x \<in> set xs. wf_value x)"
| "wf_value (JsObject ps) = (distinct (map fst ps) \<and> (\<forall>p \<in> set ps. wf_value (snd p)))"
| "wf_value _ = True"

datatype js_typeof = TyUndefined | TyObject | TyBoolean | TyNumber | TyString

fun typeof :: "jsvalue \<Rightarrow> js_typeof" where
  "typeof JsUndefined = TyUndefined"
| "typeof JsNull = TyObject"
| "typeof (JsBool _) = TyBoolean"
| "typeof (JsNumber _) = TyNumber"
| "typeof (JsString _) = TyString"
| "typeof (JsArray _) = TyObject"
| "typeof (JsObject _) = TyObject"

section \<open>Deep equality\<close>

text \<open>
  \<open>equal\<close> of execution.ts. \<open>Object.is\<close> decides the primitives; arrays are compared by length
  and element, objects by their sorted key lists and the values under each key. The identity of
  two references makes no difference: identical references are equal by the remaining rules.
\<close>

function equal_js :: "jsvalue \<Rightarrow> jsvalue \<Rightarrow> bool" where
  "equal_js left right =
    (if typeof left \<noteq> typeof right then False
     else (case left of
       JsArray ls \<Rightarrow> (case right of
           JsArray rs \<Rightarrow> length ls = length rs
             \<and> (\<forall>p \<in> set (zip ls rs). equal_js (fst p) (snd p))
         | _ \<Rightarrow> False)
     | JsObject ls \<Rightarrow> (case right of
           JsObject rs \<Rightarrow>
             length (sort (map fst ls)) = length (sort (map fst rs))
             \<and> sort (map fst ls) = sort (map fst rs)
             \<and> (\<forall>p \<in> set ls. case map_of rs (fst p) of
                   None \<Rightarrow> False
                 | Some r \<Rightarrow> equal_js (snd p) r)
         | _ \<Rightarrow> False)
     | _ \<Rightarrow> left = right))"
  by pat_completeness auto
termination
proof (relation "measure (\<lambda>(l, r). size l)", goal_cases)
  case 1
  then show ?case by simp
next
  case (2 l r ls rs p)
  then have "fst p \<in> set ls"
    by (auto dest: set_zip_leftD simp: prod_eq_iff)
      (metis prod.collapse set_zip_leftD)
  then have "size (fst p) \<le> size_list size ls"
    by (simp add: size_list_estimation')
  with 2 show ?case by (cases p) simp
next
  case (3 l r ls rs p v)
  then have "size (snd p) < Suc (size_list (size_prod (\<lambda>_. 0) size) ls)"
    by (metis prod.collapse size_object_member)
  with 3 show ?case by (cases p) simp
qed

declare equal_js.simps [simp del]

text \<open>
  What \<open>equal_js\<close> decides: two values are equal when they have the same canonical form, in which
  every object lists its properties by key.
\<close>

fun canonical :: "jsvalue \<Rightarrow> jsvalue" where
  "canonical (JsArray xs) = JsArray (map canonical xs)"
| "canonical (JsObject ps) = JsObject (sort_key fst (map (\<lambda>p. (fst p, canonical (snd p))) ps))"
| "canonical v = v"

lemma typeof_canonical [simp]: "typeof (canonical v) = typeof v"
  by (cases v) auto

lemma canonical_primitive_iff:
  "JsUndefined = canonical v \<longleftrightarrow> JsUndefined = v" "JsNull = canonical v \<longleftrightarrow> JsNull = v"
  "JsBool b = canonical v \<longleftrightarrow> JsBool b = v" "JsNumber n = canonical v \<longleftrightarrow> JsNumber n = v"
  "JsString s = canonical v \<longleftrightarrow> JsString s = v"
  by (cases v; auto)+

lemma sort_key_fst_eq_iff:
  fixes xs ys :: "('k :: linorder \<times> 'v) list"
  assumes "distinct (map fst xs)" "distinct (map fst ys)"
  shows "sort_key fst xs = sort_key fst ys \<longleftrightarrow> set xs = set ys"
proof
  assume "sort_key fst xs = sort_key fst ys"
  then show "set xs = set ys"
    by (metis set_sort)
next
  assume eq: "set xs = set ys"
  have "distinct xs" "distinct ys"
    using assms by (simp_all add: distinct_map)
  with eq have "mset xs = mset (sort_key fst ys)"
    by (simp add: set_eq_iff_mset_eq_distinct)
  moreover have "inj_on fst (set xs)"
    using assms(1) by (simp add: distinct_map)
  ultimately show "sort_key fst xs = sort_key fst ys"
    by (simp add: sort_key_inj_key_eq)
qed

lemma sort_eq_iff_set_eq:
  fixes xs ys :: "'k :: linorder list"
  assumes "distinct xs" "distinct ys"
  shows "sort xs = sort ys \<longleftrightarrow> set xs = set ys"
  using assms by (metis set_eq_iff_mset_eq_distinct mset_sort set_sort sorted_list_of_multiset_mset)

lemma set_eq_iff_map_of:
  assumes "distinct (map fst xs)" "distinct (map fst ys)"
  shows "set xs = set ys \<longleftrightarrow> fst ` set xs = fst ` set ys
    \<and> (\<forall>p \<in> set xs. map_of ys (fst p) = Some (snd p))"
proof (intro iffI conjI ballI)
  assume eq: "set xs = set ys"
  then show "fst ` set xs = fst ` set ys" by simp
  show "map_of ys (fst p) = Some (snd p)" if "p \<in> set xs" for p
    using that eq assms(2) by (simp add: map_of_eq_Some_iff)
next
  assume h: "fst ` set xs = fst ` set ys \<and> (\<forall>p \<in> set xs. map_of ys (fst p) = Some (snd p))"
  show "set xs = set ys"
  proof (intro subset_antisym subsetI)
    fix p assume "p \<in> set xs"
    with h show "p \<in> set ys"
      by (metis map_of_SomeD prod.collapse)
  next
    fix q assume q: "q \<in> set ys"
    with h have "fst q \<in> fst ` set xs"
      by simp
    then obtain p where p: "p \<in> set xs" "fst p = fst q"
      by auto
    with h have "map_of ys (fst q) = Some (snd p)"
      by (metis p)
    moreover have "map_of ys (fst q) = Some (snd q)"
      using assms(2) q by (simp add: map_of_eq_Some_iff)
    ultimately have "p = q"
      using p(2) by (simp add: prod_eq_iff)
    with p(1) show "q \<in> set xs" by simp
  qed
qed

lemma equal_js_array:
  "equal_js (JsArray ls) (JsArray rs) \<longleftrightarrow> list_all2 equal_js ls rs"
  by (subst equal_js.simps) (auto simp: list_all2_iff)

lemma equal_js_object:
  "equal_js (JsObject ls) (JsObject rs) \<longleftrightarrow> sort (map fst ls) = sort (map fst rs)
    \<and> (\<forall>p \<in> set ls. \<exists>r. map_of rs (fst p) = Some r \<and> equal_js (snd p) r)"
proof -
  have "sort (map fst ls) = sort (map fst rs) \<Longrightarrow> length ls = length rs"
    by (metis length_map length_sort)
  then show ?thesis
    by (subst equal_js.simps) (auto split: option.splits)
qed

lemma equal_js_primitive:
  "\<not> (\<exists>xs. left = JsArray xs) \<Longrightarrow> \<not> (\<exists>ps. left = JsObject ps) \<Longrightarrow> equal_js left right \<longleftrightarrow> left = right"
  by (subst equal_js.simps) (auto split: jsvalue.splits)

lemma equal_js_shape:
  "equal_js (JsArray ls) right \<Longrightarrow> \<exists>rs. right = JsArray rs"
  "equal_js (JsObject ps) right \<Longrightarrow> \<exists>qs. right = JsObject qs"
  by (subst (asm) equal_js.simps, auto split: jsvalue.splits if_splits)+

lemma canonical_eq_object_iff:
  assumes wf: "wf_value (JsObject ls)" "wf_value (JsObject rs)"
  shows "canonical (JsObject ls) = canonical (JsObject rs) \<longleftrightarrow>
    sort (map fst ls) = sort (map fst rs)
    \<and> (\<forall>p \<in> set ls. \<exists>r. map_of rs (fst p) = Some r \<and> canonical (snd p) = canonical r)"
proof -
  let ?f = "\<lambda>p :: jstring \<times> jsvalue. (fst p, canonical (snd p))"
  have fst_f: "map fst (map ?f xs) = map fst xs" for xs
    by simp
  have look: "map_of (map ?f xs) k = map_option canonical (map_of xs k)" for xs k
    by (induction xs) auto
  have d: "distinct (map fst (map ?f ls))" "distinct (map fst (map ?f rs))"
    using wf unfolding fst_f by simp_all
  have "canonical (JsObject ls) = canonical (JsObject rs) \<longleftrightarrow> set (map ?f ls) = set (map ?f rs)"
    using sort_key_fst_eq_iff [OF d] by simp
  also have "\<dots> \<longleftrightarrow> fst ` set ls = fst ` set rs
      \<and> (\<forall>p \<in> set ls. map_of (map ?f rs) (fst p) = Some (canonical (snd p)))"
    using set_eq_iff_map_of [OF d] by (simp add: image_image)
  also have "fst ` set ls = fst ` set rs \<longleftrightarrow> sort (map fst ls) = sort (map fst rs)"
    using wf by (simp add: sort_eq_iff_set_eq)
  also have "(\<forall>p \<in> set ls. map_of (map ?f rs) (fst p) = Some (canonical (snd p))) \<longleftrightarrow>
      (\<forall>p \<in> set ls. \<exists>r. map_of rs (fst p) = Some r \<and> canonical (snd p) = canonical r)"
    unfolding look map_option_eq_Some by (simp add: eq_commute)
  finally show ?thesis .
qed

lemma equal_js_iff_canonical:
  "wf_value left \<Longrightarrow> wf_value right \<Longrightarrow> equal_js left right \<longleftrightarrow> canonical left = canonical right"
proof (induction left arbitrary: right)
  case (JsArray ls)
  show ?case
  proof (cases right)
    case (JsArray rs)
    have "list_all2 equal_js ls rs \<longleftrightarrow> list_all2 (\<lambda>l r. canonical l = canonical r) ls rs"
      using JsArray.IH JsArray.prems JsArray by (auto simp: list_all2_conv_all_nth)
    then show ?thesis
      using JsArray by (simp add: equal_js_array list_all2_map1 list_all2_map2 list_all2_eq)
  qed (auto dest: equal_js_shape)
next
  case (JsObject ls)
  show ?case
  proof (cases right)
    case (JsObject rs)
    have "equal_js (snd p) r \<longleftrightarrow> canonical (snd p) = canonical r"
      if "p \<in> set ls" "map_of rs (fst p) = Some r" for p r
    proof -
      have "wf_value r"
        using JsObject.prems(2) JsObject map_of_SomeD [OF that(2)] by force
      then show ?thesis
        using JsObject.IH [of p "snd p" r] that(1) JsObject.prems(1)
        by (simp add: snds.simps prod.collapse)
    qed
    then have "(\<forall>p \<in> set ls. \<exists>r. map_of rs (fst p) = Some r \<and> equal_js (snd p) r) \<longleftrightarrow>
        (\<forall>p \<in> set ls. \<exists>r. map_of rs (fst p) = Some r \<and> canonical (snd p) = canonical r)"
      by blast
    with JsObject JsObject.prems show ?thesis
      by (simp only: equal_js_object canonical_eq_object_iff)
  qed (auto dest: equal_js_shape)
qed (simp_all add: equal_js_primitive canonical_primitive_iff)

text \<open>
  C35: \<open>equal\<close>, the structural comparison of lifecycle events, decides equality of canonical forms: for
  values whose objects have distinct keys it returns true exactly when the two values are the same up
  to the order of the properties of their objects, at every depth.
\<close>
theorem equal_js_decides_canonical_equality:
  assumes "wf_value left" "wf_value right"
  shows "equal_js left right \<longleftrightarrow> canonical left = canonical right"
  by (rule equal_js_iff_canonical [OF assms])

end
