(* ===== verification/JsText.thy ===== *)
theory JsText
  imports ArchPrelude
begin

text \<open>
  Text: what the source does with the code units of a string.

  \<^item> UTF-8 length (\<open>TextEncoder\<close>, session-capacity.ts \<open>utf8ByteLength\<close>) and the code point
    count of \<open>Array.from\<close>;
  \<^item> \<open>utf8Suffix\<close> of reduce.ts: the longest suffix within a byte budget that does not split a
    surrogate pair, with its bounds and its maximality;
  \<^item> \<open>String.prototype.trim\<close> and the projection-envelope expression of reduce.ts;
  \<^item> the part of \<open>JSON.stringify\<close> that the todo capacity check measures.
\<close>

section \<open>UTF-16 and UTF-8\<close>

definition is_high :: "jchar \<Rightarrow> bool" where
  "is_high c \<longleftrightarrow> 0xD800 \<le> c \<and> c \<le> 0xDBFF"

definition is_low :: "jchar \<Rightarrow> bool" where
  "is_low c \<longleftrightarrow> 0xDC00 \<le> c \<and> c \<le> 0xDFFF"

lemma high_not_low: "is_high c \<Longrightarrow> \<not> is_low c"
  unfolding is_high_def is_low_def by (auto simp: word_le_nat_alt)

text \<open>The bytes of one code unit outside a surrogate pair; a lone surrogate is encoded as U+FFFD.\<close>

definition unit_bytes :: "jchar \<Rightarrow> nat" where
  "unit_bytes c = (if c < 0x80 then 1 else if c < 0x800 then 2 else 3)"

fun utf8ByteLength :: "jstring \<Rightarrow> nat" where
  "utf8ByteLength [] = 0"
| "utf8ByteLength [c] = unit_bytes c"
| "utf8ByteLength (c # d # cs) =
    (if is_high c \<and> is_low d then 4 + utf8ByteLength cs
     else unit_bytes c + utf8ByteLength (d # cs))"

fun code_point_count :: "jstring \<Rightarrow> nat" where
  "code_point_count [] = 0"
| "code_point_count [c] = 1"
| "code_point_count (c # d # cs) =
    (if is_high c \<and> is_low d then Suc (code_point_count cs)
     else Suc (code_point_count (d # cs)))"

text \<open>A cut between two strings that does not split a surrogate pair.\<close>

definition clean_cut :: "jstring \<Rightarrow> jstring \<Rightarrow> bool" where
  "clean_cut xs ys \<longleftrightarrow> xs = [] \<or> ys = [] \<or> \<not> (is_high (last xs) \<and> is_low (hd ys))"

lemma utf8ByteLength_append:
  "clean_cut xs ys \<Longrightarrow> utf8ByteLength (xs @ ys) = utf8ByteLength xs + utf8ByteLength ys"
proof (induction xs rule: utf8ByteLength.induct)
  case 1
  then show ?case by simp
next
  case (2 c)
  then show ?case by (cases ys) (auto simp: clean_cut_def)
next
  case (3 c d cs)
  show ?case
  proof (cases "is_high c \<and> is_low d")
    case True
    with 3 show ?thesis
      by (cases "cs = []") (auto simp: clean_cut_def dest: high_not_low)
  next
    case False
    with 3 show ?thesis by (auto simp: clean_cut_def)
  qed
qed

lemma unit_bytes_bounds: "1 \<le> unit_bytes c \<and> unit_bytes c \<le> 3"
  by (simp add: unit_bytes_def)

lemma utf8ByteLength_bounds: "length s \<le> utf8ByteLength s \<and> utf8ByteLength s \<le> 3 * length s"
proof (induction s rule: utf8ByteLength.induct)
  case (2 c)
  then show ?case using unit_bytes_bounds [of c] by simp
next
  case (3 c d cs)
  then show ?case using unit_bytes_bounds [of c] by auto
qed simp

lemma code_point_count_le: "code_point_count s \<le> length s"
  by (induction s rule: code_point_count.induct) auto

section \<open>The retained suffix of live tool output\<close>

text \<open>The start of the code point that ends at \<open>start\<close>; \<open>charCodeAt\<close> is list indexing, in range.\<close>

definition codePointStart :: "jstring \<Rightarrow> nat \<Rightarrow> nat" where
  "codePointStart str start =
    (let p = start - 1 in
     if is_low (str ! p) \<and> 0 < p \<and> is_high (str ! (p - 1)) then p - 1 else p)"

lemma codePointStart_less [termination_simp]: "0 < start \<Longrightarrow> codePointStart str start < start"
  by (auto simp: codePointStart_def Let_def)

fun utf8SuffixLoop :: "jstring \<Rightarrow> nat \<Rightarrow> nat \<Rightarrow> nat \<Rightarrow> nat \<times> nat" where
  "utf8SuffixLoop str maxBytes retained start =
    (if start = 0 then (retained, start)
     else let p = codePointStart str start;
              codePointBytes = utf8ByteLength (drop p (take start str)) in
       if retained + codePointBytes > maxBytes then (retained, start)
       else utf8SuffixLoop str maxBytes (retained + codePointBytes) p)"

declare utf8SuffixLoop.simps [simp del]

definition utf8Suffix :: "jstring \<Rightarrow> nat \<Rightarrow> jstring \<times> nat" where
  "utf8Suffix str maxBytes =
    (let totalBytes = utf8ByteLength str in
     if totalBytes \<le> maxBytes then (str, 0)
     else let (retainedBytes, start) = utf8SuffixLoop str maxBytes 0 (length str)
       in (drop start str, totalBytes - retainedBytes))"

lemma codePointStart_clean:
  assumes "0 < start" "start \<le> length str" "clean_cut (take start str) (drop start str)"
  shows "clean_cut (take (codePointStart str start) str) (drop (codePointStart str start) str)"
proof -
  let ?p = "codePointStart str start"
  have p: "?p < start" using assms(1) by (rule codePointStart_less)
  have "\<not> (is_high (last (take ?p str)) \<and> is_low (hd (drop ?p str)))" if pos: "0 < ?p"
  proof -
    have hd: "hd (drop ?p str) = str ! ?p"
      using p assms(2) by (simp add: hd_drop_conv_nth)
    have last: "last (take ?p str) = str ! (?p - 1)"
      using p pos assms(2) by (subst last_conv_nth) (auto simp: min_def)
    show ?thesis
      unfolding hd last using pos high_not_low
      by (auto simp: codePointStart_def Let_def split: if_splits)
  qed
  then show ?thesis
    by (auto simp: clean_cut_def)
qed

lemma codePointStart_bytes:
  assumes "0 < start" "start \<le> length str" "clean_cut (take start str) (drop start str)"
  shows "utf8ByteLength (drop (codePointStart str start) str)
    = utf8ByteLength (drop (codePointStart str start) (take start str))
      + utf8ByteLength (drop start str)"
proof -
  let ?p = "codePointStart str start"
  have p: "?p < start" using assms(1) by (rule codePointStart_less)
  have split: "drop ?p str = drop ?p (take start str) @ drop start str"
    using p assms(2) by (metis append_take_drop_id drop_append diff_is_0_eq' drop_0
        length_take less_imp_le_nat min.absorb2)
  have "clean_cut (drop ?p (take start str)) (drop start str)"
    using assms p by (auto simp: clean_cut_def last_drop)
  then show ?thesis
    by (subst split) (rule utf8ByteLength_append)
qed

text \<open>
  The loop invariant: \<open>start\<close> is a clean cut, and \<open>retained\<close> counts the bytes after it. When the
  loop stops, either everything is retained or the next code point would exceed the budget.
\<close>

definition suffix_point :: "jstring \<Rightarrow> nat \<Rightarrow> nat \<times> nat \<Rightarrow> bool" where
  "suffix_point str maxBytes r \<longleftrightarrow>
     snd r \<le> length str
   \<and> clean_cut (take (snd r) str) (drop (snd r) str)
   \<and> fst r = utf8ByteLength (drop (snd r) str)
   \<and> fst r \<le> maxBytes"

definition next_exceeds :: "jstring \<Rightarrow> nat \<Rightarrow> nat \<Rightarrow> bool" where
  "next_exceeds str maxBytes start \<longleftrightarrow> start = 0
    \<or> maxBytes < utf8ByteLength (drop (codePointStart str start) str)"

lemma utf8SuffixLoop_correct:
  "suffix_point str maxBytes (retained, start) \<Longrightarrow>
   suffix_point str maxBytes (utf8SuffixLoop str maxBytes retained start)
   \<and> next_exceeds str maxBytes (snd (utf8SuffixLoop str maxBytes retained start))"
proof (induction str maxBytes retained start rule: utf8SuffixLoop.induct)
  case (1 str maxBytes retained start)
  let ?p = "codePointStart str start"
  let ?b = "utf8ByteLength (drop ?p (take start str))"
  show ?case
  proof (cases "start = 0")
    case True
    with "1.prems" show ?thesis
      by (simp add: utf8SuffixLoop.simps [of str maxBytes retained 0] next_exceeds_def)
  next
    case False
    then have less: "?p < start" by (simp add: codePointStart_less)
    have pre: "start \<le> length str" "clean_cut (take start str) (drop start str)"
        "retained = utf8ByteLength (drop start str)"
      using "1.prems" by (simp_all add: suffix_point_def)
    have bytes: "utf8ByteLength (drop ?p str) = ?b + retained"
      using codePointStart_bytes [OF _ pre(1,2)] False pre(3) by simp
    show ?thesis
    proof (cases "retained + ?b > maxBytes")
      case True
      with False "1.prems" bytes show ?thesis
        by (simp add: utf8SuffixLoop.simps [of str maxBytes retained start] next_exceeds_def Let_def)
    next
      case fits: False
      have "suffix_point str maxBytes (retained + ?b, ?p)"
        using fits bytes less pre codePointStart_clean [OF _ pre(1,2)] False
        by (simp add: suffix_point_def)
      with "1.IH" [OF False refl refl fits] False fits show ?thesis
        by (simp add: utf8SuffixLoop.simps [of str maxBytes retained start] Let_def)
    qed
  qed
qed

lemma utf8Suffix_cases:
  obtains (whole) "utf8ByteLength str \<le> maxBytes" "utf8Suffix str maxBytes = (str, 0)"
  | (shortened) start where "maxBytes < utf8ByteLength str"
      "suffix_point str maxBytes (utf8ByteLength (drop start str), start)"
      "next_exceeds str maxBytes start" "0 < start"
      "utf8Suffix str maxBytes = (drop start str, utf8ByteLength (take start str))"
proof (cases "utf8ByteLength str \<le> maxBytes")
  case True
  then show ?thesis by (intro whole) (simp_all add: utf8Suffix_def)
next
  case False
  obtain retained start where loop: "utf8SuffixLoop str maxBytes 0 (length str) = (retained, start)"
    by force
  have "suffix_point str maxBytes (0, length str)"
    by (simp add: suffix_point_def clean_cut_def)
  from utf8SuffixLoop_correct [OF this] loop
  have sp: "suffix_point str maxBytes (retained, start)" "next_exceeds str maxBytes start"
    by simp_all
  then have ret: "retained = utf8ByteLength (drop start str)" "retained \<le> maxBytes"
    and cut: "clean_cut (take start str) (drop start str)"
    by (simp_all add: suffix_point_def)
  have "utf8ByteLength str = utf8ByteLength (take start str) + retained"
    using utf8ByteLength_append [OF cut] ret(1) by simp
  moreover have "0 < start"
    using False ret by (cases start) simp_all
  ultimately show ?thesis
    using False loop sp ret by (intro shortened [of start]) (simp_all add: utf8Suffix_def)
qed

lemma utf8Suffix_bound: "utf8ByteLength (fst (utf8Suffix str maxBytes)) \<le> maxBytes"
  by (cases rule: utf8Suffix_cases [where str = str and maxBytes = maxBytes]) (simp_all add: suffix_point_def)

lemma utf8Suffix_total:
  "utf8ByteLength (fst (utf8Suffix str maxBytes)) + snd (utf8Suffix str maxBytes)
    = utf8ByteLength str"
proof (cases rule: utf8Suffix_cases [where str = str and maxBytes = maxBytes])
  case (shortened start)
  then have "clean_cut (take start str) (drop start str)"
    by (simp add: suffix_point_def)
  from utf8ByteLength_append [OF this] shortened show ?thesis by simp
qed simp

lemma utf8Suffix_suffix: "\<exists>prefix. str = prefix @ fst (utf8Suffix str maxBytes)"
proof (cases rule: utf8Suffix_cases [where str = str and maxBytes = maxBytes])
  case (shortened start)
  then show ?thesis by (metis append_take_drop_id fst_conv)
qed simp

text \<open>No clean cut further left fits the budget: the retained suffix is the longest one.\<close>

lemma clean_cut_before:
  assumes "j < start" "start \<le> length str" "clean_cut (take j str) (drop j str)"
  shows "j \<le> codePointStart str start"
proof (rule ccontr)
  assume "\<not> j \<le> codePointStart str start"
  with assms(1) have c: "is_low (str ! (start - 1))" "0 < start - 1" "is_high (str ! (start - 1 - 1))"
    and "codePointStart str start = start - 1 - 1"
    by (auto simp: codePointStart_def Let_def split: if_splits)
  with \<open>\<not> j \<le> codePointStart str start\<close> assms(1) have "j = start - 1" by linarith
  with c have j: "j = start - 1" "0 < j" "is_low (str ! j)" "is_high (str ! (j - 1))" by simp_all
  have "last (take j str) = str ! (j - 1)"
    using j assms by (subst last_conv_nth) (auto simp: min_def)
  moreover have "hd (drop j str) = str ! j"
    using j assms by (simp add: hd_drop_conv_nth)
  ultimately show False
    using assms j by (auto simp: clean_cut_def)
qed

lemma utf8Suffix_longest:
  assumes long: "maxBytes < utf8ByteLength str"
    and cut: "str = prefix @ suffix" "clean_cut prefix suffix"
    and fits: "utf8ByteLength suffix \<le> maxBytes"
  shows "length suffix \<le> length (fst (utf8Suffix str maxBytes))"
proof (cases rule: utf8Suffix_cases [where str = str and maxBytes = maxBytes])
  case (shortened start)
  let ?p = "codePointStart str start"
  show ?thesis
  proof (cases "start \<le> length prefix")
    case False
    have start: "start \<le> length str" and clean: "clean_cut (take start str) (drop start str)"
      using shortened by (simp_all add: suffix_point_def)
    have pre: "length prefix \<le> ?p"
      using clean_cut_before [of "length prefix" start str] False start cut by simp
    have "clean_cut (take ?p str) (drop ?p str)"
      using codePointStart_clean [OF shortened(4) start clean] .
    moreover have "drop (length prefix) (take ?p str) @ drop ?p str = suffix"
      using cut(1) pre by (simp add: drop_take)
    moreover have "clean_cut (drop (length prefix) (take ?p str)) (drop ?p str)"
      using calculation(1) by (auto simp: clean_cut_def last_drop)
    ultimately have "utf8ByteLength (drop ?p str) \<le> utf8ByteLength suffix"
      using utf8ByteLength_append by (metis le_add2)
    with shortened(3,4) fits show ?thesis
      by (simp add: next_exceeds_def)
  qed (use shortened cut in simp)
qed (use long in simp)

section \<open>White space and the projection envelope\<close>

text \<open>The characters of \<open>\\s\<close>, which are the ones \<open>String.prototype.trim\<close> removes.\<close>

definition is_space :: "jchar \<Rightarrow> bool" where
  "is_space c \<longleftrightarrow> c \<in> set [0x09, 0x0A, 0x0B, 0x0C, 0x0D, 0x20, 0xA0, 0x1680, 0x2028, 0x2029,
      0x202F, 0x205F, 0x3000, 0xFEFF]
    \<or> 0x2000 \<le> c \<and> c \<le> 0x200A"

definition trimStart :: "jstring \<Rightarrow> jstring" where
  "trimStart s = dropWhile is_space s"

definition trimEnd :: "jstring \<Rightarrow> jstring" where
  "trimEnd s = rev (dropWhile is_space (rev s))"

definition trim :: "jstring \<Rightarrow> jstring" where
  "trim s = trimEnd (trimStart s)"

lemma trim_eq_Nil_iff: "trim s = [] \<longleftrightarrow> (\<forall>c \<in> set s. is_space c)"
proof -
  have "trim s = [] \<longleftrightarrow> (\<forall>c \<in> set (dropWhile is_space s). is_space c)"
    by (simp add: trim_def trimStart_def trimEnd_def dropWhile_eq_Nil_conv)
  also have "\<dots> \<longleftrightarrow> (\<forall>c \<in> set s. is_space c)"
    by (metis (no_types, lifting) dropWhile_eq_Nil_conv hd_dropWhile list.set_sel(1) set_dropWhileD)
  finally show ?thesis .
qed

definition is_digit :: "jchar \<Rightarrow> bool" where
  "is_digit c \<longleftrightarrow> 0x30 \<le> c \<and> c \<le> 0x39"

definition LF :: jchar where "LF = 0x0A"
definition CR :: jchar where "CR = 0x0D"

text \<open>A literal prefix, and the optional line break that both ends of the envelope allow.\<close>

fun strip_prefix :: "jstring \<Rightarrow> jstring \<Rightarrow> jstring option" where
  "strip_prefix [] s = Some s"
| "strip_prefix (p # ps) [] = None"
| "strip_prefix (p # ps) (c # s) = (if p = c then strip_prefix ps s else None)"

fun strip_newline :: "jstring \<Rightarrow> jstring" where
  "strip_newline (c # s) =
    (if c = LF then s
     else if c = CR then (case s of d # s' \<Rightarrow> if d = LF then s' else c # s | [] \<Rightarrow> c # s)
     else c # s)"
| "strip_newline [] = []"

definition envelope_open :: jstring where
  "envelope_open = js ''<message ref=\"m''"

definition envelope_close :: jstring where
  "envelope_close = js ''</message>''"

text \<open>What follows the captured text: an optional line break, the closing tag, white space, the end.\<close>

definition envelope_tail :: "jstring \<Rightarrow> bool" where
  "envelope_tail s \<longleftrightarrow>
    (case strip_prefix envelope_close (strip_newline s) of
       None \<Rightarrow> False
     | Some rest \<Rightarrow> list_all is_space rest)"

text \<open>The lazy capture: the shortest text after which the tail matches.\<close>

fun lazy_capture :: "jstring \<Rightarrow> jstring option" where
  "lazy_capture s =
    (if envelope_tail s then Some []
     else case s of [] \<Rightarrow> None | c # cs \<Rightarrow> map_option ((#) c) (lazy_capture cs))"

declare lazy_capture.simps [simp del]

definition match_envelope :: "jstring \<Rightarrow> jstring option" where
  "match_envelope s =
    (case strip_prefix envelope_open (dropWhile is_space s) of
       None \<Rightarrow> None
     | Some r \<Rightarrow>
         (if length (takeWhile is_digit r) < 4 then None
          else case strip_prefix (js ''\">'') (dropWhile is_digit r) of
              None \<Rightarrow> None
            | Some body \<Rightarrow> lazy_capture (strip_newline body)))"

definition unwrapAssistantProjectionEnvelope :: "jstring \<Rightarrow> jstring" where
  "unwrapAssistantProjectionEnvelope s = (case match_envelope s of None \<Rightarrow> s | Some t \<Rightarrow> t)"

lemma strip_prefix_Some_iff: "strip_prefix p s = Some r \<longleftrightarrow> s = p @ r"
  by (induction p s rule: strip_prefix.induct) auto

lemma strip_newline_cases:
  obtains nl where "nl \<in> {[], [LF], [CR, LF]}" "s = nl @ strip_newline s"
proof -
  have "\<exists>nl \<in> {[], [LF], [CR, LF]}. s = nl @ strip_newline s"
    by (cases s) (auto split: list.splits)
  then show ?thesis
    using that by blast
qed

lemma is_space_gt: "\<not> is_space 0x3E"
  by (simp add: is_space_def word_le_nat_alt)

lemma envelope_close_snoc: "\<exists>u. envelope_close = u @ [0x3E]"
  by (simp add: envelope_close_def js_def)

definition envelope_of :: "jstring \<Rightarrow> jstring \<Rightarrow> bool" where
  "envelope_of s t \<longleftrightarrow> (\<exists>ws digits nl nl' ws'.
     s = ws @ envelope_open @ digits @ js ''\">'' @ nl @ t @ nl' @ envelope_close @ ws'
   \<and> list_all is_space ws \<and> list_all is_space ws' \<and> list_all is_digit digits \<and> 4 \<le> length digits
   \<and> nl \<in> {[], [LF], [CR, LF]} \<and> nl' \<in> {[], [LF], [CR, LF]})"

lemma envelope_tailD:
  assumes "envelope_tail s"
  obtains nl ws where "s = nl @ envelope_close @ ws" "nl \<in> {[], [LF], [CR, LF]}" "list_all is_space ws"
proof -
  from assms obtain ws where ws: "strip_newline s = envelope_close @ ws" "list_all is_space ws"
    by (auto simp: envelope_tail_def strip_prefix_Some_iff split: option.splits)
  obtain nl where "nl \<in> {[], [LF], [CR, LF]}" "s = nl @ strip_newline s"
    by (rule strip_newline_cases)
  with ws show ?thesis
    by (intro that [of nl ws]) simp_all
qed

lemma lazy_captureD:
  "lazy_capture s = Some t \<Longrightarrow> \<exists>rest. s = t @ rest \<and> envelope_tail rest"
proof (induction s arbitrary: t)
  case Nil
  then show ?case by (subst (asm) lazy_capture.simps) (auto split: if_splits)
next
  case (Cons c s)
  show ?case
  proof (cases "envelope_tail (c # s)")
    case True
    with Cons.prems show ?thesis by (subst (asm) lazy_capture.simps) auto
  next
    case False
    with Cons.prems obtain u where "lazy_capture s = Some u" "t = c # u"
      by (subst (asm) lazy_capture.simps) auto
    with Cons.IH show ?thesis by force
  qed
qed

lemma match_envelope_sound: "match_envelope s = Some t \<Longrightarrow> envelope_of s t"
proof -
  assume m: "match_envelope s = Some t"
  then obtain r body where r: "dropWhile is_space s = envelope_open @ r" "4 \<le> length (takeWhile is_digit r)"
      "dropWhile is_digit r = js ''\">'' @ body" "lazy_capture (strip_newline body) = Some t"
    by (auto simp: match_envelope_def strip_prefix_Some_iff split: option.splits if_splits)
  obtain nl where nl: "nl \<in> {[], [LF], [CR, LF]}" "body = nl @ strip_newline body"
    by (rule strip_newline_cases)
  obtain rest where rest: "strip_newline body = t @ rest" "envelope_tail rest"
    using lazy_captureD [OF r(4)] by blast
  obtain nl' ws' where tail: "rest = nl' @ envelope_close @ ws'" "nl' \<in> {[], [LF], [CR, LF]}"
      "list_all is_space ws'"
    using envelope_tailD [OF rest(2)] .
  have "s = takeWhile is_space s @ envelope_open @ takeWhile is_digit r @ js ''\">'' @ nl @ t @ nl'
      @ envelope_close @ ws'"
    using r(1,3) nl(2) rest(1) tail(1) by (metis append.assoc takeWhile_dropWhile_id)
  moreover have "list_all P (takeWhile P xs)" for P and xs :: jstring
    by (auto simp: list_all_iff dest: set_takeWhileD)
  ultimately show ?thesis
    unfolding envelope_of_def using r(2) nl(1) tail(2,3) by blast
qed

lemma envelope_tail_after:
  assumes "envelope_tail (r @ LF # envelope_close)" "r \<noteq> []"
  shows "last r = CR"
proof -
  obtain nl ws where eq: "r @ LF # envelope_close = nl @ envelope_close @ ws"
    and nl: "nl \<in> {[], [LF], [CR, LF]}" and ws: "list_all is_space ws"
    using envelope_tailD [OF assms(1)] .
  obtain u where u: "envelope_close = u @ [0x3E]"
    using envelope_close_snoc by blast
  have "ws = []"
  proof (rule ccontr)
    assume "ws \<noteq> []"
    then have "last ws = 0x3E"
      using arg_cong [OF eq, of last] unfolding u by simp
    with ws \<open>ws \<noteq> []\<close> is_space_gt show False
      by (metis last_in_set list_all_iff)
  qed
  with eq have "(r @ [LF]) @ envelope_close = nl @ envelope_close"
    by simp
  then have "r @ [LF] = nl"
    by (simp only: append_same_eq)
  with nl assms(2) show ?thesis
    by (auto simp: append_eq_Cons_conv Cons_eq_append_conv)
qed

lemma lazy_capture_wrapped:
  "t = [] \<or> last t \<noteq> CR \<Longrightarrow> lazy_capture (t @ LF # envelope_close) = Some t"
proof (induction t)
  case Nil
  have "envelope_tail (LF # envelope_close)"
    using strip_prefix_Some_iff [of envelope_close envelope_close "[]"]
    by (simp add: envelope_tail_def)
  then show ?case by (subst lazy_capture.simps) simp
next
  case (Cons c t)
  then have "\<not> envelope_tail (c # t @ LF # envelope_close)"
    using envelope_tail_after [of "c # t"] by auto
  with Cons show ?case
    by (subst lazy_capture.simps) (auto split: if_splits)
qed

definition wrap_envelope :: "jstring \<Rightarrow> jstring \<Rightarrow> jstring" where
  "wrap_envelope digits t = envelope_open @ digits @ js ''\">'' @ LF # t @ LF # envelope_close"

lemma open_not_space: "\<not> is_space (hd envelope_open)" "envelope_open \<noteq> []"
  by (simp_all add: envelope_open_def js_def is_space_def word_le_nat_alt)

lemma quote_not_digit: "\<not> is_digit (hd (js ''\">''))" "js ''\">'' \<noteq> []"
  by (simp_all add: js_def is_digit_def word_le_nat_alt)

lemma dropWhile_stop: "\<not> P (hd ys) \<Longrightarrow> ys \<noteq> [] \<Longrightarrow> dropWhile P (ys @ zs) = ys @ zs"
  by (cases ys) auto

lemma takeWhile_stop: "\<not> P (hd ys) \<Longrightarrow> ys \<noteq> [] \<Longrightarrow> takeWhile P (ys @ zs) = []"
  by (cases ys) auto

lemma unwrap_wrap_envelope:
  assumes "list_all is_digit digits" "4 \<le> length digits" "t = [] \<or> last t \<noteq> CR"
  shows "unwrapAssistantProjectionEnvelope (wrap_envelope digits t) = t"
proof -
  have digits: "takeWhile is_digit (digits @ js ''\">'' @ z) = digits"
      "dropWhile is_digit (digits @ js ''\">'' @ z) = js ''\">'' @ z" for z
    using assms(1) quote_not_digit
    by (simp_all add: list_all_iff dropWhile_stop takeWhile_stop)
  have strip: "strip_prefix p (p @ z) = Some z" for p z
    by (simp add: strip_prefix_Some_iff)
  show ?thesis
    using assms(2) lazy_capture_wrapped [OF assms(3)]
    by (simp add: unwrapAssistantProjectionEnvelope_def match_envelope_def wrap_envelope_def
        dropWhile_stop open_not_space strip digits)
qed

section \<open>The serialized size of a todo list\<close>

text \<open>
  \<open>JSON.stringify\<close> on strings and integral numbers: well-formed output escapes quotation marks,
  backslashes, control characters and lone surrogates.
\<close>

definition hex_digit :: "nat \<Rightarrow> jchar" where
  "hex_digit n = (if n < 10 then of_nat (0x30 + n) else of_nat (0x61 + n - 10))"

definition hex4 :: "jchar \<Rightarrow> jstring" where
  "hex4 c = (let n = unat c in
     [hex_digit (n div 4096 mod 16), hex_digit (n div 256 mod 16), hex_digit (n div 16 mod 16), hex_digit (n mod 16)])"

definition json_unicode_escape :: "jchar \<Rightarrow> jstring" where
  "json_unicode_escape c = [0x5C, 0x75] @ hex4 c"

definition json_char :: "jchar \<Rightarrow> jstring" where
  "json_char c =
    (if c = 0x22 then [0x5C, 0x22] else if c = 0x5C then [0x5C, 0x5C]
     else if c = 0x08 then [0x5C, 0x62] else if c = 0x0C then [0x5C, 0x66]
     else if c = 0x0A then [0x5C, 0x6E] else if c = 0x0D then [0x5C, 0x72]
     else if c = 0x09 then [0x5C, 0x74]
     else if c < 0x20 then json_unicode_escape c
     else [c])"

fun json_body :: "jstring \<Rightarrow> jstring" where
  "json_body [] = []"
| "json_body (c # cs) =
    (if is_high c then
       (case cs of
          d # ds \<Rightarrow> if is_low d then c # d # json_body ds else json_unicode_escape c @ json_body cs
        | [] \<Rightarrow> json_unicode_escape c)
     else if is_low c then json_unicode_escape c @ json_body cs
     else json_char c @ json_body cs)"

definition json_string :: "jstring \<Rightarrow> jstring" where
  "json_string s = [0x22] @ json_body s @ [0x22]"

fun decimal_nat :: "nat \<Rightarrow> jstring" where
  "decimal_nat n = (if n < 10 then [of_nat (0x30 + n)] else decimal_nat (n div 10) @ [of_nat (0x30 + n mod 10)])"

declare decimal_nat.simps [simp del]

definition decimal :: "int \<Rightarrow> jstring" where
  "decimal i = (if i < 0 then [0x2D] @ decimal_nat (nat (- i)) else decimal_nat (nat i))"

fun join_with :: "jstring \<Rightarrow> jstring list \<Rightarrow> jstring" where
  "join_with sep [] = []"
| "join_with sep [x] = x"
| "join_with sep (x # y # zs) = x @ sep @ join_with sep (y # zs)"

section \<open>Properties\<close>

text \<open>
  \<open>utf8Suffix\<close> keeps as much of the end of a string as its byte budget allows: the retained text
  fits, it is a suffix cut off between code points, every byte is either retained or counted as
  omitted, and no longer suffix with a clean cut fits.
\<close>
theorem utf8Suffix_keeps_longest_suffix:
  "utf8ByteLength (fst (utf8Suffix s m)) \<le> m
    \<and> utf8ByteLength (fst (utf8Suffix s m)) + snd (utf8Suffix s m) = utf8ByteLength s
    \<and> (\<exists>pre. s = pre @ fst (utf8Suffix s m) \<and> clean_cut pre (fst (utf8Suffix s m)))
    \<and> (\<forall>pre suf. s = pre @ suf \<longrightarrow> clean_cut pre suf \<longrightarrow> utf8ByteLength suf \<le> m
        \<longrightarrow> length suf \<le> length (fst (utf8Suffix s m)))"
proof (intro conjI allI impI)
  show "\<exists>pre. s = pre @ fst (utf8Suffix s m) \<and> clean_cut pre (fst (utf8Suffix s m))"
  proof (cases rule: utf8Suffix_cases [where str = s and maxBytes = m])
    case whole
    then show ?thesis by (simp add: clean_cut_def)
  next
    case (shortened start)
    then have "clean_cut (take start s) (drop start s)" by (simp add: suffix_point_def)
    with shortened show ?thesis by (metis append_take_drop_id fst_conv)
  qed
  fix pre suf assume "s = pre @ suf" "clean_cut pre suf" "utf8ByteLength suf \<le> m"
  then show "length suf \<le> length (fst (utf8Suffix s m))"
    by (cases "m < utf8ByteLength s") (simp add: utf8Suffix_longest, simp add: utf8Suffix_def)
qed (rule utf8Suffix_bound utf8Suffix_total)+

text \<open>
  Unwrapping undoes the projection envelope: text wrapped in an envelope comes back unchanged
  (unless it ends in a carriage return, which the closing line break absorbs), and whatever text is
  changed by unwrapping was the content of a complete envelope.
\<close>
theorem unwrap_undoes_envelope:
  assumes "list_all is_digit digits" "4 \<le> length digits" "t = [] \<or> last t \<noteq> CR"
  shows "unwrapAssistantProjectionEnvelope (wrap_envelope digits t) = t
    \<and> (unwrapAssistantProjectionEnvelope s = s \<or> envelope_of s (unwrapAssistantProjectionEnvelope s))"
  using unwrap_wrap_envelope [OF assms] match_envelope_sound [of s]
  by (auto simp: unwrapAssistantProjectionEnvelope_def split: option.splits)

end
