(* ===== verification/ProtocolTypes.thy ===== *)
theory ProtocolTypes
  imports JsValue JsText
begin

text \<open>
  The data of the Session protocol: packages/protocol/src/types.ts, model-runtime.ts,
  session-goal.ts, memory.ts, attachments.ts, delegation.ts and compression.ts.

  A record field carries the property name of the source behind a short prefix for its type, since
  field names share one name space. An optional property is an \<open>option\<close>, and so is a value that
  may be \<open>null\<close>. A union of string literals is a datatype, but for the fields whose value the
  program checks at run time (todo status, the Agent name, Profile and status of a child link) and
  for tool names and finish reasons, which stay strings. A discriminated union is a datatype with
  one constructor per member, and the fields its members share are one record.
\<close>

section \<open>Model selection, attachments, memory policy\<close>

record ModelSelectionRef =
  msr_model :: jstring
  msr_variant :: "jstring option"

datatype ModelSelectionMode = ModeProfileDefault | ModeSessionOverride

record RequestedModelSelection =
  rms_mode :: ModelSelectionMode
  rms_selection :: ModelSelectionRef

record SessionModelSelection =
  sms_revision :: int
  sms_override :: "ModelSelectionRef option"

datatype ModelBindingResolution = ResRequested | ResSessionOverride | ResProfileDefault

record ExecutionModelBindingSummary =
  emb_selection :: ModelSelectionRef
  emb_providerId :: jstring
  emb_modelId :: jstring
  emb_providerDisplayName :: jstring
  emb_modelDisplayName :: jstring
  emb_resolution :: ModelBindingResolution
  emb_modelRuntimeRevision :: jstring

datatype MessageModelAuditReason = ConfigInvalidated

record MessageModelAudit =
  mma_requested :: RequestedModelSelection
  mma_actual :: ModelSelectionRef
  mma_reason :: "MessageModelAuditReason option"

datatype AttachmentKind = ImageAttachment | FileAttachment

record AttachmentDescriptor =
  att_id :: jstring
  att_name :: jstring
  att_mediaType :: jstring
  att_sizeBytes :: int
  att_kind :: AttachmentKind

record MemoryPolicy =
  mp_useMemory :: bool
  mp_autoLearning :: bool

record MemoryPolicyEpoch =
  mpe_bootId :: jstring
  mpe_generation :: int

record MemoryPolicySnapshot =
  mps_policy :: MemoryPolicy
  mps_epoch :: MemoryPolicyEpoch

section \<open>Executions\<close>

datatype DelegatedAgentName = AnalystAgent | BuildAgent | ExploreAgent | LibrarianAgent

datatype DelegatedProfile = DeepProfile | FastProfile

record DelegationRequest =
  dr_agent_type :: DelegatedAgentName
  dr_profile :: DelegatedProfile
  dr_title :: jstring
  dr_objective :: jstring
  dr_skills :: "jstring list"
  dr_background :: bool

record ToolAuthorizationSnapshot =
  tas_extraTools :: "jstring list"
  tas_toolProjection :: "jstring list option"

record LoadedToolRef =
  ltr_name :: jstring
  ltr_descriptorDigest :: jstring

datatype SkillSourceTier =
    ProjectArchcode | ProjectAgents | UserArchcode | UserAgents | BuiltinSkill

record ExecutionSkillBinding =
  esb_name :: jstring
  esb_source :: SkillSourceTier
  esb_digest :: jstring
  esb_resolutionRoot :: jstring

datatype SessionExecutionOrigin = OriginUserMessage | OriginToolCall | OriginGoalContinuation

datatype SessionExecutionTerminalStatus =
    Completed | MaxSteps | Failed | Aborted | Cancelled | TimedOut | Interrupted

datatype SessionExecutionSuspension =
    HitlSuspension (toolBatchId: jstring) (blockerIds: "jstring list")
  | ChildDependency (toolBatchId: jstring) (childToolCallId: jstring) (childSessionId: jstring)
      (childExecutionId: jstring)
  | ResumePending (toolBatchId: jstring) (readyAt: int)

record NormalizedUsage =
  inputTokens :: int
  outputTokens :: int
  totalTokens :: int
  reasoningTokens :: int
  cachedInputTokens :: int

record StatsMessages =
  sm_user :: int
  sm_assistant :: int
  sm_total :: int

record StatsTools =
  st_calls :: int
  st_completed :: int
  st_failed :: int

record StatsSteps =
  ss_started :: int
  ss_completed :: int

record SessionStats =
  stats_messages :: StatsMessages
  stats_tools :: StatsTools
  stats_steps :: StatsSteps
  stats_usage :: NormalizedUsage

record SessionExecutionSettlementInput =
  stl_key :: jstring
  stl_goalInstanceId :: "jstring option"

record SessionExecutionSettlement = SessionExecutionSettlementInput +
  stl_appliedAt :: "int option"

datatype SessionExecutionRun =
    is_OpenRun: OpenRun (run_ordinal: int) (run_startedAt: int) (run_binding: ExecutionModelBindingSummary)
  | is_ClosedRun: ClosedRun (run_ordinal: int) (run_startedAt: int) (run_binding: ExecutionModelBindingSummary)
      (run_endedAt: int) (run_durationMs: int) (run_usageDelta: NormalizedUsage)
      (run_settlement: SessionExecutionSettlement)

datatype SessionExecutionState =
    Running
  | Suspended SessionExecutionSuspension
  | Terminal SessionExecutionTerminalStatus (term_endedAt: int)
      (term_finalOutputStepId: "jstring option") (term_error: "jstring option")
      (term_settlement: SessionExecutionSettlement)

record SessionExecutionRecord =
  ex_id :: jstring
  ex_startedAt :: int
  ex_origin :: SessionExecutionOrigin
  ex_maxSteps :: int
  ex_activeTimeoutMs :: "int option"
  ex_durationMs :: int
  ex_stopRequestedAt :: "int option"
  ex_runs :: "SessionExecutionRun list"
  ex_executionSkills :: "ExecutionSkillBinding list"
  ex_memoryPolicy :: MemoryPolicySnapshot
  ex_toolAuthorizationSnapshot :: ToolAuthorizationSnapshot
  ex_loadedToolRefs :: "LoadedToolRef list"
  ex_state :: SessionExecutionState

section \<open>Lifecycle events\<close>

record ExecutionStartEvent =
  es_executionId :: jstring
  es_origin :: SessionExecutionOrigin
  es_maxSteps :: int
  es_activeTimeoutMs :: "int option"
  es_binding :: ExecutionModelBindingSummary
  es_executionSkills :: "ExecutionSkillBinding list"
  es_memoryPolicy :: MemoryPolicySnapshot
  es_toolAuthorizationSnapshot :: ToolAuthorizationSnapshot
  es_loadedToolRefs :: "LoadedToolRef list"

record ExecutionSuspendedEvent =
  su_executionId :: jstring
  su_suspension :: SessionExecutionSuspension
  su_runEndedAt :: int
  su_runUsageDelta :: NormalizedUsage
  su_runSettlement :: SessionExecutionSettlementInput

record ExecutionResumedEvent =
  re_executionId :: jstring
  re_runOrdinal :: int
  re_binding :: ExecutionModelBindingSummary

record ExecutionEndEvent =
  en_executionId :: jstring
  en_terminalStatus :: SessionExecutionTerminalStatus
  en_finalOutputStepId :: "jstring option"
  en_endedAt :: int
  en_runEndedAt :: "int option"
  en_runUsageDelta :: "NormalizedUsage option"
  en_runSettlement :: "SessionExecutionSettlementInput option"
  en_terminalSettlement :: SessionExecutionSettlementInput
  en_error :: "jstring option"

datatype ExecutionLifecycleEvent =
    ExecutionStart ExecutionStartEvent
  | ExecutionSuspended ExecutionSuspendedEvent
  | ExecutionSuspensionUpdated jstring SessionExecutionSuspension
  | ExecutionResumed ExecutionResumedEvent
  | ExecutionEnd ExecutionEndEvent

datatype ExecutionTransitionValidation = Valid | Duplicate | Invalid jstring

section \<open>Goals\<close>

datatype SessionGoalStatus = GoalActive | GoalPaused | GoalBlocked | GoalBudgetLimited | GoalComplete

datatype SessionGoalNoticeAction =
    NoticeCreated | NoticeEdited | NoticePaused | NoticeResumed | NoticeCleared
  | NoticeBudgetUpdated | NoticeBudgetLimited | NoticeBlocked | NoticeCompleted

datatype GoalNoticeAuthority = UserControl | AgentAuthority | RuntimeAuthority

record SessionGoalNoticeSnapshot =
  gs_objective :: jstring
  gs_status :: SessionGoalStatus
  gs_tokenBudget :: "int option"
  gs_blockedReason :: "jstring option"

record GoalNoticePart =
  gn_id :: jstring
  gn_action :: SessionGoalNoticeAction
  gn_authority :: GoalNoticeAuthority
  gn_instanceId :: jstring
  gn_previousGeneration :: "int option"
  gn_generation :: int
  gn_goal :: "SessionGoalNoticeSnapshot option"
  gn_createdAt :: int

record SessionGoalUsage =
  gu_tokens :: NormalizedUsage
  gu_executionTimeMs :: int
  gu_executionCount :: int

record SessionGoal =
  go_instanceId :: jstring
  go_generation :: int
  go_objective :: jstring
  go_status :: SessionGoalStatus
  go_tokenBudget :: "int option"
  go_usage :: SessionGoalUsage
  go_settlementReceipts :: "jstring list"
  go_blockedReason :: "jstring option"
  go_createdAt :: int
  go_activatedAt :: int
  go_updatedAt :: int
  go_pausedAt :: "int option"
  go_completedAt :: "int option"

datatype SessionGoalChangeAction =
    ChangeCreated | ChangeEdited | ChangePaused | ChangeResumed | ChangeCleared
  | ChangeBudgetUpdated | ChangeBlocked | ChangeUsageRecorded | ChangeCompleted

record SessionGoalChangedEvent =
  gc_action :: SessionGoalChangeAction
  gc_instanceId :: jstring
  gc_generation :: int
  gc_goal :: "SessionGoal option"
  gc_status :: "SessionGoalStatus option"
  gc_reason :: "jstring option"
  gc_occurredAt :: int

end
