(* ===== verification/ProtocolState.thy ===== *)
theory ProtocolState
  imports ProtocolTypes
begin

text \<open>
  The projected Session and the events it is folded from: packages/protocol/src/types.ts from the
  queued message to \<open>SessionProjection\<close>. A patch is the \<open>Partial<SessionProjection>\<close> a
  reduction returns: a field is \<open>None\<close> when its key is absent, and \<open>Some v\<close> when the key is
  present with the value \<open>v\<close>; \<open>apply_patch\<close> is the shallow merge of the stores. The projection
  is kept by the record \<open>SessionProjection\<close>; \<open>compressionBlocks\<close> is absent or a list.
\<close>

section \<open>Queued messages, todos, reminders\<close>

datatype SessionMessageSource = SourceUser | SourceAutomation | SourceParentAgent

record ParentAgentMessageProvenance =
  pap_senderSessionId :: jstring
  pap_senderAgentName :: jstring
  pap_senderExecutionId :: jstring
  pap_senderRunOrdinal :: int
  pap_senderToolBatchId :: jstring
  pap_senderToolCallId :: jstring

datatype PendingMessageState = Queued | Steering

record PendingSessionMessage =
  pm_id :: jstring
  pm_clientRequestId :: jstring
  pm_content :: jstring
  pm_attachments :: "AttachmentDescriptor list"
  pm_source :: SessionMessageSource
  pm_parentAgentProvenance :: "ParentAgentMessageProvenance option"
  pm_state :: PendingMessageState
  pm_revision :: int
  pm_acceptedAt :: int
  pm_updatedAt :: int
  pm_targetExecutionId :: "jstring option"
  pm_targetRunOrdinal :: "int option"
  pm_targetModelAudit :: "MessageModelAudit option"
  pm_claimedAt :: "int option"
  pm_requestedModelSelection :: RequestedModelSelection
  pm_executionSkillNames :: "jstring list"

record SessionTodo =
  td_id :: jstring
  td_content :: jstring
  td_status :: jstring
  td_createdAt :: "int option"
  td_updatedAt :: "int option"

datatype ReminderSource =
    TodoStepReminder "SessionTodo list"
  | TodoLoopContinuation "SessionTodo list"
  | SubagentCompleted jstring "jstring option"
  | SubagentFailed jstring "jstring option"
  | SubagentTimedOut jstring "jstring option"
  | SubagentCancelled jstring "jstring option"
  | QueueDispatchBlocked jstring jstring jstring
  | SessionGoalChangedSource GoalNoticePart

datatype ReminderDelivery = AutoInject | OnDemand | ModelContext

record Reminder =
  rm_id :: jstring
  rm_source :: ReminderSource
  rm_delivery :: ReminderDelivery
  rm_sessionId :: "jstring option"
  rm_terminalState :: "jstring option"
  rm_content :: jstring
  rm_payload :: jsvalue
  rm_createdAt :: int
  rm_consumedAt :: "int option"
  rm_targetSessionId :: "jstring option"

section \<open>Tool results\<close>

record ToolOutputCount =
  toc_bytes :: int
  toc_lines :: int

datatype ToolOutputRecovery =
    RecoveryNone
  | RecoverySource jstring "(jstring, jsvalue) dict"
  | RecoveryArtifact jstring int

datatype ToolOutputCompleteness = CompleteOutput | PartialOutput

record ToolOutput =
  to_preview :: jstring
  to_completeness :: ToolOutputCompleteness
  to_observed :: ToolOutputCount
  to_canonical :: ToolOutputCount
  to_stored :: ToolOutputCount
  to_omitted :: ToolOutputCount
  to_recovery :: ToolOutputRecovery

record ToolResultErrorDetails =
  tre_kind :: jstring
  tre_code :: jstring
  tre_name :: jstring
  tre_hint :: "jstring option"

record ToolProcessDetails =
  tpd_exitCode :: "int option"
  tpd_signal :: "jstring option"
  tpd_timedOut :: bool
  tpd_aborted :: bool
  tpd_durationMs :: int

datatype DiffLineType = DiffContext | DiffAdd | DiffDelete
datatype DiffFileStatus = DiffModified | DiffCreated | DiffDeleted

record DiffHunk =
  dh_header :: jstring
  dh_oldStart :: int
  dh_oldLines :: int
  dh_newStart :: int
  dh_newLines :: int
  dh_lines :: "(DiffLineType \<times> jstring) list"

record DiffFile =
  df_path :: jstring
  df_status :: "DiffFileStatus option"
  df_additions :: "int option"
  df_deletions :: "int option"
  df_hunks :: "DiffHunk list"

datatype ToolResultPresentation =
    DiffPresentation "DiffFile list" bool bool
  | AskUserPresentation "(jstring \<times> jstring list) list" bool

record ToolResultDetails =
  trd_error :: "ToolResultErrorDetails option"
  trd_process :: "ToolProcessDetails option"
  trd_unknownResult :: bool
  trd_presentations :: "ToolResultPresentation list option"

record FinalizedToolResult =
  ftr_isError :: bool
  ftr_output :: ToolOutput
  ftr_details :: "ToolResultDetails option"

section \<open>Child links\<close>

record ToolChildSessionLink =
  cl_parentSessionId :: jstring
  cl_parentToolCallId :: jstring
  cl_toolName :: jstring
  cl_childSessionId :: jstring
  cl_childExecutionId :: jstring
  cl_childAgentName :: jstring
  cl_childProfile :: jstring
  cl_childSkillNames :: "jstring list"
  cl_title :: jstring
  cl_depth :: int
  cl_background :: bool
  cl_status :: jstring
  cl_createdAt :: int
  cl_startedAt :: "int option"
  cl_endedAt :: "int option"
  cl_durationMs :: "int option"
  cl_durationUpdatedAt :: "int option"
  cl_error :: "jstring option"

section \<open>Compression snapshots\<close>

datatype CompressionTrigger = ModelToolCall | SoftNudgeResponse | StrongNudgeResponse
datatype CompressionStrategy = DynamicRange
datatype CompressionBlockStatus = BlockActive | BlockInactive | BlockSuperseded

datatype CompressionSummarySectionName =
    CurrentObjective | UserConstraints | DecisionsMade | OpenTasks | ImportantFiles
  | ToolResults | ErrorsUnknownResults | ProtectedRefs | ChildBlockRefs | ResumeInstructions

text \<open>The section names are finitely many, so summaries, functions of the name, can be compared.\<close>

instantiation CompressionSummarySectionName :: enum
begin

definition enum_CompressionSummarySectionName :: "CompressionSummarySectionName list" where
  "enum_CompressionSummarySectionName = [CurrentObjective, UserConstraints, DecisionsMade, OpenTasks, ImportantFiles,
     ToolResults, ErrorsUnknownResults, ProtectedRefs, ChildBlockRefs, ResumeInstructions]"

definition enum_all_CompressionSummarySectionName :: "(CompressionSummarySectionName \<Rightarrow> bool) \<Rightarrow> bool" where
  "enum_all_CompressionSummarySectionName P \<longleftrightarrow> (\<forall>x \<in> set (enum_class.enum :: CompressionSummarySectionName list). P x)"

definition enum_ex_CompressionSummarySectionName :: "(CompressionSummarySectionName \<Rightarrow> bool) \<Rightarrow> bool" where
  "enum_ex_CompressionSummarySectionName P \<longleftrightarrow> (\<exists>x \<in> set (enum_class.enum :: CompressionSummarySectionName list). P x)"

instance
proof
  have all: "x \<in> set (enum_class.enum)" for x :: CompressionSummarySectionName
    by (cases x) (simp_all add: enum_CompressionSummarySectionName_def)
  then show univ: "UNIV = set (enum_class.enum :: CompressionSummarySectionName list)"
    by auto
  show "distinct (enum_class.enum :: CompressionSummarySectionName list)"
    by (simp add: enum_CompressionSummarySectionName_def)
  show "enum_class.enum_all P \<longleftrightarrow> Ball UNIV P" for P :: "CompressionSummarySectionName \<Rightarrow> bool"
    using all by (auto simp: enum_all_CompressionSummarySectionName_def)
  show "enum_class.enum_ex P \<longleftrightarrow> Bex UNIV P" for P :: "CompressionSummarySectionName \<Rightarrow> bool"
    using all by (auto simp: enum_ex_CompressionSummarySectionName_def)
qed

end

record CompressionRefMapSnapshot =
  crm_messageRefsById :: "(jstring, jstring) dict"
  crm_messageIdsByRef :: "(jstring, jstring) dict"
  crm_blockRefsById :: "(jstring, jstring) dict"
  crm_blockIdsByRef :: "(jstring, jstring) dict"
  crm_nextMessageIndex :: int
  crm_nextBlockIndex :: int

record CompressionRangeSnapshot =
  cr_startMessageId :: jstring
  cr_endMessageId :: jstring
  cr_startRef :: jstring
  cr_endRef :: jstring
  cr_startIndex :: int
  cr_endIndex :: int

record CompressionTokenEstimateSnapshot =
  cte_originalTokens :: int
  cte_summaryTokens :: int
  cte_savedTokens :: int
  cte_estimatedAt :: int

record CompressionBlockSnapshot =
  cb_id :: jstring
  cb_ref :: jstring
  cb_status :: CompressionBlockStatus
  cb_strategy :: CompressionStrategy
  cb_trigger :: CompressionTrigger
  cb_range :: CompressionRangeSnapshot
  cb_summary :: "CompressionSummarySectionName \<Rightarrow> jstring"
  cb_childBlockRefs :: "jstring list"
  cb_protectedRefs :: "jstring list"
  cb_tokenEstimate :: "CompressionTokenEstimateSnapshot option"
  cb_createdAt :: int
  cb_updatedAt :: int
  cb_deactivatedAt :: "int option"
  cb_supersededBy :: "jstring option"

record CompressionFailureSnapshot =
  cf_id :: jstring
  cf_reason :: jstring
  cf_startRef :: "jstring option"
  cf_endRef :: "jstring option"
  cf_strategy :: "CompressionStrategy option"
  cf_failedAt :: int

record CompressionStateSnapshot =
  cs_refMap :: CompressionRefMapSnapshot
  cs_blocksByRef :: "(jstring, CompressionBlockSnapshot) dict"
  cs_activeBlockRefs :: "jstring list"
  cs_inactiveBlockRefs :: "jstring list"
  cs_supersededBlockRefs :: "jstring list"
  cs_failures :: "CompressionFailureSnapshot list"
  cs_updatedAt :: "int option"

section \<open>Message parts\<close>

record TextPart =
  tx_id :: jstring
  tx_text :: jstring
  tx_createdAt :: int
  tx_completedAt :: "int option"
  tx_meta :: "(jstring, jsvalue) dict option"

text \<open>Assistant output and reasoning have the same fields; the channel is the constructor.\<close>

record BlockPart =
  bp_id :: jstring
  bp_blockId :: jstring
  bp_text :: jstring
  bp_createdAt :: int
  bp_completedAt :: "int option"
  bp_meta :: "(jstring, jsvalue) dict option"

record AttachmentPart =
  ap_id :: jstring
  ap_attachment :: AttachmentDescriptor
  ap_createdAt :: int
  ap_completedAt :: "int option"

record ToolPartBase =
  tp_id :: jstring
  tp_toolCallId :: jstring
  tp_toolName :: jstring
  tp_createdAt :: int
  tp_attemptId :: "jstring option"
  tp_attemptTimestamp :: "int option"
  tp_attemptDestructive :: "bool option"

record ToolLiveOutput =
  lo_preview :: jstring
  lo_omittedBytes :: int
  lo_liveLimitReached :: bool

datatype ToolPart =
    PendingTool (tool_base: ToolPartBase)
  | RunningTool (tool_base: ToolPartBase) jsvalue int "ToolLiveOutput option"
  | InterruptedTool (tool_base: ToolPartBase) "jsvalue option" "int option" int
  | CompletedTool (tool_base: ToolPartBase) jsvalue FinalizedToolResult int int
  | ErrorTool (tool_base: ToolPartBase) jsvalue FinalizedToolResult int int

record CompactionPart =
  cp_id :: jstring
  cp_summary :: jstring
  cp_tailStartId :: jstring
  cp_compactedAt :: int

record SystemNoticePart =
  sn_id :: jstring
  sn_notice :: jstring
  sn_createdAt :: int
  sn_completedAt :: "int option"

datatype RecoveryStatus = Scheduled | Retrying | Recovered | RecoveryFailed

record RecoveryNoticePart =
  rn_id :: jstring
  rn_status :: RecoveryStatus
  rn_message :: jstring
  rn_attempt :: int
  rn_nextRetryAt :: "int option"
  rn_errorKind :: "jstring option"
  rn_statusCode :: "int option"
  rn_createdAt :: int
  rn_completedAt :: "int option"

record CompressionBlockPart =
  cbp_id :: jstring
  cbp_blockRef :: jstring
  cbp_status :: CompressionBlockStatus
  cbp_strategy :: CompressionStrategy
  cbp_trigger :: CompressionTrigger
  cbp_summary :: jstring
  cbp_startRef :: jstring
  cbp_endRef :: jstring
  cbp_childBlockRefs :: "jstring list"
  cbp_committedAt :: int

datatype UserSessionPart =
    UserText TextPart
  | UserAttachment AttachmentPart
  | UserCompaction CompactionPart
  | UserSystemNotice SystemNoticePart
  | UserGoalNotice GoalNoticePart

datatype AssistantSessionPart =
    AssistantOutput BlockPart
  | ReasoningOutput BlockPart
  | AssistantTool ToolPart
  | AssistantSystemNotice SystemNoticePart
  | AssistantRecovery RecoveryNoticePart

section \<open>Messages and steps\<close>

record UserSessionMessage =
  um_id :: jstring
  um_createdAt :: int
  um_completedAt :: "int option"
  um_executionId :: "jstring option"
  um_runOrdinal :: "int option"
  um_clientRequestId :: "jstring option"
  um_inputSource :: "SessionMessageSource option"
  um_parentAgentProvenance :: "ParentAgentMessageProvenance option"
  um_compacted :: "bool option"
  um_parts :: "UserSessionPart list"
  um_modelAudit :: "MessageModelAudit option"

datatype OutputPhase = Commentary | FinalAnswer

record ModelStepAssistantMessage =
  am_id :: jstring
  am_createdAt :: int
  am_completedAt :: "int option"
  am_executionId :: jstring
  am_runOrdinal :: int
  am_stepId :: jstring
  am_outputPhase :: OutputPhase
  am_compacted :: "bool option"
  am_parts :: "AssistantSessionPart list"

datatype SessionMessage =
    UserMessage UserSessionMessage
  | AssistantMessage ModelStepAssistantMessage

record SessionStep =
  sp_id :: jstring
  sp_step :: int
  sp_executionId :: jstring
  sp_runOrdinal :: int
  sp_startedAt :: int
  sp_completedAt :: "int option"
  sp_finishReason :: "jstring option"
  sp_usage :: "NormalizedUsage option"
  sp_error :: "jstring option"

section \<open>Prompt traces\<close>

datatype PromptSourceStatus = PromptPresent | PromptAbsent | PromptError
datatype PromptMcpStatus = McpDisabled | McpConnecting | McpReady | McpReadyZero | McpPartialWarning | McpFailed
datatype PromptTraceStatus = TraceCompiled | TraceError

record PromptTraceSkills =
  pts_status :: PromptSourceStatus
  pts_includedEntries :: "(jstring \<times> jstring \<times> SkillSourceTier) list"
  pts_omittedCount :: int
  pts_renderedText :: jstring
  pts_byteLength :: int
  pts_active :: "(jstring \<times> jstring) list"

record PromptTraceSnapshot =
  pt_status :: PromptTraceStatus
  pt_hash :: jstring
  pt_sections :: "(jstring \<times> jstring \<times> jstring) list"
  pt_skills :: PromptTraceSkills
  pt_visibleTools :: "jstring list"
  pt_agentsMd :: PromptSourceStatus
  pt_memory :: PromptSourceStatus
  pt_mcp :: "(jstring, PromptMcpStatus) dict"
  pt_warnings :: "jstring list"

section \<open>The projection\<close>

record SessionProjection =
  sessionId :: jstring
  cwd :: jstring
  rootSessionId :: jstring
  parentSessionId :: "jstring option"
  delegationRequest :: "DelegationRequest option"
  goal :: "SessionGoal option"
  title :: "jstring option"
  messages :: "SessionMessage list"
  pendingMessages :: "PendingSessionMessage list"
  steps :: "SessionStep list"
  todos :: "SessionTodo list"
  reminders :: "Reminder list"
  childSessionLinks :: "ToolChildSessionLink list"
  stats :: SessionStats
  executions :: "SessionExecutionRecord list"
  promptTraces :: "PromptTraceSnapshot list option"
  executionCount :: int
  isRunning :: bool
  isStreamingModel :: bool
  currentExecutionId :: "jstring option"
  currentAssistantMessageId :: "jstring option"
  modelSelection :: SessionModelSelection
  compression :: "CompressionStateSnapshot option"
  compressionBlocks :: "CompressionBlockPart list option"

end
