(* ===== verification/ProtocolEvents.thy ===== *)
theory ProtocolEvents
  imports ProtocolState
begin

text \<open>
  The events a Session is folded from (the \<open>StreamEvent\<close> union and
  \<open>SessionGoalChangedEvent\<close>), the context of one reduction, and the patch it returns.

  The context supplies the clock and the identifiers of one call: \<open>rc_generateId ctx n\<close> is the
  result of the \<open>n\<close>-th call of \<open>generateId\<close> during that reduction.
\<close>

record LlmRecoveryInfo =
  lr_scope :: jstring
  lr_attempt :: int
  lr_message :: jstring
  lr_stepId :: "jstring option"
  lr_messageId :: "jstring option"
  lr_toolCallId :: "jstring option"

datatype LlmRecoveryVisibility = VisInternal | VisSession

datatype CompressionStreamEvent =
    BlockCommitted CompressionBlockSnapshot "CompressionStateSnapshot option"
  | BlockFailed CompressionFailureSnapshot "CompressionStateSnapshot option"
  | RefMapUpdated CompressionRefMapSnapshot "int option"

datatype StreamEvent =
    Lifecycle ExecutionLifecycleEvent
  | CwdChanged jstring jstring
  | ModelSelectionChanged SessionModelSelection
  | GoalChanged SessionGoalChangedEvent
  | MessageAccepted PendingSessionMessage
  | MessageEdited PendingSessionMessage
  | MessageDeleted jstring jstring int int
  | MessageSteerClaimed PendingSessionMessage
  | MessageSteerRolledBack PendingSessionMessage
  | MessagesCommitted jstring "SessionMessage list"
  | StopRequested jstring int
  | SystemNotice jstring
  | TextStart jstring jstring
  | TextDelta jstring jstring jstring
  | TextEnd jstring jstring
  | ReasoningStart jstring jstring
  | ReasoningDelta jstring jstring jstring
  | ReasoningEnd jstring jstring
  | ToolInputStart jstring jstring
  | ToolCall jstring jstring jsvalue
  | ToolInputResolved jstring jstring jsvalue
  | ToolAttempt jstring jstring jstring int bool
  | ToolOutputDelta jstring jstring jstring int bool
  | ToolResult jstring jstring int FinalizedToolResult
  | ChildSessionLinkEvent ToolChildSessionLink
  | TodoWrite "SessionTodo list"
  | ReminderAdded Reminder
  | ReminderConsumed "jstring list"
  | StepStart jstring int
  | StepEnd jstring int jstring jsvalue
  | ExecutionError jstring "(int \<times> jstring) option"
  | PromptTrace PromptTraceSnapshot
  | LlmRetry LlmRecoveryVisibility LlmRecoveryInfo jstring "int option"
  | LlmRecovery LlmRecoveryVisibility LlmRecoveryInfo "jstring option"
  | LlmRecoveryFailed LlmRecoveryInfo jstring "int option"
  | Compact jstring jstring
  | Compression CompressionStreamEvent

record ReduceContext =
  rc_timestamp :: int
  rc_generateId :: "nat \<Rightarrow> jstring"

section \<open>Patches\<close>

record SessionProjectionPatch =
  p_cwd :: "jstring option"
  p_goal :: "SessionGoal option option"
  p_messages :: "SessionMessage list option"
  p_pendingMessages :: "PendingSessionMessage list option"
  p_steps :: "SessionStep list option"
  p_todos :: "SessionTodo list option"
  p_reminders :: "Reminder list option"
  p_childSessionLinks :: "ToolChildSessionLink list option"
  p_stats :: "SessionStats option"
  p_executions :: "SessionExecutionRecord list option"
  p_promptTraces :: "PromptTraceSnapshot list option"
  p_executionCount :: "int option"
  p_isRunning :: "bool option"
  p_isStreamingModel :: "bool option"
  p_currentExecutionId :: "jstring option option"
  p_currentAssistantMessageId :: "jstring option option"
  p_modelSelection :: "SessionModelSelection option"
  p_compression :: "CompressionStateSnapshot option option"
  p_compressionBlocks :: "CompressionBlockPart list option"

definition no_patch :: SessionProjectionPatch where
  "no_patch = \<lparr> p_cwd = None, p_goal = None, p_messages = None, p_pendingMessages = None,
     p_steps = None, p_todos = None, p_reminders = None, p_childSessionLinks = None, p_stats = None,
     p_executions = None, p_promptTraces = None, p_executionCount = None, p_isRunning = None,
     p_isStreamingModel = None, p_currentExecutionId = None, p_currentAssistantMessageId = None,
     p_modelSelection = None, p_compression = None, p_compressionBlocks = None \<rparr>"

text \<open>The key is present in the patch, or the old value stays.\<close>

definition present :: "'a option \<Rightarrow> 'a \<Rightarrow> 'a" where
  "present new old = (case new of None \<Rightarrow> old | Some v \<Rightarrow> v)"

lemma present_simps [simp]: "present None old = old" "present (Some v) old = v"
  by (simp_all add: present_def)

text \<open>The shallow merge \<open>{ ...state, ...patch }\<close>.\<close>

definition apply_patch :: "SessionProjection \<Rightarrow> SessionProjectionPatch \<Rightarrow> SessionProjection" where
  "apply_patch s p = s\<lparr>
     cwd := present (p_cwd p) (cwd s),
     goal := present (p_goal p) (goal s),
     messages := present (p_messages p) (messages s),
     pendingMessages := present (p_pendingMessages p) (pendingMessages s),
     steps := present (p_steps p) (steps s),
     todos := present (p_todos p) (todos s),
     reminders := present (p_reminders p) (reminders s),
     childSessionLinks := present (p_childSessionLinks p) (childSessionLinks s),
     stats := present (p_stats p) (stats s),
     executions := present (p_executions p) (executions s),
     promptTraces := present (map_option Some (p_promptTraces p)) (promptTraces s),
     executionCount := present (p_executionCount p) (executionCount s),
     isRunning := present (p_isRunning p) (isRunning s),
     isStreamingModel := present (p_isStreamingModel p) (isStreamingModel s),
     currentExecutionId := present (p_currentExecutionId p) (currentExecutionId s),
     currentAssistantMessageId := present (p_currentAssistantMessageId p) (currentAssistantMessageId s),
     modelSelection := present (p_modelSelection p) (modelSelection s),
     compression := present (p_compression p) (compression s),
     compressionBlocks := present (map_option Some (p_compressionBlocks p)) (compressionBlocks s)\<rparr>"

lemma apply_patch_fields [simp]:
  "cwd (apply_patch s p) = present (p_cwd p) (cwd s)"
  "goal (apply_patch s p) = present (p_goal p) (goal s)"
  "messages (apply_patch s p) = present (p_messages p) (messages s)"
  "pendingMessages (apply_patch s p) = present (p_pendingMessages p) (pendingMessages s)"
  "steps (apply_patch s p) = present (p_steps p) (steps s)"
  "todos (apply_patch s p) = present (p_todos p) (todos s)"
  "reminders (apply_patch s p) = present (p_reminders p) (reminders s)"
  "childSessionLinks (apply_patch s p) = present (p_childSessionLinks p) (childSessionLinks s)"
  "stats (apply_patch s p) = present (p_stats p) (stats s)"
  "executions (apply_patch s p) = present (p_executions p) (executions s)"
  "promptTraces (apply_patch s p) = present (map_option Some (p_promptTraces p)) (promptTraces s)"
  "executionCount (apply_patch s p) = present (p_executionCount p) (executionCount s)"
  "isRunning (apply_patch s p) = present (p_isRunning p) (isRunning s)"
  "isStreamingModel (apply_patch s p) = present (p_isStreamingModel p) (isStreamingModel s)"
  "currentExecutionId (apply_patch s p) = present (p_currentExecutionId p) (currentExecutionId s)"
  "currentAssistantMessageId (apply_patch s p)
    = present (p_currentAssistantMessageId p) (currentAssistantMessageId s)"
  "modelSelection (apply_patch s p) = present (p_modelSelection p) (modelSelection s)"
  "compression (apply_patch s p) = present (p_compression p) (compression s)"
  "compressionBlocks (apply_patch s p)
    = present (map_option Some (p_compressionBlocks p)) (compressionBlocks s)"
  "sessionId (apply_patch s p) = sessionId s"
  "rootSessionId (apply_patch s p) = rootSessionId s"
  "parentSessionId (apply_patch s p) = parentSessionId s"
  by (simp_all add: apply_patch_def)

lemma no_patch_fields [simp]:
  "p_cwd no_patch = None" "p_goal no_patch = None" "p_messages no_patch = None"
  "p_pendingMessages no_patch = None" "p_steps no_patch = None" "p_todos no_patch = None"
  "p_reminders no_patch = None" "p_childSessionLinks no_patch = None" "p_stats no_patch = None"
  "p_executions no_patch = None" "p_promptTraces no_patch = None" "p_executionCount no_patch = None"
  "p_isRunning no_patch = None" "p_isStreamingModel no_patch = None"
  "p_currentExecutionId no_patch = None" "p_currentAssistantMessageId no_patch = None"
  "p_modelSelection no_patch = None" "p_compression no_patch = None" "p_compressionBlocks no_patch = None"
  by (simp_all add: no_patch_def)

lemma apply_no_patch [simp]: "apply_patch s no_patch = s"
  by (simp add: apply_patch_def)

end
