(* ===== verification/ExecutionLifecycle.thy ===== *)
theory ExecutionLifecycle
  imports ProtocolState
begin

text \<open>
  Logical Executions: the transition validation of packages/protocol/src/execution.ts and the
  record updates that reduce.ts performs for the five lifecycle events.

  Deep equality on typed fields is HOL equality of the modelled values (\<open>JsValue\<close> relates the
  source's \<open>equal\<close> to equality up to key order). A non-null assertion on a missing value
  (\<open>runs.at(-1)!\<close>, \<open>event.runEndedAt!\<close>) is an error branch; the invariant below shows that
  a validated event never takes it.
\<close>

section \<open>Validation\<close>

definition execution_message :: "jstring \<Rightarrow> string \<Rightarrow> jstring" where
  "execution_message executionId rest = js ''Execution '' @ executionId @ js rest"

fun is_terminal :: "SessionExecutionState \<Rightarrow> bool" where
  "is_terminal (Terminal _ _ _ _ _) = True"
| "is_terminal _ = False"

definition settlementMatches ::
  "'a SessionExecutionSettlementInput_scheme \<Rightarrow> 'b SessionExecutionSettlementInput_scheme \<Rightarrow> bool" where
  "settlementMatches persisted input \<longleftrightarrow>
     stl_key persisted = stl_key input \<and> stl_goalInstanceId persisted = stl_goalInstanceId input"

definition validateStart ::
  "SessionExecutionRecord list \<Rightarrow> SessionExecutionRecord option \<Rightarrow> ExecutionStartEvent
   \<Rightarrow> ExecutionTransitionValidation" where
  "validateStart exs execution event =
    (case execution of
       Some e \<Rightarrow>
         (case ex_runs e of
            firstRun # _ \<Rightarrow>
              if ex_origin e = es_origin event \<and> ex_maxSteps e = es_maxSteps event
                 \<and> ex_activeTimeoutMs e = es_activeTimeoutMs event
                 \<and> ex_executionSkills e = es_executionSkills event
                 \<and> ex_toolAuthorizationSnapshot e = es_toolAuthorizationSnapshot event
                 \<and> ex_loadedToolRefs e = es_loadedToolRefs event
                 \<and> run_binding firstRun = es_binding event
              then Duplicate
              else Invalid (execution_message (es_executionId event) '' already exists with a conflicting start'')
          | [] \<Rightarrow> Invalid (execution_message (es_executionId event) '' already exists with a conflicting start''))
     | None \<Rightarrow>
         if \<exists>candidate \<in> set exs. \<not> is_terminal (ex_state candidate)
         then Invalid (js ''A Session may have at most one nonterminal Execution'')
         else Valid)"

fun is_resume_pending :: "SessionExecutionSuspension \<Rightarrow> bool" where
  "is_resume_pending (ResumePending _ _) = True"
| "is_resume_pending _ = False"

fun is_hitl :: "SessionExecutionSuspension \<Rightarrow> bool" where
  "is_hitl (HitlSuspension _ _) = True"
| "is_hitl _ = False"

fun suspension_kind :: "SessionExecutionSuspension \<Rightarrow> string" where
  "suspension_kind (HitlSuspension _ _) = ''hitl''"
| "suspension_kind (ChildDependency _ _ _ _) = ''child_dependency''"
| "suspension_kind (ResumePending _ _) = ''resume_pending''"

definition validateSuspend ::
  "SessionExecutionRecord option \<Rightarrow> ExecutionSuspendedEvent \<Rightarrow> ExecutionTransitionValidation" where
  "validateSuspend execution event =
    (case execution of
       None \<Rightarrow> Invalid (execution_message (su_executionId event) '' does not exist'')
     | Some e \<Rightarrow>
         (case ex_state e of
            Suspended suspension \<Rightarrow>
              (case at_last (ex_runs e) of
                 Some (ClosedRun _ _ _ endedAt _ usageDelta settlement) \<Rightarrow>
                   if endedAt = su_runEndedAt event \<and> usageDelta = su_runUsageDelta event
                      \<and> settlementMatches settlement (su_runSettlement event)
                      \<and> suspension = su_suspension event
                   then Duplicate
                   else Invalid (execution_message (su_executionId event) '' is already suspended'')
               | _ \<Rightarrow> Invalid (execution_message (su_executionId event) '' is already suspended''))
          | Terminal _ _ _ _ _ \<Rightarrow> Invalid (execution_message (su_executionId event) '' is terminal'')
          | Running \<Rightarrow>
              if is_resume_pending (su_suspension event)
              then Invalid (js ''A running Execution cannot suspend directly as resume_pending'')
              else (case at_last (ex_runs e) of
                 Some (OpenRun _ startedAt _) \<Rightarrow>
                   if su_runEndedAt event < startedAt
                   then Invalid (js ''runEndedAt precedes the active run'')
                   else Valid
               | _ \<Rightarrow> Invalid (execution_message (su_executionId event) '' has no open run''))))"

definition validateSuspensionUpdate ::
  "SessionExecutionRecord option \<Rightarrow> jstring \<Rightarrow> SessionExecutionSuspension
   \<Rightarrow> ExecutionTransitionValidation" where
  "validateSuspensionUpdate execution executionId suspension =
    (case execution of
       None \<Rightarrow> Invalid (execution_message executionId '' does not exist'')
     | Some e \<Rightarrow>
         (case ex_state e of
            Suspended current \<Rightarrow>
              if current = suspension then Duplicate
              else if is_resume_pending current
              then Invalid (js ''A resume-pending suspension cannot be updated'')
              else if toolBatchId current \<noteq> toolBatchId suspension
              then Invalid (js ''A suspension update cannot change its Tool Batch'')
              else if is_resume_pending suspension then Valid
              else if is_hitl current \<and> is_hitl suspension then Valid
              else Invalid (js ''Invalid suspension update from '' @ js (suspension_kind current)
                     @ js '' to '' @ js (suspension_kind suspension))
          | _ \<Rightarrow> Invalid (execution_message executionId '' is not suspended'')))"

definition validateResume ::
  "SessionExecutionRecord option \<Rightarrow> ExecutionResumedEvent \<Rightarrow> ExecutionTransitionValidation" where
  "validateResume execution event =
    (case execution of
       None \<Rightarrow> Invalid (execution_message (re_executionId event) '' does not exist'')
     | Some e \<Rightarrow>
         (case ex_state e of
            Running \<Rightarrow>
              (case at_last (ex_runs e) of
                 Some (OpenRun ordinal _ binding) \<Rightarrow>
                   if 1 < length (ex_runs e) \<and> ordinal = re_runOrdinal event \<and> binding = re_binding event
                   then Duplicate
                   else Invalid (execution_message (re_executionId event) '' is already running'')
               | _ \<Rightarrow> Invalid (execution_message (re_executionId event) '' is already running''))
          | Terminal _ _ _ _ _ \<Rightarrow> Invalid (execution_message (re_executionId event) '' is terminal'')
          | Suspended suspension \<Rightarrow>
              if \<not> is_resume_pending suspension
              then Invalid (execution_message (re_executionId event) '' is not ready to resume'')
              else if re_runOrdinal event \<noteq> int (length (ex_runs e))
              then Invalid (execution_message (re_executionId event) '' expected resume run ''
                     @ decimal (int (length (ex_runs e))) @ js '', received '' @ decimal (re_runOrdinal event))
              else Valid))"

text \<open>Whether a replayed end event closed the last run with the same values.\<close>

definition sameRunClose :: "SessionExecutionRun option \<Rightarrow> ExecutionEndEvent \<Rightarrow> bool" where
  "sameRunClose run event =
    (case en_runEndedAt event of
       None \<Rightarrow> en_runUsageDelta event = None \<and> en_runSettlement event = None
     | Some runEndedAt \<Rightarrow>
         (case (en_runSettlement event, run) of
            (Some settlementInput, Some (ClosedRun _ _ _ endedAt _ usageDelta settlement)) \<Rightarrow>
              endedAt = runEndedAt \<and> en_runUsageDelta event = Some usageDelta
              \<and> settlementMatches settlement settlementInput
          | _ \<Rightarrow> False))"

definition validateEnd ::
  "SessionExecutionRecord option \<Rightarrow> ExecutionEndEvent \<Rightarrow> ExecutionTransitionValidation" where
  "validateEnd execution event =
    (case execution of
       None \<Rightarrow> Invalid (execution_message (en_executionId event) '' does not exist'')
     | Some e \<Rightarrow>
         (case ex_state e of
            Terminal status endedAt finalOutputStepId err terminalSettlement \<Rightarrow>
              if status = en_terminalStatus event \<and> endedAt = en_endedAt event
                 \<and> finalOutputStepId = en_finalOutputStepId event \<and> err = en_error event
                 \<and> settlementMatches terminalSettlement (en_terminalSettlement event)
                 \<and> sameRunClose (at_last (ex_runs e)) event
              then Duplicate
              else Invalid (execution_message (en_executionId event) '' is already terminal'')
          | st \<Rightarrow>
              if en_finalOutputStepId event \<noteq> None \<and> en_terminalStatus event \<noteq> Completed
              then Invalid (js ''Only a completed Execution may select final Assistant output'')
              else if st = Running then
                (case (en_runEndedAt event, en_runUsageDelta event, en_runSettlement event) of
                   (Some runEndedAt, Some _, Some _) \<Rightarrow>
                     (case at_last (ex_runs e) of
                        Some (OpenRun _ startedAt _) \<Rightarrow>
                          if runEndedAt < startedAt \<or> en_endedAt event < runEndedAt
                          then Invalid (js ''Execution end times are outside the active run'')
                          else Valid
                      | _ \<Rightarrow> Invalid (execution_message (en_executionId event) '' has no open run''))
                 | _ \<Rightarrow> Invalid (js ''Ending a running Execution must close its active run''))
              else if en_runEndedAt event \<noteq> None \<or> en_runUsageDelta event \<noteq> None
                 \<or> en_runSettlement event \<noteq> None
              then Invalid (js ''Ending a suspended Execution cannot close a run'')
              else (case at_last (ex_runs e) of
                 Some (ClosedRun _ _ _ endedAt _ _ _) \<Rightarrow>
                   if en_endedAt event < endedAt
                   then Invalid (js ''endedAt precedes the last closed run'') else Valid
               | _ \<Rightarrow> Valid)))"

definition lifecycle_executionId :: "ExecutionLifecycleEvent \<Rightarrow> jstring" where
  "lifecycle_executionId event = (case event of
     ExecutionStart e \<Rightarrow> es_executionId e
   | ExecutionSuspended e \<Rightarrow> su_executionId e
   | ExecutionSuspensionUpdated i _ \<Rightarrow> i
   | ExecutionResumed e \<Rightarrow> re_executionId e
   | ExecutionEnd e \<Rightarrow> en_executionId e)"

definition find_execution :: "SessionExecutionRecord list \<Rightarrow> jstring \<Rightarrow> SessionExecutionRecord option" where
  "find_execution exs executionId = find (\<lambda>candidate. ex_id candidate = executionId) exs"

definition validateExecutionTransition ::
  "SessionExecutionRecord list \<Rightarrow> ExecutionLifecycleEvent \<Rightarrow> ExecutionTransitionValidation" where
  "validateExecutionTransition exs event =
    (let execution = find_execution exs (lifecycle_executionId event) in
     case event of
       ExecutionStart e \<Rightarrow> validateStart exs execution e
     | ExecutionSuspended e \<Rightarrow> validateSuspend execution e
     | ExecutionSuspensionUpdated i suspension \<Rightarrow> validateSuspensionUpdate execution i suspension
     | ExecutionResumed e \<Rightarrow> validateResume execution e
     | ExecutionEnd e \<Rightarrow> validateEnd execution e)"

section \<open>Record updates\<close>

definition persist_settlement :: "SessionExecutionSettlementInput \<Rightarrow> SessionExecutionSettlement" where
  "persist_settlement input = \<lparr> stl_key = stl_key input, stl_goalInstanceId = stl_goalInstanceId input,
     stl_appliedAt = None \<rparr>"

definition close_run ::
  "SessionExecutionRun \<Rightarrow> int \<Rightarrow> int \<Rightarrow> NormalizedUsage \<Rightarrow> SessionExecutionSettlementInput
   \<Rightarrow> SessionExecutionRun" where
  "close_run run endedAt durationMs usageDelta settlement =
     ClosedRun (run_ordinal run) (run_startedAt run) (run_binding run) endedAt durationMs usageDelta
       (persist_settlement settlement)"

definition startExecution :: "ExecutionStartEvent \<Rightarrow> int \<Rightarrow> SessionExecutionRecord" where
  "startExecution event timestamp = \<lparr>
     ex_id = es_executionId event, ex_startedAt = timestamp, ex_origin = es_origin event,
     ex_maxSteps = es_maxSteps event, ex_activeTimeoutMs = es_activeTimeoutMs event,
     ex_durationMs = 0, ex_stopRequestedAt = None,
     ex_runs = [OpenRun 0 timestamp (es_binding event)],
     ex_executionSkills = es_executionSkills event, ex_memoryPolicy = es_memoryPolicy event,
     ex_toolAuthorizationSnapshot = es_toolAuthorizationSnapshot event,
     ex_loadedToolRefs = es_loadedToolRefs event, ex_state = Running \<rparr>"

definition missing_value :: "string \<Rightarrow> js_error" where
  "missing_value what = TypeError (js what)"

definition suspendExecution ::
  "ExecutionSuspendedEvent \<Rightarrow> SessionExecutionRecord \<Rightarrow> js_error + SessionExecutionRecord" where
  "suspendExecution event execution =
    (if ex_id execution \<noteq> su_executionId event \<or> ex_state execution \<noteq> Running then Inr execution
     else case at_last (ex_runs execution) of
       None \<Rightarrow> Inl (missing_value ''run'')
     | Some run \<Rightarrow>
         (let durationMs = max 0 (su_runEndedAt event - run_startedAt run) in
          Inr (execution\<lparr>
            ex_state := Suspended (su_suspension event),
            ex_durationMs := ex_durationMs execution + durationMs,
            ex_runs := butlast (ex_runs execution)
              @ [close_run run (su_runEndedAt event) durationMs (su_runUsageDelta event)
                   (su_runSettlement event)]\<rparr>)))"

definition updateSuspension ::
  "jstring \<Rightarrow> SessionExecutionSuspension \<Rightarrow> SessionExecutionRecord \<Rightarrow> SessionExecutionRecord" where
  "updateSuspension executionId suspension execution =
    (case ex_state execution of
       Suspended _ \<Rightarrow>
         if ex_id execution = executionId then execution\<lparr>ex_state := Suspended suspension\<rparr> else execution
     | _ \<Rightarrow> execution)"

definition resumeExecution ::
  "SessionExecutionRecord \<Rightarrow> int \<Rightarrow> ExecutionModelBindingSummary \<Rightarrow> int \<Rightarrow> SessionExecutionRecord" where
  "resumeExecution execution runOrdinal binding startedAt =
     execution\<lparr>ex_state := Running,
       ex_runs := ex_runs execution @ [OpenRun runOrdinal startedAt binding]\<rparr>"

definition resumeMatching ::
  "ExecutionResumedEvent \<Rightarrow> int \<Rightarrow> SessionExecutionRecord \<Rightarrow> SessionExecutionRecord" where
  "resumeMatching event timestamp execution =
    (case ex_state execution of
       Suspended _ \<Rightarrow>
         if ex_id execution = re_executionId event
         then resumeExecution execution (re_runOrdinal event) (re_binding event) timestamp
         else execution
     | _ \<Rightarrow> execution)"

definition endMatching ::
  "ExecutionEndEvent \<Rightarrow> SessionExecutionRecord \<Rightarrow> js_error + SessionExecutionRecord" where
  "endMatching event execution =
    (if ex_id execution \<noteq> en_executionId event \<or> is_terminal (ex_state execution) then Inr execution
     else let state' = Terminal (en_terminalStatus event) (en_endedAt event) (en_finalOutputStepId event)
                (en_error event) (persist_settlement (en_terminalSettlement event)) in
       if ex_state execution = Running then
         (case (at_last (ex_runs execution), en_runEndedAt event, en_runUsageDelta event,
                en_runSettlement event) of
            (Some run, Some runEndedAt, Some usageDelta, Some settlement) \<Rightarrow>
              (let runDurationMs = max 0 (runEndedAt - run_startedAt run) in
               Inr (execution\<lparr>
                 ex_state := state',
                 ex_durationMs := ex_durationMs execution + runDurationMs,
                 ex_runs := butlast (ex_runs execution)
                   @ [close_run run runEndedAt runDurationMs usageDelta settlement]\<rparr>))
          | _ \<Rightarrow> Inl (missing_value ''run''))
       else Inr (execution\<lparr>ex_state := state'\<rparr>))"

definition endExecution ::
  "SessionExecutionRecord list \<Rightarrow> ExecutionEndEvent \<Rightarrow> js_error + SessionExecutionRecord list" where
  "endExecution exs event = mapE (endMatching event) exs"

text \<open>The executions after one lifecycle event.\<close>

definition lifecycleExecutions ::
  "SessionExecutionRecord list \<Rightarrow> ExecutionLifecycleEvent \<Rightarrow> int \<Rightarrow> js_error + SessionExecutionRecord list" where
  "lifecycleExecutions exs event timestamp =
    (case event of
       ExecutionStart e \<Rightarrow> Inr (exs @ [startExecution e timestamp])
     | ExecutionSuspended e \<Rightarrow> mapE (suspendExecution e) exs
     | ExecutionSuspensionUpdated i suspension \<Rightarrow> Inr (map (updateSuspension i suspension) exs)
     | ExecutionResumed e \<Rightarrow> Inr (map (resumeMatching e timestamp) exs)
     | ExecutionEnd e \<Rightarrow> endExecution exs e)"

definition requestStop :: "jstring \<Rightarrow> int \<Rightarrow> SessionExecutionRecord \<Rightarrow> SessionExecutionRecord" where
  "requestStop executionId timestamp execution =
    (if ex_id execution \<noteq> executionId then execution
     else execution\<lparr>ex_stopRequestedAt :=
       Some (max (case ex_stopRequestedAt execution of None \<Rightarrow> 0 | Some t \<Rightarrow> t) timestamp)\<rparr>)"

end
