(* ===== verification/SessionStatistics.thy ===== *)
theory SessionStatistics
  imports ProtocolState
begin

text \<open>
  Token usage (packages/protocol/src/usage.ts) and the counters of a Session (the \<open>increment\<close>
  functions of reduce.ts), with the balance of the message counters.
\<close>

section \<open>Usage\<close>

definition EMPTY_USAGE :: NormalizedUsage where
  "EMPTY_USAGE = \<lparr> inputTokens = 0, outputTokens = 0, totalTokens = 0, reasoningTokens = 0,
     cachedInputTokens = 0 \<rparr>"

definition createEmptySessionStats :: SessionStats where
  "createEmptySessionStats = \<lparr>
     stats_messages = \<lparr> sm_user = 0, sm_assistant = 0, sm_total = 0 \<rparr>,
     stats_tools = \<lparr> st_calls = 0, st_completed = 0, st_failed = 0 \<rparr>,
     stats_steps = \<lparr> ss_started = 0, ss_completed = 0 \<rparr>,
     stats_usage = EMPTY_USAGE \<rparr>"

text \<open>\<open>typeof value === "number" && Number.isFinite(value)\<close>.\<close>

fun finite_number :: "jsvalue option \<Rightarrow> int option" where
  "finite_number (Some (JsNumber (JsFinite i))) = Some i"
| "finite_number _ = None"

fun firstNumber :: "(jstring, jsvalue) dict \<Rightarrow> jstring list \<Rightarrow> int option" where
  "firstNumber record [] = None"
| "firstNumber record (key # keys) =
    (case finite_number (map_of record key) of Some i \<Rightarrow> Some i | None \<Rightarrow> firstNumber record keys)"

text \<open>An array is an object too; none of the keys read here is a property of an array.\<close>

definition nestedNumber :: "(jstring, jsvalue) dict \<Rightarrow> jstring \<Rightarrow> jstring \<Rightarrow> int option" where
  "nestedNumber record objectKey valueKey =
    (case map_of record objectKey of
       Some (JsObject nested) \<Rightarrow> finite_number (map_of nested valueKey)
     | _ \<Rightarrow> None)"

fun coalesce :: "'a option list \<Rightarrow> 'a \<Rightarrow> 'a" where
  "coalesce [] d = d"
| "coalesce (Some v # _) d = v"
| "coalesce (None # os) d = coalesce os d"

definition normalizeUsageRecord :: "(jstring, jsvalue) dict \<Rightarrow> NormalizedUsage" where
  "normalizeUsageRecord record =
    (let i = coalesce [firstNumber record [js ''inputTokens'', js ''promptTokens'', js ''prompt_tokens'',
               js ''input_tokens'', js ''prompt_token_count'']] 0;
         o' = coalesce [firstNumber record [js ''outputTokens'', js ''completionTokens'',
               js ''completion_tokens'', js ''output_tokens'', js ''candidates_token_count'']] 0 in
     \<lparr> inputTokens = i,
       outputTokens = o',
       totalTokens = coalesce [firstNumber record [js ''totalTokens'', js ''total_tokens'',
               js ''total_token_count'']] (i + o'),
       reasoningTokens = coalesce [firstNumber record [js ''reasoningTokens'', js ''reasoning_tokens''],
               nestedNumber record (js ''completion_tokens_details'') (js ''reasoning_tokens''),
               nestedNumber record (js ''output_token_details'') (js ''reasoning'')] 0,
       cachedInputTokens = coalesce [firstNumber record [js ''cachedInputTokens'',
               js ''cached_input_tokens'', js ''cache_read_input_tokens''],
               nestedNumber record (js ''prompt_tokens_details'') (js ''cached_tokens'')] 0 \<rparr>)"

definition normalizeUsage :: "jsvalue \<Rightarrow> NormalizedUsage" where
  "normalizeUsage usage =
    (case usage of
       JsObject record \<Rightarrow> normalizeUsageRecord record
     | JsArray _ \<Rightarrow> normalizeUsageRecord []
     | _ \<Rightarrow> EMPTY_USAGE)"

definition addUsage :: "NormalizedUsage \<Rightarrow> NormalizedUsage \<Rightarrow> NormalizedUsage" where
  "addUsage a b = \<lparr>
     inputTokens = inputTokens a + inputTokens b,
     outputTokens = outputTokens a + outputTokens b,
     totalTokens = totalTokens a + totalTokens b,
     reasoningTokens = reasoningTokens a + reasoningTokens b,
     cachedInputTokens = cachedInputTokens a + cachedInputTokens b \<rparr>"

lemma addUsage_empty: "addUsage EMPTY_USAGE u = u" "addUsage u EMPTY_USAGE = u"
  by (cases u; simp add: addUsage_def EMPTY_USAGE_def)+

lemma addUsage_commute: "addUsage a b = addUsage b a"
  by (simp add: addUsage_def)

lemma addUsage_assoc: "addUsage (addUsage a b) c = addUsage a (addUsage b c)"
  by (simp add: addUsage_def)

text \<open>The values a normalized usage has are re-read unchanged: normalization is idempotent.\<close>

definition usage_value :: "NormalizedUsage \<Rightarrow> jsvalue" where
  "usage_value u = JsObject [
     (js ''inputTokens'', JsNumber (JsFinite (inputTokens u))),
     (js ''outputTokens'', JsNumber (JsFinite (outputTokens u))),
     (js ''totalTokens'', JsNumber (JsFinite (totalTokens u))),
     (js ''reasoningTokens'', JsNumber (JsFinite (reasoningTokens u))),
     (js ''cachedInputTokens'', JsNumber (JsFinite (cachedInputTokens u)))]"

lemma normalizeUsage_value: "normalizeUsage (usage_value u) = u"
  by (cases u) (simp add: normalizeUsage_def usage_value_def normalizeUsageRecord_def Let_def)

section \<open>Counters\<close>

definition incrementUserMessagesBy :: "SessionStats \<Rightarrow> int \<Rightarrow> SessionStats" where
  "incrementUserMessagesBy s n =
    (if n \<le> 0 then s
     else s\<lparr>stats_messages := \<lparr> sm_user = sm_user (stats_messages s) + n,
              sm_assistant = sm_assistant (stats_messages s),
              sm_total = sm_total (stats_messages s) + n \<rparr>\<rparr>)"

definition incrementAssistantMessages :: "SessionStats \<Rightarrow> SessionStats" where
  "incrementAssistantMessages s =
     s\<lparr>stats_messages := \<lparr> sm_user = sm_user (stats_messages s),
         sm_assistant = sm_assistant (stats_messages s) + 1,
         sm_total = sm_total (stats_messages s) + 1 \<rparr>\<rparr>"

definition incrementToolCalls :: "SessionStats \<Rightarrow> SessionStats" where
  "incrementToolCalls s = s\<lparr>stats_tools := (stats_tools s)\<lparr>st_calls := st_calls (stats_tools s) + 1\<rparr>\<rparr>"

definition incrementToolCompleted :: "SessionStats \<Rightarrow> SessionStats" where
  "incrementToolCompleted s =
     s\<lparr>stats_tools := (stats_tools s)\<lparr>st_completed := st_completed (stats_tools s) + 1\<rparr>\<rparr>"

definition incrementToolFailures :: "SessionStats \<Rightarrow> int \<Rightarrow> SessionStats" where
  "incrementToolFailures s n =
    (if n \<le> 0 then s
     else s\<lparr>stats_tools := (stats_tools s)\<lparr>st_failed := st_failed (stats_tools s) + n\<rparr>\<rparr>)"

definition incrementStepStarted :: "SessionStats \<Rightarrow> SessionStats" where
  "incrementStepStarted s = s\<lparr>stats_steps := (stats_steps s)\<lparr>ss_started := ss_started (stats_steps s) + 1\<rparr>\<rparr>"

definition incrementStepCompleted :: "SessionStats \<Rightarrow> NormalizedUsage \<Rightarrow> SessionStats" where
  "incrementStepCompleted s usage =
     s\<lparr>stats_steps := (stats_steps s)\<lparr>ss_completed := ss_completed (stats_steps s) + 1\<rparr>,
       stats_usage := addUsage (stats_usage s) usage\<rparr>"

lemmas increment_defs = incrementUserMessagesBy_def incrementAssistantMessages_def
  incrementToolCalls_def incrementToolCompleted_def incrementToolFailures_def
  incrementStepStarted_def incrementStepCompleted_def

definition balanced_stats :: "SessionStats \<Rightarrow> bool" where
  "balanced_stats s \<longleftrightarrow> sm_total (stats_messages s) = sm_user (stats_messages s) + sm_assistant (stats_messages s)
     \<and> 0 \<le> sm_user (stats_messages s) \<and> 0 \<le> sm_assistant (stats_messages s)"

lemma balanced_increments [simp, intro]:
  "balanced_stats s \<Longrightarrow> balanced_stats (incrementUserMessagesBy s n)"
  "balanced_stats s \<Longrightarrow> balanced_stats (incrementAssistantMessages s)"
  "balanced_stats s \<Longrightarrow> balanced_stats (incrementToolCalls s)"
  "balanced_stats s \<Longrightarrow> balanced_stats (incrementToolCompleted s)"
  "balanced_stats s \<Longrightarrow> balanced_stats (incrementToolFailures s m)"
  "balanced_stats s \<Longrightarrow> balanced_stats (incrementStepStarted s)"
  "balanced_stats s \<Longrightarrow> balanced_stats (incrementStepCompleted s u)"
  by (simp_all add: balanced_stats_def increment_defs)

lemma balanced_empty: "balanced_stats createEmptySessionStats"
  by (simp add: balanced_stats_def createEmptySessionStats_def)

text \<open>Counters only grow.\<close>

definition stats_le :: "SessionStats \<Rightarrow> SessionStats \<Rightarrow> bool" where
  "stats_le a b \<longleftrightarrow> sm_user (stats_messages a) \<le> sm_user (stats_messages b)
     \<and> sm_assistant (stats_messages a) \<le> sm_assistant (stats_messages b)
     \<and> sm_total (stats_messages a) \<le> sm_total (stats_messages b)
     \<and> st_calls (stats_tools a) \<le> st_calls (stats_tools b)
     \<and> st_completed (stats_tools a) \<le> st_completed (stats_tools b)
     \<and> st_failed (stats_tools a) \<le> st_failed (stats_tools b)
     \<and> ss_started (stats_steps a) \<le> ss_started (stats_steps b)
     \<and> ss_completed (stats_steps a) \<le> ss_completed (stats_steps b)"

lemma stats_le_refl [simp]: "stats_le s s"
  by (simp add: stats_le_def)

lemma stats_le_trans: "stats_le a b \<Longrightarrow> stats_le b c \<Longrightarrow> stats_le a c"
  by (auto simp: stats_le_def)

lemma stats_le_increments [simp]:
  "stats_le s (incrementUserMessagesBy s n)" "stats_le s (incrementAssistantMessages s)"
  "stats_le s (incrementToolCalls s)" "stats_le s (incrementToolCompleted s)"
  "stats_le s (incrementToolFailures s m)" "stats_le s (incrementStepStarted s)"
  "stats_le s (incrementStepCompleted s u)"
  by (simp_all add: stats_le_def increment_defs)

end
