(* ===== verification/ToolParts.thy ===== *)
theory ToolParts
  imports ProtocolState
begin

text \<open>
  One tool call as a message part: the conversions of reduce.ts between the states of a
  \<open>ToolPart\<close>, the live output of a running command, and the state machine they follow.
\<close>

section \<open>Conversions\<close>

text \<open>\<open>"input" in part\<close> and \<open>"startedAt" in part\<close>.\<close>

fun tool_input :: "ToolPart \<Rightarrow> jsvalue option" where
  "tool_input (PendingTool _) = None"
| "tool_input (RunningTool _ i _ _) = Some i"
| "tool_input (InterruptedTool _ i _ _) = i"
| "tool_input (CompletedTool _ i _ _ _) = Some i"
| "tool_input (ErrorTool _ i _ _ _) = Some i"

fun tool_startedAt :: "ToolPart \<Rightarrow> int option" where
  "tool_startedAt (PendingTool _) = None"
| "tool_startedAt (RunningTool _ _ t _) = Some t"
| "tool_startedAt (InterruptedTool _ _ t _) = t"
| "tool_startedAt (CompletedTool _ _ _ t _) = Some t"
| "tool_startedAt (ErrorTool _ _ _ t _) = Some t"

fun tool_liveOutput :: "ToolPart \<Rightarrow> ToolLiveOutput option" where
  "tool_liveOutput (RunningTool _ _ _ l) = l"
| "tool_liveOutput _ = None"

definition undefined_to_null :: "jsvalue \<Rightarrow> jsvalue" where
  "undefined_to_null v = (if v = JsUndefined then JsNull else v)"

definition toRunningToolPart :: "ToolPart \<Rightarrow> jsvalue \<Rightarrow> int \<Rightarrow> ToolPart" where
  "toRunningToolPart part input timestamp =
     RunningTool (tool_base part) (undefined_to_null input)
       (case tool_startedAt part of Some t \<Rightarrow> t | None \<Rightarrow> timestamp)
       (tool_liveOutput part)"

definition toInterruptedToolPart :: "ToolPart \<Rightarrow> int \<Rightarrow> ToolPart" where
  "toInterruptedToolPart part timestamp =
     InterruptedTool (tool_base part) (tool_input part) (tool_startedAt part) timestamp"

definition set_attempt :: "ToolPartBase \<Rightarrow> jstring \<Rightarrow> int \<Rightarrow> bool \<Rightarrow> ToolPartBase" where
  "set_attempt b attemptId timestamp destructive =
     b\<lparr>tp_attemptId := Some attemptId, tp_attemptTimestamp := Some timestamp,
       tp_attemptDestructive := Some destructive\<rparr>"

fun map_tool_base :: "(ToolPartBase \<Rightarrow> ToolPartBase) \<Rightarrow> ToolPart \<Rightarrow> ToolPart" where
  "map_tool_base f (PendingTool b) = PendingTool (f b)"
| "map_tool_base f (RunningTool b i t l) = RunningTool (f b) i t l"
| "map_tool_base f (InterruptedTool b i t e) = InterruptedTool (f b) i t e"
| "map_tool_base f (CompletedTool b i r t e) = CompletedTool (f b) i r t e"
| "map_tool_base f (ErrorTool b i r t e) = ErrorTool (f b) i r t e"

definition withToolAttempt :: "ToolPart \<Rightarrow> jstring \<Rightarrow> int \<Rightarrow> bool \<Rightarrow> ToolPart" where
  "withToolAttempt part attemptId timestamp destructive =
    (let attemptedPart = (case part of
         InterruptedTool _ i _ _ \<Rightarrow>
           toRunningToolPart part (case i of None \<Rightarrow> JsUndefined | Some v \<Rightarrow> v) timestamp
       | _ \<Rightarrow> part) in
     map_tool_base (\<lambda>b. set_attempt b attemptId timestamp destructive) attemptedPart)"

definition toSettledToolPart :: "ToolPart \<Rightarrow> FinalizedToolResult \<Rightarrow> int \<Rightarrow> ToolPart" where
  "toSettledToolPart part result timestamp =
    (case toRunningToolPart part (case tool_input part of None \<Rightarrow> JsUndefined | Some v \<Rightarrow> v) timestamp of
       RunningTool b input startedAt _ \<Rightarrow>
         if ftr_isError result then ErrorTool b input result startedAt timestamp
         else CompletedTool b input result startedAt timestamp
     | p \<Rightarrow> p)"

text \<open>\<open>{ ...part, input }\<close> of the \<open>tool-input-resolved\<close> case.\<close>

fun set_tool_input :: "jsvalue \<Rightarrow> ToolPart \<Rightarrow> ToolPart" where
  "set_tool_input v (RunningTool b _ t l) = RunningTool b v t l"
| "set_tool_input v (InterruptedTool b _ t e) = InterruptedTool b (Some v) t e"
| "set_tool_input v (CompletedTool b _ r t e) = CompletedTool b v r t e"
| "set_tool_input v (ErrorTool b _ r t e) = ErrorTool b v r t e"
| "set_tool_input v (PendingTool b) = PendingTool b"

section \<open>Live output\<close>

definition LIVE_TOOL_OUTPUT_PREVIEW_MAX_BYTES :: nat where
  "LIVE_TOOL_OUTPUT_PREVIEW_MAX_BYTES = 50 * 1024"

definition append_live ::
  "ToolLiveOutput option \<Rightarrow> jstring \<Rightarrow> int \<Rightarrow> bool \<Rightarrow> ToolLiveOutput" where
  "append_live existing delta omittedBytes liveLimitReached =
    (let combined = (case existing of None \<Rightarrow> [] | Some l \<Rightarrow> lo_preview l) @ delta;
         suffix = utf8Suffix combined LIVE_TOOL_OUTPUT_PREVIEW_MAX_BYTES in
     \<lparr> lo_preview = fst suffix,
       lo_omittedBytes = (case existing of None \<Rightarrow> 0 | Some l \<Rightarrow> lo_omittedBytes l) + omittedBytes
         + int (snd suffix),
       lo_liveLimitReached = (case existing of None \<Rightarrow> False | Some l \<Rightarrow> lo_liveLimitReached l)
         \<or> liveLimitReached \<rparr>)"

fun appendLiveToolOutput :: "ToolPart \<Rightarrow> jstring \<Rightarrow> int \<Rightarrow> bool \<Rightarrow> ToolPart" where
  "appendLiveToolOutput (RunningTool b i t l) delta omittedBytes liveLimitReached =
     RunningTool b i t (Some (append_live l delta omittedBytes liveLimitReached))"
| "appendLiveToolOutput p delta omittedBytes liveLimitReached = p"

definition retained_bytes :: "ToolLiveOutput option \<Rightarrow> int" where
  "retained_bytes l = (case l of None \<Rightarrow> 0 | Some o' \<Rightarrow> int (utf8ByteLength (lo_preview o')))"

definition omitted_bytes :: "ToolLiveOutput option \<Rightarrow> int" where
  "omitted_bytes l = (case l of None \<Rightarrow> 0 | Some o' \<Rightarrow> lo_omittedBytes o')"

lemma append_live_bound:
  "utf8ByteLength (lo_preview (append_live l delta om lim)) \<le> LIVE_TOOL_OUTPUT_PREVIEW_MAX_BYTES"
  by (simp add: append_live_def Let_def utf8Suffix_bound)

text \<open>No byte is lost: what is retained and what is counted as omitted add up.\<close>

lemma append_live_total:
  assumes "clean_cut (case l of None \<Rightarrow> [] | Some o' \<Rightarrow> lo_preview o') delta"
  shows "retained_bytes (Some (append_live l delta om lim)) + omitted_bytes (Some (append_live l delta om lim))
    = retained_bytes l + omitted_bytes l + int (utf8ByteLength delta) + om"
proof -
  let ?old = "case l of None \<Rightarrow> [] | Some o' \<Rightarrow> lo_preview o'"
  have total: "int (utf8ByteLength (fst (utf8Suffix s m))) + int (snd (utf8Suffix s m)) = int (utf8ByteLength s)"
    for s m by (metis of_nat_add utf8Suffix_total)
  have "retained_bytes l = int (utf8ByteLength ?old)"
    by (simp add: retained_bytes_def split: option.splits)
  then show ?thesis
    using total [of "?old @ delta" LIVE_TOOL_OUTPUT_PREVIEW_MAX_BYTES] utf8ByteLength_append [OF assms]
    by (simp add: append_live_def Let_def retained_bytes_def omitted_bytes_def split: option.splits)
qed

section \<open>The state machine\<close>

datatype ToolState = ToolPending | ToolRunning | ToolInterrupted | ToolCompleted | ToolError

fun tool_state :: "ToolPart \<Rightarrow> ToolState" where
  "tool_state (PendingTool _) = ToolPending"
| "tool_state (RunningTool _ _ _ _) = ToolRunning"
| "tool_state (InterruptedTool _ _ _ _) = ToolInterrupted"
| "tool_state (CompletedTool _ _ _ _ _) = ToolCompleted"
| "tool_state (ErrorTool _ _ _ _ _) = ToolError"

definition tool_settled :: "ToolState \<Rightarrow> bool" where
  "tool_settled s \<longleftrightarrow> s = ToolCompleted \<or> s = ToolError"

inductive tool_step :: "ToolState \<Rightarrow> ToolState \<Rightarrow> bool" where
  stay: "tool_step s s"
| call: "tool_step ToolPending ToolRunning"
| interrupt: "s \<in> {ToolPending, ToolRunning} \<Longrightarrow> tool_step s ToolInterrupted"
| reattempt: "tool_step ToolInterrupted ToolRunning"
| settle: "\<not> tool_settled s \<Longrightarrow> tool_settled s' \<Longrightarrow> tool_step s s'"

inductive_simps tool_step_settled_iff: "tool_step s s'"

lemma tool_step_settled: "tool_settled s \<Longrightarrow> tool_step s s' \<Longrightarrow> s' = s"
  by (auto simp: tool_step_settled_iff tool_settled_def)

lemma tool_state_map_base [simp]: "tool_state (map_tool_base f p) = tool_state p"
  by (cases p) simp_all

lemma tool_base_map_base [simp]: "tool_base (map_tool_base f p) = f (tool_base p)"
  by (cases p) simp_all

lemma tool_state_set_input [simp]: "tool_state (set_tool_input v p) = tool_state p"
  by (cases p) simp_all

lemma tool_base_set_input [simp]: "tool_base (set_tool_input v p) = tool_base p"
  by (cases p) simp_all

lemma tool_state_append_live [simp]: "tool_state (appendLiveToolOutput p d o' l) = tool_state p"
  by (cases p) simp_all

lemma tool_base_append_live [simp]: "tool_base (appendLiveToolOutput p d o' l) = tool_base p"
  by (cases p) simp_all

lemma tool_state_conversions [simp]:
  "tool_state (toRunningToolPart p v t) = ToolRunning"
  "tool_state (toInterruptedToolPart p t) = ToolInterrupted"
  "tool_state (toSettledToolPart p r t) = (if ftr_isError r then ToolError else ToolCompleted)"
  by (simp_all add: toRunningToolPart_def toInterruptedToolPart_def toSettledToolPart_def)

lemma tool_base_conversions [simp]:
  "tool_base (toRunningToolPart p v t) = tool_base p"
  "tool_base (toInterruptedToolPart p t) = tool_base p"
  "tool_base (toSettledToolPart p r t) = tool_base p"
  by (simp_all add: toRunningToolPart_def toInterruptedToolPart_def toSettledToolPart_def)

lemma tool_state_attempt:
  "tool_state (withToolAttempt p a t d) = (if tool_state p = ToolInterrupted then ToolRunning else tool_state p)"
  by (cases p) (simp_all add: withToolAttempt_def)

lemma tool_base_attempt:
  "tool_base (withToolAttempt p a t d) = set_attempt (tool_base p) a t d"
  by (cases p) (simp_all add: withToolAttempt_def)

text \<open>Settling keeps the recorded start and the resolved input of the call.\<close>

lemma toSettledToolPart_fields:
  "tool_startedAt (toSettledToolPart p r t) = Some (case tool_startedAt p of Some s \<Rightarrow> s | None \<Rightarrow> t)"
  "tool_input (toSettledToolPart p r t)
    = Some (undefined_to_null (case tool_input p of None \<Rightarrow> JsUndefined | Some v \<Rightarrow> v))"
  by (simp_all add: toSettledToolPart_def toRunningToolPart_def)

end
