(* ===== verification/Messages.thy ===== *)
theory Messages
  imports ToolParts
begin

text \<open>
  The message helpers of reduce.ts: locating a streamed block or a tool call, updating, removing
  and appending parts, and the passes that settle, interrupt and promote the messages of an
  Execution. A message part is found by position in the source's order (first match), and updates
  go to every Assistant message with the identifier.
\<close>

section \<open>Fields\<close>

fun msg_id :: "SessionMessage \<Rightarrow> jstring" where
  "msg_id (UserMessage u) = um_id u"
| "msg_id (AssistantMessage a) = am_id a"

fun is_assistant :: "SessionMessage \<Rightarrow> bool" where
  "is_assistant (AssistantMessage _) = True"
| "is_assistant (UserMessage _) = False"

fun as_assistant :: "SessionMessage \<Rightarrow> ModelStepAssistantMessage option" where
  "as_assistant (AssistantMessage a) = Some a"
| "as_assistant (UserMessage _) = None"

fun user_part_id :: "UserSessionPart \<Rightarrow> jstring" where
  "user_part_id (UserText p) = tx_id p"
| "user_part_id (UserAttachment p) = ap_id p"
| "user_part_id (UserCompaction p) = cp_id p"
| "user_part_id (UserSystemNotice p) = sn_id p"
| "user_part_id (UserGoalNotice p) = gn_id p"

fun part_id :: "AssistantSessionPart \<Rightarrow> jstring" where
  "part_id (AssistantOutput p) = bp_id p"
| "part_id (ReasoningOutput p) = bp_id p"
| "part_id (AssistantTool p) = tp_id (tool_base p)"
| "part_id (AssistantSystemNotice p) = sn_id p"
| "part_id (AssistantRecovery p) = rn_id p"

text \<open>A part of any message, as \<open>SessionPart\<close>.\<close>

datatype SessionPart = InUser UserSessionPart | InAssistant AssistantSessionPart

fun session_part_id :: "SessionPart \<Rightarrow> jstring" where
  "session_part_id (InUser p) = user_part_id p"
| "session_part_id (InAssistant p) = part_id p"

fun msg_parts :: "SessionMessage \<Rightarrow> SessionPart list" where
  "msg_parts (UserMessage u) = map InUser (um_parts u)"
| "msg_parts (AssistantMessage a) = map InAssistant (am_parts a)"

text \<open>The two streamed channels and their blocks.\<close>

datatype BlockChannel = OutputChannel | ReasoningChannel

fun part_block :: "BlockChannel \<Rightarrow> AssistantSessionPart \<Rightarrow> BlockPart option" where
  "part_block OutputChannel (AssistantOutput b) = Some b"
| "part_block ReasoningChannel (ReasoningOutput b) = Some b"
| "part_block _ _ = None"

fun channel_part :: "BlockChannel \<Rightarrow> BlockPart \<Rightarrow> AssistantSessionPart" where
  "channel_part OutputChannel b = AssistantOutput b"
| "channel_part ReasoningChannel b = ReasoningOutput b"

fun map_channel :: "BlockChannel \<Rightarrow> (BlockPart \<Rightarrow> BlockPart) \<Rightarrow> AssistantSessionPart \<Rightarrow> AssistantSessionPart" where
  "map_channel OutputChannel f (AssistantOutput b) = AssistantOutput (f b)"
| "map_channel ReasoningChannel f (ReasoningOutput b) = ReasoningOutput (f b)"
| "map_channel _ f p = p"

text \<open>A block of either channel.\<close>

fun any_block :: "AssistantSessionPart \<Rightarrow> BlockPart option" where
  "any_block (AssistantOutput b) = Some b"
| "any_block (ReasoningOutput b) = Some b"
| "any_block _ = None"

fun map_any_block :: "(BlockPart \<Rightarrow> BlockPart) \<Rightarrow> AssistantSessionPart \<Rightarrow> AssistantSessionPart" where
  "map_any_block f (AssistantOutput b) = AssistantOutput (f b)"
| "map_any_block f (ReasoningOutput b) = ReasoningOutput (f b)"
| "map_any_block f p = p"

fun as_tool :: "AssistantSessionPart \<Rightarrow> ToolPart option" where
  "as_tool (AssistantTool t) = Some t"
| "as_tool _ = None"

fun map_tool :: "(ToolPart \<Rightarrow> ToolPart) \<Rightarrow> AssistantSessionPart \<Rightarrow> AssistantSessionPart" where
  "map_tool f (AssistantTool t) = AssistantTool (f t)"
| "map_tool f p = p"

section \<open>Updating messages\<close>

definition map_assistant ::
  "(ModelStepAssistantMessage \<Rightarrow> ModelStepAssistantMessage) \<Rightarrow> SessionMessage \<Rightarrow> SessionMessage" where
  "map_assistant f m = (case m of AssistantMessage a \<Rightarrow> AssistantMessage (f a) | UserMessage u \<Rightarrow> UserMessage u)"

lemma map_assistant_simps [simp]:
  "map_assistant f (AssistantMessage a) = AssistantMessage (f a)"
  "map_assistant f (UserMessage u) = UserMessage u"
  by (simp_all add: map_assistant_def)

definition map_parts_of ::
  "jstring \<Rightarrow> (AssistantSessionPart list \<Rightarrow> AssistantSessionPart list) \<Rightarrow> SessionMessage list \<Rightarrow> SessionMessage list" where
  "map_parts_of messageId f msgs =
     map (map_assistant (\<lambda>a. if am_id a = messageId then a\<lparr>am_parts := f (am_parts a)\<rparr> else a)) msgs"

definition updateMessagePart ::
  "SessionMessage list \<Rightarrow> jstring \<Rightarrow> jstring \<Rightarrow> (AssistantSessionPart \<Rightarrow> AssistantSessionPart) \<Rightarrow> SessionMessage list" where
  "updateMessagePart msgs messageId partId update =
     map_parts_of messageId (map (\<lambda>part. if part_id part = partId then update part else part)) msgs"

definition removeMessagePart :: "SessionMessage list \<Rightarrow> jstring \<Rightarrow> jstring \<Rightarrow> SessionMessage list" where
  "removeMessagePart msgs messageId partId =
     map_parts_of messageId (filter (\<lambda>part. part_id part \<noteq> partId)) msgs"

definition appendPartToMessage :: "SessionMessage list \<Rightarrow> jstring \<Rightarrow> AssistantSessionPart \<Rightarrow> SessionMessage list" where
  "appendPartToMessage msgs messageId part = map_parts_of messageId (\<lambda>parts. parts @ [part]) msgs"

section \<open>Locating parts\<close>

type_synonym PartLocation = "jstring \<times> jstring"

fun has_step :: "jstring \<Rightarrow> SessionMessage \<Rightarrow> bool" where
  "has_step stepId (AssistantMessage a) = (am_stepId a = stepId)"
| "has_step stepId (UserMessage u) = False"

definition modelStepMessageId :: "SessionMessage list \<Rightarrow> jstring \<Rightarrow> jstring option" where
  "modelStepMessageId msgs stepId = map_option msg_id (find (has_step stepId) msgs)"

definition findBlockLocation ::
  "SessionMessage list \<Rightarrow> jstring \<Rightarrow> BlockChannel \<Rightarrow> jstring \<Rightarrow> PartLocation option" where
  "findBlockLocation msgs stepId channel blockId =
    (case find (has_step stepId) msgs of
       Some (AssistantMessage a) \<Rightarrow>
         (case find (\<lambda>p. option_test (\<lambda>b. bp_blockId b = blockId) (part_block channel p)) (am_parts a) of
            Some p \<Rightarrow> Some (am_id a, part_id p)
          | None \<Rightarrow> None)
     | _ \<Rightarrow> None)"

definition getPartAtLocation :: "SessionMessage list \<Rightarrow> PartLocation \<Rightarrow> SessionPart option" where
  "getPartAtLocation msgs location =
    (case find (\<lambda>m. msg_id m = fst location) msgs of
       Some m \<Rightarrow> find (\<lambda>p. session_part_id p = snd location) (msg_parts m)
     | None \<Rightarrow> None)"

fun session_tool :: "SessionPart \<Rightarrow> ToolPart option" where
  "session_tool (InAssistant (AssistantTool t)) = Some t"
| "session_tool _ = None"

text \<open>An empty identifier is falsy and locates nothing.\<close>

definition findCurrentToolPartByCallId ::
  "SessionMessage list \<Rightarrow> jstring option \<Rightarrow> jstring \<Rightarrow> PartLocation option" where
  "findCurrentToolPartByCallId msgs messageId toolCallId =
    (case messageId of
       None \<Rightarrow> None
     | Some i \<Rightarrow>
         (if i = [] then None
          else case find (\<lambda>m. msg_id m = i) msgs of
            None \<Rightarrow> None
          | Some m \<Rightarrow>
              (case find (\<lambda>p. option_test (\<lambda>t. tp_toolCallId (tool_base t) = toolCallId) (session_tool p)) (msg_parts m) of
                 Some p \<Rightarrow> Some (i, session_part_id p)
               | None \<Rightarrow> None)))"

text \<open>The loop of \<open>findLatestIncompleteToolPartByCallId\<close> runs from the last message to the first.\<close>

fun find_incomplete :: "SessionMessage list \<Rightarrow> jstring \<Rightarrow> PartLocation option" where
  "find_incomplete [] toolCallId = None"
| "find_incomplete (m # ms) toolCallId =
    (case find (\<lambda>p. option_test (\<lambda>t. tp_toolCallId (tool_base t) = toolCallId
                 \<and> \<not> tool_settled (tool_state t)) (session_tool p)) (msg_parts m) of
       Some p \<Rightarrow> Some (msg_id m, session_part_id p)
     | None \<Rightarrow> find_incomplete ms toolCallId)"

definition findLatestIncompleteToolPartByCallId :: "SessionMessage list \<Rightarrow> jstring \<Rightarrow> PartLocation option" where
  "findLatestIncompleteToolPartByCallId msgs toolCallId = find_incomplete (rev msgs) toolCallId"

definition getToolPartAtLocation :: "SessionMessage list \<Rightarrow> jstring \<Rightarrow> jstring \<Rightarrow> ToolPart option" where
  "getToolPartAtLocation msgs messageId partId =
    (case getPartAtLocation msgs (messageId, partId) of Some p \<Rightarrow> session_tool p | None \<Rightarrow> None)"

section \<open>Content and trust\<close>

definition assistantMessageHasContent :: "ModelStepAssistantMessage \<Rightarrow> bool" where
  "assistantMessageHasContent a =
     (\<exists>p \<in> set (am_parts a). case any_block p of Some b \<Rightarrow> bp_text b \<noteq> [] | None \<Rightarrow> True)"

definition meta_flag :: "(jstring, jsvalue) dict option \<Rightarrow> string \<Rightarrow> bool" where
  "meta_flag meta key = (case meta of None \<Rightarrow> False | Some d \<Rightarrow> map_of d (js key) = Some (JsBool True))"

definition discard_meta :: "(jstring, jsvalue) dict option \<Rightarrow> (jstring, jsvalue) dict option" where
  "discard_meta meta = Some (AList.update (js ''discardedFromContext'') (JsBool True)
     (AList.update (js ''interrupted'') (JsBool True) (case meta of None \<Rightarrow> [] | Some d \<Rightarrow> d)))"

lemma discard_meta_flags [simp]:
  "meta_flag (discard_meta m) ''interrupted''" "meta_flag (discard_meta m) ''discardedFromContext''"
  by (simp_all add: meta_flag_def discard_meta_def update_conv')

definition trusted_block :: "BlockPart \<Rightarrow> bool" where
  "trusted_block b \<longleftrightarrow> bp_completedAt b \<noteq> None \<and> \<not> meta_flag (bp_meta b) ''interrupted''
     \<and> \<not> meta_flag (bp_meta b) ''discardedFromContext''"

definition output_blocks :: "ModelStepAssistantMessage \<Rightarrow> BlockPart list" where
  "output_blocks a = List.map_filter (part_block OutputChannel) (am_parts a)"

definition trusted_message :: "ModelStepAssistantMessage \<Rightarrow> bool" where
  "trusted_message a \<longleftrightarrow> output_blocks a \<noteq> [] \<and> (\<forall>b \<in> set (output_blocks a). trusted_block b)
     \<and> (\<exists>b \<in> set (output_blocks a). trim (bp_text b) \<noteq> [])"

definition hasTrustedAssistantOutput :: "SessionMessage list \<Rightarrow> jstring \<Rightarrow> bool" where
  "hasTrustedAssistantOutput msgs stepId =
    (case find (has_step stepId) msgs of
       Some (AssistantMessage a) \<Rightarrow> trusted_message a
     | _ \<Rightarrow> False)"

section \<open>Passes over the messages of an Execution\<close>

definition completeAssistantMessageForStep :: "SessionMessage list \<Rightarrow> jstring \<Rightarrow> int \<Rightarrow> SessionMessage list" where
  "completeAssistantMessageForStep msgs stepId completedAt =
     map (map_assistant (\<lambda>a. if am_stepId a = stepId \<and> am_completedAt a = None
        then a\<lparr>am_completedAt := Some completedAt\<rparr> else a)) msgs"

definition promoteFinalAssistantOutput :: "SessionMessage list \<Rightarrow> jstring \<Rightarrow> jstring \<Rightarrow> SessionMessage list" where
  "promoteFinalAssistantOutput msgs executionId stepId =
     map (map_assistant (\<lambda>a. if am_executionId a = executionId \<and> am_stepId a = stepId
        then a\<lparr>am_outputPhase := FinalAnswer\<rparr> else a)) msgs"

definition settle_block :: "bool \<Rightarrow> int \<Rightarrow> BlockPart \<Rightarrow> BlockPart" where
  "settle_block discard timestamp b =
    (if bp_completedAt b \<noteq> None then b
     else if discard then b\<lparr>bp_completedAt := Some timestamp, bp_meta := discard_meta (bp_meta b)\<rparr>
     else b\<lparr>bp_completedAt := Some timestamp\<rparr>)"

fun settle_part :: "bool \<Rightarrow> int \<Rightarrow> AssistantSessionPart \<Rightarrow> AssistantSessionPart" where
  "settle_part discard timestamp (AssistantOutput b) = AssistantOutput (settle_block discard timestamp b)"
| "settle_part discard timestamp (ReasoningOutput b) = ReasoningOutput (settle_block discard timestamp b)"
| "settle_part discard timestamp (AssistantSystemNotice p) = AssistantSystemNotice
    (if sn_completedAt p = None then p\<lparr>sn_completedAt := Some timestamp\<rparr> else p)"
| "settle_part discard timestamp (AssistantRecovery p) = AssistantRecovery
    (if rn_completedAt p = None then p\<lparr>rn_completedAt := Some timestamp\<rparr> else p)"
| "settle_part discard timestamp (AssistantTool t) = AssistantTool t"

fun isIncompletePart :: "AssistantSessionPart \<Rightarrow> bool" where
  "isIncompletePart (AssistantOutput b) = (bp_completedAt b = None)"
| "isIncompletePart (ReasoningOutput b) = (bp_completedAt b = None)"
| "isIncompletePart (AssistantSystemNotice p) = (sn_completedAt p = None)"
| "isIncompletePart (AssistantRecovery p) = (rn_completedAt p = None)"
| "isIncompletePart (AssistantTool t) = (tool_state t = ToolPending \<or> tool_state t = ToolRunning)"

definition interrupt_part :: "int \<Rightarrow> AssistantSessionPart \<Rightarrow> AssistantSessionPart" where
  "interrupt_part endedAt =
     map_tool (\<lambda>t. if tool_state t = ToolPending \<or> tool_state t = ToolRunning
       then toInterruptedToolPart t endedAt else t)"

definition interruptIncompleteToolParts :: "SessionMessage list \<Rightarrow> int \<Rightarrow> SessionMessage list" where
  "interruptIncompleteToolParts msgs endedAt =
     map (map_assistant (\<lambda>a. a\<lparr>am_parts := map (interrupt_part endedAt) (am_parts a)\<rparr>)) msgs"

definition settle_message ::
  "jstring option \<Rightarrow> int \<Rightarrow> bool \<Rightarrow> ModelStepAssistantMessage \<Rightarrow> ModelStepAssistantMessage" where
  "settle_message current timestamp discard a =
    (let parts = map (settle_part discard timestamp) (am_parts a);
         hasIncompletePart = (\<exists>p \<in> set parts. isIncompletePart p);
         shouldComplete = am_completedAt a = None \<and> (hasIncompletePart \<or> Some (am_id a) = current) in
     a\<lparr>am_parts := parts,
       am_completedAt := (if shouldComplete then Some timestamp else am_completedAt a)\<rparr>)"

definition settleIncompleteState ::
  "SessionMessage list \<Rightarrow> jstring option \<Rightarrow> int \<Rightarrow> SessionExecutionTerminalStatus \<Rightarrow> SessionMessage list" where
  "settleIncompleteState msgs current timestamp executionStatus =
     interruptIncompleteToolParts
       (map (map_assistant (settle_message current timestamp (executionStatus \<noteq> Completed))) msgs) timestamp"

definition interrupt_block :: "int \<Rightarrow> BlockPart \<Rightarrow> BlockPart" where
  "interrupt_block timestamp b =
    (if bp_text b = [] then b
     else if meta_flag (bp_meta b) ''interrupted'' \<and> meta_flag (bp_meta b) ''discardedFromContext''
       \<and> bp_completedAt b \<noteq> None then b
     else b\<lparr>bp_completedAt := Some (case bp_completedAt b of None \<Rightarrow> timestamp | Some t \<Rightarrow> t),
            bp_meta := discard_meta (bp_meta b)\<rparr>)"

definition markAssistantModelOutputInterruptedForStep ::
  "SessionMessage list \<Rightarrow> jstring \<Rightarrow> int \<Rightarrow> SessionMessage list" where
  "markAssistantModelOutputInterruptedForStep msgs stepId timestamp =
     map (map_assistant (\<lambda>a. if am_stepId a = stepId
        then a\<lparr>am_parts := map (map_any_block (interrupt_block timestamp)) (am_parts a)\<rparr> else a)) msgs"

end
