(* ===== verification/SessionCapacity.thy ===== *)
theory SessionCapacity
  imports ProtocolState
begin

text \<open>
  The bounds of packages/protocol/src/session-capacity.ts on todos and direct children, the checks
  of reduce.ts that apply them, and the keyed array of child links. \<open>localeCompare\<close> depends on the
  host's collation and is the parameter \<open>lc\<close>.
\<close>

section \<open>Violations\<close>

definition MAX_SESSION_TODOS :: nat where "MAX_SESSION_TODOS = 32"
definition MAX_SESSION_TODOS_SERIALIZED_BYTES :: nat where "MAX_SESSION_TODOS_SERIALIZED_BYTES = 24 * 1024"
definition MAX_DIRECT_CHILD_SESSIONS :: nat where "MAX_DIRECT_CHILD_SESSIONS = 64"
definition MAX_DELEGATED_SESSION_TITLE_LENGTH :: nat where "MAX_DELEGATED_SESSION_TITLE_LENGTH = 80"

definition DELEGATED_AGENT_NAMES :: "jstring list" where
  "DELEGATED_AGENT_NAMES = map js [''analyst'', ''build'', ''explore'', ''librarian'']"

definition DIRECT_CHILD_AGENT_PROFILES :: "jstring list" where
  "DIRECT_CHILD_AGENT_PROFILES = map js [''deep'', ''fast'']"

definition TOOL_CHILD_SESSION_LINK_STATUSES :: "jstring list" where
  "TOOL_CHILD_SESSION_LINK_STATUSES = map js [''linked'', ''running'', ''waiting_for_human'', ''cancelling'',
     ''completed'', ''failed'', ''timed_out'', ''cancelled'', ''interrupted'']"

definition delegatedSessionTitleCapacityViolation :: "jstring \<Rightarrow> jstring option" where
  "delegatedSessionTitleCapacityViolation t =
    (if trim t = [] then Some (js ''Delegated Session title must not be blank'')
     else let titleLength = code_point_count t in
       if titleLength > MAX_DELEGATED_SESSION_TITLE_LENGTH
       then Some (js ''Delegated Session title contains '' @ decimal (int titleLength)
              @ js '' Unicode code points; maximum is '' @ decimal (int MAX_DELEGATED_SESSION_TITLE_LENGTH))
       else None)"

text \<open>\<open>JSON.stringify(todos)\<close>: undefined properties are left out.\<close>

definition json_property :: "string \<Rightarrow> jstring \<Rightarrow> jstring" where
  "json_property key v = json_string (js key) @ js '':'' @ v"

definition json_optional :: "string \<Rightarrow> int option \<Rightarrow> jstring list" where
  "json_optional key v = (case v of None \<Rightarrow> [] | Some i \<Rightarrow> [json_property key (decimal i)])"

definition json_todo :: "SessionTodo \<Rightarrow> jstring" where
  "json_todo t = js ''{'' @ join_with (js '','')
     ([json_property ''id'' (json_string (td_id t)),
       json_property ''content'' (json_string (td_content t)),
       json_property ''status'' (json_string (td_status t))]
      @ json_optional ''createdAt'' (td_createdAt t) @ json_optional ''updatedAt'' (td_updatedAt t))
     @ js ''}''"

definition json_todos :: "SessionTodo list \<Rightarrow> jstring" where
  "json_todos ts = js ''['' @ join_with (js '','') (map json_todo ts) @ js '']''"

definition sessionTodoCapacityViolation :: "SessionTodo list \<Rightarrow> jstring option" where
  "sessionTodoCapacityViolation ts =
    (if length ts > MAX_SESSION_TODOS
     then Some (js ''Session todo list contains '' @ decimal (int (length ts)) @ js '' items; maximum is ''
       @ decimal (int MAX_SESSION_TODOS))
     else let serializedBytes = utf8ByteLength (json_todos ts) in
       if serializedBytes > MAX_SESSION_TODOS_SERIALIZED_BYTES
       then Some (js ''Session todo list serializes to '' @ decimal (int serializedBytes)
         @ js '' UTF-8 bytes; maximum is '' @ decimal (int MAX_SESSION_TODOS_SERIALIZED_BYTES))
       else None)"

record DirectChildContextCapacityCandidate =
  dc_sessionId :: jstring
  dc_agentName :: jstring
  dc_profile :: jstring
  dc_title :: jstring
  dc_executionId :: "jstring option"
  dc_status :: jstring

definition childViolation :: "DirectChildContextCapacityCandidate \<Rightarrow> jstring option" where
  "childViolation child =
    (if dc_agentName child \<notin> set DELEGATED_AGENT_NAMES
     then Some (js ''Direct child Agent name \"'' @ dc_agentName child
            @ js ''\" is not a supported delegated Agent identity'')
     else if dc_profile child \<notin> set DIRECT_CHILD_AGENT_PROFILES
     then Some (js ''Direct child Profile \"'' @ dc_profile child @ js ''\" is not a supported child Profile'')
     else if dc_status child \<notin> set TOOL_CHILD_SESSION_LINK_STATUSES
     then Some (js ''Direct child status \"'' @ dc_status child @ js ''\" is not a supported link status'')
     else delegatedSessionTitleCapacityViolation (dc_title child))"

fun firstChildViolation :: "DirectChildContextCapacityCandidate list \<Rightarrow> jstring option" where
  "firstChildViolation [] = None"
| "firstChildViolation (child # children) =
    (case childViolation child of Some v \<Rightarrow> Some v | None \<Rightarrow> firstChildViolation children)"

definition directChildContextCapacityViolation :: "DirectChildContextCapacityCandidate list \<Rightarrow> jstring option" where
  "directChildContextCapacityViolation children =
    (if length children > MAX_DIRECT_CHILD_SESSIONS
     then Some (js ''Direct child context contains '' @ decimal (int (length children))
            @ js '' Sessions; maximum is '' @ decimal (int MAX_DIRECT_CHILD_SESSIONS))
     else firstChildViolation children)"

section \<open>The latest link of every child\<close>

type_synonym collation = "jstring \<Rightarrow> jstring \<Rightarrow> int"

definition newer_link :: "collation \<Rightarrow> ToolChildSessionLink \<Rightarrow> ToolChildSessionLink \<Rightarrow> bool" where
  "newer_link lc link current \<longleftrightarrow> cl_createdAt link > cl_createdAt current
     \<or> cl_createdAt link = cl_createdAt current
       \<and> lc (cl_parentToolCallId link) (cl_parentToolCallId current) > 0"

fun latest_links ::
  "collation \<Rightarrow> ToolChildSessionLink list \<Rightarrow> (jstring, ToolChildSessionLink) dict
   \<Rightarrow> (jstring, ToolChildSessionLink) dict" where
  "latest_links lc [] latest = latest"
| "latest_links lc (link # links) latest =
    latest_links lc links
      (case map_of latest (cl_childSessionId link) of
         None \<Rightarrow> AList.update (cl_childSessionId link) link latest
       | Some current \<Rightarrow>
           (if newer_link lc link current then AList.update (cl_childSessionId link) link latest
            else latest))"

text \<open>\<open>Array.prototype.sort\<close> is stable; a comparator result of at most 0 keeps the order.\<close>

fun insert_cmp :: "('a \<Rightarrow> 'a \<Rightarrow> int) \<Rightarrow> 'a \<Rightarrow> 'a list \<Rightarrow> 'a list" where
  "insert_cmp cmp x [] = [x]"
| "insert_cmp cmp x (y # ys) = (if cmp x y \<le> 0 then x # y # ys else y # insert_cmp cmp x ys)"

definition sort_cmp :: "('a \<Rightarrow> 'a \<Rightarrow> int) \<Rightarrow> 'a list \<Rightarrow> 'a list" where
  "sort_cmp cmp xs = foldr (insert_cmp cmp) xs []"

definition selectLatestDirectChildLinks ::
  "collation \<Rightarrow> ToolChildSessionLink list \<Rightarrow> ToolChildSessionLink list" where
  "selectLatestDirectChildLinks lc links =
     sort_cmp (\<lambda>l r. lc (cl_childSessionId l) (cl_childSessionId r)) (map snd (latest_links lc links []))"

definition child_candidate :: "ToolChildSessionLink \<Rightarrow> DirectChildContextCapacityCandidate" where
  "child_candidate link = \<lparr> dc_sessionId = cl_childSessionId link, dc_agentName = cl_childAgentName link,
     dc_profile = cl_childProfile link, dc_title = cl_title link,
     dc_executionId = Some (cl_childExecutionId link), dc_status = cl_status link \<rparr>"

definition projectLatestDirectChildContext ::
  "collation \<Rightarrow> ToolChildSessionLink list \<Rightarrow> DirectChildContextCapacityCandidate list" where
  "projectLatestDirectChildContext lc links = map child_candidate (selectLatestDirectChildLinks lc links)"

section \<open>The checks of the reducer\<close>

definition link_key :: "ToolChildSessionLink \<Rightarrow> jstring \<times> jstring \<times> jstring \<times> jstring" where
  "link_key link = (cl_parentSessionId link, cl_parentToolCallId link, cl_childSessionId link,
     cl_childExecutionId link)"

definition upsertChildSessionLink :: "ToolChildSessionLink list \<Rightarrow> ToolChildSessionLink \<Rightarrow> ToolChildSessionLink list" where
  "upsertChildSessionLink links nextLink =
    (case find_index (\<lambda>link. cl_parentSessionId link = cl_parentSessionId nextLink
                \<and> cl_parentToolCallId link = cl_parentToolCallId nextLink
                \<and> cl_childSessionId link = cl_childSessionId nextLink
                \<and> cl_childExecutionId link = cl_childExecutionId nextLink) links of
       None \<Rightarrow> links @ [nextLink]
     | Some i \<Rightarrow> links[i := nextLink])"

definition TODO_STATUSES :: "jstring list" where
  "TODO_STATUSES = map js [''pending'', ''in_progress'', ''completed'', ''cancelled'']"

fun todo_scan :: "SessionTodo list \<Rightarrow> nat \<Rightarrow> nat option" where
  "todo_scan [] inProgressCount = Some inProgressCount"
| "todo_scan (t # ts) inProgressCount =
    (if td_status t \<notin> set TODO_STATUSES then None
     else todo_scan ts (if td_status t = js ''in_progress'' then inProgressCount + 1 else inProgressCount))"

definition areTodosValid :: "SessionTodo list \<Rightarrow> bool" where
  "areTodosValid ts =
    (if sessionTodoCapacityViolation ts \<noteq> None then False
     else case todo_scan ts 0 of None \<Rightarrow> False | Some n \<Rightarrow> n \<le> 1)"

fun reminder_type :: "ReminderSource \<Rightarrow> string" where
  "reminder_type (TodoStepReminder _) = ''todo_step_reminder''"
| "reminder_type (TodoLoopContinuation _) = ''todo_loop_continuation''"
| "reminder_type (SubagentCompleted _ _) = ''subagent_completed''"
| "reminder_type (SubagentFailed _ _) = ''subagent_failed''"
| "reminder_type (SubagentTimedOut _ _) = ''subagent_timed_out''"
| "reminder_type (SubagentCancelled _ _) = ''subagent_cancelled''"
| "reminder_type (QueueDispatchBlocked _ _ _) = ''queue_dispatch_blocked''"
| "reminder_type (SessionGoalChangedSource _) = ''session_goal_changed''"

definition isSubAgentReminder :: "Reminder \<Rightarrow> bool" where
  "isSubAgentReminder r \<longleftrightarrow> startsWith (js (reminder_type (rm_source r))) (js ''subagent_'')
     \<or> js (reminder_type (rm_source r)) = js ''queue_dispatch_blocked''"

definition terminal_key :: "jstring \<Rightarrow> jstring option \<Rightarrow> jstring" where
  "terminal_key child childExecution = js ''terminal:'' @ child @ js '':''
     @ (case childExecution of None \<Rightarrow> js ''legacy'' | Some e \<Rightarrow> e)"

fun subAgentReminderKey :: "ReminderSource \<Rightarrow> js_error + jstring" where
  "subAgentReminderKey (QueueDispatchBlocked s e _) = Inr (js ''blocked:'' @ s @ js '':'' @ e)"
| "subAgentReminderKey (SubagentCompleted s e) = Inr (terminal_key s e)"
| "subAgentReminderKey (SubagentFailed s e) = Inr (terminal_key s e)"
| "subAgentReminderKey (SubagentTimedOut s e) = Inr (terminal_key s e)"
| "subAgentReminderKey (SubagentCancelled s e) = Inr (terminal_key s e)"
| "subAgentReminderKey _ = Inl (TypeError (js ''Expected a sub-agent reminder''))"

section \<open>Facts\<close>

interpretation child_links: keyed_upsert link_key upsertChildSessionLink
proof -
  have eq: "upsertChildSessionLink xs x = replace_or_append (\<lambda>l. link_key l = link_key x) x xs" for xs x
    by (simp add: upsertChildSessionLink_def replace_or_append_def link_key_def)
  show "keyed_upsert link_key upsertChildSessionLink"
    unfolding eq
    by unfold_locales
      (auto simp: eq replace_or_append_keys replace_or_append_mem replace_or_append_other)
qed

lemma todo_scan_eq:
  "todo_scan ts n = (if \<forall>t \<in> set ts. td_status t \<in> set TODO_STATUSES
     then Some (n + length (filter (\<lambda>t. td_status t = js ''in_progress'') ts)) else None)"
  by (induction ts arbitrary: n) auto

lemma areTodosValid_iff:
  "areTodosValid ts \<longleftrightarrow> length ts \<le> MAX_SESSION_TODOS
     \<and> utf8ByteLength (json_todos ts) \<le> MAX_SESSION_TODOS_SERIALIZED_BYTES
     \<and> (\<forall>t \<in> set ts. td_status t \<in> set TODO_STATUSES)
     \<and> length (filter (\<lambda>t. td_status t = js ''in_progress'') ts) \<le> 1"
  by (simp add: areTodosValid_def sessionTodoCapacityViolation_def todo_scan_eq Let_def)

lemma isSubAgentReminder_iff:
  "isSubAgentReminder r \<longleftrightarrow> (\<exists>k. subAgentReminderKey (rm_source r) = Inr k)"
  by (cases "rm_source r") (simp_all add: isSubAgentReminder_def startsWith_def js_def)

lemma firstChildViolation_None: "firstChildViolation cs = None \<longleftrightarrow> (\<forall>c \<in> set cs. childViolation c = None)"
  by (induction cs) (auto split: option.splits)

lemma set_insert_cmp [simp]: "set (insert_cmp cmp x xs) = insert x (set xs)"
  by (induction xs) auto

lemma set_sort_cmp [simp]: "set (sort_cmp cmp xs) = set xs"
  unfolding sort_cmp_def by (induction xs) auto

lemma length_insert_cmp [simp]: "length (insert_cmp cmp x xs) = Suc (length xs)"
  by (induction xs) auto

lemma length_sort_cmp [simp]: "length (sort_cmp cmp xs) = length xs"
  unfolding sort_cmp_def by (induction xs) auto

text \<open>
  \<open>latest_links\<close> keeps one entry per child, under the child's own identifier, from the links seen.
\<close>

definition latest_inv :: "ToolChildSessionLink set \<Rightarrow> (jstring, ToolChildSessionLink) dict \<Rightarrow> bool" where
  "latest_inv seen d \<longleftrightarrow> distinct (map fst d) \<and> fst ` set d = cl_childSessionId ` seen
     \<and> (\<forall>p \<in> set d. snd p \<in> seen \<and> cl_childSessionId (snd p) = fst p)"

lemma latest_inv_step:
  assumes inv: "latest_inv seen d"
  shows "latest_inv (insert l seen) (AList.update (cl_childSessionId l) l d)"
proof -
  have "distinct (map fst (AList.update (cl_childSessionId l) l d))"
    using inv by (simp add: latest_inv_def distinct_update)
  moreover have "fst ` set (AList.update (cl_childSessionId l) l d) = cl_childSessionId ` insert l seen"
    using inv by (simp add: latest_inv_def dom_update)
  moreover have "p = (cl_childSessionId l, l) \<or> p \<in> set d"
    if "p \<in> set (AList.update (cl_childSessionId l) l d)" for p
    using that by (induction d) (auto split: if_splits)
  then have "\<forall>p \<in> set (AList.update (cl_childSessionId l) l d).
      snd p \<in> insert l seen \<and> cl_childSessionId (snd p) = fst p"
    using inv unfolding latest_inv_def by (metis fst_conv insertCI snd_conv)
  ultimately show ?thesis
    unfolding latest_inv_def by blast
qed

lemma latest_links_inv:
  "latest_inv seen d \<Longrightarrow> latest_inv (set links \<union> seen) (latest_links lc links d)"
proof (induction links arbitrary: seen d)
  case Nil
  then show ?case by simp
next
  case (Cons l ls)
  let ?k = "cl_childSessionId l"
  have skip: "latest_inv (insert l seen) d" if "map_of d ?k = Some c" for c
  proof -
    have "?k \<in> cl_childSessionId ` seen"
      using that Cons.prems by (metis domI dom_map_of_conv_image_fst latest_inv_def)
    then show ?thesis
      using Cons.prems by (auto simp: latest_inv_def)
  qed
  have "latest_inv (insert l seen) (case map_of d ?k of None \<Rightarrow> AList.update ?k l d
     | Some c \<Rightarrow> if newer_link lc l c then AList.update ?k l d else d)"
    using latest_inv_step [OF Cons.prems, of l] skip by (auto split: option.splits)
  from Cons.IH [OF this] show ?case by simp
qed

lemma select_latest_links:
  "set (selectLatestDirectChildLinks lc links) \<subseteq> set links"
  "cl_childSessionId ` set (selectLatestDirectChildLinks lc links) = cl_childSessionId ` set links"
  "length (selectLatestDirectChildLinks lc links) = card (cl_childSessionId ` set links)"
proof -
  have "latest_inv {} []" by (simp add: latest_inv_def)
  from latest_links_inv [OF this, of links lc]
  have inv: "latest_inv (set links) (latest_links lc links [])" by simp
  then show "set (selectLatestDirectChildLinks lc links) \<subseteq> set links"
    by (auto simp: selectLatestDirectChildLinks_def latest_inv_def)
  have fsteq: "cl_childSessionId ` snd ` set (latest_links lc links []) = fst ` set (latest_links lc links [])"
    using inv unfolding latest_inv_def image_image by (metis (mono_tags, lifting) image_cong)
  with inv show "cl_childSessionId ` set (selectLatestDirectChildLinks lc links) = cl_childSessionId ` set links"
    by (simp add: selectLatestDirectChildLinks_def latest_inv_def)
  have "length (latest_links lc links []) = card (fst ` set (latest_links lc links []))"
    using inv by (metis distinct_card latest_inv_def length_map set_map)
  with inv show "length (selectLatestDirectChildLinks lc links) = card (cl_childSessionId ` set links)"
    by (simp add: selectLatestDirectChildLinks_def latest_inv_def)
qed

section \<open>The latest link of a child\<close>

text \<open>What is used of \<open>localeCompare\<close>: it is a total preorder with antisymmetric signs.\<close>

definition collation_order :: "collation \<Rightarrow> bool" where
  "collation_order lc \<longleftrightarrow> (\<forall>a b. lc a b \<le> 0 \<longleftrightarrow> lc b a \<ge> 0) \<and> (\<forall>a b c. lc a b \<le> 0 \<longrightarrow> lc b c \<le> 0 \<longrightarrow> lc a c \<le> 0)"

lemma collation_orderD:
  assumes "collation_order lc"
  shows "lc a a = 0" "lc a b \<le> 0 \<or> lc b a \<le> 0" "lc a b \<le> 0 \<Longrightarrow> lc b c \<le> 0 \<Longrightarrow> lc a c \<le> 0"
    and "lc a b > 0 \<Longrightarrow> lc b c > 0 \<Longrightarrow> lc a c > 0"
proof -
  have sym: "lc a b \<le> 0 \<longleftrightarrow> lc b a \<ge> 0" and tr: "lc a b \<le> 0 \<Longrightarrow> lc b c \<le> 0 \<Longrightarrow> lc a c \<le> 0" for a b c
    using assms unfolding collation_order_def by blast+
  show "lc a a = 0" using sym [of a a] by linarith
  have total: "lc a b \<le> 0 \<or> lc b a \<le> 0" for a b using sym [of a b] by linarith
  then show "lc a b \<le> 0 \<or> lc b a \<le> 0" .
  show "lc a b \<le> 0 \<Longrightarrow> lc b c \<le> 0 \<Longrightarrow> lc a c \<le> 0" by (rule tr)
  assume pos: "lc a b > 0" "lc b c > 0"
  show "lc a c > 0"
  proof (rule ccontr)
    assume "\<not> lc a c > 0"
    then have "lc a c \<le> 0" by simp
    moreover have "lc c b \<le> 0" using total [of b c] pos by simp
    ultimately have "lc a b \<le> 0" by (rule tr)
    with pos show False by simp
  qed
qed

lemma newer_link_order:
  assumes "collation_order lc"
  shows "\<not> newer_link lc l l" "newer_link lc a b \<Longrightarrow> newer_link lc b c \<Longrightarrow> newer_link lc a c"
  using collation_orderD(1) [OF assms, of "cl_parentToolCallId l"]
    collation_orderD(4) [OF assms, of "cl_parentToolCallId a" "cl_parentToolCallId b" "cl_parentToolCallId c"]
  by (auto simp: newer_link_def)

definition newest_kept :: "collation \<Rightarrow> ToolChildSessionLink set \<Rightarrow> (jstring, ToolChildSessionLink) dict \<Rightarrow> bool" where
  "newest_kept lc seen d \<longleftrightarrow> (\<forall>x \<in> seen. \<exists>c. map_of d (cl_childSessionId x) = Some c \<and> \<not> newer_link lc x c)"

lemma latest_links_newest:
  assumes lc: "collation_order lc"
  shows "newest_kept lc seen d \<Longrightarrow> newest_kept lc (set links \<union> seen) (latest_links lc links d)"
proof (induction links arbitrary: seen d)
  case Nil
  then show ?case by simp
next
  case (Cons l ls)
  let ?k = "cl_childSessionId l"
  let ?d = "case map_of d ?k of None \<Rightarrow> AList.update ?k l d
     | Some c \<Rightarrow> if newer_link lc l c then AList.update ?k l d else d"
  have old: "\<exists>c. map_of d (cl_childSessionId x) = Some c \<and> \<not> newer_link lc x c" if "x \<in> seen" for x
    using Cons.prems that by (simp add: newest_kept_def)
  have "\<exists>c. map_of ?d (cl_childSessionId x) = Some c \<and> \<not> newer_link lc x c" if x: "x \<in> insert l seen" for x
  proof (cases "cl_childSessionId x = ?k")
    case False
    then have "map_of ?d (cl_childSessionId x) = map_of d (cl_childSessionId x)"
      by (auto simp: update_conv' split: option.splits)
    moreover have "x \<in> seen" using False x by blast
    ultimately show ?thesis using old by simp
  next
    case True
    show ?thesis
    proof (cases "map_of d ?k")
      case None
      with old [of x] True x newer_link_order(1) [OF lc] show ?thesis by (auto simp: update_conv')
    next
      case (Some c)
      have "x = l \<or> \<not> newer_link lc x c" using old [of x] True x Some by auto
      with Some True newer_link_order [OF lc] show ?thesis by (auto simp: update_conv')
    qed
  qed
  then have "newest_kept lc (insert l seen) ?d" by (simp add: newest_kept_def)
  from Cons.IH [OF this] show ?case by simp
qed

lemma sorted_insert_cmp:
  assumes total: "\<And>a b. cmp a b \<le> 0 \<or> cmp b a \<le> 0"
    and trans: "\<And>a b c. cmp a b \<le> 0 \<Longrightarrow> cmp b c \<le> 0 \<Longrightarrow> cmp a c \<le> (0 :: int)"
  shows "sorted_wrt (\<lambda>a b. cmp a b \<le> 0) xs \<Longrightarrow> sorted_wrt (\<lambda>a b. cmp a b \<le> 0) (insert_cmp cmp x xs)"
proof (induction xs)
  case Nil
  then show ?case by simp
next
  case (Cons a xs)
  show ?case
  proof (cases "cmp x a \<le> 0")
    case True
    with Cons.prems trans [OF True] show ?thesis by simp
  next
    case False
    then have "cmp a x \<le> 0" using total [of x a] by simp
    with Cons False show ?thesis by simp
  qed
qed

lemma sorted_sort_cmp:
  assumes "\<And>a b. cmp a b \<le> 0 \<or> cmp b a \<le> 0"
    and "\<And>a b c. cmp a b \<le> 0 \<Longrightarrow> cmp b c \<le> 0 \<Longrightarrow> cmp a c \<le> (0 :: int)"
  shows "sorted_wrt (\<lambda>a b. cmp a b \<le> 0) (sort_cmp cmp xs)"
  unfolding sort_cmp_def using sorted_insert_cmp [where cmp = cmp, OF assms] by (induction xs) auto

text \<open>
  The direct children of a Session are its latest links: under a collation that orders strings,
  the selection has exactly one link for every child that has any, each selected link is one of the
  given ones and none for the same child is newer, and the children come sorted by identifier.
\<close>
theorem latest_links_one_per_child:
  assumes "collation_order lc"
  shows "length (selectLatestDirectChildLinks lc links) = card (cl_childSessionId ` set links)
    \<and> cl_childSessionId ` set (selectLatestDirectChildLinks lc links) = cl_childSessionId ` set links
    \<and> (\<forall>l \<in> set (selectLatestDirectChildLinks lc links). l \<in> set links
        \<and> (\<forall>x \<in> set links. cl_childSessionId x = cl_childSessionId l \<longrightarrow> \<not> newer_link lc x l))
    \<and> sorted_wrt (\<lambda>a b. lc (cl_childSessionId a) (cl_childSessionId b) \<le> 0) (selectLatestDirectChildLinks lc links)"
proof (intro conjI ballI impI)
  have inv: "latest_inv (set links) (latest_links lc links [])"
    using latest_links_inv [of "{}" "[]" links lc] by (simp add: latest_inv_def)
  have new: "newest_kept lc (set links) (latest_links lc links [])"
    using latest_links_newest [OF assms, of "{}" "[]" links] by (simp add: newest_kept_def)
  fix l assume l: "l \<in> set (selectLatestDirectChildLinks lc links)"
  then show "l \<in> set links" using select_latest_links(1) by blast
  fix x assume x: "x \<in> set links" "cl_childSessionId x = cl_childSessionId l"
  from l obtain k where "(k, l) \<in> set (latest_links lc links [])"
    by (auto simp: selectLatestDirectChildLinks_def)
  with inv have "map_of (latest_links lc links []) (cl_childSessionId l) = Some l"
    unfolding latest_inv_def by (metis fst_conv map_of_is_SomeI snd_conv)
  with new x show "\<not> newer_link lc x l" unfolding newest_kept_def by fastforce
next
  show "sorted_wrt (\<lambda>a b. lc (cl_childSessionId a) (cl_childSessionId b) \<le> 0) (selectLatestDirectChildLinks lc links)"
    unfolding selectLatestDirectChildLinks_def
    by (rule sorted_sort_cmp [where cmp = "\<lambda>a b. lc (cl_childSessionId a) (cl_childSessionId b)"])
      (use collation_orderD [OF assms] in blast)+
qed (rule select_latest_links)+

end
