(* ===== verification/CompressionSnapshots.thy ===== *)
theory CompressionSnapshots
  imports ProtocolState
begin

text \<open>
  The compression snapshots of a Session: the functions of reduce.ts on
  \<open>CompressionStateSnapshot\<close> and on the compression blocks of the projection, and the summary
  renderer of packages/protocol/src/compression.ts. The three lists of block references are a
  partition of the blocks by status, which a commit restores whatever it was before.
\<close>

section \<open>Summaries\<close>

definition COMPRESSION_SUMMARY_SECTION_NAMES :: "CompressionSummarySectionName list" where
  "COMPRESSION_SUMMARY_SECTION_NAMES = [CurrentObjective, UserConstraints, DecisionsMade, OpenTasks,
     ImportantFiles, ToolResults, ErrorsUnknownResults, ProtectedRefs, ChildBlockRefs,
     ResumeInstructions]"

fun section_name :: "CompressionSummarySectionName \<Rightarrow> string" where
  "section_name CurrentObjective = ''Current Objective''"
| "section_name UserConstraints = ''User Constraints''"
| "section_name DecisionsMade = ''Decisions Made''"
| "section_name OpenTasks = ''Open Tasks''"
| "section_name ImportantFiles = ''Important Files''"
| "section_name ToolResults = ''Tool Results''"
| "section_name ErrorsUnknownResults = ''Errors/Unknown Results''"
| "section_name ProtectedRefs = ''Protected Refs''"
| "section_name ChildBlockRefs = ''Child Block Refs''"
| "section_name ResumeInstructions = ''Resume Instructions''"

definition renderCompressionSummarySnapshot :: "(CompressionSummarySectionName \<Rightarrow> jstring) \<Rightarrow> jstring" where
  "renderCompressionSummarySnapshot sections = join_with [LF, LF]
     (map (\<lambda>s. js ''## '' @ js (section_name s) @ [LF] @ sections s) COMPRESSION_SUMMARY_SECTION_NAMES)"

text \<open>\<open>/\(b\d+\)/.test(content)\<close>: an opening parenthesis, a b, digits, a closing parenthesis.\<close>

fun digits_then_close :: "bool \<Rightarrow> jstring \<Rightarrow> bool" where
  "digits_then_close seen [] = False"
| "digits_then_close seen (c # cs) =
    (if 48 \<le> c \<and> c \<le> 57 then digits_then_close True cs else seen \<and> c = 41)"

fun block_ref_at :: "jstring \<Rightarrow> bool" where
  "block_ref_at (c # d # cs) = (c = 40 \<and> d = 98 \<and> digits_then_close False cs)"
| "block_ref_at _ = False"

fun has_block_ref :: "jstring \<Rightarrow> bool" where
  "has_block_ref [] = False"
| "has_block_ref (c # cs) = (block_ref_at (c # cs) \<or> has_block_ref cs)"

definition isMaterializedCompressionSummarySnapshot :: "(CompressionSummarySectionName \<Rightarrow> jstring) \<Rightarrow> bool" where
  "isMaterializedCompressionSummarySnapshot sections =
     list_all (\<lambda>s. sections s \<noteq> [] \<and> \<not> has_block_ref (sections s)) COMPRESSION_SUMMARY_SECTION_NAMES"

section \<open>Snapshots\<close>

definition createEmptyCompressionRefMapSnapshot :: CompressionRefMapSnapshot where
  "createEmptyCompressionRefMapSnapshot = \<lparr> crm_messageRefsById = [], crm_messageIdsByRef = [],
     crm_blockRefsById = [], crm_blockIdsByRef = [], crm_nextMessageIndex = 1, crm_nextBlockIndex = 1 \<rparr>"

definition createEmptyCompressionStateSnapshot :: CompressionStateSnapshot where
  "createEmptyCompressionStateSnapshot = \<lparr> cs_refMap = createEmptyCompressionRefMapSnapshot,
     cs_blocksByRef = [], cs_activeBlockRefs = [], cs_inactiveBlockRefs = [],
     cs_supersededBlockRefs = [], cs_failures = [], cs_updatedAt = None \<rparr>"

definition refs_with :: "CompressionBlockStatus \<Rightarrow> CompressionBlockSnapshot list \<Rightarrow> jstring list" where
  "refs_with status blocks = map cb_ref (filter (\<lambda>b. cb_status b = status) blocks)"

definition normalizeCompressionStateSnapshot :: "CompressionStateSnapshot \<Rightarrow> CompressionStateSnapshot" where
  "normalizeCompressionStateSnapshot st =
    (let blocks = map snd (cs_blocksByRef st) in
     st\<lparr>cs_activeBlockRefs := refs_with BlockActive blocks,
        cs_inactiveBlockRefs := refs_with BlockInactive blocks,
        cs_supersededBlockRefs := refs_with BlockSuperseded blocks\<rparr>)"

definition mergeCompressionRefMap ::
  "CompressionRefMapSnapshot \<Rightarrow> CompressionBlockSnapshot \<Rightarrow> CompressionRefMapSnapshot" where
  "mergeCompressionRefMap refMap block =
    (let range = cb_range block in
     refMap\<lparr>
       crm_messageRefsById := AList.update (cr_endMessageId range) (cr_endRef range)
         (AList.update (cr_startMessageId range) (cr_startRef range) (crm_messageRefsById refMap)),
       crm_messageIdsByRef := AList.update (cr_endRef range) (cr_endMessageId range)
         (AList.update (cr_startRef range) (cr_startMessageId range) (crm_messageIdsByRef refMap)),
       crm_blockRefsById := AList.update (cb_id block) (cb_ref block) (crm_blockRefsById refMap),
       crm_blockIdsByRef := AList.update (cb_ref block) (cb_id block) (crm_blockIdsByRef refMap)\<rparr>)"

text \<open>\<open>a || b\<close> on numbers: zero is falsy.\<close>

definition number_or :: "int \<Rightarrow> int \<Rightarrow> int" where
  "number_or a b = (if a = 0 then b else a)"

definition base_state :: "CompressionStateSnapshot option \<Rightarrow> CompressionStateSnapshot" where
  "base_state existing = (case existing of None \<Rightarrow> createEmptyCompressionStateSnapshot | Some st \<Rightarrow> st)"

definition commitCompressionBlockSnapshot ::
  "CompressionStateSnapshot option \<Rightarrow> CompressionBlockSnapshot \<Rightarrow> int \<Rightarrow> CompressionStateSnapshot" where
  "commitCompressionBlockSnapshot existing block timestamp =
    (let base = base_state existing in
     normalizeCompressionStateSnapshot (base\<lparr>
       cs_refMap := mergeCompressionRefMap (cs_refMap base) block,
       cs_blocksByRef := AList.update (cb_ref block) block (cs_blocksByRef base),
       cs_updatedAt := Some (number_or (cb_updatedAt block) timestamp)\<rparr>))"

definition appendCompressionFailureSnapshot ::
  "CompressionStateSnapshot option \<Rightarrow> CompressionFailureSnapshot \<Rightarrow> int \<Rightarrow> CompressionStateSnapshot" where
  "appendCompressionFailureSnapshot existing failure timestamp =
    (let base = base_state existing in
     base\<lparr>cs_failures := cs_failures base @ [failure],
       cs_updatedAt := Some (number_or (cf_failedAt failure) timestamp)\<rparr>)"

section \<open>The blocks of the projection\<close>

definition toCompressionBlockPart :: "CompressionBlockSnapshot \<Rightarrow> int \<Rightarrow> jstring \<Rightarrow> CompressionBlockPart" where
  "toCompressionBlockPart block timestamp generatedId = \<lparr>
     cbp_id = js ''compression:'' @ cb_ref block @ js '':'' @ generatedId,
     cbp_blockRef = cb_ref block,
     cbp_status = cb_status block,
     cbp_strategy = cb_strategy block,
     cbp_trigger = cb_trigger block,
     cbp_summary = renderCompressionSummarySnapshot (cb_summary block),
     cbp_startRef = cr_startRef (cb_range block),
     cbp_endRef = cr_endRef (cb_range block),
     cbp_childBlockRefs = cb_childBlockRefs block,
     cbp_committedAt = number_or (cb_createdAt block) timestamp \<rparr>"

definition upsert_block_part :: "CompressionBlockPart list \<Rightarrow> CompressionBlockPart \<Rightarrow> CompressionBlockPart list" where
  "upsert_block_part parts part =
    (case find_index (\<lambda>item. cbp_blockRef item = cbp_blockRef part) parts of
       None \<Rightarrow> parts @ [part]
     | Some i \<Rightarrow> parts[i := part])"

definition upsertCompressionBlockPart ::
  "CompressionBlockPart list \<Rightarrow> CompressionBlockSnapshot \<Rightarrow> int \<Rightarrow> jstring \<Rightarrow> CompressionBlockPart list" where
  "upsertCompressionBlockPart parts block timestamp generatedId =
     upsert_block_part parts (toCompressionBlockPart block timestamp generatedId)"

interpretation block_parts: keyed_upsert cbp_blockRef upsert_block_part
proof -
  have eq: "upsert_block_part xs x = replace_or_append (\<lambda>p. cbp_blockRef p = cbp_blockRef x) x xs" for xs x
    by (simp add: upsert_block_part_def replace_or_append_def)
  show "keyed_upsert cbp_blockRef upsert_block_part"
    by unfold_locales (auto simp: eq replace_or_append_keys replace_or_append_mem replace_or_append_other)
qed

section \<open>The partition by status\<close>

text \<open>
  Every block is filed under its own reference, references are distinct, and the three lists hold
  the references of the blocks of each status.
\<close>

definition filed_blocks :: "(jstring, CompressionBlockSnapshot) dict \<Rightarrow> bool" where
  "filed_blocks d \<longleftrightarrow> distinct (map fst d) \<and> (\<forall>p \<in> set d. cb_ref (snd p) = fst p)"

definition partitioned :: "CompressionStateSnapshot \<Rightarrow> bool" where
  "partitioned st \<longleftrightarrow> filed_blocks (cs_blocksByRef st)
     \<and> cs_activeBlockRefs st = refs_with BlockActive (map snd (cs_blocksByRef st))
     \<and> cs_inactiveBlockRefs st = refs_with BlockInactive (map snd (cs_blocksByRef st))
     \<and> cs_supersededBlockRefs st = refs_with BlockSuperseded (map snd (cs_blocksByRef st))"

lemma set_update_cases: "p \<in> set (AList.update k v d) \<Longrightarrow> p = (k, v) \<or> p \<in> set d"
  by (induction d) (auto split: if_splits)

lemma filed_blocks_update: "filed_blocks d \<Longrightarrow> filed_blocks (AList.update (cb_ref b) b d)"
  unfolding filed_blocks_def by (auto simp: distinct_update dest: set_update_cases)

lemma normalize_partitioned: "filed_blocks (cs_blocksByRef st) \<Longrightarrow> partitioned (normalizeCompressionStateSnapshot st)"
  by (simp add: partitioned_def normalizeCompressionStateSnapshot_def Let_def)

lemma partitioned_empty: "partitioned createEmptyCompressionStateSnapshot"
  by (simp add: partitioned_def createEmptyCompressionStateSnapshot_def filed_blocks_def refs_with_def)

lemma base_state_partitioned: "(\<And>st. existing = Some st \<Longrightarrow> partitioned st) \<Longrightarrow> partitioned (base_state existing)"
  by (simp add: base_state_def partitioned_empty split: option.splits)

lemma commit_partitioned:
  assumes "filed_blocks (cs_blocksByRef (base_state existing))"
  shows "partitioned (commitCompressionBlockSnapshot existing block timestamp)"
  unfolding commitCompressionBlockSnapshot_def Let_def
  by (rule normalize_partitioned) (simp add: assms filed_blocks_update)

lemma failure_partitioned:
  "partitioned (base_state existing) \<Longrightarrow> partitioned (appendCompressionFailureSnapshot existing failure timestamp)"
  by (simp add: partitioned_def appendCompressionFailureSnapshot_def Let_def)

lemma partitioned_mem:
  assumes "partitioned st" "map_of (cs_blocksByRef st) r = Some b"
  shows "r \<in> set (cs_activeBlockRefs st) \<longleftrightarrow> cb_status b = BlockActive"
    and "r \<in> set (cs_inactiveBlockRefs st) \<longleftrightarrow> cb_status b = BlockInactive"
    and "r \<in> set (cs_supersededBlockRefs st) \<longleftrightarrow> cb_status b = BlockSuperseded"
proof -
  have uniq: "c = b" if "(k, c) \<in> set (cs_blocksByRef st)" "cb_ref c = r" for k c
    using assms that unfolding partitioned_def filed_blocks_def
    by (metis fst_conv map_of_is_SomeI option.inject snd_conv)
  have mem: "(r, b) \<in> set (cs_blocksByRef st)" "cb_ref b = r"
    using assms map_of_SomeD unfolding partitioned_def filed_blocks_def by fastforce+
  have "r \<in> set (refs_with s (map snd (cs_blocksByRef st))) \<longleftrightarrow> cb_status b = s" for s
    unfolding refs_with_def using uniq mem by (force simp: image_iff)
  then show "r \<in> set (cs_activeBlockRefs st) \<longleftrightarrow> cb_status b = BlockActive"
    and "r \<in> set (cs_inactiveBlockRefs st) \<longleftrightarrow> cb_status b = BlockInactive"
    and "r \<in> set (cs_supersededBlockRefs st) \<longleftrightarrow> cb_status b = BlockSuperseded"
    using assms by (simp_all add: partitioned_def)
qed

lemma commit_lookup:
  "map_of (cs_blocksByRef (commitCompressionBlockSnapshot existing block timestamp)) r
    = (if r = cb_ref block then Some block else map_of (cs_blocksByRef (base_state existing)) r)"
  by (simp add: commitCompressionBlockSnapshot_def normalizeCompressionStateSnapshot_def Let_def update_conv')

end
