(* ===== verification/Reducer.thy ===== *)
theory Reducer
  imports ProtocolEvents ExecutionLifecycle SessionStatistics Messages SessionCapacity
    CompressionSnapshots
begin

text \<open>
  \<open>reduceStreamEvent\<close> of packages/protocol/src/reduce.ts: one definition per case of its switch,
  the helpers the cases share, and the dispatch with the lifecycle guard in front of it. A case
  returns the patch of the source, or the exception it throws. The \<open>n\<close>-th identifier drawn in a
  case is \<open>rc_generateId ctx n\<close>, in the order the source draws them.
\<close>

section \<open>The current run and the open step\<close>

definition currentRunOrdinal :: "SessionProjection \<Rightarrow> int option" where
  "currentRunOrdinal s =
    (case currentExecutionId s of
       None \<Rightarrow> None
     | Some i \<Rightarrow>
         (case find (\<lambda>e. ex_id e = i) (executions s) of
            None \<Rightarrow> None
          | Some e \<Rightarrow> map_option run_ordinal (at_last (ex_runs e))))"

text \<open>Both the current Execution and its run ordinal, or nothing.\<close>

definition current_run :: "SessionProjection \<Rightarrow> (jstring \<times> int) option" where
  "current_run s =
    (case (currentExecutionId s, currentRunOrdinal s) of
       (Some i, Some ord) \<Rightarrow> Some (i, ord)
     | _ \<Rightarrow> None)"

definition currentMessageExecution :: "SessionProjection \<Rightarrow> jstring option \<times> int option" where
  "currentMessageExecution s =
    (case current_run s of None \<Rightarrow> (None, None) | Some (i, ord) \<Rightarrow> (Some i, Some ord))"

definition isActiveOpenStep :: "SessionProjection \<Rightarrow> jstring \<Rightarrow> bool" where
  "isActiveOpenStep s stepId =
    (case current_run s of
       None \<Rightarrow> False
     | Some (i, ord) \<Rightarrow>
         \<exists>st \<in> set (steps s). sp_id st = stepId \<and> sp_executionId st = i \<and> sp_runOrdinal st = ord
           \<and> sp_completedAt st = None)"

section \<open>The Assistant message of an event\<close>

record AssistantMessageResult =
  amr_messages :: "SessionMessage list"
  amr_messageId :: jstring
  amr_stats :: "SessionStats option"

fun is_message :: "jstring \<Rightarrow> SessionMessage \<Rightarrow> bool" where
  "is_message i (AssistantMessage a) = (am_id a = i)"
| "is_message i (UserMessage u) = False"

definition first_content_stats :: "SessionStats \<Rightarrow> ModelStepAssistantMessage \<Rightarrow> SessionStats option" where
  "first_content_stats st a =
    (if assistantMessageHasContent a then None else Some (incrementAssistantMessages st))"

definition ensureCurrentAssistantMessage :: "SessionProjection \<Rightarrow> js_error + AssistantMessageResult" where
  "ensureCurrentAssistantMessage s =
    (case currentAssistantMessageId s of
       None \<Rightarrow> Inl (GenericError (js ''Assistant event requires a current model-step message''))
     | Some i \<Rightarrow>
         (if i = [] then Inl (GenericError (js ''Assistant event requires a current model-step message''))
          else case find (is_message i) (messages s) of
            Some (AssistantMessage a) \<Rightarrow>
              Inr \<lparr> amr_messages = messages s, amr_messageId = i,
                    amr_stats = first_content_stats (stats s) a \<rparr>
          | _ \<Rightarrow> Inl (GenericError (js ''Current Assistant message is not a model-step message''))))"

definition assistantForRecoveryEvent ::
  "SessionProjection \<Rightarrow> jstring option \<Rightarrow> AssistantMessageResult option" where
  "assistantForRecoveryEvent s stepId =
    (case (case stepId of None \<Rightarrow> currentAssistantMessageId s
                        | Some st \<Rightarrow> modelStepMessageId (messages s) st) of
       None \<Rightarrow> None
     | Some i \<Rightarrow>
         (case find (is_message i) (messages s) of
            Some (AssistantMessage a) \<Rightarrow>
              Some \<lparr> amr_messages = messages s, amr_messageId = i,
                     amr_stats = first_content_stats (stats s) a \<rparr>
          | _ \<Rightarrow> None))"

definition firstAssistantContentStats :: "SessionProjection \<Rightarrow> jstring \<Rightarrow> SessionStats option" where
  "firstAssistantContentStats s messageId =
    (case find (\<lambda>m. msg_id m = messageId) (messages s) of
       Some (AssistantMessage a) \<Rightarrow> first_content_stats (stats s) a
     | _ \<Rightarrow> None)"

section \<open>Lifecycle cases\<close>

definition validateExecutionFinalOutputSelection ::
  "SessionMessage list \<Rightarrow> SessionStep list \<Rightarrow> ExecutionEndEvent \<Rightarrow> ExecutionTransitionValidation" where
  "validateExecutionFinalOutputSelection msgs sts event =
    (case en_finalOutputStepId event of
       None \<Rightarrow> Valid
     | Some stepId \<Rightarrow>
         (if en_terminalStatus event \<noteq> Completed
          then Invalid (js ''Only a completed Execution may select final Assistant output'')
          else case at_last (filter (\<lambda>st. sp_executionId st = en_executionId event) sts) of
            None \<Rightarrow> Invalid (js ''Final Assistant output must select the last completed model attempt'')
          | Some selected \<Rightarrow>
              (if sp_id selected \<noteq> stepId \<or> sp_completedAt selected = None
               then Invalid (js ''Final Assistant output must select the last completed model attempt'')
               else if sp_finishReason selected \<noteq> Some (js ''stop'')
               then Invalid (js ''Final Assistant output requires finishReason stop'')
               else if \<not> hasTrustedAssistantOutput msgs (sp_id selected)
               then Invalid (js ''Final Assistant output must be completed, non-empty, and trusted'')
               else Valid)))"

definition onExecutionStart ::
  "SessionProjection \<Rightarrow> ExecutionStartEvent \<Rightarrow> int \<Rightarrow> SessionProjectionPatch" where
  "onExecutionStart s event timestamp =
    (let exs = executions s @ [startExecution event timestamp] in
     no_patch\<lparr>p_isRunning := Some True, p_currentExecutionId := Some (Some (es_executionId event)),
       p_currentAssistantMessageId := Some None, p_isStreamingModel := Some False,
       p_executions := Some exs, p_executionCount := Some (int (length exs))\<rparr>)"

definition onExecutionSuspended ::
  "SessionProjection \<Rightarrow> ExecutionSuspendedEvent \<Rightarrow> js_error + SessionProjectionPatch" where
  "onExecutionSuspended s event =
     bindE (mapE (suspendExecution event) (executions s)) (\<lambda>exs.
       Inr (no_patch\<lparr>p_executions := Some exs, p_isRunning := Some False,
         p_isStreamingModel := Some False, p_currentExecutionId := Some (Some (su_executionId event))\<rparr>))"

definition onSuspensionUpdated ::
  "SessionProjection \<Rightarrow> jstring \<Rightarrow> SessionExecutionSuspension \<Rightarrow> SessionProjectionPatch" where
  "onSuspensionUpdated s executionId suspension =
     no_patch\<lparr>p_executions := Some (map (updateSuspension executionId suspension) (executions s))\<rparr>"

definition onExecutionResumed ::
  "SessionProjection \<Rightarrow> ExecutionResumedEvent \<Rightarrow> int \<Rightarrow> SessionProjectionPatch" where
  "onExecutionResumed s event timestamp =
     no_patch\<lparr>p_executions := Some (map (resumeMatching event timestamp) (executions s)),
       p_isRunning := Some True, p_isStreamingModel := Some False,
       p_currentExecutionId := Some (Some (re_executionId event))\<rparr>"

definition onExecutionEnd ::
  "SessionProjection \<Rightarrow> ExecutionEndEvent \<Rightarrow> js_error + SessionProjectionPatch" where
  "onExecutionEnd s event =
     bindE (endExecution (executions s) event) (\<lambda>exs.
       let settledMessages = settleIncompleteState (messages s) (currentAssistantMessageId s)
             (en_endedAt event) (en_terminalStatus event) in
       Inr (no_patch\<lparr>
         p_messages := Some (case en_finalOutputStepId event of
            None \<Rightarrow> settledMessages
          | Some stepId \<Rightarrow> promoteFinalAssistantOutput settledMessages (en_executionId event) stepId),
         p_executions := Some exs, p_executionCount := Some (int (length exs)),
         p_isRunning := Some False, p_isStreamingModel := Some False,
         p_currentExecutionId := Some None, p_currentAssistantMessageId := Some None\<rparr>))"

fun onLifecycle :: "SessionProjection \<Rightarrow> ExecutionLifecycleEvent \<Rightarrow> int \<Rightarrow> js_error + SessionProjectionPatch" where
  "onLifecycle s (ExecutionStart e) timestamp = Inr (onExecutionStart s e timestamp)"
| "onLifecycle s (ExecutionSuspended e) timestamp = onExecutionSuspended s e"
| "onLifecycle s (ExecutionSuspensionUpdated i susp) timestamp = Inr (onSuspensionUpdated s i susp)"
| "onLifecycle s (ExecutionResumed e) timestamp = Inr (onExecutionResumed s e timestamp)"
| "onLifecycle s (ExecutionEnd e) timestamp = onExecutionEnd s e"

definition final_output_ok :: "SessionProjection \<Rightarrow> ExecutionLifecycleEvent \<Rightarrow> bool" where
  "final_output_ok s event = (case event of
     ExecutionEnd e \<Rightarrow> validateExecutionFinalOutputSelection (messages s) (steps s) e = Valid
   | _ \<Rightarrow> True)"

definition reduceLifecycle ::
  "SessionProjection \<Rightarrow> ExecutionLifecycleEvent \<Rightarrow> int \<Rightarrow> js_error + SessionProjectionPatch" where
  "reduceLifecycle s event timestamp =
    (if validateExecutionTransition (executions s) event \<noteq> Valid then Inr no_patch
     else if \<not> final_output_ok s event then Inr no_patch
     else onLifecycle s event timestamp)"

definition onStopRequested :: "SessionProjection \<Rightarrow> jstring \<Rightarrow> int \<Rightarrow> SessionProjectionPatch" where
  "onStopRequested s executionId timestamp =
    (if \<exists>e \<in> set (executions s). ex_id e = executionId
     then no_patch\<lparr>p_executions := Some (map (requestStop executionId timestamp) (executions s))\<rparr>
     else no_patch)"

section \<open>Session settings and queued messages\<close>

definition onMessageReplaced :: "SessionProjection \<Rightarrow> PendingSessionMessage \<Rightarrow> SessionProjectionPatch" where
  "onMessageReplaced s message =
     no_patch\<lparr>p_pendingMessages :=
       Some (map (\<lambda>m. if pm_id m = pm_id message then message else m) (pendingMessages s))\<rparr>"

definition onMessageDeleted :: "SessionProjection \<Rightarrow> jstring \<Rightarrow> SessionProjectionPatch" where
  "onMessageDeleted s messageId =
     no_patch\<lparr>p_pendingMessages := Some (filter (\<lambda>m. pm_id m \<noteq> messageId) (pendingMessages s))\<rparr>"

definition onMessagesCommitted :: "SessionProjection \<Rightarrow> SessionMessage list \<Rightarrow> SessionProjectionPatch" where
  "onMessagesCommitted s committed =
    (let newMessages = filter (\<lambda>m. msg_id m \<notin> set (map msg_id (messages s))) committed in
     no_patch\<lparr>
       p_pendingMessages := Some (filter (\<lambda>m. pm_id m \<notin> set (map msg_id committed)) (pendingMessages s)),
       p_messages := Some (messages s @ newMessages),
       p_stats := Some (incrementUserMessagesBy (stats s) (int (length newMessages)))\<rparr>)"

definition onSystemNotice :: "SessionProjection \<Rightarrow> jstring \<Rightarrow> ReduceContext \<Rightarrow> SessionProjectionPatch" where
  "onSystemNotice s notice ctx =
    (let timestamp = rc_timestamp ctx;
         part = \<lparr> sn_id = rc_generateId ctx 0, sn_notice = notice, sn_createdAt = timestamp,
                  sn_completedAt = Some timestamp \<rparr>;
         origin = currentMessageExecution s;
         message = \<lparr> um_id = rc_generateId ctx 1, um_createdAt = timestamp,
                     um_completedAt = Some timestamp, um_executionId = fst origin,
                     um_runOrdinal = snd origin, um_clientRequestId = None, um_inputSource = None,
                     um_parentAgentProvenance = None, um_compacted = None,
                     um_parts = [UserSystemNotice part], um_modelAudit = None \<rparr> in
     no_patch\<lparr>p_messages := Some (messages s @ [UserMessage message])\<rparr>)"

section \<open>Streamed blocks\<close>

text \<open>\<open>appendAssistantOutputPart\<close> and \<open>appendReasoningPart\<close>, which no caller gives statistics.\<close>

definition appendBlockPart ::
  "BlockChannel \<Rightarrow> SessionMessage list \<Rightarrow> jstring \<Rightarrow> jstring \<Rightarrow> int \<Rightarrow> jstring \<Rightarrow> ReduceContext
   \<Rightarrow> SessionProjectionPatch" where
  "appendBlockPart channel msgs messageId blockId timestamp initial ctx =
    (let part = \<lparr> bp_id = rc_generateId ctx 0, bp_blockId = blockId, bp_text = initial,
                  bp_createdAt = timestamp, bp_completedAt = None, bp_meta = None \<rparr> in
     no_patch\<lparr>p_messages := Some (appendPartToMessage msgs messageId (channel_part channel part)),
       p_currentAssistantMessageId := Some (Some messageId)\<rparr>)"

definition appendAssistantOutputPart where
  "appendAssistantOutputPart = appendBlockPart OutputChannel"

definition appendReasoningPart where
  "appendReasoningPart = appendBlockPart ReasoningChannel"

text \<open>
  The guard that \<open>-delta\<close> and \<open>-end\<close> share: the step is open in the current run, and the block is
  found, is a part of its channel, and is not completed.
\<close>

definition open_block ::
  "SessionProjection \<Rightarrow> jstring \<Rightarrow> BlockChannel \<Rightarrow> jstring \<Rightarrow> (PartLocation \<times> BlockPart) option" where
  "open_block s stepId channel blockId =
    (if \<not> isActiveOpenStep s stepId then None
     else case findBlockLocation (messages s) stepId channel blockId of
       None \<Rightarrow> None
     | Some location \<Rightarrow>
         (case getPartAtLocation (messages s) location of
            Some (InAssistant p) \<Rightarrow>
              (case part_block channel p of
                 Some b \<Rightarrow> if bp_completedAt b = None then Some (location, b) else None
               | None \<Rightarrow> None)
          | _ \<Rightarrow> None))"

definition block_delta ::
  "BlockChannel \<Rightarrow> SessionProjection \<Rightarrow> jstring \<Rightarrow> jstring \<Rightarrow> jstring \<Rightarrow> SessionProjectionPatch" where
  "block_delta channel s stepId blockId delta =
    (case open_block s stepId channel blockId of
       None \<Rightarrow> no_patch
     | Some (location, b) \<Rightarrow>
         no_patch\<lparr>
           p_messages := Some (updateMessagePart (messages s) (fst location) (snd location)
             (map_channel channel (\<lambda>b. b\<lparr>bp_text := bp_text b @ delta\<rparr>))),
           p_stats := (if bp_text b = [] \<and> delta \<noteq> []
             then firstAssistantContentStats s (fst location) else None)\<rparr>)"

definition onTextStart :: "SessionProjection \<Rightarrow> jstring \<Rightarrow> jstring \<Rightarrow> ReduceContext \<Rightarrow> SessionProjectionPatch" where
  "onTextStart s stepId blockId ctx =
    (if \<not> isActiveOpenStep s stepId then no_patch
     else case modelStepMessageId (messages s) stepId of
       None \<Rightarrow> no_patch
     | Some messageId \<Rightarrow>
         (if findBlockLocation (messages s) stepId OutputChannel blockId \<noteq> None then no_patch
          else appendAssistantOutputPart (messages s) messageId blockId (rc_timestamp ctx) [] ctx))"

definition onTextDelta :: "SessionProjection \<Rightarrow> jstring \<Rightarrow> jstring \<Rightarrow> jstring \<Rightarrow> SessionProjectionPatch" where
  "onTextDelta s stepId blockId delta = block_delta OutputChannel s stepId blockId delta"

definition onTextEnd :: "SessionProjection \<Rightarrow> jstring \<Rightarrow> jstring \<Rightarrow> int \<Rightarrow> SessionProjectionPatch" where
  "onTextEnd s stepId blockId timestamp =
    (case open_block s stepId OutputChannel blockId of
       None \<Rightarrow> no_patch
     | Some (location, b) \<Rightarrow>
         (if bp_text b = []
          then no_patch\<lparr>p_messages := Some (removeMessagePart (messages s) (fst location) (snd location))\<rparr>
          else no_patch\<lparr>p_messages := Some (updateMessagePart (messages s) (fst location) (snd location)
            (map_channel OutputChannel (\<lambda>b. b\<lparr>
               bp_text := unwrapAssistantProjectionEnvelope (bp_text b),
               bp_completedAt := Some timestamp\<rparr>)))\<rparr>))"

definition onReasoningStart ::
  "SessionProjection \<Rightarrow> jstring \<Rightarrow> jstring \<Rightarrow> ReduceContext \<Rightarrow> SessionProjectionPatch" where
  "onReasoningStart s stepId blockId ctx =
    (if \<not> isActiveOpenStep s stepId then no_patch
     else case modelStepMessageId (messages s) stepId of
       None \<Rightarrow> no_patch
     | Some messageId \<Rightarrow>
         (if findBlockLocation (messages s) stepId ReasoningChannel blockId \<noteq> None then no_patch
          else appendReasoningPart (messages s) messageId blockId (rc_timestamp ctx) [] ctx))"

definition onReasoningDelta :: "SessionProjection \<Rightarrow> jstring \<Rightarrow> jstring \<Rightarrow> jstring \<Rightarrow> SessionProjectionPatch" where
  "onReasoningDelta s stepId blockId delta = block_delta ReasoningChannel s stepId blockId delta"

definition onReasoningEnd :: "SessionProjection \<Rightarrow> jstring \<Rightarrow> jstring \<Rightarrow> int \<Rightarrow> SessionProjectionPatch" where
  "onReasoningEnd s stepId blockId timestamp =
    (case open_block s stepId ReasoningChannel blockId of
       None \<Rightarrow> no_patch
     | Some (location, b) \<Rightarrow>
         (if bp_text b = []
          then no_patch\<lparr>p_messages := Some (removeMessagePart (messages s) (fst location) (snd location))\<rparr>
          else no_patch\<lparr>p_messages := Some (updateMessagePart (messages s) (fst location) (snd location)
            (map_channel ReasoningChannel (\<lambda>b. b\<lparr>bp_completedAt := Some timestamp\<rparr>)))\<rparr>))"

section \<open>Tool calls\<close>

definition new_tool_base :: "jstring \<Rightarrow> jstring \<Rightarrow> jstring \<Rightarrow> int \<Rightarrow> ToolPartBase" where
  "new_tool_base i toolCallId toolName timestamp = \<lparr> tp_id = i, tp_toolCallId = toolCallId,
     tp_toolName = toolName, tp_createdAt = timestamp, tp_attemptId = None,
     tp_attemptTimestamp = None, tp_attemptDestructive = None \<rparr>"

definition onToolInputStart ::
  "SessionProjection \<Rightarrow> jstring \<Rightarrow> jstring \<Rightarrow> ReduceContext \<Rightarrow> js_error + SessionProjectionPatch" where
  "onToolInputStart s toolCallId toolName ctx =
     bindE (ensureCurrentAssistantMessage s) (\<lambda>assistant.
       if findCurrentToolPartByCallId (amr_messages assistant) (Some (amr_messageId assistant)) toolCallId \<noteq> None
       then Inr no_patch
       else let part = PendingTool (new_tool_base (rc_generateId ctx 0) toolCallId toolName (rc_timestamp ctx)) in
         Inr (no_patch\<lparr>
           p_messages := Some (appendPartToMessage (amr_messages assistant) (amr_messageId assistant)
             (AssistantTool part)),
           p_currentAssistantMessageId := Some (Some (amr_messageId assistant)),
           p_stats := amr_stats assistant\<rparr>))"

definition onToolCall ::
  "SessionProjection \<Rightarrow> jstring \<Rightarrow> jstring \<Rightarrow> jsvalue \<Rightarrow> ReduceContext \<Rightarrow> js_error + SessionProjectionPatch" where
  "onToolCall s toolCallId toolName input ctx =
    (case findCurrentToolPartByCallId (messages s) (currentAssistantMessageId s) toolCallId of
       Some location \<Rightarrow>
         (case getToolPartAtLocation (messages s) (fst location) (snd location) of
            None \<Rightarrow> Inr no_patch
          | Some existing \<Rightarrow>
              (if tool_state existing \<noteq> ToolPending \<and> tool_state existing \<noteq> ToolRunning then Inr no_patch
               else Inr (no_patch\<lparr>
                 p_messages := Some (updateMessagePart (messages s) (fst location) (snd location)
                   (map_tool (\<lambda>t. toRunningToolPart t input (rc_timestamp ctx)))),
                 p_stats := (if tool_state existing = ToolPending
                   then Some (incrementToolCalls (stats s)) else None)\<rparr>)))
     | None \<Rightarrow>
         bindE (ensureCurrentAssistantMessage s) (\<lambda>assistant.
           let part = RunningTool (new_tool_base (rc_generateId ctx 0) toolCallId toolName (rc_timestamp ctx))
                 (undefined_to_null input) (rc_timestamp ctx) None in
           Inr (no_patch\<lparr>
             p_messages := Some (appendPartToMessage (amr_messages assistant) (amr_messageId assistant)
               (AssistantTool part)),
             p_currentAssistantMessageId := Some (Some (amr_messageId assistant)),
             p_stats := Some (incrementToolCalls
               (case amr_stats assistant of None \<Rightarrow> stats s | Some st \<Rightarrow> st))\<rparr>)))"

text \<open>\<open>findCurrentToolPartByCallId(...) ?? findLatestIncompleteToolPartByCallId(...)\<close>.\<close>

definition locate_tool :: "SessionProjection \<Rightarrow> jstring \<Rightarrow> PartLocation option" where
  "locate_tool s toolCallId =
    (case findCurrentToolPartByCallId (messages s) (currentAssistantMessageId s) toolCallId of
       Some location \<Rightarrow> Some location
     | None \<Rightarrow> findLatestIncompleteToolPartByCallId (messages s) toolCallId)"

text \<open>The located Tool Part, if its state is accepted.\<close>

definition located_tool ::
  "SessionProjection \<Rightarrow> jstring \<Rightarrow> (ToolPart \<Rightarrow> bool) \<Rightarrow> (PartLocation \<times> ToolPart) option" where
  "located_tool s toolCallId accepted =
    (case locate_tool s toolCallId of
       None \<Rightarrow> None
     | Some location \<Rightarrow>
         (case getToolPartAtLocation (messages s) (fst location) (snd location) of
            None \<Rightarrow> None
          | Some existing \<Rightarrow> if accepted existing then Some (location, existing) else None))"

definition update_tool :: "SessionProjection \<Rightarrow> PartLocation \<Rightarrow> (ToolPart \<Rightarrow> ToolPart) \<Rightarrow> SessionMessage list" where
  "update_tool s location f = updateMessagePart (messages s) (fst location) (snd location) (map_tool f)"

definition onToolInputResolved :: "SessionProjection \<Rightarrow> jstring \<Rightarrow> jsvalue \<Rightarrow> SessionProjectionPatch" where
  "onToolInputResolved s toolCallId input =
    (case located_tool s toolCallId (\<lambda>t. tool_state t \<noteq> ToolPending \<and> tool_state t \<noteq> ToolInterrupted) of
       None \<Rightarrow> no_patch
     | Some (location, _) \<Rightarrow>
         no_patch\<lparr>p_messages := Some (update_tool s location (set_tool_input (undefined_to_null input)))\<rparr>)"

definition onToolAttempt ::
  "SessionProjection \<Rightarrow> jstring \<Rightarrow> jstring \<Rightarrow> int \<Rightarrow> bool \<Rightarrow> SessionProjectionPatch" where
  "onToolAttempt s toolCallId attemptId timestamp destructive =
    (case located_tool s toolCallId (\<lambda>t. tool_state t = ToolPending \<or> tool_state t = ToolRunning
               \<or> tool_state t = ToolInterrupted) of
       None \<Rightarrow> no_patch
     | Some (location, _) \<Rightarrow>
         no_patch\<lparr>p_messages := Some (update_tool s location
           (\<lambda>t. withToolAttempt t attemptId timestamp destructive))\<rparr>)"

definition onToolOutputDelta ::
  "SessionProjection \<Rightarrow> jstring \<Rightarrow> jstring \<Rightarrow> jstring \<Rightarrow> int \<Rightarrow> bool \<Rightarrow> SessionProjectionPatch" where
  "onToolOutputDelta s toolCallId toolName delta omittedBytes liveLimitReached =
    (case located_tool s toolCallId (\<lambda>t. tool_state t = ToolRunning
               \<and> tp_toolName (tool_base t) = js ''bash'' \<and> tp_toolName (tool_base t) = toolName) of
       None \<Rightarrow> no_patch
     | Some (location, _) \<Rightarrow>
         no_patch\<lparr>p_messages := Some (update_tool s location
           (\<lambda>t. appendLiveToolOutput t delta omittedBytes liveLimitReached))\<rparr>)"

definition onToolResult ::
  "SessionProjection \<Rightarrow> jstring \<Rightarrow> int \<Rightarrow> FinalizedToolResult \<Rightarrow> SessionProjectionPatch" where
  "onToolResult s toolCallId settledAt result =
    (case located_tool s toolCallId (\<lambda>t. tool_state t \<noteq> ToolCompleted \<and> tool_state t \<noteq> ToolError) of
       None \<Rightarrow> no_patch
     | Some (location, _) \<Rightarrow>
         no_patch\<lparr>
           p_messages := Some (update_tool s location (\<lambda>t. toSettledToolPart t result settledAt)),
           p_stats := Some (if ftr_isError result then incrementToolFailures (stats s) 1
             else incrementToolCompleted (stats s))\<rparr>)"

definition onChildSessionLink ::
  "collation \<Rightarrow> SessionProjection \<Rightarrow> ToolChildSessionLink \<Rightarrow> SessionProjectionPatch" where
  "onChildSessionLink lc s link =
    (if directChildContextCapacityViolation (projectLatestDirectChildContext lc [link]) \<noteq> None
     then no_patch
     else let links = upsertChildSessionLink (childSessionLinks s) link in
       if directChildContextCapacityViolation (projectLatestDirectChildContext lc links) \<noteq> None
       then no_patch
       else no_patch\<lparr>p_childSessionLinks := Some links\<rparr>)"

section \<open>Todos and reminders\<close>

definition onTodoWrite :: "SessionTodo list \<Rightarrow> SessionProjectionPatch" where
  "onTodoWrite ts = (if \<not> areTodosValid ts then no_patch else no_patch\<lparr>p_todos := Some ts\<rparr>)"

definition add_reminder :: "SessionProjection \<Rightarrow> Reminder \<Rightarrow> SessionProjectionPatch" where
  "add_reminder s r = no_patch\<lparr>p_reminders := Some (reminders s @ [r\<lparr>rm_consumedAt := None\<rparr>])\<rparr>"

definition onReminder :: "SessionProjection \<Rightarrow> Reminder \<Rightarrow> js_error + SessionProjectionPatch" where
  "onReminder s r =
    (if \<exists>x \<in> set (reminders s). rm_id x = rm_id r then Inr no_patch
     else if isSubAgentReminder r
     then bindE (subAgentReminderKey (rm_source r)) (\<lambda>nextKey.
       if \<exists>x \<in> set (reminders s). isSubAgentReminder x \<and> subAgentReminderKey (rm_source x) = Inr nextKey
       then Inr no_patch
       else Inr (add_reminder s r))
     else Inr (add_reminder s r))"

definition consume_reminder :: "jstring list \<Rightarrow> int \<Rightarrow> Reminder \<Rightarrow> Reminder" where
  "consume_reminder ids timestamp r =
    (if rm_id r \<notin> set ids \<or> rm_consumedAt r \<noteq> None then r else r\<lparr>rm_consumedAt := Some timestamp\<rparr>)"

definition onReminderConsumed :: "SessionProjection \<Rightarrow> jstring list \<Rightarrow> int \<Rightarrow> SessionProjectionPatch" where
  "onReminderConsumed s ids timestamp =
    (if \<exists>r \<in> set (reminders s). rm_id r \<in> set ids \<and> rm_consumedAt r = None
     then no_patch\<lparr>p_reminders := Some (map (consume_reminder ids timestamp) (reminders s))\<rparr>
     else no_patch)"

section \<open>Steps\<close>

definition onStepStart ::
  "SessionProjection \<Rightarrow> jstring \<Rightarrow> int \<Rightarrow> ReduceContext \<Rightarrow> SessionProjectionPatch" where
  "onStepStart s stepId stepNo ctx =
    (case current_run s of
       None \<Rightarrow> no_patch
     | Some (executionId, runOrdinal) \<Rightarrow>
         (if \<exists>st \<in> set (steps s). sp_id st = stepId then no_patch
          else let message = \<lparr> am_id = rc_generateId ctx 0, am_createdAt = rc_timestamp ctx,
                   am_completedAt = None, am_executionId = executionId, am_runOrdinal = runOrdinal,
                   am_stepId = stepId, am_outputPhase = Commentary, am_compacted = None,
                   am_parts = [] \<rparr>;
                 opened = \<lparr> sp_id = stepId, sp_step = stepNo, sp_executionId = executionId,
                   sp_runOrdinal = runOrdinal, sp_startedAt = rc_timestamp ctx, sp_completedAt = None,
                   sp_finishReason = None, sp_usage = None, sp_error = None \<rparr> in
            no_patch\<lparr>p_isStreamingModel := Some True,
              p_messages := Some (messages s @ [AssistantMessage message]),
              p_currentAssistantMessageId := Some (Some (am_id message)),
              p_steps := Some (steps s @ [opened]),
              p_stats := Some (incrementStepStarted (stats s))\<rparr>))"

text \<open>The test of \<open>step-end\<close>: \<open>!step.completedAt\<close> also holds of a completion time 0.\<close>

definition ends_step :: "jstring \<Rightarrow> int \<Rightarrow> jstring \<Rightarrow> int \<Rightarrow> SessionStep \<Rightarrow> bool" where
  "ends_step stepId stepNo executionId runOrdinal st \<longleftrightarrow> sp_id st = stepId \<and> sp_step st = stepNo
     \<and> sp_executionId st = executionId \<and> sp_runOrdinal st = runOrdinal
     \<and> (sp_completedAt st = None \<or> sp_completedAt st = Some 0)"

definition onStepEnd ::
  "SessionProjection \<Rightarrow> jstring \<Rightarrow> int \<Rightarrow> jstring \<Rightarrow> jsvalue \<Rightarrow> int \<Rightarrow> SessionProjectionPatch" where
  "onStepEnd s stepId stepNo finishReason rawUsage timestamp =
    (case current_run s of
       None \<Rightarrow> no_patch
     | Some (executionId, runOrdinal) \<Rightarrow>
         (let usage = normalizeUsage rawUsage;
              ending = ends_step stepId stepNo executionId runOrdinal in
          if \<not> (\<exists>st \<in> set (steps s). ending st) then no_patch
          else let interruptedMessages =
                 (if finishReason = js ''interrupted'' \<or> finishReason = js ''error''
                  then markAssistantModelOutputInterruptedForStep (messages s) stepId timestamp
                  else messages s) in
            no_patch\<lparr>p_isStreamingModel := Some False,
              p_steps := Some (map (\<lambda>st. if ending st
                 then st\<lparr>sp_completedAt := Some timestamp, sp_finishReason := Some finishReason,
                         sp_usage := Some usage\<rparr> else st) (steps s)),
              p_messages := Some (completeAssistantMessageForStep interruptedMessages stepId timestamp),
              p_stats := Some (incrementStepCompleted (stats s) usage)\<rparr>))"

definition onExecutionError ::
  "SessionProjection \<Rightarrow> jstring \<Rightarrow> (int \<times> jstring) option \<Rightarrow> SessionProjectionPatch" where
  "onExecutionError s err stepRef =
    (case stepRef of
       None \<Rightarrow> no_patch
     | Some (stepNo, stepId) \<Rightarrow>
         (case current_run s of
            None \<Rightarrow> no_patch
          | Some (executionId, runOrdinal) \<Rightarrow>
              (case find (\<lambda>st. sp_id st = stepId \<and> sp_step st = stepNo \<and> sp_executionId st = executionId
                         \<and> sp_runOrdinal st = runOrdinal) (steps s) of
                 None \<Rightarrow> no_patch
               | Some matching \<Rightarrow>
                   no_patch\<lparr>p_steps := Some (map (\<lambda>st. if sp_id st = sp_id matching
                      then st\<lparr>sp_error := Some err\<rparr> else st) (steps s))\<rparr>)))"

definition onPromptTrace :: "SessionProjection \<Rightarrow> PromptTraceSnapshot \<Rightarrow> SessionProjectionPatch" where
  "onPromptTrace s trace =
     no_patch\<lparr>p_promptTraces :=
       Some ((case promptTraces s of None \<Rightarrow> [] | Some ts \<Rightarrow> ts) @ [trace])\<rparr>"

section \<open>Recovery notices\<close>

definition recoveryNoticeId :: "LlmRecoveryInfo \<Rightarrow> ReduceContext \<Rightarrow> jstring" where
  "recoveryNoticeId info ctx =
    (case coalesce [map_option Some (lr_toolCallId info), map_option Some (lr_messageId info),
                    map_option Some (lr_stepId info)] None of
       None \<Rightarrow> rc_generateId ctx 0
     | Some relatedId \<Rightarrow> js ''recovery:'' @ lr_scope info @ js '':'' @ relatedId)"

definition or_else :: "'a option \<Rightarrow> 'a option \<Rightarrow> 'a option" where
  "or_else a b = (case a of Some v \<Rightarrow> Some v | None \<Rightarrow> b)"

definition merge_notice :: "RecoveryNoticePart \<Rightarrow> RecoveryNoticePart \<Rightarrow> RecoveryNoticePart" where
  "merge_notice nextPart part =
     part\<lparr>rn_status := rn_status nextPart, rn_message := rn_message nextPart,
       rn_attempt := rn_attempt nextPart, rn_nextRetryAt := rn_nextRetryAt nextPart,
       rn_errorKind := or_else (rn_errorKind nextPart) (rn_errorKind part),
       rn_statusCode := or_else (rn_statusCode nextPart) (rn_statusCode part),
       rn_completedAt := rn_completedAt nextPart\<rparr>"

fun is_notice :: "jstring \<Rightarrow> AssistantSessionPart \<Rightarrow> bool" where
  "is_notice i (AssistantRecovery p) = (rn_id p = i)"
| "is_notice i _ = False"

fun map_notice :: "(RecoveryNoticePart \<Rightarrow> RecoveryNoticePart) \<Rightarrow> AssistantSessionPart \<Rightarrow> AssistantSessionPart" where
  "map_notice f (AssistantRecovery p) = AssistantRecovery (f p)"
| "map_notice f p = p"

definition upsertRecoveryNoticePart ::
  "SessionMessage list \<Rightarrow> jstring \<Rightarrow> RecoveryNoticePart \<Rightarrow> SessionStats option \<Rightarrow> SessionProjectionPatch" where
  "upsertRecoveryNoticePart msgs messageId nextPart st =
    (let found = (\<exists>m \<in> set msgs. is_message messageId m
           \<and> (\<exists>p \<in> set (msg_parts m). case p of InAssistant q \<Rightarrow> is_notice (rn_id nextPart) q | InUser _ \<Rightarrow> False));
         updatedMessages = map_parts_of messageId
           (map (\<lambda>p. if is_notice (rn_id nextPart) p then map_notice (merge_notice nextPart) p else p)) msgs in
     no_patch\<lparr>
       p_messages := Some (if found then updatedMessages
         else appendPartToMessage msgs messageId (AssistantRecovery nextPart)),
       p_stats := st\<rparr>)"

definition onLlmRetry ::
  "SessionProjection \<Rightarrow> LlmRecoveryVisibility \<Rightarrow> LlmRecoveryInfo \<Rightarrow> jstring \<Rightarrow> int option \<Rightarrow> ReduceContext
   \<Rightarrow> SessionProjectionPatch" where
  "onLlmRetry s visibility info errorKind nextRetryAt ctx =
    (if visibility = VisInternal then no_patch
     else case assistantForRecoveryEvent s (lr_stepId info) of
       None \<Rightarrow> no_patch
     | Some assistant \<Rightarrow>
         upsertRecoveryNoticePart (amr_messages assistant) (amr_messageId assistant)
           \<lparr> rn_id = recoveryNoticeId info ctx,
             rn_status = (case nextRetryAt of None \<Rightarrow> Retrying
                | Some t \<Rightarrow> if t \<le> rc_timestamp ctx then Retrying else Scheduled),
             rn_message = lr_message info, rn_attempt = lr_attempt info, rn_nextRetryAt = nextRetryAt,
             rn_errorKind = Some errorKind, rn_statusCode = None, rn_createdAt = rc_timestamp ctx,
             rn_completedAt = None \<rparr>
           (amr_stats assistant))"

definition onLlmRecovery ::
  "SessionProjection \<Rightarrow> LlmRecoveryVisibility \<Rightarrow> LlmRecoveryInfo \<Rightarrow> jstring option \<Rightarrow> ReduceContext
   \<Rightarrow> SessionProjectionPatch" where
  "onLlmRecovery s visibility info errorKind ctx =
    (if visibility = VisInternal then no_patch
     else case assistantForRecoveryEvent s (lr_stepId info) of
       None \<Rightarrow> no_patch
     | Some assistant \<Rightarrow>
         upsertRecoveryNoticePart (amr_messages assistant) (amr_messageId assistant)
           \<lparr> rn_id = recoveryNoticeId info ctx, rn_status = Recovered,
             rn_message = lr_message info, rn_attempt = lr_attempt info, rn_nextRetryAt = None,
             rn_errorKind = errorKind, rn_statusCode = None, rn_createdAt = rc_timestamp ctx,
             rn_completedAt = Some (rc_timestamp ctx) \<rparr>
           (amr_stats assistant))"

definition onLlmRecoveryFailed ::
  "SessionProjection \<Rightarrow> LlmRecoveryInfo \<Rightarrow> jstring \<Rightarrow> int option \<Rightarrow> ReduceContext \<Rightarrow> SessionProjectionPatch" where
  "onLlmRecoveryFailed s info errorKind statusCode ctx =
    (case assistantForRecoveryEvent s (lr_stepId info) of
       None \<Rightarrow> no_patch
     | Some assistant \<Rightarrow>
         upsertRecoveryNoticePart (amr_messages assistant) (amr_messageId assistant)
           \<lparr> rn_id = recoveryNoticeId info ctx, rn_status = RecoveryFailed,
             rn_message = lr_message info, rn_attempt = lr_attempt info, rn_nextRetryAt = None,
             rn_errorKind = Some errorKind, rn_statusCode = statusCode, rn_createdAt = rc_timestamp ctx,
             rn_completedAt = Some (rc_timestamp ctx) \<rparr>
           (amr_stats assistant))"

section \<open>Compression and compaction\<close>

definition onBlockCommitted ::
  "SessionProjection \<Rightarrow> CompressionBlockSnapshot \<Rightarrow> CompressionStateSnapshot option \<Rightarrow> ReduceContext
   \<Rightarrow> SessionProjectionPatch" where
  "onBlockCommitted s block state ctx =
     no_patch\<lparr>
       p_compression := Some (Some (case state of
          Some st \<Rightarrow> st
        | None \<Rightarrow> commitCompressionBlockSnapshot (compression s) block (rc_timestamp ctx))),
       p_compressionBlocks := Some (upsertCompressionBlockPart
          (case compressionBlocks s of None \<Rightarrow> [] | Some bs \<Rightarrow> bs) block (rc_timestamp ctx)
          (rc_generateId ctx 0))\<rparr>"

definition onBlockFailed ::
  "SessionProjection \<Rightarrow> CompressionFailureSnapshot \<Rightarrow> CompressionStateSnapshot option \<Rightarrow> int
   \<Rightarrow> SessionProjectionPatch" where
  "onBlockFailed s failure state timestamp =
     no_patch\<lparr>p_compression := Some (Some (case state of
        Some st \<Rightarrow> st
      | None \<Rightarrow> appendCompressionFailureSnapshot (compression s) failure timestamp))\<rparr>"

definition onRefMapUpdated ::
  "SessionProjection \<Rightarrow> CompressionRefMapSnapshot \<Rightarrow> int option \<Rightarrow> SessionProjectionPatch" where
  "onRefMapUpdated s refMap updatedAt =
    (let base = base_state (compression s) in
     no_patch\<lparr>p_compression := Some (Some (base\<lparr>cs_refMap := refMap,
       cs_updatedAt := (case updatedAt of None \<Rightarrow> cs_updatedAt base | Some t \<Rightarrow> Some t)\<rparr>))\<rparr>)"

fun onCompression ::
  "SessionProjection \<Rightarrow> CompressionStreamEvent \<Rightarrow> ReduceContext \<Rightarrow> SessionProjectionPatch" where
  "onCompression s (BlockCommitted block state) ctx = onBlockCommitted s block state ctx"
| "onCompression s (BlockFailed failure state) ctx = onBlockFailed s failure state (rc_timestamp ctx)"
| "onCompression s (RefMapUpdated refMap updatedAt) ctx = onRefMapUpdated s refMap updatedAt"

fun as_compaction :: "UserSessionPart \<Rightarrow> CompactionPart option" where
  "as_compaction (UserCompaction p) = Some p"
| "as_compaction _ = None"

fun has_compaction :: "SessionMessage \<Rightarrow> bool" where
  "has_compaction (UserMessage u) = (\<exists>p \<in> set (um_parts u). as_compaction p \<noteq> None)"
| "has_compaction (AssistantMessage a) = False"

fun set_compacted :: "bool option \<Rightarrow> SessionMessage \<Rightarrow> SessionMessage" where
  "set_compacted c (UserMessage u) = UserMessage (u\<lparr>um_compacted := c\<rparr>)"
| "set_compacted c (AssistantMessage a) = AssistantMessage (a\<lparr>am_compacted := c\<rparr>)"

definition mark_compacted :: "SessionMessage \<Rightarrow> SessionMessage" where
  "mark_compacted m = (if has_compaction m then m else set_compacted (Some True) m)"

fun update_compaction :: "jstring \<Rightarrow> jstring \<Rightarrow> int \<Rightarrow> UserSessionPart \<Rightarrow> UserSessionPart" where
  "update_compaction summary tailStartId timestamp (UserCompaction p) =
     UserCompaction (p\<lparr>cp_summary := summary, cp_tailStartId := tailStartId, cp_compactedAt := timestamp\<rparr>)"
| "update_compaction summary tailStartId timestamp p = p"

fun recompact :: "jstring \<Rightarrow> jstring \<Rightarrow> int \<Rightarrow> SessionMessage \<Rightarrow> SessionMessage" where
  "recompact summary tailStartId timestamp (UserMessage u) =
     UserMessage (u\<lparr>um_parts := map (update_compaction summary tailStartId timestamp) (um_parts u),
                    um_compacted := None\<rparr>)"
| "recompact summary tailStartId timestamp (AssistantMessage a) = AssistantMessage (a\<lparr>am_compacted := None\<rparr>)"

definition compaction_message :: "jstring \<Rightarrow> jstring \<Rightarrow> ReduceContext \<Rightarrow> SessionMessage" where
  "compaction_message summary tailStartId ctx =
     UserMessage \<lparr> um_id = rc_generateId ctx 1, um_createdAt = rc_timestamp ctx,
       um_completedAt = Some (rc_timestamp ctx), um_executionId = None, um_runOrdinal = None,
       um_clientRequestId = None, um_inputSource = None, um_parentAgentProvenance = None,
       um_compacted = None,
       um_parts = [UserCompaction \<lparr> cp_id = rc_generateId ctx 0, cp_summary = summary,
         cp_tailStartId = tailStartId, cp_compactedAt = rc_timestamp ctx \<rparr>],
       um_modelAudit = None \<rparr>"

definition compactMessages ::
  "SessionMessage list \<Rightarrow> jstring \<Rightarrow> jstring \<Rightarrow> ReduceContext \<Rightarrow> SessionMessage list" where
  "compactMessages msgs summary tailStartId ctx =
    (let compactUpTo = (case find_index (\<lambda>m. msg_id m = tailStartId) msgs of
           None \<Rightarrow> length msgs | Some i \<Rightarrow> i);
         marked = map mark_compacted (take compactUpTo msgs) @ drop compactUpTo msgs in
     case find_index has_compaction marked of
       Some i \<Rightarrow> marked[i := recompact summary tailStartId (rc_timestamp ctx) (marked ! i)]
     | None \<Rightarrow> take compactUpTo marked @ [compaction_message summary tailStartId ctx]
         @ drop compactUpTo marked)"

definition onCompact :: "SessionProjection \<Rightarrow> jstring \<Rightarrow> jstring \<Rightarrow> ReduceContext \<Rightarrow> SessionProjectionPatch" where
  "onCompact s summary tailStartId ctx =
     no_patch\<lparr>p_messages := Some (compactMessages (messages s) summary tailStartId ctx),
       p_compression := Some None, p_compressionBlocks := Some []\<rparr>"

section \<open>The reducer\<close>

fun reduceStreamEvent ::
  "collation \<Rightarrow> SessionProjection \<Rightarrow> StreamEvent \<Rightarrow> ReduceContext \<Rightarrow> js_error + SessionProjectionPatch" where
  "reduceStreamEvent lc s (Lifecycle e) ctx = reduceLifecycle s e (rc_timestamp ctx)"
| "reduceStreamEvent lc s (CwdChanged _ newCwd) ctx = Inr (no_patch\<lparr>p_cwd := Some newCwd\<rparr>)"
| "reduceStreamEvent lc s (ModelSelectionChanged sel) ctx = Inr (no_patch\<lparr>p_modelSelection := Some sel\<rparr>)"
| "reduceStreamEvent lc s (GoalChanged e) ctx = Inr (no_patch\<lparr>p_goal := Some (gc_goal e)\<rparr>)"
| "reduceStreamEvent lc s (MessageAccepted m) ctx =
     Inr (no_patch\<lparr>p_pendingMessages := Some (pendingMessages s @ [m])\<rparr>)"
| "reduceStreamEvent lc s (MessageEdited m) ctx = Inr (onMessageReplaced s m)"
| "reduceStreamEvent lc s (MessageSteerClaimed m) ctx = Inr (onMessageReplaced s m)"
| "reduceStreamEvent lc s (MessageSteerRolledBack m) ctx = Inr (onMessageReplaced s m)"
| "reduceStreamEvent lc s (MessageDeleted messageId _ _ _) ctx = Inr (onMessageDeleted s messageId)"
| "reduceStreamEvent lc s (MessagesCommitted _ ms) ctx = Inr (onMessagesCommitted s ms)"
| "reduceStreamEvent lc s (StopRequested i t) ctx = Inr (onStopRequested s i t)"
| "reduceStreamEvent lc s (SystemNotice m) ctx = Inr (onSystemNotice s m ctx)"
| "reduceStreamEvent lc s (TextStart st b) ctx = Inr (onTextStart s st b ctx)"
| "reduceStreamEvent lc s (TextDelta st b d) ctx = Inr (onTextDelta s st b d)"
| "reduceStreamEvent lc s (TextEnd st b) ctx = Inr (onTextEnd s st b (rc_timestamp ctx))"
| "reduceStreamEvent lc s (ReasoningStart st b) ctx = Inr (onReasoningStart s st b ctx)"
| "reduceStreamEvent lc s (ReasoningDelta st b d) ctx = Inr (onReasoningDelta s st b d)"
| "reduceStreamEvent lc s (ReasoningEnd st b) ctx = Inr (onReasoningEnd s st b (rc_timestamp ctx))"
| "reduceStreamEvent lc s (ToolInputStart c n) ctx = onToolInputStart s c n ctx"
| "reduceStreamEvent lc s (ToolCall c n i) ctx = onToolCall s c n i ctx"
| "reduceStreamEvent lc s (ToolInputResolved c _ i) ctx = Inr (onToolInputResolved s c i)"
| "reduceStreamEvent lc s (ToolAttempt c _ a t d) ctx = Inr (onToolAttempt s c a t d)"
| "reduceStreamEvent lc s (ToolOutputDelta c n d o' l) ctx = Inr (onToolOutputDelta s c n d o' l)"
| "reduceStreamEvent lc s (ToolResult c _ t r) ctx = Inr (onToolResult s c t r)"
| "reduceStreamEvent lc s (ChildSessionLinkEvent l) ctx = Inr (onChildSessionLink lc s l)"
| "reduceStreamEvent lc s (TodoWrite ts) ctx = Inr (onTodoWrite ts)"
| "reduceStreamEvent lc s (ReminderAdded r) ctx = onReminder s r"
| "reduceStreamEvent lc s (ReminderConsumed ids) ctx = Inr (onReminderConsumed s ids (rc_timestamp ctx))"
| "reduceStreamEvent lc s (StepStart i n) ctx = Inr (onStepStart s i n ctx)"
| "reduceStreamEvent lc s (StepEnd i n f u) ctx = Inr (onStepEnd s i n f u (rc_timestamp ctx))"
| "reduceStreamEvent lc s (ExecutionError e st) ctx = Inr (onExecutionError s e st)"
| "reduceStreamEvent lc s (PromptTrace t) ctx = Inr (onPromptTrace s t)"
| "reduceStreamEvent lc s (LlmRetry v i k t) ctx = Inr (onLlmRetry s v i k t ctx)"
| "reduceStreamEvent lc s (LlmRecovery v i k) ctx = Inr (onLlmRecovery s v i k ctx)"
| "reduceStreamEvent lc s (LlmRecoveryFailed i k c) ctx = Inr (onLlmRecoveryFailed s i k c ctx)"
| "reduceStreamEvent lc s (Compact summary tail) ctx = Inr (onCompact s summary tail ctx)"
| "reduceStreamEvent lc s (Compression e) ctx = Inr (onCompression s e ctx)"

text \<open>One fold step: the patch merged into the projection.\<close>

definition reduce_step ::
  "collation \<Rightarrow> SessionProjection \<Rightarrow> StreamEvent \<times> ReduceContext \<Rightarrow> js_error + SessionProjection" where
  "reduce_step lc s ec = bindE (reduceStreamEvent lc s (fst ec) (snd ec)) (\<lambda>p. Inr (apply_patch s p))"

lemma reduce_step_code [code]:
  "reduce_step lc s ec = (case reduceStreamEvent lc s (fst ec) (snd ec) of
     Inl e \<Rightarrow> Inl e | Inr p \<Rightarrow> Inr (apply_patch s p))"
  by (simp add: reduce_step_def split: sum.splits)

end
