(* ===== verification/ExampleSession.thy ===== *)
theory ExampleSession
  imports Reducer
begin

text \<open>
  A concrete Session and a log of one Execution with two model steps, at which the properties of the
  other theories are instantiated: a start, a step with a streamed answer and a tool call that
  settles, a reminder, todos, a second step with the final answer, and the end of the Execution.
\<close>

definition ex_ctx :: "int \<Rightarrow> string \<Rightarrow> ReduceContext" where
  "ex_ctx t i = \<lparr> rc_timestamp = t,
     rc_generateId = (\<lambda>k. if k = 0 then js (CHR ''g'' # i) else js (CHR ''h'' # i)) \<rparr>"

definition ex_binding :: ExecutionModelBindingSummary where
  "ex_binding = \<lparr> emb_selection = \<lparr> msr_model = js ''m'', msr_variant = None \<rparr>,
     emb_providerId = js ''p'', emb_modelId = js ''m'', emb_providerDisplayName = js ''P'',
     emb_modelDisplayName = js ''M'', emb_resolution = ResProfileDefault,
     emb_modelRuntimeRevision = js ''r'' \<rparr>"

definition ex_policy :: MemoryPolicySnapshot where
  "ex_policy = \<lparr> mps_policy = \<lparr> mp_useMemory = False, mp_autoLearning = False \<rparr>,
     mps_epoch = \<lparr> mpe_bootId = js ''b'', mpe_generation = 0 \<rparr> \<rparr>"

definition ex_start :: ExecutionStartEvent where
  "ex_start = \<lparr> es_executionId = js ''e1'', es_origin = OriginUserMessage, es_maxSteps = 10,
     es_activeTimeoutMs = None, es_binding = ex_binding, es_executionSkills = [],
     es_memoryPolicy = ex_policy,
     es_toolAuthorizationSnapshot = \<lparr> tas_extraTools = [], tas_toolProjection = None \<rparr>,
     es_loadedToolRefs = [] \<rparr>"

definition ex_settlement :: "string \<Rightarrow> SessionExecutionSettlementInput" where
  "ex_settlement k = \<lparr> stl_key = js k, stl_goalInstanceId = None \<rparr>"

definition ex_end :: ExecutionEndEvent where
  "ex_end = \<lparr> en_executionId = js ''e1'', en_terminalStatus = Completed,
     en_finalOutputStepId = Some (js ''s2''), en_endedAt = 120, en_runEndedAt = Some 119,
     en_runUsageDelta = Some EMPTY_USAGE, en_runSettlement = Some (ex_settlement ''r''),
     en_terminalSettlement = ex_settlement ''t'', en_error = None \<rparr>"

definition ex_suspended :: ExecutionSuspendedEvent where
  "ex_suspended = \<lparr> su_executionId = js ''e1'', su_suspension = HitlSuspension (js ''b'') [js ''h''],
     su_runEndedAt = 110, su_runUsageDelta = EMPTY_USAGE, su_runSettlement = ex_settlement ''r'' \<rparr>"

definition ex_count :: "int \<Rightarrow> ToolOutputCount" where
  "ex_count n = \<lparr> toc_bytes = n, toc_lines = n \<rparr>"

definition ex_result :: FinalizedToolResult where
  "ex_result = \<lparr> ftr_isError = False, ftr_output = \<lparr> to_preview = js ''ok'', to_completeness = CompleteOutput,
     to_observed = ex_count 2, to_canonical = ex_count 2, to_stored = ex_count 2, to_omitted = ex_count 0,
     to_recovery = RecoveryNone \<rparr>, ftr_details = None \<rparr>"

definition ex_todo :: SessionTodo where
  "ex_todo = \<lparr> td_id = js ''t'', td_content = js ''c'', td_status = js ''in_progress'', td_createdAt = None,
     td_updatedAt = None \<rparr>"

definition ex_reminder :: Reminder where
  "ex_reminder = \<lparr> rm_id = js ''r1'', rm_source = SubagentCompleted (js ''child'') (Some (js ''x1'')),
     rm_delivery = AutoInject, rm_sessionId = None, rm_terminalState = None, rm_content = js ''done'',
     rm_payload = JsNull, rm_createdAt = 100, rm_consumedAt = None, rm_targetSessionId = None \<rparr>"

definition ex_link :: ToolChildSessionLink where
  "ex_link = \<lparr> cl_parentSessionId = js ''s'', cl_parentToolCallId = js ''c1'', cl_toolName = js ''delegate'',
     cl_childSessionId = js ''child'', cl_childExecutionId = js ''x1'', cl_childAgentName = js ''explore'',
     cl_childProfile = js ''fast'', cl_childSkillNames = [], cl_title = js ''look'', cl_depth = 1,
     cl_background = False, cl_status = js ''running'', cl_createdAt = 100, cl_startedAt = None,
     cl_endedAt = None, cl_durationMs = None, cl_durationUpdatedAt = None, cl_error = None \<rparr>"

definition empty_session :: SessionProjection where
  "empty_session = \<lparr> sessionId = js ''s'', cwd = js ''/'', rootSessionId = js ''s'', parentSessionId = None,
     delegationRequest = None, goal = None, title = None, messages = [], pendingMessages = [], steps = [],
     todos = [], reminders = [], childSessionLinks = [], stats = createEmptySessionStats, executions = [],
     promptTraces = None, executionCount = 0, isRunning = False, isStreamingModel = False,
     currentExecutionId = None, currentAssistantMessageId = None,
     modelSelection = \<lparr> sms_revision = 0, sms_override = None \<rparr>, compression = None,
     compressionBlocks = None \<rparr>"

definition ex_log :: "(StreamEvent \<times> ReduceContext) list" where
  "ex_log = [
     (Lifecycle (ExecutionStart ex_start), ex_ctx 100 ''0''),
     (StepStart (js ''s1'') 1, ex_ctx 101 ''1''),
     (TextStart (js ''s1'') (js ''b''), ex_ctx 102 ''2''),
     (TextDelta (js ''s1'') (js ''b'') (js ''Look''), ex_ctx 103 ''3''),
     (TextEnd (js ''s1'') (js ''b''), ex_ctx 104 ''4''),
     (ToolCall (js ''c'') (js ''bash'') JsNull, ex_ctx 105 ''5''),
     (ToolOutputDelta (js ''c'') (js ''bash'') (js ''out'') 0 False, ex_ctx 105 ''6''),
     (TodoWrite [ex_todo], ex_ctx 105 ''t''),
     (ReminderAdded ex_reminder, ex_ctx 106 ''r''),
     (ChildSessionLinkEvent ex_link, ex_ctx 106 ''l''),
     (ToolResult (js ''c'') (js ''bash'') 106 ex_result, ex_ctx 106 ''6''),
     (StepEnd (js ''s1'') 1 (js ''tool-calls'') JsNull, ex_ctx 107 ''7''),
     (StepStart (js ''s2'') 2, ex_ctx 108 ''8''),
     (TextStart (js ''s2'') (js ''b''), ex_ctx 109 ''9''),
     (TextDelta (js ''s2'') (js ''b'') (js ''Done''), ex_ctx 110 ''a''),
     (TextEnd (js ''s2'') (js ''b''), ex_ctx 111 ''b''),
     (StepEnd (js ''s2'') 2 (js ''stop'') JsNull, ex_ctx 112 ''c''),
     (Lifecycle (ExecutionEnd ex_end), ex_ctx 120 ''d'')]"

text \<open>The collation of the example: every string compares equal.\<close>

definition flat :: collation where
  "flat = (\<lambda>_ _. 0)"

definition fold_log :: "(StreamEvent \<times> ReduceContext) list \<Rightarrow> SessionProjection" where
  "fold_log es = (case run_log (reduce_step flat) empty_session es of Inr s \<Rightarrow> s | Inl _ \<Rightarrow> empty_session)"

text \<open>The byte limits are compared as integers when a log is evaluated.\<close>

lemma append_live_code [code]:
  "append_live existing delta omittedBytes liveLimitReached =
    (let combined = (case existing of None \<Rightarrow> [] | Some l \<Rightarrow> lo_preview l) @ delta;
         suffix = (if int (utf8ByteLength combined) \<le> 51200 then (combined, 0)
           else utf8Suffix combined LIVE_TOOL_OUTPUT_PREVIEW_MAX_BYTES) in
     \<lparr> lo_preview = fst suffix,
       lo_omittedBytes = (case existing of None \<Rightarrow> 0 | Some l \<Rightarrow> lo_omittedBytes l) + omittedBytes
         + int (snd suffix),
       lo_liveLimitReached = (case existing of None \<Rightarrow> False | Some l \<Rightarrow> lo_liveLimitReached l)
         \<or> liveLimitReached \<rparr>)"
  by (simp add: append_live_def Let_def utf8Suffix_def LIVE_TOOL_OUTPUT_PREVIEW_MAX_BYTES_def)

lemma areTodosValid_code [code]:
  "areTodosValid ts \<longleftrightarrow> length ts \<le> MAX_SESSION_TODOS
     \<and> int (utf8ByteLength (json_todos ts)) \<le> 24576
     \<and> (\<forall>t \<in> set ts. td_status t \<in> set TODO_STATUSES)
     \<and> length (filter (\<lambda>t. td_status t = js ''in_progress'') ts) \<le> 1"
  by (simp add: areTodosValid_iff MAX_SESSION_TODOS_SERIALIZED_BYTES_def)

lemma ex_log_folds: "run_log (reduce_step flat) empty_session ex_log = Inr (fold_log ex_log)"
proof -
  have "(case run_log (reduce_step flat) empty_session ex_log of Inr _ \<Rightarrow> True | Inl _ \<Rightarrow> False)"
    by code_simp
  then show ?thesis by (auto simp: fold_log_def split: sum.splits)
qed

lemma fold_log_take: "run_log (reduce_step flat) empty_session (take n ex_log) = Inr (fold_log (take n ex_log))"
proof -
  have "run_log (reduce_step flat) empty_session (take n ex_log @ drop n ex_log) = Inr (fold_log ex_log)"
    using ex_log_folds by simp
  then obtain t where "run_log (reduce_step flat) empty_session (take n ex_log) = Inr t"
    unfolding run_log_append by (auto simp: bindE_Inr_iff)
  then show ?thesis by (simp add: fold_log_def)
qed

lemma fold_log_drop:
  "run_log (reduce_step flat) (fold_log (take n ex_log)) (drop n ex_log) = Inr (fold_log ex_log)"
  using ex_log_folds fold_log_take [of n] run_log_append [of "reduce_step flat" empty_session "take n ex_log" "drop n ex_log"]
  by simp

end
