(* ===== verification/ReducerFrames.thy ===== *)
theory ReducerFrames
  imports Reducer
begin

text \<open>
  What an event leaves alone: for each part of the projection, the events whose patch has its key.
  The invariants of the components are proved for those events only.
\<close>

lemmas case_defs = onExecutionStart_def onExecutionSuspended_def onSuspensionUpdated_def
  onExecutionResumed_def onExecutionEnd_def onStopRequested_def onMessageReplaced_def
  onMessageDeleted_def onMessagesCommitted_def onSystemNotice_def appendBlockPart_def
  appendAssistantOutputPart_def appendReasoningPart_def block_delta_def onTextStart_def onTextDelta_def
  onTextEnd_def onReasoningStart_def onReasoningDelta_def onReasoningEnd_def onToolInputStart_def
  onToolCall_def onToolInputResolved_def onToolAttempt_def onToolOutputDelta_def onToolResult_def
  onChildSessionLink_def onTodoWrite_def add_reminder_def onReminder_def onReminderConsumed_def
  onStepStart_def onStepEnd_def onExecutionError_def onPromptTrace_def upsertRecoveryNoticePart_def
  onLlmRetry_def onLlmRecovery_def onLlmRecoveryFailed_def onBlockCommitted_def onBlockFailed_def
  onRefMapUpdated_def onCompact_def

lemma onCompression_frame [simp]:
  "p_executions (onCompression s e ctx) = None" "p_executionCount (onCompression s e ctx) = None"
  "p_isRunning (onCompression s e ctx) = None" "p_isStreamingModel (onCompression s e ctx) = None"
  "p_currentExecutionId (onCompression s e ctx) = None" "p_steps (onCompression s e ctx) = None"
  "p_stats (onCompression s e ctx) = None" "p_messages (onCompression s e ctx) = None"
  "p_currentAssistantMessageId (onCompression s e ctx) = None" "p_todos (onCompression s e ctx) = None"
  "p_reminders (onCompression s e ctx) = None" "p_childSessionLinks (onCompression s e ctx) = None"
  "p_pendingMessages (onCompression s e ctx) = None" "p_promptTraces (onCompression s e ctx) = None"
  "p_goal (onCompression s e ctx) = None" "p_cwd (onCompression s e ctx) = None"
  by (cases e; simp add: case_defs Let_def)+

lemma onLifecycle_frame:
  assumes "onLifecycle s e t = Inr p"
  shows "p_steps p = None" "p_stats p = None" "p_todos p = None" "p_reminders p = None"
    "p_childSessionLinks p = None" "p_compression p = None" "p_compressionBlocks p = None"
    "p_pendingMessages p = None" "p_cwd p = None" "p_goal p = None" "p_modelSelection p = None"
  using assms by (cases e; auto simp: case_defs Let_def bindE_Inr_iff)+

lemma reduceLifecycle_frame:
  assumes "reduceLifecycle s e t = Inr p"
  shows "p_steps p = None" "p_stats p = None" "p_todos p = None" "p_reminders p = None"
    "p_childSessionLinks p = None" "p_compression p = None" "p_compressionBlocks p = None"
    "p_pendingMessages p = None" "p_cwd p = None" "p_goal p = None" "p_modelSelection p = None"
  using assms onLifecycle_frame [of s e t p] by (auto simp: reduceLifecycle_def split: if_splits)

text \<open>Which events may change a field, as a set of event shapes.\<close>

fun is_lifecycle :: "StreamEvent \<Rightarrow> bool" where
  "is_lifecycle (Lifecycle _) = True"
| "is_lifecycle _ = False"

fun touches_executions :: "StreamEvent \<Rightarrow> bool" where
  "touches_executions (Lifecycle _) = True"
| "touches_executions (StopRequested _ _) = True"
| "touches_executions _ = False"

fun touches_steps :: "StreamEvent \<Rightarrow> bool" where
  "touches_steps (StepStart _ _) = True"
| "touches_steps (StepEnd _ _ _ _) = True"
| "touches_steps (ExecutionError _ _) = True"
| "touches_steps _ = False"

fun touches_compression :: "StreamEvent \<Rightarrow> bool" where
  "touches_compression (Compression _) = True"
| "touches_compression (Compact _ _) = True"
| "touches_compression _ = False"

fun touches_reminders :: "StreamEvent \<Rightarrow> bool" where
  "touches_reminders (ReminderAdded _) = True"
| "touches_reminders (ReminderConsumed _) = True"
| "touches_reminders _ = False"

fun is_todo_write :: "StreamEvent \<Rightarrow> bool" where
  "is_todo_write (TodoWrite _) = True"
| "is_todo_write _ = False"

fun is_child_link :: "StreamEvent \<Rightarrow> bool" where
  "is_child_link (ChildSessionLinkEvent _) = True"
| "is_child_link _ = False"

text \<open>One pass over the cases; the frame of every field is a consequence.\<close>

lemma event_frames:
  assumes "reduceStreamEvent lc s ev ctx = Inr p"
  shows "(touches_executions ev \<or> p_executions p = None)
    \<and> (is_lifecycle ev \<or> p_isRunning p = None \<and> p_executionCount p = None \<and> p_currentExecutionId p = None)
    \<and> (touches_steps ev \<or> p_steps p = None) \<and> (is_todo_write ev \<or> p_todos p = None)
    \<and> (touches_reminders ev \<or> p_reminders p = None) \<and> (is_child_link ev \<or> p_childSessionLinks p = None)
    \<and> (touches_compression ev \<or> p_compression p = None \<and> p_compressionBlocks p = None)"
  using assms
  by (cases ev) (auto simp: case_defs Let_def bindE_Inr_iff reduceLifecycle_frame
      split: option.splits if_splits prod.splits)

lemma frame_executions [event_frame]:
  "reduceStreamEvent lc s ev ctx = Inr p \<Longrightarrow> \<not> touches_executions ev \<Longrightarrow> p_executions p = None"
  using event_frames by blast

lemma frame_running [event_frame]:
  assumes "reduceStreamEvent lc s ev ctx = Inr p" "\<not> is_lifecycle ev"
  shows "p_isRunning p = None \<and> p_executionCount p = None \<and> p_currentExecutionId p = None"
  using event_frames [OF assms(1)] assms(2) by blast

lemma frame_steps [event_frame]:
  "reduceStreamEvent lc s ev ctx = Inr p \<Longrightarrow> \<not> touches_steps ev \<Longrightarrow> p_steps p = None"
  using event_frames by blast

lemma frame_todos [event_frame]:
  "reduceStreamEvent lc s ev ctx = Inr p \<Longrightarrow> \<not> is_todo_write ev \<Longrightarrow> p_todos p = None"
  using event_frames by blast

lemma frame_reminders [event_frame]:
  "reduceStreamEvent lc s ev ctx = Inr p \<Longrightarrow> \<not> touches_reminders ev \<Longrightarrow> p_reminders p = None"
  using event_frames by blast

lemma frame_childLinks [event_frame]:
  "reduceStreamEvent lc s ev ctx = Inr p \<Longrightarrow> \<not> is_child_link ev \<Longrightarrow> p_childSessionLinks p = None"
  using event_frames by blast

lemma frame_compression [event_frame]:
  "reduceStreamEvent lc s ev ctx = Inr p \<Longrightarrow> \<not> touches_compression ev
    \<Longrightarrow> p_compression p = None \<and> p_compressionBlocks p = None"
  using event_frames by blast

lemma reduce_step_Inr:
  assumes "reduce_step lc s (ev, ctx) = Inr s'"
  obtains p where "reduceStreamEvent lc s ev ctx = Inr p" "s' = apply_patch s p"
  using assms by (auto simp: reduce_step_def bindE_Inr_iff)

text \<open>The counters a patch may carry are increments of the old ones.\<close>

inductive stats_step :: "SessionStats \<Rightarrow> SessionStats \<Rightarrow> bool" where
  "stats_step s s"
| "stats_step s t \<Longrightarrow> stats_step s (incrementUserMessagesBy t n)"
| "stats_step s t \<Longrightarrow> stats_step s (incrementAssistantMessages t)"
| "stats_step s t \<Longrightarrow> stats_step s (incrementToolCalls t)"
| "stats_step s t \<Longrightarrow> stats_step s (incrementToolCompleted t)"
| "stats_step s t \<Longrightarrow> stats_step s (incrementToolFailures t n)"
| "stats_step s t \<Longrightarrow> stats_step s (incrementStepStarted t)"
| "stats_step s t \<Longrightarrow> stats_step s (incrementStepCompleted t u)"

lemma stats_step_once [simp]:
  "stats_step s s"
  "stats_step s (incrementUserMessagesBy s n)" "stats_step s (incrementAssistantMessages s)"
  "stats_step s (incrementToolCalls s)" "stats_step s (incrementToolCompleted s)"
  "stats_step s (incrementToolFailures s n)" "stats_step s (incrementStepStarted s)"
  "stats_step s (incrementStepCompleted s u)"
  "stats_step s (incrementToolCalls (incrementAssistantMessages s))"
  by (simp_all add: stats_step.intros)

lemma first_content_stats_step: "first_content_stats st a = Some st' \<Longrightarrow> st' = incrementAssistantMessages st"
  by (auto simp: first_content_stats_def split: if_splits)

lemma firstAssistantContentStats_step:
  "firstAssistantContentStats s i = Some st' \<Longrightarrow> st' = incrementAssistantMessages (stats s)"
  by (auto simp: firstAssistantContentStats_def dest: first_content_stats_step
      split: option.splits SessionMessage.splits)

lemma ensure_stats:
  "ensureCurrentAssistantMessage s = Inr r
    \<Longrightarrow> amr_stats r = None \<or> amr_stats r = Some (incrementAssistantMessages (stats s))"
  by (auto simp: first_content_stats_def ensureCurrentAssistantMessage_def split: option.splits SessionMessage.splits if_splits)

lemma recovery_stats:
  "assistantForRecoveryEvent s i = Some r
    \<Longrightarrow> amr_stats r = None \<or> amr_stats r = Some (incrementAssistantMessages (stats s))"
  by (auto simp: first_content_stats_def assistantForRecoveryEvent_def split: option.splits SessionMessage.splits if_splits)

lemma upsert_stats [simp]: "p_stats (upsertRecoveryNoticePart msgs i n st) = st"
  by (simp add: upsertRecoveryNoticePart_def Let_def)

text \<open>The increments that leave the step counters and the usage alone.\<close>

definition content_step :: "SessionStats \<Rightarrow> SessionStats \<Rightarrow> bool" where
  "content_step s t \<longleftrightarrow> stats_step s t \<and> stats_steps t = stats_steps s \<and> stats_usage t = stats_usage s"

lemma content_step_once [simp]:
  "content_step s s"
  "content_step s (incrementUserMessagesBy s n)" "content_step s (incrementAssistantMessages s)"
  "content_step s (incrementToolCalls s)" "content_step s (incrementToolCompleted s)"
  "content_step s (incrementToolFailures s n)"
  "content_step s (incrementToolCalls (incrementAssistantMessages s))"
  by (simp_all add: content_step_def) (simp_all add: increment_defs)

lemma recovery_cases_stats:
  "p_stats (onLlmRetry s v i k t ctx) = Some st \<Longrightarrow> content_step (stats s) st"
  "p_stats (onLlmRecovery s v i k' ctx) = Some st \<Longrightarrow> content_step (stats s) st"
  "p_stats (onLlmRecoveryFailed s i k c ctx) = Some st \<Longrightarrow> content_step (stats s) st"
  by (auto simp: onLlmRetry_def onLlmRecovery_def onLlmRecoveryFailed_def dest!: recovery_stats
      split: option.splits if_splits)

lemma block_delta_stats:
  "p_stats (block_delta c s i b d) = Some st \<Longrightarrow> content_step (stats s) st"
  by (auto simp: block_delta_def dest!: firstAssistantContentStats_step split: option.splits if_splits)

lemma tool_start_stats:
  "onToolInputStart s c n ctx = Inr p \<Longrightarrow> p_stats p = Some st \<Longrightarrow> content_step (stats s) st"
  "onToolCall s c n i ctx = Inr p \<Longrightarrow> p_stats p = Some st \<Longrightarrow> content_step (stats s) st"
  by (auto simp: onToolInputStart_def onToolCall_def bindE_Inr_iff Let_def dest!: ensure_stats
      split: option.splits if_splits)

lemma tool_update_stats:
  "p_stats (onToolInputResolved s c i) = None" "p_stats (onToolAttempt s c a t d) = None"
  "p_stats (onToolOutputDelta s c n d' o' l) = None"
  "p_stats (onToolResult s c t r) = Some st \<Longrightarrow> content_step (stats s) st"
  by (auto simp: onToolInputResolved_def onToolAttempt_def onToolOutputDelta_def onToolResult_def
      split: option.splits if_splits)

lemma step_stats:
  "p_stats (onStepStart s i n ctx) = Some st \<Longrightarrow> stats_step (stats s) st"
  "p_stats (onStepEnd s i n f u t) = Some st \<Longrightarrow> stats_step (stats s) st"
  "p_stats (onMessagesCommitted s ms) = Some st \<Longrightarrow> content_step (stats s) st"
  by (auto simp: onStepStart_def onStepEnd_def onMessagesCommitted_def Let_def
      split: option.splits if_splits)

lemma other_stats:
  "p_stats (onStopRequested s i t) = None" "p_stats (onMessageReplaced s m) = None"
  "p_stats (onMessageDeleted s i) = None" "p_stats (onSystemNotice s n ctx) = None"
  "p_stats (onTextStart s i b ctx) = None" "p_stats (onTextEnd s i b t) = None"
  "p_stats (onReasoningStart s i b ctx) = None" "p_stats (onReasoningEnd s i b t) = None"
  "p_stats (onChildSessionLink lc s l) = None" "p_stats (onTodoWrite ts) = None"
  "p_stats (onReminderConsumed s ids t) = None" "p_stats (onExecutionError s e r) = None"
  "p_stats (onPromptTrace s tr) = None" "p_stats (onCompact s sm i ctx) = None"
  "onReminder s rem = Inr p \<Longrightarrow> p_stats p = None"
  by (auto simp: case_defs Let_def bindE_Inr_iff split: option.splits if_splits)

fun is_step_event :: "StreamEvent \<Rightarrow> bool" where
  "is_step_event (StepStart _ _) = True"
| "is_step_event (StepEnd _ _ _ _) = True"
| "is_step_event _ = False"

lemma patch_content_step:
  "reduceStreamEvent lc s ev ctx = Inr p \<Longrightarrow> p_stats p = Some st \<Longrightarrow> \<not> is_step_event ev
    \<Longrightarrow> content_step (stats s) st"
  by (cases ev)
    (auto simp: other_stats reduceLifecycle_frame tool_update_stats onTextDelta_def onReasoningDelta_def
      dest!: block_delta_stats tool_start_stats tool_update_stats(4) step_stats recovery_cases_stats)

lemma patch_stats_step:
  assumes "reduceStreamEvent lc s ev ctx = Inr p" "p_stats p = Some st"
  shows "stats_step (stats s) st"
proof (cases "is_step_event ev")
  case True
  with assms step_stats show ?thesis by (auto elim!: is_step_event.elims)
next
  case False
  with patch_content_step assms show ?thesis by (auto simp: content_step_def)
qed

lemma stats_step_balanced: "stats_step s t \<Longrightarrow> balanced_stats s \<Longrightarrow> balanced_stats t"
  by (induction rule: stats_step.induct) auto

lemma stats_step_le: "stats_step s t \<Longrightarrow> stats_le s t"
  by (induction rule: stats_step.induct) (auto intro: stats_le_trans stats_le_increments)

end
