(* ===== verification/ExecutionInvariant.thy ===== *)
theory ExecutionInvariant
  imports ExecutionLifecycle
begin

text \<open>
  What makes the lifecycle correct: the invariant on the recorded Executions, the abstract step
  relation \<open>exec_step\<close> that a validated event refines, the phases an Execution goes through, and
  the recognition of a replayed event as a duplicate.
\<close>

section \<open>The invariant\<close>

definition closed_well :: "SessionExecutionRun \<Rightarrow> bool" where
  "closed_well r \<longleftrightarrow> is_ClosedRun r \<and> run_startedAt r \<le> run_endedAt r
     \<and> run_durationMs r = run_endedAt r - run_startedAt r"

definition closed_duration :: "SessionExecutionRun \<Rightarrow> int" where
  "closed_duration r = (case r of OpenRun _ _ _ \<Rightarrow> 0 | ClosedRun _ _ _ _ d _ _ \<Rightarrow> d)"

definition state_matches_runs :: "SessionExecutionState \<Rightarrow> SessionExecutionRun list \<Rightarrow> bool" where
  "state_matches_runs st runs =
    (case st of
       Running \<Rightarrow> (\<forall>r \<in> set (butlast runs). closed_well r) \<and> is_OpenRun (last runs)
     | Suspended _ \<Rightarrow> \<forall>r \<in> set runs. closed_well r
     | Terminal status endedAt finalOutputStepId _ _ \<Rightarrow>
         (\<forall>r \<in> set runs. closed_well r) \<and> run_endedAt (last runs) \<le> endedAt
         \<and> (finalOutputStepId \<noteq> None \<longrightarrow> status = Completed))"

definition wf_execution :: "SessionExecutionRecord \<Rightarrow> bool" where
  "wf_execution e \<longleftrightarrow> ex_runs e \<noteq> []
     \<and> map run_ordinal (ex_runs e) = map int [0..<length (ex_runs e)]
     \<and> ex_durationMs e = sum_list (map closed_duration (ex_runs e))
     \<and> state_matches_runs (ex_state e) (ex_runs e)"

definition unfinished :: "SessionExecutionRecord \<Rightarrow> bool" where
  "unfinished e \<longleftrightarrow> \<not> is_terminal (ex_state e)"

definition wf_executions :: "SessionExecutionRecord list \<Rightarrow> bool" where
  "wf_executions exs \<longleftrightarrow> distinct (map ex_id exs) \<and> (\<forall>e \<in> set exs. wf_execution e)
     \<and> length (filter unfinished exs) \<le> 1"

section \<open>The abstract steps\<close>

inductive exec_step ::
  "ExecutionLifecycleEvent \<Rightarrow> int \<Rightarrow> SessionExecutionRecord \<Rightarrow> SessionExecutionRecord \<Rightarrow> bool" where
  suspend:
    "\<lbrakk> ex_state e = Running; ex_runs e = rs @ [OpenRun ord st b];
       \<not> is_resume_pending (su_suspension ev); st \<le> su_runEndedAt ev \<rbrakk> \<Longrightarrow>
     exec_step (ExecutionSuspended ev) t e
       (e\<lparr>ex_state := Suspended (su_suspension ev),
          ex_durationMs := ex_durationMs e + (su_runEndedAt ev - st),
          ex_runs := rs @ [ClosedRun ord st b (su_runEndedAt ev) (su_runEndedAt ev - st)
             (su_runUsageDelta ev) (persist_settlement (su_runSettlement ev))]\<rparr>)"
| update:
    "\<lbrakk> ex_state e = Suspended cur; cur \<noteq> s; \<not> is_resume_pending cur;
       toolBatchId cur = toolBatchId s; is_resume_pending s \<or> is_hitl cur \<and> is_hitl s \<rbrakk> \<Longrightarrow>
     exec_step (ExecutionSuspensionUpdated i s) t e (e\<lparr>ex_state := Suspended s\<rparr>)"
| resume:
    "\<lbrakk> ex_state e = Suspended cur; is_resume_pending cur; re_runOrdinal ev = int (length (ex_runs e)) \<rbrakk> \<Longrightarrow>
     exec_step (ExecutionResumed ev) t e
       (e\<lparr>ex_state := Running,
          ex_runs := ex_runs e @ [OpenRun (re_runOrdinal ev) t (re_binding ev)]\<rparr>)"
| end_running:
    "\<lbrakk> ex_state e = Running; ex_runs e = rs @ [OpenRun ord st b];
       en_runEndedAt ev = Some re; en_runUsageDelta ev = Some ru; en_runSettlement ev = Some rl;
       st \<le> re; re \<le> en_endedAt ev;
       en_finalOutputStepId ev \<noteq> None \<longrightarrow> en_terminalStatus ev = Completed \<rbrakk> \<Longrightarrow>
     exec_step (ExecutionEnd ev) t e
       (e\<lparr>ex_state := Terminal (en_terminalStatus ev) (en_endedAt ev) (en_finalOutputStepId ev)
            (en_error ev) (persist_settlement (en_terminalSettlement ev)),
          ex_durationMs := ex_durationMs e + (re - st),
          ex_runs := rs @ [ClosedRun ord st b re (re - st) ru (persist_settlement rl)]\<rparr>)"
| end_suspended:
    "\<lbrakk> ex_state e = Suspended cur;
       en_runEndedAt ev = None; en_runUsageDelta ev = None; en_runSettlement ev = None;
       \<forall>r. at_last (ex_runs e) = Some r \<and> is_ClosedRun r \<longrightarrow> run_endedAt r \<le> en_endedAt ev;
       en_finalOutputStepId ev \<noteq> None \<longrightarrow> en_terminalStatus ev = Completed \<rbrakk> \<Longrightarrow>
     exec_step (ExecutionEnd ev) t e
       (e\<lparr>ex_state := Terminal (en_terminalStatus ev) (en_endedAt ev) (en_finalOutputStepId ev)
            (en_error ev) (persist_settlement (en_terminalSettlement ev))\<rparr>)"

inductive_cases exec_step_StartE: "exec_step (ExecutionStart ev) t e e'"

lemma exec_step_id: "exec_step ev t e e' \<Longrightarrow> ex_id e' = ex_id e"
  by (induction rule: exec_step.induct) simp_all

definition replace_execution ::
  "jstring \<Rightarrow> SessionExecutionRecord \<Rightarrow> SessionExecutionRecord list \<Rightarrow> SessionExecutionRecord list" where
  "replace_execution i e' exs = map (\<lambda>x. if ex_id x = i then e' else x) exs"

lemma find_execution_Some_iff:
  assumes "distinct (map ex_id exs)"
  shows "find_execution exs i = Some e \<longleftrightarrow> e \<in> set exs \<and> ex_id e = i"
proof
  assume "find_execution exs i = Some e"
  then show "e \<in> set exs \<and> ex_id e = i"
    unfolding find_execution_def by (rule find_SomeD)
next
  assume "e \<in> set exs \<and> ex_id e = i"
  then show "find_execution exs i = Some e"
    unfolding find_execution_def using find_unique [OF assms] by blast
qed

lemma unique_execution:
  assumes "distinct (map ex_id exs)" "find_execution exs i = Some e" "x \<in> set exs" "ex_id x = i"
  shows "x = e"
proof -
  have "find_execution exs i = Some x"
    using assms find_execution_Some_iff [OF assms(1)] by simp
  with assms(2) show ?thesis by simp
qed

lemma map_matching:
  assumes "distinct (map ex_id exs)" "find_execution exs i = Some e"
    and "f e = e'" "\<And>x. x \<in> set exs \<Longrightarrow> ex_id x \<noteq> i \<Longrightarrow> f x = x"
  shows "map f exs = replace_execution i e' exs"
  unfolding replace_execution_def
proof (rule map_cong)
  fix x assume "x \<in> set exs"
  then show "f x = (if ex_id x = i then e' else x)"
    using unique_execution [OF assms(1,2)] assms(3,4) by (cases "ex_id x = i") auto
qed simp

lemma mapE_matching:
  assumes "distinct (map ex_id exs)" "find_execution exs i = Some e"
    and "f e = Inr e'" "\<And>x. x \<in> set exs \<Longrightarrow> ex_id x \<noteq> i \<Longrightarrow> f x = Inr x"
  shows "mapE f exs = Inr (replace_execution i e' exs)"
  unfolding replace_execution_def
proof (rule mapE_Inr)
  fix x assume "x \<in> set exs"
  then show "f x = Inr (if ex_id x = i then e' else x)"
    using unique_execution [OF assms(1,2)] assms(3,4) by (cases "ex_id x = i") auto
qed

section \<open>Validated events refine the abstract steps\<close>

lemma not_pending_iff: "\<not> is_terminal st \<longleftrightarrow> st = Running \<or> (\<exists>s. st = Suspended s)"
  by (cases st) auto

lemma at_last_open:
  "at_last rs = Some (OpenRun ord st b) \<longleftrightarrow> (\<exists>ys. rs = ys @ [OpenRun ord st b])"
  by (rule at_last_Some_iff)

lemma validateSuspend_Valid:
  assumes "validateSuspend (Some e) ev = Valid"
  obtains rs ord st b where "ex_state e = Running" "ex_runs e = rs @ [OpenRun ord st b]"
    "\<not> is_resume_pending (su_suspension ev)" "st \<le> su_runEndedAt ev"
  using assms
  by (auto simp: validateSuspend_def at_last_Some_iff split: SessionExecutionState.splits option.splits
      SessionExecutionRun.splits if_splits)

lemma validateSuspensionUpdate_Valid:
  assumes "validateSuspensionUpdate (Some e) i s = Valid"
  obtains cur where "ex_state e = Suspended cur" "cur \<noteq> s" "\<not> is_resume_pending cur"
    "toolBatchId cur = toolBatchId s" "is_resume_pending s \<or> is_hitl cur \<and> is_hitl s"
  using assms
  by (auto simp: validateSuspensionUpdate_def split: SessionExecutionState.splits if_splits)

lemma validateResume_Valid:
  assumes "validateResume (Some e) ev = Valid"
  obtains cur where "ex_state e = Suspended cur" "is_resume_pending cur"
    "re_runOrdinal ev = int (length (ex_runs e))"
  using assms
  by (auto simp: validateResume_def split: SessionExecutionState.splits option.splits
      SessionExecutionRun.splits if_splits)

lemma validateEnd_Valid:
  assumes "validateEnd (Some e) ev = Valid"
  obtains (running) rs ord st b re ru rl where "ex_state e = Running" "ex_runs e = rs @ [OpenRun ord st b]"
    "en_runEndedAt ev = Some re" "en_runUsageDelta ev = Some ru" "en_runSettlement ev = Some rl"
    "st \<le> re" "re \<le> en_endedAt ev" "en_finalOutputStepId ev \<noteq> None \<longrightarrow> en_terminalStatus ev = Completed"
  | (suspended) cur where "ex_state e = Suspended cur" "en_runEndedAt ev = None"
    "en_runUsageDelta ev = None" "en_runSettlement ev = None"
    "\<forall>r. at_last (ex_runs e) = Some r \<and> is_ClosedRun r \<longrightarrow> run_endedAt r \<le> en_endedAt ev"
    "en_finalOutputStepId ev \<noteq> None \<longrightarrow> en_terminalStatus ev = Completed"
proof (cases "ex_state e")
  case Running
  show ?thesis
    using assms Running running
    by (simp add: validateEnd_def at_last_Some_iff split: option.splits SessionExecutionRun.splits if_splits)
      (auto simp: at_last_Some_iff)
next
  case (Suspended cur)
  show ?thesis
    using assms Suspended suspended
    by (auto simp: validateEnd_def split: option.splits SessionExecutionRun.splits if_splits)
next
  case Terminal
  with assms show ?thesis
    by (simp add: validateEnd_def split: if_splits)
qed

definition is_start :: "ExecutionLifecycleEvent \<Rightarrow> bool" where
  "is_start ev \<longleftrightarrow> (case ev of ExecutionStart _ \<Rightarrow> True | _ \<Rightarrow> False)"

lemma start_Valid:
  assumes "validateExecutionTransition exs (ExecutionStart ev) = Valid"
  shows "find_execution exs (es_executionId ev) = None" "\<forall>e \<in> set exs. is_terminal (ex_state e)"
  using assms
  by (auto simp: validateExecutionTransition_def lifecycle_executionId_def validateStart_def Let_def
      split: option.splits list.splits if_splits)

lemma step_Valid_exists:
  assumes "validateExecutionTransition exs ev = Valid" "\<not> is_start ev"
  obtains e where "find_execution exs (lifecycle_executionId ev) = Some e"
  using assms
  by (cases ev; cases "find_execution exs (lifecycle_executionId ev)")
    (auto simp: validateExecutionTransition_def lifecycle_executionId_def is_start_def Let_def
      validateSuspend_def validateSuspensionUpdate_def validateResume_def validateEnd_def)

lemma lifecycle_refines:
  assumes dist: "distinct (map ex_id exs)"
    and valid: "validateExecutionTransition exs ev = Valid" and nostart: "\<not> is_start ev"
  obtains e e' where "find_execution exs (lifecycle_executionId ev) = Some e" "exec_step ev t e e'"
    "lifecycleExecutions exs ev t = Inr (replace_execution (lifecycle_executionId ev) e' exs)"
proof -
  obtain e where e: "find_execution exs (lifecycle_executionId ev) = Some e"
    using step_Valid_exists [OF valid nostart] .
  then have id: "ex_id e = lifecycle_executionId ev"
    using find_execution_Some_iff [OF dist] by simp
  show ?thesis
  proof (cases ev)
    case (ExecutionStart x1)
    with nostart show ?thesis by (simp add: is_start_def)
  next
    case (ExecutionSuspended ev')
    then have "validateSuspend (Some e) ev' = Valid"
      using valid e by (simp add: validateExecutionTransition_def lifecycle_executionId_def)
    then obtain rs ord st b where h: "ex_state e = Running" "ex_runs e = rs @ [OpenRun ord st b]"
        "\<not> is_resume_pending (su_suspension ev')" "st \<le> su_runEndedAt ev'"
      by (rule validateSuspend_Valid)
    have "suspendExecution ev' e = Inr (e\<lparr>ex_state := Suspended (su_suspension ev'),
          ex_durationMs := ex_durationMs e + (su_runEndedAt ev' - st),
          ex_runs := rs @ [ClosedRun ord st b (su_runEndedAt ev') (su_runEndedAt ev' - st)
             (su_runUsageDelta ev') (persist_settlement (su_runSettlement ev'))]\<rparr>)"
      using h id ExecutionSuspended
      by (simp add: suspendExecution_def close_run_def lifecycle_executionId_def Let_def)
    from mapE_matching [where f = "suspendExecution ev'", OF dist e this] exec_step.suspend [OF h] e show ?thesis
      by (intro that) (auto simp: ExecutionSuspended lifecycleExecutions_def lifecycle_executionId_def
          suspendExecution_def)
  next
    case (ExecutionSuspensionUpdated i s)
    then have "validateSuspensionUpdate (Some e) i s = Valid"
      using valid e by (simp add: validateExecutionTransition_def lifecycle_executionId_def)
    then obtain cur where h: "ex_state e = Suspended cur" "cur \<noteq> s" "\<not> is_resume_pending cur"
        "toolBatchId cur = toolBatchId s" "is_resume_pending s \<or> is_hitl cur \<and> is_hitl s"
      by (rule validateSuspensionUpdate_Valid)
    have "updateSuspension i s e = e\<lparr>ex_state := Suspended s\<rparr>"
      using h id ExecutionSuspensionUpdated
      by (simp add: updateSuspension_def lifecycle_executionId_def)
    from map_matching [where f = "updateSuspension i s", OF dist e this] exec_step.update [OF h] e show ?thesis
      by (intro that) (auto simp: ExecutionSuspensionUpdated lifecycleExecutions_def
          lifecycle_executionId_def updateSuspension_def split: SessionExecutionState.splits)
  next
    case (ExecutionResumed ev')
    then have "validateResume (Some e) ev' = Valid"
      using valid e by (simp add: validateExecutionTransition_def lifecycle_executionId_def)
    then obtain cur where h: "ex_state e = Suspended cur" "is_resume_pending cur"
        "re_runOrdinal ev' = int (length (ex_runs e))"
      by (rule validateResume_Valid)
    have "resumeMatching ev' t e = e\<lparr>ex_state := Running,
          ex_runs := ex_runs e @ [OpenRun (re_runOrdinal ev') t (re_binding ev')]\<rparr>"
      using h id ExecutionResumed
      by (simp add: resumeMatching_def resumeExecution_def lifecycle_executionId_def)
    from map_matching [where f = "resumeMatching ev' t", OF dist e this] exec_step.resume [OF h] e show ?thesis
      by (intro that) (auto simp: ExecutionResumed lifecycleExecutions_def lifecycle_executionId_def
          resumeMatching_def split: SessionExecutionState.splits)
  next
    case (ExecutionEnd ev')
    have id: "ex_id e = en_executionId ev'"
      using id ExecutionEnd by (simp add: lifecycle_executionId_def)
    have "validateEnd (Some e) ev' = Valid"
      using valid e ExecutionEnd by (simp add: validateExecutionTransition_def lifecycle_executionId_def)
    then have "\<exists>e'. endMatching ev' e = Inr e' \<and> exec_step (ExecutionEnd ev') t e e'"
    proof (cases rule: validateEnd_Valid)
      case (running rs ord st b re ru rl)
      then show ?thesis
        using exec_step.end_running [OF running, of t] id
        by (simp add: endMatching_def close_run_def Let_def)
    next
      case (suspended cur)
      then show ?thesis
        using exec_step.end_suspended [OF suspended, of t] id
        by (simp add: endMatching_def Let_def)
    qed
    then obtain e' where e': "endMatching ev' e = Inr e'" "exec_step (ExecutionEnd ev') t e e'"
      by blast
    from mapE_matching [where f = "endMatching ev'", OF dist e e'(1)] e' e show ?thesis
      by (intro that) (auto simp: ExecutionEnd lifecycleExecutions_def lifecycle_executionId_def
          endExecution_def endMatching_def)
  qed
qed

section \<open>Every step keeps the invariant\<close>

lemma ordinals_snoc:
  "map run_ordinal (rs @ [r]) = map int [0..<length (rs @ [r])] \<longleftrightarrow>
     map run_ordinal rs = map int [0..<length rs] \<and> run_ordinal r = int (length rs)"
  by simp

lemma exec_step_wf: "exec_step ev t e e' \<Longrightarrow> wf_execution e \<Longrightarrow> wf_execution e'"
proof (induction rule: exec_step.induct)
  case (suspend e rs ord st b ev t)
  then show ?case
    by (auto simp: wf_execution_def state_matches_runs_def closed_well_def closed_duration_def butlast_append)
next
  case (update e cur s i t)
  then show ?case
    by (auto simp: wf_execution_def state_matches_runs_def)
next
  case (resume e cur ev t)
  then show ?case
    by (auto simp: wf_execution_def state_matches_runs_def closed_duration_def)
next
  case (end_running e rs ord st b ev re ru rl t)
  then show ?case
    by (auto simp: wf_execution_def state_matches_runs_def closed_well_def closed_duration_def butlast_append)
next
  case (end_suspended e cur ev t)
  then have runs: "ex_runs e \<noteq> []" "closed_well (last (ex_runs e))"
    by (auto simp: wf_execution_def state_matches_runs_def)
  then have "run_endedAt (last (ex_runs e)) \<le> en_endedAt ev"
    using end_suspended(5) by (auto simp: at_last_def closed_well_def)
  with end_suspended show ?case
    by (auto simp: wf_execution_def state_matches_runs_def)
qed

lemma startExecution_wf: "wf_execution (startExecution ev t)"
  by (simp add: wf_execution_def startExecution_def state_matches_runs_def closed_duration_def)

lemma exec_step_before: "exec_step ev t e e' \<Longrightarrow> unfinished e"
  by (induction rule: exec_step.induct) (simp_all add: unfinished_def)

lemma filter_replace_execution:
  assumes "distinct (map ex_id exs)" "e \<in> set exs" "ex_id e = i" "unfinished e"
  shows "length (filter unfinished (replace_execution i e' exs)) \<le> length (filter unfinished exs)"
  using assms
proof (induction exs)
  case (Cons x xs)
  have nomatch: "replace_execution i e' xs = xs" if "i \<notin> ex_id ` set xs"
    using that unfolding replace_execution_def by (intro map_idI) auto
  show ?case
  proof (cases "ex_id x = i")
    case True
    with Cons.prems have "x = e" "i \<notin> ex_id ` set xs"
      by (auto simp: image_iff)
    with nomatch Cons.prems show ?thesis
      by (simp add: replace_execution_def)
  next
    case False
    with Cons show ?thesis
      by (auto simp: replace_execution_def)
  qed
qed simp

lemma ids_replace_execution: "ex_id e' = i \<Longrightarrow> map ex_id (replace_execution i e' exs) = map ex_id exs"
  by (auto simp: replace_execution_def)

lemma wf_executions_replace:
  assumes "wf_executions exs" "find_execution exs i = Some e" "unfinished e" "wf_execution e'" "ex_id e' = i"
  shows "wf_executions (replace_execution i e' exs)"
proof -
  have d: "distinct (map ex_id exs)" using assms(1) by (simp add: wf_executions_def)
  have e: "e \<in> set exs" "ex_id e = i"
    using assms(2) find_execution_Some_iff [OF d] by simp_all
  have "\<forall>x \<in> set (replace_execution i e' exs). wf_execution x"
    using assms(1,4) by (auto simp: wf_executions_def replace_execution_def)
  then show ?thesis
    using assms(1) filter_replace_execution [OF d e assms(3), of e'] ids_replace_execution [OF assms(5)]
    by (simp add: wf_executions_def)
qed

lemma lifecycle_wf:
  assumes wf: "wf_executions exs" and valid: "validateExecutionTransition exs ev = Valid"
  shows "\<exists>exs'. lifecycleExecutions exs ev t = Inr exs' \<and> wf_executions exs'"
proof (cases "is_start ev")
  case True
  then obtain s where ev: "ev = ExecutionStart s"
    by (auto simp: is_start_def split: ExecutionLifecycleEvent.splits)
  have fresh: "find_execution exs (es_executionId s) = None" and ended: "\<forall>e \<in> set exs. is_terminal (ex_state e)"
    using start_Valid valid unfolding ev by blast+
  have "es_executionId s \<notin> ex_id ` set exs"
    using fresh by (auto simp: find_execution_def find_None_iff)
  moreover have "filter unfinished exs = []"
    using ended by (simp add: filter_empty_conv unfinished_def)
  ultimately have "wf_executions (exs @ [startExecution s t])"
    using wf startExecution_wf [of s t] by (simp add: wf_executions_def) (simp add: startExecution_def)
  then show ?thesis by (simp add: ev lifecycleExecutions_def)
next
  case False
  have d: "distinct (map ex_id exs)" using wf by (simp add: wf_executions_def)
  obtain e e' where e: "find_execution exs (lifecycle_executionId ev) = Some e" "exec_step ev t e e'"
      "lifecycleExecutions exs ev t = Inr (replace_execution (lifecycle_executionId ev) e' exs)"
    using lifecycle_refines [OF d valid False, of t] by blast
  have mem: "e \<in> set exs" "ex_id e = lifecycle_executionId ev"
    using e(1) find_execution_Some_iff [OF d] by simp_all
  then have "wf_execution e'"
    using wf exec_step_wf [OF e(2)] by (simp add: wf_executions_def)
  with wf_executions_replace [OF wf e(1) exec_step_before [OF e(2)]] exec_step_id [OF e(2)] mem e(3)
  show ?thesis by simp
qed

section \<open>Phases\<close>

datatype ExecutionPhase =
    PhaseRunning | PhaseWaiting | PhaseResumable | PhaseTerminal SessionExecutionTerminalStatus

definition phase_of :: "SessionExecutionRecord \<Rightarrow> ExecutionPhase" where
  "phase_of e = (case ex_state e of
     Running \<Rightarrow> PhaseRunning
   | Suspended s \<Rightarrow> if is_resume_pending s then PhaseResumable else PhaseWaiting
   | Terminal status _ _ _ _ \<Rightarrow> PhaseTerminal status)"

inductive phase_step :: "ExecutionPhase \<Rightarrow> ExecutionPhase \<Rightarrow> bool" where
  wait: "phase_step PhaseRunning PhaseWaiting"
| rewait: "phase_step PhaseWaiting PhaseWaiting"
| unblock: "phase_step PhaseWaiting PhaseResumable"
| continue: "phase_step PhaseResumable PhaseRunning"
| finish: "(\<forall>s. p \<noteq> PhaseTerminal s) \<Longrightarrow> phase_step p (PhaseTerminal s)"

inductive_simps phase_step_from_terminal [simp]: "phase_step (PhaseTerminal s) p"
inductive_simps phase_step_to_running [simp]: "phase_step p PhaseRunning"

lemma exec_step_phase: "exec_step ev t e e' \<Longrightarrow> phase_step (phase_of e) (phase_of e')"
proof (induction rule: exec_step.induct)
  case (end_running e rs ord st b ev re ru rl t)
  then show ?case by (auto simp: phase_of_def intro: phase_step.finish)
next
  case (end_suspended e cur ev t)
  then show ?case by (auto simp: phase_of_def intro: phase_step.finish)
qed (auto simp: phase_of_def intro: phase_step.intros)

section \<open>Replays\<close>

lemma settlementMatches_persist [simp]: "settlementMatches (persist_settlement input) input"
  by (simp add: settlementMatches_def persist_settlement_def)

lemma find_replace_execution:
  assumes "distinct (map ex_id exs)" "find_execution exs i = Some e" "ex_id e' = i"
  shows "find_execution (replace_execution i e' exs) i = Some e'"
proof -
  have "e \<in> set exs" "ex_id e = i"
    using assms find_execution_Some_iff by blast+
  then have "e' \<in> set (replace_execution i e' exs)"
    by (auto simp: replace_execution_def image_iff)
  with assms(1,3) show ?thesis
    by (subst find_execution_Some_iff) (simp_all add: ids_replace_execution)
qed

lemma exec_step_replay:
  assumes "exec_step ev t e e'" "wf_execution e" "ex_id e = lifecycle_executionId ev"
    "find_execution exs (lifecycle_executionId ev) = Some e'"
  shows "validateExecutionTransition exs ev = Duplicate"
  using assms
proof (induction rule: exec_step.induct)
  case (resume e cur ev t)
  then have "ex_runs e \<noteq> []" by (simp add: wf_execution_def)
  with resume show ?case
    by (simp add: validateExecutionTransition_def lifecycle_executionId_def validateResume_def)
next
  case (end_suspended e cur ev t)
  then show ?case
    by (simp add: validateExecutionTransition_def lifecycle_executionId_def validateEnd_def sameRunClose_def)
qed (simp_all add: validateExecutionTransition_def lifecycle_executionId_def validateSuspend_def
    validateSuspensionUpdate_def validateEnd_def sameRunClose_def)

lemma lifecycle_replay:
  assumes wf: "wf_executions exs" and valid: "validateExecutionTransition exs ev = Valid"
    and upd: "lifecycleExecutions exs ev t = Inr exs'"
  shows "validateExecutionTransition exs' ev = Duplicate"
proof (cases "is_start ev")
  case True
  then obtain s where ev: "ev = ExecutionStart s"
    by (auto simp: is_start_def split: ExecutionLifecycleEvent.splits)
  have "find_execution exs (es_executionId s) = None"
    using start_Valid valid unfolding ev by blast
  then have "find_execution (exs @ [startExecution s t]) (es_executionId s) = Some (startExecution s t)"
    by (induction exs) (auto simp: find_execution_def startExecution_def split: if_splits)
  with upd show ?thesis
    by (auto simp: ev lifecycleExecutions_def validateExecutionTransition_def lifecycle_executionId_def
        validateStart_def) (simp_all add: startExecution_def)
next
  case False
  have d: "distinct (map ex_id exs)" using wf by (simp add: wf_executions_def)
  obtain e e' where e: "find_execution exs (lifecycle_executionId ev) = Some e" "exec_step ev t e e'"
      "lifecycleExecutions exs ev t = Inr (replace_execution (lifecycle_executionId ev) e' exs)"
    using lifecycle_refines [OF d valid False, of t] by blast
  have mem: "e \<in> set exs" "ex_id e = lifecycle_executionId ev"
    using e(1) find_execution_Some_iff [OF d] by simp_all
  have "find_execution exs' (lifecycle_executionId ev) = Some e'"
    using find_replace_execution [OF d e(1)] exec_step_id [OF e(2)] mem e(3) upd by simp
  with exec_step_replay [OF e(2)] wf mem show ?thesis
    by (simp add: wf_executions_def)
qed

end
