(* ===== verification/SessionLifecycle.thy ===== *)
theory SessionLifecycle
  imports ReducerFrames ExecutionInvariant
begin

text \<open>
  The lifecycle of Executions through the reducer: the records, the running flags and the step list
  stay coherent over every log, a validated lifecycle event takes one abstract step and never
  throws, its replay is recognised, and a terminal Execution is frozen.
\<close>

section \<open>Lifecycle events and their patches\<close>

lemma onLifecycle_executions:
  "onLifecycle s e t = Inr p \<Longrightarrow> \<exists>exs. lifecycleExecutions (executions s) e t = Inr exs \<and> p_executions p = Some exs"
  by (cases e) (auto simp: lifecycleExecutions_def case_defs bindE_Inr_iff Let_def)

lemma onLifecycle_total:
  "lifecycleExecutions (executions s) e t = Inr exs \<Longrightarrow> \<exists>p. onLifecycle s e t = Inr p \<and> p_executions p = Some exs"
  by (cases e) (auto simp: lifecycleExecutions_def case_defs bindE_Inr_iff Let_def)

lemma reduceLifecycle_cases:
  assumes "reduceLifecycle s e t = Inr p"
  obtains "p = no_patch"
  | exs where "validateExecutionTransition (executions s) e = Valid" "final_output_ok s e"
      "onLifecycle s e t = Inr p" "lifecycleExecutions (executions s) e t = Inr exs" "p_executions p = Some exs"
proof (cases "p = no_patch")
  case True
  then show ?thesis using that(1) by blast
next
  case False
  with assms have h: "validateExecutionTransition (executions s) e = Valid" "final_output_ok s e"
      "onLifecycle s e t = Inr p"
    by (auto simp: reduceLifecycle_def split: if_splits)
  with onLifecycle_executions [OF h(3)] show ?thesis
    using that(2) by blast
qed

section \<open>Stop requests\<close>

lemma requestStop_fields [simp]:
  "ex_id (requestStop i t e) = ex_id e" "ex_state (requestStop i t e) = ex_state e"
  "ex_runs (requestStop i t e) = ex_runs e" "ex_durationMs (requestStop i t e) = ex_durationMs e"
  by (simp_all add: requestStop_def)

lemma requestStop_unfinished [simp]: "unfinished (requestStop i t e) = unfinished e"
  by (simp add: unfinished_def)

lemma requestStop_wf_execution [simp]: "wf_execution (requestStop i t e) = wf_execution e"
  by (simp add: wf_execution_def)

lemma requestStop_wf: "wf_executions exs \<Longrightarrow> wf_executions (map (requestStop i t) exs)"
  by (simp add: wf_executions_def filter_map comp_def)

lemma patch_executions:
  assumes "reduceStreamEvent lc s ev ctx = Inr p" "p_executions p = Some exs"
  shows "(\<exists>e. ev = Lifecycle e \<and> validateExecutionTransition (executions s) e = Valid
            \<and> onLifecycle s e (rc_timestamp ctx) = Inr p
            \<and> lifecycleExecutions (executions s) e (rc_timestamp ctx) = Inr exs)
       \<or> (\<exists>i t. ev = StopRequested i t \<and> exs = map (requestStop i t) (executions s))"
proof (cases "touches_executions ev")
  case False
  then show ?thesis
    using frame_executions [OF assms(1)] assms(2) by simp
next
  case True
  then consider (l) e where "ev = Lifecycle e" | (st) i t where "ev = StopRequested i t"
    by (cases ev) auto
  then show ?thesis
  proof cases
    case l
    with assms show ?thesis
      by (auto elim!: reduceLifecycle_cases)
  next
    case st
    with assms show ?thesis
      by (auto simp: onStopRequested_def split: if_splits)
  qed
qed

lemma patch_executions_wf:
  assumes "wf_executions (executions s)" "reduceStreamEvent lc s ev ctx = Inr p"
  shows "wf_executions (present (p_executions p) (executions s))"
proof (cases "p_executions p")
  case None
  with assms show ?thesis by simp
next
  case (Some exs)
  from patch_executions [OF assms(2) this] have "wf_executions exs"
  proof (elim disjE exE conjE)
    fix e
    assume "validateExecutionTransition (executions s) e = Valid"
      and "lifecycleExecutions (executions s) e (rc_timestamp ctx) = Inr exs"
    then show ?thesis
      using lifecycle_wf [OF assms(1), of e "rc_timestamp ctx"] by simp
  next
    fix i t
    assume "exs = map (requestStop i t) (executions s)"
    then show ?thesis
      using requestStop_wf [OF assms(1)] by simp
  qed
  with Some show ?thesis by simp
qed

interpretation execution_log: log_invariant "reduce_step lc" "\<lambda>_ _. True" "\<lambda>s. wf_executions (executions s)"
  for lc
  by unfold_locales (auto simp: reduce_step_def bindE_Inr_iff patch_executions_wf)

section \<open>Coherence of the running flags\<close>

definition session_coherent :: "SessionProjection \<Rightarrow> bool" where
  "session_coherent s \<longleftrightarrow> wf_executions (executions s)
     \<and> executionCount s = int (length (executions s))
     \<and> (isRunning s \<longleftrightarrow> (\<exists>e \<in> set (executions s). ex_state e = Running))
     \<and> (\<forall>i. currentExecutionId s = Some i \<longleftrightarrow> (\<exists>e \<in> set (executions s). ex_id e = i \<and> unfinished e))"

lemma sole_unfinished:
  assumes "length (filter unfinished exs) \<le> 1" "e \<in> set exs" "unfinished e" "x \<in> set exs" "unfinished x"
  shows "x = e"
proof -
  have "e \<in> set (filter unfinished exs)" "x \<in> set (filter unfinished exs)"
    using assms by auto
  with assms(1) show ?thesis
    by (cases "filter unfinished exs") auto
qed

text \<open>After one step of an unfinished Execution, only that Execution can be unfinished.\<close>

lemma unfinished_after:
  assumes wf: "wf_executions exs" and e: "find_execution exs i = Some e" "unfinished e"
    and id: "ex_id e' = i" and x: "x \<in> set (replace_execution i e' exs)" "unfinished x"
  shows "x = e'"
proof -
  have d: "distinct (map ex_id exs)" and l: "length (filter unfinished exs) \<le> 1"
    using wf by (simp_all add: wf_executions_def)
  have mem: "e \<in> set exs" "ex_id e = i"
    using e(1) find_execution_Some_iff [OF d] by simp_all
  from x(1) obtain y where y: "y \<in> set exs" "x = (if ex_id y = i then e' else y)"
    by (auto simp: replace_execution_def)
  show ?thesis
  proof (cases "ex_id y = i")
    case False
    with y x(2) have "unfinished y" by simp
    with sole_unfinished [OF l mem(1) e(2) y(1)] mem(2) False show ?thesis by simp
  qed (use y in simp)
qed

lemma mem_replace_execution:
  assumes "distinct (map ex_id exs)" "find_execution exs i = Some e"
  shows "e' \<in> set (replace_execution i e' exs)"
  using assms find_execution_Some_iff [OF assms(1)] by (force simp: replace_execution_def)

lemma length_replace_execution [simp]: "length (replace_execution i e' exs) = length exs"
  by (simp add: replace_execution_def)

lemma onLifecycle_flags:
  assumes "onLifecycle s ev t = Inr p" "exec_step ev t e e'" "ex_id e = lifecycle_executionId ev"
    "p_executions p = Some exs" "length exs = length (executions s)"
  shows "present (p_executionCount p) (int (length (executions s))) = int (length exs)"
    and "present (p_isRunning p) (ex_state e = Running) = (ex_state e' = Running)"
    and "present (p_currentExecutionId p) (Some (ex_id e)) = (if unfinished e' then Some (ex_id e) else None)"
  using assms(2,1,3,4,5)
  by (induction rule: exec_step.induct;
      auto simp: case_defs lifecycle_executionId_def bindE_Inr_iff Let_def unfinished_def)+

lemma coherent_start:
  assumes "wf_executions (executions s')" "executions s' = xs @ [n]"
    "executionCount s' = int (length (executions s'))" "isRunning s'"
    "currentExecutionId s' = Some (ex_id n)" "ex_state n = Running" "\<forall>x \<in> set xs. is_terminal (ex_state x)"
  shows "session_coherent s'"
  using assms by (auto simp: session_coherent_def unfinished_def)

lemma coherent_step:
  assumes co: "session_coherent s" and step: "reduceStreamEvent lc s ev ctx = Inr p"
  shows "session_coherent (apply_patch s p)"
proof -
  have wf: "wf_executions (executions s)" using co by (simp add: session_coherent_def)
  then have d: "distinct (map ex_id (executions s))" and l1: "length (filter unfinished (executions s)) \<le> 1"
    by (simp_all add: wf_executions_def)
  have wf': "wf_executions (executions (apply_patch s p))"
    using patch_executions_wf [OF wf step] by simp
  show ?thesis
  proof (cases "p_executions p")
    case None
    then have "p_isRunning p = None \<and> p_executionCount p = None \<and> p_currentExecutionId p = None"
      using frame_running [OF step] step
      by (cases "is_lifecycle ev") (auto elim!: reduceLifecycle_cases is_lifecycle.elims)
    with None co show ?thesis by (simp add: session_coherent_def)
  next
    case (Some exs)
    from patch_executions [OF step this] consider
        (life) e where "ev = Lifecycle e" "validateExecutionTransition (executions s) e = Valid"
          "onLifecycle s e (rc_timestamp ctx) = Inr p"
          "lifecycleExecutions (executions s) e (rc_timestamp ctx) = Inr exs"
      | (stop) i t where "ev = StopRequested i t" "exs = map (requestStop i t) (executions s)"
      by blast
    then show ?thesis
    proof cases
      case stop
      then have "p_isRunning p = None \<and> p_executionCount p = None \<and> p_currentExecutionId p = None"
        using frame_running [OF step] by simp
      with stop Some co wf' show ?thesis
        by (auto simp: session_coherent_def)
    next
      case life
      let ?t = "rc_timestamp ctx" and ?i = "lifecycle_executionId e"
      show ?thesis
      proof (cases "is_start e")
        case True
        then obtain ev' where ev': "e = ExecutionStart ev'"
          by (auto simp: is_start_def split: ExecutionLifecycleEvent.splits)
        have done_all: "\<forall>x \<in> set (executions s). is_terminal (ex_state x)"
          using start_Valid(2) life(2) unfolding ev' by blast
        from life ev' have p: "p = onExecutionStart s ev' ?t" by simp
        show ?thesis
          by (rule coherent_start [where xs = "executions s" and n = "startExecution ev' ?t"])
            (use wf' done_all in \<open>simp_all add: p onExecutionStart_def Let_def startExecution_def\<close>)
      next
        case False
        obtain x x' where x: "find_execution (executions s) ?i = Some x" "exec_step e ?t x x'"
            "lifecycleExecutions (executions s) e ?t = Inr (replace_execution ?i x' (executions s))"
          using lifecycle_refines [OF d life(2) False, of ?t] by blast
        have mem: "x \<in> set (executions s)" "ex_id x = ?i"
          using x(1) find_execution_Some_iff [OF d] by simp_all
        have unf: "unfinished x" using exec_step_before [OF x(2)] .
        have id': "ex_id x' = ?i" using exec_step_id [OF x(2)] mem(2) by simp
        have exs: "exs = replace_execution ?i x' (executions s)"
          using life(4) x(3) by simp
        have x'mem: "x' \<in> set exs"
          using mem_replace_execution [OF d x(1)] exs by simp
        have only: "y = x'" if "y \<in> set exs" "unfinished y" for y
          using unfinished_after [OF wf x(1) unf id'] that exs by blast
        have running: "isRunning s = (ex_state x = Running)"
          using co mem(1) sole_unfinished [OF l1 mem(1) unf] by (auto simp: session_coherent_def unfinished_def)
        have cur: "currentExecutionId s = Some (ex_id x)"
          using co mem(1) unf by (auto simp: session_coherent_def)
        note fl = onLifecycle_flags [OF life(3) x(2) mem(2) Some, simplified exs length_replace_execution]
        have "isRunning (apply_patch s p) \<longleftrightarrow> (\<exists>y \<in> set exs. ex_state y = Running)"
          using fl(2) running x'mem only by (auto simp: unfinished_def)
        moreover have "(\<exists>y \<in> set exs. ex_id y = j \<and> unfinished y) \<longleftrightarrow> unfinished x' \<and> ex_id x' = j" for j
          using x'mem only by blast
        then have "currentExecutionId (apply_patch s p) = Some j \<longleftrightarrow> (\<exists>y \<in> set exs. ex_id y = j \<and> unfinished y)" for j
          using fl(3) cur id' mem(2) by simp
        moreover have "executionCount (apply_patch s p) = int (length exs)"
          using fl(1) co exs by (simp add: session_coherent_def)
        ultimately show ?thesis
          using wf' Some by (simp add: session_coherent_def)
      qed
    qed
  qed
qed

interpretation coherent_log: log_invariant "reduce_step lc" "\<lambda>_ _. True" session_coherent
  for lc
  by unfold_locales (auto simp: reduce_step_def bindE_Inr_iff coherent_step)

section \<open>A terminal Execution is frozen\<close>

text \<open>Only the time of a stop request may still be recorded on it.\<close>

definition same_but_stop :: "SessionExecutionRecord \<Rightarrow> SessionExecutionRecord \<Rightarrow> bool" where
  "same_but_stop e e' \<longleftrightarrow> e'\<lparr>ex_stopRequestedAt := None\<rparr> = e\<lparr>ex_stopRequestedAt := None\<rparr>"

lemma same_but_stop_fields:
  assumes "same_but_stop e e'"
  shows "ex_id e' = ex_id e" "ex_state e' = ex_state e" "ex_runs e' = ex_runs e"
    "ex_durationMs e' = ex_durationMs e"
  using assms unfolding same_but_stop_def by (cases e, cases e', simp)+

lemma same_but_stop_refl [simp]: "same_but_stop e e"
  by (simp add: same_but_stop_def)

lemma same_but_stop_trans: "same_but_stop a b \<Longrightarrow> same_but_stop b c \<Longrightarrow> same_but_stop a c"
  by (simp add: same_but_stop_def)

lemma same_but_stop_request [simp]: "same_but_stop e (requestStop i t e)"
  by (simp add: same_but_stop_def requestStop_def)

definition holds_terminal :: "SessionExecutionRecord \<Rightarrow> SessionProjection \<Rightarrow> bool" where
  "holds_terminal e s \<longleftrightarrow> wf_executions (executions s) \<and> is_terminal (ex_state e)
     \<and> (\<exists>e' \<in> set (executions s). same_but_stop e e')"

lemma lifecycle_keeps_terminal:
  assumes wf: "wf_executions exs" and valid: "validateExecutionTransition exs ev = Valid"
    and upd: "lifecycleExecutions exs ev t = Inr exs'" and e: "e \<in> set exs" "is_terminal (ex_state e)"
  shows "e \<in> set exs'"
proof (cases "is_start ev")
  case True
  then show ?thesis
    using upd e by (auto simp: is_start_def lifecycleExecutions_def split: ExecutionLifecycleEvent.splits)
next
  case False
  have d: "distinct (map ex_id exs)" using wf by (simp add: wf_executions_def)
  obtain x x' where x: "find_execution exs (lifecycle_executionId ev) = Some x" "exec_step ev t x x'"
      "lifecycleExecutions exs ev t = Inr (replace_execution (lifecycle_executionId ev) x' exs)"
    using lifecycle_refines [OF d valid False, of t] by blast
  have "ex_id e \<noteq> lifecycle_executionId ev"
  proof
    assume "ex_id e = lifecycle_executionId ev"
    then have "e = x" using unique_execution [OF d x(1) e(1)] by blast
    with exec_step_before [OF x(2)] e(2) show False by (simp add: unfinished_def)
  qed
  with e(1) x(3) upd show ?thesis
    by (force simp: replace_execution_def)
qed

lemma holds_terminal_step:
  assumes "holds_terminal e s" "reduceStreamEvent lc s ev ctx = Inr p"
  shows "holds_terminal e (apply_patch s p)"
proof -
  from assms(1) obtain e' where wf: "wf_executions (executions s)" and t: "is_terminal (ex_state e)"
    and e': "e' \<in> set (executions s)" "same_but_stop e e'"
    by (auto simp: holds_terminal_def)
  have t': "is_terminal (ex_state e')" using t same_but_stop_fields(2) [OF e'(2)] by simp
  have "\<exists>x \<in> set (present (p_executions p) (executions s)). same_but_stop e x"
  proof (cases "p_executions p")
    case None
    with e' show ?thesis by auto
  next
    case (Some exs)
    from patch_executions [OF assms(2) this] show ?thesis
    proof (elim disjE exE conjE)
      fix l
      assume "validateExecutionTransition (executions s) l = Valid"
        and "lifecycleExecutions (executions s) l (rc_timestamp ctx) = Inr exs"
      from lifecycle_keeps_terminal [OF wf this e'(1) t'] e'(2) Some show ?thesis by auto
    next
      fix i t
      assume "exs = map (requestStop i t) (executions s)"
      with e' Some show ?thesis
        using same_but_stop_trans [OF e'(2) same_but_stop_request] by auto
    qed
  qed
  with patch_executions_wf [OF wf assms(2)] t show ?thesis
    by (simp add: holds_terminal_def)
qed

interpretation terminal_log: log_invariant "reduce_step lc" "\<lambda>_ _. True" "holds_terminal e"
  for lc e
  by unfold_locales (auto simp: reduce_step_def bindE_Inr_iff holds_terminal_step)

section \<open>Properties\<close>

text \<open>
  C2: Folding any log of events into a Session keeps its Execution records well formed: the
  identifiers are distinct, at most one Execution is unfinished, every Execution has a non-empty
  history of runs numbered 0, 1, 2, ... whose closed durations add up to the duration of the record,
  and the state matches the runs (the last run is open exactly while it is running).
\<close>
theorem log_keeps_executions_wf:
  assumes "wf_executions (executions s)" "run_log (reduce_step lc) s es = Inr s'"
  shows "wf_executions (executions s')"
  using execution_log.run_inv_events [OF assms(1) _ assms(2)] by simp

text \<open>
  C3: Over every log, the flags of a Session stay coherent with its Execution records:
  \<open>executionCount\<close> is their number, \<open>isRunning\<close> holds exactly when one of them is running, and
  \<open>currentExecutionId\<close> names exactly the one that is not terminal.
\<close>
theorem log_keeps_coherence:
  assumes "session_coherent s" "run_log (reduce_step lc) s es = Inr s'"
  shows "session_coherent s'"
  using coherent_log.run_inv_events [OF assms(1) _ assms(2)] by simp

text \<open>
  C23: An Execution that has become terminal stays in the Session after every log, with its state,
  runs, settlements and duration unchanged; only the time of a stop request may still be recorded.
\<close>
theorem terminal_execution_frozen:
  assumes "wf_executions (executions s)" "e \<in> set (executions s)" "is_terminal (ex_state e)"
    and "run_log (reduce_step lc) s es = Inr s'"
  shows "\<exists>e' \<in> set (executions s'). same_but_stop e e'"
proof -
  have "holds_terminal e s"
    using assms(1-3) same_but_stop_refl [of e] unfolding holds_terminal_def by blast
  from terminal_log.run_inv_events [OF this _ assms(4)] show ?thesis
    by (simp add: holds_terminal_def)
qed

text \<open>
  C22: A lifecycle event (other than a start) that the validator accepts is reduced without an
  exception, and its effect on the records is one step of the abstract Execution relation on the
  Execution it names, which moves that Execution along the phase diagram and leaves every other
  record unchanged.
\<close>
theorem lifecycle_event_refines:
  assumes "wf_executions (executions s)" "validateExecutionTransition (executions s) e = Valid"
    and "final_output_ok s e" "\<not> is_start e"
  shows "\<exists>p x x'. reduceStreamEvent lc s (Lifecycle e) ctx = Inr p
    \<and> find_execution (executions s) (lifecycle_executionId e) = Some x
    \<and> exec_step e (rc_timestamp ctx) x x' \<and> phase_step (phase_of x) (phase_of x')
    \<and> executions (apply_patch s p)
        = replace_execution (lifecycle_executionId e) x' (executions s)"
proof -
  have d: "distinct (map ex_id (executions s))" using assms(1) by (simp add: wf_executions_def)
  obtain x x' where x: "find_execution (executions s) (lifecycle_executionId e) = Some x"
      "exec_step e (rc_timestamp ctx) x x'"
      "lifecycleExecutions (executions s) e (rc_timestamp ctx)
        = Inr (replace_execution (lifecycle_executionId e) x' (executions s))"
    using lifecycle_refines [OF d assms(2,4), of "rc_timestamp ctx"] by blast
  obtain p where p: "onLifecycle s e (rc_timestamp ctx) = Inr p"
      "p_executions p = Some (replace_execution (lifecycle_executionId e) x' (executions s))"
    using onLifecycle_total [OF x(3)] by blast
  then have "reduceStreamEvent lc s (Lifecycle e) ctx = Inr p"
    using assms(2,3) by (simp add: reduceLifecycle_def)
  with x p exec_step_phase [OF x(2)] show ?thesis by auto
qed

text \<open>
  Lifecycle events are idempotent: reducing the same event a second time, at any later clock,
  changes nothing, whether it was accepted, rejected or a duplicate the first time.
\<close>
theorem lifecycle_event_idempotent:
  assumes "wf_executions (executions s)" "reduceStreamEvent lc s (Lifecycle e) ctx = Inr p"
  shows "reduceStreamEvent lc (apply_patch s p) (Lifecycle e) ctx' = Inr no_patch"
proof -
  from assms(2) have r: "reduceLifecycle s e (rc_timestamp ctx) = Inr p" by simp
  show ?thesis
  proof (cases "validateExecutionTransition (executions s) e = Valid \<and> final_output_ok s e")
    case False
    with r have "p = no_patch" by (auto simp: reduceLifecycle_def split: if_splits)
    with False show ?thesis by (auto simp: reduceLifecycle_def)
  next
    case True
    with r have "onLifecycle s e (rc_timestamp ctx) = Inr p"
      by (simp add: reduceLifecycle_def)
    then obtain exs where exs: "lifecycleExecutions (executions s) e (rc_timestamp ctx) = Inr exs"
        "p_executions p = Some exs"
      using onLifecycle_executions by blast
    with lifecycle_replay [OF assms(1) _ exs(1)] True show ?thesis
      by (simp add: reduceLifecycle_def)
  qed
qed

text \<open>
  C24: On a Session with well-formed records the reducer throws for two kinds of event only, the
  start of a tool input and a tool call, and then only because the Session has no current Assistant
  message of a model step.
\<close>
theorem reducer_throws_only_without_assistant:
  assumes "wf_executions (executions s)" "reduceStreamEvent lc s ev ctx = Inl err"
  shows "(\<exists>c n. ev = ToolInputStart c n \<or> (\<exists>i. ev = ToolCall c n i))
    \<and> \<not> (\<exists>i m. currentAssistantMessageId s = Some i \<and> i \<noteq> [] \<and> m \<in> set (messages s) \<and> is_message i m)"
proof -
  have tool: "\<not> (\<exists>i m. currentAssistantMessageId s = Some i \<and> i \<noteq> [] \<and> m \<in> set (messages s) \<and> is_message i m)"
    if "ensureCurrentAssistantMessage s = Inl err" for err
    using that
    by (auto simp: ensureCurrentAssistantMessage_def find_None_iff split: option.splits if_splits SessionMessage.splits
        dest: find_SomeD)
  have life: "reduceLifecycle s e t \<noteq> Inl err" for e t
  proof
    assume l: "reduceLifecycle s e t = Inl err"
    then have "validateExecutionTransition (executions s) e = Valid" "onLifecycle s e t = Inl err"
      by (auto simp: reduceLifecycle_def split: if_splits)
    with lifecycle_wf [OF assms(1), of e t] onLifecycle_total [of s e t] show False
      by auto
  qed
  have rem: "onReminder s r \<noteq> Inl err" for r
    using isSubAgentReminder_iff [of r] by (auto simp: onReminder_def split: if_splits)
  have bindL: "bindE r f = Inl err \<Longrightarrow> (\<And>x. f x \<noteq> Inl err) \<Longrightarrow> r = Inl err" for r and f :: "AssistantMessageResult \<Rightarrow> js_error + SessionProjectionPatch"
    by (cases r) auto
  show ?thesis
  proof (cases ev)
    case (ToolInputStart c n)
    then have "ensureCurrentAssistantMessage s = Inl err"
      using assms(2) by (auto simp: onToolInputStart_def Let_def dest!: bindL split: if_splits)
    with tool ToolInputStart show ?thesis by blast
  next
    case (ToolCall c n i)
    then have "ensureCurrentAssistantMessage s = Inl err"
      using assms(2) by (auto simp: onToolCall_def Let_def dest!: bindL split: if_splits option.splits)
    with tool ToolCall show ?thesis by blast
  qed (use assms(2) life rem in auto)
qed

end
