(* ===== verification/SessionSteps.thy ===== *)
theory SessionSteps
  imports SessionLifecycle
begin

text \<open>
  Model steps and the counters: every step belongs to a recorded run, step identifiers are unique,
  and the step counters and the token usage of a Session are what its step list adds up to.
\<close>

section \<open>Steps belong to runs\<close>

lemma current_run_recorded:
  assumes "wf_executions (executions s)" "current_run s = Some (i, ord)"
  shows "\<exists>e \<in> set (executions s). ex_id e = i \<and> 0 \<le> ord \<and> ord < int (length (ex_runs e))"
proof -
  from assms(2) obtain e r where e: "find (\<lambda>e. ex_id e = i) (executions s) = Some e"
      "at_last (ex_runs e) = Some r" "ord = run_ordinal r"
    by (auto simp: current_run_def currentRunOrdinal_def split: option.splits)
  have mem: "e \<in> set (executions s)" "ex_id e = i"
    using e(1) by (auto dest: find_SomeD)
  then have ords: "map run_ordinal (ex_runs e) = map int [0..<length (ex_runs e)]"
    using assms(1) by (simp add: wf_executions_def wf_execution_def)
  have "ord \<in> set (map run_ordinal (ex_runs e))"
    using e(2,3) by (auto simp: at_last_Some_iff)
  then show ?thesis
    using mem unfolding ords by auto
qed

definition steps_recorded :: "SessionProjection \<Rightarrow> bool" where
  "steps_recorded s \<longleftrightarrow> wf_executions (executions s) \<and> distinct (map sp_id (steps s))
     \<and> (\<forall>st \<in> set (steps s). \<exists>e \<in> set (executions s).
          ex_id e = sp_executionId st \<and> 0 \<le> sp_runOrdinal st \<and> sp_runOrdinal st < int (length (ex_runs e)))"

lemma exec_step_runs: "exec_step ev t e e' \<Longrightarrow> length (ex_runs e) \<le> length (ex_runs e')"
  by (induction rule: exec_step.induct) simp_all

lemma executions_grow:
  assumes wf: "wf_executions (executions s)" and step: "reduceStreamEvent lc s ev ctx = Inr p"
    and e: "e \<in> set (executions s)"
  shows "\<exists>e' \<in> set (present (p_executions p) (executions s)).
    ex_id e' = ex_id e \<and> length (ex_runs e) \<le> length (ex_runs e')"
proof (cases "p_executions p")
  case None
  with e show ?thesis by auto
next
  case (Some exs)
  from patch_executions [OF step this] consider
      (life) l where "validateExecutionTransition (executions s) l = Valid"
        "lifecycleExecutions (executions s) l (rc_timestamp ctx) = Inr exs"
    | (stop) i t where "exs = map (requestStop i t) (executions s)"
    by blast
  then show ?thesis
  proof cases
    case stop
    with e Some show ?thesis by auto
  next
    case life
    have d: "distinct (map ex_id (executions s))" using wf by (simp add: wf_executions_def)
    show ?thesis
    proof (cases "is_start l")
      case True
      then show ?thesis
        using life e Some by (auto simp: is_start_def lifecycleExecutions_def split: ExecutionLifecycleEvent.splits)
    next
      case False
      obtain x x' where x: "find_execution (executions s) (lifecycle_executionId l) = Some x"
          "exec_step l (rc_timestamp ctx) x x'"
          "lifecycleExecutions (executions s) l (rc_timestamp ctx)
            = Inr (replace_execution (lifecycle_executionId l) x' (executions s))"
        using lifecycle_refines [OF d life(1) False, of "rc_timestamp ctx"] by blast
      have exs: "exs = replace_execution (lifecycle_executionId l) x' (executions s)"
        using x(3) life(2) by simp
      show ?thesis
      proof (cases "ex_id e = lifecycle_executionId l")
        case True
        then have "e = x" using unique_execution [OF d x(1) e] by blast
        then show ?thesis
          using exec_step_runs [OF x(2)] exec_step_id [OF x(2)] mem_replace_execution [OF d x(1), of x'] Some exs
          by auto
      next
        case False
        with e exs Some show ?thesis by (force simp: replace_execution_def)
      qed
    qed
  qed
qed

lemma patch_steps:
  assumes "reduceStreamEvent lc s ev ctx = Inr p" "p_steps p = Some sts"
  obtains (start) i n ord x where "ev = StepStart i n" "current_run s = Some (x, ord)"
      "i \<notin> sp_id ` set (steps s)"
      "sts = steps s @ [\<lparr> sp_id = i, sp_step = n, sp_executionId = x, sp_runOrdinal = ord,
          sp_startedAt = rc_timestamp ctx, sp_completedAt = None, sp_finishReason = None,
          sp_usage = None, sp_error = None \<rparr>]"
      "p_stats p = Some (incrementStepStarted (stats s))"
  | (finish) i n f u x ord where "ev = StepEnd i n f u"
      "\<exists>st \<in> set (steps s). ends_step i n x ord st"
      "sts = map (\<lambda>st. if ends_step i n x ord st
         then st\<lparr>sp_completedAt := Some (rc_timestamp ctx), sp_finishReason := Some f,
                 sp_usage := Some (normalizeUsage u)\<rparr> else st) (steps s)"
      "p_stats p = Some (incrementStepCompleted (stats s) (normalizeUsage u))"
  | (failed) i err where "sts = map (\<lambda>st. if sp_id st = i then st\<lparr>sp_error := Some err\<rparr> else st) (steps s)"
      "p_stats p = None"
proof (cases "touches_steps ev")
  case False
  then show ?thesis using frame_steps [OF assms(1)] assms(2) by simp
next
  case True
  then consider (a) i n where "ev = StepStart i n" | (b) i n f u where "ev = StepEnd i n f u"
    | (c) e r where "ev = ExecutionError e r"
    by (cases ev) auto
  then show ?thesis
  proof cases
    case a
    with assms obtain x ord where "current_run s = Some (x, ord)"
      by (auto simp: onStepStart_def split: option.splits)
    with a assms show ?thesis
      by (intro start [of i n x ord]) (auto simp: onStepStart_def Let_def split: if_splits)
  next
    case b
    with assms show ?thesis
      by (auto simp: onStepEnd_def Let_def split: option.splits if_splits intro: finish)
  next
    case c
    with assms obtain i where "sts = map (\<lambda>st. if sp_id st = i then st\<lparr>sp_error := Some e\<rparr> else st) (steps s)"
      by (auto simp: onExecutionError_def simp del: map_eq_conv split: option.splits if_splits)
    moreover have "p_stats p = None"
      using c assms other_stats by auto
    ultimately show ?thesis by (rule failed)
  qed
qed

lemma map_if_same:
  "(\<And>x. k (f x) = k x) \<Longrightarrow> map k (map (\<lambda>x. if P x then f x else x) xs) = map k xs"
  by (induction xs) auto

lemma steps_recorded_step:
  assumes inv: "steps_recorded s" and step: "reduceStreamEvent lc s ev ctx = Inr p"
  shows "steps_recorded (apply_patch s p)"
proof -
  have wf: "wf_executions (executions s)" using inv by (simp add: steps_recorded_def)
  have keep: "\<exists>e \<in> set (present (p_executions p) (executions s)).
      ex_id e = x \<and> 0 \<le> ord \<and> ord < int (length (ex_runs e))"
    if "\<exists>e \<in> set (executions s). ex_id e = x \<and> 0 \<le> ord \<and> ord < int (length (ex_runs e))" for x ord
    using that executions_grow [OF wf step] by fastforce
  have "distinct (map sp_id (present (p_steps p) (steps s)))
      \<and> (\<forall>st \<in> set (present (p_steps p) (steps s)). \<exists>e \<in> set (executions s).
           ex_id e = sp_executionId st \<and> 0 \<le> sp_runOrdinal st \<and> sp_runOrdinal st < int (length (ex_runs e)))"
  proof (cases "p_steps p")
    case None
    with inv show ?thesis by (simp add: steps_recorded_def)
  next
    case (Some sts)
    from step this show ?thesis
    proof (cases rule: patch_steps)
      case (start i n ord x)
      with inv Some current_run_recorded [OF wf start(2)] show ?thesis
        by (auto simp: steps_recorded_def)
    next
      case (finish i n f u x ord)
      have "map sp_id sts = map sp_id (steps s)" by (simp add: finish(3) map_if_same)
      then have "distinct (map sp_id sts)" using inv by (simp add: steps_recorded_def)
      moreover have "\<forall>y \<in> set sts. \<exists>st \<in> set (steps s).
          sp_executionId y = sp_executionId st \<and> sp_runOrdinal y = sp_runOrdinal st"
        unfolding finish(3) by auto
      ultimately show ?thesis using inv Some by (fastforce simp: steps_recorded_def)
    next
      case (failed i err)
      have "map sp_id sts = map sp_id (steps s)" by (simp add: failed(1) map_if_same)
      then have "distinct (map sp_id sts)" using inv by (simp add: steps_recorded_def)
      moreover have "\<forall>y \<in> set sts. \<exists>st \<in> set (steps s).
          sp_executionId y = sp_executionId st \<and> sp_runOrdinal y = sp_runOrdinal st"
        unfolding failed(1) by auto
      ultimately show ?thesis using inv Some by (fastforce simp: steps_recorded_def)
    qed
  qed
  with keep patch_executions_wf [OF wf step] show ?thesis
    by (simp add: steps_recorded_def)
qed

section \<open>The counters add up\<close>

definition step_usage :: "SessionStep \<Rightarrow> NormalizedUsage" where
  "step_usage st = (case sp_usage st of None \<Rightarrow> EMPTY_USAGE | Some u \<Rightarrow> u)"

definition total_usage :: "SessionStep list \<Rightarrow> NormalizedUsage" where
  "total_usage sts = foldr (\<lambda>st. addUsage (step_usage st)) sts EMPTY_USAGE"

definition step_closed :: "SessionStep \<Rightarrow> bool" where
  "step_closed st \<longleftrightarrow> sp_completedAt st \<noteq> None"

definition steps_accounted :: "SessionProjection \<Rightarrow> bool" where
  "steps_accounted s \<longleftrightarrow> distinct (map sp_id (steps s))
     \<and> ss_started (stats_steps (stats s)) = int (length (steps s))
     \<and> ss_completed (stats_steps (stats s)) = int (length (filter step_closed (steps s)))
     \<and> stats_usage (stats s) = total_usage (steps s)
     \<and> (\<forall>st \<in> set (steps s). (sp_usage st = None \<longleftrightarrow> sp_completedAt st = None) \<and> sp_completedAt st \<noteq> Some 0)"

lemma total_usage_append: "total_usage (xs @ ys) = addUsage (total_usage xs) (total_usage ys)"
  by (induction xs) (simp_all add: total_usage_def addUsage_empty addUsage_assoc)

lemma total_usage_map: "(\<And>x. step_usage (g x) = step_usage x) \<Longrightarrow> total_usage (map g sts) = total_usage sts"
  by (induction sts) (simp_all add: total_usage_def)

lemma addUsage_left_commute: "addUsage a (addUsage b c) = addUsage b (addUsage a c)"
  by (metis addUsage_assoc addUsage_commute)

text \<open>Closing the one step with an identifier adds its usage and one completed step.\<close>

lemma close_one_step:
  assumes "distinct (map sp_id sts)" "st \<in> set sts" "P st"
    and ids: "\<And>x. P x \<Longrightarrow> sp_id x = i"
    and f: "\<And>x. sp_usage (f x) = Some u" "\<And>x. step_closed (f x)"
    and opened: "sp_usage st = None" "\<not> step_closed st"
  shows "total_usage (map (\<lambda>x. if P x then f x else x) sts) = addUsage (total_usage sts) u
    \<and> length (filter step_closed (map (\<lambda>x. if P x then f x else x) sts)) = Suc (length (filter step_closed sts))"
proof -
  obtain as bs where split: "sts = as @ st # bs"
    using assms(2) by (meson split_list)
  have "\<not> P x" if "x \<in> set as \<union> set bs" for x
    using that assms(1,3) ids split by (force simp: image_iff)
  then have mapid: "map (\<lambda>x. if P x then f x else x) as = as" "map (\<lambda>x. if P x then f x else x) bs = bs"
    by (simp_all add: map_idI)
  have "step_usage (f st) = u" "step_usage st = EMPTY_USAGE"
    using f(1) opened(1) by (simp_all add: step_usage_def)
  then have cons: "total_usage (f st # bs) = addUsage u (total_usage bs)" "total_usage (st # bs) = total_usage bs"
    by (simp_all add: total_usage_def addUsage_empty)
  show ?thesis
    using assms(3) f(2) opened(2) by (simp add: split mapid total_usage_append cons addUsage_assoc addUsage_commute addUsage_left_commute)
qed

lemma steps_accounted_step:
  assumes inv: "steps_accounted s" and t: "rc_timestamp ctx \<noteq> 0"
    and step: "reduceStreamEvent lc s ev ctx = Inr p"
  shows "steps_accounted (apply_patch s p)"
proof (cases "p_steps p")
  case None
  then have "\<not> is_step_event ev \<or> p_stats p = None"
    using step by (cases ev) (auto simp: onStepStart_def onStepEnd_def Let_def split: option.splits if_splits)
  then have "stats_steps (present (p_stats p) (stats s)) = stats_steps (stats s)
      \<and> stats_usage (present (p_stats p) (stats s)) = stats_usage (stats s)"
    using patch_content_step [OF step] by (cases "p_stats p") (auto simp: content_step_def)
  with None inv show ?thesis by (simp add: steps_accounted_def)
next
  case (Some sts)
  from step this show ?thesis
  proof (cases rule: patch_steps)
    case (start i n ord x)
    have "step_usage \<lparr> sp_id = i, sp_step = n, sp_executionId = x, sp_runOrdinal = ord,
          sp_startedAt = rc_timestamp ctx, sp_completedAt = None, sp_finishReason = None,
          sp_usage = None, sp_error = None \<rparr> = EMPTY_USAGE"
      by (simp add: step_usage_def)
    with start Some inv show ?thesis
      by (auto simp: steps_accounted_def incrementStepStarted_def total_usage_append step_closed_def)
        (simp_all add: total_usage_def addUsage_empty)
  next
    case (finish i n f u x ord)
    let ?f = "\<lambda>st. st\<lparr>sp_completedAt := Some (rc_timestamp ctx), sp_finishReason := Some f,
                 sp_usage := Some (normalizeUsage u)\<rparr>"
    from finish(2) obtain st where st: "st \<in> set (steps s)" "ends_step i n x ord st" by blast
    have opened: "sp_completedAt st = None" "sp_usage st = None"
      using inv st by (auto simp: steps_accounted_def ends_step_def)
    have d: "distinct (map sp_id (steps s))" using inv by (simp add: steps_accounted_def)
    have "total_usage sts = addUsage (total_usage (steps s)) (normalizeUsage u)
      \<and> length (filter step_closed sts) = Suc (length (filter step_closed (steps s)))"
      unfolding finish(3)
      by (rule close_one_step [where f = ?f and P = "ends_step i n x ord" and i = i, OF d st])
        (use opened in \<open>simp_all add: ends_step_def step_closed_def\<close>)
    moreover have "map sp_id sts = map sp_id (steps s)" by (simp add: finish(3) map_if_same)
    moreover have "(sp_usage y = None \<longleftrightarrow> sp_completedAt y = None) \<and> sp_completedAt y \<noteq> Some 0"
      if "y \<in> set sts" for y
      using that inv t by (auto simp: finish(3) steps_accounted_def)
    moreover have "length sts = length (steps s)" by (simp add: finish(3))
    ultimately show ?thesis
      using inv Some finish(4) by (simp add: steps_accounted_def incrementStepCompleted_def)
  next
    case (failed i err)
    have ids: "map sp_id sts = map sp_id (steps s)" by (simp add: failed(1) map_if_same)
    have u: "total_usage sts = total_usage (steps s)"
      unfolding failed(1) by (rule total_usage_map) (simp add: step_usage_def)
    have c: "filter step_closed sts = map (\<lambda>st. if sp_id st = i then st\<lparr>sp_error := Some err\<rparr> else st) (filter step_closed (steps s))"
      unfolding failed(1) filter_map comp_def
      by (rule arg_cong [where f = "map _"], rule filter_cong) (auto simp: step_closed_def)
    have l: "length sts = length (steps s)" by (simp add: failed(1))
    have "(sp_usage y = None \<longleftrightarrow> sp_completedAt y = None) \<and> sp_completedAt y \<noteq> Some 0"
      if "y \<in> set sts" for y
      using that inv by (auto simp: failed(1) steps_accounted_def)
    moreover have "length (filter step_closed sts) = length (filter step_closed (steps s))"
      by (simp add: c)
    ultimately show ?thesis
      using inv Some failed(2) ids u l by (simp add: steps_accounted_def del: length_map)
  qed
qed

interpretation recorded_log: log_invariant "reduce_step lc" "\<lambda>_ _. True" steps_recorded
  for lc
  by unfold_locales (auto simp: reduce_step_def bindE_Inr_iff steps_recorded_step)

interpretation accounted_log:
  log_invariant "reduce_step lc" "\<lambda>_ ec. rc_timestamp (snd ec) \<noteq> 0" steps_accounted
  for lc
  by unfold_locales (auto simp: reduce_step_def bindE_Inr_iff steps_accounted_step)

text \<open>The counters of a Session after a log, against those it had before.\<close>

definition stats_since :: "SessionStats \<Rightarrow> SessionProjection \<Rightarrow> bool" where
  "stats_since st s \<longleftrightarrow> balanced_stats (stats s) \<and> stats_le st (stats s)"

lemma stats_since_step:
  "stats_since st s \<Longrightarrow> reduceStreamEvent lc s ev ctx = Inr p \<Longrightarrow> stats_since st (apply_patch s p)"
  by (cases "p_stats p")
    (auto simp: stats_since_def dest!: patch_stats_step intro: stats_step_balanced stats_le_trans stats_step_le)

interpretation stats_log: log_invariant "reduce_step lc" "\<lambda>_ _. True" "stats_since st"
  for lc st
  by unfold_locales (auto simp: reduce_step_def bindE_Inr_iff stats_since_step)

section \<open>Properties\<close>

text \<open>
  C25: Over every log, step identifiers stay unique and every model step refers to a recorded
  Execution and to one of its runs, by an ordinal inside the history of that Execution.
\<close>
theorem log_keeps_steps_recorded:
  assumes "steps_recorded s" "run_log (reduce_step lc) s es = Inr s'"
  shows "steps_recorded s'"
  using recorded_log.run_inv_events [OF assms(1) _ assms(2)] by simp

text \<open>
  C26: Over every log whose clock is never 0, the step counters and the token usage of a Session are
  accounted for by its steps: \<open>started\<close> is the number of steps, \<open>completed\<close> the number of closed
  ones, and the usage is the sum of the usages the closed steps recorded. No usage is counted twice.
\<close>
theorem log_accounts_steps:
  assumes "steps_accounted s" "\<And>e. e \<in> set es \<Longrightarrow> rc_timestamp (snd e) \<noteq> 0"
    and "run_log (reduce_step lc) s es = Inr s'"
  shows "steps_accounted s'"
  using accounted_log.run_inv_events [OF assms(1) _ assms(3)] assms(2) by blast

text \<open>
  The counters of a Session never decrease over a log, and the total number of messages stays
  the number of user messages plus the number of Assistant messages.
\<close>
theorem log_counters_monotone:
  assumes "balanced_stats (stats s)" "run_log (reduce_step lc) s es = Inr s'"
  shows "balanced_stats (stats s') \<and> stats_le (stats s) (stats s')"
  using stats_log.run_inv_events [of "stats s" s es lc s'] assms by (simp add: stats_since_def)

end
