(* ===== verification/Transcript.thy ===== *)
theory Transcript
  imports ReducerFrames
begin

text \<open>
  How the transcript of a Session evolves. \<open>transcript_evolves\<close> is the abstract promise: no
  Assistant message is lost or changes its identity, an open block only grows until it completes, a
  completed block keeps its text, a tool call follows its state machine and keeps its settled result.
  Every event of the reducer keeps the promise on messages with unique identifiers, and keeps the
  identifiers unique when the ones it draws are fresh.
\<close>

section \<open>The promise\<close>

fun tool_result :: "ToolPart \<Rightarrow> FinalizedToolResult option" where
  "tool_result (CompletedTool _ _ r _ _) = Some r"
| "tool_result (ErrorTool _ _ r _ _) = Some r"
| "tool_result _ = None"

fun tool_endedAt :: "ToolPart \<Rightarrow> int option" where
  "tool_endedAt (InterruptedTool _ _ _ e) = Some e"
| "tool_endedAt (CompletedTool _ _ _ _ e) = Some e"
| "tool_endedAt (ErrorTool _ _ _ _ e) = Some e"
| "tool_endedAt _ = None"

definition settled_tool :: "ToolPart \<Rightarrow> bool" where
  "settled_tool t \<longleftrightarrow> tool_settled (tool_state t)"

definition tool_evolves :: "ToolPart \<Rightarrow> ToolPart \<Rightarrow> bool" where
  "tool_evolves t t' \<longleftrightarrow> tp_id (tool_base t') = tp_id (tool_base t)
     \<and> tp_toolCallId (tool_base t') = tp_toolCallId (tool_base t)
     \<and> tp_toolName (tool_base t') = tp_toolName (tool_base t)
     \<and> tp_createdAt (tool_base t') = tp_createdAt (tool_base t)
     \<and> tool_step (tool_state t) (tool_state t')
     \<and> (settled_tool t \<longrightarrow> tool_result t' = tool_result t \<and> tool_startedAt t' = tool_startedAt t
          \<and> tool_endedAt t' = tool_endedAt t)"

definition block_evolves :: "BlockPart \<Rightarrow> BlockPart \<Rightarrow> bool" where
  "block_evolves b b' \<longleftrightarrow> bp_id b' = bp_id b \<and> bp_blockId b' = bp_blockId b \<and> bp_createdAt b' = bp_createdAt b
     \<and> (bp_completedAt b \<noteq> None \<longrightarrow> bp_completedAt b' = bp_completedAt b \<and> bp_text b' = bp_text b)
     \<and> (bp_completedAt b' = None \<longrightarrow> (\<exists>more. bp_text b' = bp_text b @ more))"

fun part_evolves :: "AssistantSessionPart \<Rightarrow> AssistantSessionPart \<Rightarrow> bool" where
  "part_evolves (AssistantOutput b) (AssistantOutput b') = block_evolves b b'"
| "part_evolves (ReasoningOutput b) (ReasoningOutput b') = block_evolves b b'"
| "part_evolves (AssistantTool t) (AssistantTool t') = tool_evolves t t'"
| "part_evolves (AssistantSystemNotice p) (AssistantSystemNotice p') = (sn_id p' = sn_id p \<and> sn_notice p' = sn_notice p)"
| "part_evolves (AssistantRecovery p) (AssistantRecovery p') = (rn_id p' = rn_id p \<and> rn_createdAt p' = rn_createdAt p)"
| "part_evolves _ _ = False"

definition empty_open :: "AssistantSessionPart \<Rightarrow> bool" where
  "empty_open p \<longleftrightarrow> (\<exists>b. any_block p = Some b \<and> bp_completedAt b = None \<and> bp_text b = [])"

definition message_evolves :: "ModelStepAssistantMessage \<Rightarrow> ModelStepAssistantMessage \<Rightarrow> bool" where
  "message_evolves a a' \<longleftrightarrow> am_id a' = am_id a \<and> am_createdAt a' = am_createdAt a
     \<and> am_executionId a' = am_executionId a \<and> am_runOrdinal a' = am_runOrdinal a \<and> am_stepId a' = am_stepId a
     \<and> (am_completedAt a \<noteq> None \<longrightarrow> am_completedAt a' = am_completedAt a)
     \<and> (am_outputPhase a' = am_outputPhase a \<or> am_outputPhase a' = FinalAnswer)
     \<and> (\<forall>p \<in> set (am_parts a). (\<exists>p' \<in> set (am_parts a'). part_evolves p p') \<or> empty_open p)"

definition transcript_evolves :: "SessionMessage list \<Rightarrow> SessionMessage list \<Rightarrow> bool" where
  "transcript_evolves ms ms' \<longleftrightarrow>
     (\<forall>a. AssistantMessage a \<in> set ms \<longrightarrow> (\<exists>a'. AssistantMessage a' \<in> set ms' \<and> message_evolves a a'))"

section \<open>The promise is a preorder\<close>

lemma tool_step_trans: "tool_step a b \<Longrightarrow> tool_step b c \<Longrightarrow> tool_step a c"
  by (cases a; cases b; cases c) (simp_all add: tool_step_settled_iff tool_settled_def)

lemma tool_evolves_refl [simp]: "tool_evolves t t"
  by (simp add: tool_evolves_def tool_step.stay)

lemma tool_evolves_trans: "tool_evolves a b \<Longrightarrow> tool_evolves b c \<Longrightarrow> tool_evolves a c"
  using tool_step_trans [of "tool_state a" "tool_state b" "tool_state c"] tool_step_settled [of "tool_state a" "tool_state b"]
  by (auto simp: tool_evolves_def settled_tool_def)

lemma block_evolves_refl [simp]: "block_evolves b b"
  by (simp add: block_evolves_def)

lemma block_evolves_trans: "block_evolves a b \<Longrightarrow> block_evolves b c \<Longrightarrow> block_evolves a c"
  by (auto simp: block_evolves_def)

lemma part_evolves_refl [simp]: "part_evolves p p"
  by (cases p) simp_all

lemma part_evolves_trans: "part_evolves p q \<Longrightarrow> part_evolves q r \<Longrightarrow> part_evolves p r"
  by (cases p; cases q; cases r) (auto intro: block_evolves_trans tool_evolves_trans)

lemma part_evolves_id: "part_evolves p q \<Longrightarrow> part_id q = part_id p"
  by (cases p; cases q) (auto simp: block_evolves_def tool_evolves_def)

lemma part_evolves_empty: "part_evolves p q \<Longrightarrow> empty_open q \<Longrightarrow> empty_open p"
  by (cases p; cases q) (auto simp: empty_open_def block_evolves_def)

lemma message_evolves_refl [simp]: "message_evolves a a"
  by (auto simp: message_evolves_def intro: part_evolves_refl)

lemma message_evolves_trans:
  assumes "message_evolves a b" "message_evolves b c"
  shows "message_evolves a c"
proof -
  have "(\<exists>r \<in> set (am_parts c). part_evolves p r) \<or> empty_open p" if "p \<in> set (am_parts a)" for p
    using that assms part_evolves_trans part_evolves_empty unfolding message_evolves_def by metis
  with assms show ?thesis
    unfolding message_evolves_def by metis
qed

lemma transcript_evolves_refl [simp]: "transcript_evolves ms ms"
  by (auto simp: transcript_evolves_def intro: message_evolves_refl)

lemma transcript_evolves_trans: "transcript_evolves a b \<Longrightarrow> transcript_evolves b c \<Longrightarrow> transcript_evolves a c"
  unfolding transcript_evolves_def using message_evolves_trans by metis

section \<open>Unique identifiers\<close>

definition recovery_named :: "AssistantSessionPart \<Rightarrow> bool" where
  "recovery_named p \<longleftrightarrow> (startsWith (part_id p) (js ''recovery:'') \<longrightarrow> (\<exists>r. p = AssistantRecovery r))"

definition parts_ok :: "AssistantSessionPart list \<Rightarrow> bool" where
  "parts_ok ps \<longleftrightarrow> distinct (map part_id ps) \<and> (\<forall>p \<in> set ps. recovery_named p)"

definition unique_ids :: "SessionMessage list \<Rightarrow> bool" where
  "unique_ids ms \<longleftrightarrow> distinct (map msg_id ms) \<and> (\<forall>a. AssistantMessage a \<in> set ms \<longrightarrow> parts_ok (am_parts a))"

lemma unique_message:
  "unique_ids ms \<Longrightarrow> m \<in> set ms \<Longrightarrow> find (\<lambda>x. msg_id x = msg_id m) ms = Some m"
  unfolding unique_ids_def by (blast intro: find_unique)

lemma located_part:
  assumes u: "unique_ids ms" and loc: "getPartAtLocation ms loc = Some (InAssistant p)"
    and a: "AssistantMessage a \<in> set ms" "am_id a = fst loc" and q: "q \<in> set (am_parts a)" "part_id q = snd loc"
  shows "q = p"
proof -
  have "find (\<lambda>m. msg_id m = fst loc) ms = Some (AssistantMessage a)"
    using unique_message [OF u a(1)] a(2) by simp
  with loc have f: "find (\<lambda>x. session_part_id x = snd loc) (map InAssistant (am_parts a)) = Some (InAssistant p)"
    by (simp add: getPartAtLocation_def)
  from find_SomeD [OF f] have p: "p \<in> set (am_parts a)" "part_id p = snd loc"
    by auto
  have "inj_on part_id (set (am_parts a))"
    using u a(1) by (simp add: unique_ids_def parts_ok_def distinct_map)
  with p q show ?thesis unfolding inj_on_def by metis
qed

lemma getToolPart_part:
  "getToolPartAtLocation ms i j = Some t \<Longrightarrow> getPartAtLocation ms (i, j) = Some (InAssistant (AssistantTool t))"
  by (auto simp: getToolPartAtLocation_def split: option.splits elim!: session_tool.elims)

section \<open>Changes that keep the promise\<close>

text \<open>An update \<open>g\<close> of one Assistant message that keeps its identity and its part identifiers in order.\<close>

definition good_update :: "(ModelStepAssistantMessage \<Rightarrow> ModelStepAssistantMessage) \<Rightarrow> SessionMessage list \<Rightarrow> bool" where
  "good_update g ms \<longleftrightarrow> (\<forall>a. AssistantMessage a \<in> set ms \<longrightarrow> message_evolves a (g a) \<and> parts_ok (am_parts (g a)))"

lemma msg_id_map_assistant: "(\<And>a. m = AssistantMessage a \<Longrightarrow> am_id (g a) = am_id a) \<Longrightarrow> msg_id (map_assistant g m) = msg_id m"
  by (cases m) simp_all

lemma mem_map_assistant:
  "AssistantMessage a' \<in> set (map (map_assistant g) ms) \<longleftrightarrow> (\<exists>a. AssistantMessage a \<in> set ms \<and> a' = g a)"
proof
  assume "AssistantMessage a' \<in> set (map (map_assistant g) ms)"
  then obtain m where m: "m \<in> set ms" "map_assistant g m = AssistantMessage a'"
    unfolding set_map image_iff by metis
  show "\<exists>a. AssistantMessage a \<in> set ms \<and> a' = g a"
    by (cases m) (use m in auto)
next
  assume "\<exists>a. AssistantMessage a \<in> set ms \<and> a' = g a"
  then show "AssistantMessage a' \<in> set (map (map_assistant g) ms)" by force
qed

lemma good_update_keeps:
  assumes "good_update g ms"
  shows "transcript_evolves ms (map (map_assistant g) ms)"
    and "unique_ids ms \<Longrightarrow> unique_ids (map (map_assistant g) ms)"
proof -
  show "transcript_evolves ms (map (map_assistant g) ms)"
    using assms unfolding transcript_evolves_def good_update_def mem_map_assistant by blast
  have "map msg_id (map (map_assistant g) ms) = map msg_id ms"
    using assms by (auto simp: good_update_def message_evolves_def intro!: msg_id_map_assistant)
  then show "unique_ids ms \<Longrightarrow> unique_ids (map (map_assistant g) ms)"
    using assms unfolding unique_ids_def mem_map_assistant good_update_def by metis
qed

text \<open>Updates part by part.\<close>

lemma good_parts:
  assumes u: "unique_ids ms"
    and f: "\<And>a p. AssistantMessage a \<in> set ms \<Longrightarrow> p \<in> set (am_parts a) \<Longrightarrow> part_evolves p (f a p)"
    and g: "\<And>a. AssistantMessage a \<in> set ms \<Longrightarrow> am_parts (g a) = map (f a) (am_parts a)"
    and hd: "\<And>a. AssistantMessage a \<in> set ms \<Longrightarrow> am_id (g a) = am_id a \<and> am_createdAt (g a) = am_createdAt a
      \<and> am_executionId (g a) = am_executionId a \<and> am_runOrdinal (g a) = am_runOrdinal a \<and> am_stepId (g a) = am_stepId a
      \<and> (am_completedAt a \<noteq> None \<longrightarrow> am_completedAt (g a) = am_completedAt a)
      \<and> (am_outputPhase (g a) = am_outputPhase a \<or> am_outputPhase (g a) = FinalAnswer)"
  shows "good_update g ms"
  unfolding good_update_def
proof (intro allI impI conjI)
  fix a assume a: "AssistantMessage a \<in> set ms"
  show "message_evolves a (g a)"
    using hd [OF a] f [OF a] g [OF a] by (auto simp: message_evolves_def)
  have ids: "map part_id (map (f a) (am_parts a)) = map part_id (am_parts a)"
    using part_evolves_id [OF f [OF a]] by simp
  have "recovery_named (f a p)" if "p \<in> set (am_parts a)" for p
  proof -
    have "recovery_named p" using u a that by (auto simp: unique_ids_def parts_ok_def)
    with part_evolves_id [OF f [OF a that]] f [OF a that] show ?thesis
      by (cases p; cases "f a p") (auto simp: recovery_named_def)
  qed
  with ids u a show "parts_ok (am_parts (g a))"
    unfolding g [OF a] unique_ids_def parts_ok_def by (metis (no_types, lifting) imageE list.set_map)
qed

text \<open>Updating the one part at a location.\<close>

lemma updateMessagePart_keeps:
  assumes u: "unique_ids ms" and loc: "getPartAtLocation ms loc = Some (InAssistant p)"
    and p: "part_evolves p (f p)"
  shows "transcript_evolves ms (updateMessagePart ms (fst loc) (snd loc) f)"
    and "unique_ids (updateMessagePart ms (fst loc) (snd loc) f)"
proof -
  let ?F = "\<lambda>a q. if am_id a = fst loc \<and> part_id q = snd loc then f q else q"
  have "good_update (\<lambda>a. if am_id a = fst loc then a\<lparr>am_parts := map (\<lambda>q. if part_id q = snd loc then f q else q) (am_parts a)\<rparr> else a) ms"
    by (rule good_parts [OF u, of ?F]) (use p located_part [OF u loc] in \<open>auto simp: map_idI\<close>)
  note g = good_update_keeps [OF this]
  show "transcript_evolves ms (updateMessagePart ms (fst loc) (snd loc) f)"
    using g(1) by (simp add: updateMessagePart_def map_parts_of_def)
  show "unique_ids (updateMessagePart ms (fst loc) (snd loc) f)"
    using g(2) [OF u] by (simp add: updateMessagePart_def map_parts_of_def)
qed

lemma removeMessagePart_keeps:
  assumes u: "unique_ids ms" and loc: "getPartAtLocation ms loc = Some (InAssistant p)" and p: "empty_open p"
  shows "transcript_evolves ms (removeMessagePart ms (fst loc) (snd loc))"
    and "unique_ids (removeMessagePart ms (fst loc) (snd loc))"
proof -
  have "good_update (\<lambda>a. if am_id a = fst loc then a\<lparr>am_parts := filter (\<lambda>q. part_id q \<noteq> snd loc) (am_parts a)\<rparr> else a) ms"
    unfolding good_update_def
  proof (intro allI impI)
    fix a assume a: "AssistantMessage a \<in> set ms"
    have "parts_ok (am_parts a)" using u a by (simp add: unique_ids_def)
    moreover have "empty_open q" if "am_id a = fst loc" "q \<in> set (am_parts a)" "part_id q = snd loc" for q
      using located_part [OF u loc a that] p by simp
    ultimately show "message_evolves a (if am_id a = fst loc then a\<lparr>am_parts := filter (\<lambda>q. part_id q \<noteq> snd loc) (am_parts a)\<rparr> else a)
        \<and> parts_ok (am_parts (if am_id a = fst loc then a\<lparr>am_parts := filter (\<lambda>q. part_id q \<noteq> snd loc) (am_parts a)\<rparr> else a))"
      by (auto simp: message_evolves_def parts_ok_def distinct_map_filter intro: part_evolves_refl)
  qed
  note g = good_update_keeps [OF this]
  show "transcript_evolves ms (removeMessagePart ms (fst loc) (snd loc))"
    using g(1) by (simp add: removeMessagePart_def map_parts_of_def)
  show "unique_ids (removeMessagePart ms (fst loc) (snd loc))"
    using g(2) [OF u] by (simp add: removeMessagePart_def map_parts_of_def)
qed

lemma appendPart_evolves: "transcript_evolves ms (appendPartToMessage ms i p)"
proof -
  have "message_evolves a (if am_id a = i then a\<lparr>am_parts := am_parts a @ [p]\<rparr> else a)" for a
    by (auto simp: message_evolves_def intro: part_evolves_refl)
  then show ?thesis
    unfolding appendPartToMessage_def map_parts_of_def transcript_evolves_def mem_map_assistant by blast
qed

lemma appendPart_unique:
  assumes u: "unique_ids ms" and p: "recovery_named p"
    and fresh: "\<And>a q. AssistantMessage a \<in> set ms \<Longrightarrow> am_id a = i \<Longrightarrow> q \<in> set (am_parts a) \<Longrightarrow> part_id q \<noteq> part_id p"
  shows "unique_ids (appendPartToMessage ms i p)"
proof -
  have "good_update (\<lambda>a. if am_id a = i then a\<lparr>am_parts := am_parts a @ [p]\<rparr> else a) ms"
    unfolding good_update_def
  proof (intro allI impI)
    fix a assume a: "AssistantMessage a \<in> set ms"
    have "parts_ok (am_parts a)" using u a by (simp add: unique_ids_def)
    moreover have "part_id p \<notin> part_id ` set (am_parts a)" if "am_id a = i"
      using fresh [OF a that] by (metis imageE)
    ultimately show "message_evolves a (if am_id a = i then a\<lparr>am_parts := am_parts a @ [p]\<rparr> else a)
        \<and> parts_ok (am_parts (if am_id a = i then a\<lparr>am_parts := am_parts a @ [p]\<rparr> else a))"
      using p by (auto simp: message_evolves_def parts_ok_def intro: part_evolves_refl)
  qed
  from good_update_keeps(2) [OF this u] show ?thesis
    by (simp add: appendPartToMessage_def map_parts_of_def)
qed

lemma append_evolves [simp]: "transcript_evolves ms (ms @ new)"
  by (auto simp: transcript_evolves_def intro: message_evolves_refl)

lemma append_unique:
  assumes "unique_ids ms" "unique_ids new" "set (map msg_id ms) \<inter> set (map msg_id new) = {}"
  shows "unique_ids (ms @ new)"
  using assms by (auto simp: unique_ids_def)

end
