(* ===== verification/TranscriptEvents.thy ===== *)
theory TranscriptEvents
  imports Transcript
begin

text \<open>
  Every event of the reducer keeps the promise of the transcript, and keeps identifiers unique when
  the ones it draws are fresh. The lemmas follow the groups of cases of the reducer: streamed
  blocks, tool calls, steps, the end of an Execution, recovery notices, commits and compaction.
\<close>

section \<open>Fresh identifiers\<close>

definition fresh_id :: "SessionMessage list \<Rightarrow> jstring \<Rightarrow> bool" where
  "fresh_id ms i \<longleftrightarrow> i \<notin> set (map msg_id ms) \<and> \<not> startsWith i (js ''recovery:'')
     \<and> (\<forall>a q. AssistantMessage a \<in> set ms \<longrightarrow> q \<in> set (am_parts a) \<longrightarrow> part_id q \<noteq> i)"

definition event_fresh :: "SessionProjection \<Rightarrow> StreamEvent \<times> ReduceContext \<Rightarrow> bool" where
  "event_fresh s ec \<longleftrightarrow> rc_generateId (snd ec) 0 \<noteq> rc_generateId (snd ec) 1
     \<and> fresh_id (messages s) (rc_generateId (snd ec) 0) \<and> fresh_id (messages s) (rc_generateId (snd ec) 1)
     \<and> (case fst ec of MessagesCommitted _ ms \<Rightarrow> unique_ids ms | _ \<Rightarrow> True)"

text \<open>What a patch of the messages has to keep.\<close>

definition keeps :: "SessionMessage list \<Rightarrow> bool \<Rightarrow> SessionMessage list option \<Rightarrow> bool" where
  "keeps ms fresh new \<longleftrightarrow> transcript_evolves ms (present new ms) \<and> (fresh \<longrightarrow> unique_ids (present new ms))"

lemma keeps_None [simp]: "unique_ids ms \<Longrightarrow> keeps ms fr None"
  by (simp add: keeps_def)

lemma keeps_Some: "keeps ms fr (Some ms') \<longleftrightarrow> transcript_evolves ms ms' \<and> (fr \<longrightarrow> unique_ids ms')"
  by (simp add: keeps_def)

lemma keeps_appendPart:
  assumes u: "unique_ids ms" and fr: "fr \<Longrightarrow> fresh_id ms (part_id p)"
    and p: "fr \<Longrightarrow> recovery_named p"
  shows "keeps ms fr (Some (appendPartToMessage ms i p))"
  unfolding keeps_Some
proof (intro conjI impI)
  assume f: fr
  show "unique_ids (appendPartToMessage ms i p)"
    using fr [OF f] by (intro appendPart_unique [OF u p [OF f]]) (auto simp: fresh_id_def)
qed (rule appendPart_evolves)

lemma keeps_update:
  assumes "unique_ids ms" "getPartAtLocation ms loc = Some (InAssistant p)" "part_evolves p (f p)"
  shows "keeps ms fr (Some (updateMessagePart ms (fst loc) (snd loc) f))"
  using updateMessagePart_keeps [where f = f, OF assms] by (simp add: keeps_Some)

section \<open>Streamed blocks\<close>

lemma open_block_part:
  assumes "open_block s st c b = Some (loc, blk)"
  shows "getPartAtLocation (messages s) loc = Some (InAssistant (channel_part c blk))" "bp_completedAt blk = None"
  using assms
  by (auto simp: open_block_def split: if_splits option.splits SessionPart.splits elim!: part_block.elims)

lemma part_evolves_channel:
  "part_evolves (channel_part c b) (map_channel c f (channel_part c b)) = block_evolves b (f b)"
  by (cases c) simp_all

lemma empty_open_channel: "bp_completedAt b = None \<Longrightarrow> bp_text b = [] \<Longrightarrow> empty_open (channel_part c b)"
  by (cases c) (simp_all add: empty_open_def)

lemma keeps_block_delta:
  assumes u: "unique_ids (messages s)"
  shows "keeps (messages s) fr (p_messages (block_delta c s st b d))"
proof (cases "open_block s st c b")
  case None
  then show ?thesis using u by (simp add: block_delta_def)
next
  case (Some r)
  obtain loc blk where r: "r = (loc, blk)" by (cases r)
  note ob = open_block_part [OF Some [unfolded r]]
  have "part_evolves (channel_part c blk) (map_channel c (\<lambda>x. x\<lparr>bp_text := bp_text x @ d\<rparr>) (channel_part c blk))"
    using ob(2) by (auto simp: part_evolves_channel block_evolves_def)
  from keeps_update [where f = "map_channel c (\<lambda>x. x\<lparr>bp_text := bp_text x @ d\<rparr>)", OF u ob(1) this]
  show ?thesis using Some r by (simp add: block_delta_def)
qed

lemma keeps_block_close:
  assumes u: "unique_ids (messages s)" and ob: "open_block s st c b = Some (loc, blk)"
    and f: "\<And>x. bp_id (f x) = bp_id x \<and> bp_blockId (f x) = bp_blockId x \<and> bp_createdAt (f x) = bp_createdAt x
      \<and> bp_completedAt (f x) = Some t"
  shows "keeps (messages s) fr (Some (if bp_text blk = [] then removeMessagePart (messages s) (fst loc) (snd loc)
    else updateMessagePart (messages s) (fst loc) (snd loc) (map_channel c f)))"
proof (cases "bp_text blk = []")
  case True
  with open_block_part [OF ob] removeMessagePart_keeps [OF u _ empty_open_channel] show ?thesis
    by (simp add: keeps_Some)
next
  case False
  have "part_evolves (channel_part c blk) (map_channel c f (channel_part c blk))"
    using f open_block_part(2) [OF ob] by (auto simp: part_evolves_channel block_evolves_def)
  with False keeps_update [where f = "map_channel c f", OF u open_block_part(1) [OF ob]] show ?thesis
    by simp
qed

lemma keeps_block_end:
  assumes u: "unique_ids (messages s)"
  shows "keeps (messages s) fr (p_messages (onTextEnd s st b t))"
    and "keeps (messages s) fr (p_messages (onReasoningEnd s st b t))"
  using u keeps_block_close [OF u, where f = "\<lambda>b. b\<lparr>bp_text := unwrapAssistantProjectionEnvelope (bp_text b),
               bp_completedAt := Some t\<rparr>" and t = t and c = OutputChannel and st = st and b = b and fr = fr]
    keeps_block_close [OF u, where f = "\<lambda>b. b\<lparr>bp_completedAt := Some t\<rparr>" and t = t and c = ReasoningChannel
      and st = st and b = b and fr = fr]
  by (force simp: onTextEnd_def onReasoningEnd_def split: option.splits)+

lemma keeps_block_start:
  assumes u: "unique_ids (messages s)" and fr: "fr \<Longrightarrow> fresh_id (messages s) (rc_generateId ctx 0)"
  shows "keeps (messages s) fr (p_messages (onTextStart s st b ctx))"
    and "keeps (messages s) fr (p_messages (onReasoningStart s st b ctx))"
proof -
  have start: "keeps (messages s) fr (p_messages (appendBlockPart c (messages s) i b t [] ctx))" for c i t
    unfolding appendBlockPart_def Let_def
    using fr by (cases c) (auto intro!: keeps_appendPart [OF u] simp: recovery_named_def fresh_id_def)
  then show "keeps (messages s) fr (p_messages (onTextStart s st b ctx))"
    and "keeps (messages s) fr (p_messages (onReasoningStart s st b ctx))"
    using u by (simp_all add: onTextStart_def onReasoningStart_def appendAssistantOutputPart_def
        appendReasoningPart_def split: option.splits)
qed

section \<open>Tool calls\<close>

lemma ensure_messages:
  "ensureCurrentAssistantMessage s = Inr r \<Longrightarrow> amr_messages r = messages s \<and> currentAssistantMessageId s = Some (amr_messageId r)"
  by (auto simp: ensureCurrentAssistantMessage_def split: option.splits if_splits SessionMessage.splits)

lemma keeps_new_tool:
  assumes u: "unique_ids (messages s)" and fr: "fr \<Longrightarrow> fresh_id (messages s) (rc_generateId ctx 0)"
  shows "keeps (messages s) fr (Some (appendPartToMessage (messages s) i
      (AssistantTool (PendingTool (new_tool_base (rc_generateId ctx 0) c n ts)))))"
    and "keeps (messages s) fr (Some (appendPartToMessage (messages s) i
      (AssistantTool (RunningTool (new_tool_base (rc_generateId ctx 0) c n ts) v t l))))"
  using fr by (auto intro!: keeps_appendPart [OF u] simp: recovery_named_def fresh_id_def new_tool_base_def)

lemma keeps_tool_update:
  assumes u: "unique_ids (messages s)" and t: "getToolPartAtLocation (messages s) (fst loc) (snd loc) = Some t"
    and f: "tool_evolves t (f t)"
  shows "keeps (messages s) fr (Some (updateMessagePart (messages s) (fst loc) (snd loc) (map_tool f)))"
  using keeps_update [where f = "map_tool f", OF u, of loc "AssistantTool t"] getToolPart_part [OF t] f by simp

lemma tool_evolves_running:
  "tool_state t = ToolPending \<or> tool_state t = ToolRunning \<Longrightarrow> tool_evolves t (toRunningToolPart t i ts)"
  by (auto simp: tool_evolves_def settled_tool_def tool_settled_def tool_step.call tool_step.stay)

lemma tool_evolves_settle:
  "\<not> settled_tool t \<Longrightarrow> tool_evolves t (toSettledToolPart t r ts)"
  by (auto simp: tool_evolves_def settled_tool_def tool_settled_def intro!: tool_step.settle)

lemma tool_evolves_input: "tool_evolves t (set_tool_input v t)"
  by (cases t) (auto simp: tool_evolves_def tool_step.stay)

lemma tool_evolves_live: "tool_evolves t (appendLiveToolOutput t d o' l)"
  by (cases t) (auto simp: tool_evolves_def tool_step.stay settled_tool_def tool_settled_def)

lemma tool_evolves_attempt: "\<not> settled_tool t \<Longrightarrow> tool_evolves t (withToolAttempt t a ts d)"
  by (auto simp: tool_evolves_def tool_base_attempt tool_state_attempt set_attempt_def tool_step.stay
      tool_step.reattempt)

lemma tool_evolves_interrupt:
  "tool_state t = ToolPending \<or> tool_state t = ToolRunning \<Longrightarrow> tool_evolves t (toInterruptedToolPart t ts)"
  by (auto simp: tool_evolves_def settled_tool_def tool_settled_def intro!: tool_step.interrupt)

lemma located_toolD:
  "located_tool s c P = Some (loc, t) \<Longrightarrow> getToolPartAtLocation (messages s) (fst loc) (snd loc) = Some t \<and> P t"
  by (auto simp: located_tool_def split: option.splits if_splits)

lemma keeps_located:
  assumes "unique_ids (messages s)" "located_tool s c P = Some (loc, t)" "P t \<Longrightarrow> tool_evolves t (f t)"
  shows "keeps (messages s) fr (Some (update_tool s loc f))"
  using keeps_tool_update [where f = f, OF assms(1)] located_toolD [OF assms(2)] assms(3)
  by (simp add: update_tool_def)

lemma keeps_tool_events:
  assumes u: "unique_ids (messages s)" and fr: "fr \<Longrightarrow> fresh_id (messages s) (rc_generateId ctx 0)"
  shows "onToolInputStart s c n ctx = Inr p \<Longrightarrow> keeps (messages s) fr (p_messages p)"
    and "onToolCall s c n i ctx = Inr p \<Longrightarrow> keeps (messages s) fr (p_messages p)"
    and "keeps (messages s) fr (p_messages (onToolInputResolved s c i))"
    and "keeps (messages s) fr (p_messages (onToolAttempt s c a t d))"
    and "keeps (messages s) fr (p_messages (onToolOutputDelta s c n d' om l))"
    and "keeps (messages s) fr (p_messages (onToolResult s c t r))"
proof -
  show "onToolInputStart s c n ctx = Inr p \<Longrightarrow> keeps (messages s) fr (p_messages p)"
    using u by (auto simp: onToolInputStart_def bindE_Inr_iff Let_def dest!: ensure_messages split: if_splits
        intro!: keeps_new_tool [OF u fr])
  show "onToolCall s c n i ctx = Inr p \<Longrightarrow> keeps (messages s) fr (p_messages p)"
    using u by (auto simp: onToolCall_def bindE_Inr_iff Let_def dest!: ensure_messages
        split: if_splits option.splits
        intro!: keeps_new_tool [OF u fr] keeps_tool_update [OF u, of "(_, _)", simplified] tool_evolves_running)
  show "keeps (messages s) fr (p_messages (onToolInputResolved s c i))"
    using u by (auto simp: onToolInputResolved_def split: option.splits
        intro!: keeps_located [OF u] tool_evolves_input)
  show "keeps (messages s) fr (p_messages (onToolAttempt s c a t d))"
    using u by (auto simp: onToolAttempt_def split: option.splits
        intro!: keeps_located [OF u] tool_evolves_attempt simp: settled_tool_def tool_settled_def)
  show "keeps (messages s) fr (p_messages (onToolOutputDelta s c n d' om l))"
    using u by (auto simp: onToolOutputDelta_def split: option.splits
        intro!: keeps_located [OF u] tool_evolves_live)
  show "keeps (messages s) fr (p_messages (onToolResult s c t r))"
    using u by (auto simp: onToolResult_def split: option.splits
        intro!: keeps_located [OF u] tool_evolves_settle simp: settled_tool_def tool_settled_def)
qed

section \<open>Passes over messages\<close>

lemma keeps_map_assistant:
  assumes "unique_ids ms" "good_update g ms"
  shows "keeps ms fr (Some (map (map_assistant g) ms))"
  using good_update_keeps [OF assms(2)] assms(1) by (simp add: keeps_Some)

lemma keeps_trans:
  assumes "keeps ms True (Some ms')" "unique_ids ms' \<Longrightarrow> keeps ms' fr (Some ms'')"
  shows "keeps ms fr (Some ms'')"
  using assms by (auto simp: keeps_Some intro: transcript_evolves_trans)

lemma keeps_complete: "unique_ids ms \<Longrightarrow> keeps ms fr (Some (completeAssistantMessageForStep ms st t))"
  unfolding completeAssistantMessageForStep_def
  by (rule keeps_map_assistant) (auto intro!: good_parts [where f = "\<lambda>_ p. p"])

lemma keeps_promote: "unique_ids ms \<Longrightarrow> keeps ms fr (Some (promoteFinalAssistantOutput ms x st))"
  unfolding promoteFinalAssistantOutput_def
  by (rule keeps_map_assistant) (auto intro!: good_parts [where f = "\<lambda>_ p. p"])

lemma part_evolves_map_any: "(\<And>b. block_evolves b (f b)) \<Longrightarrow> part_evolves p (map_any_block f p)"
  by (cases p) simp_all

lemma block_evolves_interrupt: "block_evolves b (interrupt_block t b)"
  by (auto simp: interrupt_block_def block_evolves_def split: option.splits)

lemma keeps_interrupted: "unique_ids ms \<Longrightarrow> keeps ms fr (Some (markAssistantModelOutputInterruptedForStep ms st t))"
  unfolding markAssistantModelOutputInterruptedForStep_def
  by (rule keeps_map_assistant)
    (auto intro!: good_parts [where f = "\<lambda>a p. if am_stepId a = st then map_any_block (interrupt_block t) p else p"]
      part_evolves_map_any block_evolves_interrupt simp: map_idI)

lemma part_evolves_settle: "part_evolves p (settle_part d t p)"
  by (cases p) (auto simp: settle_block_def block_evolves_def)

lemma part_evolves_interrupt: "part_evolves p (interrupt_part t p)"
  by (cases p) (auto simp: interrupt_part_def intro: tool_evolves_interrupt)

lemma keeps_interrupt_tools: "unique_ids ms \<Longrightarrow> keeps ms fr (Some (interruptIncompleteToolParts ms t))"
  unfolding interruptIncompleteToolParts_def
  by (rule keeps_map_assistant) (auto intro!: good_parts [where f = "\<lambda>_. interrupt_part t"] part_evolves_interrupt)

lemma keeps_settle: "unique_ids ms \<Longrightarrow> keeps ms fr (Some (settleIncompleteState ms cur t status))"
  unfolding settleIncompleteState_def
  by (rule keeps_trans [OF keeps_map_assistant keeps_interrupt_tools])
    (auto intro!: good_parts [where f = "\<lambda>_. settle_part (status \<noteq> Completed) t"] part_evolves_settle
      simp: settle_message_def Let_def)

lemma keeps_lifecycle:
  assumes u: "unique_ids (messages s)" and r: "reduceLifecycle s e t = Inr p"
  shows "keeps (messages s) fr (p_messages p)"
proof (cases "p = no_patch")
  case True
  with u show ?thesis by simp
next
  case False
  with r have l: "onLifecycle s e t = Inr p"
    by (auto simp: reduceLifecycle_def split: if_splits)
  show ?thesis
  proof (cases e)
    case (ExecutionEnd ev)
    let ?settled = "settleIncompleteState (messages s) (currentAssistantMessageId s) (en_endedAt ev) (en_terminalStatus ev)"
    have "keeps (messages s) fr (Some (promoteFinalAssistantOutput ?settled (en_executionId ev) i))" for i
      by (rule keeps_trans [OF keeps_settle [OF u]]) (rule keeps_promote)
    with l ExecutionEnd keeps_settle [OF u] show ?thesis
      by (auto simp: onExecutionEnd_def bindE_Inr_iff Let_def split: option.splits)
  qed (use l u in \<open>auto simp: case_defs bindE_Inr_iff Let_def\<close>)
qed

lemma keeps_stepEnd:
  assumes u: "unique_ids (messages s)"
  shows "keeps (messages s) fr (p_messages (onStepEnd s i n f usage t))"
proof -
  have "keeps (messages s) fr (Some (completeAssistantMessageForStep
      (markAssistantModelOutputInterruptedForStep (messages s) i t) i t))"
    by (rule keeps_trans [OF keeps_interrupted [OF u]]) (rule keeps_complete)
  with keeps_complete [OF u] u show ?thesis
    by (auto simp: onStepEnd_def Let_def split: option.splits)
qed

section \<open>New messages\<close>

lemma keeps_append:
  assumes "unique_ids ms" "fr \<Longrightarrow> unique_ids new" "fr \<Longrightarrow> set (map msg_id ms) \<inter> set (map msg_id new) = {}"
  shows "keeps ms fr (Some (ms @ new))"
  using assms append_unique by (auto simp: keeps_Some)

lemma unique_single: "(\<And>a. m = AssistantMessage a \<Longrightarrow> am_parts a = []) \<Longrightarrow> unique_ids [m]"
  by (auto simp: unique_ids_def parts_ok_def)

lemma keeps_stepStart:
  assumes "unique_ids (messages s)" "fr \<Longrightarrow> fresh_id (messages s) (rc_generateId ctx 0)"
  shows "keeps (messages s) fr (p_messages (onStepStart s i n ctx))"
  using assms by (auto simp: onStepStart_def Let_def fresh_id_def split: option.splits
      intro!: keeps_append unique_single)

lemma keeps_systemNotice:
  assumes "unique_ids (messages s)" "fr \<Longrightarrow> fresh_id (messages s) (rc_generateId ctx 1)"
  shows "keeps (messages s) fr (p_messages (onSystemNotice s m ctx))"
  using assms by (auto simp: onSystemNotice_def Let_def fresh_id_def intro!: keeps_append unique_single)

lemma keeps_committed:
  assumes "unique_ids (messages s)" "fr \<Longrightarrow> unique_ids new"
  shows "keeps (messages s) fr (p_messages (onMessagesCommitted s new))"
proof -
  let ?new = "filter (\<lambda>m. msg_id m \<notin> set (map msg_id (messages s))) new"
  have "keeps (messages s) fr (Some (messages s @ ?new))"
  proof (rule keeps_append [OF assms(1)])
    show "fr \<Longrightarrow> unique_ids ?new"
      using assms(2) by (auto simp: unique_ids_def distinct_map_filter)
    show "set (map msg_id (messages s)) \<inter> set (map msg_id ?new) = {}"
      unfolding set_map set_filter
      by (rule equals0I, elim IntE imageE CollectE conjE) (metis image_eqI)
  qed
  then show ?thesis by (simp add: onMessagesCommitted_def Let_def)
qed

section \<open>Recovery notices\<close>

lemma recovery_messages:
  "assistantForRecoveryEvent s i = Some r \<Longrightarrow> amr_messages r = messages s
    \<and> (\<exists>a. AssistantMessage a \<in> set (messages s) \<and> am_id a = amr_messageId r)"
  by (auto simp: assistantForRecoveryEvent_def split: option.splits SessionMessage.splits dest!: find_SomeD)

lemma merge_notice_evolves: "part_evolves q (map_notice (merge_notice n) q)"
  by (cases q) (auto simp: merge_notice_def)

lemma keeps_upsert_notice:
  assumes u: "unique_ids ms"
    and named: "fr \<Longrightarrow> fresh_id ms (rn_id n) \<or> startsWith (rn_id n) (js ''recovery:'')"
  shows "keeps ms fr (p_messages (upsertRecoveryNoticePart ms i n st))"
proof -
  have merged: "keeps ms fr (Some (map_parts_of i
      (map (\<lambda>p. if is_notice (rn_id n) p then map_notice (merge_notice n) p else p)) ms))"
    unfolding map_parts_of_def
    by (rule keeps_map_assistant [OF u])
      (auto intro!: good_parts [OF u, where f = "\<lambda>a p. if am_id a = i \<and> is_notice (rn_id n) p
          then map_notice (merge_notice n) p else p"]
        merge_notice_evolves)
  have appended: "keeps ms fr (Some (appendPartToMessage ms i (AssistantRecovery n)))"
    if none: "\<not> (\<exists>m \<in> set ms. is_message i m \<and> (\<exists>p \<in> set (msg_parts m).
        case p of InAssistant q \<Rightarrow> is_notice (rn_id n) q | InUser _ \<Rightarrow> False))"
    unfolding keeps_Some
  proof (intro conjI impI appendPart_evolves)
    assume f: fr
    show "unique_ids (appendPartToMessage ms i (AssistantRecovery n))"
    proof (rule appendPart_unique [OF u])
      show "recovery_named (AssistantRecovery n)" by (simp add: recovery_named_def)
      fix a q assume a: "AssistantMessage a \<in> set ms" "am_id a = i" "q \<in> set (am_parts a)"
      then have "\<not> is_notice (rn_id n) q" using none by force
      moreover have "recovery_named q" using u a by (auto simp: unique_ids_def parts_ok_def)
      moreover have "part_id q \<noteq> rn_id n" if "fresh_id ms (rn_id n)"
        using that a by (auto simp: fresh_id_def)
      ultimately show "part_id q \<noteq> part_id (AssistantRecovery n)"
        using named [OF f] by (auto simp: recovery_named_def)
    qed
  qed
  show ?thesis
    using merged appended by (simp add: upsertRecoveryNoticePart_def Let_def)
qed

lemma recoveryNoticeId_named:
  "recoveryNoticeId info ctx = rc_generateId ctx 0 \<or> startsWith (recoveryNoticeId info ctx) (js ''recovery:'')"
  by (auto simp: recoveryNoticeId_def startsWith_def split: option.splits)

lemma keeps_recovery:
  assumes u: "unique_ids (messages s)" and fr: "fr \<Longrightarrow> fresh_id (messages s) (rc_generateId ctx 0)"
  shows "keeps (messages s) fr (p_messages (onLlmRetry s v info k t ctx))"
    and "keeps (messages s) fr (p_messages (onLlmRecovery s v info k' ctx))"
    and "keeps (messages s) fr (p_messages (onLlmRecoveryFailed s info k c ctx))"
proof -
  have up: "keeps (messages s) fr (p_messages (upsertRecoveryNoticePart (messages s) i n st))"
    if "rn_id n = recoveryNoticeId info ctx" for i n st
    using keeps_upsert_notice [OF u] recoveryNoticeId_named [of info ctx] fr that by metis
  then show "keeps (messages s) fr (p_messages (onLlmRetry s v info k t ctx))"
    and "keeps (messages s) fr (p_messages (onLlmRecovery s v info k' ctx))"
    and "keeps (messages s) fr (p_messages (onLlmRecoveryFailed s info k c ctx))"
    using u by (auto simp: onLlmRetry_def onLlmRecovery_def onLlmRecoveryFailed_def
        dest!: recovery_messages split: option.splits)
qed

section \<open>Compaction\<close>

lemma set_compacted_simps [simp]:
  "msg_id (set_compacted c m) = msg_id m" "has_compaction (set_compacted c m) = has_compaction m"
  by (cases m; simp)+

lemma mark_compacted_simps [simp]:
  "msg_id (mark_compacted m) = msg_id m" "has_compaction (mark_compacted m) = has_compaction m"
  by (simp_all add: mark_compacted_def)

lemma recompact_id [simp]: "msg_id (recompact x t ts m) = msg_id m"
  by (cases m) simp_all

lemma has_compaction_user: "has_compaction m \<Longrightarrow> \<exists>u. m = UserMessage u"
  by (cases m) auto

text \<open>The Assistant messages before and after, up to the compaction flag.\<close>

definition same_assistants :: "SessionMessage list \<Rightarrow> SessionMessage list \<Rightarrow> bool" where
  "same_assistants ms ms' \<longleftrightarrow>
     (\<forall>a. AssistantMessage a \<in> set ms \<longrightarrow> (\<exists>c. AssistantMessage (a\<lparr>am_compacted := c\<rparr>) \<in> set ms'))
     \<and> (\<forall>a'. AssistantMessage a' \<in> set ms' \<longrightarrow> (\<exists>a c. AssistantMessage a \<in> set ms \<and> a' = a\<lparr>am_compacted := c\<rparr>))"

lemma same_assistants_refl: "same_assistants ms ms"
  unfolding same_assistants_def
  by (metis ModelStepAssistantMessage.surjective ModelStepAssistantMessage.update_convs(8))

lemma same_assistants_mark: "same_assistants ms (map mark_compacted ms)"
  unfolding same_assistants_def
proof (intro conjI allI impI)
  fix a assume "AssistantMessage a \<in> set ms"
  then have "mark_compacted (AssistantMessage a) \<in> set (map mark_compacted ms)" by simp
  then show "\<exists>c. AssistantMessage (a\<lparr>am_compacted := c\<rparr>) \<in> set (map mark_compacted ms)"
    by (auto simp: mark_compacted_def)
next
  fix a' assume "AssistantMessage a' \<in> set (map mark_compacted ms)"
  then obtain m where m: "m \<in> set ms" "mark_compacted m = AssistantMessage a'"
    unfolding set_map image_iff by metis
  show "\<exists>a c. AssistantMessage a \<in> set ms \<and> a' = a\<lparr>am_compacted := c\<rparr>"
    by (cases m) (use m in \<open>auto simp: mark_compacted_def split: if_splits\<close>)
qed

lemma same_assistants_append:
  "same_assistants xs xs' \<Longrightarrow> same_assistants ys ys' \<Longrightarrow> same_assistants (xs @ ys) (xs' @ ys')"
  unfolding same_assistants_def set_append by (meson Un_iff)

lemma same_assistants_users:
  assumes "\<And>a. AssistantMessage a \<in> set ms' \<longleftrightarrow> AssistantMessage a \<in> set ms''" "same_assistants ms ms'"
  shows "same_assistants ms ms''"
  using assms unfolding same_assistants_def by simp

lemma same_assistants_evolves:
  "same_assistants ms ms' \<Longrightarrow> transcript_evolves ms ms'"
  unfolding same_assistants_def transcript_evolves_def
proof (intro allI impI, elim conjE)
  fix a assume a: "AssistantMessage a \<in> set ms"
    and "\<forall>a. AssistantMessage a \<in> set ms \<longrightarrow> (\<exists>c. AssistantMessage (a\<lparr>am_compacted := c\<rparr>) \<in> set ms')"
  then obtain c where "AssistantMessage (a\<lparr>am_compacted := c\<rparr>) \<in> set ms'" by blast
  moreover have "message_evolves a (a\<lparr>am_compacted := c\<rparr>)"
    by (auto simp: message_evolves_def intro: part_evolves_refl)
  ultimately show "\<exists>a'. AssistantMessage a' \<in> set ms' \<and> message_evolves a a'" by blast
qed

definition compact_index :: "SessionMessage list \<Rightarrow> jstring \<Rightarrow> nat" where
  "compact_index ms tail = (case find_index (\<lambda>m. msg_id m = tail) ms of None \<Rightarrow> length ms | Some i \<Rightarrow> i)"

definition compact_marked :: "SessionMessage list \<Rightarrow> nat \<Rightarrow> SessionMessage list" where
  "compact_marked ms k = map mark_compacted (take k ms) @ drop k ms"

lemma compactMessages_eq:
  "compactMessages ms x tail ctx =
    (let k = compact_index ms tail; marked = compact_marked ms k in
     case find_index has_compaction marked of
       Some i \<Rightarrow> marked[i := recompact x tail (rc_timestamp ctx) (marked ! i)]
     | None \<Rightarrow> map mark_compacted (take k ms) @ [compaction_message x tail ctx] @ drop k ms)"
proof -
  have "k \<le> length ms \<Longrightarrow> take k (compact_marked ms k) = map mark_compacted (take k ms)
      \<and> drop k (compact_marked ms k) = drop k ms" for k
    by (simp add: compact_marked_def)
  moreover have "compact_index ms tail \<le> length ms"
    using find_index_SomeD [of "\<lambda>m. msg_id m = tail" ms] by (auto simp: compact_index_def less_imp_le split: option.splits)
  ultimately show ?thesis
    unfolding compactMessages_def Let_def compact_index_def [symmetric] compact_marked_def [symmetric]
    by (simp split: option.splits)
qed

lemma compact_marked_facts:
  "map msg_id (compact_marked ms k) = map msg_id ms" "same_assistants ms (compact_marked ms k)"
proof -
  show "map msg_id (compact_marked ms k) = map msg_id ms"
    unfolding compact_marked_def map_append map_map
    by (simp add: comp_def) (metis append_take_drop_id map_append)
  have "same_assistants (take k ms @ drop k ms) (compact_marked ms k)"
    unfolding compact_marked_def by (intro same_assistants_append same_assistants_mark same_assistants_refl)
  then show "same_assistants ms (compact_marked ms k)" by simp
qed

lemma update_user_mem:
  assumes "i < length ms" "ms ! i = UserMessage u" "m = UserMessage u'"
  shows "AssistantMessage a \<in> set (ms[i := m]) \<longleftrightarrow> AssistantMessage a \<in> set ms"
  using assms unfolding set_conv_nth by (auto simp: nth_list_update) (metis SessionMessage.distinct(1))

lemma compactMessages_facts:
  defines "ms' \<equiv> \<lambda>ms x tail ctx. compactMessages ms x tail ctx"
  shows "same_assistants ms (ms' ms x tail ctx)"
    and "rc_generateId ctx 1 \<notin> set (map msg_id ms) \<Longrightarrow> distinct (map msg_id ms) \<Longrightarrow> distinct (map msg_id (ms' ms x tail ctx))"
proof -
  let ?k = "compact_index ms tail"
  let ?m = "compact_marked ms ?k"
  note f = compact_marked_facts [of ms ?k]
  have "same_assistants ms (ms' ms x tail ctx) \<and> (rc_generateId ctx 1 \<notin> set (map msg_id ms) \<longrightarrow>
      distinct (map msg_id ms) \<longrightarrow> distinct (map msg_id (ms' ms x tail ctx)))"
  proof (cases "find_index has_compaction ?m")
    case None
    let ?new = "map mark_compacted (take ?k ms) @ [compaction_message x tail ctx] @ drop ?k ms"
    have eq: "ms' ms x tail ctx = ?new"
      using None by (simp add: ms'_def compactMessages_eq Let_def)
    have "same_assistants ms ?new"
      by (rule same_assistants_users [OF _ f(2)]) (auto simp: compact_marked_def compaction_message_def)
    moreover have "distinct (map msg_id ?new)"
      if "rc_generateId ctx 1 \<notin> set (map msg_id ms)" "distinct (map msg_id ms)"
    proof -
      have "distinct (map msg_id (take ?k ms @ drop ?k ms))" "set (take ?k ms @ drop ?k ms) = set ms"
        using that by simp_all
      then have "distinct (map msg_id (take ?k ms))" "distinct (map msg_id (drop ?k ms))"
          "msg_id ` set (take ?k ms) \<inter> msg_id ` set (drop ?k ms) = {}"
          "set (take ?k ms) \<union> set (drop ?k ms) = set ms"
        unfolding map_append distinct_append set_append by simp_all
      with that(1) show ?thesis by (auto simp: compaction_message_def comp_def)
    qed
    ultimately show ?thesis using eq by simp
  next
    case (Some i)
    then have i: "i < length ?m" "has_compaction (?m ! i)"
      by (auto dest: find_index_SomeD)
    then obtain u where u: "?m ! i = UserMessage u"
      using has_compaction_user by blast
    let ?new = "?m[i := recompact x tail (rc_timestamp ctx) (?m ! i)]"
    have eq: "ms' ms x tail ctx = ?new"
      using Some by (simp add: ms'_def compactMessages_eq Let_def)
    have "same_assistants ms ?new"
      by (rule same_assistants_users [OF _ f(2)]) (use update_user_mem [OF i(1) u] u in simp)
    moreover have "map msg_id ?new = map msg_id ms"
      using i(1) f(1) by (metis list_update_id map_update recompact_id)
    ultimately show ?thesis using eq by simp
  qed
  then show "same_assistants ms (ms' ms x tail ctx)"
    and "rc_generateId ctx 1 \<notin> set (map msg_id ms) \<Longrightarrow> distinct (map msg_id ms) \<Longrightarrow> distinct (map msg_id (ms' ms x tail ctx))"
    by blast+
qed

lemma keeps_compact:
  assumes u: "unique_ids (messages s)" and fr: "fr \<Longrightarrow> fresh_id (messages s) (rc_generateId ctx 1)"
  shows "keeps (messages s) fr (p_messages (onCompact s x tail ctx))"
proof -
  note c = compactMessages_facts [where ms = "messages s" and x = x and tail = tail and ctx = ctx]
  have "parts_ok (am_parts a)" if "AssistantMessage a \<in> set (compactMessages (messages s) x tail ctx)" for a
    using that c(1) u unfolding same_assistants_def unique_ids_def
    by (metis ModelStepAssistantMessage.select_convs(9) ModelStepAssistantMessage.surjective
        ModelStepAssistantMessage.update_convs(8))
  moreover have "fr \<Longrightarrow> distinct (map msg_id (compactMessages (messages s) x tail ctx))"
    using c(2) fr u by (auto simp: fresh_id_def unique_ids_def)
  ultimately show ?thesis
    using same_assistants_evolves [OF c(1)] by (simp add: onCompact_def keeps_Some unique_ids_def)
qed

section \<open>Every event\<close>

lemma event_keeps:
  assumes u: "unique_ids (messages s)" and step: "reduceStreamEvent lc s ev ctx = Inr p"
  shows "keeps (messages s) (event_fresh s (ev, ctx)) (p_messages p)"
proof -
  have f0: "event_fresh s (ev, ctx) \<Longrightarrow> fresh_id (messages s) (rc_generateId ctx 0)"
    and f1: "event_fresh s (ev, ctx) \<Longrightarrow> fresh_id (messages s) (rc_generateId ctx 1)"
    by (simp_all add: event_fresh_def)
  show ?thesis
  proof (cases ev)
    case (MessagesCommitted x new)
    have "event_fresh s (ev, ctx) \<Longrightarrow> unique_ids new"
      using MessagesCommitted by (simp add: event_fresh_def)
    from keeps_committed [OF u this] step MessagesCommitted show ?thesis by simp
  next
    case (Lifecycle e)
    with step keeps_lifecycle [OF u] show ?thesis by simp
  next
    case (ReminderAdded r)
    with step u show ?thesis by (auto simp: case_defs bindE_Inr_iff split: if_splits)
  next
    case (ToolInputStart c n)
    with step keeps_tool_events(1) [OF u f0] show ?thesis by simp
  next
    case (ToolCall c n i)
    with step keeps_tool_events(2) [OF u f0] show ?thesis by simp
  qed (use step u keeps_block_delta [OF u] keeps_block_end [OF u] keeps_block_start [OF u f0]
      keeps_tool_events(3-6) [OF u f0] keeps_stepStart [OF u f0] keeps_stepEnd [OF u]
      keeps_systemNotice [OF u f1] keeps_recovery [OF u f0] keeps_compact [OF u f1]
      in \<open>auto simp: onTextDelta_def onReasoningDelta_def onMessageReplaced_def onMessageDeleted_def
        onStopRequested_def onChildSessionLink_def onTodoWrite_def onReminderConsumed_def
        onExecutionError_def onPromptTrace_def Let_def split: option.splits\<close>)
qed

definition ids_unique :: "SessionProjection \<Rightarrow> bool" where
  "ids_unique s \<longleftrightarrow> unique_ids (messages s)"

text \<open>The transcript of a Session against the one a log started from.\<close>

definition transcript_since :: "SessionMessage list \<Rightarrow> SessionProjection \<Rightarrow> bool" where
  "transcript_since ms s \<longleftrightarrow> ids_unique s \<and> transcript_evolves ms (messages s)"

lemma transcript_since_step:
  assumes "transcript_since ms s" "event_fresh s (ev, ctx)" "reduceStreamEvent lc s ev ctx = Inr p"
  shows "transcript_since ms (apply_patch s p)"
  using assms event_keeps [OF _ assms(3)] transcript_evolves_trans
  by (auto simp: transcript_since_def ids_unique_def keeps_def)

interpretation transcript_log: log_invariant "reduce_step lc" event_fresh "transcript_since ms"
  for lc ms
  by unfold_locales (auto simp: reduce_step_def bindE_Inr_iff transcript_since_step)

section \<open>Evaluation\<close>

text \<open>The conditions on identifiers range over the messages of a list, and so they compute.\<close>

definition assistant_messages :: "SessionMessage list \<Rightarrow> ModelStepAssistantMessage list" where
  "assistant_messages ms = List.map_filter as_assistant ms"

lemma set_assistant_messages: "a \<in> set (assistant_messages ms) \<longleftrightarrow> AssistantMessage a \<in> set ms"
  unfolding assistant_messages_def
  by (induction ms) (auto simp: map_filter_simps split: option.splits elim!: as_assistant.elims)

lemma recovery_named_code [code]:
  "recovery_named p = (startsWith (part_id p) (js ''recovery:'') \<longrightarrow> (case p of AssistantRecovery _ \<Rightarrow> True | _ \<Rightarrow> False))"
  by (cases p) (simp_all add: recovery_named_def)

lemma unique_ids_code [code]:
  "unique_ids ms = (distinct (map msg_id ms) \<and> (\<forall>a \<in> set (assistant_messages ms). parts_ok (am_parts a)))"
  by (simp add: unique_ids_def set_assistant_messages Ball_def)

lemma fresh_id_code [code]:
  "fresh_id ms i = (i \<notin> set (map msg_id ms) \<and> \<not> startsWith i (js ''recovery:'')
     \<and> (\<forall>a \<in> set (assistant_messages ms). \<forall>q \<in> set (am_parts a). part_id q \<noteq> i))"
  by (auto simp: fresh_id_def set_assistant_messages)

section \<open>Properties\<close>

text \<open>
  C27: Over every log whose drawn identifiers are fresh, message and part identifiers stay unique and
  the transcript only evolves: no Assistant message is lost, moved to another step or run, or
  reopened, an open block only grows until it completes and then keeps its text, and every tool call
  follows its state machine.
\<close>
theorem log_evolves_transcript:
  assumes "unique_ids (messages s)" "run_ok (reduce_step lc) event_fresh s es"
    and "run_log (reduce_step lc) s es = Inr s'"
  shows "unique_ids (messages s') \<and> transcript_evolves (messages s) (messages s')"
  using transcript_log.run_inv [of "messages s" s lc es s'] assms
  by (simp add: transcript_since_def ids_unique_def)

text \<open>
  C28: The result of a tool call is final: once a tool part is completed or failed, every later
  transcript still has a part for that call in that message, in the same state, with the same
  result and the same times.
\<close>
theorem tool_result_is_final:
  assumes "unique_ids (messages s)" "run_ok (reduce_step lc) event_fresh s es"
    and "run_log (reduce_step lc) s es = Inr s'"
    and "AssistantMessage a \<in> set (messages s)" "AssistantTool t \<in> set (am_parts a)" "settled_tool t"
  shows "\<exists>a' t'. AssistantMessage a' \<in> set (messages s') \<and> am_id a' = am_id a
    \<and> AssistantTool t' \<in> set (am_parts a') \<and> tp_toolCallId (tool_base t') = tp_toolCallId (tool_base t)
    \<and> tool_state t' = tool_state t \<and> tool_result t' = tool_result t
    \<and> tool_startedAt t' = tool_startedAt t \<and> tool_endedAt t' = tool_endedAt t"
proof -
  have "transcript_evolves (messages s) (messages s')"
    using transcript_log.run_inv [of "messages s" s lc es s'] assms(1-3)
    by (simp add: transcript_since_def ids_unique_def)
  then obtain a' where a': "AssistantMessage a' \<in> set (messages s')" "message_evolves a a'"
    using assms(4) unfolding transcript_evolves_def by blast
  moreover have "\<not> empty_open (AssistantTool t)" by (simp add: empty_open_def)
  ultimately obtain q where q: "q \<in> set (am_parts a')" "part_evolves (AssistantTool t) q"
    using assms(5) unfolding message_evolves_def by blast
  from q(2) obtain t' where t': "q = AssistantTool t'" "tool_evolves t t'"
    by (cases q) auto
  have "tool_state t' = tool_state t"
    using t'(2) assms(6) tool_step_settled by (simp add: tool_evolves_def settled_tool_def)
  then show ?thesis
    using a' q(1) t' assms(6) by (auto simp: tool_evolves_def message_evolves_def)
qed

end
