(* ===== verification/SessionOutcome.thy ===== *)
theory SessionOutcome
  imports SessionLifecycle TranscriptEvents
begin

text \<open>
  The outcome of an Execution: when it ends nothing it streamed stays open, partial output of a
  failed Execution is marked as discarded, and the only messages that ever carry the phase
  \<open>final_answer\<close> are the ones a completed Execution selected, whose output is trusted.
\<close>

section \<open>Settling at the end\<close>

lemma interrupt_part_complete: "\<not> isIncompletePart (interrupt_part ts (settle_part d ts p))"
proof (cases p)
  case (AssistantTool t)
  then show ?thesis by (auto simp: interrupt_part_def)
qed (simp_all add: interrupt_part_def settle_block_def)

lemma settled_state_assistants:
  "AssistantMessage a' \<in> set (settleIncompleteState ms cur ts status) \<longleftrightarrow>
    (\<exists>a. AssistantMessage a \<in> set ms \<and> a' = (settle_message cur ts (status \<noteq> Completed) a)
      \<lparr>am_parts := map (interrupt_part ts) (am_parts (settle_message cur ts (status \<noteq> Completed) a))\<rparr>)"
  unfolding settleIncompleteState_def interruptIncompleteToolParts_def mem_map_assistant by auto

lemma settle_message_parts:
  "am_parts (settle_message cur ts d a) = map (settle_part d ts) (am_parts a)"
  by (simp add: settle_message_def Let_def)

lemma settled_complete:
  assumes "AssistantMessage a' \<in> set (settleIncompleteState ms cur ts status)" "p \<in> set (am_parts a')"
  shows "\<not> isIncompletePart p"
  using assms interrupt_part_complete by (auto simp: settled_state_assistants settle_message_parts)

lemma promote_assistants:
  "AssistantMessage a' \<in> set (promoteFinalAssistantOutput ms x st) \<longleftrightarrow>
    (\<exists>a. AssistantMessage a \<in> set ms \<and> a' = (if am_executionId a = x \<and> am_stepId a = st
       then a\<lparr>am_outputPhase := FinalAnswer\<rparr> else a))"
  unfolding promoteFinalAssistantOutput_def mem_map_assistant ..

lemma accepted_end:
  assumes "reduceStreamEvent lc s (Lifecycle (ExecutionEnd e)) ctx = Inr p" "p \<noteq> no_patch"
  obtains exs where "validateExecutionTransition (executions s) (ExecutionEnd e) = Valid"
    "validateExecutionFinalOutputSelection (messages s) (steps s) e = Valid"
    "endExecution (executions s) e = Inr exs" "p_executions p = Some exs"
    "p_messages p = Some (let settled = settleIncompleteState (messages s) (currentAssistantMessageId s)
        (en_endedAt e) (en_terminalStatus e) in
      case en_finalOutputStepId e of None \<Rightarrow> settled
      | Some st \<Rightarrow> promoteFinalAssistantOutput settled (en_executionId e) st)"
  using assms
  by (auto simp: reduceLifecycle_def onExecutionEnd_def bindE_Inr_iff Let_def final_output_ok_def split: if_splits)

text \<open>
  C29: When an Execution ends, nothing stays open: in the resulting transcript no part of any
  Assistant message is incomplete (no open block or notice, no pending or running tool call).
\<close>
theorem execution_end_closes_parts:
  assumes "reduceStreamEvent lc s (Lifecycle (ExecutionEnd e)) ctx = Inr p" "p \<noteq> no_patch"
    and "AssistantMessage a \<in> set (messages (apply_patch s p))" "q \<in> set (am_parts a)"
  shows "\<not> isIncompletePart q"
proof -
  obtain exs where m: "p_messages p = Some (let settled = settleIncompleteState (messages s)
        (currentAssistantMessageId s) (en_endedAt e) (en_terminalStatus e) in
      case en_finalOutputStepId e of None \<Rightarrow> settled
      | Some st \<Rightarrow> promoteFinalAssistantOutput settled (en_executionId e) st)"
    using accepted_end [OF assms(1,2)] by metis
  have "\<exists>a'. AssistantMessage a' \<in> set (settleIncompleteState (messages s) (currentAssistantMessageId s)
      (en_endedAt e) (en_terminalStatus e)) \<and> am_parts a' = am_parts a"
    using assms(3) m by (auto simp: Let_def promote_assistants split: option.splits if_splits)
  with settled_complete assms(4) show ?thesis by metis
qed

text \<open>
  Partial output of an Execution that did not complete is never mistaken for context: every
  block that was open when the Execution ended, with a status other than completed, is afterwards
  completed at the end time and flagged as interrupted and discarded, with its text kept.
\<close>
theorem execution_end_discards_partial_output:
  assumes "reduceStreamEvent lc s (Lifecycle (ExecutionEnd e)) ctx = Inr p" "p \<noteq> no_patch"
    and "en_terminalStatus e \<noteq> Completed"
    and "AssistantMessage a \<in> set (messages s)" "AssistantOutput b \<in> set (am_parts a)" "bp_completedAt b = None"
  shows "\<exists>a' b'. AssistantMessage a' \<in> set (messages (apply_patch s p)) \<and> am_id a' = am_id a
    \<and> AssistantOutput b' \<in> set (am_parts a') \<and> bp_id b' = bp_id b \<and> bp_text b' = bp_text b
    \<and> bp_completedAt b' = Some (en_endedAt e) \<and> meta_flag (bp_meta b') ''interrupted''
    \<and> meta_flag (bp_meta b') ''discardedFromContext'' \<and> \<not> trusted_block b'"
proof -
  let ?settle = "settle_message (currentAssistantMessageId s) (en_endedAt e) True"
  let ?a' = "(?settle a)\<lparr>am_parts := map (interrupt_part (en_endedAt e)) (am_parts (?settle a))\<rparr>"
  let ?b' = "b\<lparr>bp_completedAt := Some (en_endedAt e), bp_meta := discard_meta (bp_meta b)\<rparr>"
  obtain exs where v: "validateExecutionFinalOutputSelection (messages s) (steps s) e = Valid"
    and m: "p_messages p = Some (let settled = settleIncompleteState (messages s)
        (currentAssistantMessageId s) (en_endedAt e) (en_terminalStatus e) in
      case en_finalOutputStepId e of None \<Rightarrow> settled
      | Some st \<Rightarrow> promoteFinalAssistantOutput settled (en_executionId e) st)"
    using accepted_end [OF assms(1,2)] by metis
  have none: "en_finalOutputStepId e = None"
    using v assms(3) by (auto simp: validateExecutionFinalOutputSelection_def split: option.splits)
  have "AssistantMessage ?a' \<in> set (messages (apply_patch s p))"
    using m none assms(3,4) by (auto simp: Let_def settled_state_assistants)
  moreover have "interrupt_part (en_endedAt e) (settle_part True (en_endedAt e) (AssistantOutput b)) = AssistantOutput ?b'"
    using assms(6) by (simp add: settle_block_def interrupt_part_def)
  then have "AssistantOutput ?b' \<in> set (am_parts ?a')"
    using assms(5) by (force simp: settle_message_parts)
  moreover have "am_id ?a' = am_id a" by (simp add: settle_message_def Let_def)
  moreover have "\<not> trusted_block ?b'" by (simp add: trusted_block_def)
  moreover have "meta_flag (bp_meta ?b') ''interrupted''" "meta_flag (bp_meta ?b') ''discardedFromContext''"
    by simp_all
  ultimately show ?thesis
    by (intro exI [of _ ?a'] exI [of _ ?b'] conjI) simp_all
qed

section \<open>Final answers\<close>

definition final_heads :: "SessionMessage list \<Rightarrow> (jstring \<times> jstring) set" where
  "final_heads ms = {(am_executionId a, am_stepId a) | a. AssistantMessage a \<in> set ms \<and> am_outputPhase a = FinalAnswer}"

lemma final_heads_append [simp]: "final_heads (xs @ ys) = final_heads xs \<union> final_heads ys"
  by (auto simp: final_heads_def)

lemma final_heads_none: "(\<And>a. AssistantMessage a \<in> set ms \<Longrightarrow> am_outputPhase a \<noteq> FinalAnswer) \<Longrightarrow> final_heads ms = {}"
  by (auto simp: final_heads_def)

lemma final_heads_map:
  assumes "\<And>a. am_executionId (g a) = am_executionId a \<and> am_stepId (g a) = am_stepId a \<and> am_outputPhase (g a) = am_outputPhase a"
  shows "final_heads (map (map_assistant g) ms) = final_heads ms"
proof (rule set_eqI)
  fix h
  show "h \<in> final_heads (map (map_assistant g) ms) \<longleftrightarrow> h \<in> final_heads ms"
    unfolding final_heads_def mem_Collect_eq mem_map_assistant using assms by metis
qed

lemma final_heads_parts [simp]: "final_heads (map_parts_of i f ms) = final_heads ms"
  unfolding map_parts_of_def by (rule final_heads_map) simp

lemma final_heads_updates [simp]:
  "final_heads (updateMessagePart ms i j f) = final_heads ms"
  "final_heads (removeMessagePart ms i j) = final_heads ms"
  "final_heads (appendPartToMessage ms i q) = final_heads ms"
  "final_heads (completeAssistantMessageForStep ms st t) = final_heads ms"
  "final_heads (markAssistantModelOutputInterruptedForStep ms st t) = final_heads ms"
  by (simp_all add: updateMessagePart_def removeMessagePart_def appendPartToMessage_def
      completeAssistantMessageForStep_def markAssistantModelOutputInterruptedForStep_def final_heads_map)

lemma final_heads_settle [simp]: "final_heads (settleIncompleteState ms cur t status) = final_heads ms"
proof -
  have "final_heads (map (map_assistant (settle_message cur t d)) ms) = final_heads ms" for d
    by (rule final_heads_map) (simp add: settle_message_def Let_def)
  moreover have "final_heads (interruptIncompleteToolParts ns t) = final_heads ns" for ns
    unfolding interruptIncompleteToolParts_def by (rule final_heads_map) simp
  ultimately show ?thesis unfolding settleIncompleteState_def by presburger
qed

lemma final_heads_promote: "final_heads (promoteFinalAssistantOutput ms x st) \<subseteq> insert (x, st) (final_heads ms)"
  unfolding final_heads_def promote_assistants by (auto split: if_splits)

lemma final_heads_compact [simp]: "final_heads (compactMessages ms x tail ctx) = final_heads ms"
proof (rule set_eqI)
  fix h
  have same: "same_assistants ms (compactMessages ms x tail ctx)"
    by (rule compactMessages_facts(1))
  show "h \<in> final_heads (compactMessages ms x tail ctx) \<longleftrightarrow> h \<in> final_heads ms"
  proof
    assume "h \<in> final_heads ms"
    then obtain a where a: "AssistantMessage a \<in> set ms" "h = (am_executionId a, am_stepId a)" "am_outputPhase a = FinalAnswer"
      by (auto simp: final_heads_def)
    with same obtain c where "AssistantMessage (a\<lparr>am_compacted := c\<rparr>) \<in> set (compactMessages ms x tail ctx)"
      unfolding same_assistants_def by blast
    with a show "h \<in> final_heads (compactMessages ms x tail ctx)"
      unfolding final_heads_def by (intro CollectI exI [of _ "a\<lparr>am_compacted := c\<rparr>"]) simp
  next
    assume "h \<in> final_heads (compactMessages ms x tail ctx)"
    then obtain a' where a': "AssistantMessage a' \<in> set (compactMessages ms x tail ctx)"
        "h = (am_executionId a', am_stepId a')" "am_outputPhase a' = FinalAnswer"
      by (auto simp: final_heads_def)
    with same obtain a c where "AssistantMessage a \<in> set ms" "a' = a\<lparr>am_compacted := c\<rparr>"
      unfolding same_assistants_def by blast
    with a' show "h \<in> final_heads ms" by (auto simp: final_heads_def)
  qed
qed

lemma final_heads_filter: "final_heads (filter P ms) \<subseteq> final_heads ms"
  by (auto simp: final_heads_def)

lemma upsert_heads [simp]:
  "final_heads (present (p_messages (upsertRecoveryNoticePart ms i n st)) ms) = final_heads ms"
  by (simp add: upsertRecoveryNoticePart_def Let_def)

text \<open>What an event may assume: a commit brings no final answer with it.\<close>

definition commits_no_final :: "StreamEvent \<Rightarrow> bool" where
  "commits_no_final ev \<longleftrightarrow> (case ev of MessagesCommitted _ ms \<Rightarrow>
     list_all (\<lambda>m. case m of AssistantMessage a \<Rightarrow> am_outputPhase a \<noteq> FinalAnswer | _ \<Rightarrow> True) ms | _ \<Rightarrow> True)"

lemma commits_no_final_heads: "commits_no_final (MessagesCommitted i ms) \<Longrightarrow> final_heads ms = {}"
  by (intro final_heads_none) (auto simp: commits_no_final_def list_all_iff)

lemma block_part_heads:
  "final_heads (present (p_messages (block_delta c s st b d)) (messages s)) = final_heads (messages s)"
  "final_heads (present (p_messages (appendBlockPart c (messages s) i b t x ctx)) (messages s)) = final_heads (messages s)"
  by (auto simp: block_delta_def appendBlockPart_def Let_def split: option.splits)

lemma recovery_heads:
  "final_heads (present (p_messages (onLlmRetry s v info k t ctx)) (messages s)) = final_heads (messages s)"
  "final_heads (present (p_messages (onLlmRecovery s v info k' ctx)) (messages s)) = final_heads (messages s)"
  "final_heads (present (p_messages (onLlmRecoveryFailed s info k c ctx)) (messages s)) = final_heads (messages s)"
  by (auto simp: onLlmRetry_def onLlmRecovery_def onLlmRecoveryFailed_def dest!: recovery_messages
      split: option.splits)

lemma tool_event_heads:
  "onToolInputStart s c n ctx = Inr p \<Longrightarrow> final_heads (present (p_messages p) (messages s)) = final_heads (messages s)"
  "onToolCall s c n i ctx = Inr p \<Longrightarrow> final_heads (present (p_messages p) (messages s)) = final_heads (messages s)"
  by (auto simp: onToolInputStart_def onToolCall_def bindE_Inr_iff Let_def dest!: ensure_messages
      split: if_splits option.splits)

lemma event_heads:
  assumes "reduceStreamEvent lc s ev ctx = Inr p" "\<not> is_lifecycle ev" "commits_no_final ev"
  shows "final_heads (present (p_messages p) (messages s)) \<subseteq> final_heads (messages s)"
proof (cases ev)
  case (MessagesCommitted i ms)
  then have "final_heads ms = {}" using assms(3) commits_no_final_heads by blast
  then have "final_heads (filter P ms) = {}" for P using final_heads_filter [of P ms] by blast
  with MessagesCommitted assms(1) show ?thesis
    by (auto simp: onMessagesCommitted_def Let_def)
next
  case (ToolInputStart c n)
  with assms(1) tool_event_heads(1) show ?thesis by simp
next
  case (ToolCall c n i)
  with assms(1) tool_event_heads(2) show ?thesis by simp
next
  case (ReminderAdded r)
  with assms(1) show ?thesis by (auto simp: onReminder_def add_reminder_def bindE_Inr_iff split: if_splits)
next
  case (StepStart i n)
  have "final_heads [AssistantMessage a] = {}" if "am_outputPhase a = Commentary" for a
    using that by (simp add: final_heads_def)
  with StepStart assms(1) show ?thesis
    by (auto simp: onStepStart_def Let_def split: option.splits if_splits)
next
  case (SystemNotice m)
  have "final_heads [UserMessage u] = {}" for u by (simp add: final_heads_def)
  with SystemNotice assms(1) show ?thesis by (auto simp: onSystemNotice_def Let_def)
qed (use assms recovery_heads block_part_heads in \<open>auto simp: onTextDelta_def onReasoningDelta_def
      onTextStart_def onReasoningStart_def onTextEnd_def onReasoningEnd_def appendAssistantOutputPart_def
      appendReasoningPart_def onToolInputResolved_def onToolAttempt_def onToolOutputDelta_def onToolResult_def
      update_tool_def onMessageReplaced_def onMessageDeleted_def onStopRequested_def onChildSessionLink_def
      onTodoWrite_def onReminderConsumed_def onStepEnd_def onExecutionError_def onPromptTrace_def onCompact_def
      Let_def split: option.splits if_splits\<close>)

definition selected_by :: "SessionExecutionRecord \<Rightarrow> jstring \<Rightarrow> bool" where
  "selected_by e st \<longleftrightarrow> (case ex_state e of Terminal status _ final _ _ \<Rightarrow> status = Completed \<and> final = Some st | _ \<Rightarrow> False)"

definition finals_selected :: "SessionProjection \<Rightarrow> bool" where
  "finals_selected s \<longleftrightarrow> wf_executions (executions s)
     \<and> (\<forall>h \<in> final_heads (messages s). \<exists>e \<in> set (executions s). ex_id e = fst h \<and> selected_by e (snd h))"

lemma selected_terminal: "selected_by e st \<Longrightarrow> is_terminal (ex_state e)"
  by (auto simp: selected_by_def split: SessionExecutionState.splits)

lemma finals_selected_step:
  assumes inv: "finals_selected s" and ok: "commits_no_final ev"
    and step: "reduceStreamEvent lc s ev ctx = Inr p"
  shows "finals_selected (apply_patch s p)"
proof -
  let ?exs = "present (p_executions p) (executions s)"
  have wf: "wf_executions (executions s)" using inv by (simp add: finals_selected_def)
  have keep: "\<exists>e' \<in> set ?exs. ex_id e' = ex_id e \<and> selected_by e' st"
    if "e \<in> set (executions s)" "selected_by e st" for e st
  proof -
    have "holds_terminal e s"
      unfolding holds_terminal_def using wf that same_but_stop_refl [of e] selected_terminal [of e st] by blast
    from holds_terminal_step [OF this step] obtain e' where "e' \<in> set ?exs" "same_but_stop e e'"
      by (auto simp: holds_terminal_def)
    with same_but_stop_fields [of e e'] that show ?thesis by (auto simp: selected_by_def)
  qed
  have old: "\<exists>e \<in> set ?exs. ex_id e = fst h \<and> selected_by e (snd h)" if "h \<in> final_heads (messages s)" for h
    using that inv keep by (fastforce simp: finals_selected_def)
  have "\<exists>e \<in> set ?exs. ex_id e = fst h \<and> selected_by e (snd h)"
    if h: "h \<in> final_heads (present (p_messages p) (messages s))" for h
  proof (cases "is_lifecycle ev \<and> p \<noteq> no_patch")
    case False
    then consider "\<not> is_lifecycle ev" | "p = no_patch" by blast
    then have "h \<in> final_heads (messages s)"
      using h event_heads [OF step _ ok] by cases auto
    then show ?thesis by (rule old)
  next
    case True
    then obtain l where ev: "ev = Lifecycle l" by (cases ev) auto
    show ?thesis
    proof (cases l)
      case (ExecutionEnd e)
      obtain exs where v: "validateExecutionTransition (executions s) (ExecutionEnd e) = Valid"
          "validateExecutionFinalOutputSelection (messages s) (steps s) e = Valid"
          "endExecution (executions s) e = Inr exs" "p_executions p = Some exs"
        and m: "p_messages p = Some (let settled = settleIncompleteState (messages s) (currentAssistantMessageId s)
              (en_endedAt e) (en_terminalStatus e) in
            case en_finalOutputStepId e of None \<Rightarrow> settled
            | Some st \<Rightarrow> promoteFinalAssistantOutput settled (en_executionId e) st)"
        using accepted_end [OF step [unfolded ev ExecutionEnd]] True by metis
      show ?thesis
      proof (cases "h \<in> final_heads (messages s)")
        case True
        then show ?thesis by (rule old)
      next
        case False
        obtain st where st: "en_finalOutputStepId e = Some st" "h = (en_executionId e, st)"
          using h m False final_heads_promote by (fastforce simp: Let_def split: option.splits)
        have completed: "en_terminalStatus e = Completed"
          using v(2) st(1) by (auto simp: validateExecutionFinalOutputSelection_def split: if_splits)
        have d: "distinct (map ex_id (executions s))" using wf by (simp add: wf_executions_def)
        obtain x x' where x: "find_execution (executions s) (en_executionId e) = Some x" "exec_step (ExecutionEnd e) 0 x x'"
            "lifecycleExecutions (executions s) (ExecutionEnd e) 0
              = Inr (replace_execution (en_executionId e) x' (executions s))"
          using lifecycle_refines [OF d v(1), of 0] by (auto simp: is_start_def lifecycle_executionId_def)
        have "selected_by x' st"
          using x(2) st(1) completed by (auto simp: selected_by_def elim!: exec_step.cases)
        moreover have "x' \<in> set exs"
          using mem_replace_execution [OF d x(1), of x'] x(3) v(3) by (simp add: lifecycleExecutions_def)
        moreover have "ex_id x' = en_executionId e"
          using exec_step_id [OF x(2)] x(1) find_execution_Some_iff [OF d] by simp
        ultimately show ?thesis using v(4) st(2) by auto
      qed
    qed (use old h step ev True in \<open>auto simp: reduceLifecycle_def case_defs bindE_Inr_iff Let_def split: if_splits\<close>)
  qed
  with patch_executions_wf [OF wf step] show ?thesis
    by (simp add: finals_selected_def)
qed

interpretation finals_log: log_invariant "reduce_step lc" "\<lambda>_ ec. commits_no_final (fst ec)" finals_selected
  for lc
  by unfold_locales (auto simp: reduce_step_def bindE_Inr_iff finals_selected_step)

text \<open>
  Over every log that commits no final answer of its own, a message is in the phase
  \<open>final_answer\<close> only if the Execution it belongs to has ended as completed and selected exactly
  the model step of that message as its final output.
\<close>
theorem final_answer_was_selected:
  assumes "finals_selected s" "\<And>e. e \<in> set es \<Longrightarrow> commits_no_final (fst e)"
    and "run_log (reduce_step lc) s es = Inr s'"
    and "AssistantMessage a \<in> set (messages s')" "am_outputPhase a = FinalAnswer"
  shows "\<exists>e \<in> set (executions s'). ex_id e = am_executionId a \<and> selected_by e (am_stepId a)"
proof -
  have "finals_selected s'"
    using finals_log.run_inv_events [OF assms(1) _ assms(3)] assms(2) by blast
  moreover have "(am_executionId a, am_stepId a) \<in> final_heads (messages s')"
    using assms(4,5) by (auto simp: final_heads_def)
  ultimately show ?thesis by (force simp: finals_selected_def)
qed

end
