(* ===== verification/SessionContents.thy ===== *)
theory SessionContents
  imports ReducerFrames
begin

text \<open>
  What a Session holds beside its transcript: todos and child links stay within their capacity, a
  reminder is delivered once, the compression blocks stay partitioned by status, and a commit moves
  every queued message into the transcript exactly once.
\<close>

section \<open>Capacity\<close>

definition within_capacity :: "collation \<Rightarrow> SessionProjection \<Rightarrow> bool" where
  "within_capacity lc s \<longleftrightarrow> areTodosValid (todos s)
     \<and> distinct (map link_key (childSessionLinks s))
     \<and> directChildContextCapacityViolation (projectLatestDirectChildContext lc (childSessionLinks s)) = None"

lemma child_link_patch:
  assumes "reduceStreamEvent lc s ev ctx = Inr p" "distinct (map link_key (childSessionLinks s))"
    and "directChildContextCapacityViolation (projectLatestDirectChildContext lc (childSessionLinks s)) = None"
  shows "distinct (map link_key (present (p_childSessionLinks p) (childSessionLinks s)))
    \<and> directChildContextCapacityViolation
        (projectLatestDirectChildContext lc (present (p_childSessionLinks p) (childSessionLinks s))) = None"
proof (cases "is_child_link ev")
  case True
  then obtain l where "ev = ChildSessionLinkEvent l" by (cases ev) auto
  with assms show ?thesis
    by (auto simp: onChildSessionLink_def Let_def child_links.distinct_upsert split: if_splits)
next
  case False
  with assms frame_childLinks show ?thesis by auto
qed

lemma todo_patch:
  assumes "reduceStreamEvent lc s ev ctx = Inr p" "areTodosValid (todos s)"
  shows "areTodosValid (present (p_todos p) (todos s))"
proof (cases "is_todo_write ev")
  case True
  then obtain ts where "ev = TodoWrite ts" by (cases ev) auto
  with assms show ?thesis by (auto simp: onTodoWrite_def split: if_splits)
next
  case False
  with assms frame_todos show ?thesis by auto
qed

interpretation capacity_log: log_invariant "reduce_step lc" "\<lambda>_ _. True" "within_capacity lc"
  for lc
proof unfold_locales
  fix s e s'
  assume inv: "within_capacity lc s" and "reduce_step lc s e = Inr s'"
  then obtain p where p: "reduceStreamEvent lc s (fst e) (snd e) = Inr p" "s' = apply_patch s p"
    by (auto simp: reduce_step_def bindE_Inr_iff)
  with inv todo_patch [OF p(1)] child_link_patch [OF p(1)] show "within_capacity lc s'"
    by (simp add: within_capacity_def)
qed

lemma capacity_bounds:
  assumes "directChildContextCapacityViolation (projectLatestDirectChildContext lc links) = None"
  shows "card (cl_childSessionId ` set links) \<le> MAX_DIRECT_CHILD_SESSIONS"
  using assms
  by (auto simp: directChildContextCapacityViolation_def projectLatestDirectChildContext_def
      select_latest_links split: if_splits)

text \<open>
  C33: Whatever the log, the todos of a Session stay within their limits (at most 32, at most 24 KiB
  serialized, known statuses, at most one in progress), its child links keep one entry per parent
  call, child and child Execution, and they name at most 64 child Sessions.
\<close>
theorem log_keeps_capacity:
  assumes "within_capacity lc s" "run_log (reduce_step lc) s es = Inr s'"
  shows "length (todos s') \<le> 32 \<and> utf8ByteLength (json_todos (todos s')) \<le> 24576
    \<and> length (filter (\<lambda>t. td_status t = js ''in_progress'') (todos s')) \<le> 1
    \<and> distinct (map link_key (childSessionLinks s'))
    \<and> card (cl_childSessionId ` set (childSessionLinks s')) \<le> 64"
proof -
  have inv: "within_capacity lc s'"
    using capacity_log.run_inv_events [OF assms(1) _ assms(2)] by simp
  then have "card (cl_childSessionId ` set (childSessionLinks s')) \<le> 64"
    using capacity_bounds by (metis MAX_DIRECT_CHILD_SESSIONS_def within_capacity_def)
  with inv show ?thesis
    by (simp add: within_capacity_def areTodosValid_iff MAX_SESSION_TODOS_def
        MAX_SESSION_TODOS_SERIALIZED_BYTES_def)
qed

section \<open>Reminders\<close>

definition sub_agent_keys :: "Reminder list \<Rightarrow> (js_error + jstring) list" where
  "sub_agent_keys rs = map (\<lambda>r. subAgentReminderKey (rm_source r)) (filter isSubAgentReminder rs)"

definition reminders_unique :: "SessionProjection \<Rightarrow> bool" where
  "reminders_unique s \<longleftrightarrow> distinct (map rm_id (reminders s)) \<and> distinct (sub_agent_keys (reminders s))"

text \<open>A reminder keeps its place, and once consumed it is never touched again.\<close>

definition reminder_evolves :: "Reminder \<Rightarrow> Reminder \<Rightarrow> bool" where
  "reminder_evolves r r' \<longleftrightarrow> r'\<lparr>rm_consumedAt := None\<rparr> = r\<lparr>rm_consumedAt := None\<rparr>
     \<and> (rm_consumedAt r \<noteq> None \<longrightarrow> r' = r)"

definition reminders_evolve :: "Reminder list \<Rightarrow> Reminder list \<Rightarrow> bool" where
  "reminders_evolve rs rs' \<longleftrightarrow> list_all2 reminder_evolves rs (take (length rs) rs')"

lemma reminder_evolves_refl [simp]: "reminder_evolves r r"
  by (simp add: reminder_evolves_def)

lemma reminder_evolves_trans: "reminder_evolves a b \<Longrightarrow> reminder_evolves b c \<Longrightarrow> reminder_evolves a c"
  by (auto simp: reminder_evolves_def)

lemma reminders_evolve_refl [simp]: "reminders_evolve rs rs"
  by (simp add: reminders_evolve_def list_all2_refl)

lemma reminders_evolve_trans:
  assumes "reminders_evolve a b" "reminders_evolve b c"
  shows "reminders_evolve a c"
proof -
  have len: "length a \<le> length b"
    using assms(1) by (auto simp: reminders_evolve_def dest: list_all2_lengthD)
  have "list_all2 reminder_evolves (take (length a) b) (take (length a) (take (length b) c))"
    using assms(2) unfolding reminders_evolve_def by (rule list_all2_takeI)
  then have "list_all2 reminder_evolves (take (length a) b) (take (length a) c)"
    using len by (simp add: min_def)
  from list_all2_trans [OF reminder_evolves_trans assms(1) [unfolded reminders_evolve_def] this] show ?thesis
    by (simp add: reminders_evolve_def)
qed

lemma consume_evolves: "reminder_evolves r (consume_reminder ids t r)"
  by (auto simp: reminder_evolves_def consume_reminder_def)

lemma consume_fields [simp]:
  "rm_id (consume_reminder ids t r) = rm_id r" "rm_source (consume_reminder ids t r) = rm_source r"
  by (simp_all add: consume_reminder_def)

lemma consume_sub_agent [simp]: "isSubAgentReminder (consume_reminder ids t r) = isSubAgentReminder r"
  by (simp add: isSubAgentReminder_def)

lemma reminder_patch:
  assumes step: "reduceStreamEvent lc s ev ctx = Inr p" and inv: "reminders_unique s"
  shows "reminders_unique (apply_patch s p) \<and> reminders_evolve (reminders s) (reminders (apply_patch s p))"
proof (cases "touches_reminders ev")
  case False
  with frame_reminders [OF step] inv show ?thesis by (simp add: reminders_unique_def)
next
  case True
  then consider (added) r where "ev = ReminderAdded r" | (consumed) ids where "ev = ReminderConsumed ids"
    by (cases ev) auto
  then show ?thesis
  proof cases
    case added
    have "reminders_unique (apply_patch s (add_reminder s r))
        \<and> reminders_evolve (reminders s) (reminders (apply_patch s (add_reminder s r)))"
      if "rm_id r \<notin> rm_id ` set (reminders s)"
        "isSubAgentReminder r \<Longrightarrow> subAgentReminderKey (rm_source r) \<notin> set (sub_agent_keys (reminders s))"
      using that inv
      by (auto simp: reminders_unique_def add_reminder_def sub_agent_keys_def reminders_evolve_def
          isSubAgentReminder_def list_all2_refl)
    moreover have "p = no_patch \<or> p = add_reminder s r \<and> rm_id r \<notin> rm_id ` set (reminders s)
        \<and> (isSubAgentReminder r \<longrightarrow> subAgentReminderKey (rm_source r) \<notin> set (sub_agent_keys (reminders s)))"
      using step added by (auto simp: onReminder_def bindE_Inr_iff sub_agent_keys_def split: if_splits)
    ultimately show ?thesis using inv by (auto simp only: apply_no_patch reminders_evolve_refl)
  next
    case consumed
    have "rm_id \<circ> consume_reminder ids t = rm_id"
      "sub_agent_keys (map (consume_reminder ids t) rs) = sub_agent_keys rs"
      "reminders_evolve rs (map (consume_reminder ids t) rs)" for t rs
      by (auto simp: sub_agent_keys_def filter_map comp_def reminders_evolve_def list_all2_conv_all_nth
          consume_evolves)
    with step consumed inv show ?thesis
      by (auto simp: onReminderConsumed_def reminders_unique_def)
  qed
qed

definition reminders_since :: "SessionProjection \<Rightarrow> SessionProjection \<Rightarrow> bool" where
  "reminders_since s0 s \<longleftrightarrow> reminders_unique s \<and> reminders_evolve (reminders s0) (reminders s)"

interpretation reminder_log: log_invariant "reduce_step lc" "\<lambda>_ _. True" "reminders_since s0"
  for lc s0
proof unfold_locales
  fix s e s'
  assume inv: "reminders_since s0 s" and "reduce_step lc s e = Inr s'"
  then obtain p where p: "reduceStreamEvent lc s (fst e) (snd e) = Inr p" "s' = apply_patch s p"
    by (auto simp: reduce_step_def bindE_Inr_iff)
  with inv reminder_patch [OF p(1)] reminders_evolve_trans show "reminders_since s0 s'"
    unfolding reminders_since_def by blast
qed

text \<open>
  C32: A reminder is delivered once: over every log reminder identifiers, and the keys by which a
  child Session reports, stay unique; no reminder is ever removed, moved or rewritten; and once it is
  consumed its consumption time never changes.
\<close>
theorem log_delivers_reminders_once:
  assumes "reminders_unique s" "run_log (reduce_step lc) s es = Inr s'"
  shows "reminders_unique s' \<and> reminders_evolve (reminders s) (reminders s')"
  using reminder_log.run_inv_events [of s s es lc s'] assms by (simp_all add: reminders_since_def)

section \<open>Compression\<close>

definition compression_filed :: "SessionProjection \<Rightarrow> bool" where
  "compression_filed s \<longleftrightarrow> (\<forall>st. compression s = Some st \<longrightarrow> partitioned st)
     \<and> (\<forall>bs. compressionBlocks s = Some bs \<longrightarrow> distinct (map cbp_blockRef bs))"

text \<open>An event may carry the whole compression state; then it has to be partitioned itself.\<close>

definition carries_partitioned :: "StreamEvent \<Rightarrow> bool" where
  "carries_partitioned ev \<longleftrightarrow> (case ev of
     Compression (BlockCommitted _ (Some st)) \<Rightarrow> partitioned st
   | Compression (BlockFailed _ (Some st)) \<Rightarrow> partitioned st
   | _ \<Rightarrow> True)"

lemma filed_base: "compression_filed s \<Longrightarrow> partitioned (base_state (compression s))"
  by (auto simp: compression_filed_def intro: base_state_partitioned)

lemma commit_filed:
  "compression_filed s \<Longrightarrow> partitioned (commitCompressionBlockSnapshot (compression s) block t)"
  by (rule commit_partitioned) (use filed_base in \<open>simp add: partitioned_def\<close>)

lemma ref_map_filed: "partitioned st \<Longrightarrow> partitioned (st\<lparr>cs_refMap := m, cs_updatedAt := t\<rparr>)"
  by (simp add: partitioned_def)

lemma block_part_refs:
  "compression_filed s \<Longrightarrow> distinct (map cbp_blockRef
     (upsertCompressionBlockPart (case compressionBlocks s of None \<Rightarrow> [] | Some bs \<Rightarrow> bs) block t g))"
  unfolding upsertCompressionBlockPart_def
  by (rule block_parts.distinct_upsert) (auto simp: compression_filed_def split: option.splits)

lemma compression_patch:
  assumes step: "reduceStreamEvent lc s ev ctx = Inr p" and inv: "compression_filed s"
    and ok: "carries_partitioned ev"
  shows "compression_filed (apply_patch s p)"
proof (cases "touches_compression ev")
  case False
  with frame_compression [OF step] inv show ?thesis by (simp add: compression_filed_def)
next
  case True
  then consider (compact) x t where "ev = Compact x t" | (compress) c where "ev = Compression c"
    by (cases ev) auto
  then show ?thesis
  proof cases
    case compact
    with step show ?thesis by (auto simp: onCompact_def compression_filed_def)
  next
    case compress
    have keep: "\<forall>bs. compressionBlocks s = Some bs \<longrightarrow> distinct (map cbp_blockRef bs)"
      using inv by (simp add: compression_filed_def)
    show ?thesis
    proof (cases c)
      case (BlockCommitted b st)
      with step compress ok commit_filed [OF inv] block_part_refs [OF inv] show ?thesis
        by (auto simp: onBlockCommitted_def compression_filed_def carries_partitioned_def split: option.splits)
    next
      case (BlockFailed f st)
      with step compress ok failure_partitioned [OF filed_base [OF inv]] keep show ?thesis
        by (auto simp: onBlockFailed_def compression_filed_def carries_partitioned_def split: option.splits)
    next
      case (RefMapUpdated m t)
      with step compress ref_map_filed [OF filed_base [OF inv]] keep show ?thesis
        by (auto simp: onRefMapUpdated_def compression_filed_def Let_def)
    qed
  qed
qed

interpretation compression_log: log_invariant "reduce_step lc" "\<lambda>_ ec. carries_partitioned (fst ec)" compression_filed
  for lc
  by unfold_locales (auto simp: reduce_step_def bindE_Inr_iff compression_patch)

text \<open>
  The compression state of a Session is a partition over every log whose snapshots are: each
  recorded block is filed under its own reference, and it is listed among the active, the inactive or
  the superseded references exactly as its status says.
\<close>
theorem log_keeps_compression_partition:
  assumes "compression_filed s" "\<And>e. e \<in> set es \<Longrightarrow> carries_partitioned (fst e)"
    and "run_log (reduce_step lc) s es = Inr s'"
    and "compression s' = Some st" "map_of (cs_blocksByRef st) r = Some b"
  shows "cb_ref b = r \<and> (r \<in> set (cs_activeBlockRefs st) \<longleftrightarrow> cb_status b = BlockActive)
    \<and> (r \<in> set (cs_inactiveBlockRefs st) \<longleftrightarrow> cb_status b = BlockInactive)
    \<and> (r \<in> set (cs_supersededBlockRefs st) \<longleftrightarrow> cb_status b = BlockSuperseded)"
proof -
  have part: "partitioned st"
    using compression_log.run_inv_events [OF assms(1) _ assms(3)] assms(2,4)
    by (auto simp: compression_filed_def)
  then have "cb_ref b = r"
    using map_of_SomeD [OF assms(5)] by (auto simp: partitioned_def filed_blocks_def)
  with partitioned_mem [OF part assms(5)] show ?thesis by blast
qed

section \<open>Committing queued messages\<close>

lemma filter_new_ids:
  assumes "distinct (map f xs)" "distinct (map f ys)"
  shows "distinct (map f (xs @ filter (\<lambda>y. f y \<notin> set (map f xs)) ys))"
  using assms by (auto simp: distinct_map_filter) (metis image_eqI)

text \<open>
  Committing queued messages delivers each of them exactly once: the transcript keeps its
  messages and ends with exactly the committed messages it did not know, no committed message is
  still queued and every other one is, and committing the same messages again changes nothing.
\<close>
theorem commit_delivers_exactly_once:
  assumes "distinct (map msg_id (messages s))" "distinct (map msg_id ms)"
    and "reduceStreamEvent lc s (MessagesCommitted i ms) ctx = Inr p" "s' = apply_patch s p"
  shows "distinct (map msg_id (messages s'))
    \<and> set (map msg_id (messages s')) = set (map msg_id (messages s)) \<union> set (map msg_id ms)
    \<and> take (length (messages s)) (messages s') = messages s
    \<and> pendingMessages s' = filter (\<lambda>m. pm_id m \<notin> set (map msg_id ms)) (pendingMessages s)
    \<and> (\<forall>ctx' p'. reduceStreamEvent lc s' (MessagesCommitted i ms) ctx' = Inr p' \<longrightarrow>
        messages (apply_patch s' p') = messages s' \<and> pendingMessages (apply_patch s' p') = pendingMessages s'
        \<and> stats (apply_patch s' p') = stats s')"
proof (intro conjI allI impI)
  let ?new = "filter (\<lambda>m. msg_id m \<notin> set (map msg_id (messages s))) ms"
  have s': "messages s' = messages s @ ?new"
      "pendingMessages s' = filter (\<lambda>m. pm_id m \<notin> set (map msg_id ms)) (pendingMessages s)"
    using assms(3,4) by (auto simp: onMessagesCommitted_def Let_def)
  show "distinct (map msg_id (messages s'))"
    unfolding s' by (rule filter_new_ids [OF assms(1,2)])
  show "set (map msg_id (messages s')) = set (map msg_id (messages s)) \<union> set (map msg_id ms)"
    unfolding s' by auto
  show "take (length (messages s)) (messages s') = messages s" unfolding s' by simp
  show "pendingMessages s' = filter (\<lambda>m. pm_id m \<notin> set (map msg_id ms)) (pendingMessages s)" by (rule s'(2))
  fix ctx' p' assume again: "reduceStreamEvent lc s' (MessagesCommitted i ms) ctx' = Inr p'"
  have "filter (\<lambda>m. msg_id m \<notin> set (map msg_id (messages s'))) ms = []"
    unfolding s' filter_empty_conv by auto
  moreover have "incrementUserMessagesBy st 0 = st" for st
    by (simp add: incrementUserMessagesBy_def)
  ultimately show "messages (apply_patch s' p') = messages s'"
      "pendingMessages (apply_patch s' p') = pendingMessages s'" "stats (apply_patch s' p') = stats s'"
    using again by (auto simp: onMessagesCommitted_def Let_def s'(2))
qed

end
