(* ===== verification/BlockStreams.thy ===== *)
theory BlockStreams
  imports Transcript ReducerFrames
begin

text \<open>
  A streamed block from its start to its end: the deltas are collected in order in one part of the
  Assistant message of the step, and the end closes it or, when nothing came, takes it back.
\<close>

section \<open>The part a stream has opened\<close>

lemma channel_part_simps [simp]:
  "part_id (channel_part c b) = bp_id b" "part_block c (channel_part c b) = Some b"
  "map_channel c f (channel_part c b) = channel_part c (f b)"
  by (cases c; simp)+

lemma find_append: "find P (xs @ ys) = (case find P xs of Some x \<Rightarrow> Some x | None \<Rightarrow> find P ys)"
  by (induction xs) auto

text \<open>A step whose message may take a block of the channel under the part identifier \<open>pid\<close>.\<close>

definition takes_block ::
  "BlockChannel \<Rightarrow> SessionProjection \<Rightarrow> jstring \<Rightarrow> jstring \<Rightarrow> ModelStepAssistantMessage \<Rightarrow> jstring \<Rightarrow> bool" where
  "takes_block c s st blk a pid \<longleftrightarrow> isActiveOpenStep s st
     \<and> find (has_step st) (messages s) = Some (AssistantMessage a)
     \<and> findBlockLocation (messages s) st c blk = None
     \<and> distinct (map msg_id (messages s)) \<and> pid \<notin> part_id ` set (am_parts a)"

text \<open>The state while the block is streamed: only the transcript differs, by the part at the end.\<close>

definition streams ::
  "BlockChannel \<Rightarrow> SessionProjection \<Rightarrow> ModelStepAssistantMessage \<Rightarrow> BlockPart \<Rightarrow> SessionProjection \<Rightarrow> bool" where
  "streams c s0 a b s \<longleftrightarrow> messages s = appendPartToMessage (messages s0) (am_id a) (channel_part c b)
     \<and> steps s = steps s0 \<and> executions s = executions s0 \<and> currentExecutionId s = currentExecutionId s0"

lemma current_run_cong:
  assumes "executions s = executions s0" "currentExecutionId s = currentExecutionId s0"
  shows "current_run s = current_run s0"
  unfolding current_run_def currentRunOrdinal_def assms ..

lemma active_cong:
  assumes "steps s = steps s0" "executions s = executions s0" "currentExecutionId s = currentExecutionId s0"
  shows "isActiveOpenStep s st = isActiveOpenStep s0 st"
  unfolding isActiveOpenStep_def current_run_cong [OF assms(2,3)] assms(1) ..

lemma takes_blockD:
  assumes "takes_block c s st blk a pid"
  shows "AssistantMessage a \<in> set (messages s)" "am_stepId a = st" "modelStepMessageId (messages s) st = Some (am_id a)"
    and "find (\<lambda>p. option_test (\<lambda>b. bp_blockId b = blk) (part_block c p)) (am_parts a) = None"
    and "find (\<lambda>m. msg_id m = am_id a) (messages s) = Some (AssistantMessage a)"
proof -
  have f: "find (has_step st) (messages s) = Some (AssistantMessage a)"
    using assms by (simp add: takes_block_def)
  then show mem: "AssistantMessage a \<in> set (messages s)" and "am_stepId a = st"
    by (auto dest: find_SomeD)
  show "modelStepMessageId (messages s) st = Some (am_id a)"
    using f by (simp add: modelStepMessageId_def)
  show "find (\<lambda>p. option_test (\<lambda>b. bp_blockId b = blk) (part_block c p)) (am_parts a) = None"
    using assms f by (simp add: takes_block_def findBlockLocation_def split: option.splits)
  have "distinct (map msg_id (messages s))" using assms by (simp add: takes_block_def)
  from find_unique [OF this mem] show "find (\<lambda>m. msg_id m = am_id a) (messages s) = Some (AssistantMessage a)"
    by simp
qed

lemma open_block_streams:
  assumes t: "takes_block c s0 st blk a pid" and s: "streams c s0 a b s"
    and b: "bp_id b = pid" "bp_blockId b = blk" "bp_completedAt b = None"
  shows "open_block s st c blk = Some ((am_id a, pid), b)"
proof -
  let ?a = "a\<lparr>am_parts := am_parts a @ [channel_part c b]\<rparr>"
  let ?g = "map_assistant (\<lambda>x. if am_id x = am_id a then x\<lparr>am_parts := am_parts x @ [channel_part c b]\<rparr> else x)"
  have ms: "messages s = map ?g (messages s0)"
    using s by (simp add: streams_def appendPartToMessage_def map_parts_of_def)
  have "has_step st (?g m) = has_step st m" "msg_id (?g m) = msg_id m" for m
    by (cases m; simp)+
  then have "find (has_step st) (messages s) = Some (AssistantMessage ?a)"
    "find (\<lambda>m. msg_id m = am_id a) (messages s) = Some (AssistantMessage ?a)"
    unfolding ms using t takes_blockD(5) [OF t] by (simp_all add: find_map_same takes_block_def)
  moreover have "find (\<lambda>p. session_part_id p = pid) (map InAssistant (am_parts a)) = None"
    using t by (auto simp: find_None_iff takes_block_def)
  moreover have "isActiveOpenStep s st"
    using t s active_cong [of s s0] by (simp add: streams_def takes_block_def)
  ultimately show ?thesis
    using takes_blockD(4) [OF t] b
    by (simp add: open_block_def findBlockLocation_def getPartAtLocation_def find_append option_test_iff)
qed

text \<open>No other part of the message has the identifier of the streamed one.\<close>

lemma streamed_alone:
  assumes "takes_block c s st blk a pid" "m \<in> set (messages s)" "is_message (am_id a) m"
  shows "m = AssistantMessage a"
proof -
  have k: "msg_id m = am_id a" using assms(3) by (cases m) simp_all
  have "distinct (map msg_id (messages s))" using assms(1) by (simp add: takes_block_def)
  from find_unique [OF this assms(2)] takes_blockD(5) [OF assms(1)] show ?thesis
    unfolding k by simp
qed

lemma update_streamed:
  assumes t: "takes_block c s st blk a pid" and b: "bp_id b = pid"
  shows "updateMessagePart (appendPartToMessage (messages s) (am_id a) (channel_part c b)) (am_id a) pid (map_channel c f)
      = appendPartToMessage (messages s) (am_id a) (channel_part c (f b))"
    and "removeMessagePart (appendPartToMessage (messages s) (am_id a) (channel_part c b)) (am_id a) pid = messages s"
proof -
  let ?g = "\<lambda>x. if am_id x = am_id a then x\<lparr>am_parts := am_parts x @ [channel_part c b]\<rparr> else x"
  have pid: "part_id p \<noteq> pid" if "p \<in> set (am_parts a)" for p
    using t that by (auto simp: takes_block_def)
  then have keep: "map (\<lambda>p. if part_id p = pid then map_channel c f p else p) (am_parts a) = am_parts a"
      "filter (\<lambda>p. part_id p \<noteq> pid) (am_parts a) = am_parts a"
    by (simp_all add: map_idI)
  show "updateMessagePart (appendPartToMessage (messages s) (am_id a) (channel_part c b)) (am_id a) pid (map_channel c f)
      = appendPartToMessage (messages s) (am_id a) (channel_part c (f b))"
    unfolding updateMessagePart_def appendPartToMessage_def map_parts_of_def map_map
  proof (rule map_cong [OF refl])
    fix m assume "m \<in> set (messages s)"
    then have "is_message (am_id a) m \<Longrightarrow> m = AssistantMessage a" by (rule streamed_alone [OF t])
    with keep b show "(map_assistant (\<lambda>x. if am_id x = am_id a then x\<lparr>am_parts :=
        map (\<lambda>p. if part_id p = pid then map_channel c f p else p) (am_parts x)\<rparr> else x) \<circ> map_assistant ?g) m
      = map_assistant (\<lambda>x. if am_id x = am_id a then x\<lparr>am_parts := am_parts x @ [channel_part c (f b)]\<rparr> else x) m"
      by (cases "is_message (am_id a) m"; cases m) auto
  qed
  have "map (map_assistant (\<lambda>x. if am_id x = am_id a then x\<lparr>am_parts :=
      filter (\<lambda>p. part_id p \<noteq> pid) (am_parts x)\<rparr> else x) \<circ> map_assistant ?g) (messages s) = messages s"
  proof (rule map_idI)
    fix m assume "m \<in> set (messages s)"
    then have "is_message (am_id a) m \<Longrightarrow> m = AssistantMessage a" by (rule streamed_alone [OF t])
    with keep b show "(map_assistant (\<lambda>x. if am_id x = am_id a then x\<lparr>am_parts :=
        filter (\<lambda>p. part_id p \<noteq> pid) (am_parts x)\<rparr> else x) \<circ> map_assistant ?g) m = m"
      by (cases "is_message (am_id a) m"; cases m) auto
  qed
  then show "removeMessagePart (appendPartToMessage (messages s) (am_id a) (channel_part c b)) (am_id a) pid = messages s"
    by (simp add: removeMessagePart_def appendPartToMessage_def map_parts_of_def)
qed

section \<open>The stream\<close>

definition new_block :: "jstring \<Rightarrow> jstring \<Rightarrow> int \<Rightarrow> jstring \<Rightarrow> BlockPart" where
  "new_block pid blk t text = \<lparr> bp_id = pid, bp_blockId = blk, bp_text = text, bp_createdAt = t,
     bp_completedAt = None, bp_meta = None \<rparr>"

lemma new_block_fields [simp]:
  "bp_id (new_block pid blk t x) = pid" "bp_blockId (new_block pid blk t x) = blk"
  "bp_text (new_block pid blk t x) = x" "bp_completedAt (new_block pid blk t x) = None"
  "(new_block pid blk t x)\<lparr>bp_text := y\<rparr> = new_block pid blk t y"
  by (simp_all add: new_block_def)

lemma text_start:
  assumes "takes_block OutputChannel s st blk a (rc_generateId ctx 0)"
  shows "\<exists>s'. reduce_step lc s (TextStart st blk, ctx) = Inr s'
    \<and> streams OutputChannel s a (new_block (rc_generateId ctx 0) blk (rc_timestamp ctx) []) s'"
  using assms takes_blockD(3) [OF assms]
  by (simp add: reduce_step_def onTextStart_def takes_block_def appendAssistantOutputPart_def
      appendBlockPart_def Let_def streams_def new_block_def)

lemma text_delta:
  assumes "takes_block OutputChannel s0 st blk a pid" "streams OutputChannel s0 a (new_block pid blk t x) s"
  shows "\<exists>s'. reduce_step lc s (TextDelta st blk d, ctx) = Inr s'
    \<and> streams OutputChannel s0 a (new_block pid blk t (x @ d)) s'"
  using open_block_streams [OF assms] assms(2) update_streamed(1) [OF assms(1), of "new_block pid blk t x"]
  by (simp add: reduce_step_def onTextDelta_def block_delta_def streams_def)

lemma text_deltas:
  assumes "takes_block OutputChannel s0 st blk a pid" "streams OutputChannel s0 a (new_block pid blk t x) s"
  shows "\<exists>s'. run_log (reduce_step lc) s (map (\<lambda>(d, ctx). (TextDelta st blk d, ctx)) ds) = Inr s'
    \<and> streams OutputChannel s0 a (new_block pid blk t (x @ concat (map fst ds))) s'"
  using assms(2)
proof (induction ds arbitrary: s x)
  case Nil
  then show ?case by simp
next
  case (Cons d ds)
  obtain s' where s': "reduce_step lc s (TextDelta st blk (fst d), snd d) = Inr s'"
      "streams OutputChannel s0 a (new_block pid blk t (x @ fst d)) s'"
    using text_delta [OF assms(1) Cons.prems] by blast
  from Cons.IH [OF s'(2)] s'(1) show ?case by (simp add: case_prod_beta)
qed

lemma text_end:
  assumes "takes_block OutputChannel s0 st blk a pid" "streams OutputChannel s0 a (new_block pid blk t x) s"
  shows "\<exists>s'. reduce_step lc s (TextEnd st blk, ctx) = Inr s'
    \<and> messages s' = (if x = [] then messages s0 else appendPartToMessage (messages s0) (am_id a)
        (AssistantOutput (new_block pid blk t (unwrapAssistantProjectionEnvelope x)
           \<lparr>bp_completedAt := Some (rc_timestamp ctx)\<rparr>)))"
  using open_block_streams [OF assms] assms(2) update_streamed [OF assms(1), of "new_block pid blk t x"]
  by (cases "x = []") (simp_all add: reduce_step_def onTextEnd_def streams_def)

text \<open>
  C30: A text block that is started, streamed in any number of deltas and ended in an open step leaves
  exactly one new part at the end of the message of that step: its text is the concatenation of the
  deltas in order (without a wrapping projection envelope), created when the block started and
  completed when it ended. A block that received no text leaves the transcript as it was.
\<close>
theorem text_stream_collects_deltas:
  assumes "takes_block OutputChannel s st blk a (rc_generateId ctx 0)"
  shows "\<exists>s'. run_log (reduce_step lc) s
      ((TextStart st blk, ctx) # map (\<lambda>(d, dctx). (TextDelta st blk d, dctx)) ds @ [(TextEnd st blk, ectx)]) = Inr s'
    \<and> messages s' = (let x = concat (map fst ds) in
        if x = [] then messages s
        else appendPartToMessage (messages s) (am_id a) (AssistantOutput
          \<lparr> bp_id = rc_generateId ctx 0, bp_blockId = blk, bp_text = unwrapAssistantProjectionEnvelope x,
            bp_createdAt = rc_timestamp ctx, bp_completedAt = Some (rc_timestamp ectx), bp_meta = None \<rparr>))"
proof -
  obtain s1 where s1: "reduce_step lc s (TextStart st blk, ctx) = Inr s1"
      "streams OutputChannel s a (new_block (rc_generateId ctx 0) blk (rc_timestamp ctx) []) s1"
    using text_start [OF assms] by blast
  obtain s2 where s2: "run_log (reduce_step lc) s1 (map (\<lambda>(d, dctx). (TextDelta st blk d, dctx)) ds) = Inr s2"
      "streams OutputChannel s a (new_block (rc_generateId ctx 0) blk (rc_timestamp ctx) (concat (map fst ds))) s2"
    using text_deltas [OF assms s1(2)] by auto
  obtain s3 where s3: "reduce_step lc s2 (TextEnd st blk, ectx) = Inr s3"
      "messages s3 = (if concat (map fst ds) = [] then messages s else appendPartToMessage (messages s) (am_id a)
        (AssistantOutput (new_block (rc_generateId ctx 0) blk (rc_timestamp ctx)
          (unwrapAssistantProjectionEnvelope (concat (map fst ds)))\<lparr>bp_completedAt := Some (rc_timestamp ectx)\<rparr>)))"
    using text_end [OF assms s2(2), of lc ectx] by blast
  show ?thesis
    unfolding Let_def
    by (rule exI [of _ s3], rule conjI, simp add: run_log_append s1(1) s2(1) s3(1))
      (simp only: s3(2) new_block_def BlockPart.simps)
qed

end
