(* ===== verification/ToolCalls.thy ===== *)
theory ToolCalls
  imports TranscriptEvents "HOL-Library.Multiset"
begin

text \<open>
  The tool calls of a transcript, as a multiset: how an event changes it, what holds of every tool
  part over a log, and that the tool counters of a Session count the settled parts.
\<close>

section \<open>The tool parts of a transcript\<close>

fun message_tools :: "SessionMessage \<Rightarrow> ToolPart list" where
  "message_tools (AssistantMessage a) = List.map_filter as_tool (am_parts a)"
| "message_tools (UserMessage _) = []"

definition tools_of :: "SessionMessage list \<Rightarrow> ToolPart multiset" where
  "tools_of ms = mset (concat (map message_tools ms))"

lemma tools_of_simps [simp]:
  "tools_of [] = {#}" "tools_of (m # ms) = mset (message_tools m) + tools_of ms"
  "tools_of (ms @ ns) = tools_of ms + tools_of ns"
  by (simp_all add: tools_of_def)

lemma map_filter_append [simp]: "List.map_filter f (xs @ ys) = List.map_filter f xs @ List.map_filter f ys"
  by (simp add: List.map_filter_def)

lemma set_map_filter: "y \<in> set (List.map_filter f xs) \<longleftrightarrow> (\<exists>x \<in> set xs. f x = Some y)"
  by (auto simp: List.map_filter_def) force

lemma as_tool_Some_iff: "as_tool p = Some t \<longleftrightarrow> p = AssistantTool t"
  by (cases p) auto

lemma mem_tools_of:
  "t \<in># tools_of ms \<longleftrightarrow> (\<exists>a. AssistantMessage a \<in> set ms \<and> AssistantTool t \<in> set (am_parts a))"
proof (induction ms)
  case Nil
  then show ?case by simp
next
  case (Cons m ms)
  then show ?case by (cases m) (auto simp: set_map_filter as_tool_Some_iff)
qed

lemma tools_map:
  "(\<And>m. m \<in> set ms \<Longrightarrow> message_tools (g m) = message_tools m) \<Longrightarrow> tools_of (map g ms) = tools_of ms"
  by (induction ms) auto

lemma tools_map_assistant:
  assumes "\<And>a. List.map_filter as_tool (am_parts (g a)) = List.map_filter as_tool (am_parts a)"
  shows "tools_of (map (map_assistant g) ms) = tools_of ms"
proof (rule tools_map)
  fix m show "message_tools (map_assistant g m) = message_tools m"
    by (cases m) (use assms in auto)
qed

lemma map_filter_map_same:
  "(\<And>p. as_tool (f p) = as_tool p) \<Longrightarrow> List.map_filter as_tool (map f ps) = List.map_filter as_tool ps"
  by (induction ps) (simp_all add: map_filter_simps split: option.splits)

text \<open>Updates of the parts that leave every tool part alone.\<close>

lemma tools_parts:
  assumes "\<And>p. as_tool (f p) = as_tool p"
  shows "tools_of (map_parts_of i (map f) ms) = tools_of ms"
  unfolding map_parts_of_def
  by (rule tools_map_assistant) (simp add: map_filter_map_same assms)

lemma as_tool_same [simp]:
  "as_tool (map_channel c f p) = as_tool p" "as_tool (map_any_block g p) = as_tool p"
  "as_tool (map_notice h p) = as_tool p" "as_tool (settle_part d t p) = as_tool p"
  by (cases c; cases p; simp) (cases p; simp)+

lemma tools_update_channel [simp]:
  "tools_of (updateMessagePart ms i j (map_channel c f)) = tools_of ms"
  unfolding updateMessagePart_def by (rule tools_parts) simp

lemma tools_passes [simp]:
  "tools_of (completeAssistantMessageForStep ms st t) = tools_of ms"
  "tools_of (promoteFinalAssistantOutput ms x st) = tools_of ms"
  "tools_of (markAssistantModelOutputInterruptedForStep ms st t) = tools_of ms"
  unfolding completeAssistantMessageForStep_def promoteFinalAssistantOutput_def
    markAssistantModelOutputInterruptedForStep_def
  by (rule tools_map_assistant; simp add: map_filter_map_same)+

definition interrupt_tool :: "int \<Rightarrow> ToolPart \<Rightarrow> ToolPart" where
  "interrupt_tool ts t = (if tool_state t = ToolPending \<or> tool_state t = ToolRunning then toInterruptedToolPart t ts else t)"

lemma as_tool_interrupt: "as_tool (interrupt_part ts p) = map_option (interrupt_tool ts) (as_tool p)"
  by (cases p) (simp_all add: interrupt_part_def interrupt_tool_def)

lemma map_filter_map_option:
  "(\<And>p. as_tool (f p) = map_option h (as_tool p)) \<Longrightarrow> List.map_filter as_tool (map f ps) = map h (List.map_filter as_tool ps)"
  by (induction ps) (simp_all add: map_filter_simps split: option.splits)

lemma tools_interrupt: "tools_of (interruptIncompleteToolParts ms ts) = image_mset (interrupt_tool ts) (tools_of ms)"
proof (induction ms)
  case Nil
  then show ?case by (simp add: interruptIncompleteToolParts_def)
next
  case (Cons m ms)
  then show ?case
    by (cases m) (simp_all add: interruptIncompleteToolParts_def map_filter_map_option as_tool_interrupt)
qed

lemma tools_settle: "tools_of (settleIncompleteState ms cur t status) = image_mset (interrupt_tool t) (tools_of ms)"
proof -
  have "tools_of (map (map_assistant (settle_message cur t (status \<noteq> Completed))) ms) = tools_of ms"
    by (rule tools_map_assistant) (simp add: settle_message_def Let_def map_filter_map_same)
  then show ?thesis by (simp add: settleIncompleteState_def tools_interrupt)
qed

lemma tools_compact: "tools_of (compactMessages ms x tail ctx) = tools_of ms"
proof -
  let ?k = "compact_index ms tail"
  have mark: "message_tools (mark_compacted m) = message_tools m" for m
    by (cases m) (simp_all add: mark_compacted_def)
  have split: "tools_of (map mark_compacted (take ?k ms)) + tools_of (drop ?k ms) = tools_of ms"
    by (simp add: tools_map mark flip: tools_of_simps(3))
  have again: "message_tools (recompact x tail t m) = message_tools m" for m t
    by (cases m) simp_all
  have "tools_of (ns[i := recompact x tail t (ns ! i)]) = tools_of ns" if "i < length ns" for ns i t
    using that again by (induction ns arbitrary: i) (auto split: nat.splits)
  then show ?thesis
    using split unfolding compactMessages_eq Let_def
    by (auto simp: compact_marked_def compaction_message_def dest!: find_index_SomeD split: option.splits)
qed

section \<open>Updating one tool part\<close>

text \<open>A located tool part, and the parts and messages around it, which an update leaves alone.\<close>

lemma located_split:
  assumes u: "unique_ids ms" and loc: "getToolPartAtLocation ms i j = Some t"
  obtains xs a ps qs ys where "ms = xs @ AssistantMessage a # ys" "am_parts a = ps @ AssistantTool t # qs"
    "am_id a = i" "tp_id (tool_base t) = j"
    "\<And>f. updateMessagePart ms i j f = xs @ AssistantMessage (a\<lparr>am_parts := ps @ f (AssistantTool t) # qs\<rparr>) # ys"
proof -
  have "find (\<lambda>m. msg_id m = i) ms \<noteq> None"
    using loc by (auto simp: getToolPartAtLocation_def getPartAtLocation_def split: option.splits)
  then obtain m where m: "find (\<lambda>m. msg_id m = i) ms = Some m" by blast
  have f: "find (\<lambda>p. session_part_id p = j) (msg_parts m) = Some (InAssistant (AssistantTool t))"
    using getToolPart_part [OF loc] m by (simp add: getPartAtLocation_def)
  then obtain a where a: "m = AssistantMessage a"
    by (cases m) (auto dest: find_SomeD)
  with f have t: "AssistantTool t \<in> set (am_parts a)" "tp_id (tool_base t) = j"
    by (auto dest!: find_SomeD)
  from find_SomeD [OF m] a have mem: "AssistantMessage a \<in> set ms" "am_id a = i" by auto
  obtain xs ys where ms: "ms = xs @ AssistantMessage a # ys" using split_list [OF mem(1)] by blast
  obtain ps qs where ps: "am_parts a = ps @ AssistantTool t # qs" using split_list [OF t(1)] by blast
  have "distinct (map msg_id (xs @ AssistantMessage a # ys))" "distinct (map part_id (ps @ AssistantTool t # qs))"
    using u mem(1) unfolding ms [symmetric] ps [symmetric] by (simp_all add: unique_ids_def parts_ok_def)
  then have other: "\<forall>m \<in> set xs \<union> set ys. msg_id m \<noteq> i" "\<forall>p \<in> set ps \<union> set qs. part_id p \<noteq> j"
    using mem(2) t(2) by (auto simp: image_iff)
  have same: "map (map_assistant (\<lambda>x. if am_id x = i then g x else x)) ns = ns"
    if "\<And>m. m \<in> set ns \<Longrightarrow> msg_id m \<noteq> i" for g ns
  proof (rule map_idI)
    fix m assume "m \<in> set ns"
    with that show "map_assistant (\<lambda>x. if am_id x = i then g x else x) m = m" by (cases m) fastforce+
  qed
  have "updateMessagePart ms i j f = xs @ AssistantMessage (a\<lparr>am_parts := ps @ f (AssistantTool t) # qs\<rparr>) # ys" for f
    using ms ps mem(2) t(2) other
    by (simp add: updateMessagePart_def map_parts_of_def same map_idI)
  with that ms ps mem(2) t(2) show ?thesis by blast
qed

lemma tools_update:
  assumes "unique_ids ms" "getToolPartAtLocation ms i j = Some t"
  shows "t \<in># tools_of ms"
    and "tools_of (updateMessagePart ms i j (map_tool f)) = add_mset (f t) (tools_of ms - {#t#})"
  using located_split [OF assms] by (metis mem_tools_of in_set_conv_decomp)
    (rule located_split [OF assms], simp add: map_filter_simps)

lemma tools_append_part:
  assumes "distinct (map msg_id ms)" "AssistantMessage a \<in> set ms"
  shows "tools_of (appendPartToMessage ms (am_id a) p) = tools_of ms + mset (List.map_filter as_tool [p])"
proof -
  obtain xs ys where ms: "ms = xs @ AssistantMessage a # ys" using split_list [OF assms(2)] by blast
  have "distinct (map msg_id (xs @ AssistantMessage a # ys))" using assms(1) ms by simp
  then have other: "\<forall>m \<in> set xs \<union> set ys. msg_id m \<noteq> am_id a" by (auto simp: image_iff)
  have same: "tools_of (appendPartToMessage ns (am_id a) p) = tools_of ns"
    if "\<forall>m \<in> set ns. msg_id m \<noteq> am_id a" for ns
    unfolding appendPartToMessage_def map_parts_of_def
  proof (rule tools_map)
    fix m assume "m \<in> set ns"
    with that show "message_tools (map_assistant (\<lambda>x. if am_id x = am_id a then x\<lparr>am_parts := am_parts x @ [p]\<rparr> else x) m)
        = message_tools m" by (cases m) fastforce+
  qed
  have "tools_of (appendPartToMessage ms (am_id a) p) = tools_of (appendPartToMessage xs (am_id a) p)
      + mset (message_tools (AssistantMessage (a\<lparr>am_parts := am_parts a @ [p]\<rparr>))) + tools_of (appendPartToMessage ys (am_id a) p)"
    by (simp add: ms appendPartToMessage_def map_parts_of_def)
  with same other ms show ?thesis by simp
qed

lemma tools_append_other:
  "as_tool p = None \<Longrightarrow> tools_of (appendPartToMessage ms i p) = tools_of ms"
  unfolding appendPartToMessage_def map_parts_of_def
  by (rule tools_map_assistant) (simp add: map_filter_simps)

lemma tools_remove_block:
  assumes u: "unique_ids ms" and loc: "getPartAtLocation ms loc = Some (InAssistant p)" and p: "as_tool p = None"
  shows "tools_of (removeMessagePart ms (fst loc) (snd loc)) = tools_of ms"
  unfolding removeMessagePart_def map_parts_of_def
proof (rule tools_map)
  fix m assume m: "m \<in> set ms"
  have kept: "List.map_filter as_tool (filter (\<lambda>q. part_id q \<noteq> snd loc) ps) = List.map_filter as_tool ps"
    if "\<forall>q \<in> set ps. part_id q = snd loc \<longrightarrow> as_tool q = None" for ps
    using that by (induction ps) (simp_all add: map_filter_simps split: option.splits)
  show "message_tools (map_assistant (\<lambda>a. if am_id a = fst loc
      then a\<lparr>am_parts := filter (\<lambda>q. part_id q \<noteq> snd loc) (am_parts a)\<rparr> else a) m) = message_tools m"
  proof (cases m)
    case (AssistantMessage a)
    then have a: "AssistantMessage a \<in> set ms" using m by simp
    show ?thesis
    proof (cases "am_id a = fst loc")
      case True
      have "\<forall>q \<in> set (am_parts a). part_id q = snd loc \<longrightarrow> as_tool q = None"
        using located_part [OF u loc a True] p by blast
      with kept AssistantMessage show ?thesis by simp
    qed (use AssistantMessage in simp)
  qed simp
qed

section \<open>What an event does to the tool parts\<close>

text \<open>The changes of one tool part short of settling it.\<close>

inductive tool_change :: "ToolPart \<Rightarrow> ToolPart \<Rightarrow> bool" where
  running: "tool_state t = ToolPending \<or> tool_state t = ToolRunning \<Longrightarrow> tool_change t (toRunningToolPart t v ts)"
| input: "tool_change t (set_tool_input v t)"
| attempt: "\<not> settled_tool t \<Longrightarrow> tool_change t (withToolAttempt t a ts d)"
| live: "tool_change t (appendLiveToolOutput t d o' l)"

text \<open>A transcript with its settled tool calls counted: the tool parts, the completed and failed counters.\<close>

type_synonym tool_account = "ToolPart multiset \<times> int \<times> int"

inductive account_step :: "tool_account \<Rightarrow> tool_account \<Rightarrow> bool" where
  same: "account_step (T, c, f) (T, c, f)"
| opened: "tool_state t = ToolPending \<or> tool_state t = ToolRunning \<and> tool_liveOutput t = None
    \<Longrightarrow> account_step (T, c, f) (add_mset t T, c, f)"
| changed: "t \<in># T \<Longrightarrow> tool_change t t' \<Longrightarrow> account_step (T, c, f) (add_mset t' (T - {#t#}), c, f)"
| interrupted: "account_step (T, c, f) (image_mset (interrupt_tool ts) T, c, f)"
| settled: "t \<in># T \<Longrightarrow> \<not> settled_tool t \<Longrightarrow> account_step (T, c, f)
    (add_mset (toSettledToolPart t r ts) (T - {#t#}),
     if ftr_isError r then c else c + 1, if ftr_isError r then f + 1 else f)"

text \<open>The counters that count no settled call.\<close>

definition settled_counts :: "SessionStats \<Rightarrow> int \<times> int" where
  "settled_counts st = (st_completed (stats_tools st), st_failed (stats_tools st))"

lemma other_counters [simp]:
  "settled_counts (incrementUserMessagesBy st n) = settled_counts st"
  "settled_counts (incrementAssistantMessages st) = settled_counts st"
  "settled_counts (incrementToolCalls st) = settled_counts st"
  "settled_counts (incrementStepStarted st) = settled_counts st"
  "settled_counts (incrementStepCompleted st u) = settled_counts st"
  by (simp_all add: settled_counts_def increment_defs)

lemma content_counts [simp]:
  "settled_counts (present (firstAssistantContentStats s i) (stats s)) = settled_counts (stats s)"
  by (cases "firstAssistantContentStats s i") (auto dest: firstAssistantContentStats_step)

lemma ensure_counts:
  "ensureCurrentAssistantMessage s = Inr r \<Longrightarrow> settled_counts (present (amr_stats r) (stats s)) = settled_counts (stats s)"
  "assistantForRecoveryEvent s i = Some r \<Longrightarrow> settled_counts (present (amr_stats r) (stats s)) = settled_counts (stats s)"
  using ensure_stats [of s r] recovery_stats [of s i r] by auto

definition account :: "SessionMessage list \<Rightarrow> SessionStats \<Rightarrow> tool_account" where
  "account ms st = (tools_of ms, settled_counts st)"

definition patched_account :: "SessionProjection \<Rightarrow> SessionProjectionPatch \<Rightarrow> tool_account" where
  "patched_account s p = account (present (p_messages p) (messages s)) (present (p_stats p) (stats s))"

lemma account_blocks:
  assumes u: "unique_ids (messages s)"
  shows "patched_account s (block_delta c s st b d) = account (messages s) (stats s)"
    and "patched_account s (onTextStart s st b ctx) = account (messages s) (stats s)"
    and "patched_account s (onReasoningStart s st b ctx) = account (messages s) (stats s)"
    and "patched_account s (onTextEnd s st b t) = account (messages s) (stats s)"
    and "patched_account s (onReasoningEnd s st b t) = account (messages s) (stats s)"
proof -
  have removed: "tools_of (removeMessagePart (messages s) (fst loc) (snd loc)) = tools_of (messages s)"
    if "open_block s st c b = Some (loc, blk)" for loc blk c
    using tools_remove_block [OF u open_block_part(1) [OF that]] by (cases c) simp_all
  have appended: "tools_of (appendPartToMessage ms i (channel_part c blk)) = tools_of ms" for ms i c blk
    by (rule tools_append_other) (cases c; simp)
  show "patched_account s (block_delta c s st b d) = account (messages s) (stats s)"
    by (auto simp: patched_account_def block_delta_def account_def
        split: option.splits)
  show "patched_account s (onTextStart s st b ctx) = account (messages s) (stats s)"
    "patched_account s (onReasoningStart s st b ctx) = account (messages s) (stats s)"
    using appended [where c = OutputChannel] appended [where c = ReasoningChannel]
    by (auto simp: patched_account_def onTextStart_def onReasoningStart_def appendAssistantOutputPart_def
        appendReasoningPart_def appendBlockPart_def Let_def account_def split: option.splits)
  show "patched_account s (onTextEnd s st b t) = account (messages s) (stats s)"
    "patched_account s (onReasoningEnd s st b t) = account (messages s) (stats s)"
    using removed by (auto simp: patched_account_def onTextEnd_def onReasoningEnd_def account_def
        split: option.splits)
qed

lemma account_new_tool:
  assumes u: "unique_ids (messages s)" and r: "ensureCurrentAssistantMessage s = Inr r"
    and t: "tool_state t = ToolPending \<or> tool_state t = ToolRunning \<and> tool_liveOutput t = None"
    and c: "settled_counts st = settled_counts (stats s)"
  shows "account_step (account (messages s) (stats s))
    (account (appendPartToMessage (messages s) (amr_messageId r) (AssistantTool t)) st)"
proof -
  obtain a where "AssistantMessage a \<in> set (messages s)" "am_id a = amr_messageId r"
    using r by (auto simp: ensureCurrentAssistantMessage_def split: option.splits if_splits SessionMessage.splits
        dest!: find_SomeD)
  moreover have "distinct (map msg_id (messages s))" using u by (simp add: unique_ids_def)
  ultimately have "tools_of (appendPartToMessage (messages s) (amr_messageId r) (AssistantTool t))
      = add_mset t (tools_of (messages s))"
    using tools_append_part [of "messages s" a] by (simp add: map_filter_simps)
  with account_step.opened [OF t] c show ?thesis
    by (cases "settled_counts (stats s)") (simp add: account_def)
qed

lemma account_changed:
  assumes u: "unique_ids ms" and t: "getToolPartAtLocation ms i j = Some t" "tool_change t (f t)"
    and c: "settled_counts st' = settled_counts st"
  shows "account_step (account ms st) (account (updateMessagePart ms i j (map_tool f)) st')"
  using tools_update(1) [OF u t(1)] tools_update(2) [where f = f, OF u t(1)] account_step.changed [OF _ t(2)] c
  by (cases "settled_counts st") (simp add: account_def)

lemma account_settled:
  assumes u: "unique_ids ms" and t: "getToolPartAtLocation ms i j = Some t" "\<not> settled_tool t"
  shows "account_step (account ms st) (account (updateMessagePart ms i j (map_tool (\<lambda>t. toSettledToolPart t r ts)))
    (if ftr_isError r then incrementToolFailures st 1 else incrementToolCompleted st))"
  using tools_update(1) [OF u t(1)] tools_update(2) [where f = "\<lambda>t. toSettledToolPart t r ts", OF u t(1)]
    account_step.settled [OF _ t(2), of _ "st_completed (stats_tools st)" "st_failed (stats_tools st)" r ts]
  by (auto simp: account_def settled_counts_def increment_defs)

lemma account_refl: "account_step (account ms st) (account ms st)"
  by (cases "account ms st") (simp add: account_step.same)

lemma account_located:
  assumes u: "unique_ids (messages s)" and t: "located_tool s c P = Some (loc, t)"
    and f: "P t \<Longrightarrow> tool_change t (f t)"
  shows "account_step (account (messages s) (stats s)) (account (update_tool s loc f) (stats s))"
  using account_changed [where f = f, OF u] located_toolD [OF t] f by (simp add: update_tool_def)

lemma account_tool_events:
  assumes u: "unique_ids (messages s)"
  shows "onToolInputStart s c n ctx = Inr p \<Longrightarrow> account_step (account (messages s) (stats s)) (patched_account s p)"
    and "onToolCall s c n i ctx = Inr p \<Longrightarrow> account_step (account (messages s) (stats s)) (patched_account s p)"
    and "account_step (account (messages s) (stats s)) (patched_account s (onToolInputResolved s c i))"
    and "account_step (account (messages s) (stats s)) (patched_account s (onToolAttempt s c a t d))"
    and "account_step (account (messages s) (stats s)) (patched_account s (onToolOutputDelta s c n d' om l))"
    and "account_step (account (messages s) (stats s)) (patched_account s (onToolResult s c t r))"
proof -
  let ?S = "account_step (account (messages s) (stats s))"
  show "onToolInputStart s c n ctx = Inr p \<Longrightarrow> ?S (patched_account s p)"
  proof -
    assume "onToolInputStart s c n ctx = Inr p"
    then obtain r where r: "ensureCurrentAssistantMessage s = Inr r" and "p = no_patch \<or>
        p_messages p = Some (appendPartToMessage (messages s) (amr_messageId r)
          (AssistantTool (PendingTool (new_tool_base (rc_generateId ctx 0) c n (rc_timestamp ctx)))))
        \<and> p_stats p = amr_stats r"
      using ensure_messages by (fastforce simp: onToolInputStart_def bindE_Inr_iff Let_def split: if_splits)
    with account_new_tool [OF u r] ensure_counts(1) [OF r] account_refl show ?thesis
      by (auto simp: patched_account_def)
  qed
  show "onToolCall s c n i ctx = Inr p \<Longrightarrow> ?S (patched_account s p)"
  proof (cases "findCurrentToolPartByCallId (messages s) (currentAssistantMessageId s) c")
    case None
    assume "onToolCall s c n i ctx = Inr p"
    with None obtain r where r: "ensureCurrentAssistantMessage s = Inr r" and "p_messages p = Some
        (appendPartToMessage (messages s) (amr_messageId r) (AssistantTool (RunningTool
          (new_tool_base (rc_generateId ctx 0) c n (rc_timestamp ctx)) (undefined_to_null i) (rc_timestamp ctx) None)))
        \<and> p_stats p = Some (incrementToolCalls (present (amr_stats r) (stats s)))"
      using ensure_messages
      by (fastforce simp: onToolCall_def bindE_Inr_iff Let_def present_def split: option.splits)
    with account_new_tool [OF u r] ensure_counts(1) [OF r] show ?thesis
      by (auto simp: patched_account_def)
  next
    case (Some loc)
    assume "onToolCall s c n i ctx = Inr p"
    with Some account_refl account_changed [where f = "\<lambda>t. toRunningToolPart t i (rc_timestamp ctx)", OF u] tool_change.running show ?thesis
      by (auto simp: onToolCall_def patched_account_def split: option.splits if_splits)
  qed
  show "?S (patched_account s (onToolInputResolved s c i))"
    using account_located [where f = "set_tool_input (undefined_to_null i)", OF u] tool_change.input account_refl
    by (auto simp: onToolInputResolved_def patched_account_def split: option.splits)
  show "?S (patched_account s (onToolAttempt s c a t d))"
    using account_refl
    by (auto simp: onToolAttempt_def patched_account_def settled_tool_def tool_settled_def split: option.splits
        intro!: account_located [OF u] tool_change.attempt)
  show "?S (patched_account s (onToolOutputDelta s c n d' om l))"
    using account_located [where f = "\<lambda>x. appendLiveToolOutput x d' om l", OF u] tool_change.live account_refl
    by (auto simp: onToolOutputDelta_def patched_account_def split: option.splits)
  show "?S (patched_account s (onToolResult s c t r))"
  proof (cases "located_tool s c (\<lambda>t. tool_state t \<noteq> ToolCompleted \<and> tool_state t \<noteq> ToolError)")
    case None
    then show ?thesis using account_refl by (simp add: onToolResult_def patched_account_def)
  next
    case (Some x)
    obtain loc tool where x: "x = (loc, tool)" by (cases x)
    have "getToolPartAtLocation (messages s) (fst loc) (snd loc) = Some tool" "\<not> settled_tool tool"
      using located_toolD [OF Some [unfolded x]] by (simp_all add: settled_tool_def tool_settled_def)
    from account_settled [OF u this, of "stats s" r t] show ?thesis
      unfolding onToolResult_def Some x option.case prod.case patched_account_def update_tool_def by simp
  qed
qed

lemma user_tools: "\<not> is_assistant m \<Longrightarrow> message_tools m = []"
  by (cases m) simp_all

lemma account_commit:
  assumes "list_all (\<lambda>m. \<not> is_assistant m) ms"
  shows "patched_account s (onMessagesCommitted s ms) = account (messages s) (stats s)"
proof -
  have "tools_of ns = {#}" if "list_all (\<lambda>m. \<not> is_assistant m) ns" for ns
    using that by (induction ns) (auto simp: user_tools)
  moreover have "list_all (\<lambda>m. \<not> is_assistant m) (filter P ms)" for P
    using assms by (auto simp: list_all_iff)
  ultimately show ?thesis
    by (simp add: patched_account_def onMessagesCommitted_def Let_def account_def)
qed

lemma account_recovery:
  "patched_account s (onLlmRetry s v info k t ctx) = account (messages s) (stats s)"
  "patched_account s (onLlmRecovery s v info k' ctx) = account (messages s) (stats s)"
  "patched_account s (onLlmRecoveryFailed s info k c ctx) = account (messages s) (stats s)"
proof -
  have merged: "tools_of (map_parts_of i (map (\<lambda>p. if is_notice n p then map_notice h p else p)) ms) = tools_of ms" for i n h ms
    by (rule tools_parts) simp
  have "patched_account s (upsertRecoveryNoticePart (amr_messages r) (amr_messageId r) n (amr_stats r))
      = account (messages s) (stats s)" if "assistantForRecoveryEvent s i = Some r" for i r n
    using recovery_messages [OF that] ensure_counts(2) [OF that] merged tools_append_other
    by (simp add: patched_account_def upsertRecoveryNoticePart_def Let_def account_def)
  moreover have "patched_account s no_patch = account (messages s) (stats s)"
    by (simp add: patched_account_def)
  ultimately show "patched_account s (onLlmRetry s v info k t ctx) = account (messages s) (stats s)"
    "patched_account s (onLlmRecovery s v info k' ctx) = account (messages s) (stats s)"
    "patched_account s (onLlmRecoveryFailed s info k c ctx) = account (messages s) (stats s)"
    by (auto simp: onLlmRetry_def onLlmRecovery_def onLlmRecoveryFailed_def split: option.splits)
qed

lemma account_steps:
  "patched_account s (onStepStart s i n ctx) = account (messages s) (stats s)"
  "patched_account s (onStepEnd s i n f u t) = account (messages s) (stats s)"
  "patched_account s (onSystemNotice s m ctx) = account (messages s) (stats s)"
  "patched_account s (onCompact s x tail ctx) = account (messages s) (stats s)"
  by (auto simp: patched_account_def account_def onStepStart_def onStepEnd_def onSystemNotice_def onCompact_def
      Let_def tools_compact map_filter_simps split: option.splits)

lemma account_lifecycle:
  assumes "reduceLifecycle s e t = Inr p"
  shows "account_step (account (messages s) (stats s)) (patched_account s p)"
proof (cases "p_messages p")
  case None
  with reduceLifecycle_frame(2) [OF assms] show ?thesis by (simp add: patched_account_def account_refl)
next
  case (Some ms)
  then obtain ev where "e = ExecutionEnd ev" "onExecutionEnd s ev = Inr p"
    using assms by (cases e) (auto simp: reduceLifecycle_def case_defs bindE_Inr_iff Let_def split: if_splits)
  then obtain ts where "tools_of ms = image_mset (interrupt_tool ts) (tools_of (messages s))"
    using Some by (auto simp: onExecutionEnd_def bindE_Inr_iff Let_def tools_settle split: option.splits)
  with account_step.interrupted Some reduceLifecycle_frame(2) [OF assms] show ?thesis
    by (cases "settled_counts (stats s)") (simp add: patched_account_def account_def)
qed

text \<open>What an event may assume: only messages of users are queued and committed.\<close>

definition commits_users :: "StreamEvent \<Rightarrow> bool" where
  "commits_users ev \<longleftrightarrow> (case ev of MessagesCommitted _ ms \<Rightarrow> list_all (\<lambda>m. \<not> is_assistant m) ms | _ \<Rightarrow> True)"

lemma event_accounts:
  assumes u: "unique_ids (messages s)" and step: "reduceStreamEvent lc s ev ctx = Inr p" and ok: "commits_users ev"
  shows "account_step (account (messages s) (stats s)) (patched_account s p)"
proof (cases ev)
  case (MessagesCommitted x new)
  with ok account_commit step account_refl show ?thesis by (auto simp: commits_users_def)
next
  case (Lifecycle e)
  with step account_lifecycle show ?thesis by simp
next
  case (ReminderAdded r)
  with step account_refl show ?thesis
    by (auto simp: case_defs bindE_Inr_iff patched_account_def split: if_splits)
next
  case (ToolInputStart c n)
  with step account_tool_events(1) [OF u] show ?thesis by simp
next
  case (ToolCall c n i)
  with step account_tool_events(2) [OF u] show ?thesis by simp
next
  case (Compression e)
  with step account_refl show ?thesis by (auto simp: patched_account_def)
qed (use step account_blocks [OF u] account_recovery account_steps account_tool_events(3-6) [OF u] account_refl
    in \<open>auto simp: onTextDelta_def onReasoningDelta_def onMessageReplaced_def onMessageDeleted_def
      onStopRequested_def onChildSessionLink_def onTodoWrite_def onReminderConsumed_def patched_account_def
      onExecutionError_def onPromptTrace_def Let_def split: option.splits\<close>)

section \<open>Invariants of tool parts\<close>

text \<open>A condition on one tool part that opening, changing, interrupting and settling it keep.\<close>

definition tool_event_ok :: "SessionProjection \<Rightarrow> StreamEvent \<times> ReduceContext \<Rightarrow> bool" where
  "tool_event_ok s ec \<longleftrightarrow> event_fresh s ec \<and> commits_users (fst ec)"

definition all_tools :: "(ToolPart \<Rightarrow> bool) \<Rightarrow> SessionProjection \<Rightarrow> bool" where
  "all_tools Q s \<longleftrightarrow> unique_ids (messages s) \<and> (\<forall>t. t \<in># tools_of (messages s) \<longrightarrow> Q t)"

lemma step_accounts:
  assumes "unique_ids (messages s)" "tool_event_ok s ec" "reduce_step lc s ec = Inr s'"
  shows "unique_ids (messages s') \<and> account_step (account (messages s) (stats s)) (account (messages s') (stats s'))"
proof -
  obtain p where p: "reduceStreamEvent lc s (fst ec) (snd ec) = Inr p" "s' = apply_patch s p"
    using assms(3) by (auto simp: reduce_step_def bindE_Inr_iff)
  from event_keeps [OF assms(1) p(1)] event_accounts [OF assms(1) p(1)] assms(2) show ?thesis
    by (simp add: keeps_def tool_event_ok_def patched_account_def p(2))
qed

locale tool_invariant =
  fixes Q :: "ToolPart \<Rightarrow> bool"
  assumes opened: "tool_state t = ToolPending \<or> tool_state t = ToolRunning \<and> tool_liveOutput t = None \<Longrightarrow> Q t"
    and changed: "Q t \<Longrightarrow> tool_change t t' \<Longrightarrow> Q t'"
    and interrupted: "Q t \<Longrightarrow> Q (interrupt_tool ts t)"
    and settled: "Q t \<Longrightarrow> \<not> settled_tool t \<Longrightarrow> Q (toSettledToolPart t r ts)"
begin

lemma account_step_all: "account_step x y \<Longrightarrow> \<forall>t. t \<in># fst x \<longrightarrow> Q t \<Longrightarrow> \<forall>t. t \<in># fst y \<longrightarrow> Q t"
  by (induction rule: account_step.induct) (auto intro: opened changed interrupted settled dest: in_diffD)

end

sublocale tool_invariant \<subseteq> tool_log: log_invariant "reduce_step lc" tool_event_ok "all_tools Q"
  for lc
proof unfold_locales
  fix s e s'
  assume "all_tools Q s" "tool_event_ok s e" "reduce_step lc s e = Inr s'"
  with step_accounts [of s e lc s'] account_step_all [of "account (messages s) (stats s)" "account (messages s') (stats s')"]
  show "all_tools Q s'" by (simp add: all_tools_def account_def)
qed

definition live_bounded :: "ToolPart \<Rightarrow> bool" where
  "live_bounded t \<longleftrightarrow> (case tool_liveOutput t of None \<Rightarrow> True
     | Some l \<Rightarrow> utf8ByteLength (lo_preview l) \<le> LIVE_TOOL_OUTPUT_PREVIEW_MAX_BYTES)"

lemma live_output_simps [simp]:
  "tool_liveOutput (map_tool_base g t) = tool_liveOutput t" "tool_liveOutput (set_tool_input v t) = tool_liveOutput t"
  "tool_liveOutput (toRunningToolPart t v ts) = tool_liveOutput t"
  by (cases t; simp add: toRunningToolPart_def)+

lemma live_output_none [simp]:
  "tool_liveOutput (toInterruptedToolPart t ts) = None" "tool_liveOutput (toSettledToolPart t r ts) = None"
  by (simp_all add: toInterruptedToolPart_def toSettledToolPart_def toRunningToolPart_def)

interpretation live_tools: tool_invariant live_bounded
proof unfold_locales
  fix t t' assume "tool_change t t'" "live_bounded t"
  then show "live_bounded t'"
  proof (induction rule: tool_change.induct)
    case (live t d o' l)
    with append_live_bound show ?case by (cases t) (simp_all add: live_bounded_def)
  next
    case (attempt t a ts d)
    then show ?case by (cases t) (simp_all add: live_bounded_def withToolAttempt_def)
  qed (simp_all add: live_bounded_def)
next
  fix t ts assume "live_bounded t"
  then show "live_bounded (interrupt_tool ts t)" by (simp add: live_bounded_def interrupt_tool_def)
next
  fix t assume "tool_state t = ToolPending \<or> tool_state t = ToolRunning \<and> tool_liveOutput t = None"
  then show "live_bounded t" by (cases t) (auto simp: live_bounded_def)
qed (simp add: live_bounded_def)

definition result_consistent :: "ToolPart \<Rightarrow> bool" where
  "result_consistent t \<longleftrightarrow> (case tool_result t of None \<Rightarrow> \<not> settled_tool t
     | Some r \<Rightarrow> tool_state t = (if ftr_isError r then ToolError else ToolCompleted))"

lemma result_unsettled: "\<not> settled_tool t \<Longrightarrow> result_consistent t"
  by (cases t) (simp_all add: result_consistent_def settled_tool_def tool_settled_def)

lemma result_settled: "result_consistent (toSettledToolPart t r ts)"
  by (simp add: result_consistent_def toSettledToolPart_def toRunningToolPart_def)

interpretation result_tools: tool_invariant result_consistent
proof unfold_locales
  fix t t' assume "tool_change t t'" "result_consistent t"
  then show "result_consistent t'"
  proof (induction rule: tool_change.induct)
    case (input t v)
    then show ?case by (cases t) (simp_all add: result_consistent_def settled_tool_def)
  next
    case (attempt t a ts d)
    then show ?case
      by (intro result_unsettled) (auto simp: settled_tool_def tool_settled_def tool_state_attempt)
  next
    case (live t d o' l)
    then show ?case by (cases t) (simp_all add: result_consistent_def settled_tool_def)
  qed (auto intro!: result_unsettled simp: settled_tool_def tool_settled_def)
next
  fix t ts assume "result_consistent t"
  then show "result_consistent (interrupt_tool ts t)"
    by (auto simp: interrupt_tool_def intro: result_unsettled simp: settled_tool_def tool_settled_def)
qed (auto simp: settled_tool_def tool_settled_def intro: result_unsettled result_settled)

section \<open>The counters\<close>

definition count_state :: "ToolState \<Rightarrow> ToolPart multiset \<Rightarrow> int" where
  "count_state st T = int (size (filter_mset (\<lambda>t. tool_state t = st) T))"

fun balanced_account :: "tool_account \<Rightarrow> bool" where
  "balanced_account (T, c, f) = (c = count_state ToolCompleted T \<and> f = count_state ToolError T)"

lemma count_state_simps [simp]:
  "count_state st (add_mset t T) = count_state st T + (if tool_state t = st then 1 else 0)"
  by (simp add: count_state_def)

lemma count_state_diff:
  assumes "t \<in># T"
  shows "count_state st (T - {#t#}) = count_state st T - (if tool_state t = st then 1 else 0)"
proof -
  obtain S where "T = add_mset t S" using assms by (metis insert_DiffM)
  then show ?thesis by simp
qed

lemma count_state_interrupt:
  assumes "st = ToolCompleted \<or> st = ToolError"
  shows "count_state st (image_mset (interrupt_tool ts) T) = count_state st T"
proof (induction T)
  case empty
  then show ?case by simp
next
  case (add t T)
  with assms show ?case by (auto simp: interrupt_tool_def)
qed

lemma tool_change_settled:
  "tool_change t t' \<Longrightarrow> st = ToolCompleted \<or> st = ToolError \<Longrightarrow> tool_state t' = st \<longleftrightarrow> tool_state t = st"
  by (induction rule: tool_change.induct)
    (auto simp: tool_state_attempt settled_tool_def tool_settled_def)

lemma account_step_balanced: "account_step x y \<Longrightarrow> balanced_account x \<Longrightarrow> balanced_account y"
  by (induction rule: account_step.induct)
    (auto simp: count_state_diff count_state_interrupt tool_change_settled settled_tool_def tool_settled_def)

definition tools_accounted :: "SessionProjection \<Rightarrow> bool" where
  "tools_accounted s \<longleftrightarrow> unique_ids (messages s) \<and> balanced_account (account (messages s) (stats s))"

interpretation account_log: log_invariant "reduce_step lc" tool_event_ok tools_accounted
  for lc
  unfolding tools_accounted_def by unfold_locales (metis step_accounts account_step_balanced)

section \<open>Properties\<close>

text \<open>
  Over every log with fresh identifiers that commits only messages of users, the tool counters of
  a Session count its tool parts: the completed calls are exactly the parts that are completed and
  the failed calls exactly the parts in error, so every result that is accepted counts once.
\<close>
theorem log_accounts_tools:
  assumes "tools_accounted s" "run_ok (reduce_step lc) tool_event_ok s es"
    and "run_log (reduce_step lc) s es = Inr s'"
  shows "st_completed (stats_tools (stats s')) = count_state ToolCompleted (tools_of (messages s'))
    \<and> st_failed (stats_tools (stats s')) = count_state ToolError (tools_of (messages s'))"
  using account_log.run_inv [OF assms]
  by (simp add: tools_accounted_def account_def settled_counts_def)

text \<open>
  The live output that a running tool call shows is bounded: over every such log each preview
  kept in the transcript has at most 50 KiB of UTF-8.
\<close>
theorem log_bounds_live_preview:
  assumes "all_tools live_bounded s" "run_ok (reduce_step lc) tool_event_ok s es"
    and "run_log (reduce_step lc) s es = Inr s'"
    and "AssistantMessage a \<in> set (messages s')" "AssistantTool t \<in> set (am_parts a)" "tool_liveOutput t = Some l"
  shows "utf8ByteLength (lo_preview l) \<le> 51200"
proof -
  have "all_tools live_bounded s'" using live_tools.tool_log.run_inv [OF assms(1-3)] .
  moreover have "t \<in># tools_of (messages s')" using assms(4,5) by (auto simp: mem_tools_of)
  ultimately have "live_bounded t" by (simp add: all_tools_def)
  with assms(6) show ?thesis by (simp add: live_bounded_def LIVE_TOOL_OUTPUT_PREVIEW_MAX_BYTES_def)
qed

text \<open>
  C34: The status of a tool part agrees with its result over every such log: exactly the settled parts
  have a result, and a part is in error exactly when its result is one.
\<close>
theorem log_keeps_results_consistent:
  assumes "all_tools result_consistent s" "run_ok (reduce_step lc) tool_event_ok s es"
    and "run_log (reduce_step lc) s es = Inr s'"
    and "AssistantMessage a \<in> set (messages s')" "AssistantTool t \<in> set (am_parts a)"
  shows "(tool_result t \<noteq> None \<longleftrightarrow> settled_tool t)
    \<and> (\<forall>r. tool_result t = Some r \<longrightarrow> (tool_state t = ToolError \<longleftrightarrow> ftr_isError r))"
proof -
  have "all_tools result_consistent s'" using result_tools.tool_log.run_inv [OF assms(1-3)] .
  moreover have "t \<in># tools_of (messages s')" using assms(4,5) by (auto simp: mem_tools_of)
  ultimately have "result_consistent t" by (simp add: all_tools_def)
  then show ?thesis
    by (auto simp: result_consistent_def settled_tool_def tool_settled_def split: option.splits if_splits)
qed

end
