(* ===== verification/Compaction.thy ===== *)
theory Compaction
  imports TranscriptEvents
begin

text \<open>
  What compaction does to a Session: the messages before the kept tail are flagged, the tail is
  untouched, one compaction message carries the new summary, and the compression blocks are dropped.
\<close>

lemma update_compaction_part: "as_compaction (update_compaction x tail t p) = None \<longleftrightarrow> as_compaction p = None"
  by (cases p) simp_all

lemma has_compaction_recompact [simp]: "has_compaction (recompact x tail t m) = has_compaction m"
proof (cases m)
  case (UserMessage u)
  then show ?thesis using update_compaction_part by (simp del: not_None_eq)
qed simp

lemma recompacted_part:
  assumes "has_compaction m"
  shows "\<exists>u p. recompact x tail t m = UserMessage u \<and> UserCompaction p \<in> set (um_parts u) \<and> cp_summary p = x
    \<and> cp_tailStartId p = tail \<and> um_compacted u = None"
proof -
  obtain u where u: "m = UserMessage u" using assms has_compaction_user by blast
  then obtain q where q: "UserCompaction q \<in> set (um_parts u)"
    using assms by (auto elim!: as_compaction.elims)
  then have "update_compaction x tail t (UserCompaction q) \<in> set (map (update_compaction x tail t) (um_parts u))"
    by (metis image_eqI list.set_map)
  with u show ?thesis by auto
qed

text \<open>The messages other than the compaction message keep their place in the list.\<close>

definition carries_summary :: "jstring \<Rightarrow> jstring \<Rightarrow> SessionMessage \<Rightarrow> bool" where
  "carries_summary x tail m \<longleftrightarrow> (\<exists>u p. m = UserMessage u \<and> UserCompaction p \<in> set (um_parts u)
     \<and> cp_summary p = x \<and> cp_tailStartId p = tail \<and> um_compacted u = None)"

lemma filter_update_other:
  "i < length xs \<Longrightarrow> P (xs ! i) \<Longrightarrow> P y \<Longrightarrow> filter (\<lambda>x. \<not> P x) (xs[i := y]) = filter (\<lambda>x. \<not> P x) xs"
  by (induction xs arbitrary: i) (auto split: nat.splits)

lemma length_filter_update:
  "i < length xs \<Longrightarrow> P (xs ! i) \<Longrightarrow> P y \<Longrightarrow> length (filter P (xs[i := y])) = length (filter P xs)"
  by (induction xs arbitrary: i) (auto split: nat.splits)

lemma filter_marked:
  "filter (\<lambda>m. \<not> has_compaction m) (compact_marked ms k)
    = map (set_compacted (Some True)) (filter (\<lambda>m. \<not> has_compaction m) (take k ms))
      @ filter (\<lambda>m. \<not> has_compaction m) (drop k ms)"
proof -
  have "filter (\<lambda>m. \<not> has_compaction m) (map mark_compacted ns)
      = map (set_compacted (Some True)) (filter (\<lambda>m. \<not> has_compaction m) ns)" for ns
    by (induction ns) (auto simp: mark_compacted_def)
  then show ?thesis by (simp add: compact_marked_def)
qed

lemma count_marked: "length (filter has_compaction (compact_marked ms k)) = length (filter has_compaction ms)"
proof -
  have "length (filter has_compaction (map mark_compacted ns)) = length (filter has_compaction ns)" for ns
    by (induction ns) auto
  then show ?thesis
    unfolding compact_marked_def filter_append length_append
    by (metis append_take_drop_id filter_append length_append)
qed


text \<open>
  C31: Compacting a Session flags every earlier message (the ones before the kept tail) as compacted,
  in place and in order, leaves the messages of the tail as they are, and records the summary in
  exactly one unflagged message: the one compaction message there was, or a new one when there was
  none. The compression state of the compacted transcript is dropped.
\<close>
theorem compaction_summarises_prefix:
  assumes "length (filter has_compaction (messages s)) \<le> 1"
    and "reduceStreamEvent lc s (Compact x tail) ctx = Inr p" "s' = apply_patch s p"
    and "k = compact_index (messages s) tail"
  shows "filter (\<lambda>m. \<not> has_compaction m) (messages s')
      = map (set_compacted (Some True)) (filter (\<lambda>m. \<not> has_compaction m) (take k (messages s)))
        @ filter (\<lambda>m. \<not> has_compaction m) (drop k (messages s))
    \<and> (\<exists>m. filter has_compaction (messages s') = [m] \<and> carries_summary x tail m)
    \<and> compression s' = None \<and> compressionBlocks s' = Some []"
proof -
  let ?ms = "messages s"
  let ?marked = "compact_marked ?ms k"
  have p: "p = onCompact s x tail ctx" using assms(2) by simp
  have ms': "messages s' = compactMessages ?ms x tail ctx"
    using assms(3) p by (simp add: onCompact_def)
  have rest: "compression s' = None \<and> compressionBlocks s' = Some []"
    using assms(3) p by (simp add: onCompact_def)
  have "filter (\<lambda>m. \<not> has_compaction m) (messages s') = filter (\<lambda>m. \<not> has_compaction m) ?marked
      \<and> (\<exists>m. filter has_compaction (messages s') = [m] \<and> carries_summary x tail m)"
  proof (cases "find_index has_compaction ?marked")
    case None
    then have none: "filter has_compaction ?marked = []"
      by (simp add: find_index_None_iff filter_empty_conv)
    have eq: "messages s' = map mark_compacted (take k ?ms) @ [compaction_message x tail ctx] @ drop k ?ms"
      using None unfolding ms' compactMessages_eq Let_def assms(4) [symmetric] by simp
    have comp: "has_compaction (compaction_message x tail ctx)" "carries_summary x tail (compaction_message x tail ctx)"
      by (auto simp: compaction_message_def carries_summary_def)
    have "filter has_compaction (map mark_compacted (take k ?ms)) = []" "filter has_compaction (drop k ?ms) = []"
      using none by (simp_all add: compact_marked_def)
    with comp show ?thesis unfolding eq compact_marked_def by auto
  next
    case (Some i)
    then have i: "i < length ?marked" "has_compaction (?marked ! i)"
      by (auto dest: find_index_SomeD)
    let ?new = "recompact x tail (rc_timestamp ctx) (?marked ! i)"
    have eq: "messages s' = ?marked[i := ?new]"
      using Some unfolding ms' compactMessages_eq Let_def assms(4) [symmetric] by simp
    have "length (filter has_compaction ?marked) = 1"
      using assms(1) i count_marked [of ?ms k] by (metis One_nat_def filter_empty_conv le_Suc_eq le_zero_eq length_0_conv nth_mem)
    then have "length (filter has_compaction (messages s')) = 1"
      unfolding eq using length_filter_update [of i ?marked has_compaction ?new] i by simp
    moreover have "?new \<in> set (filter has_compaction (messages s'))"
      unfolding eq using i set_update_memI [of i ?marked ?new] by simp
    ultimately have "filter has_compaction (messages s') = [?new]"
      by (cases "filter has_compaction (messages s')") auto
    moreover have "carries_summary x tail ?new"
      using recompacted_part [OF i(2), of x tail "rc_timestamp ctx"] unfolding carries_summary_def by blast
    moreover have "filter (\<lambda>m. \<not> has_compaction m) (messages s') = filter (\<lambda>m. \<not> has_compaction m) ?marked"
      unfolding eq using i by (intro filter_update_other) auto
    ultimately show ?thesis by blast
  qed
  with rest show ?thesis unfolding filter_marked by blast
qed

end
