(* ===== verification/Witnesses.thy ===== *)
theory Witnesses
  imports ExampleSession SessionSteps SessionOutcome SessionContents BlockStreams ToolCalls Compaction
begin

text \<open>
  The properties that have hypotheses, applied to the example Session and its log: every hypothesis
  is discharged there by evaluating the definitions.
\<close>

section \<open>The empty Session\<close>

lemma empty_session_ok:
  "wf_executions (executions empty_session)" "session_coherent empty_session" "steps_recorded empty_session"
  "steps_accounted empty_session" "balanced_stats (stats empty_session)" "unique_ids (messages empty_session)"
  by (simp_all add: empty_session_def wf_executions_def session_coherent_def steps_recorded_def
      steps_accounted_def balanced_stats_def unique_ids_def createEmptySessionStats_def total_usage_def)

lemma ex_log_fresh: "run_ok (reduce_step flat) event_fresh empty_session ex_log"
  by code_simp

lemma ex_log_clock: "e \<in> set ex_log \<Longrightarrow> rc_timestamp (snd e) \<noteq> 0"
  by (auto simp: ex_log_def ex_ctx_def)

section \<open>Lifecycle\<close>

theorem log_keeps_executions_wf_witness: "wf_executions (executions (fold_log ex_log))"
  by (rule log_keeps_executions_wf [OF empty_session_ok(1) ex_log_folds])

theorem log_keeps_coherence_witness: "session_coherent (fold_log ex_log)"
  by (rule log_keeps_coherence [OF empty_session_ok(2) ex_log_folds])

lemma ex_wf: "wf_executions (executions (fold_log (take n ex_log)))"
  using execution_log.run_inv_events [OF empty_session_ok(1) _ fold_log_take] by simp

theorem lifecycle_event_idempotent_witness:
  "reduceStreamEvent flat (apply_patch empty_session (onExecutionStart empty_session ex_start 100))
     (Lifecycle (ExecutionStart ex_start)) (ex_ctx 105 ''x'') = Inr no_patch"
proof (rule lifecycle_event_idempotent [OF empty_session_ok(1)])
  show "reduceStreamEvent flat empty_session (Lifecycle (ExecutionStart ex_start)) (ex_ctx 100 ''0'')
      = Inr (onExecutionStart empty_session ex_start 100)"
    by (simp add: reduceLifecycle_def validateExecutionTransition_def lifecycle_executionId_def
        validateStart_def find_execution_def final_output_ok_def empty_session_def ex_ctx_def)
qed

theorem reducer_throws_only_without_assistant_witness:
  "\<not> (\<exists>i m. currentAssistantMessageId empty_session = Some i \<and> i \<noteq> [] \<and> m \<in> set (messages empty_session)
      \<and> is_message i m)"
proof -
  have "reduceStreamEvent flat empty_session (ToolInputStart (js ''c'') (js ''bash'')) (ex_ctx 100 ''0'')
      = Inl (GenericError (js ''Assistant event requires a current model-step message''))"
    by (simp add: onToolInputStart_def ensureCurrentAssistantMessage_def empty_session_def)
  from reducer_throws_only_without_assistant [OF empty_session_ok(1) this] show ?thesis by blast
qed

theorem lifecycle_event_refines_witness:
  "\<exists>p x x'. reduceStreamEvent flat (fold_log (take 1 ex_log)) (Lifecycle (ExecutionSuspended ex_suspended)) (ex_ctx 110 ''x'') = Inr p
    \<and> find_execution (executions (fold_log (take 1 ex_log))) (js ''e1'') = Some x
    \<and> exec_step (ExecutionSuspended ex_suspended) 110 x x' \<and> phase_step (phase_of x) (phase_of x')
    \<and> executions (apply_patch (fold_log (take 1 ex_log)) p)
        = replace_execution (js ''e1'') x' (executions (fold_log (take 1 ex_log)))"
proof -
  have valid: "validateExecutionTransition (executions (fold_log (take 1 ex_log))) (ExecutionSuspended ex_suspended) = Valid"
    by code_simp
  have "final_output_ok (fold_log (take 1 ex_log)) (ExecutionSuspended ex_suspended)"
       "\<not> is_start (ExecutionSuspended ex_suspended)"
    by (simp_all add: final_output_ok_def is_start_def)
  from lifecycle_event_refines [OF ex_wf valid this, of flat "ex_ctx 110 ''x''"] show ?thesis
    by (simp add: lifecycle_executionId_def ex_suspended_def ex_ctx_def)
qed

lemma ex_terminal: "\<exists>e \<in> set (executions (fold_log ex_log)). is_terminal (ex_state e)"
  by code_simp

theorem terminal_execution_frozen_witness:
  "\<exists>e \<in> set (executions (fold_log ex_log)). is_terminal (ex_state e)
    \<and> (\<forall>s'. run_log (reduce_step flat) (fold_log ex_log) [(StopRequested (js ''e1'') 130, ex_ctx 130 ''x'')] = Inr s'
         \<longrightarrow> (\<exists>e' \<in> set (executions s'). same_but_stop e e'))"
proof -
  obtain e where e: "e \<in> set (executions (fold_log ex_log))" "is_terminal (ex_state e)"
    using ex_terminal by blast
  have "wf_executions (executions (fold_log ex_log))"
    using execution_log.run_inv_events [OF empty_session_ok(1) _ ex_log_folds] by simp
  from terminal_execution_frozen [OF this e] e show ?thesis by blast
qed

section \<open>Steps and counters\<close>

theorem log_keeps_steps_recorded_witness: "steps_recorded (fold_log ex_log)"
  by (rule log_keeps_steps_recorded [OF empty_session_ok(3) ex_log_folds])

theorem log_accounts_steps_witness: "steps_accounted (fold_log ex_log)"
  by (rule log_accounts_steps [OF empty_session_ok(4) ex_log_clock ex_log_folds])

theorem log_counters_monotone_witness:
  "balanced_stats (stats (fold_log ex_log)) \<and> stats_le (stats empty_session) (stats (fold_log ex_log))"
  by (rule log_counters_monotone [OF empty_session_ok(5) ex_log_folds])

section \<open>The transcript\<close>

theorem log_evolves_transcript_witness:
  "unique_ids (messages (fold_log ex_log)) \<and> transcript_evolves (messages empty_session) (messages (fold_log ex_log))"
  by (rule log_evolves_transcript [OF empty_session_ok(6) ex_log_fresh ex_log_folds])

lemma ex_settled: "\<exists>a \<in> set (assistant_messages (messages (fold_log (take 11 ex_log)))).
    \<exists>p \<in> set (am_parts a). case p of AssistantTool t \<Rightarrow> tool_settled (tool_state t) | _ \<Rightarrow> False"
  by code_simp

lemma ex_tail_fresh: "run_ok (reduce_step flat) event_fresh (fold_log (take 11 ex_log)) (drop 11 ex_log)"
  by code_simp

theorem tool_result_is_final_witness:
  "\<exists>a t. AssistantMessage a \<in> set (messages (fold_log (take 11 ex_log))) \<and> AssistantTool t \<in> set (am_parts a)
    \<and> settled_tool t
    \<and> (\<exists>a' t'. AssistantMessage a' \<in> set (messages (fold_log ex_log)) \<and> am_id a' = am_id a
        \<and> AssistantTool t' \<in> set (am_parts a') \<and> tp_toolCallId (tool_base t') = tp_toolCallId (tool_base t)
        \<and> tool_state t' = tool_state t \<and> tool_result t' = tool_result t
        \<and> tool_startedAt t' = tool_startedAt t \<and> tool_endedAt t' = tool_endedAt t)"
proof -
  obtain a p where a: "AssistantMessage a \<in> set (messages (fold_log (take 11 ex_log)))" "p \<in> set (am_parts a)"
      and p: "case p of AssistantTool t \<Rightarrow> tool_settled (tool_state t) | _ \<Rightarrow> False"
    using ex_settled by (auto simp: set_assistant_messages)
  then obtain t where t: "p = AssistantTool t" "settled_tool t"
    by (cases p) (auto simp: settled_tool_def)
  have "unique_ids (messages (fold_log (take 11 ex_log)))"
    by code_simp
  from tool_result_is_final [OF this ex_tail_fresh fold_log_drop a(1) a(2) [unfolded t(1)] t(2)] a t show ?thesis
    by blast
qed

section \<open>The outcome of an Execution\<close>

text \<open>The example Session while its first step streams, and the failure of its Execution there.\<close>

definition streaming_session :: SessionProjection where
  "streaming_session = fold_log (take 4 ex_log)"

definition ex_failed :: ExecutionEndEvent where
  "ex_failed = ex_end\<lparr>en_terminalStatus := Failed, en_finalOutputStepId := None, en_error := Some (js ''boom'')\<rparr>"

definition failed_patch :: SessionProjectionPatch where
  "failed_patch = (case reduceStreamEvent flat streaming_session (Lifecycle (ExecutionEnd ex_failed)) (ex_ctx 120 ''d'')
     of Inr p \<Rightarrow> p | Inl _ \<Rightarrow> no_patch)"

lemma failed_reduces:
  "reduceStreamEvent flat streaming_session (Lifecycle (ExecutionEnd ex_failed)) (ex_ctx 120 ''d'') = Inr failed_patch"
proof -
  have "case reduceStreamEvent flat streaming_session (Lifecycle (ExecutionEnd ex_failed)) (ex_ctx 120 ''d'')
      of Inr _ \<Rightarrow> True | Inl _ \<Rightarrow> False"
    by code_simp
  then show ?thesis by (auto simp: failed_patch_def split: sum.splits)
qed

lemma failed_accepted: "failed_patch \<noteq> no_patch"
proof -
  have "p_isRunning failed_patch \<noteq> None" by code_simp
  then show ?thesis by auto
qed

definition open_output :: "AssistantSessionPart \<Rightarrow> bool" where
  "open_output p = (case p of AssistantOutput b \<Rightarrow> bp_completedAt b = None | _ \<Rightarrow> False)"

lemma streaming_open:
  "\<exists>a b. AssistantMessage a \<in> set (messages streaming_session) \<and> AssistantOutput b \<in> set (am_parts a)
    \<and> bp_completedAt b = None"
proof -
  have "\<exists>a \<in> set (assistant_messages (messages streaming_session)). \<exists>p \<in> set (am_parts a). open_output p"
    by code_simp
  then obtain a q where a: "AssistantMessage a \<in> set (messages streaming_session)" "q \<in> set (am_parts a)" "open_output q"
    by (auto simp: set_assistant_messages)
  then obtain b where "q = AssistantOutput b" "bp_completedAt b = None"
    by (cases q) (auto simp: open_output_def)
  with a show ?thesis by blast
qed

theorem execution_end_closes_parts_witness:
  "\<exists>a q. AssistantMessage a \<in> set (messages (apply_patch streaming_session failed_patch)) \<and> q \<in> set (am_parts a)
    \<and> \<not> isIncompletePart q"
proof -
  have "\<exists>a \<in> set (assistant_messages (messages (apply_patch streaming_session failed_patch))). \<exists>q \<in> set (am_parts a). True"
    by code_simp
  then obtain a q where "AssistantMessage a \<in> set (messages (apply_patch streaming_session failed_patch))"
      "q \<in> set (am_parts a)"
    by (auto simp: set_assistant_messages)
  with execution_end_closes_parts [OF failed_reduces failed_accepted this] show ?thesis by blast
qed

theorem execution_end_discards_partial_output_witness:
  "\<exists>a' b'. AssistantMessage a' \<in> set (messages (apply_patch streaming_session failed_patch))
    \<and> AssistantOutput b' \<in> set (am_parts a') \<and> meta_flag (bp_meta b') ''discardedFromContext'' \<and> \<not> trusted_block b'"
proof -
  obtain a b where "AssistantMessage a \<in> set (messages streaming_session)" "AssistantOutput b \<in> set (am_parts a)"
      "bp_completedAt b = None"
    using streaming_open by blast
  moreover have "en_terminalStatus ex_failed \<noteq> Completed" by (simp add: ex_failed_def)
  ultimately show ?thesis
    using execution_end_discards_partial_output [OF failed_reduces failed_accepted] by blast
qed

theorem final_answer_was_selected_witness:
  "\<exists>a. AssistantMessage a \<in> set (messages (fold_log ex_log)) \<and> am_outputPhase a = FinalAnswer
    \<and> (\<exists>e \<in> set (executions (fold_log ex_log)). ex_id e = am_executionId a \<and> selected_by e (am_stepId a))"
proof -
  have "\<exists>a \<in> set (assistant_messages (messages (fold_log ex_log))). am_outputPhase a = FinalAnswer"
    by code_simp
  then obtain a where a: "AssistantMessage a \<in> set (messages (fold_log ex_log))" "am_outputPhase a = FinalAnswer"
    by (auto simp: set_assistant_messages)
  have "finals_selected empty_session"
    using empty_session_ok(1) by (simp add: finals_selected_def final_heads_def empty_session_def)
  moreover have "commits_no_final (fst e)" if "e \<in> set ex_log" for e
    using that by (auto simp: ex_log_def commits_no_final_def)
  ultimately show ?thesis
    using final_answer_was_selected [OF _ _ ex_log_folds a] a by blast
qed

section \<open>Text\<close>

theorem utf8Suffix_keeps_longest_suffix_witness:
  "fst (utf8Suffix (js ''abcd'') 3) = js ''bcd'' \<and> utf8ByteLength (fst (utf8Suffix (js ''abcd'') 3)) \<le> 3
    \<and> length (js ''cd'') \<le> length (fst (utf8Suffix (js ''abcd'') 3))"
proof -
  have "js ''abcd'' = js ''ab'' @ js ''cd''" by (simp add: js_append [symmetric])
  moreover have "clean_cut (js ''ab'') (js ''cd'')" "utf8ByteLength (js ''cd'') \<le> 3" by code_simp+
  ultimately have "length (js ''cd'') \<le> length (fst (utf8Suffix (js ''abcd'') 3))"
    using utf8Suffix_keeps_longest_suffix [of "js ''abcd''" 3] by blast
  moreover have "fst (utf8Suffix (js ''abcd'') 3) = js ''bcd''" by code_simp
  ultimately show ?thesis using utf8Suffix_keeps_longest_suffix [of "js ''abcd''" 3] by blast
qed

theorem unwrap_undoes_envelope_witness:
  "unwrapAssistantProjectionEnvelope (wrap_envelope (js ''0001'') (js ''hi'')) = js ''hi''"
proof -
  have "list_all is_digit (js ''0001'')" "last (js ''hi'') \<noteq> CR" by code_simp+
  with unwrap_undoes_envelope [of "js ''0001''" "js ''hi''" "[]"] show ?thesis by simp
qed

theorem equal_js_decides_canonical_equality_witness:
  "equal_js (JsObject [(js ''a'', JsNull), (js ''b'', JsBool True)]) (JsObject [(js ''b'', JsBool True), (js ''a'', JsNull)])"
proof -
  have "canonical (JsObject [(js ''a'', JsNull), (js ''b'', JsBool True)])
      = canonical (JsObject [(js ''b'', JsBool True), (js ''a'', JsNull)])"
    by code_simp
  then show ?thesis by (subst equal_js_decides_canonical_equality) simp_all
qed

section \<open>The contents of a Session\<close>

lemma flat_order: "collation_order flat"
  by (simp add: collation_order_def flat_def)

theorem latest_links_one_per_child_witness:
  "length (selectLatestDirectChildLinks flat [ex_link, ex_link\<lparr>cl_createdAt := 101\<rparr>]) = 1"
  using latest_links_one_per_child [OF flat_order, of "[ex_link, ex_link\<lparr>cl_createdAt := 101\<rparr>]"] by simp

lemma empty_session_contents:
  "within_capacity flat empty_session" "reminders_unique empty_session" "compression_filed empty_session"
proof -
  have "areTodosValid []" by code_simp
  then show "within_capacity flat empty_session"
    by (simp add: within_capacity_def empty_session_def directChildContextCapacityViolation_def
        projectLatestDirectChildContext_def selectLatestDirectChildLinks_def sort_cmp_def)
qed (simp_all add: reminders_unique_def sub_agent_keys_def compression_filed_def empty_session_def)

theorem log_keeps_capacity_witness: "length (todos (fold_log ex_log)) \<le> 32 \<and> todos (fold_log ex_log) \<noteq> []"
proof -
  have "todos (fold_log ex_log) \<noteq> []" by code_simp
  with log_keeps_capacity [OF empty_session_contents(1) ex_log_folds] show ?thesis by blast
qed

theorem log_delivers_reminders_once_witness:
  "reminders_unique (fold_log ex_log) \<and> reminders_evolve (reminders empty_session) (reminders (fold_log ex_log))"
  by (rule log_delivers_reminders_once [OF empty_session_contents(2) ex_log_folds])

text \<open>A compression block that a Session without compression commits.\<close>

definition ex_block :: CompressionBlockSnapshot where
  "ex_block = \<lparr> cb_id = js ''i'', cb_ref = js ''b1'', cb_status = BlockActive, cb_strategy = DynamicRange,
     cb_trigger = ModelToolCall, cb_range = \<lparr> cr_startMessageId = js ''m1'', cr_endMessageId = js ''m2'',
       cr_startRef = js ''m0001'', cr_endRef = js ''m0002'', cr_startIndex = 0, cr_endIndex = 1 \<rparr>,
     cb_summary = (\<lambda>_. js ''x''),
     cb_childBlockRefs = [], cb_protectedRefs = [], cb_tokenEstimate = None, cb_createdAt = 100, cb_updatedAt = 100,
     cb_deactivatedAt = None, cb_supersededBy = None \<rparr>"

definition ex_commit :: StreamEvent where
  "ex_commit = Compression (BlockCommitted ex_block None)"

theorem log_keeps_compression_partition_witness:
  "\<exists>s' st. run_log (reduce_step flat) empty_session [(ex_commit, ex_ctx 100 ''0'')] = Inr s' \<and> compression s' = Some st
    \<and> js ''b1'' \<in> set (cs_activeBlockRefs st) \<and> js ''b1'' \<notin> set (cs_supersededBlockRefs st)"
proof -
  define s' where "s' = apply_patch empty_session (onBlockCommitted empty_session ex_block None (ex_ctx 100 ''0''))"
  define st where "st = commitCompressionBlockSnapshot None ex_block 100"
  have run: "run_log (reduce_step flat) empty_session [(ex_commit, ex_ctx 100 ''0'')] = Inr s'"
    by (simp add: reduce_step_def ex_commit_def s'_def)
  have st: "compression s' = Some st"
    by (simp add: s'_def st_def onBlockCommitted_def empty_session_def ex_ctx_def)
  have "map_of (cs_blocksByRef st) (js ''b1'') = Some ex_block"
    unfolding st_def by (simp add: commit_lookup ex_block_def)
  moreover have "carries_partitioned (fst e)" if "e \<in> set [(ex_commit, ex_ctx 100 ''0'')]" for e
    using that by (simp add: ex_commit_def carries_partitioned_def)
  ultimately have "js ''b1'' \<in> set (cs_activeBlockRefs st) \<and> js ''b1'' \<notin> set (cs_supersededBlockRefs st)"
    using log_keeps_compression_partition [OF empty_session_contents(3) _ run st] by (simp add: ex_block_def)
  with run st show ?thesis by blast
qed

definition ex_user :: UserSessionMessage where
  "ex_user = \<lparr> um_id = js ''u1'', um_createdAt = 90, um_completedAt = Some 90, um_executionId = None,
     um_runOrdinal = None, um_clientRequestId = Some (js ''r''), um_inputSource = None,
     um_parentAgentProvenance = None, um_compacted = None, um_parts = [], um_modelAudit = None \<rparr>"

theorem commit_delivers_exactly_once_witness:
  "\<exists>p. reduceStreamEvent flat empty_session (MessagesCommitted (js ''e1'') [UserMessage ex_user]) (ex_ctx 100 ''0'') = Inr p
    \<and> set (map msg_id (messages (apply_patch empty_session p))) = {js ''u1''}"
proof -
  define p where "p = onMessagesCommitted empty_session [UserMessage ex_user]"
  have p: "reduceStreamEvent flat empty_session (MessagesCommitted (js ''e1'') [UserMessage ex_user]) (ex_ctx 100 ''0'') = Inr p"
    by (simp add: p_def)
  have "distinct (map msg_id (messages empty_session))" "distinct (map msg_id [UserMessage ex_user])"
    by (simp_all add: empty_session_def)
  from commit_delivers_exactly_once [OF this p refl] have
    "set (map msg_id (messages (apply_patch empty_session p))) = set (map msg_id (messages empty_session)) \<union> {js ''u1''}"
    by (simp add: ex_user_def)
  with p show ?thesis by (auto simp: empty_session_def)
qed

section \<open>Streams and compaction\<close>

definition streaming_message :: ModelStepAssistantMessage where
  "streaming_message = hd (assistant_messages (messages (fold_log (take 2 ex_log))))"

theorem text_stream_collects_deltas_witness:
  "\<exists>s'. run_log (reduce_step flat) (fold_log (take 2 ex_log))
      [(TextStart (js ''s1'') (js ''b''), ex_ctx 102 ''2''), (TextDelta (js ''s1'') (js ''b'') (js ''Loo''), ex_ctx 103 ''3''),
       (TextDelta (js ''s1'') (js ''b'') (js ''k''), ex_ctx 103 ''4''), (TextEnd (js ''s1'') (js ''b''), ex_ctx 104 ''5'')] = Inr s'
    \<and> messages s' = appendPartToMessage (messages (fold_log (take 2 ex_log))) (am_id streaming_message) (AssistantOutput
        \<lparr> bp_id = js ''g2'', bp_blockId = js ''b'', bp_text = js ''Look'', bp_createdAt = 102, bp_completedAt = Some 104,
          bp_meta = None \<rparr>)"
proof -
  have "takes_block OutputChannel (fold_log (take 2 ex_log)) (js ''s1'') (js ''b'') streaming_message (js ''g2'')"
  proof -
    have "isActiveOpenStep (fold_log (take 2 ex_log)) (js ''s1'')"
      "findBlockLocation (messages (fold_log (take 2 ex_log))) (js ''s1'') OutputChannel (js ''b'') = None"
      "distinct (map msg_id (messages (fold_log (take 2 ex_log))))"
      "js ''g2'' \<notin> part_id ` set (am_parts streaming_message)"
      by code_simp+
    moreover have "find (has_step (js ''s1'')) (messages (fold_log (take 2 ex_log))) = Some (AssistantMessage streaming_message)"
      by code_simp
    ultimately show ?thesis by (simp add: takes_block_def)
  qed
  then have t: "takes_block OutputChannel (fold_log (take 2 ex_log)) (js ''s1'') (js ''b'') streaming_message
      (rc_generateId (ex_ctx 102 ''2'') 0)"
    by (simp add: ex_ctx_def)
  have "unwrapAssistantProjectionEnvelope (js ''Loo'' @ js ''k'') = js ''Look''" by code_simp
  with text_stream_collects_deltas [OF t, of flat "[(js ''Loo'', ex_ctx 103 ''3''), (js ''k'', ex_ctx 103 ''4'')]" "ex_ctx 104 ''5''"]
  show ?thesis by (simp add: Let_def ex_ctx_def)
qed

lemma ex_tool_events: "run_ok (reduce_step flat) tool_event_ok empty_session ex_log"
  by code_simp

lemma empty_session_tools: "tools_accounted empty_session" "all_tools Q empty_session"
  by (simp_all add: tools_accounted_def all_tools_def empty_session_def unique_ids_def account_def settled_counts_def
      createEmptySessionStats_def count_state_def)

theorem log_accounts_tools_witness:
  "st_completed (stats_tools (stats (fold_log ex_log))) = count_state ToolCompleted (tools_of (messages (fold_log ex_log)))
    \<and> st_completed (stats_tools (stats (fold_log ex_log))) = 1"
proof -
  have "st_completed (stats_tools (stats (fold_log ex_log))) = 1" by code_simp
  with log_accounts_tools [OF empty_session_tools(1) ex_tool_events ex_log_folds] show ?thesis by simp
qed

lemma ex_live_ok: "run_ok (reduce_step flat) tool_event_ok empty_session (take 7 ex_log)"
  by code_simp

theorem log_bounds_live_preview_witness:
  "\<exists>a t l. AssistantMessage a \<in> set (messages (fold_log (take 7 ex_log))) \<and> AssistantTool t \<in> set (am_parts a)
    \<and> tool_liveOutput t = Some l \<and> utf8ByteLength (lo_preview l) \<le> 51200"
proof -
  have "\<exists>a \<in> set (assistant_messages (messages (fold_log (take 7 ex_log)))). \<exists>q \<in> set (am_parts a).
      (case as_tool q of Some t \<Rightarrow> tool_liveOutput t \<noteq> None | None \<Rightarrow> False)"
    by code_simp
  then obtain a q where a: "AssistantMessage a \<in> set (messages (fold_log (take 7 ex_log)))" "q \<in> set (am_parts a)"
      and q: "case as_tool q of Some t \<Rightarrow> tool_liveOutput t \<noteq> None | None \<Rightarrow> False"
    by (auto simp: set_assistant_messages)
  then obtain t l where t: "q = AssistantTool t" "tool_liveOutput t = Some l"
    by (cases q) auto
  from log_bounds_live_preview [OF empty_session_tools(2) ex_live_ok fold_log_take a(1) a(2) [unfolded t(1)] t(2)] a t
  show ?thesis by blast
qed

theorem log_keeps_results_consistent_witness:
  "\<exists>a t. AssistantMessage a \<in> set (messages (fold_log ex_log)) \<and> AssistantTool t \<in> set (am_parts a)
    \<and> (tool_result t \<noteq> None \<longleftrightarrow> settled_tool t)"
proof -
  have "\<exists>a \<in> set (assistant_messages (messages (fold_log ex_log))). \<exists>q \<in> set (am_parts a). as_tool q \<noteq> None"
    by code_simp
  then obtain a q t where "AssistantMessage a \<in> set (messages (fold_log ex_log))" "q \<in> set (am_parts a)" "as_tool q = Some t"
    by (auto simp: set_assistant_messages)
  moreover from this(3) have "q = AssistantTool t" by (simp add: as_tool_Some_iff)
  ultimately show ?thesis
    using log_keeps_results_consistent [OF empty_session_tools(2) ex_tool_events ex_log_folds] by blast
qed

theorem compaction_summarises_prefix_witness:
  "\<exists>p. reduceStreamEvent flat (fold_log ex_log) (Compact (js ''sum'') (js ''g8'')) (ex_ctx 130 ''z'') = Inr p
    \<and> (\<exists>m. filter has_compaction (messages (apply_patch (fold_log ex_log) p)) = [m] \<and> carries_summary (js ''sum'') (js ''g8'') m)"
proof -
  have "filter has_compaction (messages (fold_log ex_log)) = []"
  proof -
    have "list_all (\<lambda>m. \<not> has_compaction m) (messages (fold_log ex_log))" by code_simp
    then show ?thesis by (simp add: filter_empty_conv list_all_iff)
  qed
  then have "length (filter has_compaction (messages (fold_log ex_log))) \<le> 1" by simp
  from compaction_summarises_prefix [OF this _ refl refl, where lc = flat and x = "js ''sum''" and tail = "js ''g8''"
      and ctx = "ex_ctx 130 ''z''"]
  show ?thesis by simp
qed

end
