(* ===== verification/CompressionTypes.thy ===== *)
theory CompressionTypes
  imports CompressionSnapshots
begin

text \<open>
  The run-time data of the compression engine, packages/agent-core/src/compression/types.ts and
  constants.ts. Reference maps, ranges, token estimates and failures have the fields of their
  protocol snapshots and are those records; a block and the state also keep why a piece of content
  was protected. \<open>js_slice\<close> is \<open>Array.prototype.slice\<close>.
\<close>

section \<open>Protected content\<close>

datatype ProtectedContentKind = LatestTail | PendingToolKind | RunningToolKind | ProtectTag | UnknownResult

fun kind_name :: "ProtectedContentKind \<Rightarrow> string" where
  "kind_name LatestTail = ''latest_tail''"
| "kind_name PendingToolKind = ''pending_tool''"
| "kind_name RunningToolKind = ''running_tool''"
| "kind_name ProtectTag = ''protect_tag''"
| "kind_name UnknownResult = ''unknown_result''"

record ProtectedRef =
  pr_ref :: jstring
  pr_kind :: ProtectedContentKind
  pr_reason :: jstring
  pr_messageId :: "jstring option"
  pr_partId :: "jstring option"

section \<open>Blocks and the state\<close>

type_synonym CompressionRefMap = CompressionRefMapSnapshot
type_synonym CompressionRange = CompressionRangeSnapshot
type_synonym CompressionTokenEstimate = CompressionTokenEstimateSnapshot
type_synonym CompressionFailure = CompressionFailureSnapshot
type_synonym CompressionSummary = "CompressionSummarySectionName \<Rightarrow> jstring"

record CompressionBlock =
  bk_id :: jstring
  bk_ref :: jstring
  bk_status :: CompressionBlockStatus
  bk_strategy :: CompressionStrategy
  bk_trigger :: CompressionTrigger
  bk_range :: CompressionRange
  bk_summary :: CompressionSummary
  bk_protectedRefs :: "ProtectedRef list"
  bk_childBlockRefs :: "jstring list"
  bk_tokenEstimate :: "CompressionTokenEstimate option"
  bk_createdAt :: int
  bk_updatedAt :: int
  bk_deactivatedAt :: "int option"
  bk_supersededBy :: "jstring option"

record CompressionState =
  ct_refMap :: CompressionRefMap
  ct_blocksByRef :: "(jstring, CompressionBlock) dict"
  ct_activeBlockRefs :: "jstring list"
  ct_inactiveBlockRefs :: "jstring list"
  ct_supersededBlockRefs :: "jstring list"
  ct_protectedRefs :: "ProtectedRef list"
  ct_failures :: "CompressionFailure list"
  ct_updatedAt :: "int option"

record CompressionBlockDraft =
  dt_id :: jstring
  dt_canonicalBlockId :: jstring
  dt_strategy :: CompressionStrategy
  dt_trigger :: CompressionTrigger
  dt_range :: CompressionRange
  dt_summary :: CompressionSummary
  dt_protectedRefs :: "ProtectedRef list option"
  dt_childBlockRefs :: "jstring list"
  dt_tokenEstimate :: "CompressionTokenEstimate option"
  dt_createdAt :: int

record CompressionCoverage =
  cv_activeBlockRefs :: "jstring list"
  cv_coveredMessageRefs :: "jstring list"
  cv_protectedRefs :: "ProtectedRef list"

section \<open>Slices\<close>

definition slice_index :: "'a list \<Rightarrow> int \<Rightarrow> nat" where
  "slice_index xs i = nat (if i < 0 then max (int (length xs) + i) 0 else min i (int (length xs)))"

definition js_slice :: "'a list \<Rightarrow> int \<Rightarrow> int \<Rightarrow> 'a list" where
  "js_slice xs i j = take (slice_index xs j - slice_index xs i) (drop (slice_index xs i) xs)"

text \<open>An array read: \<open>undefined\<close> outside the bounds.\<close>

definition js_at :: "'a list \<Rightarrow> int \<Rightarrow> 'a option" where
  "js_at xs i = (if 0 \<le> i \<and> i < int (length xs) then Some (xs ! nat i) else None)"

lemma js_at_Some_iff: "js_at xs i = Some x \<longleftrightarrow> 0 \<le> i \<and> nat i < length xs \<and> xs ! nat i = x"
  by (auto simp: js_at_def nat_less_iff)

lemma js_slice_within:
  assumes "0 \<le> i" "i \<le> j" "j < int (length xs)"
  shows "js_slice xs i (j + 1) = take (nat (j - i) + 1) (drop (nat i) xs)"
proof -
  from assms have "slice_index xs i = nat i" "slice_index xs (j + 1) - nat i = nat (j - i) + 1"
    by (auto simp: slice_index_def nat_add_distrib nat_diff_distrib)
  then show ?thesis by (simp add: js_slice_def)
qed

lemma set_js_slice:
  assumes "0 \<le> i" "i \<le> j" "j < int (length xs)"
  shows "set (js_slice xs i (j + 1)) = {xs ! nat k | k. i \<le> k \<and> k \<le> j}"
proof (intro set_eqI iffI)
  fix x assume "x \<in> set (js_slice xs i (j + 1))"
  then obtain n where n: "n < nat (j - i) + 1" "xs ! (nat i + n) = x"
    using assms by (auto simp: js_slice_within in_set_conv_nth)
  then have "i \<le> i + int n" "i + int n \<le> j" "nat (i + int n) = nat i + n"
    using assms by (auto simp: nat_add_distrib)
  with n show "x \<in> {xs ! nat k | k. i \<le> k \<and> k \<le> j}"
    by (intro CollectI exI [of _ "i + int n"]) simp
next
  fix x assume "x \<in> {xs ! nat k | k. i \<le> k \<and> k \<le> j}"
  then obtain k where k: "i \<le> k" "k \<le> j" "x = xs ! nat k" by blast
  then have "nat i + nat (k - i) = nat k" "nat (k - i) < nat (j - i) + 1" "nat k < length xs"
    using assms by auto
  moreover have "take (nat (j - i) + 1) (drop (nat i) xs) ! nat (k - i) = xs ! (nat i + nat (k - i))"
    using calculation assms by (subst nth_take, simp) (rule nth_drop, simp)
  ultimately have "nat (k - i) < length (take (nat (j - i) + 1) (drop (nat i) xs))"
      "take (nat (j - i) + 1) (drop (nat i) xs) ! nat (k - i) = x"
    using k by (simp_all add: less_diff_conv add.commute)
  then show "x \<in> set (js_slice xs i (j + 1))"
    unfolding js_slice_within [OF assms] by (metis nth_mem)
qed

text \<open>The distinct elements in the order of their first occurrence, \<open>[...new Set(xs)]\<close>.\<close>

definition js_unique :: "'a list \<Rightarrow> 'a list" where
  "js_unique xs = rev (remdups (rev xs))"

lemma set_js_unique [simp]: "set (js_unique xs) = set xs"
  by (simp add: js_unique_def)

lemma distinct_js_unique [simp]: "distinct (js_unique xs)"
  by (simp add: js_unique_def)

end
