(* ===== verification/CompressionRefs.thy ===== *)
theory CompressionRefs
  imports CompressionTypes
begin

text \<open>
  Projection references of the compression engine, packages/agent-core/src/compression/refs.ts and
  coverage.ts: a message is \<open>m0001\<close>, a block \<open>b1\<close>, numbered in the order they are first named. The
  reference map of the engine has the fields of its protocol snapshot and is that record here.
\<close>

section \<open>Formatting\<close>

text \<open>\<open>s.padStart(4, "0")\<close>.\<close>

definition padStart4 :: "jstring \<Rightarrow> jstring" where
  "padStart4 s = replicate (4 - length s) 0x30 @ s"

definition formatMessageRef :: "int \<Rightarrow> jstring" where
  "formatMessageRef index = js ''m'' @ padStart4 (decimal index)"

definition formatBlockRef :: "int \<Rightarrow> jstring" where
  "formatBlockRef index = js ''b'' @ decimal index"

section \<open>The reference map\<close>

definition createEmptyCompressionRefMap :: CompressionRefMap where
  "createEmptyCompressionRefMap = \<lparr> crm_messageRefsById = [], crm_messageIdsByRef = [],
     crm_blockRefsById = [], crm_blockIdsByRef = [], crm_nextMessageIndex = 1, crm_nextBlockIndex = 1 \<rparr>"

text \<open>\<open>if (existing)\<close>: an absent or empty reference is falsy.\<close>

definition truthy_ref :: "(jstring, jstring) dict \<Rightarrow> jstring \<Rightarrow> jstring option" where
  "truthy_ref d k = (case map_of d k of Some r \<Rightarrow> if r = [] then None else Some r | None \<Rightarrow> None)"

definition ensureMessageRef ::
  "CompressionRefMap \<Rightarrow> jstring \<Rightarrow> CompressionRefMap \<times> jstring" where
  "ensureMessageRef refMap canonicalMessageId =
    (case truthy_ref (crm_messageRefsById refMap) canonicalMessageId of
       Some existing \<Rightarrow> (refMap, existing)
     | None \<Rightarrow>
         (let ref = formatMessageRef (crm_nextMessageIndex refMap) in
          (refMap\<lparr>crm_messageRefsById := AList.update canonicalMessageId ref (crm_messageRefsById refMap),
             crm_messageIdsByRef := AList.update ref canonicalMessageId (crm_messageIdsByRef refMap),
             crm_nextMessageIndex := crm_nextMessageIndex refMap + 1\<rparr>, ref)))"

definition ensureBlockRef ::
  "CompressionRefMap \<Rightarrow> jstring \<Rightarrow> CompressionRefMap \<times> jstring" where
  "ensureBlockRef refMap canonicalBlockId =
    (case truthy_ref (crm_blockRefsById refMap) canonicalBlockId of
       Some existing \<Rightarrow> (refMap, existing)
     | None \<Rightarrow>
         (let ref = formatBlockRef (crm_nextBlockIndex refMap) in
          (refMap\<lparr>crm_blockRefsById := AList.update canonicalBlockId ref (crm_blockRefsById refMap),
             crm_blockIdsByRef := AList.update ref canonicalBlockId (crm_blockIdsByRef refMap),
             crm_nextBlockIndex := crm_nextBlockIndex refMap + 1\<rparr>, ref)))"

definition buildMessageRefMap :: "jstring list \<Rightarrow> CompressionRefMap \<Rightarrow> CompressionRefMap" where
  "buildMessageRefMap canonicalMessageIds initialRefMap =
     fold (\<lambda>i refMap. fst (ensureMessageRef refMap i)) canonicalMessageIds initialRefMap"

definition resolveMessageId :: "CompressionRefMap \<Rightarrow> jstring \<Rightarrow> jstring option" where
  "resolveMessageId refMap ref = map_of (crm_messageIdsByRef refMap) ref"

definition resolveBlockId :: "CompressionRefMap \<Rightarrow> jstring \<Rightarrow> jstring option" where
  "resolveBlockId refMap ref = map_of (crm_blockIdsByRef refMap) ref"

section \<open>Ranges\<close>

definition rangeContains :: "CompressionRange \<Rightarrow> CompressionRange \<Rightarrow> bool" where
  "rangeContains outer inner \<longleftrightarrow>
     cr_startIndex outer \<le> cr_startIndex inner \<and> cr_endIndex inner \<le> cr_endIndex outer"

definition rangesOverlap :: "CompressionRange \<Rightarrow> CompressionRange \<Rightarrow> bool" where
  "rangesOverlap a b \<longleftrightarrow> cr_startIndex a \<le> cr_endIndex b \<and> cr_startIndex b \<le> cr_endIndex a"

definition rangesPartiallyOverlap :: "CompressionRange \<Rightarrow> CompressionRange \<Rightarrow> bool" where
  "rangesPartiallyOverlap a b \<longleftrightarrow> rangesOverlap a b \<and> \<not> rangeContains a b \<and> \<not> rangeContains b a"

definition refsInRange :: "jstring list \<Rightarrow> CompressionRange \<Rightarrow> jstring list" where
  "refsInRange messageRefsInOrder rng =
     js_slice messageRefsInOrder (cr_startIndex rng) (cr_endIndex rng + 1)"

definition computeCompressionCoverage ::
  "CompressionBlock list \<Rightarrow> jstring list \<Rightarrow> ProtectedRef list \<Rightarrow> CompressionCoverage" where
  "computeCompressionCoverage blocks messageRefsInOrder protectedRefs =
    (let activeBlocks = filter (\<lambda>b. bk_status b = BlockActive) blocks in
     \<lparr> cv_activeBlockRefs = map bk_ref activeBlocks,
       cv_coveredMessageRefs =
         js_unique (concat (map (\<lambda>b. refsInRange messageRefsInOrder (bk_range b)) activeBlocks)),
       cv_protectedRefs = protectedRefs \<rparr>)"

definition activeBlocksByRef :: "(jstring, CompressionBlock) dict \<Rightarrow> CompressionBlock list" where
  "activeBlocksByRef blocksByRef = filter (\<lambda>b. bk_status b = BlockActive) (map snd blocksByRef)"

lemma rangesOverlap_sym: "rangesOverlap a b \<longleftrightarrow> rangesOverlap b a"
  by (auto simp: rangesOverlap_def)

section \<open>Numbers are told apart by their decimals\<close>

lemma decimal_nat_inj: "decimal_nat m = decimal_nat n \<Longrightarrow> m = n"
proof (induction m arbitrary: n rule: decimal_nat.induct)
  case (1 m)
  have code: "unat (of_nat (0x30 + a) :: jchar) = 0x30 + a" if "a < 10" for a :: nat
    by (rule of_nat_inverse [OF refl]) (use that in simp)
  have digit: "a = b" if "(of_nat (0x30 + a) :: jchar) = of_nat (0x30 + b)" "a < 10" "b < 10" for a b
    using code [of a] code [of b] that by (metis add_left_cancel)
  have nonempty: "decimal_nat k \<noteq> []" for k by (subst decimal_nat.simps) simp
  show ?case
  proof (cases "m < 10"; cases "n < 10")
    assume "\<not> m < 10" "\<not> n < 10"
    with "1.prems" have "decimal_nat (m div 10) = decimal_nat (n div 10)"
        and "(of_nat (0x30 + m mod 10) :: jchar) = of_nat (0x30 + n mod 10)"
      by (simp_all add: decimal_nat.simps [of m] decimal_nat.simps [of n])
    with "1.IH" \<open>\<not> m < 10\<close> have "m div 10 = n div 10" "m mod 10 = n mod 10" by (blast, intro digit) simp_all
    then show ?thesis by (metis div_mult_mod_eq)
  qed (use "1.prems" digit nonempty nonempty [symmetric] in \<open>auto simp: decimal_nat.simps [of m] decimal_nat.simps [of n]\<close>)
qed

lemma decimal_nat_head: "0 < n \<Longrightarrow> \<exists>c cs. decimal_nat n = c # cs \<and> c \<noteq> 0x30"
proof (induction n rule: decimal_nat.induct)
  case (1 n)
  show ?case
  proof (cases "n < 10")
    case True
    have "unat (of_nat (0x30 + n) :: jchar) = 0x30 + n"
      by (rule of_nat_inverse [OF refl]) (use True in simp)
    with "1.prems" have "(of_nat (0x30 + n) :: jchar) \<noteq> 0x30" by auto
    with True show ?thesis by (simp add: decimal_nat.simps [of n])
  next
    case False
    then have "0 < n div 10" by simp
    with "1.IH" [OF False] obtain c cs where "decimal_nat (n div 10) = c # cs" "c \<noteq> 0x30" by blast
    with False show ?thesis by (simp add: decimal_nat.simps [of n])
  qed
qed

lemma dropWhile_padding: "dropWhile (\<lambda>c. c = x) (replicate n x @ ys) = dropWhile (\<lambda>c. c = x) ys"
  by (induction n) simp_all

lemma padStart4_decimal: "0 < k \<Longrightarrow> dropWhile (\<lambda>c. c = 0x30) (padStart4 (decimal k)) = decimal k"
  using decimal_nat_head [of "nat k"]
  by (auto simp: padStart4_def decimal_def dropWhile_padding)

lemma decimal_nat_digits: "list_all is_digit (decimal_nat n)"
proof (induction n rule: decimal_nat.induct)
  case (1 n)
  have digit: "is_digit (of_nat (0x30 + a))" if "a < 10" for a
  proof -
    have "unat (of_nat (0x30 + a) :: jchar) = 0x30 + a"
      by (rule of_nat_inverse [OF refl]) (use that in simp)
    then show ?thesis using that by (simp add: is_digit_def word_le_nat_alt)
  qed
  from 1 digit [of n] digit [of "n mod 10"] show ?case
    by (simp add: decimal_nat.simps [of n])
qed

lemma decimal_digits: "0 \<le> k \<Longrightarrow> list_all is_digit (decimal k)"
  by (simp add: decimal_def decimal_nat_digits)

lemma decimal_nonempty: "decimal k \<noteq> []"
  by (auto simp: decimal_def decimal_nat.simps [of "nat k"])

lemma decimal_inj: "0 < k \<Longrightarrow> 0 < l \<Longrightarrow> decimal k = decimal l \<longleftrightarrow> k = l"
  by (auto simp: decimal_def dest: decimal_nat_inj)

section \<open>References and identifiers are in bijection\<close>

text \<open>
  The two dictionaries of a numbering are inverse to each other, and every reference is the format
  of a number already given out.
\<close>

definition numbered ::
  "(int \<Rightarrow> jstring) \<Rightarrow> (jstring, jstring) dict \<Rightarrow> (jstring, jstring) dict \<Rightarrow> int \<Rightarrow> bool" where
  "numbered format refs ids bound \<longleftrightarrow> 1 \<le> bound
     \<and> (\<forall>i r. map_of refs i = Some r \<longleftrightarrow> map_of ids r = Some i)
     \<and> (\<forall>i r. map_of refs i = Some r \<longrightarrow> (\<exists>k. 1 \<le> k \<and> k < bound \<and> r = format k))"

locale ref_format =
  fixes format :: "int \<Rightarrow> jstring"
  assumes format_inj: "1 \<le> k \<Longrightarrow> 1 \<le> l \<Longrightarrow> format k = format l \<Longrightarrow> k = l"
    and format_truthy: "format k \<noteq> []"
begin

lemma numbered_empty: "numbered format [] [] 1"
  by (simp add: numbered_def)

lemma truthy_numbered: "numbered format refs ids bound \<Longrightarrow> truthy_ref refs i = map_of refs i"
proof -
  assume "numbered format refs ids bound"
  then have "map_of refs i \<noteq> Some []"
    unfolding numbered_def using format_truthy by metis
  then show ?thesis
    by (auto simp: truthy_ref_def split: option.splits)
qed

lemma numbered_next: "numbered format refs ids bound \<Longrightarrow> map_of ids (format bound) = None"
proof (rule ccontr)
  assume n: "numbered format refs ids bound" and "map_of ids (format bound) \<noteq> None"
  then obtain i where "map_of refs i = Some (format bound)"
    unfolding numbered_def by fast
  with n obtain k where "1 \<le> k" "k < bound" "format bound = format k" "1 \<le> bound"
    unfolding numbered_def by blast
  with format_inj [of bound k] show False by simp
qed

lemma numbered_add:
  assumes n: "numbered format refs ids bound" and new: "map_of refs i = None"
  shows "numbered format (AList.update i (format bound) refs) (AList.update (format bound) i ids) (bound + 1)"
proof -
  have "map_of refs j = Some r \<longleftrightarrow> map_of ids r = Some j" for j r
    using n by (simp add: numbered_def)
  moreover from this new have "map_of ids r \<noteq> Some i" for r
    by (metis option.distinct(1))
  ultimately have inverse: "map_of (AList.update i (format bound) refs) j = Some r
      \<longleftrightarrow> map_of (AList.update (format bound) i ids) r = Some j" for j r
    using numbered_next [OF n] by (auto simp: update_conv')
  have "\<exists>k. 1 \<le> k \<and> k < bound + 1 \<and> r = format k"
    if "map_of (AList.update i (format bound) refs) j = Some r" for j r
  proof (cases "j = i")
    case True
    with that n have "1 \<le> bound" "bound < bound + 1" "r = format bound"
      by (auto simp: update_conv' numbered_def)
    then show ?thesis by blast
  next
    case False
    with that have "map_of refs j = Some r" by (simp add: update_conv')
    with n obtain k where "1 \<le> k" "k < bound" "r = format k"
      unfolding numbered_def by blast
    then show ?thesis by (intro exI [of _ k]) simp
  qed
  with inverse show ?thesis
    using n by (simp add: numbered_def)
qed

end

interpretation message_refs: ref_format formatMessageRef
proof
  show "k = l" if "1 \<le> k" "1 \<le> l" "formatMessageRef k = formatMessageRef l" for k l
  proof -
    from that(3) have "padStart4 (decimal k) = padStart4 (decimal l)"
      by (simp add: formatMessageRef_def)
    then have "decimal k = decimal l"
      using padStart4_decimal [of k] padStart4_decimal [of l] that(1,2) by (metis zero_less_one order_less_le_trans)
    with that(1,2) show ?thesis by (simp add: decimal_inj)
  qed
qed (simp add: formatMessageRef_def)

interpretation block_refs: ref_format formatBlockRef
  by unfold_locales (simp_all add: formatBlockRef_def decimal_inj)

definition ref_map_ok :: "CompressionRefMap \<Rightarrow> bool" where
  "ref_map_ok m \<longleftrightarrow>
     numbered formatMessageRef (crm_messageRefsById m) (crm_messageIdsByRef m) (crm_nextMessageIndex m)
   \<and> numbered formatBlockRef (crm_blockRefsById m) (crm_blockIdsByRef m) (crm_nextBlockIndex m)"

lemma ref_map_ok_empty: "ref_map_ok createEmptyCompressionRefMap"
  by (simp add: ref_map_ok_def createEmptyCompressionRefMap_def message_refs.numbered_empty
      block_refs.numbered_empty)

lemma ensureMessageRef_facts:
  assumes "ref_map_ok m"
  shows "ref_map_ok (fst (ensureMessageRef m i))"
    and "map_of (crm_messageRefsById (fst (ensureMessageRef m i))) i = Some (snd (ensureMessageRef m i))"
    and "map_of (crm_messageRefsById m) j = Some r
      \<Longrightarrow> map_of (crm_messageRefsById (fst (ensureMessageRef m i))) j = Some r"
    and "crm_blockIdsByRef (fst (ensureMessageRef m i)) = crm_blockIdsByRef m"
    and "crm_blockRefsById (fst (ensureMessageRef m i)) = crm_blockRefsById m"
    and "crm_nextBlockIndex (fst (ensureMessageRef m i)) = crm_nextBlockIndex m"
proof -
  note ok = assms [unfolded ref_map_ok_def]
  note truthy = message_refs.truthy_numbered [OF conjunct1 [OF ok], of i]
  show "ref_map_ok (fst (ensureMessageRef m i))"
    and "map_of (crm_messageRefsById (fst (ensureMessageRef m i))) i = Some (snd (ensureMessageRef m i))"
    and "crm_blockIdsByRef (fst (ensureMessageRef m i)) = crm_blockIdsByRef m"
    and "crm_blockRefsById (fst (ensureMessageRef m i)) = crm_blockRefsById m"
    and "crm_nextBlockIndex (fst (ensureMessageRef m i)) = crm_nextBlockIndex m"
    using ok message_refs.numbered_add [OF conjunct1 [OF ok], of i]
    by (auto simp: ensureMessageRef_def truthy Let_def ref_map_ok_def update_conv' split: option.split)
  show "map_of (crm_messageRefsById m) j = Some r
      \<Longrightarrow> map_of (crm_messageRefsById (fst (ensureMessageRef m i))) j = Some r"
    by (auto simp: ensureMessageRef_def truthy Let_def update_conv' split: option.split)
qed

lemma ensureBlockRef_facts:
  assumes "ref_map_ok m"
  shows "ref_map_ok (fst (ensureBlockRef m i))"
    and "map_of (crm_blockRefsById (fst (ensureBlockRef m i))) i = Some (snd (ensureBlockRef m i))"
    and "map_of (crm_blockRefsById m) i = None \<Longrightarrow>
      snd (ensureBlockRef m i) = formatBlockRef (crm_nextBlockIndex m)
      \<and> map_of (crm_blockIdsByRef m) (snd (ensureBlockRef m i)) = None"
    and "crm_messageRefsById (fst (ensureBlockRef m i)) = crm_messageRefsById m"
    and "map_of (crm_blockIdsByRef (fst (ensureBlockRef m i))) (snd (ensureBlockRef m i)) = Some i"
    and "map_of (crm_blockIdsByRef m) r \<noteq> None
      \<Longrightarrow> map_of (crm_blockIdsByRef (fst (ensureBlockRef m i))) r \<noteq> None"
proof -
  note ok = assms [unfolded ref_map_ok_def]
  note truthy = block_refs.truthy_numbered [OF conjunct2 [OF ok], of i]
  note fresh = block_refs.numbered_next [OF conjunct2 [OF ok]]
  have inverse: "map_of (crm_blockRefsById m) i = Some r \<Longrightarrow> map_of (crm_blockIdsByRef m) r = Some i" for r
    using ok by (simp add: numbered_def)
  show "ref_map_ok (fst (ensureBlockRef m i))"
    and "map_of (crm_blockRefsById (fst (ensureBlockRef m i))) i = Some (snd (ensureBlockRef m i))"
    and "crm_messageRefsById (fst (ensureBlockRef m i)) = crm_messageRefsById m"
    using ok block_refs.numbered_add [OF conjunct2 [OF ok], of i]
    by (auto simp: ensureBlockRef_def truthy Let_def ref_map_ok_def update_conv' split: option.split)
  show "map_of (crm_blockRefsById m) i = None \<Longrightarrow>
      snd (ensureBlockRef m i) = formatBlockRef (crm_nextBlockIndex m)
      \<and> map_of (crm_blockIdsByRef m) (snd (ensureBlockRef m i)) = None"
    using fresh by (simp add: ensureBlockRef_def truthy Let_def)
  show "map_of (crm_blockIdsByRef (fst (ensureBlockRef m i))) (snd (ensureBlockRef m i)) = Some i"
    and "map_of (crm_blockIdsByRef m) r \<noteq> None
      \<Longrightarrow> map_of (crm_blockIdsByRef (fst (ensureBlockRef m i))) r \<noteq> None"
    using inverse by (auto simp: ensureBlockRef_def truthy Let_def update_conv' split: option.split)
qed

lemma buildMessageRefMap_facts:
  assumes "ref_map_ok m"
  shows "ref_map_ok (buildMessageRefMap is m)
    \<and> crm_blockIdsByRef (buildMessageRefMap is m) = crm_blockIdsByRef m
    \<and> crm_blockRefsById (buildMessageRefMap is m) = crm_blockRefsById m
    \<and> crm_nextBlockIndex (buildMessageRefMap is m) = crm_nextBlockIndex m
    \<and> (\<forall>j r. map_of (crm_messageRefsById m) j = Some r
          \<longrightarrow> map_of (crm_messageRefsById (buildMessageRefMap is m)) j = Some r)
    \<and> (\<forall>i \<in> set is. map_of (crm_messageRefsById (buildMessageRefMap is m)) i \<noteq> None)"
  using assms
proof (induction "is" arbitrary: m)
  case Nil
  then show ?case by (simp add: buildMessageRefMap_def)
next
  case (Cons i "is")
  note step = ensureMessageRef_facts [OF Cons.prems]
  have unfold: "buildMessageRefMap (i # is) m = buildMessageRefMap is (fst (ensureMessageRef m i))"
    by (simp add: buildMessageRefMap_def)
  from Cons.IH [OF step(1) [of i]] step(2) [of i] show ?case
    unfolding unfold using step(3) [of _ _ i] by (simp add: step(4-6))
qed

text \<open>
  C40: a transcript gets stable references. Numbering the messages keeps every name already given,
  names every message, and a name resolves to exactly the message it was given to.
\<close>

theorem message_refs_resolve:
  assumes "ref_map_ok refMap"
  shows "(let m = buildMessageRefMap ids refMap in
      ref_map_ok m
    \<and> (\<forall>i r. map_of (crm_messageRefsById refMap) i = Some r \<longrightarrow> map_of (crm_messageRefsById m) i = Some r)
    \<and> (\<forall>i \<in> set ids. \<exists>r. map_of (crm_messageRefsById m) i = Some r
         \<and> (\<forall>j. resolveMessageId m r = Some j \<longleftrightarrow> j = i)))"
proof -
  from buildMessageRefMap_facts [OF assms, of ids]
  have ok: "ref_map_ok (buildMessageRefMap ids refMap)" by simp
  then have "map_of (crm_messageRefsById (buildMessageRefMap ids refMap)) i = Some r \<Longrightarrow>
      resolveMessageId (buildMessageRefMap ids refMap) r = Some i" for i r
    by (simp add: ref_map_ok_def numbered_def resolveMessageId_def)
  with buildMessageRefMap_facts [OF assms, of ids] show ?thesis
    by (fastforce simp: Let_def)
qed

end
