(* ===== verification/CompressionSummaries.thy ===== *)
theory CompressionSummaries
  imports CompressionTypes
begin

text \<open>
  Compression summaries, packages/agent-core/src/compression/summary.ts. A regular expression of the
  source is a matcher: given the text from a position on, it answers the length of the match there
  and what it captured. \<open>matchAll\<close> scans with a matcher as \<open>String.prototype.matchAll\<close> does with
  a global pattern, going on behind each match, and \<open>replaceAll\<close> as \<open>replace\<close> does.

  A summary that comes from outside is a \<open>jsvalue\<close>; one the program holds is its sections, and
  \<open>summary_value\<close> is the object it is at run time.
\<close>

section \<open>Scanning\<close>

type_synonym 'a matcher = "jstring \<Rightarrow> (nat \<times> 'a) option"

text \<open>A position, the length matched there, and the capture. A match is never empty here.\<close>

function matchAll :: "'a matcher \<Rightarrow> nat \<Rightarrow> jstring \<Rightarrow> (nat \<times> nat \<times> 'a) list" where
  "matchAll m i [] = []"
| "matchAll m i (c # cs) =
    (case m (c # cs) of
       Some (n, a) \<Rightarrow> (i, n, a) # matchAll m (i + max n 1) (drop (max n 1) (c # cs))
     | None \<Rightarrow> matchAll m (i + 1) cs)"
  by pat_completeness auto
termination
  by (relation "measure (\<lambda>(m, i, s). length s)") auto

function replaceAll :: "'a matcher \<Rightarrow> ('a \<Rightarrow> jstring) \<Rightarrow> jstring \<Rightarrow> jstring" where
  "replaceAll m f [] = []"
| "replaceAll m f (c # cs) =
    (case m (c # cs) of
       Some (n, a) \<Rightarrow> f a @ replaceAll m f (drop (max n 1) (c # cs))
     | None \<Rightarrow> c # replaceAll m f cs)"
  by pat_completeness auto
termination
  by (relation "measure (\<lambda>(m, f, s). length s)") auto

text \<open>The captured text b\d+, and the test /^b\d+$/ of validation.ts and original-range.ts.\<close>

definition isBlockRef :: "jstring \<Rightarrow> bool" where
  "isBlockRef value = (case value of
     c # ds \<Rightarrow> c = 0x62 \<and> ds \<noteq> [] \<and> list_all is_digit ds | [] \<Rightarrow> False)"

definition block_digits :: "jstring \<Rightarrow> (jstring \<times> jstring) option" where
  "block_digits s = (case s of
     c # r \<Rightarrow> if c = 0x62 \<and> takeWhile is_digit r \<noteq> []
              then Some (c # takeWhile is_digit r, dropWhile is_digit r) else None
   | [] \<Rightarrow> None)"

text \<open>/\((b\d+)\)/g\<close>

definition match_placeholder :: "jstring matcher" where
  "match_placeholder s =
    (case strip_prefix (js ''('') s of
       None \<Rightarrow> None
     | Some r \<Rightarrow> (case block_digits r of
         None \<Rightarrow> None
       | Some (ref, r') \<Rightarrow> (case strip_prefix (js '')'') r' of
           None \<Rightarrow> None
         | Some _ \<Rightarrow> Some (length ref + 2, ref))))"

definition CHILD_SUMMARY_OPEN :: jstring where
  "CHILD_SUMMARY_OPEN = js ''<compression-child ref=\"''"

definition CHILD_SUMMARY_CLOSE :: jstring where
  "CHILD_SUMMARY_CLOSE = js ''</compression-child>''"

text \<open>/<compression-child ref="(b\d+)">|<\/compression-child>/g: an opening tag captures its reference.\<close>

definition match_open :: "jstring matcher" where
  "match_open s =
    (case strip_prefix CHILD_SUMMARY_OPEN s of
       None \<Rightarrow> None
     | Some r \<Rightarrow> (case block_digits r of
         None \<Rightarrow> None
       | Some (ref, r') \<Rightarrow> (case strip_prefix (js ''\">'') r' of
           None \<Rightarrow> None
         | Some _ \<Rightarrow> Some (length CHILD_SUMMARY_OPEN + length ref + 2, ref))))"

definition match_tag :: "jstring option matcher" where
  "match_tag s =
    (case match_open s of
       Some (n, ref) \<Rightarrow> Some (n, Some ref)
     | None \<Rightarrow> (case strip_prefix CHILD_SUMMARY_CLOSE s of
         Some _ \<Rightarrow> Some (length CHILD_SUMMARY_CLOSE, None)
       | None \<Rightarrow> None))"

text \<open>A literal followed by a word boundary; the literals end in a word character.\<close>

definition is_word :: "jchar \<Rightarrow> bool" where
  "is_word c \<longleftrightarrow> 0x30 \<le> c \<and> c \<le> 0x39 \<or> 0x41 \<le> c \<and> c \<le> 0x5A \<or> c = 0x5F \<or> 0x61 \<le> c \<and> c \<le> 0x7A"

definition match_reserved :: "jstring \<Rightarrow> unit matcher" where
  "match_reserved literal s =
    (case strip_prefix literal s of
       None \<Rightarrow> None
     | Some [] \<Rightarrow> Some (length literal, ())
     | Some (c # _) \<Rightarrow> if is_word c then None else Some (length literal, ()))"

definition RESERVED_OPEN :: jstring where
  "RESERVED_OPEN = js ''<compression-child''"

definition RESERVED_CLOSE :: jstring where
  "RESERVED_CLOSE = js ''</compression-child''"

section \<open>Parsing a summary\<close>

definition summary_value :: "CompressionSummary \<Rightarrow> jsvalue" where
  "summary_value sections = JsObject [(js ''sections'',
     JsObject (map (\<lambda>s. (js (section_name s), JsString (sections s))) COMPRESSION_SUMMARY_SECTION_NAMES))]"

fun as_record :: "jsvalue \<Rightarrow> (jstring, jsvalue) dict option" where
  "as_record (JsObject ps) = Some ps"
| "as_record _ = None"

definition missing_section :: "(jstring, jsvalue) dict \<Rightarrow> CompressionSummarySectionName \<Rightarrow> bool" where
  "missing_section ps s = (case map_of ps (js (section_name s)) of
     Some (JsString content) \<Rightarrow> content = [] | _ \<Rightarrow> True)"

definition validateSections :: "jsvalue option \<Rightarrow> jstring list" where
  "validateSections v =
    (case Option.bind v as_record of
       None \<Rightarrow> [js ''sections must be an object'']
     | Some ps \<Rightarrow>
         map (\<lambda>s. js ''Missing required summary section '' @ js (section_name s))
           (filter (missing_section ps) COMPRESSION_SUMMARY_SECTION_NAMES)
       @ map (\<lambda>k. js ''Unknown summary section '' @ k)
           (filter (\<lambda>k. k \<notin> set (map (js \<circ> section_name) COMPRESSION_SUMMARY_SECTION_NAMES)) (map fst ps)))"

text \<open>\<open>value as CompressionSummary\<close>: the sections read from the object.\<close>

definition sections_of :: "(jstring, jsvalue) dict \<Rightarrow> CompressionSummary" where
  "sections_of ps s = (case map_of ps (js (section_name s)) of Some (JsString content) \<Rightarrow> content | _ \<Rightarrow> [])"

definition as_summary :: "(jstring, jsvalue) dict \<Rightarrow> CompressionSummary" where
  "as_summary ps = sections_of (case Option.bind (map_of ps (js ''sections'')) as_record of
     None \<Rightarrow> [] | Some sections \<Rightarrow> sections)"

definition parseCompressionSummary :: "jsvalue \<Rightarrow> jstring list + CompressionSummary" where
  "parseCompressionSummary v =
    (case as_record v of
       None \<Rightarrow> Inl [js ''Summary must be an object'']
     | Some ps \<Rightarrow>
         (let errors = map (\<lambda>k. js ''Unknown summary field '' @ k)
                         (filter (\<lambda>k. k \<noteq> js ''sections'') (map fst ps))
                       @ validateSections (map_of ps (js ''sections'')) in
          if errors \<noteq> [] then Inl errors
          else Inr (as_summary ps)))"

definition renderCompressionSummary :: "CompressionSummary \<Rightarrow> jstring" where
  "renderCompressionSummary summary = renderCompressionSummarySnapshot summary"

definition extractBlockPlaceholders :: "jstring \<Rightarrow> jstring list" where
  "extractBlockPlaceholders str = map (snd \<circ> snd) (matchAll match_placeholder 0 str)"

section \<open>Materialized children\<close>

record MaterializedChildSummary =
  mc_ref :: jstring
  mc_rendered :: jstring

record child_scan =
  sc_stack :: "(jstring \<times> nat) list"
  sc_children :: "MaterializedChildSummary list"
  sc_errors :: "jstring list"
  sc_opens :: nat
  sc_closes :: nat

text \<open>The body of the loop; the top of the stack is the head of the list.\<close>

definition scan_tag :: "jstring \<Rightarrow> child_scan \<Rightarrow> nat \<times> nat \<times> jstring option \<Rightarrow> child_scan" where
  "scan_tag str s token =
    (case token of
       (i, n, Some ref) \<Rightarrow> s\<lparr>sc_opens := sc_opens s + 1, sc_stack := (ref, i) # sc_stack s\<rparr>
     | (i, n, None) \<Rightarrow>
         (case sc_stack s of
            [] \<Rightarrow> s\<lparr>sc_closes := sc_closes s + 1,
                    sc_errors := sc_errors s @ [js ''Materialized summary contains an unmatched child closing boundary'']\<rparr>
          | (ref, start) # rest \<Rightarrow>
              s\<lparr>sc_closes := sc_closes s + 1, sc_stack := rest,
                sc_children := (if rest = []
                  then sc_children s @ [\<lparr> mc_ref = ref, mc_rendered = take (i + n - start) (drop start str) \<rparr>]
                  else sc_children s)\<rparr>))"

definition empty_scan :: child_scan where
  "empty_scan = \<lparr> sc_stack = [], sc_children = [], sc_errors = [], sc_opens = 0, sc_closes = 0 \<rparr>"

definition parseMaterializedChildSummaries ::
  "jstring \<Rightarrow> MaterializedChildSummary list \<times> jstring list" where
  "parseMaterializedChildSummaries str =
    (let s = foldl (scan_tag str) empty_scan (matchAll match_tag 0 str) in
     (sc_children s,
      sc_errors s
      @ (if sc_stack s \<noteq> [] then [js ''Materialized summary contains an unclosed child boundary''] else [])
      @ (if length (matchAll (match_reserved RESERVED_OPEN) 0 str) \<noteq> sc_opens s
         then [js ''Materialized summary contains a malformed child opening boundary''] else [])
      @ (if length (matchAll (match_reserved RESERVED_CLOSE) 0 str) \<noteq> sc_closes s
         then [js ''Materialized summary contains a malformed child closing boundary''] else [])))"

definition renderMaterializedChildSummary :: "jstring \<Rightarrow> CompressionSummary \<Rightarrow> jstring" where
  "renderMaterializedChildSummary ref summary =
     CHILD_SUMMARY_OPEN @ ref @ js ''\">'' @ [LF] @ renderCompressionSummary summary @ [LF] @ CHILD_SUMMARY_CLOSE"

section \<open>Validation\<close>

record SummaryValidationResult =
  sv_ok :: bool
  sv_errors :: "jstring list"

definition sv_result :: "jstring list \<Rightarrow> SummaryValidationResult" where
  "sv_result errors = \<lparr> sv_ok = (errors = []), sv_errors = errors \<rparr>"

definition sv_failed :: "jstring list \<Rightarrow> SummaryValidationResult" where
  "sv_failed errors = \<lparr> sv_ok = False, sv_errors = errors \<rparr>"

definition validateCompressionSummary :: "jsvalue \<Rightarrow> SummaryValidationResult" where
  "validateCompressionSummary summary =
    (case parseCompressionSummary summary of
       Inl errors \<Rightarrow> sv_failed errors
     | Inr parsed \<Rightarrow>
         if \<not> isMaterializedCompressionSummarySnapshot parsed
         then sv_failed [js ''Stored compression summary contains unresolved placeholder (''
           @ (case extractBlockPlaceholders (renderCompressionSummary parsed) of
                ref # _ \<Rightarrow> ref | [] \<Rightarrow> js ''undefined'') @ js '')'']
         else sv_result (snd (parseMaterializedChildSummaries (renderCompressionSummary parsed))))"

definition placeholder_errors :: "jstring list \<Rightarrow> jstring list \<Rightarrow> jstring list" where
  "placeholder_errors placeholders requiredChildRefs =
     map (\<lambda>ref. js ''Placeholder ('' @ ref @ js '') is not a required child block ref'')
       (filter (\<lambda>ref. ref \<notin> set requiredChildRefs) (js_unique placeholders))
   @ map (\<lambda>ref. js ''Required child placeholder ('' @ ref @ js '') must appear exactly once; found ''
            @ decimal (int (length (filter (\<lambda>p. p = ref) placeholders))))
       (filter (\<lambda>ref. length (filter (\<lambda>p. p = ref) placeholders) \<noteq> 1) requiredChildRefs)"

definition validateCompressionSummaryTemplate :: "jsvalue \<Rightarrow> jstring list \<Rightarrow> SummaryValidationResult" where
  "validateCompressionSummaryTemplate summary requiredChildRefs =
    (case parseCompressionSummary summary of
       Inl errors \<Rightarrow> sv_failed errors
     | Inr parsed \<Rightarrow>
         (let rendered = renderCompressionSummary parsed in
          if matchAll (match_reserved RESERVED_OPEN) 0 rendered \<noteq> []
             \<or> matchAll (match_reserved RESERVED_CLOSE) 0 rendered \<noteq> []
          then sv_failed [js ''Compression summary templates cannot contain materialized child boundaries'']
          else sv_result (placeholder_errors (extractBlockPlaceholders rendered) requiredChildRefs)))"

definition entries_of :: "MaterializedChildSummary list \<Rightarrow> jstring \<Rightarrow> MaterializedChildSummary list" where
  "entries_of children ref = filter (\<lambda>c. mc_ref c = ref) children"

fun child_error ::
  "MaterializedChildSummary list \<Rightarrow> (jstring, CompressionBlock) dict \<Rightarrow> jstring \<Rightarrow> jstring list" where
  "child_error children blocksByRef ref =
    (case map_of blocksByRef ref of
       None \<Rightarrow> [js ''Required child block '' @ ref @ js '' does not exist'']
     | Some child \<Rightarrow>
         (let entries = entries_of children ref in
          if length entries \<noteq> 1
          then [js ''Materialized child block '' @ ref @ js '' must appear exactly once; found ''
                @ decimal (int (length entries))]
          else if mc_rendered (hd entries) \<noteq> renderMaterializedChildSummary ref (bk_summary child)
          then [js ''Materialized child block '' @ ref @ js '' does not match its stored summary'']
          else []))"

definition validateCompressionSummaryLineage ::
  "jsvalue \<Rightarrow> jstring list \<Rightarrow> (jstring, CompressionBlock) dict \<Rightarrow> SummaryValidationResult" where
  "validateCompressionSummaryLineage summary childBlockRefs blocksByRef =
    (let summaryValidation = validateCompressionSummary summary in
     if \<not> sv_ok summaryValidation then summaryValidation
     else case parseCompressionSummary summary of
       Inl errors \<Rightarrow> sv_failed errors
     | Inr parsed \<Rightarrow>
         (let materialized = parseMaterializedChildSummaries (renderCompressionSummary parsed) in
          if snd materialized \<noteq> [] then sv_failed (snd materialized)
          else sv_result
            ((if \<not> distinct childBlockRefs then [js ''Compression child block refs must be unique''] else [])
             @ map (\<lambda>c. js ''Materialized summary contains undeclared child block '' @ mc_ref c)
                 (filter (\<lambda>c. mc_ref c \<notin> set childBlockRefs) (fst materialized))
             @ concat (map (child_error (fst materialized) blocksByRef) childBlockRefs))))"

section \<open>Errors and materialization\<close>

datatype CompressionStateErrorCode =
    PartialActiveOverlap | NestedChildMissing | UnknownChildBlock | ChildNotActive | DuplicateChildBlock

datatype compression_error =
    CompressionStateError CompressionStateErrorCode jstring
  | CompressionSummaryValidationError "jstring list"

definition assertValidCompressionSummary :: "jsvalue \<Rightarrow> compression_error + unit" where
  "assertValidCompressionSummary summary =
    (let result = validateCompressionSummary summary in
     if sv_ok result then Inr () else Inl (CompressionSummaryValidationError (sv_errors result)))"

definition assertValidCompressionSummaryLineage ::
  "jsvalue \<Rightarrow> jstring list \<Rightarrow> (jstring, CompressionBlock) dict \<Rightarrow> compression_error + unit" where
  "assertValidCompressionSummaryLineage summary childBlockRefs blocksByRef =
    (let result = validateCompressionSummaryLineage summary childBlockRefs blocksByRef in
     if sv_ok result then Inr () else Inl (CompressionSummaryValidationError (sv_errors result)))"

definition child_summary ::
  "(jstring, CompressionBlock) dict \<Rightarrow> jstring \<Rightarrow> compression_error + (jstring \<times> jstring)" where
  "child_summary blocksByRef ref =
    (case map_of blocksByRef ref of
       None \<Rightarrow> Inl (CompressionSummaryValidationError [js ''Required child block '' @ ref @ js '' does not exist''])
     | Some child \<Rightarrow> Inr (ref, renderMaterializedChildSummary ref (bk_summary child)))"

definition fill_section :: "(jstring, jstring) dict \<Rightarrow> jstring \<Rightarrow> jstring" where
  "fill_section childSummaries = replaceAll match_placeholder
     (\<lambda>ref. case map_of childSummaries ref of Some t \<Rightarrow> t | None \<Rightarrow> js ''undefined'')"

definition materializeCompressionSummaryTemplate ::
  "CompressionSummary \<Rightarrow> jstring list \<Rightarrow> (jstring, CompressionBlock) dict
   \<Rightarrow> compression_error + CompressionSummary" where
  "materializeCompressionSummaryTemplate template requiredChildRefs blocksByRef =
    (let validation = validateCompressionSummaryTemplate (summary_value template) requiredChildRefs in
     if \<not> sv_ok validation then Inl (CompressionSummaryValidationError (sv_errors validation))
     else bindE (mapE (child_summary blocksByRef) requiredChildRefs) (\<lambda>childSummaries.
       (let summary = (\<lambda>s. fill_section childSummaries (template s)) in
        bindE (assertValidCompressionSummary (summary_value summary)) (\<lambda>_.
        bindE (assertValidCompressionSummaryLineage (summary_value summary) requiredChildRefs blocksByRef) (\<lambda>_.
        Inr summary)))))"

end
