(* ===== verification/CompressionStates.thy ===== *)
theory CompressionStates
  imports CompressionRefs CompressionSummaries
begin

text \<open>
  The state of the compression engine, packages/agent-core/src/compression/state.ts: committing a
  block, recording a failure, and the validation of a draft against the active blocks. The errors
  it throws are values of \<open>compression_error\<close>.
\<close>

section \<open>Operations\<close>

definition createEmptyCompressionState :: CompressionState where
  "createEmptyCompressionState = \<lparr> ct_refMap = createEmptyCompressionRefMap, ct_blocksByRef = [],
     ct_activeBlockRefs = [], ct_inactiveBlockRefs = [], ct_supersededBlockRefs = [],
     ct_protectedRefs = [], ct_failures = [], ct_updatedAt = None \<rparr>"

definition block_refs_with :: "CompressionBlockStatus \<Rightarrow> (jstring, CompressionBlock) dict \<Rightarrow> jstring list" where
  "block_refs_with status d = map bk_ref (filter (\<lambda>b. bk_status b = status) (map snd d))"

definition normalizeCompressionState :: "CompressionState \<Rightarrow> CompressionState" where
  "normalizeCompressionState st =
     st\<lparr>ct_activeBlockRefs := block_refs_with BlockActive (ct_blocksByRef st),
        ct_inactiveBlockRefs := block_refs_with BlockInactive (ct_blocksByRef st),
        ct_supersededBlockRefs := block_refs_with BlockSuperseded (ct_blocksByRef st)\<rparr>"

definition text_or_empty :: "jstring option \<Rightarrow> jstring" where
  "text_or_empty t = (case t of None \<Rightarrow> [] | Some s \<Rightarrow> s)"

definition protected_ref_key :: "ProtectedRef \<Rightarrow> jstring" where
  "protected_ref_key p = pr_ref p @ js '':'' @ js (kind_name (pr_kind p)) @ js '':''
     @ text_or_empty (pr_messageId p) @ js '':'' @ text_or_empty (pr_partId p)"

definition mergeProtectedRefs :: "ProtectedRef list \<Rightarrow> ProtectedRef list \<Rightarrow> ProtectedRef list" where
  "mergeProtectedRefs existing new =
     map snd (fold (\<lambda>item merged. AList.update (protected_ref_key item) item merged) (existing @ new) [])"

definition rangesOverlapOrContain :: "CompressionBlockDraft \<Rightarrow> CompressionBlock \<Rightarrow> bool" where
  "rangesOverlapOrContain draft block \<longleftrightarrow>
     cr_startIndex (dt_range draft) \<le> cr_endIndex (bk_range block)
   \<and> cr_startIndex (bk_range block) \<le> cr_endIndex (dt_range draft)"

definition validate_child ::
  "CompressionState \<Rightarrow> CompressionBlockDraft \<Rightarrow> jstring \<Rightarrow> compression_error + unit" where
  "validate_child st draft childRef =
    (case map_of (ct_blocksByRef st) childRef of
       None \<Rightarrow> Inl (CompressionStateError UnknownChildBlock (js ''Unknown child block '' @ childRef))
     | Some child \<Rightarrow>
         if bk_status child \<noteq> BlockActive
         then Inl (CompressionStateError ChildNotActive (js ''Child block '' @ childRef @ js '' is not active''))
         else if \<not> rangeContains (dt_range draft) (bk_range child)
         then Inl (CompressionStateError PartialActiveOverlap
           (js ''Child block '' @ childRef @ js '' is not fully covered''))
         else Inr ())"

definition validate_active ::
  "CompressionState \<Rightarrow> CompressionBlockDraft \<Rightarrow> jstring \<Rightarrow> compression_error + unit" where
  "validate_active st draft activeRef =
    (case map_of (ct_blocksByRef st) activeRef of
       None \<Rightarrow> Inr ()
     | Some activeBlock \<Rightarrow>
         if \<not> rangesOverlapOrContain draft activeBlock then Inr ()
         else if rangesPartiallyOverlap (dt_range draft) (bk_range activeBlock)
         then Inl (CompressionStateError PartialActiveOverlap
           (js ''Draft range '' @ cr_startRef (dt_range draft) @ js ''-'' @ cr_endRef (dt_range draft)
             @ js '' partially overlaps active block '' @ activeRef))
         else if rangeContains (dt_range draft) (bk_range activeBlock)
         then (if activeRef \<notin> set (dt_childBlockRefs draft)
               then Inl (CompressionStateError NestedChildMissing
                 (js ''Nested compression must list active child block '' @ activeRef))
               else Inr ())
         else Inl (CompressionStateError PartialActiveOverlap
           (js ''Draft range is inside active block '' @ activeRef
             @ js ''; the current contract only allows consuming whole child blocks'')))"

definition validateCompressionBlockDraft ::
  "CompressionState \<Rightarrow> CompressionBlockDraft \<Rightarrow> compression_error + unit" where
  "validateCompressionBlockDraft st draft =
    (if \<not> distinct (dt_childBlockRefs draft)
     then Inl (CompressionStateError DuplicateChildBlock (js ''Compression child block refs must be unique''))
     else bindE (mapE (validate_child st draft) (dt_childBlockRefs draft)) (\<lambda>_.
          bindE (mapE (validate_active st draft) (ct_activeBlockRefs st)) (\<lambda>_.
          assertValidCompressionSummaryLineage (summary_value (dt_summary draft))
            (dt_childBlockRefs draft) (ct_blocksByRef st))))"

definition supersede_block :: "jstring \<Rightarrow> int \<Rightarrow> CompressionBlock \<Rightarrow> CompressionBlock" where
  "supersede_block ref timestamp block =
     block\<lparr>bk_status := BlockSuperseded, bk_supersededBy := Some ref,
       bk_deactivatedAt := Some timestamp, bk_updatedAt := timestamp\<rparr>"

definition supersede_children ::
  "jstring list \<Rightarrow> jstring \<Rightarrow> int \<Rightarrow> (jstring, CompressionBlock) dict \<Rightarrow> (jstring, CompressionBlock) dict" where
  "supersede_children childBlockRefs ref timestamp d =
     map (\<lambda>(r, b). (r, if r \<in> set childBlockRefs then supersede_block ref timestamp b else b)) d"

definition committed_block :: "CompressionBlockDraft \<Rightarrow> jstring \<Rightarrow> CompressionBlock" where
  "committed_block draft ref = \<lparr>
     bk_id = dt_id draft, bk_ref = ref, bk_status = BlockActive, bk_strategy = dt_strategy draft,
     bk_trigger = dt_trigger draft, bk_range = dt_range draft, bk_summary = dt_summary draft,
     bk_protectedRefs = (case dt_protectedRefs draft of None \<Rightarrow> [] | Some ps \<Rightarrow> ps),
     bk_childBlockRefs = dt_childBlockRefs draft, bk_tokenEstimate = dt_tokenEstimate draft,
     bk_createdAt = dt_createdAt draft, bk_updatedAt = dt_createdAt draft,
     bk_deactivatedAt = None, bk_supersededBy = None \<rparr>"

definition commitCompressionBlock ::
  "CompressionState \<Rightarrow> CompressionBlockDraft \<Rightarrow> compression_error + CompressionState" where
  "commitCompressionBlock st draft =
     bindE (validateCompressionBlockDraft st draft) (\<lambda>_.
       (let (refMap, ref) = ensureBlockRef (ct_refMap st) (dt_canonicalBlockId draft);
            nextBlocksByRef = supersede_children (dt_childBlockRefs draft) ref (dt_createdAt draft) (ct_blocksByRef st);
            block = committed_block draft ref in
        Inr (normalizeCompressionState (st\<lparr>ct_refMap := refMap,
          ct_blocksByRef := AList.update ref block nextBlocksByRef,
          ct_protectedRefs := mergeProtectedRefs (ct_protectedRefs st) (bk_protectedRefs block),
          ct_updatedAt := Some (dt_createdAt draft)\<rparr>))))"

definition recordCompressionFailure :: "CompressionState \<Rightarrow> CompressionFailure \<Rightarrow> CompressionState" where
  "recordCompressionFailure st failure =
     st\<lparr>ct_failures := ct_failures st @ [failure], ct_updatedAt := Some (cf_failedAt failure)\<rparr>"

section \<open>The invariant\<close>

text \<open>
  Blocks are filed under references the map has given out, the three lists partition them by
  status, and no two active blocks overlap.
\<close>

definition disjoint_active :: "(jstring, CompressionBlock) dict \<Rightarrow> bool" where
  "disjoint_active d \<longleftrightarrow> (\<forall>r s b c. map_of d r = Some b \<longrightarrow> map_of d s = Some c \<longrightarrow> r \<noteq> s
     \<longrightarrow> bk_status b = BlockActive \<longrightarrow> bk_status c = BlockActive
     \<longrightarrow> \<not> rangesOverlap (bk_range b) (bk_range c))"

definition compression_ok :: "CompressionState \<Rightarrow> bool" where
  "compression_ok st \<longleftrightarrow> ref_map_ok (ct_refMap st)
     \<and> distinct (map fst (ct_blocksByRef st))
     \<and> (\<forall>(r, b) \<in> set (ct_blocksByRef st). bk_ref b = r \<and> map_of (crm_blockIdsByRef (ct_refMap st)) r \<noteq> None)
     \<and> ct_activeBlockRefs st = block_refs_with BlockActive (ct_blocksByRef st)
     \<and> ct_inactiveBlockRefs st = block_refs_with BlockInactive (ct_blocksByRef st)
     \<and> ct_supersededBlockRefs st = block_refs_with BlockSuperseded (ct_blocksByRef st)
     \<and> disjoint_active (ct_blocksByRef st)"

lemma compression_ok_empty: "compression_ok createEmptyCompressionState"
  by (simp add: compression_ok_def createEmptyCompressionState_def ref_map_ok_empty block_refs_with_def
      disjoint_active_def)

lemma map_of_supersede:
  "map_of (supersede_children cs ref t d) r
    = map_option (\<lambda>b. if r \<in> set cs then supersede_block ref t b else b) (map_of d r)"
  by (induction d) (auto simp: supersede_children_def)

lemma fst_supersede [simp]: "map fst (supersede_children cs ref t d) = map fst d"
  by (simp add: supersede_children_def case_prod_unfold comp_def)

lemma supersede_block_simps [simp]:
  "bk_ref (supersede_block ref t b) = bk_ref b" "bk_range (supersede_block ref t b) = bk_range b"
  "bk_status (supersede_block ref t b) = BlockSuperseded" "bk_summary (supersede_block ref t b) = bk_summary b"
  by (simp_all add: supersede_block_def)

lemma committed_block_simps [simp]:
  "bk_ref (committed_block draft ref) = ref" "bk_range (committed_block draft ref) = dt_range draft"
  "bk_status (committed_block draft ref) = BlockActive"
  "bk_childBlockRefs (committed_block draft ref) = dt_childBlockRefs draft"
  "bk_summary (committed_block draft ref) = dt_summary draft"
  by (simp_all add: committed_block_def)

lemma active_refs_iff:
  assumes "compression_ok st"
  shows "r \<in> set (ct_activeBlockRefs st) \<longleftrightarrow>
    (\<exists>b. map_of (ct_blocksByRef st) r = Some b \<and> bk_status b = BlockActive)"
proof -
  have files: "map_of (ct_blocksByRef st) k = Some b \<longleftrightarrow> (k, b) \<in> set (ct_blocksByRef st)" for k b
    using assms by (simp add: compression_ok_def)
  have key: "bk_ref b = k" if "(k, b) \<in> set (ct_blocksByRef st)" for k b
    using assms that by (auto simp: compression_ok_def)
  have active: "ct_activeBlockRefs st = block_refs_with BlockActive (ct_blocksByRef st)"
    using assms by (simp add: compression_ok_def)
  have "r \<in> set (ct_activeBlockRefs st) \<longleftrightarrow>
      (\<exists>k b. (k, b) \<in> set (ct_blocksByRef st) \<and> bk_status b = BlockActive \<and> r = bk_ref b)"
    unfolding active block_refs_with_def by force
  then show ?thesis
    unfolding files using key by blast
qed

lemma mapE_checked: "mapE f xs = Inr ys \<Longrightarrow> x \<in> set xs \<Longrightarrow> f x = Inr (() :: unit)"
  by (induction xs arbitrary: ys) (auto simp: bindE_Inr_iff)

text \<open>What a valid draft says of the active blocks: disjoint from the range, or a child inside it.\<close>

lemma valid_draft_active:
  assumes "validateCompressionBlockDraft st draft = Inr ()" "compression_ok st"
    "map_of (ct_blocksByRef st) r = Some b" "bk_status b = BlockActive"
  shows "(r \<in> set (dt_childBlockRefs draft) \<longrightarrow> rangeContains (dt_range draft) (bk_range b))
    \<and> (r \<notin> set (dt_childBlockRefs draft) \<longrightarrow> \<not> rangesOverlap (dt_range draft) (bk_range b))"
proof -
  from assms(1) obtain us vs where
      children: "mapE (validate_child st draft) (dt_childBlockRefs draft) = Inr us"
    and active: "mapE (validate_active st draft) (ct_activeBlockRefs st) = Inr vs"
    by (auto simp: validateCompressionBlockDraft_def bindE_Inr_iff split: if_splits)
  have "validate_active st draft r = Inr ()"
    using active assms(2-4) by (auto intro: mapE_checked simp: active_refs_iff)
  moreover have "r \<in> set (dt_childBlockRefs draft) \<Longrightarrow> validate_child st draft r = Inr ()"
    using children by (rule mapE_checked)
  ultimately show ?thesis
    using assms(3,4)
    by (auto simp: validate_active_def validate_child_def rangesOverlapOrContain_def rangesOverlap_def
        split: if_splits)
qed

lemma valid_draft_children:
  assumes "validateCompressionBlockDraft st draft = Inr ()" "r \<in> set (dt_childBlockRefs draft)"
  shows "\<exists>b. map_of (ct_blocksByRef st) r = Some b \<and> bk_status b = BlockActive
    \<and> rangeContains (dt_range draft) (bk_range b)"
proof -
  from assms(1) obtain us where
      children: "mapE (validate_child st draft) (dt_childBlockRefs draft) = Inr us"
    by (auto simp: validateCompressionBlockDraft_def bindE_Inr_iff split: if_splits)
  then have "validate_child st draft r = Inr ()"
    using assms(2) by (rule mapE_checked)
  then show ?thesis
    by (auto simp: validate_child_def split: option.splits if_splits)
qed

section \<open>Commits\<close>

lemma commit_cases:
  assumes "commitCompressionBlock st draft = Inr st'"
  obtains refMap ref where "validateCompressionBlockDraft st draft = Inr ()"
    "ensureBlockRef (ct_refMap st) (dt_canonicalBlockId draft) = (refMap, ref)"
    "ct_refMap st' = refMap" "ct_failures st' = ct_failures st"
    "ct_blocksByRef st' = AList.update ref (committed_block draft ref)
       (supersede_children (dt_childBlockRefs draft) ref (dt_createdAt draft) (ct_blocksByRef st))"
    "normalizeCompressionState st' = st'"
proof -
  from assms have valid: "validateCompressionBlockDraft st draft = Inr ()"
    by (auto simp: commitCompressionBlock_def bindE_Inr_iff)
  obtain refMap ref where e: "ensureBlockRef (ct_refMap st) (dt_canonicalBlockId draft) = (refMap, ref)"
    by (cases "ensureBlockRef (ct_refMap st) (dt_canonicalBlockId draft)")
  show ?thesis
    by (rule that [OF valid e])
      (use assms valid e in \<open>auto simp: commitCompressionBlock_def normalizeCompressionState_def Let_def\<close>)
qed

lemma commit_lookup_block:
  assumes "ct_blocksByRef st' = AList.update ref b (supersede_children cs ref t (ct_blocksByRef st))"
  shows "map_of (ct_blocksByRef st') r = (if r = ref then Some b
    else map_option (\<lambda>b. if r \<in> set cs then supersede_block ref t b else b) (map_of (ct_blocksByRef st) r))"
  by (simp add: assms update_conv' map_of_supersede)

lemma commit_disjoint:
  assumes ok: "compression_ok st" and valid: "validateCompressionBlockDraft st draft = Inr ()"
    and d: "ct_blocksByRef st' = AList.update ref (committed_block draft ref)
       (supersede_children (dt_childBlockRefs draft) ref (dt_createdAt draft) (ct_blocksByRef st))"
  shows "disjoint_active (ct_blocksByRef st')"
proof -
  note look = commit_lookup_block [OF d]
  have old: "\<exists>b. map_of (ct_blocksByRef st) r = Some b \<and> c = b \<and> r \<notin> set (dt_childBlockRefs draft)"
    if "map_of (ct_blocksByRef st') r = Some c" "r \<noteq> ref" "bk_status c = BlockActive" for r c
    using that by (cases "r \<in> set (dt_childBlockRefs draft)") (auto simp: look)
  have new: "\<not> rangesOverlap (dt_range draft) (bk_range c)"
    if "map_of (ct_blocksByRef st') r = Some c" "r \<noteq> ref" "bk_status c = BlockActive" for r c
    using old [OF that] valid_draft_active [OF valid ok] that(3) by blast
  show ?thesis
    unfolding disjoint_active_def
  proof (intro allI impI)
    fix r s b c
    assume r: "map_of (ct_blocksByRef st') r = Some b" "bk_status b = BlockActive"
      and s: "map_of (ct_blocksByRef st') s = Some c" "bk_status c = BlockActive" and "r \<noteq> s"
    consider "r = ref" | "s = ref" | "r \<noteq> ref" "s \<noteq> ref" by blast
    then show "\<not> rangesOverlap (bk_range b) (bk_range c)"
    proof cases
      case 1
      then have "bk_range b = dt_range draft" using r by (auto simp: look)
      with 1 s \<open>r \<noteq> s\<close> new [OF s(1)] show ?thesis by simp
    next
      case 2
      then have "bk_range c = dt_range draft" using s by (auto simp: look)
      with 2 r \<open>r \<noteq> s\<close> new [OF r(1)] show ?thesis by (simp add: rangesOverlap_sym [of "bk_range b"])
    next
      case 3
      with old [OF r(1)] old [OF s(1)] r s \<open>r \<noteq> s\<close> ok show ?thesis
        unfolding compression_ok_def disjoint_active_def by blast
    qed
  qed
qed

lemma commit_keeps_ok:
  assumes "compression_ok st" "commitCompressionBlock st draft = Inr st'"
  shows "compression_ok st'"
proof -
  obtain refMap ref where valid: "validateCompressionBlockDraft st draft = Inr ()"
    and e: "ensureBlockRef (ct_refMap st) (dt_canonicalBlockId draft) = (refMap, ref)"
    and m: "ct_refMap st' = refMap"
    and d: "ct_blocksByRef st' = AList.update ref (committed_block draft ref)
       (supersede_children (dt_childBlockRefs draft) ref (dt_createdAt draft) (ct_blocksByRef st))"
    and n: "normalizeCompressionState st' = st'"
    by (rule commit_cases [OF assms(2)])
  from assms(1) have "ref_map_ok (ct_refMap st)" by (simp add: compression_ok_def)
  note refs = ensureBlockRef_facts [OF this, where i = "dt_canonicalBlockId draft", unfolded e fst_conv snd_conv]
  have "bk_ref b = r \<and> map_of (crm_blockIdsByRef (ct_refMap st')) r \<noteq> None"
    if "(r, b) \<in> set (ct_blocksByRef st')" for r b
  proof -
    from that consider "r = ref" "b = committed_block draft ref"
      | c where "(r, c) \<in> set (ct_blocksByRef st)" "bk_ref b = bk_ref c"
      unfolding d by (auto dest!: set_update_cases simp: supersede_children_def split: if_splits)
    then show ?thesis
    proof cases
      case 1
      then show ?thesis using refs(5) m by simp
    next
      case 2
      with assms(1) have "bk_ref c = r" "map_of (crm_blockIdsByRef (ct_refMap st)) r \<noteq> None"
        by (auto simp: compression_ok_def)
      with 2 refs(6) [of r] m show ?thesis by metis
    qed
  qed
  moreover have "distinct (map fst (ct_blocksByRef st'))"
    using assms(1) by (simp add: d distinct_update compression_ok_def)
  moreover have "ct_activeBlockRefs st' = block_refs_with BlockActive (ct_blocksByRef st')"
    "ct_inactiveBlockRefs st' = block_refs_with BlockInactive (ct_blocksByRef st')"
    "ct_supersededBlockRefs st' = block_refs_with BlockSuperseded (ct_blocksByRef st')"
    by (subst n [symmetric], simp add: normalizeCompressionState_def)+
  ultimately show ?thesis
    using refs(1) m commit_disjoint [OF assms(1) valid d]
    unfolding compression_ok_def by auto
qed

text \<open>
  C36: committing a block keeps the compression state consistent. Blocks stay filed under references
  the reference map has given out, the three lists stay the partition by status, and the active
  blocks stay pairwise disjoint, so no message is summarised twice.
\<close>

theorem commit_keeps_compression_ok:
  assumes "compression_ok st" "commitCompressionBlock st draft = Inr st'"
  shows "compression_ok st'"
  using assms by (rule commit_keeps_ok)

lemma committed_lookup:
  assumes "compression_ok st" "commitCompressionBlock st draft = Inr st'"
    "map_of (crm_blockRefsById (ct_refMap st)) (dt_canonicalBlockId draft) = None"
  shows "\<exists>ref. map_of (ct_blocksByRef st) ref = None
    \<and> map_of (ct_blocksByRef st') ref = Some (committed_block draft ref)
    \<and> ct_activeBlockRefs st' = filter (\<lambda>r. r \<notin> set (dt_childBlockRefs draft)) (ct_activeBlockRefs st) @ [ref]
    \<and> (\<forall>r \<in> set (dt_childBlockRefs draft). \<exists>b. map_of (ct_blocksByRef st) r = Some b
         \<and> bk_status b = BlockActive \<and> rangeContains (dt_range draft) (bk_range b)
         \<and> map_of (ct_blocksByRef st') r = Some (supersede_block ref (dt_createdAt draft) b))
    \<and> (\<forall>r. r \<noteq> ref \<and> r \<notin> set (dt_childBlockRefs draft)
         \<longrightarrow> map_of (ct_blocksByRef st') r = map_of (ct_blocksByRef st) r)"
proof -
  obtain refMap ref where valid: "validateCompressionBlockDraft st draft = Inr ()"
    and e: "ensureBlockRef (ct_refMap st) (dt_canonicalBlockId draft) = (refMap, ref)"
    and d: "ct_blocksByRef st' = AList.update ref (committed_block draft ref)
       (supersede_children (dt_childBlockRefs draft) ref (dt_createdAt draft) (ct_blocksByRef st))"
    and n: "normalizeCompressionState st' = st'"
    by (rule commit_cases [OF assms(2)])
  note look = commit_lookup_block [OF d]
  from assms(1) have "ref_map_ok (ct_refMap st)" by (simp add: compression_ok_def)
  from ensureBlockRef_facts(3) [OF this assms(3), unfolded e fst_conv snd_conv]
  have unnamed: "map_of (crm_blockIdsByRef (ct_refMap st)) ref = None" by blast
  have new: "map_of (ct_blocksByRef st) ref = None"
  proof (rule ccontr)
    assume "map_of (ct_blocksByRef st) ref \<noteq> None"
    then obtain b where "(ref, b) \<in> set (ct_blocksByRef st)" using map_of_SomeD by fastforce
    with assms(1) unnamed show False by (auto simp: compression_ok_def)
  qed
  have keys: "\<forall>p \<in> set (ct_blocksByRef st). bk_ref (snd p) = fst p"
    using assms(1) by (auto simp: compression_ok_def)
  have "block_refs_with BlockActive (AList.update ref (committed_block draft ref) xs)
      = block_refs_with BlockActive xs @ [ref]" if "ref \<notin> fst ` set xs" for xs
    using that by (induction xs) (auto simp: block_refs_with_def)
  moreover have "block_refs_with BlockActive (supersede_children cs ref t xs)
      = filter (\<lambda>r. r \<notin> set cs) (block_refs_with BlockActive xs)"
    if "\<forall>p \<in> set xs. bk_ref (snd p) = fst p" for cs t xs
    using that by (induction xs) (auto simp: block_refs_with_def supersede_children_def)
  moreover have "ref \<notin> fst ` set (supersede_children cs ref t (ct_blocksByRef st))" for cs t
    using new by (metis fst_supersede list.set_map map_of_eq_None_iff)
  ultimately have "block_refs_with BlockActive (ct_blocksByRef st')
      = filter (\<lambda>r. r \<notin> set (dt_childBlockRefs draft)) (block_refs_with BlockActive (ct_blocksByRef st)) @ [ref]"
    unfolding d using keys by simp
  moreover have "ct_activeBlockRefs st' = block_refs_with BlockActive (ct_blocksByRef st')"
    by (subst n [symmetric]) (simp add: normalizeCompressionState_def)
  moreover have "ct_activeBlockRefs st = block_refs_with BlockActive (ct_blocksByRef st)"
    using assms(1) by (simp add: compression_ok_def)
  moreover have "\<exists>b. map_of (ct_blocksByRef st) r = Some b \<and> bk_status b = BlockActive
      \<and> rangeContains (dt_range draft) (bk_range b)
      \<and> map_of (ct_blocksByRef st') r = Some (supersede_block ref (dt_createdAt draft) b)"
    if "r \<in> set (dt_childBlockRefs draft)" for r
    using valid_draft_children [OF valid that] new that by (auto simp: look)
  moreover have "map_of (ct_blocksByRef st') r = map_of (ct_blocksByRef st) r"
    if "r \<noteq> ref" "r \<notin> set (dt_childBlockRefs draft)" for r
    using that by (cases "map_of (ct_blocksByRef st) r") (simp_all add: look)
  ultimately show ?thesis
    using new by (intro exI [of _ ref]) (simp add: look)
qed

text \<open>
  A commit under a new canonical id changes exactly what it names. The block is filed active
  under a reference no block had, its children go from active to superseded by it, and every other
  block stays as it was.
\<close>

theorem commit_supersedes_children:
  assumes "compression_ok st" "commitCompressionBlock st draft = Inr st'"
    "map_of (crm_blockRefsById (ct_refMap st)) (dt_canonicalBlockId draft) = None"
  shows "\<exists>ref. map_of (ct_blocksByRef st) ref = None
    \<and> map_of (ct_blocksByRef st') ref = Some (committed_block draft ref)
    \<and> ct_activeBlockRefs st' = filter (\<lambda>r. r \<notin> set (dt_childBlockRefs draft)) (ct_activeBlockRefs st) @ [ref]
    \<and> (\<forall>r \<in> set (dt_childBlockRefs draft). \<exists>b. map_of (ct_blocksByRef st) r = Some b
         \<and> bk_status b = BlockActive \<and> rangeContains (dt_range draft) (bk_range b)
         \<and> map_of (ct_blocksByRef st') r = Some (supersede_block ref (dt_createdAt draft) b))
    \<and> (\<forall>r. r \<noteq> ref \<and> r \<notin> set (dt_childBlockRefs draft)
         \<longrightarrow> map_of (ct_blocksByRef st') r = map_of (ct_blocksByRef st) r)"
  using assms by (rule committed_lookup)

end
