(* ===== verification/JsonText.thy ===== *)
theory JsonText
  imports ProtocolState SessionCapacity
begin

text \<open>
  \<open>JSON.stringify\<close>, and the values it is applied to: an untyped value, and the parts of a message.
  A property that is \<open>undefined\<close> is left out, an array element that is \<open>undefined\<close> and a number that
  is not finite become null. The parts are turned into the objects they are at run time, their
  properties in the order types.ts declares them.
\<close>

section \<open>Serialization\<close>

fun json_text :: "jsvalue \<Rightarrow> jstring" where
  "json_text JsUndefined = js ''null''"
| "json_text JsNull = js ''null''"
| "json_text (JsBool b) = (if b then js ''true'' else js ''false'')"
| "json_text (JsNumber n) = (case n of JsFinite i \<Rightarrow> decimal i | _ \<Rightarrow> js ''null'')"
| "json_text (JsString s) = json_string s"
| "json_text (JsArray vs) = js ''['' @ join_with (js '','') (map json_text vs) @ js '']''"
| "json_text (JsObject ps) = js ''{'' @ join_with (js '','')
     (map (\<lambda>p. json_string (fst p) @ js '':'' @ json_text (snd p)) (filter (\<lambda>p. snd p \<noteq> JsUndefined) ps))
     @ js ''}''"

section \<open>The parts of a message as values\<close>

definition v_str :: "jstring \<Rightarrow> jsvalue" where
  "v_str s = JsString s"

definition v_num :: "int \<Rightarrow> jsvalue" where
  "v_num i = JsNumber (JsFinite i)"

definition v_opt :: "('a \<Rightarrow> jsvalue) \<Rightarrow> 'a option \<Rightarrow> jsvalue" where
  "v_opt f x = (case x of None \<Rightarrow> JsUndefined | Some v \<Rightarrow> f v)"

definition v_null :: "('a \<Rightarrow> jsvalue) \<Rightarrow> 'a option \<Rightarrow> jsvalue" where
  "v_null f x = (case x of None \<Rightarrow> JsNull | Some v \<Rightarrow> f v)"

definition v_flag :: "bool \<Rightarrow> jsvalue" where
  "v_flag b = (if b then JsBool True else JsUndefined)"

definition v_obj :: "(string \<times> jsvalue) list \<Rightarrow> jsvalue" where
  "v_obj ps = JsObject (map (\<lambda>p. (js (fst p), snd p)) ps)"

definition text_part_value :: "TextPart \<Rightarrow> jsvalue" where
  "text_part_value p = v_obj [(''type'', v_str (js ''text'')), (''id'', v_str (tx_id p)), (''text'', v_str (tx_text p)),
     (''createdAt'', v_num (tx_createdAt p)), (''completedAt'', v_opt v_num (tx_completedAt p)),
     (''meta'', v_opt JsObject (tx_meta p))]"

definition block_part_value :: "string \<Rightarrow> BlockPart \<Rightarrow> jsvalue" where
  "block_part_value type p = v_obj [(''type'', v_str (js type)), (''id'', v_str (bp_id p)),
     (''blockId'', v_str (bp_blockId p)), (''text'', v_str (bp_text p)), (''createdAt'', v_num (bp_createdAt p)),
     (''completedAt'', v_opt v_num (bp_completedAt p)), (''meta'', v_opt JsObject (bp_meta p))]"

definition attachment_value :: "AttachmentDescriptor \<Rightarrow> jsvalue" where
  "attachment_value a = v_obj [(''id'', v_str (att_id a)), (''name'', v_str (att_name a)),
     (''mediaType'', v_str (att_mediaType a)), (''sizeBytes'', v_num (att_sizeBytes a)),
     (''kind'', v_str (js (case att_kind a of ImageAttachment \<Rightarrow> ''image'' | FileAttachment \<Rightarrow> ''file'')))]"

definition attachment_part_value :: "AttachmentPart \<Rightarrow> jsvalue" where
  "attachment_part_value p = v_obj [(''type'', v_str (js ''attachment'')), (''id'', v_str (ap_id p)),
     (''attachment'', attachment_value (ap_attachment p)), (''createdAt'', v_num (ap_createdAt p)),
     (''completedAt'', v_opt v_num (ap_completedAt p))]"

definition compaction_part_value :: "CompactionPart \<Rightarrow> jsvalue" where
  "compaction_part_value p = v_obj [(''type'', v_str (js ''compaction'')), (''id'', v_str (cp_id p)),
     (''summary'', v_str (cp_summary p)), (''tailStartId'', v_str (cp_tailStartId p)),
     (''compactedAt'', v_num (cp_compactedAt p))]"

definition notice_part_value :: "SystemNoticePart \<Rightarrow> jsvalue" where
  "notice_part_value p = v_obj [(''type'', v_str (js ''system-notice'')), (''id'', v_str (sn_id p)),
     (''notice'', v_str (sn_notice p)), (''createdAt'', v_num (sn_createdAt p)),
     (''completedAt'', v_opt v_num (sn_completedAt p))]"

fun recovery_status_name :: "RecoveryStatus \<Rightarrow> string" where
  "recovery_status_name Scheduled = ''scheduled''"
| "recovery_status_name Retrying = ''retrying''"
| "recovery_status_name Recovered = ''recovered''"
| "recovery_status_name RecoveryFailed = ''failed''"

definition recovery_part_value :: "RecoveryNoticePart \<Rightarrow> jsvalue" where
  "recovery_part_value p = v_obj [(''type'', v_str (js ''recovery-notice'')), (''id'', v_str (rn_id p)),
     (''status'', v_str (js (recovery_status_name (rn_status p)))), (''message'', v_str (rn_message p)),
     (''attempt'', v_num (rn_attempt p)), (''nextRetryAt'', v_opt v_num (rn_nextRetryAt p)),
     (''errorKind'', v_opt v_str (rn_errorKind p)), (''statusCode'', v_opt v_num (rn_statusCode p)),
     (''createdAt'', v_num (rn_createdAt p)), (''completedAt'', v_opt v_num (rn_completedAt p))]"

fun goal_status_name :: "SessionGoalStatus \<Rightarrow> string" where
  "goal_status_name GoalActive = ''active''"
| "goal_status_name GoalPaused = ''paused''"
| "goal_status_name GoalBlocked = ''blocked''"
| "goal_status_name GoalBudgetLimited = ''budget_limited''"
| "goal_status_name GoalComplete = ''complete''"

fun goal_action_name :: "SessionGoalNoticeAction \<Rightarrow> string" where
  "goal_action_name NoticeCreated = ''created''"
| "goal_action_name NoticeEdited = ''edited''"
| "goal_action_name NoticePaused = ''paused''"
| "goal_action_name NoticeResumed = ''resumed''"
| "goal_action_name NoticeCleared = ''cleared''"
| "goal_action_name NoticeBudgetUpdated = ''budget_updated''"
| "goal_action_name NoticeBudgetLimited = ''budget_limited''"
| "goal_action_name NoticeBlocked = ''blocked''"
| "goal_action_name NoticeCompleted = ''completed''"

fun goal_authority_name :: "GoalNoticeAuthority \<Rightarrow> string" where
  "goal_authority_name UserControl = ''user_control''"
| "goal_authority_name AgentAuthority = ''agent''"
| "goal_authority_name RuntimeAuthority = ''runtime''"

definition goal_snapshot_value :: "SessionGoalNoticeSnapshot \<Rightarrow> jsvalue" where
  "goal_snapshot_value g = v_obj [(''objective'', v_str (gs_objective g)),
     (''status'', v_str (js (goal_status_name (gs_status g)))), (''tokenBudget'', v_opt v_num (gs_tokenBudget g)),
     (''blockedReason'', v_opt v_str (gs_blockedReason g))]"

definition goal_part_value :: "GoalNoticePart \<Rightarrow> jsvalue" where
  "goal_part_value p = v_obj [(''type'', v_str (js ''goal-notice'')), (''id'', v_str (gn_id p)),
     (''action'', v_str (js (goal_action_name (gn_action p)))),
     (''authority'', v_str (js (goal_authority_name (gn_authority p)))),
     (''instanceId'', v_str (gn_instanceId p)), (''previousGeneration'', v_opt v_num (gn_previousGeneration p)),
     (''generation'', v_num (gn_generation p)), (''goal'', v_null goal_snapshot_value (gn_goal p)),
     (''createdAt'', v_num (gn_createdAt p))]"

section \<open>Tool parts as values\<close>

definition count_value :: "ToolOutputCount \<Rightarrow> jsvalue" where
  "count_value c = v_obj [(''bytes'', v_num (toc_bytes c)), (''lines'', v_num (toc_lines c))]"

fun tool_recovery_value :: "ToolOutputRecovery \<Rightarrow> jsvalue" where
  "tool_recovery_value RecoveryNone = v_obj [(''kind'', v_str (js ''none''))]"
| "tool_recovery_value (RecoverySource toolName nextInput) =
     v_obj [(''kind'', v_str (js ''source'')), (''toolName'', v_str toolName), (''nextInput'', JsObject nextInput)]"
| "tool_recovery_value (RecoveryArtifact outputRef expiresAt) =
     v_obj [(''kind'', v_str (js ''artifact'')), (''outputRef'', v_str outputRef), (''expiresAt'', v_num expiresAt),
       (''canRead'', JsBool True), (''canSearch'', JsBool True)]"

fun completeness_name :: "ToolOutputCompleteness \<Rightarrow> string" where
  "completeness_name CompleteOutput = ''complete''"
| "completeness_name PartialOutput = ''partial''"

definition output_value :: "ToolOutput \<Rightarrow> jsvalue" where
  "output_value out = v_obj [(''preview'', v_str (to_preview out)),
     (''completeness'', v_str (js (completeness_name (to_completeness out)))),
     (''observed'', count_value (to_observed out)), (''canonical'', count_value (to_canonical out)),
     (''stored'', count_value (to_stored out)), (''omitted'', count_value (to_omitted out)),
     (''recovery'', tool_recovery_value (to_recovery out))]"

definition error_details_value :: "ToolResultErrorDetails \<Rightarrow> jsvalue" where
  "error_details_value e = v_obj [(''kind'', v_str (tre_kind e)), (''code'', v_str (tre_code e)),
     (''name'', v_str (tre_name e)), (''hint'', v_opt v_str (tre_hint e))]"

definition process_value :: "ToolProcessDetails \<Rightarrow> jsvalue" where
  "process_value p = v_obj [(''exitCode'', v_null v_num (tpd_exitCode p)), (''signal'', v_null v_str (tpd_signal p)),
     (''timedOut'', JsBool (tpd_timedOut p)), (''aborted'', JsBool (tpd_aborted p)),
     (''durationMs'', v_num (tpd_durationMs p))]"

fun diff_line_name :: "DiffLineType \<Rightarrow> string" where
  "diff_line_name DiffContext = ''context''"
| "diff_line_name DiffAdd = ''add''"
| "diff_line_name DiffDelete = ''delete''"

fun diff_status_name :: "DiffFileStatus \<Rightarrow> string" where
  "diff_status_name DiffModified = ''modified''"
| "diff_status_name DiffCreated = ''created''"
| "diff_status_name DiffDeleted = ''deleted''"

definition hunk_value :: "DiffHunk \<Rightarrow> jsvalue" where
  "hunk_value h = v_obj [(''header'', v_str (dh_header h)), (''oldStart'', v_num (dh_oldStart h)),
     (''oldLines'', v_num (dh_oldLines h)), (''newStart'', v_num (dh_newStart h)),
     (''newLines'', v_num (dh_newLines h)),
     (''lines'', JsArray (map (\<lambda>l. v_obj [(''type'', v_str (js (diff_line_name (fst l)))),
        (''content'', v_str (snd l))]) (dh_lines h)))]"

definition diff_file_value :: "DiffFile \<Rightarrow> jsvalue" where
  "diff_file_value f = v_obj [(''path'', v_str (df_path f)),
     (''status'', v_opt (\<lambda>s. v_str (js (diff_status_name s))) (df_status f)),
     (''additions'', v_opt v_num (df_additions f)), (''deletions'', v_opt v_num (df_deletions f)),
     (''hunks'', JsArray (map hunk_value (df_hunks f)))]"

fun presentation_value :: "ToolResultPresentation \<Rightarrow> jsvalue" where
  "presentation_value (DiffPresentation diffFiles simplified truncated) =
     v_obj [(''kind'', v_str (js ''diff'')), (''files'', JsArray (map diff_file_value diffFiles)),
       (''simplified'', v_flag simplified), (''truncated'', v_flag truncated)]"
| "presentation_value (AskUserPresentation answers truncated) =
     v_obj [(''kind'', v_str (js ''ask_user'')),
       (''answers'', JsArray (map (\<lambda>a. v_obj [(''question'', v_str (fst a)),
          (''answers'', JsArray (map v_str (snd a)))]) answers)),
       (''truncated'', v_flag truncated)]"

definition details_value :: "ToolResultDetails \<Rightarrow> jsvalue" where
  "details_value d = v_obj [(''error'', v_opt error_details_value (trd_error d)),
     (''process'', v_opt process_value (trd_process d)), (''unknownResult'', v_flag (trd_unknownResult d)),
     (''presentations'', v_opt (\<lambda>ps. JsArray (map presentation_value ps)) (trd_presentations d))]"

definition result_value :: "FinalizedToolResult \<Rightarrow> jsvalue" where
  "result_value r = v_obj [(''isError'', JsBool (ftr_isError r)), (''output'', output_value (ftr_output r)),
     (''details'', v_opt details_value (ftr_details r))]"

definition live_value :: "ToolLiveOutput \<Rightarrow> jsvalue" where
  "live_value l = v_obj [(''preview'', v_str (lo_preview l)), (''omittedBytes'', v_num (lo_omittedBytes l)),
     (''liveLimitReached'', JsBool (lo_liveLimitReached l))]"

definition tool_value :: "ToolPartBase \<Rightarrow> string \<Rightarrow> (string \<times> jsvalue) list \<Rightarrow> jsvalue" where
  "tool_value b st own = v_obj ([(''type'', v_str (js ''tool'')), (''id'', v_str (tp_id b)), (''state'', v_str (js st)),
     (''toolCallId'', v_str (tp_toolCallId b)), (''toolName'', v_str (tp_toolName b))] @ own
     @ [(''createdAt'', v_num (tp_createdAt b)), (''attemptId'', v_opt v_str (tp_attemptId b)),
        (''attemptTimestamp'', v_opt v_num (tp_attemptTimestamp b)),
        (''attemptDestructive'', v_opt JsBool (tp_attemptDestructive b))])"

fun tool_part_value :: "ToolPart \<Rightarrow> jsvalue" where
  "tool_part_value (PendingTool b) = tool_value b ''pending'' []"
| "tool_part_value (RunningTool b input startedAt live) = tool_value b ''running''
     [(''input'', input), (''startedAt'', v_num startedAt), (''liveOutput'', v_opt live_value live)]"
| "tool_part_value (InterruptedTool b input startedAt endedAt) = tool_value b ''interrupted''
     [(''input'', v_opt (\<lambda>v. v) input), (''startedAt'', v_opt v_num startedAt), (''endedAt'', v_num endedAt)]"
| "tool_part_value (CompletedTool b input result startedAt endedAt) = tool_value b ''completed''
     [(''input'', input), (''result'', result_value result), (''startedAt'', v_num startedAt), (''endedAt'', v_num endedAt)]"
| "tool_part_value (ErrorTool b input result startedAt endedAt) = tool_value b ''error''
     [(''input'', input), (''result'', result_value result), (''startedAt'', v_num startedAt), (''endedAt'', v_num endedAt)]"

section \<open>Messages\<close>

fun user_part_value :: "UserSessionPart \<Rightarrow> jsvalue" where
  "user_part_value (UserText p) = text_part_value p"
| "user_part_value (UserAttachment p) = attachment_part_value p"
| "user_part_value (UserCompaction p) = compaction_part_value p"
| "user_part_value (UserSystemNotice p) = notice_part_value p"
| "user_part_value (UserGoalNotice p) = goal_part_value p"

fun assistant_part_value :: "AssistantSessionPart \<Rightarrow> jsvalue" where
  "assistant_part_value (AssistantOutput p) = block_part_value ''assistant-output'' p"
| "assistant_part_value (ReasoningOutput p) = block_part_value ''reasoning'' p"
| "assistant_part_value (AssistantTool p) = tool_part_value p"
| "assistant_part_value (AssistantSystemNotice p) = notice_part_value p"
| "assistant_part_value (AssistantRecovery p) = recovery_part_value p"

fun message_parts_value :: "SessionMessage \<Rightarrow> jsvalue" where
  "message_parts_value (UserMessage m) = JsArray (map user_part_value (um_parts m))"
| "message_parts_value (AssistantMessage m) = JsArray (map assistant_part_value (am_parts m))"

end
