(* ===== verification/CompressionRanges.thy ===== *)
theory CompressionRanges
  imports CompressionStates JsonText Messages
begin

text \<open>
  The functions of packages/agent-core/src/compression that read the transcript: validation.ts (the
  boundaries of a range and the summary a model proposes), protection.ts (content that has to stay
  visible), normalize.ts, deduplication.ts and purge-errors.ts (repeated tool outputs and errors of
  a range) and original-range.ts (the messages behind a block).

  \<open>lc\<close> is \<open>String.prototype.localeCompare\<close>, a parameter as in the capacity contracts.
\<close>

section \<open>Boundaries\<close>

datatype CompressionValidationCode = InvalidRef | UnknownRef | InvalidRange | InvalidSummary

record CompressionValidationIssue =
  vi_code :: CompressionValidationCode
  vi_message :: jstring

definition issue :: "CompressionValidationCode \<Rightarrow> jstring \<Rightarrow> CompressionValidationIssue" where
  "issue c m = \<lparr> vi_code = c, vi_message = m \<rparr>"

record ResolvedCompressionRange =
  rr_range :: CompressionRange
  rr_refMap :: CompressionRefMap
  rr_requiredChildRefs :: "jstring list"

definition isMessageRef :: "jstring \<Rightarrow> bool" where
  "isMessageRef value = (case value of
     c # ds \<Rightarrow> c = 0x6D \<and> 4 \<le> length ds \<and> list_all is_digit ds | [] \<Rightarrow> False)"

text \<open>The start and end index a reference stands for.\<close>

definition resolveBoundaryRef ::
  "SessionMessage list \<Rightarrow> CompressionState \<Rightarrow> CompressionRefMap \<Rightarrow> jstring
   \<Rightarrow> CompressionValidationIssue list + (int \<times> int)" where
  "resolveBoundaryRef msgs st refMap ref =
    (if isMessageRef ref then
       (case resolveMessageId refMap ref of
          None \<Rightarrow> Inl [issue UnknownRef (js ''Unknown message ref '' @ ref)]
        | Some messageId \<Rightarrow>
            (case find_index (\<lambda>m. msg_id m = messageId) msgs of
               None \<Rightarrow> Inl [issue UnknownRef (js ''Message ref '' @ ref @ js '' is not in the current transcript'')]
             | Some i \<Rightarrow> Inr (int i, int i)))
     else if isBlockRef ref then
       (case map_of (ct_blocksByRef st) ref of
          None \<Rightarrow> Inl [issue UnknownRef (js ''Unknown block ref '' @ ref)]
        | Some block \<Rightarrow> Inr (cr_startIndex (bk_range block), cr_endIndex (bk_range block)))
     else Inl [issue InvalidRef (js ''Refs must be projection refs like m0001 or known block refs like b1; received ''
       @ ref)])"

definition activeChildRefsContainedByRange :: "CompressionState \<Rightarrow> CompressionRange \<Rightarrow> jstring list" where
  "activeChildRefsContainedByRange st rng =
     filter (\<lambda>ref. case map_of (ct_blocksByRef st) ref of
         None \<Rightarrow> False
       | Some block \<Rightarrow> cr_startIndex rng \<le> cr_startIndex (bk_range block)
           \<and> cr_endIndex (bk_range block) \<le> cr_endIndex rng) (ct_activeBlockRefs st)"

definition ref_or_position :: "CompressionRefMap \<Rightarrow> jstring \<Rightarrow> int \<Rightarrow> jstring" where
  "ref_or_position refMap messageId index =
    (case map_of (crm_messageRefsById refMap) messageId of
       Some ref \<Rightarrow> ref | None \<Rightarrow> formatMessageRef (index + 1))"

fun issues_of :: "'e list + 'a \<Rightarrow> 'e list" where
  "issues_of (Inl es) = es"
| "issues_of (Inr _) = []"

definition resolveCompressionRange ::
  "SessionMessage list \<Rightarrow> CompressionState \<Rightarrow> jstring \<Rightarrow> jstring
   \<Rightarrow> CompressionValidationIssue list + ResolvedCompressionRange" where
  "resolveCompressionRange msgs st startId endId =
    (let refMap = buildMessageRefMap (map msg_id msgs) (ct_refMap st);
         start = resolveBoundaryRef msgs st refMap startId;
         finish = resolveBoundaryRef msgs st refMap endId in
     case (start, finish) of
       (Inr (startIndex, _), Inr (_, endIndex)) \<Rightarrow>
         if endIndex < startIndex
         then Inl [issue InvalidRange (js ''startId '' @ startId @ js '' must resolve before or at endId '' @ endId)]
         else if startIndex = endIndex
         then Inl [issue InvalidRange
           (js ''Compression range is too small; single-message ranges are protected'')]
         else (case (js_at msgs startIndex, js_at msgs endIndex) of
            (Some startMessage, Some endMessage) \<Rightarrow>
              (let rng = \<lparr> cr_startMessageId = msg_id startMessage, cr_endMessageId = msg_id endMessage,
                     cr_startRef = ref_or_position refMap (msg_id startMessage) startIndex,
                     cr_endRef = ref_or_position refMap (msg_id endMessage) endIndex,
                     cr_startIndex = startIndex, cr_endIndex = endIndex \<rparr> in
               Inr \<lparr> rr_range = rng, rr_refMap = refMap,
                 rr_requiredChildRefs = activeChildRefsContainedByRange st rng \<rparr>)
          | _ \<Rightarrow> Inl [issue UnknownRef (js ''Range resolved outside the current transcript'')])
     | _ \<Rightarrow> Inl (issues_of start @ issues_of finish))"

definition validateDynamicCompressionSummary ::
  "jsvalue \<Rightarrow> jstring list \<Rightarrow> CompressionValidationIssue list + CompressionSummary" where
  "validateDynamicCompressionSummary summary requiredChildRefs =
    (let result = validateCompressionSummaryTemplate summary requiredChildRefs in
     if \<not> sv_ok result then Inl (map (issue InvalidSummary) (sv_errors result))
     else Inr (case as_record summary of None \<Rightarrow> (\<lambda>_. []) | Some ps \<Rightarrow> as_summary ps))"

section \<open>Protected content\<close>

definition ascii_lower :: "jchar \<Rightarrow> jchar" where
  "ascii_lower c = (if 0x41 \<le> c \<and> c \<le> 0x5A then c + 0x20 else c)"

fun occurs :: "(jstring \<Rightarrow> bool) \<Rightarrow> jstring \<Rightarrow> bool" where
  "occurs p [] = p []"
| "occurs p (c # cs) = (p (c # cs) \<or> occurs p cs)"

text \<open>/<protect>[\s\S]*?<\/protect>/i and /<protect\b/i\<close>

definition protect_element :: "jstring \<Rightarrow> bool" where
  "protect_element s = (case strip_prefix (js ''<protect>'') s of
     None \<Rightarrow> False | Some r \<Rightarrow> occurs (\<lambda>t. strip_prefix (js ''</protect>'') t \<noteq> None) r)"

definition protect_open :: "jstring \<Rightarrow> bool" where
  "protect_open s = (match_reserved (js ''<protect'') s \<noteq> None)"

definition partHasProtectTag :: "AssistantSessionPart \<Rightarrow> bool" where
  "partHasProtectTag part =
    (case part of
       AssistantOutput b \<Rightarrow> occurs protect_element (map ascii_lower (bp_text b))
                             \<or> occurs protect_open (map ascii_lower (bp_text b))
     | ReasoningOutput b \<Rightarrow> occurs protect_element (map ascii_lower (bp_text b))
                             \<or> occurs protect_open (map ascii_lower (bp_text b))
     | _ \<Rightarrow> False)"

definition has_unknown_result :: "FinalizedToolResult \<Rightarrow> bool" where
  "has_unknown_result result = option_test trd_unknownResult (ftr_details result)"

definition protectedRef ::
  "jstring \<Rightarrow> ProtectedContentKind \<Rightarrow> string \<Rightarrow> jstring option \<Rightarrow> jstring option \<Rightarrow> ProtectedRef" where
  "protectedRef ref kind reason messageId partId =
     \<lparr> pr_ref = ref, pr_kind = kind, pr_reason = js reason, pr_messageId = messageId, pr_partId = partId \<rparr>"

text \<open>Only an Assistant message has tool, output or reasoning parts.\<close>

definition part_protection :: "jstring \<Rightarrow> jstring \<Rightarrow> AssistantSessionPart \<Rightarrow> ProtectedRef list" where
  "part_protection messageId ref part =
    (case part of
       AssistantTool t \<Rightarrow>
         (case t of
            PendingTool b \<Rightarrow> [protectedRef ref PendingToolKind ''Pending tool calls cannot be compressed''
              (Some messageId) (Some (tp_id b))]
          | RunningTool b _ _ _ \<Rightarrow> [protectedRef ref RunningToolKind ''Running tool calls cannot be compressed''
              (Some messageId) (Some (tp_id b))]
          | ErrorTool b _ result _ _ \<Rightarrow>
              (if has_unknown_result result
               then [protectedRef ref UnknownResult ''Unknown tool results must remain visible''
                 (Some messageId) (Some (tp_id b))]
               else [])
          | _ \<Rightarrow> [])
     | AssistantOutput b \<Rightarrow>
         (if partHasProtectTag part
          then [protectedRef ref ProtectTag ''Content inside <protect> tags cannot be compressed''
            (Some messageId) (Some (bp_id b))] else [])
     | ReasoningOutput b \<Rightarrow>
         (if partHasProtectTag part
          then [protectedRef ref ProtectTag ''Content inside <protect> tags cannot be compressed''
            (Some messageId) (Some (bp_id b))] else [])
     | _ \<Rightarrow> [])"

fun collectMessageProtectedRefs :: "SessionMessage \<Rightarrow> jstring \<Rightarrow> ProtectedRef list" where
  "collectMessageProtectedRefs (UserMessage m) ref = []"
| "collectMessageProtectedRefs (AssistantMessage m) ref =
     concat (map (part_protection (am_id m) ref) (am_parts m))"

definition collectLatestTailRefs :: "SessionMessage list \<Rightarrow> CompressionRange \<Rightarrow> ProtectedRef list" where
  "collectLatestTailRefs msgs rng =
    (let tailStartIndex = max 0 (int (length msgs) - 2) in
     concat (map (\<lambda>index. case js_at msgs index of
         None \<Rightarrow> []
       | Some message \<Rightarrow> [protectedRef (formatMessageRef (index + 1)) LatestTail
           ''Latest transcript tail must remain visible for model-callable compression'' (Some (msg_id message)) None])
       [max (cr_startIndex rng) tailStartIndex..cr_endIndex rng]))"

definition collectProtectedRefsForRange :: "SessionMessage list \<Rightarrow> CompressionRange \<Rightarrow> ProtectedRef list" where
  "collectProtectedRefsForRange msgs rng =
    (let covered = js_slice msgs (cr_startIndex rng) (cr_endIndex rng + 1) in
     concat (map (\<lambda>(offset, message).
         collectMessageProtectedRefs message (formatMessageRef (cr_startIndex rng + int offset + 1)))
       (enumerate 0 covered))
     @ collectLatestTailRefs msgs rng)"

section \<open>Normalization\<close>

text \<open>\<open>text.replace(/\s+/g, " ")\<close>: every run of white space becomes one space.\<close>

fun collapse_space :: "bool \<Rightarrow> jstring \<Rightarrow> jstring" where
  "collapse_space in_run [] = []"
| "collapse_space in_run (c # cs) =
    (if is_space c then (if in_run then collapse_space True cs else 0x20 # collapse_space True cs)
     else c # collapse_space False cs)"

definition normalizeText :: "jstring \<Rightarrow> jstring" where
  "normalizeText t = trim (collapse_space False t)"

fun normalizeValue :: "collation \<Rightarrow> jsvalue \<Rightarrow> jsvalue" where
  "normalizeValue lc (JsString s) = JsString (normalizeText s)"
| "normalizeValue lc (JsArray vs) = JsArray (map (normalizeValue lc) vs)"
| "normalizeValue lc (JsObject ps) =
     JsObject (sort_cmp (\<lambda>l r. lc (fst l) (fst r)) (map (\<lambda>p. (fst p, normalizeValue lc (snd p))) ps))"
| "normalizeValue lc v = v"

section \<open>Repeated outputs and errors\<close>

record DeduplicatedToolOutputGroup =
  dg_key :: jstring
  dg_toolName :: jstring
  dg_keptRef :: jstring
  dg_duplicateRefs :: "jstring list"
  dg_count :: int

record PurgedRepeatedErrorGroup =
  pg_key :: jstring
  pg_toolName :: jstring
  pg_preservedRefs :: "jstring list"
  pg_collapsedRefs :: "jstring list"
  pg_unknownResultRefs :: "jstring list"

definition normalizedToolOutputKey :: "collation \<Rightarrow> ToolPartBase \<Rightarrow> jsvalue \<Rightarrow> FinalizedToolResult \<Rightarrow> jstring" where
  "normalizedToolOutputKey lc b input result = json_text (normalizeValue lc (v_obj
     [(''toolName'', v_str (tp_toolName b)), (''input'', normalizeValue lc input),
      (''output'', v_str (normalizeText (to_preview (ftr_output result)))),
      (''completeness'', v_str (js (completeness_name (to_completeness (ftr_output result))))),
      (''recovery'', tool_recovery_value (to_recovery (ftr_output result)))]))"

definition normalizedErrorKey :: "collation \<Rightarrow> ToolPartBase \<Rightarrow> jsvalue \<Rightarrow> FinalizedToolResult \<Rightarrow> jstring" where
  "normalizedErrorKey lc b input result = json_text (v_obj
     [(''toolName'', v_str (tp_toolName b)), (''input'', normalizeValue lc input),
      (''preview'', v_str (normalizeText (to_preview (ftr_output result)))),
      (''error'', v_opt (\<lambda>d. v_opt error_details_value (trd_error d)) (ftr_details result)),
      (''recovery'', tool_recovery_value (to_recovery (ftr_output result)))])"

text \<open>The tool parts of a range with the reference of their message, in transcript order.\<close>

fun message_tools :: "SessionMessage \<Rightarrow> ToolPart list" where
  "message_tools (UserMessage m) = []"
| "message_tools (AssistantMessage m) = List.map_filter (\<lambda>p. case p of AssistantTool t \<Rightarrow> Some t | _ \<Rightarrow> None) (am_parts m)"

definition range_tools :: "SessionMessage list \<Rightarrow> CompressionRange \<Rightarrow> (ToolPart \<times> jstring) list" where
  "range_tools msgs rng = concat (map (\<lambda>index. case js_at msgs index of
       None \<Rightarrow> []
     | Some message \<Rightarrow> map (\<lambda>t. (t, formatMessageRef (index + 1))) (message_tools message))
     [cr_startIndex rng..cr_endIndex rng])"

text \<open>\<open>groups.get(key) ?? fresh\<close>, then a push and a set.\<close>

definition push_group :: "'k \<Rightarrow> jstring \<Rightarrow> 'e \<Rightarrow> ('k, jstring \<times> 'e list) dict \<Rightarrow> ('k, jstring \<times> 'e list) dict" where
  "push_group key toolName entry groups =
    (case map_of groups key of
       None \<Rightarrow> AList.update key (toolName, [entry]) groups
     | Some (name, entries) \<Rightarrow> AList.update key (name, entries @ [entry]) groups)"

definition add_output ::
  "collation \<Rightarrow> ToolPart \<times> jstring \<Rightarrow> (jstring, jstring \<times> jstring list) dict
   \<Rightarrow> (jstring, jstring \<times> jstring list) dict" where
  "add_output lc visited groups =
    (case visited of
       (CompletedTool b input result _ _, ref) \<Rightarrow>
         push_group (normalizedToolOutputKey lc b input result) (tp_toolName b) ref groups
     | _ \<Rightarrow> groups)"

definition deduplicateCompletedToolOutputs ::
  "collation \<Rightarrow> SessionMessage list \<Rightarrow> CompressionRange \<Rightarrow> DeduplicatedToolOutputGroup list" where
  "deduplicateCompletedToolOutputs lc msgs rng =
    (let groups = fold (add_output lc) (range_tools msgs rng) [] in
     map (\<lambda>(key, toolName, refs). \<lparr> dg_key = key, dg_toolName = toolName, dg_keptRef = hd refs,
         dg_duplicateRefs = tl refs, dg_count = int (length refs) \<rparr>)
       (filter (\<lambda>(key, toolName, refs). 1 < length refs) groups))"

definition add_error ::
  "collation \<Rightarrow> ToolPart \<times> jstring \<Rightarrow> (jstring, jstring \<times> (jstring \<times> bool) list) dict
   \<Rightarrow> (jstring, jstring \<times> (jstring \<times> bool) list) dict" where
  "add_error lc visited groups =
    (case visited of
       (ErrorTool b input result _ _, ref) \<Rightarrow>
         push_group (normalizedErrorKey lc b input result) (tp_toolName b) (ref, has_unknown_result result) groups
     | _ \<Rightarrow> groups)"

text \<open>An entry keeps of its part whether the result is unknown.\<close>

definition toPurgedGroup :: "jstring \<times> jstring \<times> (jstring \<times> bool) list \<Rightarrow> PurgedRepeatedErrorGroup" where
  "toPurgedGroup grouped =
    (case grouped of (key, toolName, entries) \<Rightarrow>
      (let unknownResultRefs = map fst (filter snd entries);
           actionable = map fst (filter (\<lambda>e. \<not> snd e) entries) in
       \<lparr> pg_key = key, pg_toolName = toolName,
         pg_preservedRefs = unknownResultRefs @ (case at_last actionable of None \<Rightarrow> [] | Some r \<Rightarrow> [r]),
         pg_collapsedRefs = butlast actionable,
         pg_unknownResultRefs = unknownResultRefs \<rparr>))"

definition purgeRepeatedOldErrors ::
  "collation \<Rightarrow> SessionMessage list \<Rightarrow> CompressionRange \<Rightarrow> PurgedRepeatedErrorGroup list" where
  "purgeRepeatedOldErrors lc msgs rng =
     filter (\<lambda>g. pg_collapsedRefs g \<noteq> [] \<or> pg_unknownResultRefs g \<noteq> [])
       (map toPurgedGroup (fold (add_error lc) (range_tools msgs rng) []))"

section \<open>The original range of a block\<close>

record CompressionOriginalRange =
  og_blockRef :: jstring
  og_blockId :: jstring
  og_status :: CompressionBlockStatus
  og_strategy :: CompressionStrategy
  og_trigger :: CompressionTrigger
  og_childBlockRefs :: "jstring list"
  og_range :: CompressionRange
  og_coveredRefs :: "jstring list"
  og_coveredMessageIds :: "jstring list"
  og_messages :: "(jstring \<times> SessionMessage) list"

datatype CompressionOriginalRangeResult =
    OriginalRange CompressionOriginalRange
  | OriginalRangeNotFound jstring
  | OriginalRangeUnsupported jstring

definition resolveCoveredEntries ::
  "SessionMessage list \<Rightarrow> CompressionState \<Rightarrow> CompressionBlock \<Rightarrow> (jstring \<times> SessionMessage) list option" where
  "resolveCoveredEntries msgs st block =
    (let startIndex = cr_startIndex (bk_range block); endIndex = cr_endIndex (bk_range block) in
     if startIndex < 0 \<or> endIndex < startIndex \<or> int (length msgs) \<le> endIndex then None
     else let covered = js_slice msgs startIndex (endIndex + 1) in
       if map_option msg_id (js_at covered 0) \<noteq> Some (cr_startMessageId (bk_range block)) then None
       else if map_option msg_id (at_last covered) \<noteq> Some (cr_endMessageId (bk_range block)) then None
       else Some (map (\<lambda>(offset, message).
         (ref_or_position (ct_refMap st) (msg_id message) (startIndex + int offset), message))
         (enumerate 0 covered)))"

definition resolveCompressionOriginalRange ::
  "SessionMessage list \<Rightarrow> CompressionState \<Rightarrow> jstring \<Rightarrow> CompressionOriginalRangeResult" where
  "resolveCompressionOriginalRange msgs st blockRef =
    (case (if isBlockRef blockRef then map_of (ct_blocksByRef st) blockRef else None) of
       None \<Rightarrow> OriginalRangeNotFound blockRef
     | Some block \<Rightarrow>
         (case resolveCoveredEntries msgs st block of
            None \<Rightarrow> OriginalRangeUnsupported blockRef
          | Some entries \<Rightarrow> OriginalRange \<lparr> og_blockRef = bk_ref block, og_blockId = bk_id block,
              og_status = bk_status block, og_strategy = bk_strategy block, og_trigger = bk_trigger block,
              og_childBlockRefs = bk_childBlockRefs block, og_range = bk_range block,
              og_coveredRefs = map fst entries, og_coveredMessageIds = map (msg_id \<circ> snd) entries,
              og_messages = entries \<rparr>))"

end
