(* ===== verification/CompressionEngine.thy ===== *)
theory CompressionEngine
  imports CompressionRanges ProtocolEvents
begin

text \<open>
  packages/agent-core/src/compression/dynamic-range.ts: the compression a model asks for. A request
  is resolved, validated, checked for protected content, materialized and committed, or rejected
  with a recorded failure at the first check it does not pass; nothing is thrown.

  \<open>uuid n\<close> is the n-th result of \<open>crypto.randomUUID()\<close> within one call.
\<close>

section \<open>Snapshots for the protocol\<close>

definition compressionBlockSnapshot :: "CompressionBlock \<Rightarrow> CompressionBlockSnapshot" where
  "compressionBlockSnapshot block = \<lparr> cb_id = bk_id block, cb_ref = bk_ref block,
     cb_status = bk_status block, cb_strategy = bk_strategy block, cb_trigger = bk_trigger block,
     cb_range = bk_range block, cb_summary = bk_summary block,
     cb_childBlockRefs = bk_childBlockRefs block, cb_protectedRefs = map pr_ref (bk_protectedRefs block),
     cb_tokenEstimate = bk_tokenEstimate block, cb_createdAt = bk_createdAt block,
     cb_updatedAt = bk_updatedAt block, cb_deactivatedAt = bk_deactivatedAt block,
     cb_supersededBy = bk_supersededBy block \<rparr>"

definition compressionFailureSnapshot :: "CompressionFailure \<Rightarrow> CompressionFailureSnapshot" where
  "compressionFailureSnapshot failure = \<lparr> cf_id = cf_id failure, cf_reason = cf_reason failure,
     cf_startRef = cf_startRef failure, cf_endRef = cf_endRef failure,
     cf_strategy = cf_strategy failure, cf_failedAt = cf_failedAt failure \<rparr>"

definition compressionStateSnapshot :: "CompressionState \<Rightarrow> CompressionStateSnapshot" where
  "compressionStateSnapshot st = \<lparr> cs_refMap = ct_refMap st,
     cs_blocksByRef = map (\<lambda>(ref, block). (ref, compressionBlockSnapshot block)) (ct_blocksByRef st),
     cs_activeBlockRefs = ct_activeBlockRefs st, cs_inactiveBlockRefs = ct_inactiveBlockRefs st,
     cs_supersededBlockRefs = ct_supersededBlockRefs st,
     cs_failures = map compressionFailureSnapshot (ct_failures st), cs_updatedAt = ct_updatedAt st \<rparr>"

section \<open>Results\<close>

record DynamicRangeCompressionInput =
  di_startId :: jstring
  di_endId :: jstring
  di_summary :: jsvalue

record DynamicRangeCompressionSuccess =
  ds_block :: CompressionBlock
  ds_state :: CompressionState
  ds_event :: CompressionStreamEvent
  ds_deduplicatedToolOutputs :: "DeduplicatedToolOutputGroup list"
  ds_purgedErrors :: "PurgedRepeatedErrorGroup list"

record DynamicRangeCompressionRejection =
  dj_code :: jstring
  dj_reason :: jstring
  dj_issues :: "CompressionValidationIssue list"
  dj_protectedRefs :: "ProtectedRef list"
  dj_state :: CompressionState
  dj_event :: CompressionStreamEvent

definition reject_compression ::
  "CompressionState \<Rightarrow> jstring \<Rightarrow> jstring \<Rightarrow> CompressionValidationIssue list \<Rightarrow> ProtectedRef list
   \<Rightarrow> DynamicRangeCompressionInput \<Rightarrow> int \<Rightarrow> jstring \<Rightarrow> DynamicRangeCompressionRejection" where
  "reject_compression st c reason issues protectedRefs input now newId =
    (let failure = \<lparr> cf_id = newId, cf_reason = reason,
           cf_startRef = (if startsWith (di_startId input) (js ''m'') then Some (di_startId input) else None),
           cf_endRef = (if startsWith (di_endId input) (js ''m'') then Some (di_endId input) else None),
           cf_strategy = Some DynamicRange, cf_failedAt = now \<rparr>;
         nextState = recordCompressionFailure st failure in
     \<lparr> dj_code = c, dj_reason = reason, dj_issues = issues, dj_protectedRefs = protectedRefs,
       dj_state = nextState,
       dj_event = BlockFailed (compressionFailureSnapshot failure) (Some (compressionStateSnapshot nextState)) \<rparr>)"

section \<open>Token estimates\<close>

definition ceil_quarter :: "int \<Rightarrow> int" where
  "ceil_quarter n = (n + 3) div 4"

definition original_chars ::
  "SessionMessage list \<Rightarrow> CompressionRange \<Rightarrow> CompressionBlock list \<Rightarrow> nat" where
  "original_chars msgs rng childBlocks =
    (let coveredIndexes = concat (map (\<lambda>c. [cr_startIndex (bk_range c)..cr_endIndex (bk_range c)]) childBlocks) in
     sum_list (map (\<lambda>c. length (renderCompressionSummary (bk_summary c))) childBlocks)
     + sum_list (map (\<lambda>index. if index \<in> set coveredIndexes then 0 else case js_at msgs index of
           None \<Rightarrow> 0
         | Some message \<Rightarrow> length (json_text (message_parts_value message)))
       [cr_startIndex rng..cr_endIndex rng]))"

definition estimateCompressionTokens ::
  "SessionMessage list \<Rightarrow> (jstring, CompressionBlock) dict \<Rightarrow> CompressionRange \<Rightarrow> jstring list
   \<Rightarrow> CompressionSummary \<Rightarrow> int \<Rightarrow> CompressionTokenEstimate" where
  "estimateCompressionTokens msgs blocksByRef rng childBlockRefs summary now =
    (let childBlocks = List.map_filter (map_of blocksByRef) childBlockRefs;
         originalTokens = ceil_quarter (int (original_chars msgs rng childBlocks));
         summaryTokens = ceil_quarter (int (length (renderCompressionSummary summary))) in
     \<lparr> cte_originalTokens = originalTokens, cte_summaryTokens = summaryTokens,
       cte_savedTokens = max 0 (originalTokens - summaryTokens), cte_estimatedAt = now \<rparr>)"

section \<open>The request\<close>

fun stateIssue :: "compression_error \<Rightarrow> CompressionValidationIssue" where
  "stateIssue (CompressionStateError c message) = issue InvalidRange message"
| "stateIssue (CompressionSummaryValidationError errors) =
     issue InvalidSummary (js ''Invalid compression summary: '' @ join_with (js ''; '') errors)"

fun code_name :: "CompressionValidationCode \<Rightarrow> string" where
  "code_name InvalidRef = ''invalid_ref''"
| "code_name UnknownRef = ''unknown_ref''"
| "code_name InvalidRange = ''invalid_range''"
| "code_name InvalidSummary = ''invalid_summary''"

definition reject_error ::
  "CompressionState \<Rightarrow> compression_error \<Rightarrow> DynamicRangeCompressionInput \<Rightarrow> int \<Rightarrow> jstring
   \<Rightarrow> DynamicRangeCompressionRejection" where
  "reject_error st e input now newId =
     reject_compression st (js (code_name (vi_code (stateIssue e)))) (vi_message (stateIssue e)) [stateIssue e] []
       input now newId"

definition dynamic_draft ::
  "SessionMessage list \<Rightarrow> CompressionState \<Rightarrow> ResolvedCompressionRange \<Rightarrow> CompressionSummary \<Rightarrow> int
   \<Rightarrow> (nat \<Rightarrow> jstring) \<Rightarrow> CompressionBlockDraft" where
  "dynamic_draft msgs st resolved summary now uuid = \<lparr>
     dt_id = uuid 0, dt_canonicalBlockId = uuid 1, dt_strategy = DynamicRange, dt_trigger = ModelToolCall,
     dt_range = rr_range resolved, dt_summary = summary, dt_protectedRefs = Some [],
     dt_childBlockRefs = rr_requiredChildRefs resolved,
     dt_tokenEstimate = Some (estimateCompressionTokens msgs (ct_blocksByRef st) (rr_range resolved)
       (rr_requiredChildRefs resolved) summary now),
     dt_createdAt = now \<rparr>"

definition prepareDynamicRangeCompression ::
  "collation \<Rightarrow> SessionMessage list \<Rightarrow> CompressionState option \<Rightarrow> DynamicRangeCompressionInput \<Rightarrow> int
   \<Rightarrow> (nat \<Rightarrow> jstring) \<Rightarrow> DynamicRangeCompressionRejection + DynamicRangeCompressionSuccess" where
  "prepareDynamicRangeCompression lc msgs current input now uuid =
    (let currentState = (case current of None \<Rightarrow> createEmptyCompressionState | Some st \<Rightarrow> st) in
     case resolveCompressionRange msgs currentState (di_startId input) (di_endId input) of
       Inl issues \<Rightarrow> Inl (reject_compression currentState (js ''range_rejected'')
         (js ''Compression range is invalid'') issues [] input now (uuid 0))
     | Inr resolved \<Rightarrow>
       (case validateDynamicCompressionSummary (di_summary input) (rr_requiredChildRefs resolved) of
          Inl issues \<Rightarrow> Inl (reject_compression currentState (js ''summary_rejected'')
            (js ''Compression summary is invalid'') issues [] input now (uuid 0))
        | Inr template \<Rightarrow>
          (let stateWithRefs = currentState\<lparr>ct_refMap := rr_refMap resolved\<rparr>;
               protectedRefs = collectProtectedRefsForRange msgs (rr_range resolved) in
           if protectedRefs \<noteq> [] then Inl (reject_compression stateWithRefs (js ''protected_content'')
             (js ''Compression range includes protected content'')
             (map (\<lambda>p. issue InvalidRange (js (kind_name (pr_kind p)) @ js '': '' @ pr_reason p)) protectedRefs)
             protectedRefs input now (uuid 0))
           else case materializeCompressionSummaryTemplate template (rr_requiredChildRefs resolved)
                  (ct_blocksByRef stateWithRefs) of
             Inl e \<Rightarrow> Inl (reject_error stateWithRefs e input now (uuid 0))
           | Inr summary \<Rightarrow>
             (case commitCompressionBlock stateWithRefs
                     (dynamic_draft msgs currentState resolved summary now uuid) of
                Inl e \<Rightarrow> Inl (reject_error stateWithRefs e input now (uuid 2))
              | Inr nextState \<Rightarrow>
                (case Option.bind (at_last (ct_activeBlockRefs nextState)) (map_of (ct_blocksByRef nextState)) of
                   None \<Rightarrow> Inl (reject_compression stateWithRefs (js ''commit_failed'')
                     (js ''Compression block was not committed'') [] [] input now (uuid 2))
                 | Some block \<Rightarrow> Inr \<lparr> ds_block = block, ds_state = nextState,
                     ds_event = BlockCommitted (compressionBlockSnapshot block)
                       (Some (compressionStateSnapshot nextState)),
                     ds_deduplicatedToolOutputs =
                       deduplicateCompletedToolOutputs lc msgs (rr_range resolved),
                     ds_purgedErrors = purgeRepeatedOldErrors lc msgs (rr_range resolved) \<rparr>)))))"

section \<open>Resolved ranges\<close>

lemma resolved_range:
  assumes "resolveCompressionRange msgs st startId endId = Inr resolved"
  defines "rng \<equiv> rr_range resolved"
  shows "0 \<le> cr_startIndex rng \<and> cr_startIndex rng < cr_endIndex rng \<and> cr_endIndex rng < int (length msgs)
    \<and> cr_startMessageId rng = msg_id (msgs ! nat (cr_startIndex rng))
    \<and> cr_endMessageId rng = msg_id (msgs ! nat (cr_endIndex rng))
    \<and> rr_refMap resolved = buildMessageRefMap (map msg_id msgs) (ct_refMap st)
    \<and> rr_requiredChildRefs resolved = activeChildRefsContainedByRange st rng"
  using assms(1) unfolding rng_def
  by (auto simp: resolveCompressionRange_def Let_def js_at_def split: sum.splits if_splits prod.splits option.splits)

text \<open>What protection leaves: nothing unsettled, unknown or protected, and not the last two messages.\<close>

definition compressible_part :: "AssistantSessionPart \<Rightarrow> bool" where
  "compressible_part part \<longleftrightarrow> \<not> partHasProtectTag part \<and>
    (case part of
       AssistantTool (PendingTool _) \<Rightarrow> False
     | AssistantTool (RunningTool _ _ _ _) \<Rightarrow> False
     | AssistantTool (ErrorTool _ _ result _ _) \<Rightarrow> \<not> has_unknown_result result
     | _ \<Rightarrow> True)"

fun assistant_parts :: "SessionMessage \<Rightarrow> AssistantSessionPart list" where
  "assistant_parts (UserMessage m) = []"
| "assistant_parts (AssistantMessage m) = am_parts m"

lemma part_protection_empty: "part_protection i ref part = [] \<longleftrightarrow> compressible_part part"
  by (auto simp: part_protection_def compressible_part_def partHasProtectTag_def
      split: AssistantSessionPart.splits ToolPart.splits if_splits)

lemma message_protection_empty:
  "collectMessageProtectedRefs m ref = [] \<longleftrightarrow> list_all compressible_part (assistant_parts m)"
  by (cases m) (auto simp: part_protection_empty list_all_iff)

lemma unprotected_range:
  assumes "collectProtectedRefsForRange msgs rng = []"
    and "0 \<le> cr_startIndex rng" "cr_startIndex rng \<le> cr_endIndex rng" "cr_endIndex rng < int (length msgs)"
  shows "cr_endIndex rng < int (length msgs) - 2
    \<and> (\<forall>k. cr_startIndex rng \<le> k \<and> k \<le> cr_endIndex rng
        \<longrightarrow> list_all compressible_part (assistant_parts (msgs ! nat k)))"
proof (intro conjI allI impI)
  from assms(1) have tail: "collectLatestTailRefs msgs rng = []"
    and each: "\<forall>(n, m) \<in> set (enumerate 0 (js_slice msgs (cr_startIndex rng) (cr_endIndex rng + 1))).
      list_all compressible_part (assistant_parts m)"
    by (auto simp: collectProtectedRefsForRange_def message_protection_empty Let_def)
  have all: "list_all compressible_part (assistant_parts m)"
    if "m \<in> set (js_slice msgs (cr_startIndex rng) (cr_endIndex rng + 1))" for m
    using each that by (metis (no_types, lifting) case_prodD enumerate_eq_zip in_set_impl_in_set_zip2 length_map
        length_upt map_nth minus_nat.diff_0 add_0 diff_add_inverse)
  show "list_all compressible_part (assistant_parts (msgs ! nat k))"
    if "cr_startIndex rng \<le> k \<and> k \<le> cr_endIndex rng" for k
    by (rule all) (use that in \<open>auto simp: set_js_slice [OF assms(2-4)]\<close>)
  show "cr_endIndex rng < int (length msgs) - 2"
  proof (rule ccontr)
    assume "\<not> cr_endIndex rng < int (length msgs) - 2"
    with assms(3) assms(4) assms(2) have "cr_endIndex rng \<in> set [max (cr_startIndex rng) (max 0 (int (length msgs) - 2))..cr_endIndex rng]"
      by simp
    moreover have "js_at msgs (cr_endIndex rng) \<noteq> None"
      using assms(2-4) by (simp add: js_at_def)
    moreover have "js_at msgs i = None"
      if "i \<in> set [max (cr_startIndex rng) (max 0 (int (length msgs) - 2))..cr_endIndex rng]" for i
      using tail that by (auto simp: collectLatestTailRefs_def Let_def split: option.splits)
    ultimately show False by metis
  qed
qed

section \<open>Outcomes\<close>

definition current_state :: "CompressionState option \<Rightarrow> CompressionState" where
  "current_state current = (case current of None \<Rightarrow> createEmptyCompressionState | Some st \<Rightarrow> st)"

lemma prepare_success_cases:
  assumes "prepareDynamicRangeCompression lc msgs current input now uuid = Inr result"
  obtains resolved template summary where
    "resolveCompressionRange msgs (current_state current) (di_startId input) (di_endId input) = Inr resolved"
    "validateDynamicCompressionSummary (di_summary input) (rr_requiredChildRefs resolved) = Inr template"
    "collectProtectedRefsForRange msgs (rr_range resolved) = []"
    "materializeCompressionSummaryTemplate template (rr_requiredChildRefs resolved)
       (ct_blocksByRef (current_state current)) = Inr summary"
    "commitCompressionBlock ((current_state current)\<lparr>ct_refMap := rr_refMap resolved\<rparr>)
       (dynamic_draft msgs (current_state current) resolved summary now uuid) = Inr (ds_state result)"
    "Option.bind (at_last (ct_activeBlockRefs (ds_state result))) (map_of (ct_blocksByRef (ds_state result)))
       = Some (ds_block result)"
  using assms
  by (fastforce simp: prepareDynamicRangeCompression_def current_state_def Let_def
      split: sum.splits option.splits if_splits)

definition same_blocks :: "CompressionState \<Rightarrow> CompressionState \<Rightarrow> bool" where
  "same_blocks st st' \<longleftrightarrow> ct_blocksByRef st' = ct_blocksByRef st
     \<and> ct_activeBlockRefs st' = ct_activeBlockRefs st
     \<and> ct_inactiveBlockRefs st' = ct_inactiveBlockRefs st
     \<and> ct_supersededBlockRefs st' = ct_supersededBlockRefs st
     \<and> ct_protectedRefs st' = ct_protectedRefs st"

definition records_failure :: "CompressionState \<Rightarrow> DynamicRangeCompressionRejection \<Rightarrow> bool" where
  "records_failure st rejection \<longleftrightarrow> (\<exists>failure. dj_state rejection = recordCompressionFailure st failure)"

lemma reject_records [simp]:
  "records_failure st (reject_compression st c reason issues ps input now newId)"
  "records_failure st (reject_error st e input now newId)"
  by (auto simp: records_failure_def reject_error_def reject_compression_def Let_def)

lemma prepare_rejected_cases:
  assumes "prepareDynamicRangeCompression lc msgs current input now uuid = Inl rejection"
  shows "records_failure (current_state current) rejection
    \<or> records_failure ((current_state current)
        \<lparr>ct_refMap := buildMessageRefMap (map msg_id msgs) (ct_refMap (current_state current))\<rparr>) rejection"
proof (cases "resolveCompressionRange msgs (current_state current) (di_startId input) (di_endId input)")
  case (Inl issues)
  with assms have "rejection = reject_compression (current_state current) (js ''range_rejected'')
      (js ''Compression range is invalid'') issues [] input now (uuid 0)"
    unfolding prepareDynamicRangeCompression_def current_state_def by (simp add: Let_def)
  then show ?thesis by simp
next
  case (Inr resolved)
  then have refs: "rr_refMap resolved = buildMessageRefMap (map msg_id msgs) (ct_refMap (current_state current))"
    using resolved_range by blast
  show ?thesis
    using assms Inr unfolding prepareDynamicRangeCompression_def current_state_def [symmetric] refs [symmetric]
    by (auto simp: Let_def split: sum.splits option.splits if_splits)
qed

lemma recorded_failure_ok:
  assumes "records_failure st rejection" "compression_ok st"
  shows "compression_ok (dj_state rejection) \<and> same_blocks st (dj_state rejection)
    \<and> (\<exists>failure. ct_failures (dj_state rejection) = ct_failures st @ [failure])"
  using assms by (auto simp: records_failure_def recordCompressionFailure_def compression_ok_def same_blocks_def)

text \<open>
  A request changes the blocks only when it succeeds, and never breaks the state. A rejected
  request leaves every block and list as it was and records one failure; both outcomes keep the
  compression state consistent.
\<close>

theorem compression_request_keeps_state_ok:
  assumes "compression_ok (current_state current)"
  shows "case prepareDynamicRangeCompression lc msgs current input now uuid of
      Inl rejection \<Rightarrow> compression_ok (dj_state rejection)
        \<and> same_blocks (current_state current) (dj_state rejection)
        \<and> (\<exists>failure. ct_failures (dj_state rejection) = ct_failures (current_state current) @ [failure])
    | Inr success \<Rightarrow> compression_ok (ds_state success)
        \<and> ct_failures (ds_state success) = ct_failures (current_state current)"
proof -
  define st where "st = current_state current"
  note ok = assms [folded st_def]
  have maps: "ref_map_ok (ct_refMap st)" using ok by (simp add: compression_ok_def)
  note built = buildMessageRefMap_facts [OF maps, of "map msg_id msgs"]
  have ok_refs: "compression_ok (st\<lparr>ct_refMap := refMap\<rparr>)"
    if "refMap \<in> {ct_refMap st, buildMessageRefMap (map msg_id msgs) (ct_refMap st)}" for refMap
    using that ok built by (auto simp: compression_ok_def)
  show ?thesis
  proof (cases "prepareDynamicRangeCompression lc msgs current input now uuid")
    case (Inl rejection)
    from prepare_rejected_cases [OF Inl, folded st_def] show ?thesis
      unfolding Inl st_def [symmetric]
      using recorded_failure_ok [OF _ ok] recorded_failure_ok [OF _ ok_refs [of "buildMessageRefMap (map msg_id msgs) (ct_refMap st)"]]
      by (auto simp: same_blocks_def)
  next
    case (Inr result)
    then obtain resolved summary where
      r: "resolveCompressionRange msgs st (di_startId input) (di_endId input) = Inr resolved"
      and c: "commitCompressionBlock (st\<lparr>ct_refMap := rr_refMap resolved\<rparr>)
        (dynamic_draft msgs st resolved summary now uuid) = Inr (ds_state result)"
      unfolding st_def by (rule prepare_success_cases)
    have "compression_ok (st\<lparr>ct_refMap := rr_refMap resolved\<rparr>)"
      using resolved_range [OF r] by (intro ok_refs) simp
    moreover obtain refMap ref where "ct_failures (ds_state result) = ct_failures (st\<lparr>ct_refMap := rr_refMap resolved\<rparr>)"
      by (rule commit_cases [OF c])
    ultimately show ?thesis
      unfolding Inr st_def [symmetric]
      using commit_keeps_ok [OF _ c] by simp
  qed
qed

section \<open>What a successful compression covers\<close>

lemma isBlockRef_format: "1 \<le> k \<Longrightarrow> isBlockRef (formatBlockRef k)"
  by (simp add: isBlockRef_def formatBlockRef_def js_def decimal_digits decimal_nonempty)

lemma at_last_slice: "n < length (drop i xs) \<Longrightarrow> at_last (take (n + 1) (drop i xs)) = Some (xs ! (i + n))"
  by (cases "length xs - i = Suc n") (auto simp: at_last_def last_conv_nth min_def)

lemma prepared_block:
  assumes ok: "compression_ok (current_state current)"
    and unused: "map_of (crm_blockRefsById (ct_refMap (current_state current))) (uuid 1) = None"
    and success: "prepareDynamicRangeCompression lc msgs current input now uuid = Inr result"
  obtains resolved summary ref where
    "resolveCompressionRange msgs (current_state current) (di_startId input) (di_endId input) = Inr resolved"
    "collectProtectedRefsForRange msgs (rr_range resolved) = []"
    "ds_block result = committed_block (dynamic_draft msgs (current_state current) resolved summary now uuid) ref"
    "map_of (ct_blocksByRef (ds_state result)) ref = Some (ds_block result)"
    "isBlockRef ref" "ref_map_ok (ct_refMap (ds_state result))"
    "crm_messageRefsById (ct_refMap (ds_state result)) = crm_messageRefsById (rr_refMap resolved)"
proof -
  from success obtain resolved summary where
    r: "resolveCompressionRange msgs (current_state current) (di_startId input) (di_endId input) = Inr resolved"
    and p: "collectProtectedRefsForRange msgs (rr_range resolved) = []"
    and c: "commitCompressionBlock ((current_state current)\<lparr>ct_refMap := rr_refMap resolved\<rparr>)
       (dynamic_draft msgs (current_state current) resolved summary now uuid) = Inr (ds_state result)"
    and b: "Option.bind (at_last (ct_activeBlockRefs (ds_state result)))
       (map_of (ct_blocksByRef (ds_state result))) = Some (ds_block result)"
    by (rule prepare_success_cases)
  define st where "st = (current_state current)\<lparr>ct_refMap := rr_refMap resolved\<rparr>"
  define draft where "draft = dynamic_draft msgs (current_state current) resolved summary now uuid"
  from ok have "ref_map_ok (ct_refMap (current_state current))" by (simp add: compression_ok_def)
  note built = buildMessageRefMap_facts [OF this, of "map msg_id msgs"]
  have refs: "rr_refMap resolved = buildMessageRefMap (map msg_id msgs) (ct_refMap (current_state current))"
    using resolved_range [OF r] by simp
  have ok': "compression_ok st"
    using ok built by (auto simp: st_def compression_ok_def refs)
  have unused': "map_of (crm_blockRefsById (ct_refMap st)) (dt_canonicalBlockId draft) = None"
    using unused built by (simp add: st_def draft_def dynamic_draft_def refs)
  note c' = c [folded st_def draft_def]
  obtain ref where look: "map_of (ct_blocksByRef (ds_state result)) ref = Some (committed_block draft ref)"
    and "ct_activeBlockRefs (ds_state result)
      = filter (\<lambda>r. r \<notin> set (dt_childBlockRefs draft)) (ct_activeBlockRefs st) @ [ref]"
    using committed_lookup [OF ok' c' unused'] by blast
  with b have block: "ds_block result = committed_block draft ref" by simp
  have ok'': "compression_ok (ds_state result)" by (rule commit_keeps_ok [OF ok' c'])
  then have maps: "ref_map_ok (ct_refMap (ds_state result))" by (simp add: compression_ok_def)
  have "(ref, committed_block draft ref) \<in> set (ct_blocksByRef (ds_state result))"
    using look by (rule map_of_SomeD)
  with ok'' have "map_of (crm_blockIdsByRef (ct_refMap (ds_state result))) ref \<noteq> None"
    by (auto simp: compression_ok_def)
  with maps obtain k where "1 \<le> k" "ref = formatBlockRef k"
    unfolding ref_map_ok_def numbered_def by blast
  then have "isBlockRef ref" by (simp add: isBlockRef_format)
  moreover have "crm_messageRefsById (ct_refMap (ds_state result)) = crm_messageRefsById (rr_refMap resolved)"
  proof -
    have "ref_map_ok (ct_refMap st)" using ok' by (simp add: compression_ok_def)
    moreover obtain m r where "ensureBlockRef (ct_refMap st) (dt_canonicalBlockId draft) = (m, r)"
      "ct_refMap (ds_state result) = m" by (rule commit_cases [OF c'])
    ultimately show ?thesis
      using ensureBlockRef_facts(4) [of "ct_refMap st" "dt_canonicalBlockId draft"] by (simp add: st_def)
  qed
  ultimately show ?thesis
    using that [OF r p, of summary ref] look block maps unfolding draft_def by simp
qed

text \<open>
  C37: a successful compression only covers settled, unprotected history. Its range lies in the
  transcript before the last two messages and spans at least two messages, and no message in it has
  a pending or running tool call, a tool error with an unknown result, or text marked as protected.
\<close>

theorem compression_spares_live_content:
  assumes "compression_ok (current_state current)"
    and "map_of (crm_blockRefsById (ct_refMap (current_state current))) (uuid 1) = None"
    and "prepareDynamicRangeCompression lc msgs current input now uuid = Inr result"
  shows "0 \<le> cr_startIndex (bk_range (ds_block result))
    \<and> cr_startIndex (bk_range (ds_block result)) < cr_endIndex (bk_range (ds_block result))
    \<and> cr_endIndex (bk_range (ds_block result)) < int (length msgs) - 2
    \<and> (\<forall>k. cr_startIndex (bk_range (ds_block result)) \<le> k \<and> k \<le> cr_endIndex (bk_range (ds_block result))
        \<longrightarrow> list_all compressible_part (assistant_parts (msgs ! nat k)))"
proof -
  obtain resolved summary ref where
    r: "resolveCompressionRange msgs (current_state current) (di_startId input) (di_endId input) = Inr resolved"
    and p: "collectProtectedRefsForRange msgs (rr_range resolved) = []"
    and b: "ds_block result = committed_block (dynamic_draft msgs (current_state current) resolved summary now uuid) ref"
    by (rule prepared_block [OF assms])
  have "bk_range (ds_block result) = rr_range resolved"
    by (simp add: b dynamic_draft_def)
  with resolved_range [OF r] unprotected_range [OF p] show ?thesis by simp
qed

text \<open>
  C39: a compressed range can be opened again. The block of a successful compression resolves to
  exactly the messages of its range, in order, and the references listed for them name these
  messages in the new reference map.
\<close>

theorem compressed_range_is_restorable:
  assumes "compression_ok (current_state current)"
    and "map_of (crm_blockRefsById (ct_refMap (current_state current))) (uuid 1) = None"
    and "prepareDynamicRangeCompression lc msgs current input now uuid = Inr result"
  shows "\<exists>original. resolveCompressionOriginalRange msgs (ds_state result) (bk_ref (ds_block result))
      = OriginalRange original
    \<and> og_blockId original = bk_id (ds_block result)
    \<and> og_range original = bk_range (ds_block result)
    \<and> map snd (og_messages original) = js_slice msgs (cr_startIndex (bk_range (ds_block result)))
        (cr_endIndex (bk_range (ds_block result)) + 1)
    \<and> og_coveredMessageIds original = map (msg_id \<circ> snd) (og_messages original)
    \<and> map (resolveMessageId (ct_refMap (ds_state result))) (og_coveredRefs original)
        = map Some (og_coveredMessageIds original)"
proof -
  obtain resolved summary ref where
    r: "resolveCompressionRange msgs (current_state current) (di_startId input) (di_endId input) = Inr resolved"
    and b: "ds_block result = committed_block (dynamic_draft msgs (current_state current) resolved summary now uuid) ref"
    and look: "map_of (ct_blocksByRef (ds_state result)) ref = Some (ds_block result)"
    and isref: "isBlockRef ref" and maps: "ref_map_ok (ct_refMap (ds_state result))"
    and same: "crm_messageRefsById (ct_refMap (ds_state result)) = crm_messageRefsById (rr_refMap resolved)"
    by (rule prepared_block [OF assms])
  define rng where "rng = rr_range resolved"
  have rng: "bk_range (ds_block result) = rng" and ref: "bk_ref (ds_block result) = ref"
    by (simp_all add: b dynamic_draft_def rng_def)
  note wf = resolved_range [OF r, folded rng_def]
  define covered where "covered = js_slice msgs (cr_startIndex rng) (cr_endIndex rng + 1)"
  have slice: "covered = take (nat (cr_endIndex rng - cr_startIndex rng) + 1) (drop (nat (cr_startIndex rng)) msgs)"
    unfolding covered_def using wf by (intro js_slice_within) simp_all
  have "nat (cr_startIndex rng) < length msgs"
    using wf by (simp add: nat_less_iff)
  then have first: "js_at covered 0 = Some (msgs ! nat (cr_startIndex rng))"
    by (simp add: slice js_at_def)
  have final: "at_last covered = Some (msgs ! nat (cr_endIndex rng))"
  proof -
    have "nat (cr_endIndex rng - cr_startIndex rng) < length (drop (nat (cr_startIndex rng)) msgs)"
      "nat (cr_startIndex rng) + nat (cr_endIndex rng - cr_startIndex rng) = nat (cr_endIndex rng)"
      using wf by auto
    then show ?thesis unfolding slice by (subst at_last_slice) simp_all
  qed
  have named: "map_of (crm_messageRefsById (ct_refMap (ds_state result))) (msg_id m) \<noteq> None" if "m \<in> set covered" for m
  proof -
    from assms(1) have "ref_map_ok (ct_refMap (current_state current))" by (simp add: compression_ok_def)
    moreover have "m \<in> set msgs" using that by (auto simp: slice dest!: in_set_takeD in_set_dropD)
    ultimately show ?thesis
      using wf buildMessageRefMap_facts [of "ct_refMap (current_state current)" "map msg_id msgs"] same by auto
  qed
  have resolves: "resolveMessageId (ct_refMap (ds_state result))
      (ref_or_position (ct_refMap (ds_state result)) (msg_id m) i) = Some (msg_id m)" if "m \<in> set covered" for m i
  proof -
    from named [OF that] obtain r where
        r: "map_of (crm_messageRefsById (ct_refMap (ds_state result))) (msg_id m) = Some r" by blast
    with maps have "map_of (crm_messageIdsByRef (ct_refMap (ds_state result))) r = Some (msg_id m)"
      unfolding ref_map_ok_def numbered_def by blast
    with r show ?thesis by (simp add: ref_or_position_def resolveMessageId_def)
  qed
  define entries where "entries = map (\<lambda>(offset, message). (ref_or_position (ct_refMap (ds_state result))
      (msg_id message) (cr_startIndex rng + int offset), message)) (enumerate 0 covered)"
  have "resolveCoveredEntries msgs (ds_state result) (ds_block result) = Some entries"
    using wf first final
    by (simp add: resolveCoveredEntries_def rng Let_def covered_def [symmetric] entries_def)
  moreover have "map snd entries = covered"
    by (simp add: entries_def case_prod_unfold comp_def)
  moreover have "map (resolveMessageId (ct_refMap (ds_state result))) (map fst entries) = map Some (map (msg_id \<circ> snd) entries)"
    using resolves by (auto simp: entries_def in_set_enumerate_eq)
  ultimately show ?thesis
    unfolding ref rng covered_def [symmetric]
    by (simp add: resolveCompressionOriginalRange_def isref look rng)
qed

end
