(* ===== verification/ScanLaws.thy ===== *)
theory ScanLaws
  imports CompressionSummaries
begin

text \<open>
  The law the four regular expressions of summary.ts share, as an interface: a match begins with a
  fixed character that does not occur again inside it, and whether and how far it matches is decided
  by the text up to the next line feed, angle bracket or opening parenthesis (\<open>cut\<close>). From the law
  alone, scanning a concatenation is scanning its pieces, and replacing matches is a substitution on
  the tokens of a text.
\<close>

section \<open>How far a match looks\<close>

definition stops :: "jchar \<Rightarrow> bool" where
  "stops c \<longleftrightarrow> c = LF \<or> c = 0x3C \<or> c = 0x3E \<or> c = 0x28"

fun cut_tail :: "jstring \<Rightarrow> jstring" where
  "cut_tail [] = []"
| "cut_tail (c # cs) = (if c = 0x3E then [c] else if stops c then [] else c # cut_tail cs)"

fun cut :: "jstring \<Rightarrow> jstring" where
  "cut [] = []"
| "cut (c # cs) = c # cut_tail cs"

definition breaks :: "jstring \<Rightarrow> bool" where
  "breaks s \<longleftrightarrow> s = [] \<or> hd s = LF \<or> hd s = 0x3C \<or> hd s = 0x28"

lemma cut_tail_breaks: "breaks y \<Longrightarrow> cut_tail y = []"
  by (cases y) (auto simp: breaks_def stops_def LF_def)

lemma cut_tail_append: "breaks y \<Longrightarrow> cut_tail (x @ y) = cut_tail x"
  by (induction x) (auto simp: cut_tail_breaks)

lemma cut_tail_closed: "0x3E \<in> set x \<Longrightarrow> cut_tail (x @ y) = cut_tail x"
  by (induction x) auto

lemma cut_tail_prefix: "\<exists>r. x = cut_tail x @ r"
  by (induction x) auto

lemma cut_prefix: "\<exists>r. x = cut x @ r"
  using cut_tail_prefix by (cases x) auto

text \<open>A literal without a stop inside, and possibly a closing bracket at its end, is found before the cut.\<close>

lemma cut_tail_literal:
  assumes "\<forall>c \<in> set p. \<not> stops c"
  shows "cut_tail (p @ s) = p @ cut_tail s"
  using assms by (induction p) (auto simp: stops_def)

lemma literal_in_cut:
  assumes "\<forall>c \<in> set p. \<not> stops c"
  shows "(\<exists>r. cut_tail s = p @ r) \<longleftrightarrow> (\<exists>r. s = p @ r)"
proof
  assume "\<exists>r. cut_tail s = p @ r"
  then show "\<exists>r. s = p @ r" using cut_tail_prefix [of s] by force
next
  assume "\<exists>r. s = p @ r"
  then show "\<exists>r. cut_tail s = p @ r" using cut_tail_literal [OF assms] by metis
qed

lemma closed_literal_in_cut:
  assumes "\<forall>c \<in> set p. \<not> stops c"
  shows "(\<exists>r. cut_tail s = p @ 0x3E # r) \<longleftrightarrow> (\<exists>r. s = p @ 0x3E # r)"
proof
  assume "\<exists>r. cut_tail s = p @ 0x3E # r"
  then show "\<exists>r. s = p @ 0x3E # r" using cut_tail_prefix [of s] by force
next
  assume "\<exists>r. s = p @ 0x3E # r"
  then show "\<exists>r. cut_tail s = p @ 0x3E # r" using cut_tail_literal [OF assms] by force
qed

section \<open>Tokens\<close>

text \<open>The text as single characters and captures, and the substitution of the captures.\<close>

function lex :: "'a matcher \<Rightarrow> jstring \<Rightarrow> (jchar + 'a) list" where
  "lex m [] = []"
| "lex m (c # cs) =
    (case m (c # cs) of
       Some (n, a) \<Rightarrow> Inr a # lex m (drop (max n 1) (c # cs))
     | None \<Rightarrow> Inl c # lex m cs)"
  by pat_completeness auto
termination
  by (relation "measure (\<lambda>(m, s). length s)") auto

definition subst :: "('a \<Rightarrow> jstring) \<Rightarrow> (jchar + 'a) list \<Rightarrow> jstring" where
  "subst f ts = concat (map (case_sum (\<lambda>c. [c]) f) ts)"

lemma subst_simps [simp]:
  "subst f [] = []" "subst f (Inl c # ts) = c # subst f ts" "subst f (Inr a # ts) = f a @ subst f ts"
  "subst f (us @ ts) = subst f us @ subst f ts"
  by (simp_all add: subst_def)

definition captures :: "(jchar + 'a) list \<Rightarrow> 'a list" where
  "captures ts = concat (map (case_sum (\<lambda>_. []) (\<lambda>a. [a])) ts)"

lemma captures_simps [simp]:
  "captures [] = []" "captures (Inl c # ts) = captures ts" "captures (Inr a # ts) = a # captures ts"
  "captures (us @ ts) = captures us @ captures ts"
  by (simp_all add: captures_def)

lemma replaceAll_lex: "replaceAll m f s = subst f (lex m s)"
  by (induction m s rule: lex.induct) (auto split: option.split)

lemma matchAll_captures: "map (snd \<circ> snd) (matchAll m i s) = captures (lex m s)"
  by (induction m i s rule: matchAll.induct) (auto split: option.split)

text \<open>Two substitutions whose values break agree on how far any match can look.\<close>

lemma cut_subst:
  assumes "\<And>a. a \<in> set (captures ts) \<Longrightarrow> breaks (f a) \<and> breaks (g a) \<and> f a \<noteq> [] \<and> g a \<noteq> []"
  shows "cut_tail (subst f ts) = cut_tail (subst g ts)"
  using assms
proof (induction ts)
  case Nil
  then show ?case by simp
next
  case (Cons t ts)
  show ?case
  proof (cases t)
    case (Inl c)
    with Cons show ?thesis by simp
  next
    case (Inr a)
    with Cons.prems have "breaks (f a @ subst f ts)" "breaks (g a @ subst g ts)"
      by (auto simp: breaks_def)
    with Inr show ?thesis by (simp add: cut_tail_breaks)
  qed
qed

section \<open>Hits, position by position\<close>

fun hits :: "'a matcher \<Rightarrow> nat \<Rightarrow> jstring \<Rightarrow> (nat \<times> nat \<times> 'a) list" where
  "hits m i [] = []"
| "hits m i (c # cs) = (case m (c # cs) of Some (n, a) \<Rightarrow> [(i, n, a)] | None \<Rightarrow> []) @ hits m (Suc i) cs"

definition moved :: "nat \<Rightarrow> nat \<times> nat \<times> 'a \<Rightarrow> nat \<times> nat \<times> 'a" where
  "moved k h = (fst h + k, snd h)"

lemma hits_moved: "hits m (i + k) s = map (moved k) (hits m i s)"
  by (induction s arbitrary: i) (auto simp: moved_def split: option.split simp flip: add_Suc)

locale scanner =
  fixes m :: "'a matcher" and head :: jchar
  assumes headed: "m s = Some (n, a) \<Longrightarrow> \<exists>cs. s = head # cs"
    and looks: "m s = m (cut s)"
    and inside: "m s = Some (n, a) \<Longrightarrow> 1 \<le> n \<and> n \<le> length s \<and> head \<notin> set (tl (take n s))"
    and head_stops: "stops head"
begin

lemma no_head: "head \<noteq> c \<Longrightarrow> m (c # s) = None"
  using headed [of "c # s"] by (cases "m (c # s)") auto

lemma hits_headless: "head \<notin> set x \<Longrightarrow> hits m i (x @ y) = hits m (i + length x) y"
  by (induction x arbitrary: i) (auto simp: no_head)

lemma matchAll_hits: "matchAll m i s = hits m i s"
proof (induction "length s" arbitrary: i s rule: less_induct)
  case less
  show ?case
  proof (cases s)
    case Nil
    then show ?thesis by simp
  next
    case (Cons c cs)
    show ?thesis
    proof (cases "m s")
      case None
      with less Cons show ?thesis by simp
    next
      case (Some p)
      then obtain n a where p: "m s = Some (n, a)" by (cases p) simp
      from inside [OF p] have n: "1 \<le> n" "n \<le> length s" "head \<notin> set (tl (take n s))" by simp_all
      have tl: "tl (take n s) = take (n - 1) cs" using n(1) Cons by (cases n) simp_all
      have "hits m (Suc i) cs = hits m (Suc i) (take (n - 1) cs @ drop (n - 1) cs)" by simp
      also have "\<dots> = hits m (Suc i + length (take (n - 1) cs)) (drop (n - 1) cs)"
        using n(3) unfolding tl by (rule hits_headless)
      also have "\<dots> = hits m (i + n) (drop n s)"
        using n(1,2) Cons by (cases n) (simp_all add: min_def)
      finally show ?thesis
        using less [of "drop n s" "i + n"] p n(1,2) Cons by (simp add: max_def)
    qed
  qed
qed

text \<open>When a match at the end of one text does not look into the next.\<close>

definition parts_at :: "jstring \<Rightarrow> jstring \<Rightarrow> bool" where
  "parts_at x y \<longleftrightarrow> (\<forall>u z. x = u @ z \<and> z \<noteq> [] \<longrightarrow> m (z @ y) = m z)"

lemma parts_at_breaks: "breaks y \<Longrightarrow> parts_at x y"
  unfolding parts_at_def
proof (intro allI impI, elim conjE)
  fix u z :: jstring
  assume "breaks y" "x = u @ z" "z \<noteq> []"
  then have "cut (z @ y) = cut z" by (cases z) (simp_all add: cut_tail_append)
  then show "m (z @ y) = m z" using looks by metis
qed

lemma parts_at_closed:
  assumes "head \<noteq> 0x3E"
  shows "parts_at (x @ [0x3E]) y"
  unfolding parts_at_def
proof (intro allI impI, elim conjE)
  fix u z :: jstring
  assume z: "x @ [0x3E] = u @ z" "z \<noteq> []"
  then have l: "last z = 0x3E" by (metis last_appendR last_snoc)
  show "m (z @ y) = m z"
  proof (cases "tl z = []")
    case True
    with l z(2) have "z = [0x3E]" by (cases z) simp_all
    with assms show ?thesis by (simp add: no_head)
  next
    case False
    with l z(2) have "0x3E \<in> set (tl z)" by (metis last_in_set last_tl)
    then have "cut (z @ y) = cut z" using z(2) by (cases z) (simp_all add: cut_tail_closed)
    then show ?thesis using looks by metis
  qed
qed

lemma parts_at_headless: "head \<notin> set x \<Longrightarrow> parts_at x y"
  unfolding parts_at_def by (auto simp: neq_Nil_conv no_head)

lemma hits_append: "parts_at x y \<Longrightarrow> hits m i (x @ y) = hits m i x @ hits m (i + length x) y"
proof (induction x arbitrary: i)
  case Nil
  then show ?case by simp
next
  case (Cons c x)
  then have "parts_at x y" unfolding parts_at_def by (metis append_Cons)
  moreover have "m (c # x @ y) = m (c # x)"
    using Cons.prems unfolding parts_at_def by (metis append_Cons append_Nil list.distinct(1))
  ultimately show ?case using Cons.IH by (simp split: option.split)
qed

lemma lex_append: "parts_at x y \<Longrightarrow> lex m (x @ y) = lex m x @ lex m y"
proof (induction "length x" arbitrary: x rule: less_induct)
  case less
  show ?case
  proof (cases x)
    case Nil
    then show ?thesis by simp
  next
    case (Cons c cs)
    have here: "m (x @ y) = m x"
      using less.prems Cons unfolding parts_at_def by (metis append_Nil list.distinct(1))
    have rest: "parts_at (drop k x) y" for k
      using less.prems unfolding parts_at_def by (metis append.assoc append_take_drop_id)
    show ?thesis
    proof (cases "m x")
      case None
      with here rest [of 1] less.hyps [of cs] Cons show ?thesis by simp
    next
      case (Some p)
      then obtain n a where p: "m x = Some (n, a)" by (cases p) simp
      with inside have n: "1 \<le> n" "n \<le> length x" by blast+
      from less.hyps [of "drop n x"] rest [of n] n Cons
      have "lex m (drop n x @ y) = lex m (drop n x) @ lex m y" by simp
      moreover have "drop n (c # cs @ y) = drop n x @ y"
        using n(2) drop_append [of n x y] Cons by simp
      ultimately show ?thesis using p here n Cons by (simp add: max_def)
    qed
  qed
qed

lemma lex_headless: "head \<notin> set x \<Longrightarrow> lex m x = map Inl x"
  by (induction x) (auto simp: no_head)

end

end
