(* ===== verification/CompressionScans.thy ===== *)
theory CompressionScans
  imports ScanLaws
begin

text \<open>
  The regular expressions of summary.ts obey the law of \<open>scanner\<close>, and what follows for the text of
  a summary whose placeholders are replaced by child summaries: outside the children the new text
  has no placeholder and no child boundary, and each child contributes its own.
\<close>

section \<open>The matchers\<close>

lemma strip_prefix_own [simp]: "strip_prefix p (p @ r) = Some r" "strip_prefix p p = Some []"
  by (simp_all add: strip_prefix_Some_iff)

lemma block_digits_Some:
  "block_digits s = Some (ref, r) \<longleftrightarrow> s = ref @ r \<and> isBlockRef ref \<and> (r = [] \<or> \<not> is_digit (hd r))"
proof
  assume "block_digits s = Some (ref, r)"
  then obtain cs where s: "s = 0x62 # cs" "takeWhile is_digit cs \<noteq> []" "ref = 0x62 # takeWhile is_digit cs"
      "r = dropWhile is_digit cs"
    by (auto simp: block_digits_def split: list.splits if_splits)
  then show "s = ref @ r \<and> isBlockRef ref \<and> (r = [] \<or> \<not> is_digit (hd r))"
    using hd_dropWhile [of is_digit cs] dropWhile_eq_Nil_conv [of is_digit cs]
    by (auto simp: isBlockRef_def list_all_iff dest: set_takeWhileD)
next
  assume a: "s = ref @ r \<and> isBlockRef ref \<and> (r = [] \<or> \<not> is_digit (hd r))"
  then obtain ds where ref: "ref = 0x62 # ds" "ds \<noteq> []" "list_all is_digit ds"
    by (auto simp: isBlockRef_def split: list.splits)
  with a have "takeWhile is_digit (ds @ r) = ds" "dropWhile is_digit (ds @ r) = r"
    by (auto simp: list_all_iff takeWhile_append2 dropWhile_append2 takeWhile_eq_Nil_iff dropWhile_eq_self_iff)
  with a ref show "block_digits s = Some (ref, r)" by (simp add: block_digits_def)
qed

lemma block_ref_plain: "isBlockRef ref \<Longrightarrow> \<forall>c \<in> set ref. \<not> stops c"
  by (auto simp: isBlockRef_def stops_def list_all_iff is_digit_def LF_def word_le_nat_alt split: list.splits)

lemma match_placeholder_Some:
  "match_placeholder s = Some (n, a) \<longleftrightarrow> (\<exists>r. s = 0x28 # a @ 0x29 # r) \<and> isBlockRef a \<and> n = length a + 2"
proof
  assume "match_placeholder s = Some (n, a)"
  then obtain r r' where "s = 0x28 # r" "block_digits r = Some (a, r')" "\<exists>r''. r' = 0x29 # r''" "n = length a + 2"
    by (auto simp: match_placeholder_def strip_prefix_Some_iff js_def split: option.splits)
  then show "(\<exists>r. s = 0x28 # a @ 0x29 # r) \<and> isBlockRef a \<and> n = length a + 2"
    by (auto simp: block_digits_Some)
next
  assume a: "(\<exists>r. s = 0x28 # a @ 0x29 # r) \<and> isBlockRef a \<and> n = length a + 2"
  then obtain r where "s = 0x28 # a @ 0x29 # r" by blast
  moreover from a have "block_digits (a @ 0x29 # r) = Some (a, 0x29 # r)"
    by (simp add: block_digits_Some is_digit_def)
  ultimately show "match_placeholder s = Some (n, a)"
    using a by (simp add: match_placeholder_def js_def)
qed

lemma match_open_Some:
  "match_open s = Some (n, a) \<longleftrightarrow> (\<exists>r. s = CHILD_SUMMARY_OPEN @ a @ 0x22 # 0x3E # r) \<and> isBlockRef a
     \<and> n = length CHILD_SUMMARY_OPEN + length a + 2"
proof
  assume "match_open s = Some (n, a)"
  then obtain r r' where "s = CHILD_SUMMARY_OPEN @ r" "block_digits r = Some (a, r')"
      "\<exists>r''. r' = 0x22 # 0x3E # r''" "n = length CHILD_SUMMARY_OPEN + length a + 2"
    by (auto simp: match_open_def strip_prefix_Some_iff js_def split: option.splits)
  then show "(\<exists>r. s = CHILD_SUMMARY_OPEN @ a @ 0x22 # 0x3E # r) \<and> isBlockRef a
     \<and> n = length CHILD_SUMMARY_OPEN + length a + 2"
    by (auto simp: block_digits_Some)
next
  assume a: "(\<exists>r. s = CHILD_SUMMARY_OPEN @ a @ 0x22 # 0x3E # r) \<and> isBlockRef a
     \<and> n = length CHILD_SUMMARY_OPEN + length a + 2"
  then obtain r where "s = CHILD_SUMMARY_OPEN @ a @ 0x22 # 0x3E # r" by blast
  moreover from a have "block_digits (a @ 0x22 # 0x3E # r) = Some (a, 0x22 # 0x3E # r)"
    by (simp add: block_digits_Some is_digit_def)
  ultimately show "match_open s = Some (n, a)"
    using a by (simp add: match_open_def js_def)
qed

lemma open_literal: "CHILD_SUMMARY_OPEN = 0x3C # tl CHILD_SUMMARY_OPEN" "\<forall>c \<in> set (tl CHILD_SUMMARY_OPEN). \<not> stops c"
  by (simp_all add: CHILD_SUMMARY_OPEN_def js_def stops_def LF_def)

lemma close_literal: "CHILD_SUMMARY_CLOSE = 0x3C # butlast (tl CHILD_SUMMARY_CLOSE) @ [0x3E]"
    "\<forall>c \<in> set (butlast (tl CHILD_SUMMARY_CLOSE)). \<not> stops c"
  by (simp_all add: CHILD_SUMMARY_CLOSE_def js_def stops_def LF_def)

lemma open_not_close: "CHILD_SUMMARY_OPEN @ u \<noteq> CHILD_SUMMARY_CLOSE @ v"
  by (simp add: CHILD_SUMMARY_OPEN_def CHILD_SUMMARY_CLOSE_def js_def)

lemma match_tag_open:
  "match_tag s = Some (n, Some a) \<longleftrightarrow> (\<exists>r. s = CHILD_SUMMARY_OPEN @ a @ 0x22 # 0x3E # r) \<and> isBlockRef a
     \<and> n = length CHILD_SUMMARY_OPEN + length a + 2"
  unfolding match_open_Some [symmetric] by (auto simp: match_tag_def split: option.splits)

lemma match_tag_close:
  "match_tag s = Some (n, None) \<longleftrightarrow> (\<exists>r. s = CHILD_SUMMARY_CLOSE @ r) \<and> n = length CHILD_SUMMARY_CLOSE"
proof (cases "match_open s")
  case None
  then have "match_tag s = Some (n, None) \<longleftrightarrow> strip_prefix CHILD_SUMMARY_CLOSE s \<noteq> None \<and> n = length CHILD_SUMMARY_CLOSE"
    by (auto simp: match_tag_def split: option.splits)
  moreover have "strip_prefix CHILD_SUMMARY_CLOSE s \<noteq> None \<longleftrightarrow> (\<exists>r. s = CHILD_SUMMARY_CLOSE @ r)"
    by (auto simp: strip_prefix_Some_iff)
  ultimately show ?thesis by simp
next
  case (Some p)
  then obtain k a where "match_open s = Some (k, a)" by (cases p) simp
  then have "\<exists>r. s = CHILD_SUMMARY_OPEN @ r" by (auto simp: match_open_Some)
  with Some show ?thesis using open_not_close by (auto simp: match_tag_def split: prod.splits)
qed

lemma match_reserved_Some:
  "match_reserved lit s = Some (n, u) \<longleftrightarrow> (\<exists>r. s = lit @ r \<and> (r = [] \<or> \<not> is_word (hd r))) \<and> n = length lit"
proof (cases "strip_prefix lit s")
  case None
  then have "\<nexists>r. s = lit @ r" by (metis option.distinct(1) strip_prefix_own(1))
  with None show ?thesis by (simp add: match_reserved_def)
next
  case (Some r)
  then have "s = lit @ r" by (simp add: strip_prefix_Some_iff)
  with Some show ?thesis by (cases r) (auto simp: match_reserved_def)
qed

lemma option_eqI: "(\<And>x. a = Some x \<longleftrightarrow> b = Some x) \<Longrightarrow> a = b"
  by (cases a; cases b) auto

lemma cut_Cons: "(\<exists>r. cut s = c # r \<and> P r) \<longleftrightarrow> (\<exists>r. s = c # r \<and> P (cut_tail r))"
  by (cases s) auto

interpretation placeholders: scanner match_placeholder "0x28"
proof
  fix s :: jstring and n a
  show "match_placeholder s = match_placeholder (cut s)"
  proof (rule option_eqI)
    fix x :: "nat \<times> jstring"
    obtain n a where x: "x = (n, a)" by (cases x)
    show "match_placeholder s = Some x \<longleftrightarrow> match_placeholder (cut s) = Some x"
    proof (cases "isBlockRef a")
      case True
      then have "\<forall>c \<in> set (a @ [0x29]). \<not> stops c"
        using block_ref_plain by (auto simp: stops_def LF_def)
      from literal_in_cut [OF this] show ?thesis
        by (cases s) (auto simp: x match_placeholder_Some)
    qed (simp add: x match_placeholder_Some)
  qed
  show "stops 0x28" by (simp add: stops_def)
  assume m: "match_placeholder s = Some (n, a)"
  then show "\<exists>cs. s = 0x28 # cs" by (auto simp: match_placeholder_Some)
  from m obtain r where s: "s = 0x28 # a @ 0x29 # r" "isBlockRef a" "n = length a + 2"
    by (auto simp: match_placeholder_Some)
  have "0x28 \<notin> set a" using block_ref_plain [OF s(2)] by (auto simp: stops_def)
  with s show "1 \<le> n \<and> n \<le> length s \<and> 0x28 \<notin> set (tl (take n s))" by simp
qed

interpretation tags: scanner match_tag "0x3C"
proof
  fix s :: jstring and n a
  show "match_tag s = match_tag (cut s)"
  proof (rule option_eqI)
    fix x :: "nat \<times> jstring option"
    obtain n t where x: "x = (n, t)" by (cases x)
    show "match_tag s = Some x \<longleftrightarrow> match_tag (cut s) = Some x"
    proof (cases t)
      case None
      have "(\<exists>r. s = CHILD_SUMMARY_CLOSE @ r) \<longleftrightarrow> (\<exists>r. cut s = CHILD_SUMMARY_CLOSE @ r)"
        using closed_literal_in_cut [OF close_literal(2)]
        by (subst (1 2) close_literal(1), cases s) auto
      then show ?thesis by (simp add: x None match_tag_close)
    next
      case (Some a)
      show ?thesis
      proof (cases "isBlockRef a")
        case True
        then have "\<forall>c \<in> set (tl CHILD_SUMMARY_OPEN @ a @ [0x22]). \<not> stops c"
          using block_ref_plain open_literal(2) by (auto simp: stops_def LF_def)
        note cl = closed_literal_in_cut [OF this]
        have "(\<exists>r. s = CHILD_SUMMARY_OPEN @ a @ 0x22 # 0x3E # r)
            \<longleftrightarrow> (\<exists>r. cut s = CHILD_SUMMARY_OPEN @ a @ 0x22 # 0x3E # r)"
          using cl by (subst (1 2) open_literal(1), cases s) auto
        then show ?thesis by (simp add: x Some match_tag_open)
      qed (simp add: x Some match_tag_open)
    qed
  qed
  show "stops 0x3C" by (simp add: stops_def)
  assume m: "match_tag s = Some (n, a)"
  have "(\<exists>cs. s = 0x3C # cs) \<and> 1 \<le> n \<and> n \<le> length s \<and> 0x3C \<notin> set (tl (take n s))"
  proof (cases a)
    case None
    with m obtain r where s: "s = CHILD_SUMMARY_CLOSE @ r" "n = length CHILD_SUMMARY_CLOSE"
      by (auto simp: match_tag_close)
    then show ?thesis by (simp add: CHILD_SUMMARY_CLOSE_def js_def)
  next
    case (Some ref)
    with m obtain r where s: "s = CHILD_SUMMARY_OPEN @ ref @ 0x22 # 0x3E # r" "isBlockRef ref"
        "n = length CHILD_SUMMARY_OPEN + length ref + 2"
      by (auto simp: match_tag_open)
    have "0x3C \<notin> set ref" using block_ref_plain [OF s(2)] by (auto simp: stops_def)
    moreover have "take n s = CHILD_SUMMARY_OPEN @ ref @ [0x22, 0x3E]" by (simp add: s)
    ultimately show ?thesis using s(1) s(3) by (simp add: CHILD_SUMMARY_OPEN_def js_def)
  qed
  then show "\<exists>cs. s = 0x3C # cs" "1 \<le> n \<and> n \<le> length s \<and> 0x3C \<notin> set (tl (take n s))" by blast+
qed

lemma reserved_scanner:
  assumes lit: "lit = 0x3C # lt" "\<forall>c \<in> set lt. \<not> stops c"
  shows "scanner (match_reserved lit) 0x3C"
proof
  fix s :: jstring and n u
  have word: "\<not> is_word c" if "stops c" for c
    using that by (auto simp: stops_def LF_def is_word_def)
  have ends: "cut_tail r = [] \<or> \<not> is_word (hd (cut_tail r)) \<longleftrightarrow> r = [] \<or> \<not> is_word (hd r)" for r
    by (cases r) (auto simp: word stops_def)
  show "match_reserved lit s = match_reserved lit (cut s)"
  proof (rule option_eqI)
    fix x :: "nat \<times> unit"
    have "(\<exists>r. s = lit @ r \<and> (r = [] \<or> \<not> is_word (hd r))) \<longleftrightarrow> (\<exists>r. cut s = lit @ r \<and> (r = [] \<or> \<not> is_word (hd r)))"
    proof (cases "\<exists>r. s = lit @ r")
      case True
      then obtain r where s: "s = lit @ r" ..
      with lit show ?thesis using ends [of r] by (auto simp: cut_tail_literal)
    next
      case False
      with literal_in_cut [OF lit(2)] lit(1) show ?thesis by (cases s) auto
    qed
    then show "match_reserved lit s = Some x \<longleftrightarrow> match_reserved lit (cut s) = Some x"
      by (cases x) (simp add: match_reserved_Some)
  qed
  show "stops 0x3C" by (simp add: stops_def)
  assume m: "match_reserved lit s = Some (n, u)"
  with lit show "\<exists>cs. s = 0x3C # cs" by (auto simp: match_reserved_Some)
  have "0x3C \<notin> set lt" using lit(2) by (auto simp: stops_def)
  with m lit show "1 \<le> n \<and> n \<le> length s \<and> 0x3C \<notin> set (tl (take n s))"
    by (auto simp: match_reserved_Some)
qed

interpretation reserved_opens: scanner "match_reserved RESERVED_OPEN" "0x3C"
  by (rule reserved_scanner [of _ "tl RESERVED_OPEN"]) (simp_all add: RESERVED_OPEN_def js_def stops_def LF_def)

interpretation reserved_closes: scanner "match_reserved RESERVED_CLOSE" "0x3C"
  by (rule reserved_scanner [of _ "tl RESERVED_CLOSE"]) (simp_all add: RESERVED_CLOSE_def js_def stops_def LF_def)

text \<open>A tag is a reserved literal.\<close>

lemma tag_reserved:
  assumes "match_tag s \<noteq> None"
  shows "match_reserved RESERVED_OPEN s \<noteq> None \<or> match_reserved RESERVED_CLOSE s \<noteq> None"
proof -
  from assms obtain n t where m: "match_tag s = Some (n, t)" by auto
  have o: "CHILD_SUMMARY_OPEN = RESERVED_OPEN @ js '' ref=\"''"
    and c: "CHILD_SUMMARY_CLOSE = RESERVED_CLOSE @ js ''>''"
    by (simp_all add: CHILD_SUMMARY_OPEN_def CHILD_SUMMARY_CLOSE_def RESERVED_OPEN_def RESERVED_CLOSE_def js_def)
  show ?thesis
  proof (cases t)
    case None
    with m obtain r where s: "s = RESERVED_CLOSE @ js ''>'' @ r" by (auto simp: match_tag_close c)
    have "\<not> is_word (hd (js ''>'' @ r))" by (simp add: js_def is_word_def)
    then have "match_reserved RESERVED_CLOSE s = Some (length RESERVED_CLOSE, ())"
      unfolding match_reserved_Some using s by blast
    then show ?thesis by simp
  next
    case (Some a)
    with m obtain r where s: "s = RESERVED_OPEN @ js '' ref=\"'' @ r" by (auto simp: match_tag_open o)
    have "\<not> is_word (hd (js '' ref=\"'' @ r))" by (simp add: js_def is_word_def)
    then have "match_reserved RESERVED_OPEN s = Some (length RESERVED_OPEN, ())"
      unfolding match_reserved_Some using s by blast
    then show ?thesis by simp
  qed
qed

end
