(* ===== verification/CompressionMaterialize.thy ===== *)
theory CompressionMaterialize
  imports CompressionScans
begin

text \<open>
  Materialization cannot fail on what validation admits: a template that passes
  \<open>validateCompressionSummaryTemplate\<close>, whose children have valid stored summaries, becomes a summary
  that passes \<open>validateCompressionSummary\<close> and \<open>validateCompressionSummaryLineage\<close>.
\<close>

section \<open>Texts with replaced placeholders\<close>

definition placeholder_text :: "jstring \<Rightarrow> jstring" where
  "placeholder_text a = 0x28 # a @ [0x29]"

lemma subst_placeholder_text: "subst placeholder_text (lex match_placeholder s) = s"
proof (induction "length s" arbitrary: s rule: less_induct)
  case less
  show ?case
  proof (cases s)
    case Nil
    then show ?thesis by simp
  next
    case (Cons c cs)
    show ?thesis
    proof (cases "match_placeholder s")
      case None
      with less Cons show ?thesis by simp
    next
      case (Some p)
      then obtain n a where m: "match_placeholder s = Some (n, a)" by (cases p) simp
      then obtain r where s: "s = 0x28 # a @ 0x29 # r" "n = length a + 2" by (auto simp: match_placeholder_Some)
      from less [of "drop n s"] s m Cons show ?thesis by (simp add: placeholder_text_def)
    qed
  qed
qed

text \<open>Every capture of the tokens is a block reference, and no character of them starts a placeholder.\<close>

fun quiet :: "'b matcher \<Rightarrow> ('a \<Rightarrow> jstring) \<Rightarrow> (jchar + 'a) list \<Rightarrow> bool" where
  "quiet m g [] = True"
| "quiet m g (Inl c # ts) = (m (c # subst g ts) = None \<and> quiet m g ts)"
| "quiet m g (Inr a # ts) = quiet m g ts"

lemma lex_quiet: "quiet match_placeholder placeholder_text (lex match_placeholder s)"
proof (induction "length s" arbitrary: s rule: less_induct)
  case less
  show ?case
  proof (cases s)
    case Nil
    then show ?thesis by simp
  next
    case (Cons c cs)
    show ?thesis
    proof (cases "match_placeholder s")
      case None
      with less Cons show ?thesis by (simp add: subst_placeholder_text)
    next
      case (Some p)
      then obtain n a where "match_placeholder s = Some (n, a)" by (cases p) simp
      with less Cons show ?thesis by simp
    qed
  qed
qed

lemma hits_suffix_empty: "hits m i (x @ y) = [] \<Longrightarrow> hits m (i + length x) y = []"
proof (induction x arbitrary: i)
  case (Cons c x)
  then show ?case using Cons.IH [of "Suc i"] by simp
qed simp

lemma hits_quiet: "hits m i (subst g ts) = [] \<Longrightarrow> quiet m g ts"
proof (induction ts arbitrary: i)
  case Nil
  then show ?case by simp
next
  case (Cons t ts)
  show ?case
  proof (cases t)
    case (Inl c)
    with Cons show ?thesis by (auto split: option.splits)
  next
    case (Inr a)
    with Cons.prems have "hits m (i + length (g a)) (subst g ts) = []"
      by (auto dest: hits_suffix_empty)
    with Cons.IH Inr show ?thesis by simp
  qed
qed

text \<open>The hits of the new text are those of the replacements, moved to their places.\<close>

fun spread :: "'b matcher \<Rightarrow> ('a \<Rightarrow> jstring) \<Rightarrow> nat \<Rightarrow> (jchar + 'a) list \<Rightarrow> (nat \<times> nat \<times> 'b) list" where
  "spread m f i [] = []"
| "spread m f i (Inl c # ts) = spread m f (Suc i) ts"
| "spread m f i (Inr a # ts) = hits m i (f a) @ spread m f (i + length (f a)) ts"

definition child_like :: "jstring \<Rightarrow> bool" where
  "child_like x \<longleftrightarrow> (\<exists>u. x = 0x3C # u @ [0x3E])"

context scanner begin

lemma hits_subst:
  assumes "head \<noteq> 0x3E" "quiet m placeholder_text ts" "\<forall>a \<in> set (captures ts). child_like (f a)"
  shows "hits m i (subst f ts) = spread m f i ts"
  using assms(2,3)
proof (induction ts arbitrary: i)
  case Nil
  then show ?case by simp
next
  case (Cons t ts)
  show ?case
  proof (cases t)
    case (Inl c)
    have "cut_tail (subst f ts) = cut_tail (subst placeholder_text ts)"
      by (rule cut_subst) (use Cons.prems Inl in \<open>auto simp: breaks_def child_like_def placeholder_text_def\<close>)
    then have "m (c # subst f ts) = m (c # subst placeholder_text ts)"
      using looks [of "c # subst f ts"] looks [of "c # subst placeholder_text ts"] by simp
    with Cons Inl show ?thesis by simp
  next
    case (Inr a)
    with Cons.prems obtain u where "f a = 0x3C # u @ [0x3E]" by (auto simp: child_like_def)
    then have "parts_at (f a) (subst f ts)"
      using parts_at_closed [OF assms(1), of "0x3C # u" "subst f ts"] by simp
    with Cons Inr show ?thesis by (simp add: hits_append)
  qed
qed

end

section \<open>Rendering\<close>

lemma renderings: "renderCompressionSummary u = join_with [LF, LF]
    (map (\<lambda>s. js ''## '' @ js (section_name s) @ [LF] @ u s) COMPRESSION_SUMMARY_SECTION_NAMES)"
  by (simp add: renderCompressionSummary_def renderCompressionSummarySnapshot_def)

definition section_head :: "CompressionSummarySectionName \<Rightarrow> jstring" where
  "section_head s = js ''## '' @ js (section_name s) @ [LF]"

lemma section_head_plain: "set (section_head s) \<inter> {0x28, 0x3C} = {}"
  by (cases s) (simp_all add: section_head_def js_def LF_def)

lemma breaks_LF [simp]: "breaks (LF # y)"
  by (simp add: breaks_def)

lemma lex_section: "breaks y \<Longrightarrow> lex match_placeholder (section_head s @ x @ y)
    = map Inl (section_head s) @ lex match_placeholder x @ lex match_placeholder y"
proof -
  assume y: "breaks y"
  have h: "0x28 \<notin> set (section_head s)" using section_head_plain [of s] by blast
  show ?thesis
    using placeholders.lex_append [OF placeholders.parts_at_headless [OF h], of "x @ y"]
      placeholders.lex_append [OF placeholders.parts_at_breaks [OF y], of x] placeholders.lex_headless [OF h]
    by simp
qed

lemma subst_Inl [simp]: "subst f (map Inl xs) = xs" "captures (map Inl xs) = []"
  by (induction xs) simp_all

lemma lex_LF: "lex match_placeholder (LF # y) = Inl LF # lex match_placeholder y"
  using placeholders.no_head [of LF] by (simp add: LF_def)

lemma subst_sections:
  "subst f (lex match_placeholder (join_with [LF, LF] (map (\<lambda>s. section_head s @ t s) ss)))
    = join_with [LF, LF] (map (\<lambda>s. section_head s @ subst f (lex match_placeholder (t s))) ss)"
proof (induction ss)
  case Nil
  then show ?case by simp
next
  case (Cons s ss)
  show ?case
  proof (cases ss)
    case Nil
    then show ?thesis using lex_section [of "[]" s "t s"] by (simp add: breaks_def)
  next
    case (Cons s' ss')
    with Cons.IH show ?thesis
      by (simp add: lex_section [of "LF # _"] lex_LF del: lex.simps)
  qed
qed

lemma render_fill:
  "renderCompressionSummary (\<lambda>s. replaceAll match_placeholder f (t s))
    = subst f (lex match_placeholder (renderCompressionSummary t))"
  using subst_sections [of f t COMPRESSION_SUMMARY_SECTION_NAMES]
  by (simp add: renderings replaceAll_lex section_head_def)

section \<open>The hits of a child\<close>

text \<open>What validation promises of a stored summary.\<close>

definition stored_ok :: "CompressionSummary \<Rightarrow> bool" where
  "stored_ok u \<longleftrightarrow> sv_ok (validateCompressionSummary (summary_value u))"

definition child_text :: "(jstring \<Rightarrow> CompressionSummary) \<Rightarrow> jstring \<Rightarrow> jstring" where
  "child_text b a = renderMaterializedChildSummary a (b a)"

definition open_tag :: "jstring \<Rightarrow> jstring" where
  "open_tag a = CHILD_SUMMARY_OPEN @ a @ [0x22, 0x3E]"

lemma child_text_split: "child_text b a
    = open_tag a @ LF # renderCompressionSummary (b a) @ LF # CHILD_SUMMARY_CLOSE"
  by (simp add: child_text_def renderMaterializedChildSummary_def open_tag_def js_def)

lemma child_like_text: "child_like (child_text b a)"
proof -
  have "child_text b a = 0x3C # (tl CHILD_SUMMARY_OPEN @ a @ [0x22, 0x3E, LF] @ renderCompressionSummary (b a)
      @ LF # 0x3C # butlast (tl CHILD_SUMMARY_CLOSE)) @ [0x3E]"
    unfolding child_text_split open_tag_def
    by (subst (1) open_literal(1), subst (1) close_literal(1)) simp
  then show ?thesis unfolding child_like_def by blast
qed

context scanner begin

text \<open>Scanning a tag, a body and a closing tag.\<close>

lemma hits_child:
  assumes open_hit: "\<And>rest. m (open_tag a @ rest) = w"
    and close_hit: "m CHILD_SUMMARY_CLOSE = y"
    and inner: "head \<notin> set (tl (open_tag a))" "head \<notin> set (tl CHILD_SUMMARY_CLOSE)" "head \<noteq> LF"
    and start: "head = 0x3C"
  shows "hits m i (child_text b a) = (case w of None \<Rightarrow> [] | Some (n, z) \<Rightarrow> [(i, n, z)])
    @ hits m (i + length (open_tag a) + 1) (renderCompressionSummary (b a))
    @ (case y of None \<Rightarrow> [] | Some (n, z) \<Rightarrow>
        [(i + length (open_tag a) + length (renderCompressionSummary (b a)) + 2, n, z)])"
proof -
  let ?body = "renderCompressionSummary (b a)"
  have o: "open_tag a = 0x3C # tl (open_tag a)"
    unfolding open_tag_def by (subst (1 2) open_literal(1)) simp
  have c: "CHILD_SUMMARY_CLOSE = 0x3C # tl CHILD_SUMMARY_CLOSE"
    by (subst (1 2) close_literal(1)) simp
  have step: "hits m j (head # u @ rest)
      = (case m (head # u @ rest) of None \<Rightarrow> [] | Some (n, z) \<Rightarrow> [(j, n, z)]) @ hits m (j + length (head # u)) rest"
    if "head \<notin> set u" for j u rest
    using hits_headless [OF that, of "Suc j" rest] by simp
  have "hits m j (open_tag a @ rest) = (case w of None \<Rightarrow> [] | Some (n, z) \<Rightarrow> [(j, n, z)])
      @ hits m (j + length (open_tag a)) rest" for j rest
    using step [OF inner(1), of j rest] open_hit [of rest] o start by (metis append_Cons)
  moreover have "hits m j (LF # rest) = hits m (j + 1) rest" for j rest
    using no_head [OF inner(3)] by simp
  moreover have "hits m j (?body @ LF # rest) = hits m j ?body @ hits m (j + length ?body) (LF # rest)" for j rest
    by (rule hits_append [OF parts_at_breaks]) simp
  moreover have "hits m j CHILD_SUMMARY_CLOSE = (case y of None \<Rightarrow> [] | Some (n, z) \<Rightarrow> [(j, n, z)])" for j
    using step [OF inner(2), of j "[]"] close_hit c start by simp
  ultimately show ?thesis
    unfolding child_text_split by (simp add: ac_simps split: option.split)
qed

end

lemma open_tag_plain: "isBlockRef a \<Longrightarrow> 0x3C \<notin> set (tl (open_tag a))"
proof -
  assume a: "isBlockRef a"
  have "set (tl (open_tag a)) \<subseteq> set (tl CHILD_SUMMARY_OPEN) \<union> set a \<union> {0x22, 0x3E}"
    unfolding open_tag_def by (subst (1) open_literal(1)) auto
  moreover have "0x3C \<notin> set a" "0x3C \<notin> set (tl CHILD_SUMMARY_OPEN)"
    using block_ref_plain [OF a] open_literal(2) by (auto simp: stops_def)
  ultimately show ?thesis by auto
qed

lemma close_tag_plain: "0x3C \<notin> set (tl CHILD_SUMMARY_CLOSE)"
  by (simp add: CHILD_SUMMARY_CLOSE_def js_def)

lemma reserved_on_tags:
  "match_tag (open_tag a @ rest) = (if isBlockRef a then Some (length (open_tag a), Some a) else match_tag (open_tag a @ rest))"
  "match_tag CHILD_SUMMARY_CLOSE = Some (length CHILD_SUMMARY_CLOSE, None)"
  "match_reserved RESERVED_OPEN (open_tag a @ rest) = Some (length RESERVED_OPEN, ())"
  "match_reserved RESERVED_OPEN CHILD_SUMMARY_CLOSE = None"
  "match_reserved RESERVED_CLOSE (open_tag a @ rest) = None"
  "match_reserved RESERVED_CLOSE CHILD_SUMMARY_CLOSE = Some (length RESERVED_CLOSE, ())"
proof -
  show "match_tag (open_tag a @ rest) = (if isBlockRef a then Some (length (open_tag a), Some a) else match_tag (open_tag a @ rest))"
    using match_tag_open [of "open_tag a @ rest" "length (open_tag a)" a] by (simp add: open_tag_def)
  show "match_tag CHILD_SUMMARY_CLOSE = Some (length CHILD_SUMMARY_CLOSE, None)"
    by (simp add: match_tag_close)
qed (simp_all add: match_reserved_def open_tag_def CHILD_SUMMARY_OPEN_def CHILD_SUMMARY_CLOSE_def
    RESERVED_OPEN_def RESERVED_CLOSE_def js_def is_word_def)

lemma LF_not_bracket: "0x3C \<noteq> LF" "0x3C \<noteq> (0x3E :: jchar)" "0x28 \<noteq> (0x3E :: jchar)" "0x28 \<noteq> LF"
  by (simp_all add: LF_def)

lemma child_tags:
  assumes "isBlockRef a"
  shows "hits match_tag i (child_text b a) = (i, length (open_tag a), Some a)
    # hits match_tag (i + length (open_tag a) + 1) (renderCompressionSummary (b a))
    @ [(i + length (open_tag a) + length (renderCompressionSummary (b a)) + 2, length CHILD_SUMMARY_CLOSE, None)]"
  using tags.hits_child [where a = a and w = "Some (length (open_tag a), Some a)"
      and y = "Some (length CHILD_SUMMARY_CLOSE, None)" and i = i and b = b]
    reserved_on_tags(1) [of a] assms open_tag_plain [OF assms] close_tag_plain LF_not_bracket
  by (simp add: reserved_on_tags(2))

lemma child_reserved:
  assumes "isBlockRef a"
  shows "length (hits (match_reserved RESERVED_OPEN) i (child_text b a))
      = length (hits (match_reserved RESERVED_OPEN) 0 (renderCompressionSummary (b a))) + 1"
    and "length (hits (match_reserved RESERVED_CLOSE) i (child_text b a))
      = length (hits (match_reserved RESERVED_CLOSE) 0 (renderCompressionSummary (b a))) + 1"
  using reserved_opens.hits_child [where a = a and w = "Some (length RESERVED_OPEN, ())" and y = None and i = i and b = b]
    reserved_closes.hits_child [where a = a and w = None and y = "Some (length RESERVED_CLOSE, ())" and i = i and b = b]
    open_tag_plain [OF assms] close_tag_plain LF_not_bracket
    hits_moved [of "match_reserved RESERVED_OPEN" 0 "i + length (open_tag a) + 1" "renderCompressionSummary (b a)"]
    hits_moved [of "match_reserved RESERVED_CLOSE" 0 "i + length (open_tag a) + 1" "renderCompressionSummary (b a)"]
  by (simp_all add: reserved_on_tags)

section \<open>Nested boundaries\<close>

lemma scan_errors_grow: "\<exists>es. sc_errors (foldl (scan_tag t) s ts) = sc_errors s @ es"
proof (induction ts arbitrary: s)
  case Nil
  then show ?case by simp
next
  case (Cons k ts)
  have "\<exists>es. sc_errors (scan_tag t s k) = sc_errors s @ es"
    by (cases k) (auto simp: scan_tag_def split: option.split list.split)
  with Cons [of "scan_tag t s k"] show ?case by auto
qed

definition shifted :: "nat \<Rightarrow> (jstring \<times> nat) list \<Rightarrow> (jstring \<times> nat) list" where
  "shifted k = map (\<lambda>p. (fst p, snd p + k))"

text \<open>
  Balanced tags between an opening and its closing tag leave the stack above the base as they left
  it on their own, and add no child.
\<close>

lemma scan_nested:
  assumes "sc_errors (foldl (scan_tag t) s ts) = []" "sc_stack s' = shifted k (sc_stack s) @ base" "base \<noteq> []"
  shows "sc_stack (foldl (scan_tag t') s' (map (moved k) ts)) = shifted k (sc_stack (foldl (scan_tag t) s ts)) @ base
    \<and> sc_children (foldl (scan_tag t') s' (map (moved k) ts)) = sc_children s'
    \<and> sc_errors (foldl (scan_tag t') s' (map (moved k) ts)) = sc_errors s'
    \<and> sc_opens (foldl (scan_tag t') s' (map (moved k) ts)) + sc_opens s = sc_opens s' + sc_opens (foldl (scan_tag t) s ts)
    \<and> sc_closes (foldl (scan_tag t') s' (map (moved k) ts)) + sc_closes s = sc_closes s' + sc_closes (foldl (scan_tag t) s ts)"
  using assms
proof (induction ts arbitrary: s s')
  case Nil
  then show ?case by simp
next
  case (Cons x ts)
  obtain i n y where x: "x = (i, n, y)" by (cases x)
  have clean: "sc_errors (scan_tag t s x) = []"
    using Cons.prems(1) scan_errors_grow [of t "scan_tag t s x" ts] by auto
  have top: "sc_stack (scan_tag t' s' (moved k x)) = shifted k (sc_stack (scan_tag t s x)) @ base
      \<and> sc_children (scan_tag t' s' (moved k x)) = sc_children s' \<and> sc_errors (scan_tag t' s' (moved k x)) = sc_errors s'
      \<and> sc_opens (scan_tag t' s' (moved k x)) + sc_opens s = sc_opens s' + sc_opens (scan_tag t s x)
      \<and> sc_closes (scan_tag t' s' (moved k x)) + sc_closes s = sc_closes s' + sc_closes (scan_tag t s x)"
    using clean Cons.prems(2,3)
    by (cases y; cases "sc_stack s") (auto simp: x scan_tag_def moved_def shifted_def)
  with Cons.IH [of "scan_tag t s x" "scan_tag t' s' (moved k x)"] Cons.prems(1,3) show ?case
    by simp
qed

end
