(* ===== verification/CompressionTotal.thy ===== *)
theory CompressionTotal
  imports CompressionMaterialize
begin

text \<open>
  The consequence for the operations: a valid template with valid children materializes, and its
  lineage is accepted. Every summary the engine stores is valid, so neither check ever fails after
  the template was admitted.
\<close>

section \<open>Valid summaries\<close>

lemma set_section_names: "set COMPRESSION_SUMMARY_SECTION_NAMES = UNIV"
proof -
  have "s \<in> set COMPRESSION_SUMMARY_SECTION_NAMES" for s
    by (cases s) (simp_all add: COMPRESSION_SUMMARY_SECTION_NAMES_def)
  then show ?thesis by blast
qed

lemma section_lookup:
  "map_of (map (\<lambda>s. (js (section_name s), JsString (u s))) COMPRESSION_SUMMARY_SECTION_NAMES) (js (section_name s))
    = Some (JsString (u s))"
  by (cases s) (simp_all add: COMPRESSION_SUMMARY_SECTION_NAMES_def)

lemma parse_own:
  "parseCompressionSummary (summary_value u) = Inr v \<longleftrightarrow> v = u \<and> (\<forall>s. u s \<noteq> [])"
proof -
  have missing: "missing_section (map (\<lambda>s. (js (section_name s), JsString (u s))) COMPRESSION_SUMMARY_SECTION_NAMES) s
      \<longleftrightarrow> u s = []" for s
    by (simp add: missing_section_def section_lookup)
  have own: "sections_of (map (\<lambda>s. (js (section_name s), JsString (u s))) COMPRESSION_SUMMARY_SECTION_NAMES) = u"
    by (rule ext) (simp add: sections_of_def section_lookup)
  show ?thesis
    by (auto simp: parseCompressionSummary_def summary_value_def validateSections_def as_summary_def
        missing own Let_def filter_empty_conv set_section_names comp_def)
qed

lemma stored_ok_iff:
  "stored_ok u \<longleftrightarrow> (\<forall>s. u s \<noteq> []) \<and> (\<forall>s. \<not> has_block_ref (u s))
    \<and> snd (parseMaterializedChildSummaries (renderCompressionSummary u)) = []"
proof (cases "\<forall>s. u s \<noteq> []")
  case True
  then have "parseCompressionSummary (summary_value u) = Inr u" by (simp add: parse_own)
  with True show ?thesis
    by (auto simp: stored_ok_def validateCompressionSummary_def sv_failed_def sv_result_def
        isMaterializedCompressionSummarySnapshot_def list_all_iff set_section_names split: list.split)
next
  case False
  then obtain errors where "parseCompressionSummary (summary_value u) = Inl errors"
    using parse_own [of u] by (cases "parseCompressionSummary (summary_value u)") auto
  with False show ?thesis by (auto simp: stored_ok_def validateCompressionSummary_def sv_failed_def)
qed

lemma digits_then_close_iff: "digits_then_close seen cs \<longleftrightarrow>
    (seen \<or> takeWhile is_digit cs \<noteq> []) \<and> (\<exists>r. dropWhile is_digit cs = 0x29 # r)"
  by (induction seen cs rule: digits_then_close.induct) (auto simp: is_digit_def)

lemma block_ref_at_iff: "block_ref_at s \<longleftrightarrow> match_placeholder s \<noteq> None"
proof
  assume "block_ref_at s"
  then obtain cs where s: "s = 0x28 # 0x62 # cs" and d: "digits_then_close False cs"
    by (cases s rule: block_ref_at.cases) auto
  from d obtain r where r: "takeWhile is_digit cs \<noteq> []" "dropWhile is_digit cs = 0x29 # r"
    by (auto simp: digits_then_close_iff)
  have "isBlockRef (0x62 # takeWhile is_digit cs)"
    using r(1) by (auto simp: isBlockRef_def list_all_iff dest: set_takeWhileD)
  moreover have "s = 0x28 # (0x62 # takeWhile is_digit cs) @ 0x29 # r"
    unfolding s r(2) [symmetric] by simp
  ultimately show "match_placeholder s \<noteq> None"
    using match_placeholder_Some by blast
next
  assume "match_placeholder s \<noteq> None"
  then obtain n a r where s: "s = 0x28 # a @ 0x29 # r" "isBlockRef a"
    by (auto simp: match_placeholder_Some)
  then obtain ds where a: "a = 0x62 # ds" "ds \<noteq> []" "list_all is_digit ds"
    by (auto simp: isBlockRef_def split: list.splits)
  have "takeWhile is_digit (ds @ 0x29 # r) = ds" "dropWhile is_digit (ds @ 0x29 # r) = 0x29 # r"
    using a(3) by (simp_all add: list_all_iff takeWhile_append2 dropWhile_append2 is_digit_def)
  with s(1) a show "block_ref_at s" by (simp add: digits_then_close_iff)
qed

lemma no_captures_iff: "captures (lex match_placeholder s) = [] \<longleftrightarrow> hits match_placeholder 0 s = []"
  using matchAll_captures [of match_placeholder 0 s] placeholders.matchAll_hits [of 0 s]
  by (metis Nil_is_map_conv)

lemma has_block_ref_iff: "has_block_ref s \<longleftrightarrow> captures (lex match_placeholder s) \<noteq> []"
proof -
  have "has_block_ref s \<longleftrightarrow> hits match_placeholder i s \<noteq> []" for i
    by (induction s arbitrary: i) (auto simp: block_ref_at_iff split: option.splits)
  then show ?thesis by (simp add: no_captures_iff)
qed

lemma captures_sections:
  "captures (lex match_placeholder (join_with [LF, LF] (map (\<lambda>s. section_head s @ t s) ss)))
    = concat (map (\<lambda>s. captures (lex match_placeholder (t s))) ss)"
proof (induction ss)
  case Nil
  then show ?case by simp
next
  case (Cons s ss)
  show ?case
  proof (cases ss)
    case Nil
    then show ?thesis using lex_section [of "[]" s "t s"] by (simp add: breaks_def)
  next
    case (Cons s' ss')
    with Cons.IH show ?thesis
      by (simp add: lex_section [of "LF # _"] lex_LF del: lex.simps)
  qed
qed

lemma captures_render:
  "captures (lex match_placeholder (renderCompressionSummary t))
    = concat (map (\<lambda>s. captures (lex match_placeholder (t s))) COMPRESSION_SUMMARY_SECTION_NAMES)"
  using captures_sections [of t COMPRESSION_SUMMARY_SECTION_NAMES]
  by (simp add: renderings section_head_def)

lemma child_no_placeholder:
  assumes "stored_ok (b a)" "isBlockRef a"
  shows "hits match_placeholder i (child_text b a) = []"
proof -
  let ?R = "renderCompressionSummary (b a)"
  have "captures (lex match_placeholder ?R) = []"
    using assms(1) by (auto simp: captures_render stored_ok_iff has_block_ref_iff)
  moreover have plain: "0x28 \<notin> set (open_tag a)" "0x28 \<notin> set CHILD_SUMMARY_CLOSE"
    using block_ref_plain [OF assms(2)]
    by (auto simp: open_tag_def CHILD_SUMMARY_OPEN_def CHILD_SUMMARY_CLOSE_def js_def stops_def)
  ultimately have "captures (lex match_placeholder (child_text b a)) = []"
    unfolding child_text_split
    by (simp add: placeholders.lex_append [OF placeholders.parts_at_headless [OF plain(1)]]
        placeholders.lex_append [OF placeholders.parts_at_breaks] placeholders.lex_headless [OF plain(1)]
        placeholders.lex_headless [OF plain(2)] lex_LF del: lex.simps)
  then have "hits match_placeholder 0 (child_text b a) = []" by (simp add: no_captures_iff)
  then show ?thesis using hits_moved [of match_placeholder 0 i "child_text b a"] by simp
qed

section \<open>Scanning the children\<close>

lemma stored_scan:
  assumes "stored_ok u"
  shows "sc_stack (foldl (scan_tag (renderCompressionSummary u)) empty_scan (hits match_tag 0 (renderCompressionSummary u))) = []
    \<and> sc_errors (foldl (scan_tag (renderCompressionSummary u)) empty_scan (hits match_tag 0 (renderCompressionSummary u))) = []
    \<and> sc_opens (foldl (scan_tag (renderCompressionSummary u)) empty_scan (hits match_tag 0 (renderCompressionSummary u)))
        = length (hits (match_reserved RESERVED_OPEN) 0 (renderCompressionSummary u))
    \<and> sc_closes (foldl (scan_tag (renderCompressionSummary u)) empty_scan (hits match_tag 0 (renderCompressionSummary u)))
        = length (hits (match_reserved RESERVED_CLOSE) 0 (renderCompressionSummary u))"
  using assms
  by (simp add: stored_ok_iff parseMaterializedChildSummaries_def Let_def tags.matchAll_hits
      reserved_opens.matchAll_hits reserved_closes.matchAll_hits split: if_splits)

definition scanned :: "child_scan \<Rightarrow> MaterializedChildSummary list \<Rightarrow> nat \<Rightarrow> nat \<Rightarrow> child_scan" where
  "scanned s cs o_count c_count = s\<lparr>sc_children := sc_children s @ cs, sc_opens := sc_opens s + o_count,
     sc_closes := sc_closes s + c_count\<rparr>"

definition child_entry :: "(jstring \<Rightarrow> CompressionSummary) \<Rightarrow> jstring \<Rightarrow> MaterializedChildSummary" where
  "child_entry b a = \<lparr> mc_ref = a, mc_rendered = child_text b a \<rparr>"

lemma empty_scan_simps: "sc_stack empty_scan = []" "sc_opens empty_scan = 0" "sc_closes empty_scan = 0"
    "sc_errors empty_scan = []" "sc_children empty_scan = []"
  by (simp_all add: empty_scan_def)

lemma scan_child:
  assumes "stored_ok (b a)" "isBlockRef a" "sc_stack s = []"
    and here: "take (length (child_text b a)) (drop i full) = child_text b a"
  shows "foldl (scan_tag full) s (hits match_tag i (child_text b a))
    = scanned s [child_entry b a] (length (hits (match_reserved RESERVED_OPEN) i (child_text b a)))
        (length (hits (match_reserved RESERVED_CLOSE) i (child_text b a)))"
proof -
  let ?R = "renderCompressionSummary (b a)"
  define k where "k = i + length (open_tag a) + 1"
  define s1 where "s1 = scan_tag full s (i, length (open_tag a), Some a)"
  define s2 where "s2 = foldl (scan_tag full) s1 (map (moved k) (hits match_tag 0 ?R))"
  note own = stored_scan [OF assms(1)]
  have s1: "s1 = s\<lparr>sc_opens := sc_opens s + 1, sc_stack := [(a, i)]\<rparr>"
    using assms(3) by (simp add: s1_def scan_tag_def)
  have "sc_stack s1 = shifted k (sc_stack empty_scan) @ [(a, i)]"
    by (simp add: s1 shifted_def empty_scan_simps)
  from scan_nested [OF conjunct1 [OF conjunct2 [OF own]] this, where t' = full]
  have s2: "s2 = s1\<lparr>sc_opens := sc_opens s1 + length (hits (match_reserved RESERVED_OPEN) 0 ?R),
      sc_closes := sc_closes s1 + length (hits (match_reserved RESERVED_CLOSE) 0 ?R)\<rparr>"
    using own unfolding s2_def [symmetric]
    by (intro child_scan.equality) (simp_all add: s1 empty_scan_simps shifted_def)
  have len: "length (child_text b a) = length (open_tag a) + length ?R + 2 + length CHILD_SUMMARY_CLOSE"
    by (simp add: child_text_split)
  have "hits match_tag k ?R = map (moved k) (hits match_tag 0 ?R)"
    using hits_moved [of match_tag 0 k ?R] by simp
  then have "foldl (scan_tag full) s (hits match_tag i (child_text b a))
      = scan_tag full s2 (i + length (open_tag a) + length ?R + 2, length CHILD_SUMMARY_CLOSE, None)"
    unfolding child_tags [OF assms(2)] s2_def s1_def k_def [symmetric] by simp
  also have "\<dots> = scanned s [child_entry b a] (length (hits (match_reserved RESERVED_OPEN) i (child_text b a)))
        (length (hits (match_reserved RESERVED_CLOSE) i (child_text b a)))"
    using here assms(3) unfolding child_reserved [OF assms(2)] len
    by (intro child_scan.equality)
      (simp_all add: s2 s1 scan_tag_def scanned_def child_entry_def add.assoc)
  finally show ?thesis .
qed

lemma scan_spread:
  assumes "sc_stack s = []" "\<forall>a \<in> set (captures ts). stored_ok (b a) \<and> isBlockRef a"
    and "drop i full = subst (child_text b) ts"
  shows "foldl (scan_tag full) s (spread match_tag (child_text b) i ts)
    = scanned s (map (child_entry b) (captures ts))
        (length (spread (match_reserved RESERVED_OPEN) (child_text b) i ts))
        (length (spread (match_reserved RESERVED_CLOSE) (child_text b) i ts))"
  using assms
proof (induction ts arbitrary: i s)
  case Nil
  then show ?case by (simp add: scanned_def)
next
  case (Cons t ts)
  show ?case
  proof (cases t)
    case (Inl c)
    with Cons.prems(3) have "drop (Suc i) full = subst (child_text b) ts"
      by (metis drop_Suc list.sel(3) subst_simps(2) tl_drop)
    with Cons Inl show ?thesis by simp
  next
    case (Inr a)
    with Cons.prems have child: "stored_ok (b a)" "isBlockRef a"
      and full: "drop i full = child_text b a @ subst (child_text b) ts" by simp_all
    from full have here: "take (length (child_text b a)) (drop i full) = child_text b a" by simp
    have rest: "drop (i + length (child_text b a)) full = subst (child_text b) ts"
      by (metis add.commute append_eq_conv_conj drop_drop full)
    let ?s = "scanned s [child_entry b a] (length (hits (match_reserved RESERVED_OPEN) i (child_text b a)))
        (length (hits (match_reserved RESERVED_CLOSE) i (child_text b a)))"
    have "sc_stack ?s = []" using Cons.prems(1) by (simp add: scanned_def)
    from Cons.IH [OF this _ rest] Cons.prems(2) scan_child [OF child Cons.prems(1) here] Inr show ?thesis
      by (simp add: scanned_def)
  qed
qed

section \<open>Materialization\<close>

lemma captures_block_refs: "\<forall>a \<in> set (captures (lex match_placeholder s)). isBlockRef a"
proof (induction "length s" arbitrary: s rule: less_induct)
  case less
  show ?case
  proof (cases s)
    case Nil
    then show ?thesis by simp
  next
    case (Cons c cs)
    show ?thesis
    proof (cases "match_placeholder s")
      case None
      with less [of cs] Cons show ?thesis by simp
    next
      case (Some p)
      then obtain n a where m: "match_placeholder s = Some (n, a)" by (cases p) simp
      then have "isBlockRef a" by (simp add: match_placeholder_Some)
      moreover have "length (drop (max n 1) s) < length s" using Cons by simp
      ultimately show ?thesis using less [of "drop (max n 1) s"] m Cons by simp
    qed
  qed
qed

lemma spread_nil: "(\<And>a i. a \<in> set (captures ts) \<Longrightarrow> hits m i (f a) = []) \<Longrightarrow> spread m f i ts = []"
proof (induction ts arbitrary: i)
  case (Cons t ts)
  then show ?case by (cases t) simp_all
qed simp

lemma subst_cong: "(\<And>a. a \<in> set (captures ts) \<Longrightarrow> f a = g a) \<Longrightarrow> subst f ts = subst g ts"
  by (induction ts) (auto simp: subst_def captures_def split: sum.splits)

text \<open>The text of a template with every placeholder replaced by a valid child.\<close>

lemma filled_template:
  assumes clean: "hits (match_reserved RESERVED_OPEN) 0 (renderCompressionSummary t) = []"
      "hits (match_reserved RESERVED_CLOSE) 0 (renderCompressionSummary t) = []"
    and full: "\<forall>s. t s \<noteq> []"
    and refs: "\<forall>a \<in> set (captures (lex match_placeholder (renderCompressionSummary t))). stored_ok (b a)"
  defines "u \<equiv> (\<lambda>s. replaceAll match_placeholder (child_text b) (t s))"
  shows "stored_ok u \<and> fst (parseMaterializedChildSummaries (renderCompressionSummary u))
    = map (child_entry b) (captures (lex match_placeholder (renderCompressionSummary t)))"
proof -
  let ?ts = "lex match_placeholder (renderCompressionSummary t)"
  have children: "\<forall>a \<in> set (captures ?ts). stored_ok (b a) \<and> isBlockRef a"
    using refs captures_block_refs by blast
  have like: "child_like (child_text b a)" for a by (rule child_like_text)
  have R: "renderCompressionSummary u = subst (child_text b) ?ts"
    unfolding u_def by (rule render_fill)
  have quiet_open: "quiet (match_reserved RESERVED_OPEN) placeholder_text ?ts"
    and quiet_close: "quiet (match_reserved RESERVED_CLOSE) placeholder_text ?ts"
    by (rule hits_quiet [where i = 0], simp add: subst_placeholder_text clean)+
  have quiet_tag: "quiet match_tag placeholder_text ts"
    if "quiet (match_reserved RESERVED_OPEN) placeholder_text ts" "quiet (match_reserved RESERVED_CLOSE) placeholder_text ts" for ts
    using that
  proof (induction ts)
    case (Cons x ts)
    then show ?case using tag_reserved [of "_ # subst placeholder_text ts"] by (cases x) fastforce+
  qed simp
  have hits: "hits match_tag 0 (renderCompressionSummary u) = spread match_tag (child_text b) 0 ?ts"
    "hits (match_reserved RESERVED_OPEN) 0 (renderCompressionSummary u) = spread (match_reserved RESERVED_OPEN) (child_text b) 0 ?ts"
    "hits (match_reserved RESERVED_CLOSE) 0 (renderCompressionSummary u) = spread (match_reserved RESERVED_CLOSE) (child_text b) 0 ?ts"
    unfolding R
    by (intro tags.hits_subst reserved_opens.hits_subst reserved_closes.hits_subst ballI LF_not_bracket(2)
        quiet_open quiet_close quiet_tag like)+
  have scan: "foldl (scan_tag (renderCompressionSummary u)) empty_scan (hits match_tag 0 (renderCompressionSummary u))
    = scanned empty_scan (map (child_entry b) (captures ?ts))
        (length (hits (match_reserved RESERVED_OPEN) 0 (renderCompressionSummary u)))
        (length (hits (match_reserved RESERVED_CLOSE) 0 (renderCompressionSummary u)))"
    unfolding hits by (rule scan_spread) (use children in \<open>simp_all add: empty_scan_simps R\<close>)
  have parsed: "parseMaterializedChildSummaries (renderCompressionSummary u) = (map (child_entry b) (captures ?ts), [])"
    by (simp add: parseMaterializedChildSummaries_def Let_def tags.matchAll_hits reserved_opens.matchAll_hits
        reserved_closes.matchAll_hits scan) (simp add: scanned_def empty_scan_simps)
  have part: "captures (lex match_placeholder (t s)) \<noteq> [] \<Longrightarrow>
      set (captures (lex match_placeholder (t s))) \<subseteq> set (captures ?ts)" for s
    by (auto simp: captures_render set_section_names)
  have "\<not> has_block_ref (u s)" for s
  proof -
    have "hits match_placeholder 0 (u s) = spread match_placeholder (child_text b) 0 (lex match_placeholder (t s))"
      unfolding u_def replaceAll_lex
      by (intro placeholders.hits_subst ballI LF_not_bracket(3) lex_quiet like)
    also have "\<dots> = []"
      by (rule spread_nil, rule child_no_placeholder) (use children part [of s] in fastforce)+
    finally show ?thesis by (simp add: has_block_ref_iff no_captures_iff)
  qed
  moreover have "u s \<noteq> []" for s
  proof -
    from full have "lex match_placeholder (t s) \<noteq> []" by (cases "t s") (auto split: option.split)
    moreover have "child_text b a \<noteq> []" for a using like [of a] by (auto simp: child_like_def)
    ultimately show ?thesis unfolding u_def replaceAll_lex
      by (cases "lex match_placeholder (t s)"; cases "hd (lex match_placeholder (t s))") simp_all
  qed
  ultimately have "stored_ok u" by (simp add: stored_ok_iff parsed)
  with parsed show ?thesis by simp
qed

lemma materializes:
  assumes valid: "sv_ok (validateCompressionSummaryTemplate (summary_value template) refs)"
    and distinct: "distinct refs"
    and stored: "\<forall>r \<in> set refs. \<exists>block. map_of blocks r = Some block
        \<and> sv_ok (validateCompressionSummary (summary_value (bk_summary block)))"
  shows "\<exists>summary. materializeCompressionSummaryTemplate template refs blocks = Inr summary
    \<and> sv_ok (validateCompressionSummary (summary_value summary))
    \<and> sv_ok (validateCompressionSummaryLineage (summary_value summary) refs blocks)"
proof -
  define b where "b r = bk_summary (the (map_of blocks r))" for r
  let ?P = "captures (lex match_placeholder (renderCompressionSummary template))"
  have full: "\<forall>s. template s \<noteq> []"
    using valid parse_own [of template]
    by (cases "parseCompressionSummary (summary_value template)")
      (auto simp: validateCompressionSummaryTemplate_def sv_failed_def)
  then have parse: "parseCompressionSummary (summary_value template) = Inr template" by (simp add: parse_own)
  have clean: "hits (match_reserved RESERVED_OPEN) 0 (renderCompressionSummary template) = []"
      "hits (match_reserved RESERVED_CLOSE) 0 (renderCompressionSummary template) = []"
    and placed: "placeholder_errors ?P refs = []"
    using valid by (auto simp: validateCompressionSummaryTemplate_def parse Let_def sv_failed_def sv_result_def
        reserved_opens.matchAll_hits reserved_closes.matchAll_hits extractBlockPlaceholders_def matchAll_captures
        split: if_splits)
  have known: "set ?P \<subseteq> set refs" and once: "\<forall>r \<in> set refs. length (filter (\<lambda>p. p = r) ?P) = 1"
    using placed by (auto simp: placeholder_errors_def filter_empty_conv)
  have ok: "stored_ok (b r)" if "r \<in> set refs" for r
    using stored that by (auto simp: b_def stored_ok_def)
  define u where "u s = replaceAll match_placeholder (child_text b) (template s)" for s
  from filled_template [OF clean full] ok known
  have u: "stored_ok u" "fst (parseMaterializedChildSummaries (renderCompressionSummary u)) = map (child_entry b) ?P"
    unfolding u_def by blast+
  have parse_u: "parseCompressionSummary (summary_value u) = Inr u" and no_errors: "snd (parseMaterializedChildSummaries (renderCompressionSummary u)) = []"
    using u(1) by (simp_all add: stored_ok_iff parse_own)
  have kids: "mapE (child_summary blocks) refs = Inr (map (\<lambda>r. (r, child_text b r)) refs)"
    by (rule mapE_Inr) (use stored in \<open>fastforce simp: child_summary_def child_text_def b_def\<close>)
  have look: "map_of (map (\<lambda>r. (r, child_text b r)) refs) a = (if a \<in> set refs then Some (child_text b a) else None)" for a
    by (induction refs) auto
  have fill: "fill_section (map (\<lambda>r. (r, child_text b r)) refs) (template s) = u s" for s
    unfolding fill_section_def u_def replaceAll_lex
    by (rule subst_cong) (use known in \<open>auto simp: look captures_render set_section_names\<close>)
  have entries: "length (entries_of (map (child_entry b) ?P) r) = 1
      \<and> mc_rendered (hd (entries_of (map (child_entry b) ?P) r)) = child_text b r" if "r \<in> set refs" for r
  proof -
    have "entries_of (map (child_entry b) ?P) r = map (child_entry b) (filter (\<lambda>p. p = r) ?P)"
      by (simp add: entries_of_def filter_map comp_def child_entry_def)
    moreover have "length (filter (\<lambda>p. p = r) ?P) = 1" using once that by blast
    then obtain q where q: "filter (\<lambda>p. p = r) ?P = [q]" by (auto simp: length_Suc_conv)
    moreover from q have "q = r" by (metis (mono_tags) filter_set list.set_intros(1) mem_Collect_eq set_filter)
    ultimately show ?thesis by (simp add: child_entry_def)
  qed
  have no_child_error: "child_error (map (child_entry b) ?P) blocks r = []" if "r \<in> set refs" for r
    using entries [OF that] stored that by (fastforce simp: Let_def child_text_def b_def)
  have lineage: "sv_ok (validateCompressionSummaryLineage (summary_value u) refs blocks)"
    using u known by (auto simp: validateCompressionSummaryLineage_def stored_ok_def parse_u no_errors Let_def
        sv_result_def distinct no_child_error child_entry_def filter_empty_conv simp del: child_error.simps)
  have "materializeCompressionSummaryTemplate template refs blocks = Inr u"
    using valid u(1) lineage
    by (simp add: materializeCompressionSummaryTemplate_def Let_def kids fill assertValidCompressionSummary_def
        assertValidCompressionSummaryLineage_def stored_ok_def)
  with u(1) lineage show ?thesis by (simp add: stored_ok_def)
qed

text \<open>
  A template that passes validation materializes. When the required children are distinct blocks
  with valid stored summaries, replacing the placeholders gives a summary that itself passes the
  validation of stored summaries, with every child embedded exactly once and unchanged.
\<close>

theorem valid_template_materializes:
  assumes valid: "sv_ok (validateCompressionSummaryTemplate (summary_value template) refs)"
    and distinct: "distinct refs"
    and stored: "\<forall>r \<in> set refs. \<exists>block. map_of blocks r = Some block
        \<and> sv_ok (validateCompressionSummary (summary_value (bk_summary block)))"
  shows "\<exists>summary. materializeCompressionSummaryTemplate template refs blocks = Inr summary
    \<and> sv_ok (validateCompressionSummary (summary_value summary))
    \<and> sv_ok (validateCompressionSummaryLineage (summary_value summary) refs blocks)"
  using assms by (rule materializes)

end
