(* ===== verification/CompressionLiveness.thy ===== *)
theory CompressionLiveness
  imports CompressionEngine CompressionTotal
begin

text \<open>
  When a compression request succeeds: exactly the checks a caller can see decide it. Once the range
  resolves, the summary template is valid, nothing in the range is protected and every active block
  the range meets lies inside it, materialization and commit cannot fail.
\<close>

section \<open>Stored summaries stay valid\<close>

definition summaries_ok :: "CompressionState \<Rightarrow> bool" where
  "summaries_ok st \<longleftrightarrow> (\<forall>r b. map_of (ct_blocksByRef st) r = Some b \<longrightarrow> stored_ok (bk_summary b))"

lemma valid_draft_summary:
  assumes "validateCompressionBlockDraft st draft = Inr ()"
  shows "stored_ok (dt_summary draft)"
proof -
  from assms have "sv_ok (validateCompressionSummaryLineage (summary_value (dt_summary draft))
      (dt_childBlockRefs draft) (ct_blocksByRef st))"
    by (auto simp: validateCompressionBlockDraft_def assertValidCompressionSummaryLineage_def bindE_Inr_iff
        Let_def split: if_splits)
  then show ?thesis
    by (auto simp: validateCompressionSummaryLineage_def stored_ok_def Let_def split: if_splits)
qed

lemma commit_keeps_summaries:
  assumes "summaries_ok st" "commitCompressionBlock st draft = Inr st'"
  shows "summaries_ok st'"
proof -
  obtain refMap ref where v: "validateCompressionBlockDraft st draft = Inr ()"
    and d: "ct_blocksByRef st' = AList.update ref (committed_block draft ref)
       (supersede_children (dt_childBlockRefs draft) ref (dt_createdAt draft) (ct_blocksByRef st))"
    by (rule commit_cases [OF assms(2)])
  show ?thesis
    unfolding summaries_ok_def commit_lookup_block [OF d]
    using assms(1) valid_draft_summary [OF v] by (auto simp: summaries_ok_def split: if_splits)
qed

section \<open>Templates\<close>

lemma parsed_sections:
  assumes "parseCompressionSummary v = Inr t"
  shows "parseCompressionSummary (summary_value t) = Inr t"
proof -
  from assms obtain ps where "validateSections (map_of ps (js ''sections'')) = []" and t: "t = as_summary ps"
    by (auto simp: parseCompressionSummary_def Let_def split: option.splits if_splits)
  then obtain sections where "map_of ps (js ''sections'') = Some (JsObject sections)"
    "\<forall>s. \<not> missing_section sections s"
    by (auto simp: validateSections_def bind_eq_Some_conv filter_empty_conv set_section_names
        elim!: as_record.elims split: option.splits)
  moreover have "sections_of sections s \<noteq> []" if "\<not> missing_section sections s" for s
    using that by (auto simp: sections_of_def missing_section_def split: option.splits jsvalue.splits)
  ultimately have "t s \<noteq> []" for s
    unfolding t by (simp add: as_summary_def)
  then show ?thesis by (simp add: parse_own)
qed

lemma admitted_template:
  assumes "validateDynamicCompressionSummary v refs = Inr t"
  shows "sv_ok (validateCompressionSummaryTemplate (summary_value t) refs)"
proof -
  from assms have ok: "sv_ok (validateCompressionSummaryTemplate v refs)"
    and t: "t = (case as_record v of None \<Rightarrow> (\<lambda>_. []) | Some ps \<Rightarrow> as_summary ps)"
    by (auto simp: validateDynamicCompressionSummary_def Let_def split: if_splits)
  from ok obtain u where u: "parseCompressionSummary v = Inr u"
    by (cases "parseCompressionSummary v") (auto simp: validateCompressionSummaryTemplate_def sv_failed_def)
  then have "u = t"
    unfolding t by (auto simp: parseCompressionSummary_def Let_def split: option.splits if_splits)
  with u parsed_sections [OF u] ok show ?thesis
    by (simp add: validateCompressionSummaryTemplate_def)
qed

section \<open>Commits of nested ranges\<close>

definition nests_active :: "CompressionState \<Rightarrow> CompressionRange \<Rightarrow> bool" where
  "nests_active st rng \<longleftrightarrow> (\<forall>r \<in> set (ct_activeBlockRefs st). case map_of (ct_blocksByRef st) r of
       None \<Rightarrow> True
     | Some b \<Rightarrow> \<not> rangesOverlap rng (bk_range b) \<or> rangeContains rng (bk_range b))"

lemma distinct_active: "compression_ok st \<Longrightarrow> distinct (ct_activeBlockRefs st)"
proof -
  assume ok: "compression_ok st"
  have "block_refs_with BlockActive d = map fst (filter (\<lambda>p. bk_status (snd p) = BlockActive) d)"
    if "\<forall>p \<in> set d. bk_ref (snd p) = fst p" for d
    using that by (induction d) (auto simp: block_refs_with_def)
  moreover have "\<forall>p \<in> set (ct_blocksByRef st). bk_ref (snd p) = fst p"
    using ok by (auto simp: compression_ok_def)
  moreover have "ct_activeBlockRefs st = block_refs_with BlockActive (ct_blocksByRef st)"
    "distinct (map fst (ct_blocksByRef st))"
    using ok by (simp_all add: compression_ok_def)
  ultimately show ?thesis by (simp add: distinct_map_filter)
qed

lemma mapE_unit: "(\<And>x. x \<in> set xs \<Longrightarrow> f x = Inr ()) \<Longrightarrow> \<exists>us. mapE f xs = Inr us"
  using mapE_Inr [of xs f "\<lambda>_. ()"] by blast

lemma nested_draft_valid:
  assumes ok: "compression_ok st" and nested: "nests_active st (dt_range draft)"
    and children: "dt_childBlockRefs draft = activeChildRefsContainedByRange st (dt_range draft)"
    and lineage: "sv_ok (validateCompressionSummaryLineage (summary_value (dt_summary draft))
      (dt_childBlockRefs draft) (ct_blocksByRef st))"
  shows "validateCompressionBlockDraft st draft = Inr ()"
proof -
  have child: "validate_child st draft r = Inr ()" if "r \<in> set (dt_childBlockRefs draft)" for r
  proof -
    from that obtain b where "r \<in> set (ct_activeBlockRefs st)" "map_of (ct_blocksByRef st) r = Some b"
      "rangeContains (dt_range draft) (bk_range b)"
      by (auto simp: children activeChildRefsContainedByRange_def rangeContains_def split: option.splits)
    moreover from this have "bk_status b = BlockActive" using active_refs_iff [OF ok, of r] by simp
    ultimately show ?thesis by (simp add: validate_child_def)
  qed
  have active: "validate_active st draft r = Inr ()" if r: "r \<in> set (ct_activeBlockRefs st)" for r
  proof (cases "map_of (ct_blocksByRef st) r")
    case None
    then show ?thesis by (simp add: validate_active_def)
  next
    case (Some b)
    with nested r have "\<not> rangesOverlap (dt_range draft) (bk_range b) \<or> rangeContains (dt_range draft) (bk_range b)"
      by (auto simp: nests_active_def)
    with Some r show ?thesis
      by (auto simp: validate_active_def children activeChildRefsContainedByRange_def rangesPartiallyOverlap_def
          rangesOverlapOrContain_def rangesOverlap_def rangeContains_def)
  qed
  have "distinct (dt_childBlockRefs draft)"
    using distinct_active [OF ok] by (simp add: children activeChildRefsContainedByRange_def)
  moreover obtain us where "mapE (validate_child st draft) (dt_childBlockRefs draft) = Inr us"
    using mapE_unit [of "dt_childBlockRefs draft" "validate_child st draft"] child by blast
  moreover obtain vs where "mapE (validate_active st draft) (ct_activeBlockRefs st) = Inr vs"
    using mapE_unit [of "ct_activeBlockRefs st" "validate_active st draft"] active by blast
  ultimately show ?thesis
    using lineage by (simp add: validateCompressionBlockDraft_def assertValidCompressionSummaryLineage_def Let_def)
qed

lemma committed_active:
  assumes "compression_ok st" "commitCompressionBlock st draft = Inr st'"
  shows "Option.bind (at_last (ct_activeBlockRefs st')) (map_of (ct_blocksByRef st')) \<noteq> None"
proof -
  obtain refMap ref where
    d: "ct_blocksByRef st' = AList.update ref (committed_block draft ref)
       (supersede_children (dt_childBlockRefs draft) ref (dt_createdAt draft) (ct_blocksByRef st))"
    by (rule commit_cases [OF assms(2)])
  note ok = commit_keeps_ok [OF assms]
  have "ref \<in> set (ct_activeBlockRefs st')"
    using commit_lookup_block [OF d, of ref] by (simp add: active_refs_iff [OF ok])
  then have "ct_activeBlockRefs st' \<noteq> []" by auto
  then have "last (ct_activeBlockRefs st') \<in> set (ct_activeBlockRefs st')" by simp
  then show ?thesis
    unfolding active_refs_iff [OF ok] using \<open>ct_activeBlockRefs st' \<noteq> []\<close> by (auto simp: at_last_def)
qed

lemma request_succeeds:
  assumes ok: "compression_ok (current_state current)" and summaries: "summaries_ok (current_state current)"
    and range_ok: "resolveCompressionRange msgs (current_state current) (di_startId input) (di_endId input) = Inr resolved"
    and template_ok: "validateDynamicCompressionSummary (di_summary input) (rr_requiredChildRefs resolved) = Inr template"
    and free: "collectProtectedRefsForRange msgs (rr_range resolved) = []"
    and nested: "nests_active (current_state current) (rr_range resolved)"
  shows "\<exists>result. prepareDynamicRangeCompression lc msgs current input now uuid = Inr result
    \<and> summaries_ok (ds_state result)"
proof -
  define st where "st = current_state current"
  define st' where "st' = st\<lparr>ct_refMap := rr_refMap resolved\<rparr>"
  note wf = resolved_range [OF range_ok, folded st_def]
  have ok': "compression_ok st'"
    using ok buildMessageRefMap_facts [of "ct_refMap st" "map msg_id msgs"] wf
    by (auto simp: st'_def st_def compression_ok_def)
  have kids: "rr_requiredChildRefs resolved = activeChildRefsContainedByRange st (rr_range resolved)"
    using wf by simp
  have stored: "\<exists>block. map_of (ct_blocksByRef st) r = Some block
      \<and> sv_ok (validateCompressionSummary (summary_value (bk_summary block)))"
    if "r \<in> set (rr_requiredChildRefs resolved)" for r
    using that summaries unfolding kids
    by (auto simp: activeChildRefsContainedByRange_def summaries_ok_def stored_ok_def st_def split: option.splits)
  have "distinct (rr_requiredChildRefs resolved)"
    using distinct_active [of st] ok by (simp add: kids activeChildRefsContainedByRange_def st_def)
  from materializes [OF admitted_template [OF template_ok] this, of "ct_blocksByRef st"] stored
  obtain summary where m: "materializeCompressionSummaryTemplate template (rr_requiredChildRefs resolved)
      (ct_blocksByRef st) = Inr summary"
    and lineage: "sv_ok (validateCompressionSummaryLineage (summary_value summary) (rr_requiredChildRefs resolved)
      (ct_blocksByRef st))" by blast
  define draft where "draft = dynamic_draft msgs st resolved summary now uuid"
  have "validateCompressionBlockDraft st' draft = Inr ()"
    using nested lineage
    by (intro nested_draft_valid [OF ok'])
      (simp_all add: draft_def dynamic_draft_def st'_def kids nests_active_def activeChildRefsContainedByRange_def st_def)
  then obtain next_state where c: "commitCompressionBlock st' draft = Inr next_state"
    by (cases "ensureBlockRef (ct_refMap st') (dt_canonicalBlockId draft)") (simp add: commitCompressionBlock_def Let_def)
  from committed_active [OF ok' c] obtain block where
    b: "Option.bind (at_last (ct_activeBlockRefs next_state)) (map_of (ct_blocksByRef next_state)) = Some block"
    by blast
  have "\<exists>result. prepareDynamicRangeCompression lc msgs current input now uuid = Inr result
      \<and> ds_state result = next_state"
    unfolding prepareDynamicRangeCompression_def current_state_def [symmetric]
    using range_ok template_ok free m c b
    by (simp add: Let_def st_def [symmetric] st'_def draft_def)
  moreover have "summaries_ok st'" using summaries by (simp add: st'_def st_def summaries_ok_def)
  ultimately show ?thesis using commit_keeps_summaries [OF _ c] by blast
qed

text \<open>
  C38: a request that passes the visible checks succeeds. With a consistent state whose stored
  summaries are valid, a range that resolves, a valid template, no protected content and no active
  block that crosses the range, the request is committed; and the stored summaries stay valid.
\<close>

theorem compression_request_succeeds:
  assumes ok: "compression_ok (current_state current)" and summaries: "summaries_ok (current_state current)"
    and range_ok: "resolveCompressionRange msgs (current_state current) (di_startId input) (di_endId input) = Inr resolved"
    and template_ok: "validateDynamicCompressionSummary (di_summary input) (rr_requiredChildRefs resolved) = Inr template"
    and free: "collectProtectedRefsForRange msgs (rr_range resolved) = []"
    and nested: "nests_active (current_state current) (rr_range resolved)"
  shows "\<exists>result. prepareDynamicRangeCompression lc msgs current input now uuid = Inr result
    \<and> summaries_ok (ds_state result)"
  using assms by (rule request_succeeds)

end
