(* ===== verification/CompressionWitnesses.thy ===== *)
theory CompressionWitnesses
  imports CompressionLiveness
begin

text \<open>
  The compression properties at a concrete transcript: six messages of which a request compresses the
  first two, and a later block that takes the first as its child. Summaries without markup are valid
  by the scanning laws, so no long text is scanned here.
\<close>

section \<open>Summaries without markup\<close>

lemma set_join_with: "set (join_with sep xs) \<subseteq> set sep \<union> \<Union> (set ` set xs)"
  by (induction sep xs rule: join_with.induct) auto

lemma render_no_bracket:
  assumes "\<forall>s. 0x3C \<notin> set (u s)"
  shows "0x3C \<notin> set (renderCompressionSummary u)"
proof -
  have "0x3C \<notin> set (section_head s @ u s)" for s
    using assms section_head_plain [of s] by auto
  moreover have "renderCompressionSummary u = join_with [LF, LF] (map (\<lambda>s. section_head s @ u s) COMPRESSION_SUMMARY_SECTION_NAMES)"
    by (simp add: renderings section_head_def)
  ultimately show ?thesis
    using set_join_with [of "[LF, LF]" "map (\<lambda>s. section_head s @ u s) COMPRESSION_SUMMARY_SECTION_NAMES"]
    by (auto simp: LF_def)
qed

lemma no_bracket_hits:
  assumes "0x3C \<notin> set r"
  shows "hits match_tag i r = []" "hits (match_reserved RESERVED_OPEN) i r = []"
    "hits (match_reserved RESERVED_CLOSE) i r = []"
  using tags.hits_headless [OF assms, of i "[]"] reserved_opens.hits_headless [OF assms, of i "[]"]
    reserved_closes.hits_headless [OF assms, of i "[]"] by simp_all

lemma plain_stored_ok:
  assumes "\<forall>s. u s \<noteq> [] \<and> 0x28 \<notin> set (u s) \<and> 0x3C \<notin> set (u s)"
  shows "stored_ok u"
proof -
  have "0x3C \<notin> set (renderCompressionSummary u)" using assms by (intro render_no_bracket) simp
  from no_bracket_hits [OF this] have "snd (parseMaterializedChildSummaries (renderCompressionSummary u)) = []"
    by (simp add: parseMaterializedChildSummaries_def Let_def tags.matchAll_hits reserved_opens.matchAll_hits
        reserved_closes.matchAll_hits empty_scan_simps)
  moreover have "\<not> has_block_ref (u s)" for s
    using assms by (simp add: has_block_ref_iff placeholders.lex_headless)
  ultimately show ?thesis using assms by (simp add: stored_ok_iff)
qed

lemma plain_template_ok:
  assumes "\<forall>s. t s \<noteq> [] \<and> 0x3C \<notin> set (t s)"
    and "placeholder_errors (concat (map (\<lambda>s. captures (lex match_placeholder (t s))) COMPRESSION_SUMMARY_SECTION_NAMES)) refs = []"
  shows "sv_ok (validateCompressionSummaryTemplate (summary_value t) refs)"
proof -
  have "0x3C \<notin> set (renderCompressionSummary t)" using assms by (intro render_no_bracket) simp
  moreover have "parseCompressionSummary (summary_value t) = Inr t" using assms(1) by (simp add: parse_own)
  ultimately show ?thesis
    using no_bracket_hits [of "renderCompressionSummary t"] assms(2)
    by (simp add: validateCompressionSummaryTemplate_def Let_def sv_result_def extractBlockPlaceholders_def
        matchAll_captures captures_render reserved_opens.matchAll_hits reserved_closes.matchAll_hits)
qed

section \<open>An example\<close>

definition plain_summary :: CompressionSummary where
  "plain_summary = (\<lambda>_. js ''x'')"

definition ex_user :: "string \<Rightarrow> SessionMessage" where
  "ex_user i = UserMessage \<lparr> um_id = js i, um_createdAt = 1, um_completedAt = Some 1, um_executionId = None,
     um_runOrdinal = None, um_clientRequestId = None, um_inputSource = None, um_parentAgentProvenance = None,
     um_compacted = None, um_parts = [], um_modelAudit = None \<rparr>"

definition ex_transcript :: "SessionMessage list" where
  "ex_transcript = map ex_user [''a'', ''b'', ''c'', ''d'', ''e'', ''f'']"

definition ex_template :: CompressionSummary where
  "ex_template = (\<lambda>s. if s = ChildBlockRefs then js ''see (b1)'' else js ''y'')"

lemma plain_summary_ok: "stored_ok plain_summary"
  by (rule plain_stored_ok) (simp add: plain_summary_def js_def)

lemma ex_template_ok: "sv_ok (validateCompressionSummaryTemplate (summary_value ex_template) [js ''b1''])"
proof (rule plain_template_ok)
  show "\<forall>s. ex_template s \<noteq> [] \<and> 0x3C \<notin> set (ex_template s)"
    by (simp add: ex_template_def js_def)
  show "placeholder_errors (concat (map (\<lambda>s. captures (lex match_placeholder (ex_template s))) COMPRESSION_SUMMARY_SECTION_NAMES)) [js ''b1''] = []"
    by code_simp
qed

definition ex_refs :: CompressionRefMap where
  "ex_refs = buildMessageRefMap (map msg_id ex_transcript) createEmptyCompressionRefMap"

definition ex_resolved :: ResolvedCompressionRange where
  "ex_resolved = \<lparr> rr_range = \<lparr> cr_startMessageId = js ''a'', cr_endMessageId = js ''b'', cr_startRef = js ''m0001'',
     cr_endRef = js ''m0002'', cr_startIndex = 0, cr_endIndex = 1 \<rparr>, rr_refMap = ex_refs, rr_requiredChildRefs = [] \<rparr>"

lemma ex_boundaries:
  "isMessageRef (js ''m0001'')" "isMessageRef (js ''m0002'')"
  "resolveMessageId ex_refs (js ''m0001'') = Some (js ''a'')" "resolveMessageId ex_refs (js ''m0002'') = Some (js ''b'')"
  "find_index (\<lambda>m. msg_id m = js ''a'') ex_transcript = Some 0"
  "find_index (\<lambda>m. msg_id m = js ''b'') ex_transcript = Some 1"
  "map_of (crm_messageRefsById ex_refs) (js ''a'') = Some (js ''m0001'')"
  "map_of (crm_messageRefsById ex_refs) (js ''b'') = Some (js ''m0002'')"
  by code_simp+

lemma ex_range: "resolveCompressionRange ex_transcript createEmptyCompressionState (js ''m0001'') (js ''m0002'') = Inr ex_resolved"
  by (simp add: resolveCompressionRange_def resolveBoundaryRef_def ex_boundaries Let_def createEmptyCompressionState_def
      ex_refs_def [symmetric] js_at_def ref_or_position_def ex_resolved_def activeChildRefsContainedByRange_def)
    (simp add: ex_transcript_def ex_user_def ref_or_position_def ex_boundaries)

lemma ex_unprotected: "collectProtectedRefsForRange ex_transcript (rr_range ex_resolved) = []"
  by code_simp

definition ex_request :: DynamicRangeCompressionInput where
  "ex_request = \<lparr> di_startId = js ''m0001'', di_endId = js ''m0002'', di_summary = summary_value plain_summary \<rparr>"

lemma ex_admitted: "validateDynamicCompressionSummary (di_summary ex_request) [] = Inr plain_summary"
proof -
  have "sv_ok (validateCompressionSummaryTemplate (summary_value plain_summary) [])"
    by (rule plain_template_ok) (simp_all add: plain_summary_def js_def placeholders.lex_headless del: lex.simps add: COMPRESSION_SUMMARY_SECTION_NAMES_def placeholder_errors_def js_unique_def)
  moreover have "parseCompressionSummary (summary_value plain_summary) = Inr plain_summary"
    by (simp add: parse_own) (simp add: plain_summary_def)
  ultimately show ?thesis
    by (auto simp: validateDynamicCompressionSummary_def ex_request_def parseCompressionSummary_def Let_def split: option.splits if_splits)
qed

definition ex_uuid :: "nat \<Rightarrow> jstring" where
  "ex_uuid n = js ''u'' @ decimal (int n)"

lemma ex_start: "current_state None = createEmptyCompressionState"
  by (simp add: current_state_def)

lemma ex_summaries: "summaries_ok createEmptyCompressionState"
  by (simp add: summaries_ok_def createEmptyCompressionState_def)

lemma ex_success: "\<exists>result. prepareDynamicRangeCompression lc ex_transcript None ex_request 7 ex_uuid = Inr result"
  using request_succeeds [of None ex_transcript ex_request ex_resolved plain_summary lc 7 ex_uuid]
    ex_range ex_admitted ex_unprotected compression_ok_empty ex_summaries
  by (auto simp: ex_start ex_request_def ex_resolved_def nests_active_def createEmptyCompressionState_def)

section \<open>Witnesses\<close>

theorem message_refs_resolve_witness:
  "ref_map_ok ex_refs \<and> resolveMessageId ex_refs (js ''m0001'') = Some (js ''a'')"
  using message_refs_resolve [OF ref_map_ok_empty, of "map msg_id ex_transcript"] ex_boundaries(3)
  by (simp add: ex_refs_def Let_def)

lemma ex_unused: "map_of (crm_blockRefsById (ct_refMap createEmptyCompressionState)) i = None"
  by (simp add: createEmptyCompressionState_def createEmptyCompressionRefMap_def)

theorem compression_spares_live_content_witness:
  "\<exists>result. prepareDynamicRangeCompression (\<lambda>_ _. 0) ex_transcript None ex_request 7 ex_uuid = Inr result
    \<and> cr_endIndex (bk_range (ds_block result)) < 4"
proof -
  obtain result where r: "prepareDynamicRangeCompression (\<lambda>_ _. 0) ex_transcript None ex_request 7 ex_uuid = Inr result"
    using ex_success by blast
  with compression_spares_live_content [of None ex_uuid "\<lambda>_ _. 0" ex_transcript ex_request 7 result]
  show ?thesis by (simp add: ex_start compression_ok_empty ex_unused ex_transcript_def)
qed

theorem compressed_range_is_restorable_witness:
  "\<exists>result original. prepareDynamicRangeCompression (\<lambda>_ _. 0) ex_transcript None ex_request 7 ex_uuid = Inr result
    \<and> resolveCompressionOriginalRange ex_transcript (ds_state result) (bk_ref (ds_block result)) = OriginalRange original
    \<and> og_blockId original = bk_id (ds_block result)"
proof -
  obtain result where r: "prepareDynamicRangeCompression (\<lambda>_ _. 0) ex_transcript None ex_request 7 ex_uuid = Inr result"
    using ex_success by blast
  with compressed_range_is_restorable [of None ex_uuid "\<lambda>_ _. 0" ex_transcript ex_request 7 result]
  show ?thesis by (auto simp: ex_start compression_ok_empty ex_unused)
qed

theorem compression_request_keeps_state_ok_witness:
  "\<exists>result. prepareDynamicRangeCompression (\<lambda>_ _. 0) ex_transcript None ex_request 7 ex_uuid = Inr result
    \<and> compression_ok (ds_state result)"
proof -
  obtain result where r: "prepareDynamicRangeCompression (\<lambda>_ _. 0) ex_transcript None ex_request 7 ex_uuid = Inr result"
    using ex_success by blast
  with compression_request_keeps_state_ok [of None "\<lambda>_ _. 0" ex_transcript ex_request 7 ex_uuid]
  show ?thesis by (simp add: ex_start compression_ok_empty)
qed

theorem compression_request_succeeds_witness:
  "\<exists>result. prepareDynamicRangeCompression (\<lambda>_ _. 0) ex_transcript None ex_request 7 ex_uuid = Inr result
    \<and> summaries_ok (ds_state result)"
  using compression_request_succeeds [of None ex_transcript ex_request ex_resolved plain_summary "\<lambda>_ _. 0" 7 ex_uuid]
    ex_range ex_admitted ex_unprotected compression_ok_empty ex_summaries
  by (simp add: ex_start ex_request_def ex_resolved_def nests_active_def createEmptyCompressionState_def)

theorem valid_template_materializes_witness:
  "\<exists>summary. materializeCompressionSummaryTemplate ex_template [js ''b1'']
      [(js ''b1'', committed_block (dynamic_draft ex_transcript createEmptyCompressionState ex_resolved plain_summary 7 ex_uuid)
        (js ''b1''))] = Inr summary
    \<and> sv_ok (validateCompressionSummary (summary_value summary))"
  using valid_template_materializes [OF ex_template_ok, of "[(js ''b1'', committed_block
      (dynamic_draft ex_transcript createEmptyCompressionState ex_resolved plain_summary 7 ex_uuid) (js ''b1''))]"]
    plain_summary_ok
  by (auto simp: stored_ok_def dynamic_draft_def)

text \<open>A state with one active block, and a wider draft that takes it as a child.\<close>

definition first_draft :: CompressionBlockDraft where
  "first_draft = dynamic_draft ex_transcript createEmptyCompressionState ex_resolved plain_summary 7 ex_uuid"

definition ex_active :: CompressionState where
  "ex_active = (case commitCompressionBlock createEmptyCompressionState first_draft of
     Inr st \<Rightarrow> st | Inl _ \<Rightarrow> createEmptyCompressionState)"

lemma ex_ref: "ensureBlockRef createEmptyCompressionRefMap (js ''u1'') =
    (createEmptyCompressionRefMap\<lparr>crm_blockRefsById := [(js ''u1'', js ''b1'')], crm_blockIdsByRef := [(js ''b1'', js ''u1'')],
       crm_nextBlockIndex := 2\<rparr>, js ''b1'')"
proof -
  have "formatBlockRef 1 = js ''b1''" by code_simp
  then show ?thesis
    by (simp add: ensureBlockRef_def createEmptyCompressionRefMap_def truthy_ref_def Let_def)
qed

lemma first_commit: "commitCompressionBlock createEmptyCompressionState first_draft = Inr ex_active"
proof -
  have "0x3C \<notin> set (renderCompressionSummary plain_summary)"
    by (rule render_no_bracket) (simp add: plain_summary_def js_def)
  from no_bracket_hits [OF this] have "parseMaterializedChildSummaries (renderCompressionSummary plain_summary) = ([], [])"
    by (simp add: parseMaterializedChildSummaries_def Let_def tags.matchAll_hits reserved_opens.matchAll_hits
        reserved_closes.matchAll_hits empty_scan_simps)
  moreover have "parseCompressionSummary (summary_value plain_summary) = Inr plain_summary"
    by (simp add: parse_own) (simp add: plain_summary_def)
  ultimately have "sv_ok (validateCompressionSummaryLineage (summary_value plain_summary) [] [])"
    using plain_summary_ok by (simp add: validateCompressionSummaryLineage_def stored_ok_def sv_result_def)
  then have "validateCompressionBlockDraft createEmptyCompressionState first_draft = Inr ()"
    by (intro nested_draft_valid [OF compression_ok_empty])
      (simp_all add: first_draft_def dynamic_draft_def ex_resolved_def nests_active_def createEmptyCompressionState_def
        activeChildRefsContainedByRange_def)
  then show ?thesis
    by (simp add: ex_active_def commitCompressionBlock_def Let_def split: prod.split)
qed

lemma ex_uuid_1: "ex_uuid (Suc 0) = js ''u1''"
  by code_simp

lemma ex_active_ok: "compression_ok ex_active" and ex_active_summaries: "summaries_ok ex_active"
  using commit_keeps_ok [OF compression_ok_empty first_commit] commit_keeps_summaries [OF ex_summaries first_commit]
  by blast+

lemma ex_active_fields:
  "ct_blocksByRef ex_active = [(js ''b1'', committed_block first_draft (js ''b1''))]"
  "ct_activeBlockRefs ex_active = [js ''b1'']"
  "crm_blockRefsById (ct_refMap ex_active) = [(js ''u1'', js ''b1'')]"
proof -
  obtain refMap ref where e: "ensureBlockRef (ct_refMap createEmptyCompressionState) (dt_canonicalBlockId first_draft) = (refMap, ref)"
    and m: "ct_refMap ex_active = refMap"
    and d: "ct_blocksByRef ex_active = AList.update ref (committed_block first_draft ref)
       (supersede_children (dt_childBlockRefs first_draft) ref (dt_createdAt first_draft) (ct_blocksByRef createEmptyCompressionState))"
    and n: "normalizeCompressionState ex_active = ex_active"
    by (rule commit_cases [OF first_commit])
  have "(refMap, ref) = (createEmptyCompressionRefMap\<lparr>crm_blockRefsById := [(js ''u1'', js ''b1'')], crm_blockIdsByRef := [(js ''b1'', js ''u1'')],
       crm_nextBlockIndex := 2\<rparr>, js ''b1'')"
    using e ex_ref by (auto simp: createEmptyCompressionState_def first_draft_def dynamic_draft_def ex_uuid_1)
  then have r: "ref = js ''b1''" "crm_blockRefsById refMap = [(js ''u1'', js ''b1'')]" by simp_all
  from d show b: "ct_blocksByRef ex_active = [(js ''b1'', committed_block first_draft (js ''b1''))]"
    by (simp add: r createEmptyCompressionState_def supersede_children_def)
  show "ct_activeBlockRefs ex_active = [js ''b1'']"
    by (subst n [symmetric]) (simp add: normalizeCompressionState_def b block_refs_with_def)
  show "crm_blockRefsById (ct_refMap ex_active) = [(js ''u1'', js ''b1'')]"
    using m r by simp
qed

definition wider_draft :: "CompressionSummary \<Rightarrow> CompressionBlockDraft" where
  "wider_draft summary = first_draft\<lparr>dt_canonicalBlockId := js ''u9'', dt_summary := summary,
     dt_childBlockRefs := [js ''b1''],
     dt_range := (rr_range ex_resolved)\<lparr>cr_endMessageId := js ''d'', cr_endRef := js ''m0004'', cr_endIndex := 3\<rparr>\<rparr>"

lemma wider_commit: "\<exists>summary st. commitCompressionBlock ex_active (wider_draft summary) = Inr st"
proof -
  have "stored_ok (dt_summary first_draft)"
    using plain_summary_ok by (simp add: first_draft_def dynamic_draft_def)
  with materializes [OF ex_template_ok, of "ct_blocksByRef ex_active"] obtain summary where
    l: "sv_ok (validateCompressionSummaryLineage (summary_value summary) [js ''b1''] (ct_blocksByRef ex_active))"
    by (auto simp: ex_active_fields stored_ok_def)
  have "validateCompressionBlockDraft ex_active (wider_draft summary) = Inr ()"
    using l by (intro nested_draft_valid [OF ex_active_ok])
      (simp_all add: wider_draft_def nests_active_def activeChildRefsContainedByRange_def ex_active_fields
        first_draft_def dynamic_draft_def ex_resolved_def rangeContains_def)
  then have "\<exists>st. commitCompressionBlock ex_active (wider_draft summary) = Inr st"
    by (simp add: commitCompressionBlock_def Let_def split: prod.split)
  then show ?thesis by blast
qed

theorem commit_keeps_compression_ok_witness:
  "\<exists>summary st. commitCompressionBlock ex_active (wider_draft summary) = Inr st \<and> compression_ok st"
  using wider_commit commit_keeps_compression_ok [OF ex_active_ok] by blast

theorem commit_supersedes_children_witness:
  "\<exists>summary st b. commitCompressionBlock ex_active (wider_draft summary) = Inr st
    \<and> map_of (ct_blocksByRef st) (js ''b1'') = Some b \<and> bk_status b = BlockSuperseded"
proof -
  obtain summary st where c: "commitCompressionBlock ex_active (wider_draft summary) = Inr st"
    using wider_commit by blast
  have "map_of (crm_blockRefsById (ct_refMap ex_active)) (dt_canonicalBlockId (wider_draft summary)) = None"
    by (simp add: ex_active_fields wider_draft_def)
  from commit_supersedes_children [OF ex_active_ok c this]
  have "\<exists>b. map_of (ct_blocksByRef st) (js ''b1'') = Some b \<and> bk_status b = BlockSuperseded"
    by (auto simp: wider_draft_def)
  with c show ?thesis by blast
qed

end
