(* ===== verification/StoreReducer.thy ===== *)
theory StoreReducer
  imports Reducer CompressionStates
begin

text \<open>
  The runtime store of a Session: \<open>SessionStoreState\<close> (packages/agent-core/src/store/types.ts) and
  the runtime wrapper around the protocol reducer (packages/agent-core/src/store/reduce.ts). The
  fields the store shares with the protocol's projection are the record \<open>st_shared\<close>, whose
  compression fields stay empty: the runtime keeps its own \<open>CompressionState\<close>. The wrapper throws
  where the protocol reducer silently ignores an event.
\<close>

section \<open>The state\<close>

datatype ProjectTodoSessionEntry = DiscussionEntry | WorkEntry | AutomationEntry

datatype RootSessionSource =
    DirectSource
  | TodoSource jstring ProjectTodoSessionEntry
  | AutomationSource jstring jstring "jstring option"

text \<open>The part of the learning checkpoint that the store writes.\<close>

record MemoryLearningState =
  ml_processedThroughMessageId :: "jstring option"
  ml_eligibleThroughMessageId :: "jstring option"
  ml_idleSince :: "int option"

datatype SessionEventPayload =
    StreamPayload StreamEvent
  | ShutdownPayload "jstring option"

record SessionEventEnvelope =
  ev_id :: int
  ev_createdAt :: int
  ev_payload :: SessionEventPayload

record SessionStoreState =
  st_shared :: SessionProjection
  st_agentName :: jstring
  st_compression :: CompressionState
  st_source :: "RootSessionSource option"
  st_lastTodoWriteStepIndex :: "int option"
  st_memoryLearning :: "MemoryLearningState option"
  st_readSnapshots :: "(jstring, int) dict"
  st_events :: "SessionEventEnvelope list"
  st_eventOffset :: int
  st_nextEventId :: int
  st_publishableNextEventId :: int

datatype store_error =
    ReducerError js_error
  | CompressionError compression_error

fun liftE :: "('e \<Rightarrow> 'f) \<Rightarrow> 'e + 'a \<Rightarrow> 'f + 'a" where
  "liftE f (Inl e) = Inl (f e)"
| "liftE f (Inr x) = Inr x"

lemma liftE_Inr_iff [simp]: "liftE f r = Inr x \<longleftrightarrow> r = Inr x"
  by (cases r) auto

section \<open>Compression states from snapshots\<close>

definition summaryFromSnapshot :: "CompressionSummary \<Rightarrow> compression_error + CompressionSummary" where
  "summaryFromSnapshot summary =
     bindE (assertValidCompressionSummary (summary_value summary)) (\<lambda>_. Inr summary)"

definition compressionBlockFromSnapshot ::
  "CompressionBlockSnapshot \<Rightarrow> compression_error + CompressionBlock" where
  "compressionBlockFromSnapshot block =
     bindE (summaryFromSnapshot (cb_summary block)) (\<lambda>summary.
       Inr \<lparr> bk_id = cb_id block, bk_ref = cb_ref block, bk_status = cb_status block,
         bk_strategy = cb_strategy block, bk_trigger = cb_trigger block, bk_range = cb_range block,
         bk_summary = summary, bk_protectedRefs = [], bk_childBlockRefs = cb_childBlockRefs block,
         bk_tokenEstimate = cb_tokenEstimate block, bk_createdAt = cb_createdAt block,
         bk_updatedAt = cb_updatedAt block, bk_deactivatedAt = cb_deactivatedAt block,
         bk_supersededBy = cb_supersededBy block \<rparr>)"

definition commitStoreBlock ::
  "CompressionState \<Rightarrow> CompressionBlockSnapshot \<Rightarrow> compression_error + CompressionState" where
  "commitStoreBlock base block =
     bindE (compressionBlockFromSnapshot block) (\<lambda>nextBlock.
       Inr (normalizeCompressionState (base\<lparr>
         ct_refMap := mergeCompressionRefMap (ct_refMap base) block,
         ct_blocksByRef := AList.update (bk_ref nextBlock) nextBlock (ct_blocksByRef base),
         ct_updatedAt := Some (cb_updatedAt block)\<rparr>)))"

definition appendCompressionFailure :: "CompressionState \<Rightarrow> CompressionFailure \<Rightarrow> CompressionState" where
  "appendCompressionFailure base failure =
     base\<lparr>ct_failures := ct_failures base @ [failure], ct_updatedAt := Some (cf_failedAt failure)\<rparr>"

definition compressionStateFromSnapshot ::
  "CompressionStateSnapshot \<Rightarrow> compression_error + CompressionState" where
  "compressionStateFromSnapshot snapshot =
     bindE (mapE (\<lambda>(ref, block). bindE (compressionBlockFromSnapshot block) (\<lambda>b. Inr (ref, b)))
              (cs_blocksByRef snapshot)) (\<lambda>blocksByRef.
       Inr (normalizeCompressionState \<lparr> ct_refMap = cs_refMap snapshot, ct_blocksByRef = blocksByRef,
         ct_activeBlockRefs = cs_activeBlockRefs snapshot,
         ct_inactiveBlockRefs = cs_inactiveBlockRefs snapshot,
         ct_supersededBlockRefs = cs_supersededBlockRefs snapshot, ct_protectedRefs = [],
         ct_failures = cs_failures snapshot, ct_updatedAt = cs_updatedAt snapshot \<rparr>))"

fun reduceStoreCompression ::
  "CompressionState \<Rightarrow> CompressionStreamEvent \<Rightarrow> compression_error + CompressionState" where
  "reduceStoreCompression base (BlockCommitted block state) =
     (case state of None \<Rightarrow> commitStoreBlock base block | Some snapshot \<Rightarrow> compressionStateFromSnapshot snapshot)"
| "reduceStoreCompression base (BlockFailed failure state) =
     (case state of None \<Rightarrow> Inr (appendCompressionFailure base failure)
      | Some snapshot \<Rightarrow> compressionStateFromSnapshot snapshot)"
| "reduceStoreCompression base (RefMapUpdated refMap updatedAt) =
     Inr (base\<lparr>ct_refMap := refMap,
       ct_updatedAt := (case updatedAt of None \<Rightarrow> ct_updatedAt base | Some t \<Rightarrow> Some t)\<rparr>)"

section \<open>Guards\<close>

fun scanTodoStatuses :: "SessionTodo list \<Rightarrow> nat \<Rightarrow> js_error + nat" where
  "scanTodoStatuses [] inProgressCount = Inr inProgressCount"
| "scanTodoStatuses (todo # rest) inProgressCount =
    (if td_status todo \<notin> set TODO_STATUSES
     then Inl (InvalidTodoStateError (js ''todo \"'' @ td_id todo @ js ''\" has invalid status \"''
       @ td_status todo @ js ''\"''))
     else scanTodoStatuses rest
       (if td_status todo = js ''in_progress'' then inProgressCount + 1 else inProgressCount))"

definition validateTodos :: "SessionTodo list \<Rightarrow> js_error + unit" where
  "validateTodos ts =
    (case sessionTodoCapacityViolation ts of
       Some violation \<Rightarrow> Inl (InvalidTodoStateError violation)
     | None \<Rightarrow> bindE (scanTodoStatuses ts 0) (\<lambda>n.
         if n > 1 then Inl (InvalidTodoStateError (js ''only one todo can be in_progress''))
         else Inr ()))"

text \<open>A lifecycle event is refused with an exception, skipped as a duplicate, or admitted.\<close>

datatype LifecycleAdmission = SkipDuplicate | Admit

definition admitLifecycle ::
  "SessionProjection \<Rightarrow> ExecutionLifecycleEvent \<Rightarrow> js_error + LifecycleAdmission" where
  "admitLifecycle s event =
    (case validateExecutionTransition (executions s) event of
       Invalid reason \<Rightarrow> Inl (InvalidExecutionTransitionError reason)
     | Duplicate \<Rightarrow> Inr SkipDuplicate
     | Valid \<Rightarrow>
         (case event of
            ExecutionEnd e \<Rightarrow>
              (case validateExecutionFinalOutputSelection (messages s) (steps s) e of
                 Invalid reason \<Rightarrow> Inl (InvalidExecutionTransitionError reason)
               | _ \<Rightarrow> Inr Admit)
          | _ \<Rightarrow> Inr Admit))"

section \<open>The wrapper\<close>

text \<open>The protocol reducer on the shared fields, its patch merged into them.\<close>

definition delegateToProtocol ::
  "collation \<Rightarrow> SessionStoreState \<Rightarrow> StreamEvent \<Rightarrow> ReduceContext \<Rightarrow> store_error + SessionStoreState" where
  "delegateToProtocol lc st event ctx =
     bindE (liftE ReducerError (reduceStreamEvent lc ((st_shared st)\<lparr>compression := None\<rparr>) event ctx)) (\<lambda>p.
       Inr (st\<lparr>st_shared := apply_patch (st_shared st) (p\<lparr>p_compressionBlocks := None\<rparr>)\<rparr>))"

definition isMemoryLearningRoot :: "SessionStoreState \<Rightarrow> bool" where
  "isMemoryLearningRoot st \<longleftrightarrow> parentSessionId (st_shared st) = None
     \<and> rootSessionId (st_shared st) = sessionId (st_shared st)
     \<and> (case st_source st of Some (AutomationSource _ _ _) \<Rightarrow> False | _ \<Rightarrow> True)
     \<and> (st_agentName st = js ''lead'' \<or> st_agentName st = js ''discussion'')"

definition initialLearning :: "SessionStoreState \<Rightarrow> MemoryLearningState" where
  "initialLearning st = \<lparr> ml_processedThroughMessageId = map_option msg_id (at_last (messages (st_shared st))),
     ml_eligibleThroughMessageId = None, ml_idleSince = None \<rparr>"

definition learnFromAccepted :: "SessionStoreState \<Rightarrow> PendingSessionMessage \<Rightarrow> SessionStoreState \<Rightarrow> SessionStoreState" where
  "learnFromAccepted st message st' =
    (if pm_source message = SourceUser \<and> isMemoryLearningRoot st
     then st'\<lparr>st_memoryLearning := Some
       ((case st_memoryLearning st of None \<Rightarrow> initialLearning st | Some l \<Rightarrow> l)\<lparr>ml_idleSince := None\<rparr>)\<rparr>
     else st')"

fun is_final_message :: "jstring \<Rightarrow> jstring \<Rightarrow> SessionMessage \<Rightarrow> bool" where
  "is_final_message executionId stepId (AssistantMessage a) \<longleftrightarrow>
     am_executionId a = executionId \<and> am_stepId a = stepId \<and> am_outputPhase a = FinalAnswer"
| "is_final_message executionId stepId (UserMessage u) \<longleftrightarrow> False"

definition learnFromEnd :: "SessionStoreState \<Rightarrow> ExecutionEndEvent \<Rightarrow> SessionStoreState \<Rightarrow> SessionStoreState" where
  "learnFromEnd st event st' =
    (case (en_finalOutputStepId event, st_memoryLearning st) of
       (Some stepId, Some learning) \<Rightarrow>
         (if en_terminalStatus event = Completed \<and> isMemoryLearningRoot st
             \<and> option_test (\<lambda>e. ex_origin e = OriginUserMessage)
                  (find_execution (executions (st_shared st)) (en_executionId event))
          then (case find (is_final_message (en_executionId event) stepId) (messages (st_shared st')) of
              None \<Rightarrow> st'
            | Some finalMessage \<Rightarrow>
                (let hasNewerUserInput =
                       (\<exists>m \<in> set (pendingMessages (st_shared st')). pm_source m = SourceUser) in
                 st'\<lparr>st_memoryLearning := Some (learning\<lparr>
                   ml_eligibleThroughMessageId := Some (msg_id finalMessage),
                   ml_idleSince := (if hasNewerUserInput then None else Some (en_endedAt event))\<rparr>)\<rparr>))
          else st')
     | _ \<Rightarrow> st')"

definition todoStepIndex :: "SessionStoreState \<Rightarrow> int option" where
  "todoStepIndex st =
    (let currentStepIndex = int (length (steps (st_shared st))) - 1 in
     if 0 \<le> currentStepIndex then Some currentStepIndex else None)"

definition reduceStoreLifecycle ::
  "collation \<Rightarrow> SessionStoreState \<Rightarrow> ExecutionLifecycleEvent \<Rightarrow> ReduceContext \<Rightarrow> store_error + SessionStoreState" where
  "reduceStoreLifecycle lc st event ctx =
     bindE (liftE ReducerError (admitLifecycle (st_shared st) event)) (\<lambda>admission.
       if admission = SkipDuplicate then Inr st
       else bindE (delegateToProtocol lc st (Lifecycle event) ctx) (\<lambda>st'.
         Inr (case event of ExecutionEnd e \<Rightarrow> learnFromEnd st e st' | _ \<Rightarrow> st')))"

fun reduceStoreStream ::
  "collation \<Rightarrow> SessionStoreState \<Rightarrow> StreamEvent \<Rightarrow> ReduceContext \<Rightarrow> store_error + SessionStoreState" where
  "reduceStoreStream lc st (Lifecycle e) ctx = reduceStoreLifecycle lc st e ctx"
| "reduceStoreStream lc st (TodoWrite ts) ctx =
     bindE (liftE ReducerError (validateTodos ts)) (\<lambda>_.
     bindE (delegateToProtocol lc st (TodoWrite ts) ctx) (\<lambda>st'.
       Inr (st'\<lparr>st_lastTodoWriteStepIndex := todoStepIndex st\<rparr>)))"
| "reduceStoreStream lc st (Compression e) ctx =
     bindE (liftE CompressionError (reduceStoreCompression (st_compression st) e)) (\<lambda>c.
       Inr (st\<lparr>st_compression := c\<rparr>))"
| "reduceStoreStream lc st (CwdChanged previousCwd newCwd) ctx =
     Inr (st\<lparr>st_shared := (st_shared st)\<lparr>cwd := newCwd\<rparr>, st_readSnapshots := []\<rparr>)"
| "reduceStoreStream lc st (Compact summary tail) ctx =
     bindE (delegateToProtocol lc st (Compact summary tail) ctx) (\<lambda>st'.
       Inr (st'\<lparr>st_compression := createEmptyCompressionState\<rparr>))"
| "reduceStoreStream lc st (MessageAccepted m) ctx =
     bindE (delegateToProtocol lc st (MessageAccepted m) ctx) (\<lambda>st'. Inr (learnFromAccepted st m st'))"
| "reduceStoreStream lc st event ctx = delegateToProtocol lc st event ctx"

fun reduceStoreEvent ::
  "collation \<Rightarrow> SessionStoreState \<Rightarrow> SessionEventPayload \<Rightarrow> ReduceContext \<Rightarrow> store_error + SessionStoreState" where
  "reduceStoreEvent lc st (StreamPayload event) ctx = reduceStoreStream lc st event ctx"
| "reduceStoreEvent lc st (ShutdownPayload reason) ctx = Inr st"

section \<open>Agreement with the protocol reducer\<close>

text \<open>
  The runtime validation accepts exactly the todo lists the protocol reducer keeps, so an accepted
  list is never silently dropped.
\<close>

lemma scanTodoStatuses_eq:
  "scanTodoStatuses ts n = Inr k \<longleftrightarrow> todo_scan ts n = Some k"
  by (induction ts arbitrary: n) auto

lemma validateTodos_iff: "validateTodos ts = Inr () \<longleftrightarrow> areTodosValid ts"
proof (cases "sessionTodoCapacityViolation ts")
  case None
  show ?thesis
  proof (cases "todo_scan ts 0")
    case (Some k)
    then have "scanTodoStatuses ts 0 = Inr k"
      by (simp add: scanTodoStatuses_eq)
    with None Some show ?thesis
      by (simp add: validateTodos_def areTodosValid_def)
  next
    case None2: None
    then have "scanTodoStatuses ts 0 \<noteq> Inr k" for k
      by (simp add: scanTodoStatuses_eq)
    then obtain e where "scanTodoStatuses ts 0 = Inl e"
      by (cases "scanTodoStatuses ts 0") auto
    with None None2 show ?thesis
      by (simp add: validateTodos_def areTodosValid_def)
  qed
qed (simp add: validateTodos_def areTodosValid_def)

lemma selection_not_Duplicate: "validateExecutionFinalOutputSelection ms ss e \<noteq> Duplicate"
  by (simp add: validateExecutionFinalOutputSelection_def split: option.splits)

lemma admitLifecycle_Admit:
  assumes "admitLifecycle s event = Inr Admit"
  shows "validateExecutionTransition (executions s) event = Valid" and "final_output_ok s event"
  using assms
  by (auto simp: admitLifecycle_def final_output_ok_def selection_not_Duplicate
      split: ExecutionTransitionValidation.splits ExecutionLifecycleEvent.splits)

lemma learn_shared [simp]:
  "st_shared (learnFromAccepted st m st') = st_shared st'"
  "st_shared (learnFromEnd st e st') = st_shared st'"
  by (simp_all add: learnFromAccepted_def learnFromEnd_def Let_def split: option.splits)

end
