(* ===== verification/SessionLog.thy ===== *)
theory SessionLog
  imports StoreReducer
begin

text \<open>
  The event log of one Session and its publication (packages/agent-core/src/store/session-store-manager.ts
  and durable-tool-input.ts). An appended event gets the next id; at most \<open>MAX_EVENTS\<close> envelopes
  stay in memory. A durable event opens a publication barrier, which the save of the snapshot that
  holds it resolves; the listeners are handed the envelopes below every open barrier.

  One entry is what the manager keeps for a Session: its store, the open barriers (target and start),
  the queued saves in order, the barriers whose save has succeeded but whose continuation has not
  run, the sticky failure, the last saved snapshot, and the envelopes one listener has been handed.
\<close>

section \<open>Events\<close>

definition MAX_EVENTS :: int where "MAX_EVENTS = 10000"

fun toDurableSessionEvent :: "SessionEventPayload \<Rightarrow> SessionEventPayload" where
  "toDurableSessionEvent (StreamPayload (ToolCall c n i)) =
     StreamPayload (ToolCall c n (if i = JsUndefined then JsNull else i))"
| "toDurableSessionEvent (StreamPayload (ToolInputResolved c n i)) =
     StreamPayload (ToolInputResolved c n (if i = JsUndefined then JsNull else i))"
| "toDurableSessionEvent event = event"

fun isDurableControlEvent :: "SessionEventPayload \<Rightarrow> bool" where
  "isDurableControlEvent (StreamPayload event) = (case event of
     MessageAccepted _ \<Rightarrow> True | MessageEdited _ \<Rightarrow> True | MessageDeleted _ _ _ _ \<Rightarrow> True
   | MessageSteerClaimed _ \<Rightarrow> True | MessageSteerRolledBack _ \<Rightarrow> True | MessagesCommitted _ _ \<Rightarrow> True
   | Lifecycle _ \<Rightarrow> True | StopRequested _ _ \<Rightarrow> True | _ \<Rightarrow> False)"
| "isDurableControlEvent (ShutdownPayload _) = False"

fun persistForEvent :: "SessionEventPayload \<Rightarrow> bool" where
  "persistForEvent (StreamPayload event) = (case event of
     Lifecycle _ \<Rightarrow> True | ToolAttempt _ _ _ _ _ \<Rightarrow> True | ToolResult _ _ _ _ \<Rightarrow> True
   | CwdChanged _ _ \<Rightarrow> True | ModelSelectionChanged _ \<Rightarrow> True | LlmRetry _ _ _ _ \<Rightarrow> True
   | LlmRecovery _ _ _ \<Rightarrow> True | LlmRecoveryFailed _ _ _ \<Rightarrow> True | Compact _ _ \<Rightarrow> True
   | ChildSessionLinkEvent _ \<Rightarrow> True | ExecutionError _ _ \<Rightarrow> True | PromptTrace _ \<Rightarrow> True
   | Compression _ \<Rightarrow> True | _ \<Rightarrow> False)"
| "persistForEvent (ShutdownPayload _) = False"

fun isDuplicateLifecycle :: "SessionStoreState \<Rightarrow> SessionEventPayload \<Rightarrow> bool" where
  "isDuplicateLifecycle st (StreamPayload (Lifecycle e)) =
     (validateExecutionTransition (executions (st_shared st)) e = Duplicate)"
| "isDuplicateLifecycle st _ = False"

section \<open>Appending to the log\<close>

text \<open>The number of envelopes dropped from a log that has grown past the bound: published ones only.\<close>

definition overflow :: "SessionStoreState \<Rightarrow> SessionEventEnvelope list \<Rightarrow> int" where
  "overflow st events =
    (if int (length events) > MAX_EVENTS
     then min (int (length events) - MAX_EVENTS) (max 0 (st_publishableNextEventId st - st_eventOffset st))
     else 0)"

text \<open>
  The update both ways of appending share: the reduced fields, the bounded log and the next id; the
  publishable cursor becomes the given one. The arguments \<open>now\<close> and \<open>ctx\<close> supply the clock and
  the identifiers.
\<close>

definition recordEvent ::
  "collation \<Rightarrow> SessionStoreState \<Rightarrow> SessionEventPayload \<Rightarrow> int \<Rightarrow> int \<Rightarrow> ReduceContext
   \<Rightarrow> store_error + SessionStoreState" where
  "recordEvent lc st event publishable now ctx =
     bindE (reduceStoreEvent lc st event ctx) (\<lambda>st'.
       (let events = st_events st @ [\<lparr> ev_id = st_nextEventId st, ev_createdAt = now, ev_payload = event \<rparr>];
            dropCount = overflow st events in
        Inr (st'\<lparr>st_events := drop (nat dropCount) events,
          st_eventOffset := st_eventOffset st + dropCount,
          st_nextEventId := st_nextEventId st + 1,
          st_publishableNextEventId := publishable\<rparr>)))"

definition appendEventToState ::
  "collation \<Rightarrow> SessionStoreState \<Rightarrow> SessionEventPayload \<Rightarrow> bool \<Rightarrow> int \<Rightarrow> ReduceContext
   \<Rightarrow> store_error + SessionStoreState" where
  "appendEventToState lc st event publishImmediately now ctx =
    (if isDuplicateLifecycle st event then Inr st
     else recordEvent lc st event
       (if publishImmediately then st_nextEventId st + 1 else st_publishableNextEventId st) now ctx)"

fun appendEvents ::
  "collation \<Rightarrow> SessionStoreState \<Rightarrow> (SessionEventPayload \<times> int \<times> ReduceContext) list
   \<Rightarrow> store_error + SessionStoreState" where
  "appendEvents lc st [] = Inr st"
| "appendEvents lc st ((event, now, ctx) # rest) =
     bindE (appendEventToState lc st event False now ctx) (\<lambda>st'. appendEvents lc st' rest)"

section \<open>Publication\<close>

record PersistOperation =
  po_snapshot :: SessionStoreState
  po_barrier :: "int option"

record SessionEntry =
  se_store :: SessionStoreState
  se_barriers :: "(int, int) dict"
  se_operations :: "PersistOperation list"
  se_continuations :: "int list"
  se_failed :: bool
  se_saved :: "SessionStoreState option"
  se_published :: "SessionEventEnvelope list"

definition emitPublishableRange :: "SessionStoreState \<Rightarrow> int \<Rightarrow> int \<Rightarrow> SessionEventEnvelope list" where
  "emitPublishableRange st startNextEventId endNextEventId =
    (if endNextEventId \<le> startNextEventId then []
     else js_slice (st_events st)
       (max startNextEventId (st_eventOffset st) - st_eventOffset st)
       (max endNextEventId (st_eventOffset st) - st_eventOffset st))"

text \<open>After a failed save every later one is rejected.\<close>

definition enqueuePersist :: "SessionEntry \<Rightarrow> int option \<Rightarrow> SessionEntry" where
  "enqueuePersist entry barrier =
    (if se_failed entry then entry
     else entry\<lparr>se_operations := se_operations entry
       @ [\<lparr> po_snapshot = se_store entry, po_barrier = barrier \<rparr>]\<rparr>)"

definition trackPublicationBarrier :: "SessionEntry \<Rightarrow> int \<Rightarrow> int \<Rightarrow> SessionEntry" where
  "trackPublicationBarrier entry startNextEventId targetNextEventId =
     entry\<lparr>se_barriers := AList.update targetNextEventId startNextEventId (se_barriers entry)\<rparr>"

text \<open>\<open>append\<close>: the listeners see the event at once unless it is durable or a barrier is open.\<close>

definition appendEntry ::
  "collation \<Rightarrow> SessionEntry \<Rightarrow> SessionEventPayload \<Rightarrow> int \<Rightarrow> ReduceContext \<Rightarrow> store_error + SessionEntry" where
  "appendEntry lc entry event now ctx =
    (let st = se_store entry; durableEvent = toDurableSessionEvent event in
     if isDuplicateLifecycle st durableEvent then Inr entry
     else
       (let durablePublication = isDurableControlEvent durableEvent;
            publishable = (if durablePublication \<or> se_barriers entry \<noteq> [] then st_publishableNextEventId st
                           else st_nextEventId st + 1) in
        bindE (recordEvent lc st durableEvent publishable now ctx) (\<lambda>st'.
          (let emitted = (if durablePublication then []
                 else emitPublishableRange st' (st_publishableNextEventId st) publishable);
               stored = entry\<lparr>se_store := st', se_published := se_published entry @ emitted\<rparr> in
           Inr (if durablePublication
                then enqueuePersist (trackPublicationBarrier stored (st_nextEventId st) (st_nextEventId st'))
                       (Some (st_nextEventId st'))
                else if persistForEvent durableEvent then enqueuePersist stored None
                else stored)))))"

text \<open>
  \<open>commitDurableSessionMutation\<close> after its callback: the patch of the fields that changed, then the
  events; nothing is emitted here, and a mutation that changes nothing saves nothing.
\<close>

datatype commit_error = PersistenceFailed | MutationFailed store_error

definition applyMutation ::
  "collation \<Rightarrow> SessionStoreState \<Rightarrow> SessionProjectionPatch \<Rightarrow> (SessionEventPayload \<times> int \<times> ReduceContext) list
   \<Rightarrow> store_error + SessionStoreState" where
  "applyMutation lc st changedPatch events =
     appendEvents lc (st\<lparr>st_shared := apply_patch (st_shared st) changedPatch\<rparr>)
       (map (\<lambda>(event, t). (toDurableSessionEvent event, t)) events)"

definition commitMutation ::
  "collation \<Rightarrow> SessionEntry \<Rightarrow> SessionProjectionPatch \<Rightarrow> (SessionEventPayload \<times> int \<times> ReduceContext) list
   \<Rightarrow> commit_error + SessionEntry" where
  "commitMutation lc entry changedPatch events =
    (if se_failed entry then Inl PersistenceFailed
     else if changedPatch = no_patch \<and> events = [] then Inr entry
     else
       (let st = se_store entry in
        bindE (liftE MutationFailed (applyMutation lc st changedPatch events)) (\<lambda>st'.
          (let stored = entry\<lparr>se_store := st'\<rparr> in
           Inr (if st_nextEventId st' > st_nextEventId st
                then enqueuePersist (trackPublicationBarrier stored (st_nextEventId st) (st_nextEventId st'))
                       (Some (st_nextEventId st'))
                else enqueuePersist stored None)))))"

text \<open>The oldest queued save settles; the continuation of a successful one resolves its barrier.\<close>

definition saveSucceeds :: "SessionEntry \<Rightarrow> SessionEntry" where
  "saveSucceeds entry =
    (case se_operations entry of
       [] \<Rightarrow> entry
     | operation # rest \<Rightarrow> entry\<lparr>se_operations := rest, se_saved := Some (po_snapshot operation),
         se_continuations := (case po_barrier operation of None \<Rightarrow> se_continuations entry
            | Some target \<Rightarrow> se_continuations entry @ [target])\<rparr>)"

definition saveFails :: "SessionEntry \<Rightarrow> SessionEntry" where
  "saveFails entry =
    (case se_operations entry of
       [] \<Rightarrow> entry
     | _ # _ \<Rightarrow> entry\<lparr>se_operations := [], se_failed := True\<rparr>)"

definition trimPublished :: "SessionStoreState \<Rightarrow> SessionStoreState" where
  "trimPublished st =
    (if int (length (st_events st)) > MAX_EVENTS
     then let dropCount = int (length (st_events st)) - MAX_EVENTS in
       st\<lparr>st_events := drop (nat dropCount) (st_events st),
          st_eventOffset := st_eventOffset st + dropCount\<rparr>
     else st)"

definition resolvePublicationBarrier :: "SessionEntry \<Rightarrow> int \<Rightarrow> SessionEntry" where
  "resolvePublicationBarrier entry target =
    (let st = se_store entry;
         barriers = AList.delete target (se_barriers entry);
         publishable = max (st_publishableNextEventId st)
           (if barriers = [] then st_nextEventId st else Min (snd ` set barriers)) in
     if publishable = st_publishableNextEventId st then entry\<lparr>se_barriers := barriers\<rparr>
     else
       (let st' = st\<lparr>st_publishableNextEventId := publishable\<rparr> in
        entry\<lparr>se_barriers := barriers, se_store := trimPublished st',
          se_published := se_published entry
            @ emitPublishableRange st' (st_publishableNextEventId st) publishable\<rparr>))"

definition runContinuation :: "SessionEntry \<Rightarrow> SessionEntry" where
  "runContinuation entry =
    (case se_continuations entry of
       [] \<Rightarrow> entry
     | target # rest \<Rightarrow> resolvePublicationBarrier (entry\<lparr>se_continuations := rest\<rparr>) target)"

section \<open>The entry of a new and of a loaded Session\<close>

definition newEntry :: "SessionStoreState \<Rightarrow> SessionEntry" where
  "newEntry st = \<lparr> se_store = st, se_barriers = [],
     se_operations = [\<lparr> po_snapshot = st, po_barrier = None \<rparr>], se_continuations = [],
     se_failed = False, se_saved = None, se_published = [] \<rparr>"

definition loadedEntry :: "SessionStoreState \<Rightarrow> SessionEntry" where
  "loadedEntry st = \<lparr> se_store = st, se_barriers = [], se_operations = [], se_continuations = [],
     se_failed = False, se_saved = Some st, se_published = [] \<rparr>"

end
