(* ===== verification/SessionPublication.thy ===== *)
theory SessionPublication
  imports SessionLog
begin

text \<open>
  What the listeners of a Session are handed. A trace of an entry is any interleaving of appended
  events, durable mutations, settled saves and their continuations, with the list of all envelopes
  that were given an id, each marked when a barrier guards it. The listeners see a prefix of that
  list, in order and without a gap, and a guarded envelope only after its save.
\<close>

section \<open>Traces\<close>

definition backlog :: "SessionStoreState \<Rightarrow> int" where
  "backlog st = st_nextEventId st - st_publishableNextEventId st"

text \<open>The envelopes a step added, read off the end of the new log.\<close>

definition added :: "SessionStoreState \<Rightarrow> SessionStoreState \<Rightarrow> SessionEventEnvelope list" where
  "added st st' = filter (\<lambda>v. st_nextEventId st \<le> ev_id v) (st_events st')"

text \<open>
  A continuation runs with at most \<open>MAX_EVENTS\<close> unpublished envelopes: beyond that bound the
  trimming after a resolved barrier discards envelopes nobody has seen (\<open>trim_loses_backlog\<close>).
\<close>

inductive entry_trace ::
  "collation \<Rightarrow> SessionEntry \<Rightarrow> SessionEntry \<Rightarrow> (SessionEventEnvelope \<times> bool) list \<Rightarrow> bool"
  for lc :: collation and e0 :: SessionEntry
where
  start: "entry_trace lc e0 e0 []"
| append: "entry_trace lc e0 e hist \<Longrightarrow> appendEntry lc e event now ctx = Inr e'
     \<Longrightarrow> entry_trace lc e0 e' (hist @ map (\<lambda>v. (v, isDurableControlEvent (ev_payload v)))
           (added (se_store e) (se_store e')))"
| commit: "entry_trace lc e0 e hist \<Longrightarrow> commitMutation lc e patch events = Inr e'
     \<Longrightarrow> entry_trace lc e0 e' (hist @ map (\<lambda>v. (v, True)) (added (se_store e) (se_store e')))"
| saved: "entry_trace lc e0 e hist \<Longrightarrow> entry_trace lc e0 (saveSucceeds e) hist"
| failed: "entry_trace lc e0 e hist \<Longrightarrow> entry_trace lc e0 (saveFails e) hist"
| continued: "entry_trace lc e0 e hist \<Longrightarrow> backlog (se_store e) \<le> MAX_EVENTS
     \<Longrightarrow> entry_trace lc e0 (runContinuation e) hist"

section \<open>The log of the store\<close>

definition ids_from :: "int \<Rightarrow> SessionEventEnvelope list \<Rightarrow> bool" where
  "ids_from n vs \<longleftrightarrow> (\<forall>i < length vs. ev_id (vs ! i) = n + int i)"

text \<open>The log holds the last of the recorded envelopes, from the offset, and none below the cursor
  of the listeners is missing above it.\<close>

definition log_ok :: "int \<Rightarrow> SessionEventEnvelope list \<Rightarrow> SessionStoreState \<Rightarrow> bool" where
  "log_ok n vs st \<longleftrightarrow> ids_from n vs \<and> st_nextEventId st = n + int (length vs)
     \<and> n \<le> st_eventOffset st \<and> st_eventOffset st \<le> st_publishableNextEventId st
     \<and> st_publishableNextEventId st \<le> st_nextEventId st
     \<and> st_events st = drop (nat (st_eventOffset st - n)) vs"

lemma ids_from_append:
  "ids_from n (vs @ ws) \<longleftrightarrow> ids_from n vs \<and> ids_from (n + int (length vs)) ws"
proof
  assume all: "ids_from n (vs @ ws)"
  have "ev_id (ws ! i) = n + int (length vs) + int i" if "i < length ws" for i
    using all that unfolding ids_from_def by (auto dest: spec [of _ "length vs + i"])
  moreover have "ev_id (vs ! i) = n + int i" if "i < length vs" for i
    using all that unfolding ids_from_def by (auto simp: nth_append dest: spec [of _ i])
  ultimately show "ids_from n vs \<and> ids_from (n + int (length vs)) ws"
    by (simp add: ids_from_def)
next
  assume both: "ids_from n vs \<and> ids_from (n + int (length vs)) ws"
  then show "ids_from n (vs @ ws)"
    by (auto simp: ids_from_def nth_append)
qed

lemma ids_from_single [simp]: "ids_from n [v] \<longleftrightarrow> ev_id v = n"
  by (simp add: ids_from_def)

lemma ids_from_mem:
  assumes "ids_from n vs" "v \<in> set vs"
  shows "n \<le> ev_id v" "ev_id v < n + int (length vs)"
  using assms by (auto simp: ids_from_def in_set_conv_nth)

lemma ids_from_drop: "ids_from n vs \<Longrightarrow> k \<le> length vs \<Longrightarrow> ids_from (n + int k) (drop k vs)"
  by (simp add: ids_from_def)

text \<open>The envelopes from an id on are what is left after that many.\<close>

lemma filter_ids:
  assumes "ids_from n vs" "n \<le> m" "m \<le> n + int (length vs)"
  shows "filter (\<lambda>v. m \<le> ev_id v) vs = drop (nat (m - n)) vs"
proof -
  let ?k = "nat (m - n)"
  have k: "?k \<le> length vs" "n + int ?k = m"
    using assms by auto
  have split: "vs = take ?k vs @ drop ?k vs" by simp
  have ids: "ids_from n (take ?k vs)" "ids_from m (drop ?k vs)"
    using assms(1) k ids_from_append [of n "take ?k vs" "drop ?k vs"] by auto
  have "filter (\<lambda>v. m \<le> ev_id v) (take ?k vs) = []"
    using ids_from_mem(2) [OF ids(1)] k by (fastforce simp: filter_empty_conv)
  moreover have "filter (\<lambda>v. m \<le> ev_id v) (drop ?k vs) = drop ?k vs"
    using ids_from_mem(1) [OF ids(2)] by (simp add: filter_id_conv)
  ultimately show ?thesis
    by (subst split) (simp only: filter_append append_Nil)
qed

section \<open>Recording\<close>

text \<open>The reducer leaves the log alone.\<close>

definition log_fields :: "SessionStoreState \<Rightarrow> SessionEventEnvelope list \<times> int \<times> int \<times> int" where
  "log_fields st = (st_events st, st_eventOffset st, st_nextEventId st, st_publishableNextEventId st)"

lemma log_fields_update [simp]:
  "log_fields (st\<lparr>st_lastTodoWriteStepIndex := i\<rparr>) = log_fields st"
  "log_fields (st\<lparr>st_compression := c\<rparr>) = log_fields st"
  "log_fields (st\<lparr>st_shared := p\<rparr>) = log_fields st"
  "log_fields (st\<lparr>st_readSnapshots := r\<rparr>) = log_fields st"
  "log_fields (st\<lparr>st_memoryLearning := m\<rparr>) = log_fields st"
  by (simp_all add: log_fields_def)

lemma delegate_keeps_log:
  "delegateToProtocol lc st event ctx = Inr st' \<Longrightarrow> log_fields st' = log_fields st"
  by (auto simp: delegateToProtocol_def bindE_Inr_iff)

lemma learn_keeps_log [simp]:
  "log_fields (learnFromAccepted st m st') = log_fields st'"
  "log_fields (learnFromEnd st e st') = log_fields st'"
  by (simp_all add: learnFromAccepted_def learnFromEnd_def Let_def split: option.splits)

lemma lifecycle_keeps_log:
  "reduceStoreLifecycle lc st e ctx = Inr st' \<Longrightarrow> log_fields st' = log_fields st"
  by (cases e) (auto simp: reduceStoreLifecycle_def bindE_Inr_iff dest: delegate_keeps_log split: if_splits)

lemma stream_keeps_log:
  assumes "reduceStoreStream lc st event ctx = Inr st'"
  shows "log_fields st' = log_fields st"
proof (cases "reduceStoreStream lc st event ctx = delegateToProtocol lc st event ctx")
  case True
  with assms show ?thesis by (simp add: delegate_keeps_log)
next
  case False
  with assms show ?thesis
    by (cases event)
      (auto simp: bindE_Inr_iff dest: lifecycle_keeps_log delegate_keeps_log)
qed

lemma reduce_keeps_log:
  "reduceStoreEvent lc st event ctx = Inr st' \<Longrightarrow> log_fields st' = log_fields st"
  by (cases event) (auto dest: stream_keeps_log)

lemma recordEvent_log:
  assumes ok: "log_ok n vs st" and step: "recordEvent lc st event publishable now ctx = Inr st'"
    and pub: "st_publishableNextEventId st \<le> publishable" "publishable \<le> st_nextEventId st + 1"
  defines "v \<equiv> \<lparr> ev_id = st_nextEventId st, ev_createdAt = now, ev_payload = event \<rparr>"
  shows "log_ok n (vs @ [v]) st'" and "st_publishableNextEventId st' = publishable"
    and "st_nextEventId st' = st_nextEventId st + 1"
    and "st_eventOffset st' \<le> st_publishableNextEventId st"
proof -
  let ?d = "overflow st (st_events st @ [v])"
  have d: "0 \<le> ?d" "?d \<le> st_publishableNextEventId st - st_eventOffset st"
    using ok by (auto simp: overflow_def log_ok_def)
  have fields: "st_events st' = drop (nat ?d) (st_events st @ [v])"
      "st_eventOffset st' = st_eventOffset st + ?d" "st_nextEventId st' = st_nextEventId st + 1"
      "st_publishableNextEventId st' = publishable"
    using step by (auto simp: recordEvent_def bindE_Inr_iff Let_def v_def)
  have old: "st_events st = drop (nat (st_eventOffset st - n)) vs" "n \<le> st_eventOffset st"
      "st_eventOffset st \<le> n + int (length vs)"
    using ok by (auto simp: log_ok_def)
  have "nat (st_eventOffset st - n) \<le> length vs"
    using old by linarith
  then have log: "st_events st @ [v] = drop (nat (st_eventOffset st - n)) (vs @ [v])"
    by (simp add: old(1))
  have "st_events st' = drop (nat ?d + nat (st_eventOffset st - n)) (vs @ [v])"
    using fields(1) log by (metis drop_drop)
  also have "nat ?d + nat (st_eventOffset st - n) = nat (st_eventOffset st' - n)"
    using fields(2) d(1) old(2) by linarith
  finally have "st_events st' = drop (nat (st_eventOffset st' - n)) (vs @ [v])" .
  then show "log_ok n (vs @ [v]) st'"
    using ok fields d pub by (auto simp: log_ok_def ids_from_append v_def)
  show "st_publishableNextEventId st' = publishable" "st_nextEventId st' = st_nextEventId st + 1"
    using fields by simp_all
  show "st_eventOffset st' \<le> st_publishableNextEventId st"
    using fields d by simp
qed

lemma appendEvents_log:
  assumes "log_ok n vs st" "appendEvents lc st events = Inr st'"
  shows "\<exists>ws. log_ok n (vs @ ws) st' \<and> st_publishableNextEventId st' = st_publishableNextEventId st"
  using assms
proof (induction lc st events arbitrary: vs rule: appendEvents.induct)
  case (1 lc st)
  then show ?case by (intro exI [of _ "[]"]) simp
next
  case (2 lc st event now ctx rest)
  then obtain mid where mid: "appendEventToState lc st event False now ctx = Inr mid"
      "appendEvents lc mid rest = Inr st'"
    by (auto simp: bindE_Inr_iff)
  show ?case
  proof (cases "isDuplicateLifecycle st event")
    case True
    with mid have "mid = st" by (simp add: appendEventToState_def)
    with 2 mid show ?thesis by blast
  next
    case False
    let ?v = "\<lparr> ev_id = st_nextEventId st, ev_createdAt = now, ev_payload = event \<rparr>"
    have step: "recordEvent lc st event (st_publishableNextEventId st) now ctx = Inr mid"
      using mid(1) False by (simp add: appendEventToState_def)
    have le: "st_publishableNextEventId st \<le> st_nextEventId st + 1"
      using 2(2) by (simp add: log_ok_def)
    note rec = recordEvent_log [OF 2(2) step order_refl le]
    from 2(1) [OF rec(1) mid(2)] obtain ws where
        ws: "log_ok n ((vs @ [?v]) @ ws) st'" "st_publishableNextEventId st' = st_publishableNextEventId mid"
      by blast
    then show ?thesis
      using rec(2) by (intro exI [of _ "?v # ws"]) simp
  qed
qed

text \<open>The added envelopes are exactly those recorded after the old log.\<close>

lemma added_log:
  assumes "log_ok n vs st" "log_ok n (vs @ ws) st'" "st_eventOffset st' \<le> st_nextEventId st"
  shows "added st st' = ws"
proof -
  let ?o = "st_eventOffset st'"
  have o: "n \<le> ?o" "?o \<le> n + int (length vs)" "st_nextEventId st = n + int (length vs)"
      "st_events st' = drop (nat (?o - n)) (vs @ ws)" "ids_from n (vs @ ws)"
    using assms by (auto simp: log_ok_def)
  let ?k = "nat (?o - n)"
  have k: "?k \<le> length vs" "n + int ?k = ?o"
    using o by auto
  have ids: "ids_from ?o (drop ?k (vs @ ws))"
    using ids_from_drop [OF o(5), of ?k] k by simp
  have len: "int (length (drop ?k (vs @ ws))) = n + int (length vs) + int (length ws) - ?o"
    using k by simp
  have "filter (\<lambda>v. st_nextEventId st \<le> ev_id v) (drop ?k (vs @ ws))
      = drop (nat (st_nextEventId st - ?o)) (drop ?k (vs @ ws))"
    using filter_ids [OF ids, of "st_nextEventId st"] o len by linarith
  also have "\<dots> = drop (nat (st_nextEventId st - ?o) + ?k) (vs @ ws)"
    by (rule drop_drop)
  also have "nat (st_nextEventId st - ?o) + ?k = length vs"
    using o k by linarith
  finally show ?thesis
    using o(4) by (simp add: added_def)
qed

section \<open>Emission\<close>

text \<open>The emitted range is the recorded envelopes between the two cursors.\<close>

lemma emitted_range:
  assumes ok: "log_ok n vs st" and "st_eventOffset st \<le> i" "i \<le> j" "j \<le> st_nextEventId st"
  shows "emitPublishableRange st i j = drop (nat (i - n)) (take (nat (j - n)) vs)"
proof -
  let ?o = "st_eventOffset st"
  have o: "n \<le> ?o" "st_events st = drop (nat (?o - n)) vs" "?o \<le> i" "j \<le> n + int (length vs)"
    using assms by (auto simp: log_ok_def)
  have len: "int (length (st_events st)) = n + int (length vs) - ?o"
    using o assms by simp
  have slices: "slice_index (st_events st) (i - ?o) = nat (i - ?o)"
      "slice_index (st_events st) (j - ?o) = nat (j - ?o)"
    using o assms(3,4) len by (simp_all add: slice_index_def)
  have "emitPublishableRange st i j = take (nat (j - ?o) - nat (i - ?o)) (drop (nat (i - ?o)) (st_events st))"
    using o assms(3) slices by (simp add: emitPublishableRange_def js_slice_def max_def)
  also have "\<dots> = take (nat (j - n) - nat (i - n)) (drop (nat (i - n)) vs)"
  proof -
    have "nat (j - ?o) - nat (i - ?o) = nat (j - n) - nat (i - n)" "nat (i - ?o) + nat (?o - n) = nat (i - n)"
      using o assms(3) by auto
    then show ?thesis using o(2) by simp
  qed
  also have "\<dots> = drop (nat (i - n)) (take (nat (j - n)) vs)"
    by (simp add: drop_take)
  finally show ?thesis .
qed

lemma emitted_extends:
  assumes "log_ok n vs st" "st_eventOffset st \<le> i" "n \<le> i" "i \<le> j" "j \<le> st_nextEventId st"
  shows "take (nat (i - n)) vs @ emitPublishableRange st i j = take (nat (j - n)) vs"
proof -
  have le: "nat (i - n) \<le> nat (j - n)" using assms by simp
  have "take (nat (i - n)) (take (nat (j - n)) vs) = take (nat (i - n)) vs"
    using le by (simp add: min_def)
  then show ?thesis
    using emitted_range [OF assms(1,2,4,5)] append_take_drop_id [of "nat (i - n)" "take (nat (j - n)) vs"]
    by simp
qed

section \<open>The invariant of an entry\<close>

definition saved_up_to :: "SessionEntry \<Rightarrow> int \<Rightarrow> bool" where
  "saved_up_to e i \<longleftrightarrow> option_test (\<lambda>st. i \<le> st_nextEventId st) (se_saved e)"

text \<open>
  Every barrier lies above the cursor of the listeners; the save it waits for is queued, or has
  succeeded; saves are queued in the order of their snapshots, none older than the last saved one;
  and a guarded envelope is saved or behind an open barrier.
\<close>

definition barriers_ok :: "SessionEntry \<Rightarrow> bool" where
  "barriers_ok e \<longleftrightarrow> (\<forall>(t, s) \<in> set (se_barriers e). st_publishableNextEventId (se_store e) \<le> s
     \<and> s < t \<and> t \<le> st_nextEventId (se_store e))"

definition saves_ok :: "SessionEntry \<Rightarrow> bool" where
  "saves_ok e \<longleftrightarrow> (\<forall>t \<in> set (se_continuations e). saved_up_to e t)
     \<and> (\<forall>op \<in> set (se_operations e). \<forall>t. po_barrier op = Some t \<longrightarrow> t \<le> st_nextEventId (po_snapshot op))
     \<and> sorted (map (st_nextEventId \<circ> po_snapshot) (se_operations e))
     \<and> (\<forall>op \<in> set (se_operations e). st_nextEventId (po_snapshot op) \<le> st_nextEventId (se_store e)
          \<and> (\<forall>st. se_saved e = Some st \<longrightarrow> st_nextEventId st \<le> st_nextEventId (po_snapshot op)))
     \<and> (\<forall>st. se_saved e = Some st \<longrightarrow> st_nextEventId st \<le> st_nextEventId (se_store e))"

definition guarded_ok :: "SessionEntry \<Rightarrow> (SessionEventEnvelope \<times> bool) list \<Rightarrow> bool" where
  "guarded_ok e hist \<longleftrightarrow> (\<forall>(v, guarded) \<in> set hist. guarded \<longrightarrow> saved_up_to e (ev_id v + 1)
     \<or> (\<exists>(t, s) \<in> set (se_barriers e). s \<le> ev_id v \<and> ev_id v < t))"

definition entry_ok :: "int \<Rightarrow> SessionEntry \<Rightarrow> (SessionEventEnvelope \<times> bool) list \<Rightarrow> bool" where
  "entry_ok n e hist \<longleftrightarrow> log_ok n (map fst hist) (se_store e)
     \<and> se_published e = take (nat (st_publishableNextEventId (se_store e) - n)) (map fst hist)
     \<and> barriers_ok e \<and> saves_ok e \<and> guarded_ok e hist"

lemma enqueue_ok:
  assumes "entry_ok n e hist" and "\<And>t. barrier = Some t \<Longrightarrow> t \<le> st_nextEventId (se_store e)"
  shows "entry_ok n (enqueuePersist e barrier) hist"
proof (cases "se_failed e")
  case True
  with assms(1) show ?thesis by (simp add: enqueuePersist_def)
next
  case False
  let ?e = "enqueuePersist e barrier"
  have fields: "se_store ?e = se_store e" "se_barriers ?e = se_barriers e" "se_saved ?e = se_saved e"
      "se_continuations ?e = se_continuations e" "se_published ?e = se_published e"
      "se_operations ?e = se_operations e @ [\<lparr> po_snapshot = se_store e, po_barrier = barrier \<rparr>]"
    using False by (simp_all add: enqueuePersist_def)
  have "saves_ok ?e"
    using assms unfolding entry_ok_def saves_ok_def saved_up_to_def fields by (auto simp: sorted_append)
  with assms(1) show ?thesis
    unfolding entry_ok_def barriers_ok_def guarded_ok_def saved_up_to_def fields by simp
qed

lemma update_fresh: "k \<notin> fst ` set d \<Longrightarrow> AList.update k v d = d @ [(k, v)]"
  by (induction d) auto

text \<open>The store has recorded more envelopes and published up to the same cursor, or all of them
  with no barrier open.\<close>

lemma saves_ok_recorded:
  assumes "saves_ok e" "st_nextEventId (se_store e) \<le> st_nextEventId st'"
  shows "saves_ok (e\<lparr>se_store := st'\<rparr>)"
  using assms unfolding saves_ok_def saved_up_to_def by fastforce

lemma guarded_recorded:
  assumes ok: "entry_ok n e hist" and log: "log_ok n (map fst hist @ ws) st'"
    and pub: "st_publishableNextEventId st' = st_publishableNextEventId (se_store e)"
    and more: "st_nextEventId (se_store e) < st_nextEventId st'"
  shows "entry_ok n (trackPublicationBarrier (e\<lparr>se_store := st'\<rparr>) (st_nextEventId (se_store e)) (st_nextEventId st'))
    (hist @ map (\<lambda>v. (v, True)) ws)"
proof -
  let ?next = "st_nextEventId (se_store e)" and ?next' = "st_nextEventId st'"
  let ?b = "se_barriers e @ [(?next', ?next)]"
  have old: "log_ok n (map fst hist) (se_store e)" "barriers_ok e" "saves_ok e" "guarded_ok e hist"
      "se_published e = take (nat (st_publishableNextEventId (se_store e) - n)) (map fst hist)"
    using ok by (auto simp: entry_ok_def)
  have "?next' \<notin> fst ` set (se_barriers e)"
    using old(2) more by (force simp: barriers_ok_def)
  then have e': "trackPublicationBarrier (e\<lparr>se_store := st'\<rparr>) ?next ?next'
      = e\<lparr>se_store := st', se_barriers := ?b\<rparr>"
    by (simp add: trackPublicationBarrier_def update_fresh)
  have barriers: "barriers_ok (e\<lparr>se_store := st', se_barriers := ?b\<rparr>)"
    using old(1,2) pub more by (force simp: barriers_ok_def log_ok_def)
  have ids: "?next \<le> ev_id v \<and> ev_id v < ?next'" if "v \<in> set ws" for v
  proof -
    have "ids_from ?next ws" "?next' = ?next + int (length ws)"
      using log old(1) by (auto simp: log_ok_def ids_from_append)
    from ids_from_mem [OF this(1) that] this(2) show ?thesis by simp
  qed
  have guarded: "guarded_ok (e\<lparr>se_store := st', se_barriers := ?b\<rparr>) (hist @ map (\<lambda>v. (v, True)) ws)"
    using old(4) ids unfolding guarded_ok_def saved_up_to_def by fastforce
  have le: "nat (st_publishableNextEventId (se_store e) - n) \<le> length hist"
    using old(1) unfolding log_ok_def length_map by linarith
  have "saves_ok (e\<lparr>se_store := st', se_barriers := ?b\<rparr>)"
    using saves_ok_recorded [OF old(3), of st'] more by (simp add: saves_ok_def saved_up_to_def)
  with barriers guarded log pub old(5) le show ?thesis
    unfolding e' entry_ok_def by (simp add: comp_def)
qed

lemma unguarded_recorded:
  assumes ok: "entry_ok n e hist" and log: "log_ok n (map fst hist @ ws) st'"
    and off: "st_eventOffset st' \<le> st_publishableNextEventId (se_store e)"
    and pub: "st_publishableNextEventId (se_store e) \<le> st_publishableNextEventId st'"
    and closed: "se_barriers e = [] \<or> st_publishableNextEventId st' = st_publishableNextEventId (se_store e)"
  shows "entry_ok n (e\<lparr>se_store := st', se_published := se_published e
      @ emitPublishableRange st' (st_publishableNextEventId (se_store e)) (st_publishableNextEventId st')\<rparr>)
    (hist @ map (\<lambda>v. (v, False)) ws)"
proof -
  let ?pub = "st_publishableNextEventId (se_store e)"
  have old: "log_ok n (map fst hist) (se_store e)" "barriers_ok e" "saves_ok e" "guarded_ok e hist"
      "se_published e = take (nat (?pub - n)) (map fst hist)"
    using ok by (auto simp: entry_ok_def)
  have bounds: "n \<le> ?pub" "?pub \<le> n + int (length hist)" "st_publishableNextEventId st' \<le> st_nextEventId st'"
      "st_nextEventId (se_store e) \<le> st_nextEventId st'"
    using old(1) log by (auto simp: log_ok_def)
  have "nat (?pub - n) - length (map fst hist) = 0"
    using bounds(1,2) unfolding length_map by linarith
  then have seen: "se_published e = take (nat (?pub - n)) (map fst hist @ ws)"
    using old(5) by (simp add: take_append)
  have published: "se_published e @ emitPublishableRange st' ?pub (st_publishableNextEventId st')
      = take (nat (st_publishableNextEventId st' - n)) (map fst hist @ ws)"
    unfolding seen by (rule emitted_extends [OF log off bounds(1) pub bounds(3)])
  have "saves_ok (e\<lparr>se_store := st'\<rparr>)"
    using saves_ok_recorded [OF old(3) bounds(4)] .
  then show ?thesis
    using log published old(2,4) closed bounds(4)
    by (auto simp: entry_ok_def barriers_ok_def saves_ok_def guarded_ok_def saved_up_to_def comp_def)
qed

lemma trim_log:
  assumes "log_ok n vs st" "backlog st \<le> MAX_EVENTS"
  shows "log_ok n vs (trimPublished st)"
proof (cases "int (length (st_events st)) > MAX_EVENTS")
  case True
  let ?d = "int (length (st_events st)) - MAX_EVENTS"
  have st: "n \<le> st_eventOffset st" "st_nextEventId st = n + int (length vs)"
      "st_events st = drop (nat (st_eventOffset st - n)) vs" "st_eventOffset st \<le> st_nextEventId st"
    using assms(1) by (auto simp: log_ok_def)
  have fields: "st_events (trimPublished st) = drop (nat ?d) (st_events st)"
      "st_eventOffset (trimPublished st) = st_eventOffset st + ?d"
      "st_nextEventId (trimPublished st) = st_nextEventId st"
      "st_publishableNextEventId (trimPublished st) = st_publishableNextEventId st"
    using True by (simp_all add: trimPublished_def Let_def)
  have "int (length (st_events st)) = st_nextEventId st - st_eventOffset st"
    using st by simp
  then have off: "st_eventOffset st + ?d \<le> st_publishableNextEventId st"
    using assms(2) unfolding backlog_def by linarith
  have "nat ?d + nat (st_eventOffset st - n) = nat (st_eventOffset st + ?d - n)"
    using True st(1) by linarith
  then have "st_events (trimPublished st) = drop (nat (st_eventOffset (trimPublished st) - n)) vs"
    unfolding fields(1,2) by (subst st(3)) (simp only: drop_drop)
  then show ?thesis
    using assms(1) off True fields by (auto simp: log_ok_def)
qed (use assms in \<open>simp add: trimPublished_def\<close>)

lemma trim_cursors [simp]:
  "st_nextEventId (trimPublished st) = st_nextEventId st"
  "st_publishableNextEventId (trimPublished st) = st_publishableNextEventId st"
  by (simp_all add: trimPublished_def Let_def)

lemma saved_up_to_mono: "saved_up_to e i \<Longrightarrow> j \<le> i \<Longrightarrow> saved_up_to e j"
  by (auto simp: saved_up_to_def option_test_iff)

lemma entry_ok_republished:
  assumes "saves_ok e" "log_ok n (map fst hist) st'"
    and "p = take (nat (st_publishableNextEventId st' - n)) (map fst hist)"
    and "barriers_ok (e\<lparr>se_barriers := bs, se_store := st'\<rparr>)" "guarded_ok (e\<lparr>se_barriers := bs\<rparr>) hist"
    and "st_nextEventId st' = st_nextEventId (se_store e)"
  shows "entry_ok n (e\<lparr>se_barriers := bs, se_store := st', se_published := p\<rparr>) hist"
  using assms saves_ok_recorded [OF assms(1), of st']
  by (simp add: entry_ok_def barriers_ok_def saves_ok_def guarded_ok_def saved_up_to_def)

text \<open>A resolved barrier: the cursor moves to the next open one.\<close>

lemma resolve_ok:
  assumes ok: "entry_ok n e hist" and saved: "saved_up_to e t" and bound: "backlog (se_store e) \<le> MAX_EVENTS"
  shows "entry_ok n (resolvePublicationBarrier e t) hist"
proof -
  let ?st = "se_store e"
  let ?bs = "AList.delete t (se_barriers e)"
  let ?pub = "max (st_publishableNextEventId ?st) (if ?bs = [] then st_nextEventId ?st else Min (snd ` set ?bs))"
  let ?st' = "?st\<lparr>st_publishableNextEventId := ?pub\<rparr>"
  have old: "log_ok n (map fst hist) ?st" "barriers_ok e" "saves_ok e" "guarded_ok e hist"
      "se_published e = take (nat (st_publishableNextEventId ?st - n)) (map fst hist)"
    using ok by (auto simp: entry_ok_def)
  have sub: "set ?bs = {p \<in> set (se_barriers e). fst p \<noteq> t}"
    by (auto simp: AList.delete_eq)
  have above: "?pub \<le> s" if "(u, s) \<in> set ?bs" for u s
  proof -
    have "?bs \<noteq> []" "s \<in> snd ` set ?bs" using that by (force)+
    moreover have "st_publishableNextEventId ?st \<le> s"
      using old(2) that by (auto simp: barriers_ok_def sub)
    ultimately show ?thesis by simp
  qed
  have next': "?pub \<le> st_nextEventId ?st"
  proof (cases ?bs)
    case Nil
    then show ?thesis using old(1) by (simp add: log_ok_def)
  next
    case (Cons p ps)
    obtain u s where p: "p = (u, s)" by (cases p)
    then have mem: "(u, s) \<in> set ?bs" using Cons by simp
    then have "s < u" "u \<le> st_nextEventId ?st"
      using old(2) by (auto simp: barriers_ok_def sub)
    with above [OF mem] show ?thesis by linarith
  qed
  have log: "log_ok n (map fst hist) ?st'"
    using old(1) next' by (auto simp: log_ok_def)
  have "backlog ?st' \<le> MAX_EVENTS"
    using bound by (simp add: backlog_def)
  note trimmed = trim_log [OF log this]
  have "saved_up_to e (ev_id v + 1) \<or> (\<exists>(u, s) \<in> set ?bs. s \<le> ev_id v \<and> ev_id v < u)"
    if "(v, True) \<in> set hist" for v
  proof -
    from old(4) that consider "saved_up_to e (ev_id v + 1)"
      | u s where "(u, s) \<in> set (se_barriers e)" "s \<le> ev_id v" "ev_id v < u"
      by (fastforce simp: guarded_ok_def)
    then show ?thesis
    proof cases
      case 1
      then show ?thesis ..
    next
      case 2
      then show ?thesis
        using saved_up_to_mono [OF saved, of "ev_id v + 1"] by (cases "u = t") (force simp: sub)+
    qed
  qed
  then have guarded: "guarded_ok (e\<lparr>se_barriers := ?bs\<rparr>) hist"
    unfolding guarded_ok_def saved_up_to_def by (simp add: case_prod_beta) (metis prod.collapse)
  have barriers: "barriers_ok (e\<lparr>se_barriers := ?bs, se_store := trimPublished ?st'\<rparr>)"
    using old(2) above by (auto simp: barriers_ok_def sub)
  have published: "se_published e @ emitPublishableRange ?st' (st_publishableNextEventId ?st) ?pub
      = take (nat (?pub - n)) (map fst hist)"
    unfolding old(5) using old(1) next'
    by (intro emitted_extends [OF log]) (auto simp: log_ok_def)
  show ?thesis
  proof (cases "?pub = st_publishableNextEventId ?st")
    case True
    then have "resolvePublicationBarrier e t = e\<lparr>se_barriers := ?bs\<rparr>"
      by (simp add: resolvePublicationBarrier_def Let_def)
    moreover have "barriers_ok (e\<lparr>se_barriers := ?bs\<rparr>)"
      using old(2) by (auto simp: barriers_ok_def sub)
    ultimately show ?thesis
      using old guarded by (simp add: entry_ok_def saves_ok_def saved_up_to_def)
  next
    case False
    then have e': "resolvePublicationBarrier e t = e\<lparr>se_barriers := ?bs, se_store := trimPublished ?st',
        se_published := se_published e @ emitPublishableRange ?st' (st_publishableNextEventId ?st) ?pub\<rparr>"
      unfolding resolvePublicationBarrier_def Let_def by simp
    show ?thesis
      unfolding e'
      by (rule entry_ok_republished [OF old(3) trimmed _ barriers guarded]) (simp_all add: published)
  qed
qed

section \<open>Every step keeps the invariant\<close>

lemma append_ok:
  assumes ok: "entry_ok n e hist" and step: "appendEntry lc e event now ctx = Inr e'"
  shows "entry_ok n e' (hist @ map (\<lambda>v. (v, isDurableControlEvent (ev_payload v))) (added (se_store e) (se_store e')))"
proof -
  let ?st = "se_store e" and ?ev = "toDurableSessionEvent event"
  let ?v = "\<lparr> ev_id = st_nextEventId ?st, ev_createdAt = now, ev_payload = ?ev \<rparr>"
  let ?durable = "isDurableControlEvent ?ev"
  let ?pub = "if ?durable \<or> se_barriers e \<noteq> [] then st_publishableNextEventId ?st else st_nextEventId ?st + 1"
  have log: "log_ok n (map fst hist) ?st" "st_eventOffset ?st \<le> st_nextEventId ?st"
      "st_publishableNextEventId ?st \<le> st_nextEventId ?st"
    using ok by (auto simp: entry_ok_def log_ok_def)
  show ?thesis
  proof (cases "isDuplicateLifecycle ?st ?ev")
    case True
    then have "e' = e" using step by (simp add: appendEntry_def Let_def)
    moreover have "added ?st ?st = []"
      using added_log [of n "map fst hist" ?st "[]" ?st] log by simp
    ultimately show ?thesis using ok by simp
  next
    case False
    then obtain st' where rec: "recordEvent lc ?st ?ev ?pub now ctx = Inr st'"
      using step by (auto simp: appendEntry_def Let_def bindE_Inr_iff simp del: if_image_distrib)
    have pub: "st_publishableNextEventId ?st \<le> ?pub" "?pub \<le> st_nextEventId ?st + 1"
      using log by auto
    note st' = recordEvent_log [OF log(1) rec pub]
    let ?emitted = "if ?durable then [] else emitPublishableRange st' (st_publishableNextEventId ?st) ?pub"
    let ?stored = "e\<lparr>se_store := st', se_published := se_published e @ ?emitted\<rparr>"
    have e': "e' = (if ?durable then enqueuePersist (trackPublicationBarrier ?stored (st_nextEventId ?st)
          (st_nextEventId st')) (Some (st_nextEventId st'))
        else if persistForEvent ?ev then enqueuePersist ?stored None else ?stored)"
      using step False rec by (simp add: appendEntry_def Let_def)
    have added: "added ?st (se_store e') = [?v]"
    proof -
      have "se_store e' = st'"
        unfolding e' by (simp add: enqueuePersist_def trackPublicationBarrier_def)
      then show ?thesis
        using added_log [OF log(1) st'(1)] st'(4) log by simp
    qed
    show ?thesis
    proof (cases ?durable)
      case True
      then have "e' = enqueuePersist (trackPublicationBarrier (e\<lparr>se_store := st'\<rparr>) (st_nextEventId ?st)
          (st_nextEventId st')) (Some (st_nextEventId st'))"
        unfolding e' by simp
      moreover have "entry_ok n (trackPublicationBarrier (e\<lparr>se_store := st'\<rparr>) (st_nextEventId ?st)
          (st_nextEventId st')) (hist @ map (\<lambda>v. (v, True)) [?v])"
        using st' True by (intro guarded_recorded [OF ok st'(1)]) simp_all
      ultimately show ?thesis
        unfolding added using True by (auto intro!: enqueue_ok simp: trackPublicationBarrier_def)
    next
      case False
      have "entry_ok n ?stored (hist @ map (\<lambda>v. (v, False)) [?v])"
        using unguarded_recorded [OF ok st'(1) st'(4)] st' pub False by (auto split: if_splits)
      then show ?thesis
        unfolding added using False by (auto intro!: enqueue_ok simp: e')
    qed
  qed
qed

lemma patched_log: "log_ok n vs st \<Longrightarrow> log_ok n vs (st\<lparr>st_shared := s\<rparr>)"
  by (simp add: log_ok_def)

lemma commit_ok:
  assumes ok: "entry_ok n e hist" and step: "commitMutation lc e patch events = Inr e'"
  shows "entry_ok n e' (hist @ map (\<lambda>v. (v, True)) (added (se_store e) (se_store e')))"
proof -
  let ?st = "se_store e"
  have log: "log_ok n (map fst hist) ?st" "st_eventOffset ?st \<le> st_nextEventId ?st"
      "st_publishableNextEventId ?st \<le> st_nextEventId ?st"
    using ok by (auto simp: entry_ok_def log_ok_def)
  show ?thesis
  proof (cases "patch = no_patch \<and> events = []")
    case True
    then have "e' = e" using step by (simp add: commitMutation_def split: if_splits)
    moreover have "added ?st ?st = []"
      using added_log [of n "map fst hist" ?st "[]" ?st] log by simp
    ultimately show ?thesis using ok by simp
  next
    case False
    let ?patched = "?st\<lparr>st_shared := apply_patch (st_shared ?st) patch\<rparr>"
    from False step obtain st' where
        run: "appendEvents lc ?patched (map (\<lambda>(event, t). (toDurableSessionEvent event, t)) events) = Inr st'"
      and e': "e' = (let stored = e\<lparr>se_store := st'\<rparr> in
           if st_nextEventId st' > st_nextEventId ?st
           then enqueuePersist (trackPublicationBarrier stored (st_nextEventId ?st) (st_nextEventId st'))
             (Some (st_nextEventId st'))
           else enqueuePersist stored None)"
      by (auto simp: commitMutation_def applyMutation_def Let_def bindE_Inr_iff split: if_splits)
    from appendEvents_log [OF patched_log [OF log(1)] run] obtain ws where
        st': "log_ok n (map fst hist @ ws) st'" "st_publishableNextEventId st' = st_publishableNextEventId ?st"
      by auto
    have store: "se_store e' = st'"
      by (simp add: e' Let_def enqueuePersist_def trackPublicationBarrier_def)
    have off: "st_eventOffset st' \<le> st_publishableNextEventId ?st"
      using st' by (simp add: log_ok_def)
    have added: "added ?st st' = ws"
      using added_log [OF log(1) st'(1)] off log by simp
    have len: "st_nextEventId st' = st_nextEventId ?st + int (length ws)"
      using st'(1) log(1) by (simp add: log_ok_def)
    show ?thesis
    proof (cases "ws = []")
      case True
      have "entry_ok n (e\<lparr>se_store := st', se_published := se_published e
          @ emitPublishableRange st' (st_publishableNextEventId ?st) (st_publishableNextEventId st')\<rparr>)
          (hist @ map (\<lambda>v. (v, False)) ws)"
        by (rule unguarded_recorded [OF ok st'(1) off]) (simp_all add: st'(2))
      then have "entry_ok n (e\<lparr>se_store := st'\<rparr>) hist"
        using True by (simp add: st'(2) emitPublishableRange_def)
      then show ?thesis
        using True len added store enqueue_ok [of n "e\<lparr>se_store := st'\<rparr>" hist None] by (simp add: e')
    next
      case False
      then have more: "st_nextEventId ?st < st_nextEventId st'"
        using len by simp
      from guarded_recorded [OF ok st' more] show ?thesis
        using more unfolding store added
        by (auto simp: e' Let_def trackPublicationBarrier_def intro!: enqueue_ok)
    qed
  qed
qed

lemma save_succeeds_ok:
  assumes "entry_ok n e hist"
  shows "entry_ok n (saveSucceeds e) hist"
proof (cases "se_operations e")
  case Nil
  with assms show ?thesis by (simp add: saveSucceeds_def)
next
  case (Cons operation rest)
  let ?e = "saveSucceeds e"
  have fields: "se_store ?e = se_store e" "se_barriers ?e = se_barriers e" "se_published ?e = se_published e"
      "se_operations ?e = rest" "se_saved ?e = Some (po_snapshot operation)"
      "set (se_continuations ?e) = set (se_continuations e) \<union> set_option (po_barrier operation)"
    using Cons by (auto simp: saveSucceeds_def split: option.splits)
  have saves: "saves_ok e" using assms by (simp add: entry_ok_def)
  then have grows: "saved_up_to ?e i" if "saved_up_to e i" for i
    using that Cons unfolding saved_up_to_def fields by (fastforce simp: saves_ok_def option_test_iff)
  have "saves_ok ?e"
    using saves Cons grows unfolding saves_ok_def fields
    by (auto simp: saved_up_to_def fields option_test_iff)
  moreover have "guarded_ok ?e hist"
    using assms grows unfolding entry_ok_def guarded_ok_def fields by fastforce
  ultimately show ?thesis
    using assms unfolding entry_ok_def barriers_ok_def fields by simp
qed

lemma save_fails_ok: "entry_ok n e hist \<Longrightarrow> entry_ok n (saveFails e) hist"
  by (auto simp: saveFails_def entry_ok_def barriers_ok_def saves_ok_def guarded_ok_def saved_up_to_def
      split: list.splits)

lemma continuation_ok:
  assumes "entry_ok n e hist" "backlog (se_store e) \<le> MAX_EVENTS"
  shows "entry_ok n (runContinuation e) hist"
proof (cases "se_continuations e")
  case Nil
  with assms show ?thesis by (simp add: runContinuation_def)
next
  case (Cons t rest)
  let ?e = "e\<lparr>se_continuations := rest\<rparr>"
  have "entry_ok n ?e hist"
    using assms(1) Cons
    by (auto simp: entry_ok_def barriers_ok_def saves_ok_def guarded_ok_def saved_up_to_def)
  moreover have "saved_up_to ?e t"
    using assms(1) Cons by (simp add: entry_ok_def saves_ok_def saved_up_to_def)
  ultimately show ?thesis
    using resolve_ok [of n ?e hist t] assms(2) Cons by (simp add: runContinuation_def)
qed

lemma trace_ok:
  assumes "entry_trace lc e0 e hist" "entry_ok n e0 []"
  shows "entry_ok n e hist"
  using assms
  by (induction rule: entry_trace.induct)
    (simp_all add: append_ok commit_ok save_succeeds_ok save_fails_ok continuation_ok)

text \<open>A store with an empty log, as a new and a loaded Session have it.\<close>

definition empty_log :: "SessionStoreState \<Rightarrow> bool" where
  "empty_log st \<longleftrightarrow> st_events st = [] \<and> st_eventOffset st = st_nextEventId st
     \<and> st_publishableNextEventId st = st_nextEventId st"

lemma entries_start_ok:
  assumes "empty_log st" "e0 = newEntry st \<or> e0 = loadedEntry st"
  shows "entry_ok (st_nextEventId st) e0 []"
  using assms
  by (auto simp: entry_ok_def log_ok_def ids_from_def empty_log_def barriers_ok_def saves_ok_def
      guarded_ok_def newEntry_def loadedEntry_def)

section \<open>Nothing stays behind\<close>

text \<open>
  Without an open barrier the listeners are at the end of the log, and every open barrier still has
  the save or the continuation that will resolve it, until a save fails.
\<close>

definition live_ok :: "SessionEntry \<Rightarrow> bool" where
  "live_ok e \<longleftrightarrow> (se_barriers e = [] \<longrightarrow> backlog (se_store e) = 0)
     \<and> (se_failed e \<or> fst ` set (se_barriers e)
          \<subseteq> set (se_continuations e) \<union> {t. Some t \<in> po_barrier ` set (se_operations e)})"

lemma enqueue_fields [simp]:
  "se_store (enqueuePersist e b) = se_store e" "se_barriers (enqueuePersist e b) = se_barriers e"
  "se_failed (enqueuePersist e b) = se_failed e"
  "se_continuations (enqueuePersist e b) = se_continuations e"
  by (simp_all add: enqueuePersist_def)

lemma live_enqueue: "live_ok e \<Longrightarrow> live_ok (enqueuePersist e b)"
  by (auto simp: live_ok_def) (auto simp: enqueuePersist_def)

lemma live_guarded:
  assumes "live_ok e"
  shows "live_ok (enqueuePersist (trackPublicationBarrier (e\<lparr>se_store := st'\<rparr>) s t) (Some t))"
  using assms
  by (auto simp: live_ok_def enqueuePersist_def trackPublicationBarrier_def dom_update image_iff
      split: if_splits)

lemma live_append:
  assumes "live_ok e" "appendEntry lc e event now ctx = Inr e'"
  shows "live_ok e'"
proof -
  have plain: "live_ok (e\<lparr>se_store := st', se_published := p\<rparr>)"
    if "se_barriers e = [] \<longrightarrow> backlog st' = 0" for st' p
    using assms(1) that by (auto simp: live_ok_def)
  have next': "st_nextEventId st' = st_nextEventId (se_store e) + 1 \<and> st_publishableNextEventId st' = q"
    if "recordEvent lc (se_store e) ev q now ctx = Inr st'" for ev q st'
    using that by (auto simp: recordEvent_def bindE_Inr_iff Let_def)
  show ?thesis
  proof (cases "isDurableControlEvent (toDurableSessionEvent event)")
    case True
    with assms show ?thesis
      by (auto simp: appendEntry_def Let_def bindE_Inr_iff split: if_splits intro: live_guarded)
  next
    case False
    with assms show ?thesis
      by (auto simp: appendEntry_def Let_def bindE_Inr_iff backlog_def dest!: next' split: if_splits
          intro!: live_enqueue plain)
  qed
qed

lemma live_commit:
  assumes ok: "entry_ok n e hist" and "live_ok e" "commitMutation lc e patch events = Inr e'"
  shows "live_ok e'"
proof (cases "patch = no_patch \<and> events = []")
  case True
  with assms show ?thesis by (simp add: commitMutation_def split: if_splits)
next
  case False
  let ?st = "se_store e"
  from False assms(3) obtain st' where
      run: "appendEvents lc (?st\<lparr>st_shared := apply_patch (st_shared ?st) patch\<rparr>)
        (map (\<lambda>(event, t). (toDurableSessionEvent event, t)) events) = Inr st'"
    and e': "e' = (if st_nextEventId st' > st_nextEventId ?st
        then enqueuePersist (trackPublicationBarrier (e\<lparr>se_store := st'\<rparr>) (st_nextEventId ?st) (st_nextEventId st'))
           (Some (st_nextEventId st'))
        else enqueuePersist (e\<lparr>se_store := st'\<rparr>) None)"
    by (auto simp: commitMutation_def applyMutation_def Let_def bindE_Inr_iff split: if_splits)
  have log: "log_ok n (map fst hist) ?st" using ok by (simp add: entry_ok_def)
  obtain ws where "log_ok n (map fst hist @ ws) st'"
      "st_publishableNextEventId st' = st_publishableNextEventId ?st"
    using appendEvents_log [OF patched_log [OF log] run] by auto
  then have "st_nextEventId st' \<le> st_nextEventId ?st \<Longrightarrow> backlog st' = backlog ?st"
    using log by (simp add: log_ok_def backlog_def)
  then have "st_nextEventId st' \<le> st_nextEventId ?st \<Longrightarrow> live_ok (e\<lparr>se_store := st'\<rparr>)"
    using assms(2) by (simp add: live_ok_def)
  then show ?thesis
    using live_guarded [OF assms(2), of st'] by (auto simp: e' intro: live_enqueue)
qed

lemma live_saves: "live_ok e \<Longrightarrow> live_ok (saveSucceeds e)" "live_ok e \<Longrightarrow> live_ok (saveFails e)"
  by (fastforce simp: live_ok_def saveSucceeds_def saveFails_def image_subset_iff
      split: list.splits option.splits)+

lemma live_resolve:
  assumes ok: "entry_ok n e hist" and live: "live_ok (e\<lparr>se_continuations := t # se_continuations e\<rparr>)"
  shows "live_ok (resolvePublicationBarrier e t)"
proof -
  let ?bs = "AList.delete t (se_barriers e)"
  have "fst ` set ?bs = fst ` set (se_barriers e) - {t}"
    by (auto simp: AList.delete_eq)
  moreover have "se_barriers (resolvePublicationBarrier e t) = ?bs"
    by (simp add: resolvePublicationBarrier_def Let_def)
  moreover have "backlog (se_store (resolvePublicationBarrier e t)) = 0" if "?bs = []"
  proof -
    have "st_publishableNextEventId (se_store e) \<le> st_nextEventId (se_store e)"
      using ok by (simp add: entry_ok_def log_ok_def)
    with that show ?thesis by (auto simp: resolvePublicationBarrier_def Let_def backlog_def)
  qed
  moreover have "se_failed (resolvePublicationBarrier e t) = se_failed e"
    "se_continuations (resolvePublicationBarrier e t) = se_continuations e"
    "se_operations (resolvePublicationBarrier e t) = se_operations e"
    by (simp_all add: resolvePublicationBarrier_def Let_def)
  ultimately show ?thesis
    using live by (auto simp: live_ok_def)
qed

lemma popped_ok:
  assumes "entry_ok n e hist" "se_continuations e = t # rest"
  shows "entry_ok n (e\<lparr>se_continuations := rest\<rparr>) hist"
  using assms by (auto simp: entry_ok_def barriers_ok_def saves_ok_def guarded_ok_def saved_up_to_def)

lemma live_continuation:
  assumes "entry_ok n e hist" "live_ok e"
  shows "live_ok (runContinuation e)"
proof (cases "se_continuations e")
  case Nil
  with assms show ?thesis by (simp add: runContinuation_def)
next
  case (Cons t rest)
  have "e\<lparr>se_continuations := t # rest\<rparr> = e"
    using Cons by simp
  with assms(2) have "live_ok (e\<lparr>se_continuations := t # rest\<rparr>)"
    by (simp only:)
  then show ?thesis
    using live_resolve [OF popped_ok [OF assms(1) Cons], of t] Cons by (simp add: runContinuation_def)
qed

lemma trace_live:
  assumes "entry_trace lc e0 e hist" "entry_ok n e0 []" "live_ok e0"
  shows "live_ok e"
  using assms
proof (induction rule: entry_trace.induct)
  case (commit e hist patch events e')
  then show ?case using live_commit trace_ok by blast
next
  case (continued e hist)
  then show ?case using live_continuation trace_ok by blast
qed (auto intro: live_append live_saves)

text \<open>All queued saves succeed, then all continuations run.\<close>

definition settle :: "SessionEntry \<Rightarrow> SessionEntry" where
  "settle e =
    (let e' = (saveSucceeds ^^ length (se_operations e)) e in
     (runContinuation ^^ length (se_continuations e')) e')"

lemma saves_drained:
  assumes "entry_ok n e hist" "live_ok e"
  shows "\<exists>e'. (saveSucceeds ^^ length (se_operations e)) e = e' \<and> entry_ok n e' hist \<and> live_ok e'
    \<and> se_operations e' = [] \<and> se_failed e' = se_failed e \<and> se_store e' = se_store e"
  using assms
proof (induction "se_operations e" arbitrary: e)
  case Nil
  then show ?case by simp
next
  case (Cons operation rest)
  let ?e = "saveSucceeds e"
  have "se_operations ?e = rest" "se_failed ?e = se_failed e" "se_store ?e = se_store e"
    using Cons(2) by (auto simp: saveSucceeds_def split: list.splits option.splits)
  then show ?case
    using Cons(1) [of ?e] Cons(2-) save_succeeds_ok live_saves(1)
    by (simp add: funpow_swap1 flip: Cons(2))
qed

lemma continuations_drained:
  assumes "entry_ok n e hist" "live_ok e" "backlog (se_store e) \<le> MAX_EVENTS"
  shows "\<exists>e'. (runContinuation ^^ length (se_continuations e)) e = e' \<and> entry_ok n e' hist \<and> live_ok e'
    \<and> se_continuations e' = [] \<and> se_failed e' = se_failed e \<and> se_operations e' = se_operations e"
  using assms
proof (induction "se_continuations e" arbitrary: e)
  case Nil
  then show ?case by simp
next
  case (Cons t rest)
  let ?e = "runContinuation e"
  have fields: "se_continuations ?e = rest" "se_failed ?e = se_failed e" "se_operations ?e = se_operations e"
    by (simp_all add: runContinuation_def resolvePublicationBarrier_def Let_def flip: Cons(2))
  have "backlog (se_store ?e) \<le> backlog (se_store e)"
    by (auto simp: runContinuation_def resolvePublicationBarrier_def Let_def backlog_def split: list.splits)
  then show ?case
    using Cons(1) [of ?e] Cons(2-) fields continuation_ok live_continuation
    by (simp add: funpow_swap1 flip: Cons(2))
qed

lemma settled_publishes_all:
  assumes "entry_ok n e hist" "live_ok e" "backlog (se_store e) \<le> MAX_EVENTS" "\<not> se_failed e"
  shows "se_published (settle e) = map fst hist"
proof -
  obtain e1 where e1: "(saveSucceeds ^^ length (se_operations e)) e = e1" "entry_ok n e1 hist" "live_ok e1"
      "se_operations e1 = []" "\<not> se_failed e1" "se_store e1 = se_store e"
    using saves_drained [OF assms(1,2)] assms(4) by auto
  obtain e2 where e2: "(runContinuation ^^ length (se_continuations e1)) e1 = e2" "entry_ok n e2 hist"
      "live_ok e2" "se_continuations e2 = []" "\<not> se_failed e2" "se_operations e2 = []"
    using continuations_drained [OF e1(2,3)] e1 assms(3) by auto
  have "se_barriers e2 = []"
    using e2 by (auto simp: live_ok_def)
  then have "st_publishableNextEventId (se_store e2) = n + int (length hist)"
    using e2(2,3) by (simp add: live_ok_def entry_ok_def log_ok_def backlog_def)
  then have "se_published e2 = map fst hist"
    using e2(2) by (simp add: entry_ok_def)
  then show ?thesis
    using e1(1) e2(1) by (simp add: settle_def Let_def)
qed

lemma entries_start_live:
  "empty_log st \<Longrightarrow> e0 = newEntry st \<or> e0 = loadedEntry st \<Longrightarrow> live_ok e0"
  by (auto simp: live_ok_def empty_log_def newEntry_def loadedEntry_def backlog_def)

section \<open>The bound on the backlog\<close>

text \<open>
  An append drops published envelopes only; the trimming after a resolved barrier drops by length
  alone, and with more than \<open>MAX_EVENTS\<close> unpublished envelopes it discards some of those.
\<close>

lemma trim_loses_backlog:
  assumes "log_ok n vs st" "MAX_EVENTS < backlog st"
  shows "st_publishableNextEventId (trimPublished st) < st_eventOffset (trimPublished st)"
proof -
  have "int (length (st_events st)) = st_nextEventId st - st_eventOffset st"
    using assms(1) by (auto simp: log_ok_def)
  then show ?thesis
    using assms by (simp add: trimPublished_def Let_def backlog_def log_ok_def)
qed

section \<open>Properties\<close>

text \<open>
  C1: Whatever appends, durable mutations, settled saves and continuations are interleaved, a listener
  of a Session is handed a prefix of the recorded envelopes, in order, numbered without a gap from the
  cursor the Session was opened with.
\<close>

theorem listeners_see_log_in_order:
  assumes "empty_log st" "e0 = newEntry st \<or> e0 = loadedEntry st" "entry_trace lc e0 e hist"
  shows "ids_from (st_nextEventId st) (se_published e)
    \<and> se_published e = take (length (se_published e)) (map fst hist)"
proof -
  have "entry_ok (st_nextEventId st) e hist"
    using trace_ok [OF assms(3) entries_start_ok [OF assms(1,2)]] .
  then have "ids_from (st_nextEventId st) (map fst hist)" "\<exists>k. se_published e = take k (map fst hist)"
    by (auto simp: entry_ok_def log_ok_def)
  then show ?thesis
    using ids_from_append by (metis append_take_drop_id take_all_iff take_take min.idem length_take nle_le)
qed

text \<open>
  C4: An envelope that a durable mutation or a control event recorded is handed to a listener only
  once a snapshot that holds it has been saved.
\<close>

theorem guarded_events_published_after_save:
  assumes "empty_log st" "e0 = newEntry st \<or> e0 = loadedEntry st" "entry_trace lc e0 e hist"
    and "(v, True) \<in> set hist" "v \<in> set (se_published e)"
  shows "option_test (\<lambda>snapshot. ev_id v < st_nextEventId snapshot) (se_saved e)"
proof -
  have ok: "entry_ok (st_nextEventId st) e hist"
    using trace_ok [OF assms(3) entries_start_ok [OF assms(1,2)]] .
  let ?pub = "st_publishableNextEventId (se_store e)"
  have "ids_from (st_nextEventId st) (take (nat (?pub - st_nextEventId st)) (map fst hist))"
    using ok ids_from_append unfolding entry_ok_def log_ok_def by (metis append_take_drop_id)
  moreover have "v \<in> set (take (nat (?pub - st_nextEventId st)) (map fst hist))" "st_nextEventId st \<le> ?pub"
    using ok assms(5) by (auto simp: entry_ok_def log_ok_def)
  ultimately have "ev_id v < ?pub"
    using ids_from_mem(2) by fastforce
  moreover have "?pub \<le> s" if "(t, s) \<in> set (se_barriers e)" for t s
    using ok that by (auto simp: entry_ok_def barriers_ok_def)
  ultimately show ?thesis
    using ok assms(4) by (fastforce simp: entry_ok_def guarded_ok_def saved_up_to_def option_test_iff)
qed

text \<open>
  C5: As long as no save has failed, once every queued save has succeeded and its continuation has
  run, a listener has been handed every recorded envelope: no barrier stays open.
\<close>

theorem settled_saves_publish_everything:
  assumes "empty_log st" "e0 = newEntry st \<or> e0 = loadedEntry st" "entry_trace lc e0 e hist"
    and "\<not> se_failed e" "backlog (se_store e) \<le> MAX_EVENTS"
  shows "se_published (settle e) = map fst hist"
  by (rule settled_publishes_all [OF trace_ok [OF assms(3) entries_start_ok [OF assms(1,2)]]
      trace_live [OF assms(3) entries_start_ok [OF assms(1,2)] entries_start_live [OF assms(1,2)]] assms(5,4)])

end
