(* ===== verification/SessionReplica.thy ===== *)
theory SessionReplica
  imports SessionLog
begin

text \<open>
  The browser's replica of a Session, apps/web/src/store/session-store.ts: envelopes from the global
  event stream are applied when they are next in line, reported as a gap when they are ahead, and
  buffered while an authoritative snapshot is awaited; applying the snapshot drains the buffer.

  The replica holds the fields of the projection in \<open>wb_shared\<close> (its \<open>cwd\<close> is not read: the
  replica's own is \<open>wb_cwd\<close>, null until known). A payload is a value the wire guard has admitted.
  \<open>uuid i n\<close> is the \<open>n\<close>-th identifier \<open>createClientUuid\<close> yields while the envelope \<open>i\<close> is reduced.
\<close>

section \<open>The state\<close>

datatype LocalSendingStatus = Sending | Retryable

record LocalSendingMessage =
  ls_clientRequestId :: jstring
  ls_content :: jstring
  ls_attachments :: "AttachmentDescriptor list"
  ls_createdAt :: int
  ls_status :: LocalSendingStatus
  ls_requestedModelSelection :: RequestedModelSelection

record GlobalSessionEventEnvelope =
  ge_slug :: jstring
  ge_sessionId :: jstring
  ge_eventId :: int
  ge_createdAt :: int
  ge_payload :: SessionEventPayload
  ge_agentName :: jstring

record SessionNextModelSelection =
  nms_requested :: RequestedModelSelection
  nms_resolved :: ExecutionModelBindingSummary

record WebSessionStoreState =
  wb_slug :: "jstring option"
  wb_shared :: SessionProjection
  wb_hydrated :: bool
  wb_createdAt :: int
  wb_cwd :: "jstring option"
  wb_agentName :: "jstring option"
  wb_localSendingMessages :: "LocalSendingMessage list"
  wb_nextModelSelection :: "SessionNextModelSelection option"
  wb_activeModelBinding :: "ExecutionModelBindingSummary option"
  wb_events :: "SessionEventEnvelope list"
  wb_eventOffset :: int
  wb_nextEventId :: int
  wb_awaiting :: bool
  wb_generation :: int
  wb_buffer :: "(int, int \<times> GlobalSessionEventEnvelope) dict"

datatype RemoteEnvelopeApplyResult = RAApplied | RADuplicate | RAIgnored | RAGap | RAInvalid | RARefreshRequired
datatype SessionSnapshotApplyResult = SAApplied | SAIgnored | SAStaleGeneration | SARefreshRequired

definition MAX_PENDING_REMOTE_EVENTS :: nat where "MAX_PENDING_REMOTE_EVENTS = 1000"

type_synonym client_uuid = "int \<Rightarrow> nat \<Rightarrow> jstring"

section \<open>Applying one envelope\<close>

definition envelope_context :: "client_uuid \<Rightarrow> SessionEventEnvelope \<Rightarrow> ReduceContext" where
  "envelope_context uuid v = \<lparr> rc_timestamp = ev_createdAt v, rc_generateId = uuid (ev_id v) \<rparr>"

fun message_request_id :: "SessionMessage \<Rightarrow> jstring option" where
  "message_request_id (UserMessage u) = um_clientRequestId u"
| "message_request_id (AssistantMessage a) = None"

text \<open>The optimistic bubbles that no durable message has replaced.\<close>

definition pending_locals :: "SessionProjection \<Rightarrow> LocalSendingMessage list \<Rightarrow> LocalSendingMessage list" where
  "pending_locals s locals =
    (let durableRequestIds = map message_request_id (messages s)
           @ map (\<lambda>m. Some (pm_clientRequestId m)) (pendingMessages s) in
     filter (\<lambda>l. Some (ls_clientRequestId l) \<notin> set durableRequestIds) locals)"

fun model_binding_updates :: "StreamEvent \<Rightarrow> WebSessionStoreState \<Rightarrow> WebSessionStoreState" where
  "model_binding_updates (Lifecycle (ExecutionStart e)) w = w\<lparr>wb_activeModelBinding := Some (es_binding e)\<rparr>"
| "model_binding_updates (Lifecycle (ExecutionResumed e)) w = w\<lparr>wb_activeModelBinding := Some (re_binding e)\<rparr>"
| "model_binding_updates (Lifecycle (ExecutionEnd e)) w = w\<lparr>wb_activeModelBinding := None\<rparr>"
| "model_binding_updates (ModelSelectionChanged sel) w = w\<lparr>wb_nextModelSelection := None\<rparr>"
| "model_binding_updates _ w = w"

definition recordEnvelope :: "WebSessionStoreState \<Rightarrow> SessionEventEnvelope \<Rightarrow> WebSessionStoreState" where
  "recordEnvelope w v =
    (let events = wb_events w @ [v];
         dropCount = (if int (length events) > MAX_EVENTS then int (length events) - MAX_EVENTS else 0) in
     w\<lparr>wb_events := drop (nat dropCount) events, wb_eventOffset := wb_eventOffset w + dropCount,
       wb_nextEventId := ev_id v + 1\<rparr>)"

definition appendEnvelopeToState ::
  "collation \<Rightarrow> client_uuid \<Rightarrow> WebSessionStoreState \<Rightarrow> SessionEventEnvelope \<Rightarrow> bool
   \<Rightarrow> js_error + WebSessionStoreState" where
  "appendEnvelopeToState lc uuid w v applyPayload =
    (case ev_payload v of
       ShutdownPayload _ \<Rightarrow> Inr (recordEnvelope w v)
     | StreamPayload event \<Rightarrow>
         (if \<not> applyPayload then Inr (recordEnvelope w v)
          else bindE (reduceStreamEvent lc (wb_shared w) event (envelope_context uuid v)) (\<lambda>partial.
            (let s' = apply_patch (wb_shared w) partial in
             Inr (model_binding_updates event ((recordEnvelope w v)\<lparr>
               wb_shared := s',
               wb_cwd := (case p_cwd partial of None \<Rightarrow> wb_cwd w | Some c \<Rightarrow> Some c),
               wb_localSendingMessages := pending_locals s' (wb_localSendingMessages w)\<rparr>)))))) "

definition toLocalEnvelope :: "GlobalSessionEventEnvelope \<Rightarrow> SessionEventEnvelope" where
  "toLocalEnvelope g = \<lparr> ev_id = ge_eventId g, ev_createdAt = ge_createdAt g, ev_payload = ge_payload g \<rparr>"

definition adopt_agent :: "GlobalSessionEventEnvelope \<Rightarrow> WebSessionStoreState \<Rightarrow> WebSessionStoreState" where
  "adopt_agent g w =
    (if ge_agentName g \<noteq> [] \<and> wb_agentName w \<noteq> Some (ge_agentName g)
     then w\<lparr>wb_agentName := Some (ge_agentName g)\<rparr> else w)"

fun envelope_transition :: "WebSessionStoreState \<Rightarrow> SessionEventPayload \<Rightarrow> ExecutionTransitionValidation" where
  "envelope_transition w (StreamPayload (Lifecycle e)) = validateExecutionTransition (executions (wb_shared w)) e"
| "envelope_transition w _ = Valid"

definition applyContiguousRemoteEnvelope ::
  "collation \<Rightarrow> client_uuid \<Rightarrow> WebSessionStoreState \<Rightarrow> GlobalSessionEventEnvelope
   \<Rightarrow> js_error + (WebSessionStoreState \<times> RemoteEnvelopeApplyResult)" where
  "applyContiguousRemoteEnvelope lc uuid w g =
    (case envelope_transition w (ge_payload g) of
       Invalid _ \<Rightarrow> Inr (w, RAInvalid)
     | Duplicate \<Rightarrow> bindE (appendEnvelopeToState lc uuid w (toLocalEnvelope g) False) (\<lambda>w'. Inr (w', RADuplicate))
     | Valid \<Rightarrow> bindE (appendEnvelopeToState lc uuid w (toLocalEnvelope g) True) (\<lambda>w'.
         Inr (adopt_agent g w', RAApplied)))"

section \<open>Batches of deltas\<close>

text \<open>The envelopes of a batch from the next id on; nothing when one is missing.\<close>

fun contiguous_from ::
  "int \<Rightarrow> GlobalSessionEventEnvelope list \<Rightarrow> GlobalSessionEventEnvelope list option" where
  "contiguous_from expected [] = Some []"
| "contiguous_from expected (g # gs) =
    (if ge_eventId g < expected then contiguous_from expected gs
     else if ge_eventId g > expected then None
     else map_option (\<lambda>rest. g # rest) (contiguous_from (expected + 1) gs))"

fun applyEnvelopes ::
  "collation \<Rightarrow> client_uuid \<Rightarrow> WebSessionStoreState \<Rightarrow> GlobalSessionEventEnvelope list
   \<Rightarrow> js_error + WebSessionStoreState" where
  "applyEnvelopes lc uuid w [] = Inr w"
| "applyEnvelopes lc uuid w (g # gs) =
     bindE (appendEnvelopeToState lc uuid w (toLocalEnvelope g) True) (\<lambda>w'.
       applyEnvelopes lc uuid (adopt_agent g w') gs)"

definition applyContiguousRemoteDeltaBatch ::
  "collation \<Rightarrow> client_uuid \<Rightarrow> WebSessionStoreState \<Rightarrow> GlobalSessionEventEnvelope list
   \<Rightarrow> js_error + (WebSessionStoreState \<times> RemoteEnvelopeApplyResult)" where
  "applyContiguousRemoteDeltaBatch lc uuid w gs =
    (case contiguous_from (wb_nextEventId w) gs of
       None \<Rightarrow> Inr (w, RAGap)
     | Some [] \<Rightarrow> Inr (w, RAIgnored)
     | Some run \<Rightarrow> bindE (applyEnvelopes lc uuid w run) (\<lambda>w'. Inr (w', RAApplied)))"

section \<open>The recovery buffer\<close>

text \<open>Buffering past the bound empties the buffer and asks for another snapshot.\<close>

definition bufferRemoteEnvelope ::
  "WebSessionStoreState \<Rightarrow> GlobalSessionEventEnvelope \<Rightarrow> int \<Rightarrow> WebSessionStoreState \<times> bool" where
  "bufferRemoteEnvelope w g generation =
    (let buffer = AList.update (ge_eventId g) (generation, g) (wb_buffer w) in
     if length buffer \<le> MAX_PENDING_REMOTE_EVENTS then (w\<lparr>wb_buffer := buffer\<rparr>, True)
     else (w\<lparr>wb_buffer := []\<rparr>, False))"

fun bufferEnvelopes ::
  "WebSessionStoreState \<Rightarrow> GlobalSessionEventEnvelope list \<Rightarrow> int \<Rightarrow> WebSessionStoreState \<times> bool" where
  "bufferEnvelopes w [] generation = (w, True)"
| "bufferEnvelopes w (g # gs) generation =
    (case bufferRemoteEnvelope w g generation of
       (w', True) \<Rightarrow> bufferEnvelopes w' gs generation
     | (w', False) \<Rightarrow> (w', False))"

definition discardBufferedRemoteEventsThrough :: "WebSessionStoreState \<Rightarrow> int \<Rightarrow> WebSessionStoreState" where
  "discardBufferedRemoteEventsThrough w maximumEventId =
     w\<lparr>wb_buffer := filter (\<lambda>(i, item). \<not> i \<le> maximumEventId) (wb_buffer w)\<rparr>"

fun counts_up :: "int \<Rightarrow> int list \<Rightarrow> bool" where
  "counts_up expected [] = True"
| "counts_up expected (i # is) = (i = expected \<and> counts_up (expected + 1) is)"

text \<open>The loop of \<open>drainRecoveryBuffer\<close>: every round takes an entry out of the buffer.\<close>

function drainLoop ::
  "collation \<Rightarrow> client_uuid \<Rightarrow> WebSessionStoreState \<Rightarrow> js_error + (WebSessionStoreState \<times> bool)" where
  "drainLoop lc uuid w =
    (case map_of (wb_buffer w) (wb_nextEventId w) of
       None \<Rightarrow> Inr (w, wb_buffer w = [])
     | Some (generation, g) \<Rightarrow>
         (let taken = w\<lparr>wb_buffer := AList.delete (wb_nextEventId w) (wb_buffer w)\<rparr> in
          case applyContiguousRemoteEnvelope lc uuid taken g of
            Inl e \<Rightarrow> Inl e
          | Inr (w', outcome) \<Rightarrow>
              (if outcome = RAInvalid then Inr (w'\<lparr>wb_buffer := []\<rparr>, False)
               else drainLoop lc uuid w')))"
  by pat_completeness auto

lemma record_fields [simp]:
  "wb_buffer (recordEnvelope w v) = wb_buffer w" "wb_shared (recordEnvelope w v) = wb_shared w"
  "wb_nextEventId (recordEnvelope w v) = ev_id v + 1" "wb_awaiting (recordEnvelope w v) = wb_awaiting w"
  "wb_generation (recordEnvelope w v) = wb_generation w"
  by (simp_all add: recordEnvelope_def Let_def)

lemma binding_fields [simp]:
  "wb_buffer (model_binding_updates e w) = wb_buffer w" "wb_shared (model_binding_updates e w) = wb_shared w"
  "wb_nextEventId (model_binding_updates e w) = wb_nextEventId w"
  "wb_awaiting (model_binding_updates e w) = wb_awaiting w"
  "wb_generation (model_binding_updates e w) = wb_generation w"
  by (cases "(e, w)" rule: model_binding_updates.cases; simp)+

lemma adopt_fields [simp]:
  "wb_buffer (adopt_agent g w) = wb_buffer w" "wb_shared (adopt_agent g w) = wb_shared w"
  "wb_nextEventId (adopt_agent g w) = wb_nextEventId w" "wb_awaiting (adopt_agent g w) = wb_awaiting w"
  "wb_generation (adopt_agent g w) = wb_generation w"
  by (simp_all add: adopt_agent_def)

lemma append_fields:
  assumes "appendEnvelopeToState lc uuid w v b = Inr w'"
  shows "wb_buffer w' = wb_buffer w \<and> wb_nextEventId w' = ev_id v + 1
    \<and> wb_awaiting w' = wb_awaiting w \<and> wb_generation w' = wb_generation w"
  using assms
  by (auto simp: appendEnvelopeToState_def Let_def bindE_Inr_iff
      split: SessionEventPayload.splits if_splits)

lemma contiguous_fields:
  assumes "applyContiguousRemoteEnvelope lc uuid w g = Inr (w', outcome)"
  shows "wb_buffer w' = wb_buffer w \<and> wb_awaiting w' = wb_awaiting w \<and> wb_generation w' = wb_generation w
    \<and> wb_nextEventId w' = (if outcome = RAInvalid then wb_nextEventId w else ge_eventId g + 1)"
  using assms
  by (auto simp: applyContiguousRemoteEnvelope_def bindE_Inr_iff toLocalEnvelope_def
      dest: append_fields split: ExecutionTransitionValidation.splits)

lemma length_delete: "map_of d k \<noteq> None \<Longrightarrow> length (AList.delete k d) < length d"
  by (induction d) (auto simp: AList.delete_eq less_Suc_eq_le split: if_splits)

termination drainLoop
proof (relation "measure (\<lambda>(lc, uuid, w). length (wb_buffer w))", goal_cases)
  case 1
  show ?case by simp
next
  case (2 lc uuid w entry generation g taken result w' outcome)
  then have "wb_buffer w' = AList.delete (wb_nextEventId w) (wb_buffer w)"
    using contiguous_fields by fastforce
  moreover have "length (AList.delete (wb_nextEventId w) (wb_buffer w)) < length (wb_buffer w)"
    using 2(1) by (intro length_delete) simp
  ultimately show ?case by simp
qed

declare drainLoop.simps [simp del]

definition drainRecoveryBuffer ::
  "collation \<Rightarrow> client_uuid \<Rightarrow> WebSessionStoreState \<Rightarrow> int \<Rightarrow> js_error + (WebSessionStoreState \<times> bool)" where
  "drainRecoveryBuffer lc uuid w generation =
    (if wb_buffer w = [] then Inr (w, True)
     else let buffer = filter (\<lambda>(i, item). fst item = generation) (wb_buffer w);
              current = w\<lparr>wb_buffer := buffer\<rparr> in
       if buffer = [] then Inr (current, True)
       else if \<not> counts_up (wb_nextEventId w) (sort (map fst buffer))
       then Inr (current\<lparr>wb_buffer := []\<rparr>, False)
       else drainLoop lc uuid current)"

section \<open>The operations of the replica\<close>

definition for_replica :: "WebSessionStoreState \<Rightarrow> GlobalSessionEventEnvelope \<Rightarrow> bool" where
  "for_replica w g \<longleftrightarrow> Some (ge_slug g) = wb_slug w \<and> ge_sessionId g = sessionId (wb_shared w)"

definition applyRemoteEnvelope ::
  "collation \<Rightarrow> client_uuid \<Rightarrow> WebSessionStoreState \<Rightarrow> GlobalSessionEventEnvelope
   \<Rightarrow> js_error + (WebSessionStoreState \<times> RemoteEnvelopeApplyResult)" where
  "applyRemoteEnvelope lc uuid w g =
    (if \<not> for_replica w g then Inr (w, RAIgnored)
     else if wb_awaiting w then
       (case bufferRemoteEnvelope w g (wb_generation w) of
          (w', buffered) \<Rightarrow> Inr (w', if buffered then RAIgnored else RARefreshRequired))
     else if ge_eventId g < wb_nextEventId w then Inr (w, RAIgnored)
     else if ge_eventId g > wb_nextEventId w then Inr (w, RAGap)
     else applyContiguousRemoteEnvelope lc uuid w g)"

definition applyRemoteDeltaBatch ::
  "collation \<Rightarrow> client_uuid \<Rightarrow> WebSessionStoreState \<Rightarrow> GlobalSessionEventEnvelope list
   \<Rightarrow> js_error + (WebSessionStoreState \<times> RemoteEnvelopeApplyResult)" where
  "applyRemoteDeltaBatch lc uuid w gs =
    (if gs = [] then Inr (w, RAIgnored)
     else if \<exists>g \<in> set gs. \<not> for_replica w g then Inr (w, RAIgnored)
     else if wb_awaiting w then
       (case bufferEnvelopes w gs (wb_generation w) of
          (w', buffered) \<Rightarrow> Inr (w', if buffered then RAIgnored else RARefreshRequired))
     else applyContiguousRemoteDeltaBatch lc uuid w gs)"

definition beginSnapshotRecovery :: "WebSessionStoreState \<Rightarrow> int \<Rightarrow> WebSessionStoreState" where
  "beginSnapshotRecovery w generation = w\<lparr>wb_buffer := [], wb_awaiting := True, wb_generation := generation\<rparr>"

text \<open>An event the browser records itself, with the next id.\<close>

definition appendLocal ::
  "collation \<Rightarrow> client_uuid \<Rightarrow> WebSessionStoreState \<Rightarrow> SessionEventPayload \<Rightarrow> int
   \<Rightarrow> js_error + WebSessionStoreState" where
  "appendLocal lc uuid w event now =
     appendEnvelopeToState lc uuid w \<lparr> ev_id = wb_nextEventId w, ev_createdAt = now, ev_payload = event \<rparr> True"

definition addLocalSendingMessage :: "WebSessionStoreState \<Rightarrow> LocalSendingMessage \<Rightarrow> WebSessionStoreState" where
  "addLocalSendingMessage w l =
    (if ls_clientRequestId l \<in> ls_clientRequestId ` set (wb_localSendingMessages w) then w
     else w\<lparr>wb_localSendingMessages := wb_localSendingMessages w @ [l\<lparr>ls_status := Sending\<rparr>]\<rparr>)"

definition setLocalSendingMessageStatus ::
  "WebSessionStoreState \<Rightarrow> jstring \<Rightarrow> LocalSendingStatus \<Rightarrow> WebSessionStoreState" where
  "setLocalSendingMessageStatus w requestId status =
     w\<lparr>wb_localSendingMessages := map (\<lambda>l. if ls_clientRequestId l = requestId then l\<lparr>ls_status := status\<rparr> else l)
       (wb_localSendingMessages w)\<rparr>"

definition removeLocalSendingMessage :: "WebSessionStoreState \<Rightarrow> jstring \<Rightarrow> WebSessionStoreState" where
  "removeLocalSendingMessage w requestId =
     w\<lparr>wb_localSendingMessages := filter (\<lambda>l. ls_clientRequestId l \<noteq> requestId) (wb_localSendingMessages w)\<rparr>"

section \<open>Authoritative snapshots\<close>

text \<open>In a metadata patch a field is present, with its value, or absent.\<close>

record SessionMetadataPatch =
  mp_title :: "jstring option option"
  mp_createdAt :: "int option"
  mp_rootSessionId :: "jstring option"
  mp_parentSessionId :: "jstring option option"
  mp_agentName :: "jstring option option"

record SessionAuthoritativeSnapshot =
  sn_metadata :: SessionMetadataPatch
  sn_projection :: SessionProjection
  sn_nextModelSelection :: "SessionNextModelSelection option"
  sn_activeModelBinding :: "ExecutionModelBindingSummary option"
  sn_eventCursor :: int

definition metadata_shared :: "SessionMetadataPatch \<Rightarrow> SessionProjection \<Rightarrow> SessionProjection" where
  "metadata_shared patch s = s\<lparr>
     title := present (mp_title patch) (title s),
     rootSessionId := present (mp_rootSessionId patch) (rootSessionId s),
     parentSessionId := present (mp_parentSessionId patch) (parentSessionId s)\<rparr>"

definition metadataPatchUpdates :: "WebSessionStoreState \<Rightarrow> SessionMetadataPatch \<Rightarrow> WebSessionStoreState" where
  "metadataPatchUpdates w patch = w\<lparr>
     wb_shared := metadata_shared patch (wb_shared w),
     wb_createdAt := (case mp_createdAt patch of Some t \<Rightarrow> if t > 0 then t else wb_createdAt w
        | None \<Rightarrow> wb_createdAt w),
     wb_agentName := present (mp_agentName patch) (wb_agentName w)\<rparr>"

definition snapshot_shared :: "SessionProjection \<Rightarrow> SessionProjection \<Rightarrow> SessionProjection" where
  "snapshot_shared data s = s\<lparr>
     messages := messages data, pendingMessages := pendingMessages data, steps := steps data,
     todos := todos data, reminders := reminders data, childSessionLinks := childSessionLinks data,
     parentSessionId := parentSessionId data, stats := stats data, executions := executions data,
     executionCount := executionCount data, isRunning := isRunning data,
     isStreamingModel := isStreamingModel data, currentExecutionId := currentExecutionId data,
     currentAssistantMessageId := currentAssistantMessageId data, modelSelection := modelSelection data,
     compression := compression data, goal := goal data\<rparr>"

definition snapshot_locals :: "SessionProjection \<Rightarrow> LocalSendingMessage list \<Rightarrow> LocalSendingMessage list" where
  "snapshot_locals data locals =
    (let durableRequestIds = filter (\<lambda>i. i \<noteq> Some []) (map message_request_id (messages data))
           @ map (\<lambda>m. Some (pm_clientRequestId m)) (pendingMessages data) in
     filter (\<lambda>l. Some (ls_clientRequestId l) \<notin> set durableRequestIds) locals)"

definition authoritativeSnapshotUpdates ::
  "WebSessionStoreState \<Rightarrow> SessionAuthoritativeSnapshot \<Rightarrow> bool \<Rightarrow> WebSessionStoreState" where
  "authoritativeSnapshotUpdates w snapshot replaceReducerProjection =
    (let data = sn_projection snapshot;
         w1 = metadataPatchUpdates w (sn_metadata snapshot);
         w2 = (if replaceReducerProjection \<or> wb_cwd w = None
               then w1\<lparr>wb_cwd := Some (cwd data), wb_hydrated := True\<rparr> else w1) in
     if \<not> replaceReducerProjection then w2
     else w2\<lparr>wb_shared := snapshot_shared data (wb_shared w2),
       wb_nextModelSelection := sn_nextModelSelection snapshot,
       wb_activeModelBinding := sn_activeModelBinding snapshot,
       wb_events := [], wb_nextEventId := sn_eventCursor snapshot + 1,
       wb_eventOffset := sn_eventCursor snapshot + 1,
       wb_localSendingMessages := snapshot_locals data (wb_localSendingMessages w)\<rparr>)"

definition applyAuthoritativeSnapshot ::
  "collation \<Rightarrow> client_uuid \<Rightarrow> WebSessionStoreState \<Rightarrow> SessionAuthoritativeSnapshot \<Rightarrow> int
   \<Rightarrow> js_error + (WebSessionStoreState \<times> SessionSnapshotApplyResult)" where
  "applyAuthoritativeSnapshot lc uuid w snapshot generation =
    (if generation \<noteq> wb_generation w then Inr (w, SAStaleGeneration)
     else
       (let staleWhileLive = (\<not> wb_awaiting w \<and> wb_nextEventId w > sn_eventCursor snapshot + 1);
            installed = authoritativeSnapshotUpdates w snapshot (\<not> staleWhileLive) in
        if staleWhileLive then Inr (installed, SAIgnored)
        else
          (let discarded = discardBufferedRemoteEventsThrough installed (sn_eventCursor snapshot) in
           if \<not> wb_awaiting w then Inr (discarded\<lparr>wb_awaiting := False\<rparr>, SAApplied)
           else bindE (drainRecoveryBuffer lc uuid discarded generation) (\<lambda>(drained, complete).
             Inr (if complete then (drained\<lparr>wb_awaiting := False\<rparr>, SAApplied)
                  else (drained\<lparr>wb_awaiting := True\<rparr>, SARefreshRequired))))))"

record SessionModelState =
  mst_modelSelection :: SessionModelSelection
  mst_nextModelSelection :: SessionNextModelSelection
  mst_activeModelBinding :: "ExecutionModelBindingSummary option"

definition applyModelStatePatch :: "WebSessionStoreState \<Rightarrow> SessionModelState \<Rightarrow> WebSessionStoreState" where
  "applyModelStatePatch w patch =
    (if sms_revision (mst_modelSelection patch) < sms_revision (modelSelection (wb_shared w)) then w
     else w\<lparr>wb_shared := (wb_shared w)\<lparr>modelSelection := mst_modelSelection patch\<rparr>,
       wb_nextModelSelection := Some (mst_nextModelSelection patch),
       wb_activeModelBinding := mst_activeModelBinding patch\<rparr>)"

end
