(* ===== verification/ReplicaLog.thy ===== *)
theory ReplicaLog
  imports SessionReplica ReducerFrames
begin

text \<open>
  The replica follows the log of its Session. Whatever is delivered, lost, repeated, reordered or
  batched, the projection it shows is the fold of the log from the last installed snapshot up to its
  next id, with the patches the browser applies besides (metadata, model state, local events) at their
  places; and a recovery whose buffer continues the snapshot ends live, past every buffered envelope.
\<close>

section \<open>What the reducer does not read\<close>

text \<open>The fields that a patch may change: title, root, parent and model selection.\<close>

definition relabelled ::
  "jstring option \<Rightarrow> jstring \<Rightarrow> jstring option \<Rightarrow> SessionModelSelection \<Rightarrow> SessionProjection \<Rightarrow> SessionProjection" where
  "relabelled t r q m s = s\<lparr>title := t, rootSessionId := r, parentSessionId := q, modelSelection := m\<rparr>"

lemma relabelled_fields [simp]:
  "cwd (relabelled t r q m s) = cwd s" "goal (relabelled t r q m s) = goal s"
  "messages (relabelled t r q m s) = messages s" "pendingMessages (relabelled t r q m s) = pendingMessages s"
  "steps (relabelled t r q m s) = steps s" "todos (relabelled t r q m s) = todos s"
  "reminders (relabelled t r q m s) = reminders s" "childSessionLinks (relabelled t r q m s) = childSessionLinks s"
  "stats (relabelled t r q m s) = stats s" "executions (relabelled t r q m s) = executions s"
  "promptTraces (relabelled t r q m s) = promptTraces s" "executionCount (relabelled t r q m s) = executionCount s"
  "isRunning (relabelled t r q m s) = isRunning s" "isStreamingModel (relabelled t r q m s) = isStreamingModel s"
  "currentExecutionId (relabelled t r q m s) = currentExecutionId s"
  "currentAssistantMessageId (relabelled t r q m s) = currentAssistantMessageId s"
  "compression (relabelled t r q m s) = compression s" "modelSelection (relabelled t r q m s) = m"
  "compressionBlocks (relabelled t r q m s) = compressionBlocks s" "sessionId (relabelled t r q m s) = sessionId s"
  by (simp_all add: relabelled_def)

lemma relabelled_helpers [simp]:
  "currentRunOrdinal (relabelled t r q m s) = currentRunOrdinal s"
  "current_run (relabelled t r q m s) = current_run s"
  "currentMessageExecution (relabelled t r q m s) = currentMessageExecution s"
  "isActiveOpenStep (relabelled t r q m s) = isActiveOpenStep s"
  "ensureCurrentAssistantMessage (relabelled t r q m s) = ensureCurrentAssistantMessage s"
  "assistantForRecoveryEvent (relabelled t r q m s) = assistantForRecoveryEvent s"
  "firstAssistantContentStats (relabelled t r q m s) = firstAssistantContentStats s"
  "open_block (relabelled t r q m s) = open_block s"
  "locate_tool (relabelled t r q m s) = locate_tool s"
  "located_tool (relabelled t r q m s) = located_tool s"
  "update_tool (relabelled t r q m s) = update_tool s"
  unfolding fun_eq_iff current_run_def currentRunOrdinal_def currentMessageExecution_def
    isActiveOpenStep_def ensureCurrentAssistantMessage_def assistantForRecoveryEvent_def
    firstAssistantContentStats_def open_block_def located_tool_def locate_tool_def update_tool_def
    relabelled_fields
  by simp_all

lemma relabelled_lifecycle [simp]:
  "reduceLifecycle (relabelled t r q m s) e time = reduceLifecycle s e time"
proof -
  have "onLifecycle (relabelled t r q m s) e time = onLifecycle s e time"
    by (cases e) (simp_all add: case_defs)
  then show ?thesis
    unfolding reduceLifecycle_def final_output_ok_def relabelled_fields by simp
qed

lemma relabelled_compression [simp]:
  "onCompression (relabelled t r q m s) e ctx = onCompression s e ctx"
  by (cases e; hypsubst; unfold onCompression.simps case_defs relabelled_fields; rule refl)

lemma reduce_relabelled:
  "reduceStreamEvent lc (relabelled t r q m s) ev ctx = reduceStreamEvent lc s ev ctx"
  by (cases ev; hypsubst; unfold reduceStreamEvent.simps case_defs relabelled_fields relabelled_helpers
      relabelled_lifecycle relabelled_compression; rule refl)

lemma apply_patch_relabelled:
  "\<exists>m'. apply_patch (relabelled t r q m s) p = relabelled t r q m' (apply_patch s p)"
  by (rule exI [of _ "present (p_modelSelection p) m"]) (simp add: relabelled_def apply_patch_def)

lemma relabelled_twice [simp]: "relabelled t r q m (relabelled t' r' q' m' s) = relabelled t r q m s"
  by (simp add: relabelled_def)

lemma relabelled_same: "relabelled (title s) (rootSessionId s) (parentSessionId s) (modelSelection s) s = s"
  by (simp add: relabelled_def)

section \<open>The fold of a log\<close>

definition envelope_step ::
  "collation \<Rightarrow> client_uuid \<Rightarrow> SessionProjection \<Rightarrow> GlobalSessionEventEnvelope \<Rightarrow> js_error + SessionProjection" where
  "envelope_step lc uuid s g = (case ge_payload g of
     ShutdownPayload _ \<Rightarrow> Inr s
   | StreamPayload event \<Rightarrow> reduce_step lc s (event, envelope_context uuid (toLocalEnvelope g)))"

definition segment :: "(int \<Rightarrow> GlobalSessionEventEnvelope) \<Rightarrow> int \<Rightarrow> int \<Rightarrow> GlobalSessionEventEnvelope list" where
  "segment L i j = map (\<lambda>k. L (i + int k)) [0..<nat (j - i)]"

text \<open>The projection \<open>s\<close> is the fold of the log \<open>L\<close> from the projection \<open>b\<close> at id \<open>c\<close> up to id \<open>n\<close>.\<close>

definition folds ::
  "collation \<Rightarrow> client_uuid \<Rightarrow> (int \<Rightarrow> GlobalSessionEventEnvelope) \<Rightarrow> SessionProjection \<Rightarrow> int
   \<Rightarrow> SessionProjection \<Rightarrow> int \<Rightarrow> bool" where
  "folds lc uuid L b c s n \<longleftrightarrow> c \<le> n \<and> run_log (envelope_step lc uuid) b (segment L c n) = Inr s"

definition numbered :: "(int \<Rightarrow> GlobalSessionEventEnvelope) \<Rightarrow> bool" where
  "numbered L \<longleftrightarrow> (\<forall>i. ge_eventId (L i) = i)"

lemma segment_empty [simp]: "segment L i i = []"
  by (simp add: segment_def)

lemma segment_snoc:
  assumes "i \<le> j"
  shows "segment L i (j + 1) = segment L i j @ [L j]"
proof -
  have "nat (j + 1 - i) = Suc (nat (j - i))" "i + int (nat (j - i)) = j"
    using assms by linarith+
  then show ?thesis by (simp add: segment_def)
qed

lemma folds_refl [simp]: "folds lc uuid L b c b c"
  by (simp add: folds_def)

lemma folds_snoc:
  "folds lc uuid L b c s n \<Longrightarrow> envelope_step lc uuid s (L n) = Inr s' \<Longrightarrow> folds lc uuid L b c s' (n + 1)"
  by (simp add: folds_def segment_snoc run_log_append)

lemma envelope_step_relabelled:
  assumes "envelope_step lc uuid s g = Inr s'"
  shows "\<exists>m'. envelope_step lc uuid (relabelled t r q m s) g = Inr (relabelled t r q m' s')"
proof (cases "ge_payload g")
  case (StreamPayload event)
  with assms obtain p where p: "reduceStreamEvent lc s event (envelope_context uuid (toLocalEnvelope g)) = Inr p"
      "s' = apply_patch s p"
    by (auto simp: envelope_step_def reduce_step_def bindE_Inr_iff)
  obtain m' where "apply_patch (relabelled t r q m s) p = relabelled t r q m' s'"
    using apply_patch_relabelled p(2) by blast
  then show ?thesis
    using StreamPayload p(1) by (auto simp: envelope_step_def reduce_step_def reduce_relabelled)
qed (use assms in \<open>auto simp: envelope_step_def\<close>)

lemma run_relabelled:
  "run_log (envelope_step lc uuid) b gs = Inr s \<Longrightarrow>
   \<exists>m'. run_log (envelope_step lc uuid) (relabelled t r q m b) gs = Inr (relabelled t r q m' s)"
proof (induction gs arbitrary: b m)
  case (Cons g gs)
  then obtain b' where b': "envelope_step lc uuid b g = Inr b'" "run_log (envelope_step lc uuid) b' gs = Inr s"
    by (auto simp: bindE_Inr_iff)
  obtain m1 where "envelope_step lc uuid (relabelled t r q m b) g = Inr (relabelled t r q m1 b')"
    using envelope_step_relabelled [OF b'(1)] by blast
  with Cons.IH [OF b'(2)] show ?case
    by simp
qed auto

section \<open>Each operation extends the fold\<close>

lemma append_step:
  assumes "appendEnvelopeToState lc uuid w (toLocalEnvelope g) True = Inr w'"
  shows "envelope_step lc uuid (wb_shared w) g = Inr (wb_shared w')"
  using assms
  by (auto simp: appendEnvelopeToState_def envelope_step_def reduce_step_def toLocalEnvelope_def Let_def
      bindE_Inr_iff split: SessionEventPayload.splits)

text \<open>A duplicate lifecycle event leaves the projection as it is, reduced or not.\<close>

lemma duplicate_step:
  assumes "envelope_transition w (ge_payload g) = Duplicate"
  shows "envelope_step lc uuid (wb_shared w) g = Inr (wb_shared w)"
  using assms
  by (auto elim!: envelope_transition.elims simp: envelope_step_def reduce_step_def reduceLifecycle_def)

lemma append_unapplied:
  "appendEnvelopeToState lc uuid w v False = Inr w' \<Longrightarrow> wb_shared w' = wb_shared w"
  by (auto simp: appendEnvelopeToState_def split: SessionEventPayload.splits)

lemma contiguous_folds:
  assumes "applyContiguousRemoteEnvelope lc uuid w g = Inr (w', outcome)"
    and "folds lc uuid L b c (wb_shared w) (wb_nextEventId w)" "g = L (wb_nextEventId w)" "numbered L"
  shows "folds lc uuid L b c (wb_shared w') (wb_nextEventId w')"
proof (cases "envelope_transition w (ge_payload g)")
  case Valid
  with assms(1) obtain w1 where w1: "appendEnvelopeToState lc uuid w (toLocalEnvelope g) True = Inr w1"
      "w' = adopt_agent g w1"
    by (auto simp: applyContiguousRemoteEnvelope_def bindE_Inr_iff)
  then have "wb_nextEventId w' = wb_nextEventId w + 1"
    using append_fields [OF w1(1)] assms(3,4) by (simp add: toLocalEnvelope_def numbered_def)
  then show ?thesis
    using folds_snoc [OF assms(2)] append_step [OF w1(1)] w1(2) assms(3) by simp
next
  case Duplicate
  with assms(1) have w': "appendEnvelopeToState lc uuid w (toLocalEnvelope g) False = Inr w'"
    by (auto simp: applyContiguousRemoteEnvelope_def bindE_Inr_iff)
  then have "wb_nextEventId w' = wb_nextEventId w + 1" "wb_shared w' = wb_shared w"
    using append_fields [OF w'] append_unapplied [OF w'] assms(3,4)
    by (simp_all add: toLocalEnvelope_def numbered_def)
  then show ?thesis
    using folds_snoc [OF assms(2)] duplicate_step [OF Duplicate] assms(3) by simp
next
  case (Invalid r)
  with assms show ?thesis by (simp add: applyContiguousRemoteEnvelope_def)
qed

lemma apply_envelopes_folds:
  assumes "applyEnvelopes lc uuid w gs = Inr w'" "contiguous_from (wb_nextEventId w) gs = Some gs"
    and "\<forall>g \<in> set gs. g = L (ge_eventId g)" "folds lc uuid L b c (wb_shared w) (wb_nextEventId w)"
  shows "folds lc uuid L b c (wb_shared w') (wb_nextEventId w')
    \<and> wb_buffer w' = wb_buffer w \<and> wb_awaiting w' = wb_awaiting w"
  using assms
proof (induction lc uuid w gs rule: applyEnvelopes.induct)
  case (1 lc uuid w)
  then show ?case by simp
next
  case (2 lc uuid w g gs)
  have no_skip: "length rest \<le> length gs" if "contiguous_from n gs = Some rest" for n rest
    using that by (induction n gs arbitrary: rest rule: contiguous_from.induct) (auto split: if_splits)
  have next': "ge_eventId g = wb_nextEventId w" "contiguous_from (wb_nextEventId w + 1) gs = Some gs"
    using 2(3) no_skip by (auto split: if_splits dest!: no_skip)
  obtain w1 where w1: "appendEnvelopeToState lc uuid w (toLocalEnvelope g) True = Inr w1"
      "applyEnvelopes lc uuid (adopt_agent g w1) gs = Inr w'"
    using 2(2) by (auto simp: bindE_Inr_iff)
  have fields: "wb_nextEventId w1 = wb_nextEventId w + 1" "wb_buffer w1 = wb_buffer w"
      "wb_awaiting w1 = wb_awaiting w"
    using append_fields [OF w1(1)] next'(1) by (simp_all add: toLocalEnvelope_def)
  have "folds lc uuid L b c (wb_shared w1) (wb_nextEventId w + 1)"
    using folds_snoc [OF 2(5)] append_step [OF w1(1)] 2(4) next'(1) by (metis list.set_intros(1))
  then show ?case
    using 2(1) [OF w1(2)] next'(2) 2(4) fields by simp
qed

lemma contiguous_run:
  assumes "contiguous_from n gs = Some run"
  shows "contiguous_from n run = Some run \<and> set run \<subseteq> set gs"
  using assms
  by (induction n gs arbitrary: run rule: contiguous_from.induct) (auto split: if_splits)

text \<open>What is buffered comes from the log.\<close>

definition buffer_ok :: "(int \<Rightarrow> GlobalSessionEventEnvelope) \<Rightarrow> WebSessionStoreState \<Rightarrow> bool" where
  "buffer_ok L w \<longleftrightarrow> (\<forall>(i, gen, g) \<in> set (wb_buffer w). g = L i)"

lemma buffer_step_ok:
  assumes "buffer_ok L w" "g = L (ge_eventId g)" "bufferRemoteEnvelope w g gen = (w', ok)"
  shows "buffer_ok L w' \<and> wb_shared w' = wb_shared w \<and> wb_nextEventId w' = wb_nextEventId w"
  using assms
  by (auto simp: bufferRemoteEnvelope_def buffer_ok_def Let_def split: if_splits dest!: set_update_cases)

lemma buffer_envelopes_ok:
  assumes "buffer_ok L w" "\<forall>g \<in> set gs. g = L (ge_eventId g)" "bufferEnvelopes w gs gen = (w', ok)"
  shows "buffer_ok L w' \<and> wb_shared w' = wb_shared w \<and> wb_nextEventId w' = wb_nextEventId w"
  using assms
proof (induction w gs gen arbitrary: w' rule: bufferEnvelopes.induct)
  case (1 w gen)
  then show ?case by simp
next
  case (2 w g gs gen)
  obtain w1 b where w1: "bufferRemoteEnvelope w g gen = (w1, b)"
    by fastforce
  have "buffer_ok L w1 \<and> wb_shared w1 = wb_shared w \<and> wb_nextEventId w1 = wb_nextEventId w"
    by (rule buffer_step_ok [OF 2(2) _ w1]) (use 2(3) in simp)
  then show ?case
    using 2(1) [OF w1 [symmetric]] 2(3,4) w1 by (cases b) simp_all
qed

lemma subset_buffer_ok:
  "buffer_ok L w \<Longrightarrow> set (wb_buffer w') \<subseteq> set (wb_buffer w) \<Longrightarrow> buffer_ok L w'"
  by (auto simp: buffer_ok_def)

lemma drain_loop_folds:
  assumes "drainLoop lc uuid w = Inr (w', complete)" "buffer_ok L w" "numbered L"
    and "folds lc uuid L b c (wb_shared w) (wb_nextEventId w)"
  shows "folds lc uuid L b c (wb_shared w') (wb_nextEventId w') \<and> buffer_ok L w'
    \<and> (complete \<longrightarrow> wb_buffer w' = [])"
  using assms
proof (induction lc uuid w rule: drainLoop.induct)
  case (1 lc uuid w)
  show ?case
  proof (cases "map_of (wb_buffer w) (wb_nextEventId w)")
    case None
    with 1(2-) show ?thesis by (auto simp: drainLoop.simps [of lc uuid w])
  next
    case (Some item)
    obtain gen g where item: "item = (gen, g)" by fastforce
    let ?taken = "w\<lparr>wb_buffer := AList.delete (wb_nextEventId w) (wb_buffer w)\<rparr>"
    obtain w1 outcome where w1: "applyContiguousRemoteEnvelope lc uuid ?taken g = Inr (w1, outcome)"
      using 1(2) Some item by (subst (asm) drainLoop.simps, cases "applyContiguousRemoteEnvelope lc uuid ?taken g") (auto simp: Let_def)
    have g: "g = L (wb_nextEventId w)"
      using 1(3) map_of_SomeD [OF Some] item by (auto simp: buffer_ok_def)
    have f1: "folds lc uuid L b c (wb_shared w1) (wb_nextEventId w1)"
      using contiguous_folds [OF w1] 1(4,5) g by simp
    have "wb_buffer w1 = AList.delete (wb_nextEventId w) (wb_buffer w)"
      using contiguous_fields [OF w1] by simp
    then have b1: "buffer_ok L w1"
      using subset_buffer_ok [OF 1(3)] by (auto simp: AList.delete_eq)
    show ?thesis
    proof (cases "outcome = RAInvalid")
      case True
      then have "w' = w1\<lparr>wb_buffer := []\<rparr>"
        using 1(2) Some item w1 by (simp add: Let_def drainLoop.simps [of lc uuid w])
      with f1 show ?thesis by (simp add: buffer_ok_def)
    next
      case False
      then have "drainLoop lc uuid w1 = Inr (w', complete)"
        using 1(2) Some item w1 by (simp add: Let_def drainLoop.simps [of lc uuid w])
      then show ?thesis
        using 1(1) [OF Some item [symmetric] refl w1 refl False] b1 f1 1(4) by blast
    qed
  qed
qed

lemma drain_folds:
  assumes "drainRecoveryBuffer lc uuid w gen = Inr (w', complete)" "buffer_ok L w" "numbered L"
    and "folds lc uuid L b c (wb_shared w) (wb_nextEventId w)"
  shows "folds lc uuid L b c (wb_shared w') (wb_nextEventId w') \<and> buffer_ok L w'
    \<and> (complete \<longrightarrow> wb_buffer w' = [])"
proof -
  let ?buffer = "filter (\<lambda>(i, item). fst item = gen) (wb_buffer w)"
  let ?current = "w\<lparr>wb_buffer := ?buffer\<rparr>"
  have "buffer_ok L ?current"
    by (rule subset_buffer_ok [OF assms(2)]) auto
  then show ?thesis
    using assms drain_loop_folds [of lc uuid ?current w' complete L b c]
    by (auto simp: drainRecoveryBuffer_def Let_def buffer_ok_def split: if_splits)
qed

lemma installed_fields [simp]:
  "wb_nextEventId (authoritativeSnapshotUpdates w d True) = sn_eventCursor d + 1"
  "wb_nextEventId (authoritativeSnapshotUpdates w d False) = wb_nextEventId w"
  "wb_shared (authoritativeSnapshotUpdates w d False) = metadata_shared (sn_metadata d) (wb_shared w)"
  "wb_buffer (authoritativeSnapshotUpdates w d replace) = wb_buffer w"
  by (simp_all add: authoritativeSnapshotUpdates_def metadataPatchUpdates_def Let_def)

section \<open>Patches beside the log\<close>

text \<open>
  What changes the projection besides the log: a metadata patch (\<open>applyMetadataPatch\<close>, also the metadata
  of a snapshot that is behind a live replica), the model state an HTTP response carries
  (\<open>applyModelStatePatch\<close>), and an event the browser records itself (\<open>append\<close>), which takes an id.
\<close>

datatype ReplicaPatch =
    MetadataPatched SessionMetadataPatch
  | ModelPatched SessionModelState
  | Appended SessionEventPayload int

definition model_shared :: "SessionModelState \<Rightarrow> SessionProjection \<Rightarrow> SessionProjection" where
  "model_shared patch s =
    (if sms_revision (mst_modelSelection patch) < sms_revision (modelSelection s) then s
     else s\<lparr>modelSelection := mst_modelSelection patch\<rparr>)"

fun patch_step ::
  "collation \<Rightarrow> client_uuid \<Rightarrow> int \<Rightarrow> SessionProjection \<Rightarrow> ReplicaPatch \<Rightarrow> js_error + SessionProjection" where
  "patch_step lc uuid n s (MetadataPatched p) = Inr (metadata_shared p s)"
| "patch_step lc uuid n s (ModelPatched p) = Inr (model_shared p s)"
| "patch_step lc uuid n s (Appended (ShutdownPayload reason) now) = Inr s"
| "patch_step lc uuid n s (Appended (StreamPayload event) now) = reduce_step lc s (event,
     envelope_context uuid \<lparr> ev_id = n, ev_createdAt = now, ev_payload = StreamPayload event \<rparr>)"

fun patch_ids :: "ReplicaPatch \<Rightarrow> int" where
  "patch_ids (Appended _ _) = 1"
| "patch_ids _ = 0"

fun is_append :: "ReplicaPatch \<Rightarrow> bool" where
  "is_append (Appended _ _) \<longleftrightarrow> True"
| "is_append _ \<longleftrightarrow> False"

text \<open>
  The replay of the log with the patches, each at the id it met: the projection and id after the last
  patch, then the rest of the log.
\<close>

fun stage ::
  "collation \<Rightarrow> client_uuid \<Rightarrow> (int \<Rightarrow> GlobalSessionEventEnvelope) \<Rightarrow> SessionProjection \<Rightarrow> int
   \<Rightarrow> (int \<times> ReplicaPatch) list \<Rightarrow> js_error + SessionProjection \<times> int" where
  "stage lc uuid L b c [] = Inr (b, c)"
| "stage lc uuid L b c ((i, p) # ps) =
     bindE (run_log (envelope_step lc uuid) b (segment L c i)) (\<lambda>s.
     bindE (patch_step lc uuid i s p) (\<lambda>s'. stage lc uuid L s' (i + patch_ids p) ps))"

definition replay ::
  "collation \<Rightarrow> client_uuid \<Rightarrow> (int \<Rightarrow> GlobalSessionEventEnvelope) \<Rightarrow> SessionProjection \<Rightarrow> int
   \<Rightarrow> (int \<times> ReplicaPatch) list \<Rightarrow> int \<Rightarrow> js_error + SessionProjection" where
  "replay lc uuid L b c ps n = bindE (stage lc uuid L b c ps) (\<lambda>(b', c').
     run_log (envelope_step lc uuid) b' (segment L c' n))"

text \<open>The patches lie in order between the installed id and the next one.\<close>

fun placed :: "int \<Rightarrow> (int \<times> ReplicaPatch) list \<Rightarrow> int \<Rightarrow> bool" where
  "placed c [] n \<longleftrightarrow> c \<le> n"
| "placed c ((i, p) # ps) n \<longleftrightarrow> c \<le> i \<and> placed (i + patch_ids p) ps n"

lemma stage_snoc:
  "stage lc uuid L b c (ps @ [(i, p)]) = bindE (stage lc uuid L b c ps) (\<lambda>(b', c').
     bindE (run_log (envelope_step lc uuid) b' (segment L c' i)) (\<lambda>s.
     bindE (patch_step lc uuid i s p) (\<lambda>s'. Inr (s', i + patch_ids p))))"
proof (induction ps arbitrary: b c)
  case (Cons x ps)
  obtain j p' where x: "x = (j, p')"
    by (cases x)
  show ?case
  proof (cases "run_log (envelope_step lc uuid) b (segment L c j)")
    case (Inr s)
    then show ?thesis
      using Cons.IH [of _ "j + patch_ids p'"] by (cases "patch_step lc uuid j s p'") (simp_all add: x)
  qed (simp add: x)
qed simp

lemma placed_snoc: "placed c (ps @ [(i, p)]) n \<longleftrightarrow> placed c ps i \<and> i + patch_ids p \<le> n"
  by (induction ps arbitrary: c) auto

lemma placed_later: "placed c ps n \<Longrightarrow> n \<le> n' \<Longrightarrow> placed c ps n'"
  by (induction ps arbitrary: c) auto

lemma patch_ids_nonneg: "0 \<le> patch_ids p"
  by (cases p) simp_all

lemma placed_le: "placed c ps n \<Longrightarrow> c \<le> n"
proof (induction ps arbitrary: c)
  case (Cons x ps)
  obtain i p where x: "x = (i, p)"
    by (cases x)
  show ?case
    using Cons.IH [of "i + patch_ids p"] Cons.prems patch_ids_nonneg [of p] by (simp add: x)
qed simp

text \<open>The replay stops at the id after the last patch.\<close>

lemma stage_placed:
  assumes "stage lc uuid L b c ps = Inr (b', c')" "placed c ps n"
  shows "placed c ps c' \<and> c' \<le> n"
  using assms
proof (induction ps arbitrary: b c)
  case (Cons x ps)
  obtain i p where x: "x = (i, p)"
    by (cases x)
  obtain s s' where "stage lc uuid L s' (i + patch_ids p) ps = Inr (b', c')"
    using Cons.prems(1) by (auto simp: x bindE_Inr_iff)
  from Cons.IH [OF this] show ?case
    using Cons.prems(2) by (simp add: x)
qed simp

section \<open>Traces\<close>

text \<open>
  What can happen to a replica of the Session whose log is \<open>L\<close>, every operation of the store that
  changes its state: an envelope of the log or a batch of them is delivered, a recovery begins, a
  snapshot is applied, metadata or model state is patched, an event is recorded locally, an optimistic
  message is added, marked or removed (reconciling one removes it). The focused tab is not part of the
  state, and a call that throws ends the trace. The last three arguments
  are the projection last installed, the id it is at, and the patches since, with the id each met.
\<close>

inductive replica_trace ::
  "collation \<Rightarrow> client_uuid \<Rightarrow> (int \<Rightarrow> GlobalSessionEventEnvelope) \<Rightarrow> WebSessionStoreState
   \<Rightarrow> WebSessionStoreState \<Rightarrow> SessionProjection \<Rightarrow> int \<Rightarrow> (int \<times> ReplicaPatch) list \<Rightarrow> bool"
  for lc :: collation and uuid :: client_uuid and L :: "int \<Rightarrow> GlobalSessionEventEnvelope"
    and w0 :: WebSessionStoreState
where
  opened: "replica_trace lc uuid L w0 w0 (wb_shared w0) (wb_nextEventId w0) []"
| delivered: "replica_trace lc uuid L w0 w b c ps \<Longrightarrow> applyRemoteEnvelope lc uuid w (L i) = Inr (w', r)
     \<Longrightarrow> replica_trace lc uuid L w0 w' b c ps"
| batch: "replica_trace lc uuid L w0 w b c ps \<Longrightarrow> applyRemoteDeltaBatch lc uuid w (map L is) = Inr (w', r)
     \<Longrightarrow> replica_trace lc uuid L w0 w' b c ps"
| recovery: "replica_trace lc uuid L w0 w b c ps \<Longrightarrow> replica_trace lc uuid L w0 (beginSnapshotRecovery w gen) b c ps"
| installed: "replica_trace lc uuid L w0 w b c ps \<Longrightarrow> applyAuthoritativeSnapshot lc uuid w d gen = Inr (w', r)
     \<Longrightarrow> r = SAApplied \<or> r = SARefreshRequired
     \<Longrightarrow> replica_trace lc uuid L w0 w' (wb_shared (authoritativeSnapshotUpdates w d True)) (sn_eventCursor d + 1) []"
| outdated: "replica_trace lc uuid L w0 w b c ps \<Longrightarrow> applyAuthoritativeSnapshot lc uuid w d gen = Inr (w', SAIgnored)
     \<Longrightarrow> replica_trace lc uuid L w0 w' b c (ps @ [(wb_nextEventId w, MetadataPatched (sn_metadata d))])"
| metadata: "replica_trace lc uuid L w0 w b c ps
     \<Longrightarrow> replica_trace lc uuid L w0 (metadataPatchUpdates w p) b c (ps @ [(wb_nextEventId w, MetadataPatched p)])"
| model: "replica_trace lc uuid L w0 w b c ps
     \<Longrightarrow> replica_trace lc uuid L w0 (applyModelStatePatch w p) b c (ps @ [(wb_nextEventId w, ModelPatched p)])"
| appended: "replica_trace lc uuid L w0 w b c ps \<Longrightarrow> appendLocal lc uuid w event now = Inr w'
     \<Longrightarrow> replica_trace lc uuid L w0 w' b c (ps @ [(wb_nextEventId w, Appended event now)])"
| sending: "replica_trace lc uuid L w0 w b c ps \<Longrightarrow> replica_trace lc uuid L w0 (addLocalSendingMessage w l) b c ps"
| status: "replica_trace lc uuid L w0 w b c ps
     \<Longrightarrow> replica_trace lc uuid L w0 (setLocalSendingMessageStatus w i st) b c ps"
| removed: "replica_trace lc uuid L w0 w b c ps \<Longrightarrow> replica_trace lc uuid L w0 (removeLocalSendingMessage w i) b c ps"

definition follows ::
  "collation \<Rightarrow> client_uuid \<Rightarrow> (int \<Rightarrow> GlobalSessionEventEnvelope) \<Rightarrow> WebSessionStoreState
   \<Rightarrow> SessionProjection \<Rightarrow> int \<Rightarrow> bool" where
  "follows lc uuid L w b c \<longleftrightarrow> folds lc uuid L b c (wb_shared w) (wb_nextEventId w) \<and> buffer_ok L w"

lemma envelope_follows:
  assumes "follows lc uuid L w b c" "numbered L" "applyRemoteEnvelope lc uuid w (L i) = Inr (w', r)"
  shows "follows lc uuid L w' b c"
proof -
  have i: "ge_eventId (L i) = i" using assms(2) by (simp add: numbered_def)
  consider "w' = w" | "\<exists>ok. bufferRemoteEnvelope w (L i) (wb_generation w) = (w', ok)"
    | "i = wb_nextEventId w" "applyContiguousRemoteEnvelope lc uuid w (L i) = Inr (w', r)"
    using assms(3) i by (auto simp: applyRemoteEnvelope_def split: if_splits prod.splits)
  then show ?thesis
  proof cases
    case 1
    with assms(1) show ?thesis by simp
  next
    case 2
    then obtain ok where "bufferRemoteEnvelope w (L i) (wb_generation w) = (w', ok)" ..
    from buffer_step_ok [OF _ _ this, of L] show ?thesis
      using assms(1) i by (simp add: follows_def)
  next
    case 3
    then have "folds lc uuid L b c (wb_shared w') (wb_nextEventId w')"
      using contiguous_folds [OF 3(2)] assms(1,2) by (simp add: follows_def)
    moreover have "buffer_ok L w'"
      using contiguous_fields [OF 3(2)] assms(1) by (simp add: follows_def buffer_ok_def)
    ultimately show ?thesis by (simp add: follows_def)
  qed
qed

lemma batch_follows:
  assumes "follows lc uuid L w b c" "numbered L" "applyRemoteDeltaBatch lc uuid w (map L is) = Inr (w', r)"
  shows "follows lc uuid L w' b c"
proof -
  have from_log: "\<forall>g \<in> set (map L is). g = L (ge_eventId g)"
    using assms(2) by (simp add: numbered_def)
  consider "w' = w" | "\<exists>ok. bufferEnvelopes w (map L is) (wb_generation w) = (w', ok)"
    | "\<exists>run. contiguous_from (wb_nextEventId w) (map L is) = Some run \<and> applyEnvelopes lc uuid w run = Inr w'"
    using assms(3)
    by (auto simp: applyRemoteDeltaBatch_def applyContiguousRemoteDeltaBatch_def bindE_Inr_iff
        split: if_splits prod.splits option.splits list.splits)
  then show ?thesis
  proof cases
    case 1
    with assms(1) show ?thesis by simp
  next
    case 2
    then obtain ok where "bufferEnvelopes w (map L is) (wb_generation w) = (w', ok)" ..
    from buffer_envelopes_ok [OF _ from_log this] show ?thesis
      using assms(1) by (simp add: follows_def)
  next
    case 3
    then obtain run where run: "contiguous_from (wb_nextEventId w) (map L is) = Some run"
        "applyEnvelopes lc uuid w run = Inr w'"
      by blast
    from contiguous_run [OF run(1)] have "contiguous_from (wb_nextEventId w) run = Some run"
        "\<forall>g \<in> set run. g = L (ge_eventId g)"
      using from_log by auto
    from apply_envelopes_folds [OF run(2) this, of b c] assms(1) show ?thesis
      by (simp add: follows_def buffer_ok_def)
  qed
qed

lemma snapshot_follows:
  assumes "follows lc uuid L w b c" "numbered L"
    and "applyAuthoritativeSnapshot lc uuid w d gen = Inr (w', r)" "r = SAApplied \<or> r = SARefreshRequired"
  shows "follows lc uuid L w' (wb_shared (authoritativeSnapshotUpdates w d True)) (sn_eventCursor d + 1)"
proof -
  let ?installed = "authoritativeSnapshotUpdates w d True"
  let ?discarded = "discardBufferedRemoteEventsThrough ?installed (sn_eventCursor d)"
  have discarded: "buffer_ok L ?discarded" "wb_shared ?discarded = wb_shared ?installed"
      "wb_nextEventId ?discarded = sn_eventCursor d + 1"
    using assms(1) by (auto simp: follows_def buffer_ok_def discardBufferedRemoteEventsThrough_def)
  show ?thesis
  proof (cases "wb_awaiting w")
    case False
    with assms(3,4) have "w' = ?discarded\<lparr>wb_awaiting := False\<rparr>"
      by (auto simp: applyAuthoritativeSnapshot_def Let_def split: if_splits)
    then show ?thesis
      using discarded by (simp add: follows_def buffer_ok_def)
  next
    case True
    with assms(3,4) obtain drained complete where
        drained: "drainRecoveryBuffer lc uuid ?discarded gen = Inr (drained, complete)"
      and w': "w' = drained\<lparr>wb_awaiting := \<not> complete\<rparr>"
      by (auto simp: applyAuthoritativeSnapshot_def Let_def bindE_Inr_iff split: if_splits prod.splits)
    have "folds lc uuid L (wb_shared ?installed) (sn_eventCursor d + 1) (wb_shared ?discarded)
        (wb_nextEventId ?discarded)"
      using discarded by simp
    from drain_folds [OF drained discarded(1) assms(2) this] show ?thesis
      by (simp add: follows_def buffer_ok_def w')
  qed
qed

text \<open>A patch is a step of the replay where the replica meets it.\<close>

lemma patched:
  assumes "patch_step lc uuid (wb_nextEventId w) (wb_shared w) p = Inr (wb_shared w')"
    and "wb_nextEventId w' = wb_nextEventId w + patch_ids p" "wb_buffer w' = wb_buffer w"
    and "stage lc uuid L b c ps = Inr (b', c')" "follows lc uuid L w b' c'" "placed c ps c'"
  shows "stage lc uuid L b c (ps @ [(wb_nextEventId w, p)]) = Inr (wb_shared w', wb_nextEventId w')
    \<and> follows lc uuid L w' (wb_shared w') (wb_nextEventId w')
    \<and> placed c (ps @ [(wb_nextEventId w, p)]) (wb_nextEventId w')"
  using assms placed_later [OF assms(6), of "wb_nextEventId w"]
  by (auto simp: stage_snoc placed_snoc follows_def buffer_ok_def folds_def)

lemma outdated_shared:
  assumes "applyAuthoritativeSnapshot lc uuid w d gen = Inr (w', SAIgnored)"
  shows "wb_shared w' = metadata_shared (sn_metadata d) (wb_shared w) \<and> wb_nextEventId w' = wb_nextEventId w
    \<and> wb_buffer w' = wb_buffer w"
proof -
  have "w' = authoritativeSnapshotUpdates w d False"
    using assms by (auto simp: applyAuthoritativeSnapshot_def Let_def bindE_Inr_iff split: if_splits prod.splits)
  then show ?thesis by simp
qed

lemma model_patch_shared:
  "wb_shared (applyModelStatePatch w p) = model_shared p (wb_shared w)
    \<and> wb_nextEventId (applyModelStatePatch w p) = wb_nextEventId w
    \<and> wb_buffer (applyModelStatePatch w p) = wb_buffer w"
  by (simp add: applyModelStatePatch_def model_shared_def)

lemma append_shared:
  assumes "appendLocal lc uuid w event now = Inr w'"
  shows "patch_step lc uuid (wb_nextEventId w) (wb_shared w) (Appended event now) = Inr (wb_shared w')
    \<and> wb_nextEventId w' = wb_nextEventId w + 1 \<and> wb_buffer w' = wb_buffer w"
proof (cases event)
  case (StreamPayload e)
  then show ?thesis
    using assms append_fields [OF assms [unfolded appendLocal_def]]
    by (auto simp: appendLocal_def appendEnvelopeToState_def reduce_step_def Let_def bindE_Inr_iff)
next
  case (ShutdownPayload reason)
  then show ?thesis
    using assms by (auto simp: appendLocal_def appendEnvelopeToState_def)
qed

lemma trace_staged:
  assumes "replica_trace lc uuid L w0 w b c ps" "numbered L" "wb_buffer w0 = []"
  shows "\<exists>b' c'. stage lc uuid L b c ps = Inr (b', c') \<and> follows lc uuid L w b' c' \<and> placed c ps c'"
  using assms
proof (induction rule: replica_trace.induct)
  case opened
  then show ?case by (auto simp: follows_def buffer_ok_def)
next
  case (delivered w b c ps i w' r)
  then show ?case using envelope_follows by blast
next
  case (batch w b c ps "is" w' r)
  then show ?case using batch_follows by blast
next
  case (recovery w b c ps gen)
  then show ?case by (auto simp: follows_def buffer_ok_def beginSnapshotRecovery_def)
next
  case (installed w b c ps d gen w' r)
  then show ?case using snapshot_follows by fastforce
next
  case (outdated w b c ps d gen w')
  then show ?case
    using patched [of lc uuid w "MetadataPatched (sn_metadata d)" w'] outdated_shared [OF outdated(2)] by fastforce
next
  case (metadata w b c ps p)
  then show ?case
    using patched [of lc uuid w "MetadataPatched p" "metadataPatchUpdates w p"]
    by (fastforce simp: metadataPatchUpdates_def)
next
  case (model w b c ps p)
  then show ?case
    using patched [of lc uuid w "ModelPatched p" "applyModelStatePatch w p"] model_patch_shared [of w p] by fastforce
next
  case (appended w b c ps event now w')
  then show ?case
    using patched [of lc uuid w "Appended event now" w'] append_shared [OF appended(2)] by fastforce
next
  case (sending w b c ps l)
  then show ?case by (auto simp: follows_def buffer_ok_def addLocalSendingMessage_def)
next
  case (status w b c ps i st)
  then show ?case by (auto simp: follows_def buffer_ok_def setLocalSendingMessageStatus_def)
next
  case (removed w b c ps i)
  then show ?case by (auto simp: follows_def buffer_ok_def removeLocalSendingMessage_def)
qed

section \<open>The patches show in their fields only\<close>

text \<open>Two projections that agree but for title, root, parent and model selection.\<close>

definition agree_but_labels :: "SessionProjection \<Rightarrow> SessionProjection \<Rightarrow> bool" where
  "agree_but_labels s s' \<longleftrightarrow>
     s' = relabelled (title s') (rootSessionId s') (parentSessionId s') (modelSelection s') s"

lemma agree_iff: "agree_but_labels s s' \<longleftrightarrow> (\<exists>t r q m. s' = relabelled t r q m s)"
  by (auto simp: agree_but_labels_def relabelled_def)

lemma agree_trans: "agree_but_labels s t \<Longrightarrow> agree_but_labels t u \<Longrightarrow> agree_but_labels s u"
  unfolding agree_iff by (metis relabelled_twice)

lemma agree_sym: "agree_but_labels s t \<Longrightarrow> agree_but_labels t s"
  by (metis agree_iff relabelled_same relabelled_twice)

lemma run_agrees:
  assumes "run_log (envelope_step lc uuid) b gs = Inr s" "agree_but_labels b b'"
  shows "\<exists>s'. run_log (envelope_step lc uuid) b' gs = Inr s' \<and> agree_but_labels s s'"
proof -
  obtain t r q m where b': "b' = relabelled t r q m b"
    using assms(2) agree_iff by blast
  obtain m' where "run_log (envelope_step lc uuid) b' gs = Inr (relabelled t r q m' s)"
    unfolding b' using run_relabelled [OF assms(1)] by blast
  then show ?thesis
    using agree_iff by blast
qed

lemma label_patch_agrees:
  assumes "patch_step lc uuid n s p = Inr s'" "\<not> is_append p"
  shows "agree_but_labels s s'"
  using assms by (cases p) (auto simp: agree_but_labels_def relabelled_def metadata_shared_def model_shared_def)

lemma segment_join:
  assumes "i \<le> j" "j \<le> k"
  shows "segment L i k = segment L i j @ segment L j k"
proof -
  have "nat (k - i) = nat (j - i) + nat (k - j)"
    using assms by linarith
  then have "[0..<nat (k - i)] = [0..<nat (j - i)] @ map (\<lambda>d. d + nat (j - i)) [0..<nat (k - j)]"
    by (simp add: map_add_upt add.commute upt_add_eq_append [of 0 "nat (j - i)" "nat (k - j)"] del: upt_Suc)
  moreover have "i + int (d + nat (j - i)) = j + int d" for d
    using assms(1) by simp
  ultimately show ?thesis
    using assms(1) by (simp add: segment_def comp_def add.commute)
qed

lemma stage_agrees:
  assumes "stage lc uuid L b c ps = Inr (b', c')" "placed c ps c'" "\<forall>(i, p) \<in> set ps. \<not> is_append p"
  shows "\<exists>s. run_log (envelope_step lc uuid) b (segment L c c') = Inr s \<and> agree_but_labels s b'"
  using assms
proof (induction ps arbitrary: b' c' rule: rev_induct)
  case Nil
  then show ?case by (auto simp: agree_but_labels_def relabelled_same)
next
  case (snoc x ps)
  obtain i p where x: "x = (i, p)" by (cases x)
  have np: "\<not> is_append p" "patch_ids p = 0"
    using snoc.prems(3) x by (cases p; simp)+
  obtain b1 c1 s1 where s1: "stage lc uuid L b c ps = Inr (b1, c1)"
      "run_log (envelope_step lc uuid) b1 (segment L c1 i) = Inr s1" "patch_step lc uuid i s1 p = Inr b'" "c' = i"
    using snoc.prems(1) np(2) by (auto simp: x stage_snoc bindE_Inr_iff)
  have placed: "placed c ps i"
    using snoc.prems(2) by (simp add: x placed_snoc)
  have c1: "placed c ps c1" "c \<le> c1" "c1 \<le> i"
    using stage_placed [OF s1(1) placed] placed_le by blast+
  have "\<forall>(i, p) \<in> set ps. \<not> is_append p"
    using snoc.prems(3) by simp
  from snoc.IH [OF s1(1) c1(1) this]
  obtain s where s: "run_log (envelope_step lc uuid) b (segment L c c1) = Inr s" "agree_but_labels s b1"
    by blast
  obtain s2 where s2: "run_log (envelope_step lc uuid) s (segment L c1 i) = Inr s2" "agree_but_labels s1 s2"
    using run_agrees [OF s1(2) agree_sym [OF s(2)]] by blast
  have "agree_but_labels s2 b'"
    using agree_trans [OF agree_sym [OF s2(2)] label_patch_agrees [OF s1(3) np(1)]] .
  then show ?case
    using s(1) s2(1) by (simp add: s1(4) segment_join [OF c1(2,3)] run_log_append)
qed

text \<open>
  C6: Whatever envelopes of its Session's log reach the replica, lost, repeated, out of order, in
  batches, during a recovery or not, whatever snapshots are applied and whatever the browser patches
  in between, the projection it shows is the replay of the log from the last installed projection up to
  the next id it expects, with the patches at the ids they met: no envelope is skipped and none is
  applied twice. Unless the browser recorded events of its own, that is the fold of the log alone, but
  for title, root, parent and model selection; and without patches it is exactly that fold.
\<close>

theorem replica_folds_the_log:
  assumes "replica_trace lc uuid L w0 w b c ps" "numbered L" "wb_buffer w0 = []"
  shows "replay lc uuid L b c ps (wb_nextEventId w) = Inr (wb_shared w) \<and> placed c ps (wb_nextEventId w)
    \<and> ((\<forall>(i, p) \<in> set ps. \<not> is_append p) \<longrightarrow>
        (\<exists>s. run_log (envelope_step lc uuid) b (segment L c (wb_nextEventId w)) = Inr s
          \<and> agree_but_labels s (wb_shared w) \<and> (ps = [] \<longrightarrow> s = wb_shared w)))"
proof -
  obtain b' c' where staged: "stage lc uuid L b c ps = Inr (b', c')" "placed c ps c'"
      and fold: "run_log (envelope_step lc uuid) b' (segment L c' (wb_nextEventId w)) = Inr (wb_shared w)"
        "c' \<le> wb_nextEventId w"
    using trace_staged [OF assms] by (auto simp: follows_def folds_def)
  have "\<exists>s. run_log (envelope_step lc uuid) b (segment L c (wb_nextEventId w)) = Inr s
      \<and> agree_but_labels s (wb_shared w) \<and> (ps = [] \<longrightarrow> s = wb_shared w)"
    if plain: "\<forall>(i, p) \<in> set ps. \<not> is_append p"
  proof -
    obtain s where s: "run_log (envelope_step lc uuid) b (segment L c c') = Inr s" "agree_but_labels s b'"
      using stage_agrees [OF staged plain] by blast
    obtain s' where s': "run_log (envelope_step lc uuid) s (segment L c' (wb_nextEventId w)) = Inr s'"
        "agree_but_labels (wb_shared w) s'"
      using run_agrees [OF fold(1) agree_sym [OF s(2)]] by blast
    have "run_log (envelope_step lc uuid) b (segment L c (wb_nextEventId w)) = Inr s'"
      using s(1) s'(1) by (simp add: segment_join [OF placed_le [OF staged(2)] fold(2)] run_log_append)
    moreover have "s' = wb_shared w" if "ps = []"
    proof -
      have "s = b'" "b = b'" "c = c'"
        using staged(1) s(1) by (simp_all add: that)
      then show ?thesis
        using fold(1) s'(1) by simp
    qed
    ultimately show ?thesis
      using agree_sym [OF s'(2)] by blast
  qed
  then show ?thesis
    using staged(1) fold placed_later [OF staged(2) fold(2)] by (simp add: replay_def)
qed

section \<open>A recovery that succeeds\<close>

text \<open>Every lifecycle event of the log up to \<open>n\<close> is admitted where the fold meets it.\<close>

definition admitted ::
  "collation \<Rightarrow> client_uuid \<Rightarrow> (int \<Rightarrow> GlobalSessionEventEnvelope) \<Rightarrow> SessionProjection \<Rightarrow> int \<Rightarrow> int \<Rightarrow> bool" where
  "admitted lc uuid L s c n \<longleftrightarrow> run_ok (envelope_step lc uuid)
     (\<lambda>s g. case ge_payload g of StreamPayload (Lifecycle e) \<Rightarrow>
        (case validateExecutionTransition (executions s) e of Invalid _ \<Rightarrow> False | _ \<Rightarrow> True) | _ \<Rightarrow> True)
     s (segment L c n)"

lemma segment_Cons:
  assumes "i < j"
  shows "segment L i j = L i # segment L (i + 1) j"
proof -
  have "nat (j - i) = Suc (nat (j - (i + 1)))"
    using assms by linarith
  then show ?thesis
    by (simp add: segment_def upt_conv_Cons map_Suc_upt [symmetric] add.assoc del: upt_Suc)
qed

text \<open>The loop empties a buffer that holds exactly the ids from the next one on.\<close>

lemma drain_loop_completes:
  assumes "buffer_ok L w" "numbered L" "distinct (map fst (wb_buffer w))"
    and "fst ` set (wb_buffer w) = {wb_nextEventId w ..< n}" "wb_nextEventId w \<le> n"
    and "admitted lc uuid L (wb_shared w) (wb_nextEventId w) n"
    and "run_log (envelope_step lc uuid) (wb_shared w) (segment L (wb_nextEventId w) n) = Inr s"
  shows "\<exists>w'. drainLoop lc uuid w = Inr (w', True) \<and> wb_nextEventId w' = n \<and> wb_shared w' = s
    \<and> wb_buffer w' = []"
  using assms
proof (induction "nat (n - wb_nextEventId w)" arbitrary: w)
  case 0
  then have "wb_nextEventId w = n" "wb_buffer w = []" by auto
  with 0 show ?case by (intro exI [of _ w]) (simp add: drainLoop.simps [of lc uuid w])
next
  case (Suc k)
  let ?next = "wb_nextEventId w"
  let ?g = "L ?next"
  let ?taken = "w\<lparr>wb_buffer := AList.delete ?next (wb_buffer w)\<rparr>"
  have lt: "?next < n" using Suc(2) by linarith
  then have "?next \<in> fst ` set (wb_buffer w)" using Suc(6) by simp
  then obtain item where item: "map_of (wb_buffer w) ?next = Some item"
    by (cases "map_of (wb_buffer w) ?next") (auto simp: map_of_eq_None_iff)
  then have "snd item = ?g"
    using map_of_SomeD [OF item] Suc(3) by (cases item) (auto simp: buffer_ok_def)
  then obtain gen where gen: "item = (gen, ?g)" by (cases item) auto
  have seg: "segment L ?next n = ?g # segment L (?next + 1) n"
    using segment_Cons [OF lt] .
  from Suc(8) seg obtain s1 where s1: "envelope_step lc uuid (wb_shared w) ?g = Inr s1"
      "admitted lc uuid L s1 (?next + 1) n"
      "run_log (envelope_step lc uuid) s1 (segment L (?next + 1) n) = Inr s"
    using Suc(9) by (auto simp: admitted_def bindE_Inr_iff)
  have valid: "\<forall>r. envelope_transition ?taken (ge_payload ?g) \<noteq> Invalid r"
    using Suc(8) seg
    by (cases "(?taken, ge_payload ?g)" rule: envelope_transition.cases)
      (auto simp: admitted_def split: ExecutionTransitionValidation.splits)
  have "\<exists>w1 outcome. applyContiguousRemoteEnvelope lc uuid ?taken ?g = Inr (w1, outcome)
      \<and> outcome \<noteq> RAInvalid \<and> wb_shared w1 = s1"
  proof (cases "envelope_transition ?taken (ge_payload ?g)")
    case Valid
    obtain w1 where w1: "appendEnvelopeToState lc uuid ?taken (toLocalEnvelope ?g) True = Inr w1"
      using s1(1) by (auto simp: appendEnvelopeToState_def envelope_step_def reduce_step_def toLocalEnvelope_def
          Let_def bindE_Inr_iff split: SessionEventPayload.splits)
    then have "wb_shared w1 = s1" using append_step [OF w1] s1(1) by simp
    with w1 Valid show ?thesis by (simp add: applyContiguousRemoteEnvelope_def)
  next
    case Duplicate
    then have "s1 = wb_shared w" using duplicate_step [OF Duplicate] s1(1) by simp
    with Duplicate show ?thesis
      by (auto simp: applyContiguousRemoteEnvelope_def appendEnvelopeToState_def split: SessionEventPayload.splits)
  qed (use valid in blast)
  then obtain w1 outcome where w1: "applyContiguousRemoteEnvelope lc uuid ?taken ?g = Inr (w1, outcome)"
      "outcome \<noteq> RAInvalid" "wb_shared w1 = s1"
    by blast
  have fields: "wb_buffer w1 = AList.delete ?next (wb_buffer w)" "wb_nextEventId w1 = ?next + 1"
    using contiguous_fields [OF w1(1)] w1(2) Suc(4) by (simp_all add: numbered_def)
  have "drainLoop lc uuid w = drainLoop lc uuid w1"
    using item gen w1 by (simp add: drainLoop.simps [of lc uuid w] Let_def)
  moreover have "buffer_ok L w1"
    using subset_buffer_ok [OF Suc(3)] fields by (auto simp: AList.delete_eq)
  moreover have "distinct (map fst (wb_buffer w1))"
    using Suc(5) fields by (simp add: distinct_delete)
  moreover have "fst ` set (wb_buffer w1) = fst ` set (wb_buffer w) - {?next}"
    unfolding fields by (auto simp: AList.delete_eq)
  then have "fst ` set (wb_buffer w1) = {?next + 1 ..< n}"
    unfolding Suc(6) by auto
  ultimately show ?case
    using Suc(1) [of w1] Suc(2,4) lt fields s1 w1(3) by simp
qed

lemma counts_up_interval:
  assumes "sorted xs" "distinct xs" "set xs = {a ..< b}"
  shows "counts_up a xs"
  using assms
proof (induction xs arbitrary: a)
  case Nil
  then show ?case by simp
next
  case (Cons x xs)
  then have x: "x \<in> {a ..< b}" by (metis list.set_intros(1))
  then have "a \<in> set (x # xs)"
    unfolding Cons.prems(3) by simp
  with x have "x = a"
    using Cons.prems(1) by auto
  have "set xs = {a ..< b} - {x}"
    unfolding Cons.prems(3) [symmetric] using Cons.prems(2) by simp
  also have "{a ..< b} - {x} = {a + 1 ..< b}"
    unfolding \<open>x = a\<close> by (rule set_eqI) (simp, linarith)
  finally have rest: "set xs = {a + 1 ..< b}" .
  have "counts_up (a + 1) xs"
    by (rule Cons.IH [OF _ _ rest]) (use Cons.prems(1,2) in simp_all)
  with \<open>x = a\<close> show ?case by simp
qed

text \<open>The buffered ids a recovery of a generation will read.\<close>

definition buffered_ids :: "WebSessionStoreState \<Rightarrow> int \<Rightarrow> int \<Rightarrow> int set" where
  "buffered_ids w generation cursor =
     fst ` {p \<in> set (wb_buffer w). fst (snd p) = generation \<and> cursor < fst p}"

lemma recovery_goes_live:
  assumes "wb_awaiting w" "buffer_ok L w" "numbered L" "distinct (map fst (wb_buffer w))"
    and ids: "buffered_ids w (wb_generation w) (sn_eventCursor d) = {sn_eventCursor d + 1 ..< n}"
    and "sn_eventCursor d < n"
  defines "b \<equiv> wb_shared (authoritativeSnapshotUpdates w d True)"
  assumes "admitted lc uuid L b (sn_eventCursor d + 1) n"
    and "run_log (envelope_step lc uuid) b (segment L (sn_eventCursor d + 1) n) = Inr s"
  shows "\<exists>w'. applyAuthoritativeSnapshot lc uuid w d (wb_generation w) = Inr (w', SAApplied)
    \<and> \<not> wb_awaiting w' \<and> wb_nextEventId w' = n \<and> wb_shared w' = s"
proof -
  let ?c = "sn_eventCursor d" and ?gen = "wb_generation w"
  let ?discarded = "discardBufferedRemoteEventsThrough (authoritativeSnapshotUpdates w d True) ?c"
  let ?buffer = "filter (\<lambda>(i, item). fst item = ?gen) (wb_buffer ?discarded)"
  let ?current = "?discarded\<lparr>wb_buffer := ?buffer\<rparr>"
  have fields: "wb_buffer ?discarded = filter (\<lambda>(i, item). \<not> i \<le> ?c) (wb_buffer w)"
      "wb_nextEventId ?discarded = ?c + 1" "wb_shared ?discarded = b"
    by (simp_all add: discardBufferedRemoteEventsThrough_def b_def)
  have sub: "set ?buffer \<subseteq> set (wb_buffer w)"
    by (auto simp: fields)
  have keys: "fst ` set ?buffer = {?c + 1 ..< n}"
    using ids by (force simp: buffered_ids_def fields image_iff)
  have distinct: "distinct (map fst ?buffer)"
    using assms(4) by (auto simp: fields filter_filter intro: distinct_map_filter)
  have "buffer_ok L ?current"
    using subset_buffer_ok [OF assms(2)] sub by simp
  then obtain w1 where w1: "drainLoop lc uuid ?current = Inr (w1, True)" "wb_nextEventId w1 = n"
      "wb_shared w1 = s" "wb_buffer w1 = []"
    using drain_loop_completes [of L ?current n lc uuid s] assms(3,6,8,9) keys distinct fields by auto
  have "\<exists>w2. drainRecoveryBuffer lc uuid ?discarded ?gen = Inr (w2, True) \<and> wb_nextEventId w2 = n \<and> wb_shared w2 = s"
  proof (cases "?buffer = []")
    case True
    then have "{?c + 1 ..< n} = {}" using keys by simp
    then have n: "n = ?c + 1" using assms(6) by auto
    then have "s = b" using assms(9) by simp
    then show ?thesis
      using True n fields by (auto simp: drainRecoveryBuffer_def Let_def)
  next
    case False
    have "counts_up (?c + 1) (sort (map fst ?buffer))"
      using keys distinct by (intro counts_up_interval [where b = n]) simp_all
    moreover have "wb_buffer ?discarded \<noteq> []"
      using False by auto
    ultimately show ?thesis
      using False w1 fields(2) by (simp add: drainRecoveryBuffer_def Let_def)
  qed
  then obtain w2 where w2: "drainRecoveryBuffer lc uuid ?discarded ?gen = Inr (w2, True)"
      "wb_nextEventId w2 = n" "wb_shared w2 = s"
    by blast
  then show ?thesis
    using assms(1) by (intro exI [of _ "w2\<lparr>wb_awaiting := False\<rparr>"]) (simp add: applyAuthoritativeSnapshot_def Let_def)
qed

text \<open>
  C7: A recovery terminates and succeeds when the buffered envelopes continue the snapshot: the loop
  that drains the buffer ends, the replica is live again, and it shows the snapshot followed by every
  buffered envelope.
\<close>

theorem recovery_drains_and_goes_live:
  assumes "wb_awaiting w" "buffer_ok L w" "numbered L" "distinct (map fst (wb_buffer w))"
    and "buffered_ids w (wb_generation w) (sn_eventCursor d) = {sn_eventCursor d + 1 ..< n}"
    and "sn_eventCursor d < n" "b = wb_shared (authoritativeSnapshotUpdates w d True)"
    and "admitted lc uuid L b (sn_eventCursor d + 1) n"
    and "run_log (envelope_step lc uuid) b (segment L (sn_eventCursor d + 1) n) = Inr s"
  shows "\<exists>w'. applyAuthoritativeSnapshot lc uuid w d (wb_generation w) = Inr (w', SAApplied)
    \<and> \<not> wb_awaiting w' \<and> wb_nextEventId w' = n \<and> wb_shared w' = s"
  using recovery_goes_live [OF assms(1-6)] assms(7-9) by simp

end
