(* ===== verification/SessionGoalContract.thy ===== *)
theory SessionGoalContract
  imports StoreReducer JsonText
begin

text \<open>
  The Goal of a root Lead Session and its notices: the contract of
  packages/agent-core/src/session-goal/invariant.ts and the checks of schema.ts. A Goal change leaves
  a reminder that carries a notice; the next model call materializes the pending notices as
  messages. The contract ties the Goal, its reminders and its messages together.

  \<open>isUuid\<close> is the identifier check of the schema library, a parameter; \<open>lc\<close> is \<open>localeCompare\<close>.
\<close>

section \<open>Notices\<close>

record SessionGoalNoticeState =
  ns_sessionId :: jstring
  ns_rootSessionId :: jstring
  ns_parentSessionId :: "jstring option"
  ns_agentName :: jstring
  ns_goal :: "SessionGoal option"
  ns_messages :: "SessionMessage list"
  ns_reminders :: "Reminder list"

definition goal_notice_state :: "SessionStoreState \<Rightarrow> SessionGoalNoticeState" where
  "goal_notice_state st = (let s = st_shared st in
     \<lparr> ns_sessionId = sessionId s, ns_rootSessionId = rootSessionId s, ns_parentSessionId = parentSessionId s,
       ns_agentName = st_agentName st, ns_goal = goal s, ns_messages = messages s, ns_reminders = reminders s \<rparr>)"

definition goalSnapshot :: "SessionGoal \<Rightarrow> SessionGoalNoticeSnapshot" where
  "goalSnapshot g = \<lparr> gs_objective = go_objective g, gs_status = go_status g,
     gs_tokenBudget = go_tokenBudget g, gs_blockedReason = go_blockedReason g \<rparr>"

definition isRootLead :: "SessionGoalNoticeState \<Rightarrow> bool" where
  "isRootLead state \<longleftrightarrow> ns_agentName state = js ''lead'' \<and> ns_sessionId state = ns_rootSessionId state
     \<and> ns_parentSessionId state = None"

definition sameSnapshot :: "SessionGoalNoticeSnapshot \<Rightarrow> SessionGoalNoticeSnapshot \<Rightarrow> bool" where
  "sameSnapshot left right \<longleftrightarrow> gs_objective left = gs_objective right \<and> gs_status left = gs_status right
     \<and> gs_tokenBudget left = gs_tokenBudget right \<and> gs_blockedReason left = gs_blockedReason right"

definition sameGoalNotice :: "GoalNoticePart \<Rightarrow> GoalNoticePart \<Rightarrow> bool" where
  "sameGoalNotice left right \<longleftrightarrow> gn_id left = gn_id right \<and> gn_action left = gn_action right
     \<and> gn_authority left = gn_authority right \<and> gn_instanceId left = gn_instanceId right
     \<and> gn_previousGeneration left = gn_previousGeneration right \<and> gn_generation left = gn_generation right
     \<and> gn_createdAt left = gn_createdAt right
     \<and> (case (gn_goal left, gn_goal right) of
          (None, None) \<Rightarrow> True
        | (Some l, Some r) \<Rightarrow> sameSnapshot l r
        | _ \<Rightarrow> False)"

definition noticeProvesGoal :: "GoalNoticePart \<Rightarrow> SessionGoal \<Rightarrow> bool" where
  "noticeProvesGoal notice g \<longleftrightarrow> gn_instanceId notice = go_instanceId g \<and> gn_generation notice = go_generation g
     \<and> option_test (\<lambda>snapshot. sameSnapshot snapshot (goalSnapshot g)) (gn_goal notice)"

fun as_goal_notice :: "UserSessionPart \<Rightarrow> GoalNoticePart option" where
  "as_goal_notice (UserGoalNotice n) = Some n"
| "as_goal_notice _ = None"

fun goal_parts :: "SessionMessage \<Rightarrow> GoalNoticePart list" where
  "goal_parts (UserMessage u) = List.map_filter as_goal_notice (um_parts u)"
| "goal_parts (AssistantMessage a) = []"

definition goal_reminder :: "Reminder \<Rightarrow> GoalNoticePart option" where
  "goal_reminder r = (case (rm_delivery r, rm_source r) of
     (ModelContext, SessionGoalChangedSource n) \<Rightarrow> Some n
   | _ \<Rightarrow> None)"

text \<open>The Goal reminders, each with the notice it carries.\<close>

definition goalReminders :: "Reminder list \<Rightarrow> (Reminder \<times> GoalNoticePart) list" where
  "goalReminders rs = List.map_filter (\<lambda>r. map_option (Pair r) (goal_reminder r)) rs"

fun isExactGoalNoticeMessage :: "SessionMessage option \<Rightarrow> GoalNoticePart \<Rightarrow> bool" where
  "isExactGoalNoticeMessage (Some (UserMessage u)) notice \<longleftrightarrow> um_id u = gn_id notice
     \<and> (case um_parts u of [UserGoalNotice n] \<Rightarrow> sameGoalNotice n notice | _ \<Rightarrow> False)
     \<and> um_createdAt u = gn_createdAt notice \<and> um_completedAt u = Some (gn_createdAt notice)
     \<and> um_clientRequestId u = None \<and> um_modelAudit u = None \<and> um_executionId u = None"
| "isExactGoalNoticeMessage _ notice \<longleftrightarrow> False"

section \<open>The contract\<close>

text \<open>
  The reminders in order: ids are distinct, a pending one has no message, the consumed ones come
  first and each has its exact message. The result is the notices by reminder id, with whether the
  reminder is pending, and the ids of the consumed ones.
\<close>

fun scanGoalReminders ::
  "SessionMessage list \<Rightarrow> (Reminder \<times> GoalNoticePart) list \<Rightarrow> (jstring, GoalNoticePart \<times> bool) dict
   \<Rightarrow> bool \<Rightarrow> jstring list \<Rightarrow> jstring + ((jstring, GoalNoticePart \<times> bool) dict \<times> jstring list)" where
  "scanGoalReminders ms [] remindersById pendingSeen consumedIds = Inr (remindersById, consumedIds)"
| "scanGoalReminders ms ((r, notice) # rest) remindersById pendingSeen consumedIds =
    (if map_of remindersById (rm_id r) \<noteq> None
     then Inl (js ''Session Goal reminder id '' @ rm_id r @ js '' is duplicated'')
     else let byId = AList.update (rm_id r) (notice, rm_consumedAt r = None) remindersById in
       if rm_consumedAt r = None
       then (if \<exists>m \<in> set ms. msg_id m = rm_id r
             then Inl (js ''Pending Session Goal reminder '' @ rm_id r @ js '' must not have a materialized message'')
             else scanGoalReminders ms rest byId True consumedIds)
       else if pendingSeen
       then Inl (js ''Consumed Session Goal reminder '' @ rm_id r @ js '' cannot follow a pending Goal reminder'')
       else if \<not> isExactGoalNoticeMessage (find (\<lambda>m. msg_id m = rm_id r) ms) notice
       then Inl (js ''Consumed Session Goal reminder '' @ rm_id r @ js '' has no exact internal message'')
       else scanGoalReminders ms rest byId pendingSeen (consumedIds @ [rm_id r]))"

text \<open>The messages that carry a notice, by the first notice of each.\<close>

fun scanGoalMessages ::
  "(jstring, GoalNoticePart \<times> bool) dict \<Rightarrow> GoalNoticePart list \<Rightarrow> jstring list \<Rightarrow> jstring + jstring list" where
  "scanGoalMessages remindersById [] messageIds = Inr messageIds"
| "scanGoalMessages remindersById (notice # rest) messageIds =
    (if gn_id notice \<in> set messageIds
     then Inl (js ''Session Goal message id '' @ gn_id notice @ js '' is duplicated'')
     else case map_of remindersById (gn_id notice) of
       None \<Rightarrow> Inl (js ''Session Goal message '' @ gn_id notice @ js '' has no matching reminder'')
     | Some (reminded, pending) \<Rightarrow>
         (if \<not> sameGoalNotice reminded notice
          then Inl (js ''Session Goal message '' @ gn_id notice @ js '' has no matching reminder'')
          else if pending
          then Inl (js ''Session Goal message '' @ gn_id notice @ js '' belongs to a pending reminder'')
          else scanGoalMessages remindersById rest (messageIds @ [gn_id notice])))"

definition message_notices :: "SessionMessage list \<Rightarrow> GoalNoticePart list" where
  "message_notices ms = map hd (filter (\<lambda>ps. ps \<noteq> []) (map goal_parts ms))"

definition goal_label :: "SessionGoal \<Rightarrow> jstring" where
  "goal_label g = js ''Session Goal '' @ go_instanceId g @ js '' generation '' @ decimal (go_generation g)"

definition provedGoalError :: "SessionGoalNoticeState \<Rightarrow> jstring option" where
  "provedGoalError state =
    (case (at_last (goalReminders (ns_reminders state)), ns_goal state) of
       (None, None) \<Rightarrow> None
     | (None, Some g) \<Rightarrow> Some (goal_label g @ js '' has no pending or materialized Goal notice'')
     | (Some (r, latestProof), None) \<Rightarrow>
         (if gn_action latestProof = NoticeCleared \<and> gn_goal latestProof = None then None
          else Some (js ''Session has no Goal but its latest Goal notice is not cleared''))
     | (Some (r, latestProof), Some g) \<Rightarrow>
         (if noticeProvesGoal latestProof g then None
          else Some (goal_label g @ js '' does not match its latest pending or materialized Goal notice'')))"

definition sessionGoalNoticeInvariantError :: "SessionGoalNoticeState \<Rightarrow> jstring option" where
  "sessionGoalNoticeInvariantError state =
    (let reminders = goalReminders (ns_reminders state);
         notices = message_notices (ns_messages state) in
     if (ns_goal state \<noteq> None \<or> reminders \<noteq> [] \<or> notices \<noteq> []) \<and> \<not> isRootLead state
     then Some (js ''Session Goal notices and reminders belong only to root Lead Sessions'')
     else case scanGoalReminders (ns_messages state) reminders [] False [] of
       Inl e \<Rightarrow> Some e
     | Inr (remindersById, consumedIds) \<Rightarrow>
         (case scanGoalMessages remindersById notices [] of
            Inl e \<Rightarrow> Some e
          | Inr messageIds \<Rightarrow>
              (if messageIds \<noteq> consumedIds
               then Some (js ''Materialized Session Goal messages do not preserve reminder append order'')
               else provedGoalError state)))"

section \<open>The schemas\<close>

definition MAX_SAFE_INTEGER :: int where "MAX_SAFE_INTEGER = 2 ^ 53 - 1"
definition SESSION_GOAL_OBJECTIVE_MAX_LENGTH :: nat where "SESSION_GOAL_OBJECTIVE_MAX_LENGTH = 4000"
definition SESSION_GOAL_BLOCKED_REASON_MAX_LENGTH :: nat where "SESSION_GOAL_BLOCKED_REASON_MAX_LENGTH = 4000"

definition safe_count :: "int \<Rightarrow> bool" where
  "safe_count i \<longleftrightarrow> 0 \<le> i \<and> i \<le> MAX_SAFE_INTEGER"

definition safe_positive :: "int \<Rightarrow> bool" where
  "safe_positive i \<longleftrightarrow> 0 < i \<and> i \<le> MAX_SAFE_INTEGER"

text \<open>\<open>z.string().trim().min(1).max(n)\<close>: the trimmed text, or a rejection.\<close>

definition trimmed_text :: "nat \<Rightarrow> jstring \<Rightarrow> jstring option" where
  "trimmed_text limit s = (let t = trim s in if 1 \<le> length t \<and> length t \<le> limit then Some t else None)"

definition parseObjective :: "jstring \<Rightarrow> jstring option" where
  "parseObjective = trimmed_text SESSION_GOAL_OBJECTIVE_MAX_LENGTH"

definition parseBlockedReason :: "jstring \<Rightarrow> jstring option" where
  "parseBlockedReason = trimmed_text SESSION_GOAL_BLOCKED_REASON_MAX_LENGTH"

definition usage_fields_ok :: "SessionGoalUsage \<Rightarrow> bool" where
  "usage_fields_ok u \<longleftrightarrow> safe_count (inputTokens (gu_tokens u)) \<and> safe_count (outputTokens (gu_tokens u))
     \<and> safe_count (totalTokens (gu_tokens u)) \<and> safe_count (reasoningTokens (gu_tokens u))
     \<and> safe_count (cachedInputTokens (gu_tokens u)) \<and> safe_count (gu_executionTimeMs u)
     \<and> safe_count (gu_executionCount u)"

definition receipts_ok :: "collation \<Rightarrow> jstring list \<Rightarrow> bool" where
  "receipts_ok lc receipts \<longleftrightarrow> distinct receipts
     \<and> (\<forall>i \<in> set [1 ..< length receipts]. lc (receipts ! (i - 1)) (receipts ! i) \<le> 0)"

text \<open>The refinements of the Goal schema.\<close>

definition goal_refined :: "SessionGoal \<Rightarrow> bool" where
  "goal_refined g \<longleftrightarrow>
     totalTokens (gu_tokens (go_usage g)) = inputTokens (gu_tokens (go_usage g)) + outputTokens (gu_tokens (go_usage g))
   \<and> (go_status g = GoalPaused \<longrightarrow> go_pausedAt g \<noteq> None)
   \<and> (go_pausedAt g \<noteq> None \<longrightarrow> go_status g = GoalPaused \<or> go_status g = GoalBudgetLimited)
   \<and> (go_status g = GoalComplete \<longleftrightarrow> go_completedAt g \<noteq> None)
   \<and> (go_status g = GoalBlocked \<longrightarrow> go_blockedReason g \<noteq> None)
   \<and> (go_blockedReason g \<noteq> None \<longrightarrow> go_status g = GoalBlocked \<or> go_status g = GoalBudgetLimited)"

fun option_map_all :: "('a \<Rightarrow> 'b option) \<Rightarrow> 'a list \<Rightarrow> 'b list option" where
  "option_map_all f [] = Some []"
| "option_map_all f (x # xs) =
    (case f x of None \<Rightarrow> None | Some y \<Rightarrow> map_option (\<lambda>ys. y # ys) (option_map_all f xs))"

definition parseReceipt :: "jstring \<Rightarrow> jstring option" where
  "parseReceipt s = (if trim s = [] then None else Some (trim s))"

definition goal_scalars_ok :: "(jstring \<Rightarrow> bool) \<Rightarrow> SessionGoal \<Rightarrow> bool" where
  "goal_scalars_ok isUuid g \<longleftrightarrow> isUuid (go_instanceId g) \<and> safe_positive (go_generation g)
     \<and> (\<forall>b \<in> set_option (go_tokenBudget g). safe_positive b) \<and> usage_fields_ok (go_usage g)
     \<and> safe_count (go_createdAt g) \<and> safe_count (go_activatedAt g) \<and> safe_count (go_updatedAt g)
     \<and> (\<forall>t \<in> set_option (go_pausedAt g). safe_count t) \<and> (\<forall>t \<in> set_option (go_completedAt g). safe_count t)"

text \<open>\<open>SessionGoalSchema.parse\<close>: the Goal with its texts trimmed, or a rejection.\<close>

definition parseSessionGoal :: "(jstring \<Rightarrow> bool) \<Rightarrow> collation \<Rightarrow> SessionGoal \<Rightarrow> SessionGoal option" where
  "parseSessionGoal isUuid lc g =
    (case (parseObjective (go_objective g), option_map_all parseReceipt (go_settlementReceipts g),
           case go_blockedReason g of None \<Rightarrow> Some None
           | Some reason \<Rightarrow> map_option Some (parseBlockedReason reason)) of
       (Some objective, Some receipts, Some blockedReason) \<Rightarrow>
         (let parsed = g\<lparr>go_objective := objective, go_settlementReceipts := receipts,
                go_blockedReason := blockedReason\<rparr> in
          if goal_scalars_ok isUuid parsed \<and> receipts_ok lc receipts \<and> goal_refined parsed
          then Some parsed else None)
     | _ \<Rightarrow> None)"

definition parseSnapshot :: "SessionGoalNoticeSnapshot \<Rightarrow> SessionGoalNoticeSnapshot option" where
  "parseSnapshot s =
    (case (parseObjective (gs_objective s),
           case gs_blockedReason s of None \<Rightarrow> Some None
           | Some reason \<Rightarrow> map_option Some (parseBlockedReason reason)) of
       (Some objective, Some blockedReason) \<Rightarrow>
         (if (\<forall>b \<in> set_option (gs_tokenBudget s). safe_positive b)
             \<and> (gs_status s = GoalBlocked \<longrightarrow> blockedReason \<noteq> None)
             \<and> (blockedReason \<noteq> None \<longrightarrow> gs_status s = GoalBlocked \<or> gs_status s = GoalBudgetLimited)
          then Some (s\<lparr>gs_objective := objective, gs_blockedReason := blockedReason\<rparr>) else None)
     | _ \<Rightarrow> None)"

fun allowed_statuses :: "SessionGoalNoticeAction \<Rightarrow> SessionGoalStatus list" where
  "allowed_statuses NoticeCreated = [GoalActive]"
| "allowed_statuses NoticeResumed = [GoalActive]"
| "allowed_statuses NoticePaused = [GoalPaused, GoalBudgetLimited]"
| "allowed_statuses NoticeBudgetLimited = [GoalBudgetLimited]"
| "allowed_statuses NoticeBlocked = [GoalBlocked]"
| "allowed_statuses NoticeCompleted = [GoalComplete]"
| "allowed_statuses _ = [GoalActive, GoalPaused, GoalBlocked, GoalBudgetLimited, GoalComplete]"

fun expected_authority :: "SessionGoalNoticeAction \<Rightarrow> GoalNoticeAuthority" where
  "expected_authority NoticeBudgetLimited = RuntimeAuthority"
| "expected_authority NoticeBlocked = AgentAuthority"
| "expected_authority NoticeCompleted = AgentAuthority"
| "expected_authority _ = UserControl"

definition notice_refined :: "GoalNoticePart \<Rightarrow> bool" where
  "notice_refined n \<longleftrightarrow>
     (gn_action n = NoticeEdited \<longleftrightarrow> gn_previousGeneration n \<noteq> None)
   \<and> (gn_action n = NoticeEdited \<longrightarrow>
        (\<forall>previous \<in> set_option (gn_previousGeneration n). gn_generation n = previous + 1))
   \<and> (gn_action n = NoticeCreated \<longrightarrow> gn_generation n = 1)
   \<and> (gn_action n = NoticeCleared \<longleftrightarrow> gn_goal n = None)
   \<and> (\<forall>g \<in> set_option (gn_goal n). gs_status g \<in> set (allowed_statuses (gn_action n)))
   \<and> gn_authority n = expected_authority (gn_action n)"

text \<open>\<open>GoalNoticePartSchema.parse\<close>.\<close>

definition parseGoalNotice :: "(jstring \<Rightarrow> bool) \<Rightarrow> GoalNoticePart \<Rightarrow> GoalNoticePart option" where
  "parseGoalNotice isUuid n =
    (case (case gn_goal n of None \<Rightarrow> Some None | Some g \<Rightarrow> map_option Some (parseSnapshot g)) of
       None \<Rightarrow> None
     | Some snapshot \<Rightarrow>
         (let parsed = n\<lparr>gn_goal := snapshot\<rparr> in
          if isUuid (gn_id n) \<and> isUuid (gn_instanceId n)
             \<and> (\<forall>g \<in> set_option (gn_previousGeneration n). safe_positive g)
             \<and> safe_positive (gn_generation n) \<and> safe_count (gn_createdAt n) \<and> notice_refined parsed
          then Some parsed else None))"

end
