(* ===== verification/SessionGoalFacts.thy ===== *)
theory SessionGoalFacts
  imports SessionGoalContract
begin

text \<open>
  The Goal contract as a statement, and the checker of the program decides it. The Goal schema is a
  projection: what it returns has normal texts, and it returns a Goal with normal texts unchanged.
\<close>

section \<open>The contract, stated\<close>

definition is_consumed :: "Reminder \<times> GoalNoticePart \<Rightarrow> bool" where
  "is_consumed p \<longleftrightarrow> rm_consumedAt (fst p) \<noteq> None"

text \<open>
  Notices and reminders belong to a root Lead Session; reminder ids are distinct; the consumed
  reminders come before the pending ones; a pending one has no message yet and a consumed one has its
  exact message; the notices of the transcript are those of the consumed reminders, in their order;
  and the latest notice proves the Goal, or its absence.
\<close>

definition goal_contract :: "SessionGoalNoticeState \<Rightarrow> bool" where
  "goal_contract state \<longleftrightarrow>
    (let R = goalReminders (ns_reminders state); ms = ns_messages state;
         consumed = filter is_consumed R; pending = filter (\<lambda>p. \<not> is_consumed p) R in
     ((ns_goal state \<noteq> None \<or> R \<noteq> [] \<or> message_notices ms \<noteq> []) \<longrightarrow> isRootLead state)
   \<and> distinct (map (rm_id \<circ> fst) R) \<and> R = consumed @ pending
   \<and> (\<forall>p \<in> set pending. rm_id (fst p) \<notin> msg_id ` set ms)
   \<and> (\<forall>p \<in> set consumed. isExactGoalNoticeMessage (find (\<lambda>m. msg_id m = rm_id (fst p)) ms) (snd p))
   \<and> message_notices ms = map snd consumed
   \<and> provedGoalError state = None)"

lemma sameSnapshot_iff [simp]: "sameSnapshot a b \<longleftrightarrow> a = b"
  by (auto simp: sameSnapshot_def)

lemma sameGoalNotice_iff [simp]: "sameGoalNotice a b \<longleftrightarrow> a = b"
  by (auto simp: sameGoalNotice_def split: option.splits)

lemma update_fresh_key: "map_of d k = None \<Longrightarrow> AList.update k v d = d @ [(k, v)]"
  by (induction d) (auto split: if_splits)

lemma map_of_snoc: "map_of (d @ [(k, v)]) x = None \<longleftrightarrow> x \<noteq> k \<and> map_of d x = None"
  by (auto simp: map_of_eq_None_iff simp del: map_of_append)

section \<open>The scan of the reminders\<close>

fun consumed_first :: "bool \<Rightarrow> (Reminder \<times> GoalNoticePart) list \<Rightarrow> bool" where
  "consumed_first pendingSeen [] = True"
| "consumed_first pendingSeen (p # ps) =
    (if is_consumed p then \<not> pendingSeen \<and> consumed_first pendingSeen ps else consumed_first True ps)"

lemma consumed_first_True: "consumed_first True ps \<longleftrightarrow> filter is_consumed ps = []"
  by (induction ps) auto

lemma consumed_first_split:
  "consumed_first False ps \<longleftrightarrow> ps = filter is_consumed ps @ filter (\<lambda>p. \<not> is_consumed p) ps"
proof (induction ps)
  case Nil
  then show ?case by simp
next
  case (Cons p ps)
  show ?case
  proof (cases "is_consumed p")
    case True
    with Cons show ?thesis by simp
  next
    case False
    have "p # ps = filter is_consumed ps @ p # filter (\<lambda>p. \<not> is_consumed p) ps
        \<longleftrightarrow> filter is_consumed ps = []"
    proof
      assume eq: "p # ps = filter is_consumed ps @ p # filter (\<lambda>p. \<not> is_consumed p) ps"
      show "filter is_consumed ps = []"
      proof (rule ccontr)
        assume "filter is_consumed ps \<noteq> []"
        then obtain q qs where q: "filter is_consumed ps = q # qs" by (cases "filter is_consumed ps") auto
        then have "q \<in> set (filter is_consumed ps)" by simp
        then have "is_consumed q" by simp
        moreover have "q = p" using eq q by simp
        ultimately show False using False by simp
      qed
    next
      assume "filter is_consumed ps = []"
      then show "p # ps = filter is_consumed ps @ p # filter (\<lambda>p. \<not> is_consumed p) ps"
        by (simp add: filter_empty_conv filter_id_conv)
    qed
    with False show ?thesis by (simp add: consumed_first_True)
  qed
qed

definition by_id :: "(Reminder \<times> GoalNoticePart) list \<Rightarrow> (jstring, GoalNoticePart \<times> bool) dict" where
  "by_id R = map (\<lambda>p. (rm_id (fst p), snd p, \<not> is_consumed p)) R"

lemma scan_reminders_iff:
  "scanGoalReminders ms R d pendingSeen ids = Inr (d', ids') \<longleftrightarrow>
     distinct (map (rm_id \<circ> fst) R) \<and> (\<forall>p \<in> set R. map_of d (rm_id (fst p)) = None)
   \<and> consumed_first pendingSeen R
   \<and> (\<forall>p \<in> set R. \<not> is_consumed p \<longrightarrow> rm_id (fst p) \<notin> msg_id ` set ms)
   \<and> (\<forall>p \<in> set R. is_consumed p \<longrightarrow> isExactGoalNoticeMessage (find (\<lambda>m. msg_id m = rm_id (fst p)) ms) (snd p))
   \<and> d' = d @ by_id R \<and> ids' = ids @ map (rm_id \<circ> fst) (filter is_consumed R)"
proof (induction ms R d pendingSeen ids rule: scanGoalReminders.induct)
  case (1 ms d pendingSeen ids)
  then show ?case by (auto simp: by_id_def)
next
  case (2 ms r notice rest d pendingSeen ids)
  have swap: "(\<exists>m \<in> set ms. msg_id m = rm_id r) \<longleftrightarrow> rm_id r \<in> msg_id ` set ms"
    by force
  show ?case
  proof (cases "map_of d (rm_id r) = None")
    case False
    then show ?thesis by auto
  next
    case True
    have upd: "AList.update (rm_id r) (notice, b) d = d @ [(rm_id r, notice, b)]" for b
      by (rule update_fresh_key [OF True])
    have keys: "(\<forall>p \<in> set rest. map_of (d @ [(rm_id r, notice, b)]) (rm_id (fst p)) = None)
        \<longleftrightarrow> rm_id r \<notin> (rm_id \<circ> fst) ` set rest \<and> (\<forall>p \<in> set rest. map_of d (rm_id (fst p)) = None)" for b
      unfolding map_of_snoc by force
    show ?thesis
    proof (cases "rm_consumedAt r = None")
      case pending: True
      then have "\<not> is_consumed (r, notice)" by (simp add: is_consumed_def)
      then show ?thesis
        using 2(1) True pending
        by (auto simp: upd keys swap by_id_def simp del: map_of_append)
    next
      case consumed: False
      then have c: "is_consumed (r, notice)" by (simp add: is_consumed_def)
      show ?thesis
      proof (cases "pendingSeen \<or> \<not> isExactGoalNoticeMessage (find (\<lambda>m. msg_id m = rm_id r) ms) notice")
        case bad: True
        with c True consumed show ?thesis by (auto split: if_splits)
      next
        case good: False
        with c 2(2) True consumed show ?thesis
          by (auto simp: upd keys by_id_def simp del: map_of_append)
      qed
    qed
  qed
qed

lemma scan_messages_iff:
  "scanGoalMessages d N ids = Inr ids' \<longleftrightarrow>
     distinct (map gn_id N) \<and> gn_id ` set N \<inter> set ids = {}
   \<and> (\<forall>n \<in> set N. map_of d (gn_id n) = Some (n, False)) \<and> ids' = ids @ map gn_id N"
proof (induction d N ids rule: scanGoalMessages.induct)
  case (1 d ids)
  then show ?case by auto
next
  case (2 d notice rest ids)
  show ?case
  proof (cases "map_of d (gn_id notice)")
    case None
    then show ?thesis by simp
  next
    case (Some entry)
    obtain reminded pending where entry: "entry = (reminded, pending)" by fastforce
    show ?thesis
    proof (cases "gn_id notice \<notin> set ids \<and> reminded = notice \<and> \<not> pending")
      case True
      then show ?thesis
        using 2 [OF _ Some entry [symmetric]] Some entry by auto
    next
      case False
      with Some entry show ?thesis by auto
    qed
  qed
qed

section \<open>The checker decides the contract\<close>

lemma by_id_lookup:
  assumes "distinct (map (rm_id \<circ> fst) R)" "p \<in> set R"
  shows "map_of (by_id R) (rm_id (fst p)) = Some (snd p, \<not> is_consumed p)"
proof (rule map_of_is_SomeI)
  show "distinct (map fst (by_id R))"
    using assms(1) by (simp add: by_id_def comp_def)
  show "(rm_id (fst p), snd p, \<not> is_consumed p) \<in> set (by_id R)"
    using assms(2) by (force simp: by_id_def)
qed

lemma single_notice_iff:
  "(case ps of [UserGoalNotice m] \<Rightarrow> P m | _ \<Rightarrow> False) \<longleftrightarrow> (\<exists>m. ps = [UserGoalNotice m] \<and> P m)"
proof (cases ps)
  case Nil
  then show ?thesis by simp
next
  case (Cons p qs)
  then show ?thesis by (cases p; cases qs) auto
qed

text \<open>A consumed reminder with its exact message has the id of its notice.\<close>

lemma exact_message_id:
  assumes "isExactGoalNoticeMessage (find (\<lambda>m. msg_id m = i) ms) n"
  shows "gn_id n = i" "\<exists>u. find (\<lambda>m. msg_id m = i) ms = Some (UserMessage u) \<and> um_parts u = [UserGoalNotice n]"
proof -
  obtain u where u: "find (\<lambda>m. msg_id m = i) ms = Some (UserMessage u)"
    using assms by (cases "(find (\<lambda>m. msg_id m = i) ms, n)" rule: isExactGoalNoticeMessage.cases) auto
  then have "um_id u = i"
    using find_SomeD [OF u] by simp
  moreover have "um_id u = gn_id n" "um_parts u = [UserGoalNotice n]"
    using assms u by (auto simp: single_notice_iff)
  ultimately show "gn_id n = i"
      "\<exists>u. find (\<lambda>m. msg_id m = i) ms = Some (UserMessage u) \<and> um_parts u = [UserGoalNotice n]"
    using u by auto
qed

lemma notices_of_consumed:
  assumes R: "distinct (map (rm_id \<circ> fst) R)"
    and exact: "\<forall>p \<in> set R. is_consumed p \<longrightarrow> isExactGoalNoticeMessage (find (\<lambda>m. msg_id m = rm_id (fst p)) ms) (snd p)"
  shows "(distinct (map gn_id N) \<and> (\<forall>n \<in> set N. map_of (by_id R) (gn_id n) = Some (n, False))
      \<and> map gn_id N = map (rm_id \<circ> fst) (filter is_consumed R))
    \<longleftrightarrow> N = map snd (filter is_consumed R)"
proof
  let ?C = "filter is_consumed R"
  have ids: "gn_id (snd p) = rm_id (fst p)" if "p \<in> set ?C" for p
    using exact_message_id(1) exact that by auto
  have lookup: "map_of (by_id R) (rm_id (fst p)) = Some (snd p, False)" if "p \<in> set ?C" for p
    using by_id_lookup [OF R, of p] that by auto
  {
    assume N: "N = map snd ?C"
    then have eq: "map gn_id N = map (rm_id \<circ> fst) ?C"
      using ids by simp
    moreover have "distinct (map (rm_id \<circ> fst) ?C)"
      using R by (rule distinct_map_filter)
    moreover have "\<forall>n \<in> set N. map_of (by_id R) (gn_id n) = Some (n, False)"
      using lookup ids N by auto
    ultimately show "distinct (map gn_id N) \<and> (\<forall>n \<in> set N. map_of (by_id R) (gn_id n) = Some (n, False))
        \<and> map gn_id N = map (rm_id \<circ> fst) ?C"
      by simp
  next
    assume H: "distinct (map gn_id N) \<and> (\<forall>n \<in> set N. map_of (by_id R) (gn_id n) = Some (n, False))
        \<and> map gn_id N = map (rm_id \<circ> fst) ?C"
    then have len: "length N = length ?C"
      by (metis length_map)
    show "N = map snd ?C"
    proof (rule nth_equalityI)
      show "length N = length (map snd ?C)" using len by simp
      fix i assume i: "i < length N"
      have "gn_id (N ! i) = rm_id (fst (?C ! i))"
        using H i len by (metis comp_apply nth_map)
      then have "Some (N ! i, False) = Some (snd (?C ! i), False)"
        using H lookup [of "?C ! i"] i len by (metis nth_mem)
      then show "N ! i = map snd ?C ! i"
        using i len by simp
    qed
  }
qed

lemma checker_decides:
  "sessionGoalNoticeInvariantError state = None \<longleftrightarrow> goal_contract state"
proof -
  let ?R = "goalReminders (ns_reminders state)" and ?ms = "ns_messages state"
  let ?N = "message_notices ?ms"
  let ?root = "(ns_goal state \<noteq> None \<or> ?R \<noteq> [] \<or> ?N \<noteq> []) \<longrightarrow> isRootLead state"
  let ?scan = "distinct (map (rm_id \<circ> fst) ?R) \<and> consumed_first False ?R
      \<and> (\<forall>p \<in> set ?R. \<not> is_consumed p \<longrightarrow> rm_id (fst p) \<notin> msg_id ` set ?ms)
      \<and> (\<forall>p \<in> set ?R. is_consumed p \<longrightarrow> isExactGoalNoticeMessage (find (\<lambda>m. msg_id m = rm_id (fst p)) ?ms) (snd p))"
  let ?notices = "distinct (map gn_id ?N) \<and> (\<forall>n \<in> set ?N. map_of (by_id ?R) (gn_id n) = Some (n, False))
      \<and> map gn_id ?N = map (rm_id \<circ> fst) (filter is_consumed ?R)"
  have "sessionGoalNoticeInvariantError state = None \<longleftrightarrow> ?root
      \<and> (\<exists>d ids. scanGoalReminders ?ms ?R [] False [] = Inr (d, ids)
           \<and> scanGoalMessages d ?N [] = Inr ids \<and> provedGoalError state = None)"
    by (auto simp: sessionGoalNoticeInvariantError_def Let_def split: sum.splits prod.splits if_splits)
  also have "\<dots> \<longleftrightarrow> ?root \<and> ?scan \<and> ?notices \<and> provedGoalError state = None"
    unfolding scan_reminders_iff scan_messages_iff by auto
  also have "\<dots> \<longleftrightarrow> ?root \<and> ?scan \<and> ?N = map snd (filter is_consumed ?R) \<and> provedGoalError state = None"
    using notices_of_consumed [of ?R ?ms ?N] by blast
  also have "\<dots> \<longleftrightarrow> goal_contract state"
    unfolding goal_contract_def Let_def consumed_first_split by auto
  finally show ?thesis .
qed

section \<open>Normal texts\<close>

lemma trimStart_idem: "\<not> is_space (hd s) \<Longrightarrow> trimStart s = s"
  by (cases s) (simp_all add: trimStart_def)

lemma trim_stops:
  assumes "trim s \<noteq> []"
  shows "\<not> is_space (hd (trim s))" "\<not> is_space (last (trim s))"
proof -
  let ?t = "trimStart s"
  have t: "?t \<noteq> []"
    using assms by (auto simp: trim_def trimEnd_def)
  then have head: "\<not> is_space (hd ?t)"
    using hd_dropWhile [of is_space s] by (simp add: trimStart_def)
  have r: "dropWhile is_space (rev ?t) \<noteq> []"
    using assms by (simp add: trim_def trimEnd_def)
  show "\<not> is_space (last (trim s))"
    using hd_dropWhile [OF r] r by (simp add: trim_def trimEnd_def last_rev)
  obtain w where w: "rev ?t = w @ dropWhile is_space (rev ?t)"
    by (metis takeWhile_dropWhile_id)
  then have "?t = rev (dropWhile is_space (rev ?t)) @ rev w"
    by (metis rev_append rev_rev_ident)
  then have "hd ?t = hd (trim s)"
    using r by (metis hd_append2 rev_is_Nil_conv trimEnd_def trim_def)
  with head show "\<not> is_space (hd (trim s))" by simp
qed

lemma trim_idem [simp]: "trim (trim s) = trim s"
proof (cases "trim s = []")
  case True
  have "trim [] = []" by (simp add: trim_def trimStart_def trimEnd_def)
  with True show ?thesis by (simp only:)
next
  case False
  let ?t = "trim s"
  have "trimStart ?t = ?t"
    using trimStart_idem trim_stops(1) [OF False] by blast
  moreover have "dropWhile is_space (rev ?t) = rev ?t"
    using trim_stops(2) [OF False] by (simp add: dropWhile_eq_self_iff hd_rev)
  ultimately show ?thesis
    by (simp add: trim_def [of ?t] trimEnd_def)
qed

lemma trimmed_text_normal: "trimmed_text n s = Some t \<Longrightarrow> trimmed_text n t = Some t"
  by (auto simp: trimmed_text_def Let_def split: if_splits)

lemma parseReceipt_normal: "parseReceipt s = Some t \<Longrightarrow> parseReceipt t = Some t"
  by (auto simp: parseReceipt_def split: if_splits)

lemma option_map_all_iff:
  "option_map_all f xs = Some ys \<longleftrightarrow> list_all2 (\<lambda>x y. f x = Some y) xs ys"
  by (induction xs arbitrary: ys) (auto simp: list_all2_Cons1 split: option.splits)

text \<open>A Goal whose texts are as the schema leaves them.\<close>

definition normal_goal :: "SessionGoal \<Rightarrow> bool" where
  "normal_goal g \<longleftrightarrow> parseObjective (go_objective g) = Some (go_objective g)
     \<and> (\<forall>r \<in> set (go_settlementReceipts g). parseReceipt r = Some r)
     \<and> (\<forall>b \<in> set_option (go_blockedReason g). parseBlockedReason b = Some b)"

definition goal_ok :: "(jstring \<Rightarrow> bool) \<Rightarrow> collation \<Rightarrow> SessionGoal \<Rightarrow> bool" where
  "goal_ok isUuid lc g \<longleftrightarrow> normal_goal g \<and> goal_scalars_ok isUuid g
     \<and> receipts_ok lc (go_settlementReceipts g) \<and> goal_refined g"

lemma parse_normal:
  assumes "normal_goal g" "parseSessionGoal isUuid lc g = Some g'"
  shows "g' = g \<and> goal_ok isUuid lc g"
proof -
  have "option_map_all parseReceipt (go_settlementReceipts g) = Some (go_settlementReceipts g)"
    using assms(1) by (simp add: option_map_all_iff normal_goal_def list_all2_same)
  moreover have "(case go_blockedReason g of None \<Rightarrow> Some None
      | Some reason \<Rightarrow> map_option Some (parseBlockedReason reason)) = Some (go_blockedReason g)"
    using assms(1) by (simp add: normal_goal_def split: option.splits)
  moreover have "g\<lparr>go_objective := go_objective g, go_settlementReceipts := go_settlementReceipts g,
      go_blockedReason := go_blockedReason g\<rparr> = g"
    by simp
  moreover have "parseObjective (go_objective g) = Some (go_objective g)"
    using assms(1) by (simp add: normal_goal_def)
  ultimately have "parseSessionGoal isUuid lc g = (if goal_scalars_ok isUuid g
      \<and> receipts_ok lc (go_settlementReceipts g) \<and> goal_refined g then Some g else None)"
    unfolding parseSessionGoal_def Let_def by (simp only: option.case prod.case)
  then show ?thesis
    using assms by (auto simp: goal_ok_def split: if_splits)
qed

lemma parse_result_ok:
  assumes "parseSessionGoal isUuid lc g = Some g'"
  shows "goal_ok isUuid lc g'"
proof -
  obtain objective receipts reason where parts:
      "parseObjective (go_objective g) = Some objective"
      "option_map_all parseReceipt (go_settlementReceipts g) = Some receipts"
      "(case go_blockedReason g of None \<Rightarrow> Some None | Some r \<Rightarrow> map_option Some (parseBlockedReason r)) = Some reason"
      "g' = g\<lparr>go_objective := objective, go_settlementReceipts := receipts, go_blockedReason := reason\<rparr>"
      "goal_scalars_ok isUuid g'" "receipts_ok lc receipts" "goal_refined g'"
    using assms by (auto simp: parseSessionGoal_def Let_def split: option.splits if_splits)
  have "\<forall>r \<in> set receipts. parseReceipt r = Some r"
    using parts(2) parseReceipt_normal by (fastforce simp: option_map_all_iff list_all2_conv_all_nth in_set_conv_nth)
  moreover have "\<forall>b \<in> set_option reason. parseBlockedReason b = Some b"
    using parts(3) trimmed_text_normal by (auto simp: parseBlockedReason_def split: option.splits)
  moreover have "parseObjective objective = Some objective"
    using parts(1) trimmed_text_normal by (simp add: parseObjective_def)
  ultimately show ?thesis
    using parts by (simp add: goal_ok_def normal_goal_def)
qed

end
