(* ===== verification/SessionGoalService.thy ===== *)
theory SessionGoalService
  imports SessionGoalContract SessionLog
begin

text \<open>
  The Goal service, packages/agent-core/src/session-goal/service.ts: who may create, edit, pause,
  resume, clear, budget, settle, block and complete a Goal, the events each records, and the
  materialization of pending notices. An operation reads the state of the store and yields a patch
  and events for one durable mutation, or the error it throws; operations on a Session run one
  after the other.

  \<open>now\<close> is \<open>Date.now()\<close>, \<open>newInstance\<close> and \<open>newReminder\<close> are what \<open>crypto.randomUUID()\<close> yields for a
  new Goal and for the notice.
\<close>

section \<open>Errors\<close>

datatype SessionGoalErrorCode =
    NotRootLead | GoalNotFound | GoalAlreadyActive | GoalTerminal | PendingSettlements
  | GenerationConflict | InvalidTransition | AuthorityDenied | ContractViolation

datatype goal_error =
    SessionGoalServiceError SessionGoalErrorCode
  | SchemaError
  | SessionFileNotFoundError jstring

fun check :: "bool \<Rightarrow> goal_error \<Rightarrow> goal_error + unit" where
  "check ok e = (if ok then Inr () else Inl e)"

fun required :: "'a option \<Rightarrow> goal_error \<Rightarrow> goal_error + 'a" where
  "required (Some x) e = Inr x"
| "required None e = Inl e"

abbreviation service_error :: "SessionGoalErrorCode \<Rightarrow> goal_error" where
  "service_error \<equiv> SessionGoalServiceError"

definition requireAuthority :: "GoalNoticeAuthority \<Rightarrow> GoalNoticeAuthority \<Rightarrow> goal_error + unit" where
  "requireAuthority authority expected = check (authority = expected) (service_error AuthorityDenied)"

definition requiredText :: "jstring \<Rightarrow> goal_error + jstring" where
  "requiredText value = (let trimmed = trim value in
     if trimmed = [] then Inl (service_error InvalidTransition) else Inr trimmed)"

definition positiveInt :: "int \<Rightarrow> goal_error + int" where
  "positiveInt value = (if safe_positive value then Inr value else Inl (service_error InvalidTransition))"

definition nonNegativeInt :: "int \<Rightarrow> goal_error + int" where
  "nonNegativeInt value = (if safe_count value then Inr value else Inl (service_error InvalidTransition))"

section \<open>Reading the Goal\<close>

definition assertRootLead :: "SessionStoreState \<Rightarrow> goal_error + unit" where
  "assertRootLead st = check (parentSessionId (st_shared st) = None
     \<and> rootSessionId (st_shared st) = sessionId (st_shared st) \<and> st_agentName st = js ''lead'')
     (service_error NotRootLead)"

definition assertGoalContract :: "SessionGoalNoticeState \<Rightarrow> goal_error + unit" where
  "assertGoalContract state =
     check (sessionGoalNoticeInvariantError state = None) (service_error ContractViolation)"

definition requiredGoal :: "SessionStoreState \<Rightarrow> goal_error + SessionGoal" where
  "requiredGoal st = required (goal (st_shared st)) (service_error GoalNotFound)"

definition nonTerminalGoal :: "SessionStoreState \<Rightarrow> goal_error + SessionGoal" where
  "nonTerminalGoal st = bindE (requiredGoal st) (\<lambda>g.
     if go_status g = GoalComplete then Inl (service_error GoalTerminal) else Inr g)"

definition goalAtGeneration :: "SessionStoreState \<Rightarrow> int \<Rightarrow> goal_error + SessionGoal" where
  "goalAtGeneration st expectedGeneration = bindE (nonTerminalGoal st) (\<lambda>g.
     if go_generation g \<noteq> expectedGeneration then Inl (service_error GenerationConflict) else Inr g)"

definition requireActiveGoal :: "SessionStoreState \<Rightarrow> goal_error + SessionGoal" where
  "requireActiveGoal st = bindE (nonTerminalGoal st) (\<lambda>g.
     if go_status g \<noteq> GoalActive then Inl (service_error InvalidTransition) else Inr g)"

definition activeGoalAtIdentity :: "SessionStoreState \<Rightarrow> jstring \<Rightarrow> int \<Rightarrow> goal_error + SessionGoal" where
  "activeGoalAtIdentity st expectedInstanceId expectedGeneration = bindE (requireActiveGoal st) (\<lambda>g.
     if go_instanceId g \<noteq> expectedInstanceId \<or> go_generation g \<noteq> expectedGeneration
     then Inl (service_error GenerationConflict) else Inr g)"

definition unapplied :: "jstring \<Rightarrow> SessionExecutionSettlement \<Rightarrow> bool" where
  "unapplied goalInstanceId settlement \<longleftrightarrow>
     stl_goalInstanceId settlement = Some goalInstanceId \<and> stl_appliedAt settlement = None"

fun run_settlements :: "SessionExecutionRun \<Rightarrow> SessionExecutionSettlement list" where
  "run_settlements (OpenRun _ _ _) = []"
| "run_settlements (ClosedRun _ _ _ _ _ _ settlement) = [settlement]"

fun state_settlements :: "SessionExecutionState \<Rightarrow> SessionExecutionSettlement list" where
  "state_settlements (Terminal _ _ _ _ settlement) = [settlement]"
| "state_settlements _ = []"

definition execution_settlements :: "SessionExecutionRecord \<Rightarrow> SessionExecutionSettlement list" where
  "execution_settlements e = concat (map run_settlements (ex_runs e)) @ state_settlements (ex_state e)"

definition assertNoPendingGoalSettlements :: "SessionStoreState \<Rightarrow> jstring \<Rightarrow> goal_error + unit" where
  "assertNoPendingGoalSettlements st goalInstanceId =
     check (\<forall>e \<in> set (executions (st_shared st)). \<forall>s \<in> set (execution_settlements e). \<not> unapplied goalInstanceId s)
       (service_error PendingSettlements)"

text \<open>
  The scan of the whole Session family: the unapplied settlements of the workspace, each with its
  Session and Goal, and the root of a Session where the index knows it.
\<close>

fun assertNoPendingFamilySettlements ::
  "jstring \<Rightarrow> jstring \<Rightarrow> (jstring \<Rightarrow> jstring option) \<Rightarrow> (jstring \<times> jstring option) list \<Rightarrow> goal_error + unit" where
  "assertNoPendingFamilySettlements targetId goalInstanceId rootOf [] = Inr ()"
| "assertNoPendingFamilySettlements targetId goalInstanceId rootOf ((sid, goalId) # rest) =
    (if goalId \<noteq> Some goalInstanceId then assertNoPendingFamilySettlements targetId goalInstanceId rootOf rest
     else case rootOf sid of
       None \<Rightarrow> Inl (SessionFileNotFoundError sid)
     | Some rootId \<Rightarrow>
         (if rootId = targetId then Inl (service_error PendingSettlements)
          else assertNoPendingFamilySettlements targetId goalInstanceId rootOf rest))"

section \<open>Outcomes\<close>

record MutationEvent =
  me_action :: SessionGoalChangeAction
  me_occurredAt :: int
  me_reason :: "jstring option"

record MutationNotice =
  mn_action :: SessionGoalNoticeAction
  mn_authority :: GoalNoticeAuthority
  mn_previousGeneration :: "int option"

record MutationResult =
  mr_goal :: SessionGoal
  mr_event :: "MutationEvent option"
  mr_notice :: "MutationNotice option"

definition semanticChange ::
  "SessionGoal \<Rightarrow> SessionGoalChangeAction \<Rightarrow> SessionGoalNoticeAction \<Rightarrow> GoalNoticeAuthority \<Rightarrow> int
   \<Rightarrow> int option \<Rightarrow> jstring option \<Rightarrow> MutationResult" where
  "semanticChange g eventAction noticeAction authority now previousGeneration reason =
     \<lparr> mr_goal = g,
       mr_event = Some \<lparr> me_action = eventAction, me_occurredAt = now, me_reason = reason \<rparr>,
       mr_notice = Some \<lparr> mn_action = noticeAction, mn_authority = authority,
         mn_previousGeneration = previousGeneration \<rparr> \<rparr>"

definition persistedChange :: "SessionGoal \<Rightarrow> SessionGoalChangeAction \<Rightarrow> int \<Rightarrow> MutationResult" where
  "persistedChange g action now = \<lparr> mr_goal = g,
     mr_event = Some \<lparr> me_action = action, me_occurredAt = now, me_reason = None \<rparr>, mr_notice = None \<rparr>"

definition unchanged :: "SessionGoal \<Rightarrow> MutationResult" where
  "unchanged g = \<lparr> mr_goal = g, mr_event = None, mr_notice = None \<rparr>"

definition eventFor :: "SessionGoal \<Rightarrow> SessionGoalChangeAction \<Rightarrow> int \<Rightarrow> jstring option \<Rightarrow> SessionGoalChangedEvent" where
  "eventFor g action occurredAt reason = \<lparr> gc_action = action, gc_instanceId = go_instanceId g,
     gc_generation = go_generation g, gc_goal = (if action = ChangeCleared then None else Some g),
     gc_status = Some (go_status g), gc_reason = reason, gc_occurredAt = occurredAt \<rparr>"

definition goalReminder ::
  "(jstring \<Rightarrow> bool) \<Rightarrow> jstring \<Rightarrow> SessionGoal \<Rightarrow> SessionGoalNoticeAction \<Rightarrow> GoalNoticeAuthority \<Rightarrow> int
   \<Rightarrow> int option \<Rightarrow> goal_error + Reminder" where
  "goalReminder isUuid newReminder g action authority now previousGeneration =
     bindE (required (parseGoalNotice isUuid \<lparr> gn_id = newReminder, gn_action = action,
         gn_authority = authority, gn_instanceId = go_instanceId g,
         gn_previousGeneration = previousGeneration, gn_generation = go_generation g,
         gn_goal = (if action = NoticeCleared then None else Some (goalSnapshot g)),
         gn_createdAt = now \<rparr>) SchemaError) (\<lambda>notice.
       Inr \<lparr> rm_id = newReminder, rm_source = SessionGoalChangedSource notice, rm_delivery = ModelContext,
         rm_sessionId = None, rm_terminalState = None,
         rm_content = js ''Session Goal '' @ js (goal_action_name action), rm_payload = JsUndefined,
         rm_createdAt = now, rm_consumedAt = None, rm_targetSessionId = None \<rparr>)"

definition messageFor :: "GoalNoticePart \<Rightarrow> SessionMessage" where
  "messageFor notice = UserMessage \<lparr> um_id = gn_id notice, um_createdAt = gn_createdAt notice,
     um_completedAt = Some (gn_createdAt notice), um_executionId = None, um_runOrdinal = None,
     um_clientRequestId = None, um_inputSource = None, um_parentAgentProvenance = None,
     um_compacted = None, um_parts = [UserGoalNotice notice], um_modelAudit = None \<rparr>"

section \<open>The operations\<close>

definition checkedGoal :: "(jstring \<Rightarrow> bool) \<Rightarrow> collation \<Rightarrow> SessionGoal \<Rightarrow> goal_error + SessionGoal" where
  "checkedGoal isUuid lc g = required (parseSessionGoal isUuid lc g) SchemaError"

record GoalEnvironment =
  env_isUuid :: "jstring \<Rightarrow> bool"
  env_collation :: collation
  env_now :: int
  env_newInstance :: jstring
  env_newReminder :: jstring

abbreviation checked :: "GoalEnvironment \<Rightarrow> SessionGoal \<Rightarrow> goal_error + SessionGoal" where
  "checked env \<equiv> checkedGoal (env_isUuid env) (env_collation env)"

definition newGoal :: "GoalEnvironment \<Rightarrow> jstring \<Rightarrow> SessionGoal" where
  "newGoal env objective = \<lparr> go_instanceId = env_newInstance env, go_generation = 1,
     go_objective = objective, go_status = GoalActive, go_tokenBudget = None,
     go_usage = \<lparr> gu_tokens = stats_usage createEmptySessionStats, gu_executionTimeMs = 0, gu_executionCount = 0 \<rparr>,
     go_settlementReceipts = [], go_blockedReason = None, go_createdAt = env_now env,
     go_activatedAt = env_now env, go_updatedAt = env_now env, go_pausedAt = None, go_completedAt = None \<rparr>"

definition createGoal ::
  "GoalEnvironment \<Rightarrow> jstring \<Rightarrow> GoalNoticeAuthority \<Rightarrow> SessionStoreState \<Rightarrow> goal_error + MutationResult" where
  "createGoal env objective authority st =
     bindE (case goal (st_shared st) of
       None \<Rightarrow> Inr ()
     | Some g \<Rightarrow> (if go_status g \<noteq> GoalComplete then Inl (service_error GoalAlreadyActive)
                  else assertNoPendingGoalSettlements st (go_instanceId g))) (\<lambda>_.
     bindE (checked env (newGoal env objective)) (\<lambda>g.
       Inr (semanticChange g ChangeCreated NoticeCreated authority (env_now env) None None)))"

definition editGoal ::
  "GoalEnvironment \<Rightarrow> int \<Rightarrow> jstring \<Rightarrow> GoalNoticeAuthority \<Rightarrow> SessionStoreState \<Rightarrow> goal_error + MutationResult" where
  "editGoal env expectedGeneration objective authority st =
     bindE (goalAtGeneration st expectedGeneration) (\<lambda>current.
     bindE (checked env (current\<lparr>go_generation := go_generation current + 1, go_objective := objective,
              go_updatedAt := env_now env\<rparr>)) (\<lambda>g.
       Inr (semanticChange g ChangeEdited NoticeEdited authority (env_now env)
              (Some (go_generation current)) None)))"

definition pauseGoal ::
  "GoalEnvironment \<Rightarrow> GoalNoticeAuthority \<Rightarrow> SessionStoreState \<Rightarrow> goal_error + MutationResult" where
  "pauseGoal env authority st =
     bindE (nonTerminalGoal st) (\<lambda>current.
       let paused = (\<lambda>g. bindE (checked env g) (\<lambda>g'.
             Inr (semanticChange g' ChangePaused NoticePaused authority (env_now env) None None))) in
       if go_status current = GoalPaused then Inr (unchanged current)
       else if go_status current = GoalBudgetLimited
       then (if go_pausedAt current \<noteq> None then Inr (unchanged current)
             else paused (current\<lparr>go_pausedAt := Some (env_now env), go_blockedReason := None,
                    go_updatedAt := env_now env\<rparr>))
       else if go_status current \<noteq> GoalActive then Inl (service_error InvalidTransition)
       else paused (current\<lparr>go_status := GoalPaused, go_pausedAt := Some (env_now env),
              go_blockedReason := None, go_updatedAt := env_now env\<rparr>))"

definition budget_exhausted :: "int option \<Rightarrow> NormalizedUsage \<Rightarrow> bool" where
  "budget_exhausted tokenBudget tokens = option_test (\<lambda>b. totalTokens tokens \<ge> b) tokenBudget"

definition resumeGoal ::
  "GoalEnvironment \<Rightarrow> GoalNoticeAuthority \<Rightarrow> SessionStoreState \<Rightarrow> goal_error + MutationResult" where
  "resumeGoal env authority st =
     bindE (nonTerminalGoal st) (\<lambda>current.
       if go_status current \<noteq> GoalPaused \<and> go_status current \<noteq> GoalBlocked \<and> go_status current \<noteq> GoalBudgetLimited
       then Inl (service_error InvalidTransition)
       else if budget_exhausted (go_tokenBudget current) (gu_tokens (go_usage current))
       then Inl (service_error InvalidTransition)
       else bindE (checked env (current\<lparr>go_status := GoalActive, go_pausedAt := None, go_blockedReason := None,
              go_updatedAt := env_now env\<rparr>)) (\<lambda>g.
         Inr (semanticChange g ChangeResumed NoticeResumed authority (env_now env) None None)))"

definition rebudgeted_status :: "SessionGoal \<Rightarrow> int option \<Rightarrow> SessionGoalStatus" where
  "rebudgeted_status current tokenBudget =
    (if budget_exhausted tokenBudget (gu_tokens (go_usage current)) then GoalBudgetLimited
     else if go_status current = GoalBudgetLimited
     then (if go_pausedAt current \<noteq> None then GoalPaused
           else if go_blockedReason current \<noteq> None then GoalBlocked else GoalActive)
     else go_status current)"

definition setTokenBudget ::
  "GoalEnvironment \<Rightarrow> int option \<Rightarrow> GoalNoticeAuthority \<Rightarrow> SessionStoreState \<Rightarrow> goal_error + MutationResult" where
  "setTokenBudget env budget authority st =
     bindE (nonTerminalGoal st) (\<lambda>current.
     bindE (case budget of None \<Rightarrow> Inr None | Some b \<Rightarrow> bindE (positiveInt b) (\<lambda>v. Inr (Some v))) (\<lambda>tokenBudget.
       let status = rebudgeted_status current tokenBudget in
       if go_tokenBudget current = tokenBudget \<and> go_status current = status then Inr (unchanged current)
       else bindE (checked env (current\<lparr>go_tokenBudget := tokenBudget, go_status := status,
              go_updatedAt := env_now env\<rparr>)) (\<lambda>g.
         Inr (semanticChange g ChangeBudgetUpdated NoticeBudgetUpdated authority (env_now env) None None))))"

record GoalSettlement =
  gst_settlementKey :: jstring
  gst_goalInstanceId :: jstring
  gst_usage :: NormalizedUsage
  gst_executionTimeMs :: int
  gst_terminal :: bool

definition settled_usage :: "SessionGoalUsage \<Rightarrow> GoalSettlement \<Rightarrow> SessionGoalUsage" where
  "settled_usage u s = \<lparr> gu_tokens = addUsage (gu_tokens u) (gst_usage s),
     gu_executionTimeMs = gu_executionTimeMs u + gst_executionTimeMs s,
     gu_executionCount = gu_executionCount u + (if gst_terminal s then 1 else 0) \<rparr>"

definition recordSettlement ::
  "GoalEnvironment \<Rightarrow> jstring \<Rightarrow> GoalSettlement \<Rightarrow> GoalNoticeAuthority \<Rightarrow> SessionStoreState
   \<Rightarrow> goal_error + MutationResult" where
  "recordSettlement env settlementKey s authority st =
     bindE (requiredGoal st) (\<lambda>current.
       if go_instanceId current \<noteq> gst_goalInstanceId s then Inl (service_error GenerationConflict)
       else if settlementKey \<in> set (go_settlementReceipts current) then Inr (unchanged current)
       else
         (let tokens = addUsage (gu_tokens (go_usage current)) (gst_usage s);
              budgetLimited = (go_status current \<noteq> GoalComplete \<and> budget_exhausted (go_tokenBudget current) tokens);
              status = (if budgetLimited then GoalBudgetLimited else go_status current) in
          bindE (nonNegativeInt (gst_executionTimeMs s)) (\<lambda>_.
          bindE (checked env (current\<lparr>go_status := status, go_usage := settled_usage (go_usage current) s,
              go_settlementReceipts := sort_cmp (env_collation env) (go_settlementReceipts current @ [settlementKey]),
              go_updatedAt := (if status = go_status current then go_updatedAt current else env_now env)\<rparr>)) (\<lambda>g.
            Inr (if status = go_status current then persistedChange g ChangeUsageRecorded (env_now env)
                 else semanticChange g ChangeUsageRecorded NoticeBudgetLimited authority (env_now env) None None)))))"

definition blockGoal ::
  "GoalEnvironment \<Rightarrow> jstring \<Rightarrow> GoalNoticeAuthority \<Rightarrow> SessionStoreState \<Rightarrow> goal_error + MutationResult" where
  "blockGoal env reasonText authority st =
     bindE (requireActiveGoal st) (\<lambda>current.
     bindE (required (parseBlockedReason reasonText) SchemaError) (\<lambda>reason.
     bindE (checked env (current\<lparr>go_status := GoalBlocked, go_blockedReason := Some reason,
              go_updatedAt := env_now env\<rparr>)) (\<lambda>g.
       Inr (semanticChange g ChangeBlocked NoticeBlocked authority (env_now env) None (Some reason)))))"

definition completeGoal ::
  "GoalEnvironment \<Rightarrow> jstring \<Rightarrow> jstring \<Rightarrow> int \<Rightarrow> GoalNoticeAuthority \<Rightarrow> SessionStoreState
   \<Rightarrow> goal_error + MutationResult" where
  "completeGoal env reasonText expectedInstanceId expectedGeneration authority st =
     bindE (activeGoalAtIdentity st expectedInstanceId expectedGeneration) (\<lambda>current.
     bindE (requiredText reasonText) (\<lambda>reason.
     bindE (checked env (current\<lparr>go_status := GoalComplete, go_completedAt := Some (env_now env),
              go_updatedAt := env_now env\<rparr>)) (\<lambda>g.
       Inr (semanticChange g ChangeCompleted NoticeCompleted authority (env_now env) None (Some reason)))))"

section \<open>Mutations\<close>

text \<open>
  \<open>mutate\<close>: the contract is checked before the operation and on the state it predicts; the result is
  the patch and the events of one durable mutation.
\<close>

type_synonym goal_mutation = "SessionProjectionPatch \<times> StreamEvent list"

definition predicted :: "SessionStoreState \<Rightarrow> SessionGoal \<Rightarrow> Reminder list \<Rightarrow> SessionGoalNoticeState" where
  "predicted st g added = (let state = goal_notice_state st in
     state\<lparr>ns_goal := Some g, ns_reminders := ns_reminders state @ added\<rparr>)"

definition outcome_reminders ::
  "GoalEnvironment \<Rightarrow> MutationResult \<Rightarrow> MutationEvent \<Rightarrow> goal_error + Reminder list" where
  "outcome_reminders env outcome event = (case mr_notice outcome of
     None \<Rightarrow> Inr []
   | Some notice \<Rightarrow> bindE (goalReminder (env_isUuid env) (env_newReminder env) (mr_goal outcome)
         (mn_action notice) (mn_authority notice) (me_occurredAt event) (mn_previousGeneration notice)) (\<lambda>r.
       Inr [r]))"

definition mutate ::
  "GoalEnvironment \<Rightarrow> SessionStoreState \<Rightarrow> (SessionStoreState \<Rightarrow> goal_error + MutationResult)
   \<Rightarrow> goal_error + goal_mutation" where
  "mutate env st operation =
     bindE (assertRootLead st) (\<lambda>_.
     bindE (assertGoalContract (goal_notice_state st)) (\<lambda>_.
     bindE (operation st) (\<lambda>outcome.
       (case mr_event outcome of
          None \<Rightarrow> Inr (no_patch, [])
        | Some event \<Rightarrow>
            bindE (outcome_reminders env outcome event) (\<lambda>added.
            bindE (assertGoalContract (predicted st (mr_goal outcome) added)) (\<lambda>_.
              Inr (no_patch,
                GoalChanged (eventFor (mr_goal outcome) (me_action event) (me_occurredAt event) (me_reason event))
                  # map ReminderAdded added)))))))"

definition clearGoal :: "GoalEnvironment \<Rightarrow> GoalNoticeAuthority \<Rightarrow> SessionStoreState \<Rightarrow> goal_error + goal_mutation" where
  "clearGoal env authority st =
     bindE (assertRootLead st) (\<lambda>_.
     bindE (assertGoalContract (goal_notice_state st)) (\<lambda>_.
     bindE (requiredGoal st) (\<lambda>g.
     bindE (assertNoPendingGoalSettlements st (go_instanceId g)) (\<lambda>_.
     bindE (goalReminder (env_isUuid env) (env_newReminder env) g NoticeCleared authority (env_now env) None) (\<lambda>r.
       Inr (no_patch, [GoalChanged (eventFor g ChangeCleared (env_now env) None), ReminderAdded r]))))))"

definition isPendingGoalReminder :: "Reminder \<Rightarrow> bool" where
  "isPendingGoalReminder r \<longleftrightarrow> rm_consumedAt r = None \<and> goal_reminder r \<noteq> None"

text \<open>The messages of the pending notices, appended one by one; an id may not be taken.\<close>

fun materialize :: "SessionMessage list \<Rightarrow> GoalNoticePart list \<Rightarrow> goal_error + SessionMessage list" where
  "materialize ms [] = Inr ms"
| "materialize ms (notice # rest) =
    (if gn_id notice \<in> set (map msg_id ms) then Inl (service_error ContractViolation)
     else materialize (ms @ [messageFor notice]) rest)"

definition materializeModelContextNotices :: "GoalEnvironment \<Rightarrow> SessionStoreState \<Rightarrow> goal_error + goal_mutation" where
  "materializeModelContextNotices env st =
     bindE (assertRootLead st) (\<lambda>_.
     bindE (assertGoalContract (goal_notice_state st)) (\<lambda>_.
       let s = st_shared st; pending = filter isPendingGoalReminder (reminders s) in
       if pending = [] then Inr (no_patch, [])
       else bindE (materialize (messages s) (List.map_filter goal_reminder pending)) (\<lambda>ms.
         (let rs = map (\<lambda>r. if rm_id r \<in> set (map rm_id pending) \<and> rm_consumedAt r = None
                  then r\<lparr>rm_consumedAt := Some (env_now env)\<rparr> else r) (reminders s);
              state = goal_notice_state st in
          bindE (assertGoalContract (state\<lparr>ns_messages := ms, ns_reminders := rs\<rparr>)) (\<lambda>_.
            Inr (no_patch\<lparr>p_messages := Some ms, p_reminders := Some rs\<rparr>, []))))))"

section \<open>Requests\<close>

datatype GoalOperation =
    CreateGoal jstring "SessionGoal option" "(jstring \<times> jstring option) list" "jstring \<Rightarrow> jstring option"
  | EditGoal int jstring
  | PauseGoal
  | ResumeGoal
  | ClearGoal
  | SetTokenBudget "int option"
  | RecordSettlement GoalSettlement
  | BlockGoal jstring
  | CompleteGoal jstring jstring int

text \<open>
  One request to the service. Creating a Goal first reads the Session file (its Goal, and for a
  completed one the unapplied settlements of the workspace).
\<close>

fun goalRequest ::
  "GoalEnvironment \<Rightarrow> GoalNoticeAuthority \<Rightarrow> GoalOperation \<Rightarrow> SessionStoreState \<Rightarrow> goal_error + goal_mutation" where
  "goalRequest env authority (CreateGoal text fileGoal settlements rootOf) st =
     bindE (requireAuthority authority UserControl) (\<lambda>_.
     bindE (required (parseObjective text) SchemaError) (\<lambda>objective.
     bindE (case fileGoal of
         None \<Rightarrow> Inr ()
       | Some g \<Rightarrow> (if go_status g = GoalComplete
           then assertNoPendingFamilySettlements (sessionId (st_shared st)) (go_instanceId g) rootOf settlements
           else Inr ())) (\<lambda>_.
     mutate env st (createGoal env objective authority))))"
| "goalRequest env authority (EditGoal expectedGeneration text) st =
     bindE (requireAuthority authority UserControl) (\<lambda>_.
     bindE (required (parseObjective text) SchemaError) (\<lambda>objective.
     mutate env st (editGoal env expectedGeneration objective authority)))"
| "goalRequest env authority PauseGoal st =
     bindE (requireAuthority authority UserControl) (\<lambda>_. mutate env st (pauseGoal env authority))"
| "goalRequest env authority ResumeGoal st =
     bindE (requireAuthority authority UserControl) (\<lambda>_. mutate env st (resumeGoal env authority))"
| "goalRequest env authority ClearGoal st =
     bindE (requireAuthority authority UserControl) (\<lambda>_. clearGoal env authority st)"
| "goalRequest env authority (SetTokenBudget budget) st =
     bindE (requireAuthority authority UserControl) (\<lambda>_. mutate env st (setTokenBudget env budget authority))"
| "goalRequest env authority (RecordSettlement s) st =
     bindE (requireAuthority authority RuntimeAuthority) (\<lambda>_.
     bindE (requiredText (gst_settlementKey s)) (\<lambda>settlementKey.
     mutate env st (recordSettlement env settlementKey s authority)))"
| "goalRequest env authority (BlockGoal reason) st =
     bindE (requireAuthority authority AgentAuthority) (\<lambda>_. mutate env st (blockGoal env reason authority))"
| "goalRequest env authority (CompleteGoal reason expectedInstanceId expectedGeneration) st =
     bindE (requireAuthority authority AgentAuthority) (\<lambda>_.
     mutate env st (completeGoal env reason expectedInstanceId expectedGeneration authority))"

text \<open>The store after the mutation of a request; each event is reduced at its own time.\<close>

definition commitGoalMutation ::
  "collation \<Rightarrow> SessionStoreState \<Rightarrow> goal_mutation \<Rightarrow> (nat \<Rightarrow> int \<times> ReduceContext)
   \<Rightarrow> store_error + SessionStoreState" where
  "commitGoalMutation lc st mutation clock =
     applyMutation lc st (fst mutation)
       (map (\<lambda>(i, e). (StreamPayload e, clock i)) (List.enumerate 0 (snd mutation)))"

end
