(* ===== verification/SessionGoalRuns.thy ===== *)
theory SessionGoalRuns
  imports SessionGoalFacts SessionGoalService
begin

text \<open>
  What the Goal service does to the store: the state after the events of a request have been
  reduced is the one the service predicted, so every request keeps the Goal contract; the Goal moves
  along its lifecycle; settlements count once; pending notices can always be materialized.
\<close>

section \<open>The store after a request\<close>

declare check.simps [simp del]

lemma check_Inr [simp]: "check b e = Inr u \<longleftrightarrow> b"
  by (simp add: check.simps)

lemma required_Inr [simp]: "required x e = Inr y \<longleftrightarrow> x = Some y"
  by (cases x) auto

lemma record_goal_changed:
  "\<exists>st'. recordEvent lc st (StreamPayload (GoalChanged e)) publishable now ctx = Inr st'
     \<and> st_shared st' = (st_shared st)\<lparr>goal := gc_goal e\<rparr> \<and> st_agentName st' = st_agentName st"
  by (simp add: recordEvent_def delegateToProtocol_def Let_def apply_patch_def)

lemma record_goal_reminder:
  assumes "rm_source r = SessionGoalChangedSource n" "rm_consumedAt r = None"
    and "rm_id r \<notin> rm_id ` set (reminders (st_shared st))"
  shows "\<exists>st'. recordEvent lc st (StreamPayload (ReminderAdded r)) publishable now ctx = Inr st'
    \<and> st_shared st' = (st_shared st)\<lparr>reminders := reminders (st_shared st) @ [r]\<rparr>
    \<and> st_agentName st' = st_agentName st"
proof -
  have "r\<lparr>rm_consumedAt := None\<rparr> = r"
    using assms(2) by simp
  moreover have "\<not> isSubAgentReminder r"
    using assms(1) by (simp add: isSubAgentReminder_iff)
  moreover have "\<not> (\<exists>x \<in> set (reminders (st_shared st)). rm_id x = rm_id r)"
    using assms(3) by (metis image_eqI)
  ultimately show ?thesis
    by (simp add: recordEvent_def delegateToProtocol_def onReminder_def add_reminder_def Let_def apply_patch_def)
qed

definition goal_reminder_of :: "Reminder \<Rightarrow> GoalNoticePart \<Rightarrow> bool" where
  "goal_reminder_of r n \<longleftrightarrow> rm_source r = SessionGoalChangedSource n \<and> rm_delivery r = ModelContext
     \<and> rm_consumedAt r = None \<and> rm_id r = gn_id n"

text \<open>The events of a Goal request are always reduced: the commit succeeds, with the predicted state.\<close>

lemma committed_goal:
  assumes "added = [] \<or> (\<exists>r n. added = [r] \<and> goal_reminder_of r n \<and> rm_id r \<notin> rm_id ` set (reminders (st_shared st)))"
  shows "\<exists>st'. commitGoalMutation lc st (no_patch, GoalChanged e # map ReminderAdded added) clock = Inr st'
    \<and> st_shared st' = (st_shared st)\<lparr>goal := gc_goal e, reminders := reminders (st_shared st) @ added\<rparr>
    \<and> st_agentName st' = st_agentName st"
proof -
  obtain mid where mid: "recordEvent lc st (StreamPayload (GoalChanged e)) (st_publishableNextEventId st)
      (fst (clock 0)) (snd (clock 0)) = Inr mid"
    "st_shared mid = (st_shared st)\<lparr>goal := gc_goal e\<rparr>" "st_agentName mid = st_agentName st"
    using record_goal_changed by blast
  show ?thesis
    using assms
  proof (elim disjE exE conjE)
    assume "added = []"
    with mid show ?thesis
      by (cases "clock 0") (simp add: commitGoalMutation_def applyMutation_def appendEventToState_def)
  next
    fix r n
    assume r: "added = [r]" "goal_reminder_of r n" "rm_id r \<notin> rm_id ` set (reminders (st_shared st))"
    then have "rm_source r = SessionGoalChangedSource n" "rm_consumedAt r = None"
        "rm_id r \<notin> rm_id ` set (reminders (st_shared mid))"
      using mid by (simp_all add: goal_reminder_of_def)
    from record_goal_reminder [OF this] obtain st' where
      "recordEvent lc mid (StreamPayload (ReminderAdded r)) (st_publishableNextEventId mid)
        (fst (clock 1)) (snd (clock 1)) = Inr st'"
      "st_shared st' = (st_shared mid)\<lparr>reminders := reminders (st_shared mid) @ [r]\<rparr>"
      "st_agentName st' = st_agentName mid"
      by blast
    with mid r(1) show ?thesis
      by (cases "clock 0"; cases "clock 1")
        (simp add: commitGoalMutation_def applyMutation_def appendEventToState_def)
  qed
qed

lemma committed_patch:
  "commitGoalMutation lc st (p, []) clock = Inr (st\<lparr>st_shared := apply_patch (st_shared st) p\<rparr>)"
  by (simp add: commitGoalMutation_def applyMutation_def)

lemma predicted_state:
  assumes "st_shared st' = (st_shared st)\<lparr>goal := Some g, reminders := reminders (st_shared st) @ added\<rparr>"
    and "st_agentName st' = st_agentName st"
  shows "goal_notice_state st' = predicted st g added"
  using assms by (simp add: goal_notice_state_def predicted_def Let_def)

text \<open>The notice of a new reminder is what the schema returns for it.\<close>

lemma parse_notice_keys:
  "parseGoalNotice isUuid n = Some n' \<Longrightarrow> gn_id n' = gn_id n \<and> gn_action n' = gn_action n
     \<and> (gn_goal n' = None \<longleftrightarrow> gn_goal n = None)"
  by (cases "gn_goal n") (auto simp: parseGoalNotice_def Let_def split: option.splits if_splits)

lemma new_reminder:
  assumes "goalReminder isUuid i g action authority now previous = Inr r"
  shows "\<exists>n. goal_reminder_of r n \<and> rm_id r = i \<and> gn_action n = action
    \<and> (action = NoticeCleared \<longrightarrow> gn_goal n = None)"
  using assms
  by (auto simp: goalReminder_def bindE_Inr_iff goal_reminder_of_def dest!: parse_notice_keys)

text \<open>The two ways a mutation ends: nothing to record, or a changed Goal with its notice.\<close>

lemma mutate_cases:
  assumes "mutate env st operation = Inr mutation"
  obtains (unchanged) outcome where "operation st = Inr outcome" "mr_event outcome = None"
      "mutation = (no_patch, [])" "sessionGoalNoticeInvariantError (goal_notice_state st) = None"
  | (changed) outcome event added where "operation st = Inr outcome" "mr_event outcome = Some event"
      "mutation = (no_patch, GoalChanged (eventFor (mr_goal outcome) (me_action event) (me_occurredAt event)
         (me_reason event)) # map ReminderAdded added)"
      "outcome_reminders env outcome event = Inr added"
      "sessionGoalNoticeInvariantError (predicted st (mr_goal outcome) added) = None"
  using assms
  by (auto simp: mutate_def assertRootLead_def assertGoalContract_def bindE_Inr_iff
      split: option.splits if_splits)

lemma outcome_reminders_cases:
  assumes "outcome_reminders env outcome event = Inr added"
  shows "added = [] \<or> (\<exists>r n. added = [r] \<and> goal_reminder_of r n \<and> rm_id r = env_newReminder env)"
  using assms new_reminder by (fastforce simp: outcome_reminders_def bindE_Inr_iff split: option.splits)

section \<open>The contract is kept\<close>

lemma goalReminders_append [simp]: "goalReminders (xs @ ys) = goalReminders xs @ goalReminders ys"
  by (simp add: goalReminders_def map_filter_def)

lemma goalReminders_new: "goal_reminder_of r n \<Longrightarrow> goalReminders [r] = [(r, n)]"
  by (simp add: goalReminders_def map_filter_def goal_reminder_of_def goal_reminder_def)

lemma goalReminders_ids: "fst ` set (goalReminders rs) \<subseteq> set rs"
  by (auto simp: goalReminders_def map_filter_def)

lemma root_lead_state: "assertRootLead st = Inr u \<Longrightarrow> isRootLead (goal_notice_state st)"
  by (simp add: assertRootLead_def isRootLead_def goal_notice_state_def Let_def)

text \<open>Clearing: a pending notice of the cleared Goal joins a state that keeps the contract.\<close>

lemma cleared_contract:
  assumes contract: "goal_contract state" and root: "isRootLead state"
    and r: "goal_reminder_of r n" "gn_action n = NoticeCleared" "gn_goal n = None"
    and fresh: "rm_id r \<notin> rm_id ` set (ns_reminders state)" "rm_id r \<notin> msg_id ` set (ns_messages state)"
  shows "goal_contract (state\<lparr>ns_goal := None, ns_reminders := ns_reminders state @ [r]\<rparr>)"
proof -
  let ?R = "goalReminders (ns_reminders state)"
  have new: "goalReminders (ns_reminders state @ [r]) = ?R @ [(r, n)]" "\<not> is_consumed (r, n)"
    using r(1) by (simp_all add: goalReminders_new goal_reminder_of_def is_consumed_def)
  have "rm_id r \<notin> (rm_id \<circ> fst) ` set ?R"
    using fresh(1) goalReminders_ids [of "ns_reminders state"] by (auto simp: image_comp [symmetric])
  moreover have "isRootLead (state\<lparr>ns_goal := None, ns_reminders := ns_reminders state @ [r]\<rparr>)"
    using root by (simp add: isRootLead_def)
  moreover have "provedGoalError (state\<lparr>ns_goal := None, ns_reminders := ns_reminders state @ [r]\<rparr>) = None"
    using new r by (simp add: provedGoalError_def at_last_def)
  ultimately show ?thesis
    using contract new fresh(2) by (auto simp: goal_contract_def Let_def)
qed

definition fresh_ids :: "GoalEnvironment \<Rightarrow> SessionStoreState \<Rightarrow> bool" where
  "fresh_ids env st \<longleftrightarrow> env_newReminder env \<notin> rm_id ` set (reminders (st_shared st))
     \<and> env_newReminder env \<notin> msg_id ` set (messages (st_shared st))"

section \<open>What each operation makes of the Goal\<close>

text \<open>The lifecycle: who may move a Goal from where to where, and what a move leaves alone.\<close>

definition same_identity :: "SessionGoal \<Rightarrow> SessionGoal \<Rightarrow> bool" where
  "same_identity g g' \<longleftrightarrow> go_instanceId g' = go_instanceId g \<and> go_createdAt g' = go_createdAt g
     \<and> go_activatedAt g' = go_activatedAt g"

definition same_work :: "SessionGoal \<Rightarrow> SessionGoal \<Rightarrow> bool" where
  "same_work g g' \<longleftrightarrow> go_generation g' = go_generation g \<and> go_objective g' = go_objective g"

definition same_account :: "SessionGoal \<Rightarrow> SessionGoal \<Rightarrow> bool" where
  "same_account g g' \<longleftrightarrow> go_usage g' = go_usage g \<and> go_settlementReceipts g' = go_settlementReceipts g"

definition same_budget :: "SessionGoal \<Rightarrow> SessionGoal \<Rightarrow> bool" where
  "same_budget g g' \<longleftrightarrow> go_tokenBudget g' = go_tokenBudget g"

lemmas same_goal_parts = same_identity_def same_work_def same_account_def same_budget_def

definition no_usage :: SessionGoalUsage where
  "no_usage = \<lparr> gu_tokens = stats_usage createEmptySessionStats, gu_executionTimeMs = 0, gu_executionCount = 0 \<rparr>"

definition exhausted :: "SessionGoal \<Rightarrow> bool" where
  "exhausted g = budget_exhausted (go_tokenBudget g) (gu_tokens (go_usage g))"

fun authority_of :: "GoalOperation \<Rightarrow> GoalNoticeAuthority" where
  "authority_of (RecordSettlement s) = RuntimeAuthority"
| "authority_of (BlockGoal reason) = AgentAuthority"
| "authority_of (CompleteGoal reason i gen) = AgentAuthority"
| "authority_of _ = UserControl"

fun status_step :: "GoalOperation \<Rightarrow> SessionGoal \<Rightarrow> SessionGoal \<Rightarrow> bool" where
  "status_step PauseGoal g g' \<longleftrightarrow> same_budget g g'
     \<and> (go_status g = GoalActive \<and> go_status g' = GoalPaused
        \<or> go_status g' = go_status g \<and> (go_status g = GoalPaused \<or> go_status g = GoalBudgetLimited))"
| "status_step ResumeGoal g g' \<longleftrightarrow> same_budget g g' \<and> \<not> exhausted g \<and> go_status g' = GoalActive
     \<and> (go_status g = GoalPaused \<or> go_status g = GoalBlocked \<or> go_status g = GoalBudgetLimited)"
| "status_step (SetTokenBudget budget) g g' \<longleftrightarrow> go_tokenBudget g' = budget
     \<and> go_status g \<noteq> GoalComplete \<and> go_status g' \<noteq> GoalComplete
     \<and> (go_status g' = GoalBudgetLimited \<longleftrightarrow> exhausted g')
     \<and> (go_status g' = go_status g \<or> go_status g' = GoalBudgetLimited \<or> go_status g = GoalBudgetLimited)"
| "status_step (BlockGoal reason) g g' \<longleftrightarrow> same_budget g g' \<and> go_status g = GoalActive \<and> go_status g' = GoalBlocked"
| "status_step (CompleteGoal reason i gen) g g' \<longleftrightarrow> same_budget g g' \<and> go_status g = GoalActive
     \<and> go_status g' = GoalComplete \<and> go_instanceId g = i \<and> go_generation g = gen"
| "status_step _ g g' \<longleftrightarrow> False"

inductive goal_moves :: "GoalOperation \<Rightarrow> SessionGoal option \<Rightarrow> SessionGoal option \<Rightarrow> bool" where
  created: "\<forall>c \<in> set_option old. go_status c = GoalComplete \<Longrightarrow> go_status g = GoalActive \<Longrightarrow> go_generation g = 1
    \<Longrightarrow> go_usage g = no_usage \<Longrightarrow> go_settlementReceipts g = [] \<Longrightarrow> go_tokenBudget g = None
    \<Longrightarrow> goal_moves (CreateGoal objective fileGoal settlements rootOf) old (Some g)"
| cleared: "goal_moves ClearGoal (Some g) None"
| edited: "same_identity g g' \<Longrightarrow> same_account g g' \<Longrightarrow> same_budget g g' \<Longrightarrow> go_status g \<noteq> GoalComplete
    \<Longrightarrow> go_status g' = go_status g \<Longrightarrow> go_generation g = expected \<Longrightarrow> go_generation g' = expected + 1
    \<Longrightarrow> goal_moves (EditGoal expected objective) (Some g) (Some g')"
| controlled: "same_identity g g' \<Longrightarrow> same_work g g' \<Longrightarrow> same_account g g' \<Longrightarrow> status_step op g g'
    \<Longrightarrow> goal_moves op (Some g) (Some g')"
| counted: "trim (gst_settlementKey s) \<in> set (go_settlementReceipts g)
    \<Longrightarrow> goal_moves (RecordSettlement s) (Some g) (Some g)"
| settled: "same_identity g g' \<Longrightarrow> same_work g g' \<Longrightarrow> same_budget g g'
    \<Longrightarrow> trim (gst_settlementKey s) \<notin> set (go_settlementReceipts g)
    \<Longrightarrow> set (go_settlementReceipts g') = insert (trim (gst_settlementKey s)) (set (go_settlementReceipts g))
    \<Longrightarrow> go_usage g' = settled_usage (go_usage g) s
    \<Longrightarrow> go_status g' = (if go_status g \<noteq> GoalComplete \<and> exhausted g' then GoalBudgetLimited else go_status g)
    \<Longrightarrow> goal_moves (RecordSettlement s) (Some g) (Some g')"

text \<open>A changed Goal is a Goal the schema returned, and a Goal with normal texts is returned as it is.\<close>

lemma checked_ok: "checked env g = Inr g' \<Longrightarrow> goal_ok (env_isUuid env) (env_collation env) g'"
  by (auto simp: checkedGoal_def parse_result_ok)

lemma checked_same: "normal_goal g \<Longrightarrow> checked env g = Inr g' \<Longrightarrow> g' = g"
  using parse_normal by (auto simp: checkedGoal_def)

lemmas goal_readers = requiredGoal_def nonTerminalGoal_def goalAtGeneration_def requireActiveGoal_def
  activeGoalAtIdentity_def

lemmas goal_outcomes = semanticChange_def persistedChange_def unchanged_def

definition normal_store :: "SessionStoreState \<Rightarrow> bool" where
  "normal_store st \<longleftrightarrow> (\<forall>g \<in> set_option (goal (st_shared st)). normal_goal g)"

text \<open>An outcome moves the Goal along the lifecycle; what it records is a change, not a clearing.\<close>

definition proper :: "GoalOperation \<Rightarrow> SessionStoreState \<Rightarrow> MutationResult \<Rightarrow> bool" where
  "proper op st outcome \<longleftrightarrow> (case mr_event outcome of
     None \<Rightarrow> normal_store st \<longrightarrow> goal_moves op (goal (st_shared st)) (goal (st_shared st))
   | Some event \<Rightarrow> me_action event \<noteq> ChangeCleared
       \<and> (normal_store st \<longrightarrow> normal_goal (mr_goal outcome)
            \<and> goal_moves op (goal (st_shared st)) (Some (mr_goal outcome))))"

lemma proper_change:
  assumes "checked env g = Inr g'" "outcome = semanticChange g' action notice authority now previous reason
      \<or> outcome = persistedChange g' action now"
    and "action \<noteq> ChangeCleared"
    and "normal_store st \<Longrightarrow> normal_goal g"
    and "normal_store st \<Longrightarrow> goal_moves op (goal (st_shared st)) (Some g)"
  shows "proper op st outcome"
  using assms checked_same [OF _ assms(1)] by (auto simp: proper_def goal_outcomes)

lemma proper_unchanged: "goal_moves op (goal (st_shared st)) (goal (st_shared st)) \<Longrightarrow> proper op st (unchanged g)"
  by (simp add: proper_def unchanged_def)

lemma create_proper:
  assumes "parseObjective objective = Some objective" "createGoal env objective authority st = Inr outcome"
  shows "proper (CreateGoal words fileGoal settlements rootOf) st outcome"
proof -
  have complete: "\<forall>c \<in> set_option (goal (st_shared st)). go_status c = GoalComplete"
    using assms(2) by (auto simp: createGoal_def bindE_Inr_iff split: option.splits if_splits)
  obtain g where g: "checked env (newGoal env objective) = Inr g"
      "outcome = semanticChange g ChangeCreated NoticeCreated authority (env_now env) None None"
    using assms(2) by (auto simp: createGoal_def bindE_Inr_iff)
  show ?thesis
    by (rule proper_change [OF g(1) disjI1 [OF g(2)]])
      (use assms(1) complete in \<open>simp_all add: normal_goal_def newGoal_def goal_moves.created no_usage_def\<close>)
qed

lemma edit_proper:
  assumes "parseObjective objective = Some objective" "editGoal env expected objective authority st = Inr outcome"
  shows "proper (EditGoal expected words) st outcome"
proof -
  obtain current g where g: "goal (st_shared st) = Some current" "go_status current \<noteq> GoalComplete"
      "go_generation current = expected"
      "checked env (current\<lparr>go_generation := go_generation current + 1, go_objective := objective,
         go_updatedAt := env_now env\<rparr>) = Inr g"
      "outcome = semanticChange g ChangeEdited NoticeEdited authority (env_now env) (Some (go_generation current)) None"
    using assms(2) by (auto simp: editGoal_def goal_readers bindE_Inr_iff split: if_splits)
  show ?thesis
    by (rule proper_change [OF g(4) disjI1 [OF g(5)]])
      (use assms(1) g(1,2,3) in \<open>auto simp: normal_store_def normal_goal_def same_goal_parts intro!: goal_moves.edited\<close>)
qed

lemma controlled_proper:
  assumes "goal (st_shared st) = Some current" "checked env g = Inr g'"
    and "outcome = semanticChange g' action notice authority now None reason"
    and "action \<noteq> ChangeCleared" "same_identity current g" "same_work current g" "same_account current g"
    and "status_step op current g" "normal_goal current \<Longrightarrow> normal_goal g"
  shows "proper op st outcome"
  by (rule proper_change [OF assms(2) disjI1 [OF assms(3)] assms(4)])
    (use assms in \<open>auto simp: normal_store_def intro: goal_moves.controlled\<close>)

lemma unchanged_moves: "status_step op g g \<Longrightarrow> goal_moves op (Some g) (Some g)"
  by (rule goal_moves.controlled) (simp_all add: same_goal_parts)

lemma pause_proper:
  assumes "pauseGoal env authority st = Inr outcome"
  shows "proper PauseGoal st outcome"
proof -
  obtain current where current: "goal (st_shared st) = Some current" "go_status current \<noteq> GoalComplete"
    using assms by (auto simp: pauseGoal_def goal_readers bindE_Inr_iff split: if_splits)
  consider (same) "outcome = unchanged current" "go_status current = GoalPaused \<or> go_status current = GoalBudgetLimited"
    | (limited) g' where "go_status current = GoalBudgetLimited" "checked env (current\<lparr>go_pausedAt := Some (env_now env),
         go_blockedReason := None, go_updatedAt := env_now env\<rparr>) = Inr g'"
       "outcome = semanticChange g' ChangePaused NoticePaused authority (env_now env) None None"
    | (active) g' where "go_status current = GoalActive" "checked env (current\<lparr>go_status := GoalPaused,
         go_pausedAt := Some (env_now env), go_blockedReason := None, go_updatedAt := env_now env\<rparr>) = Inr g'"
       "outcome = semanticChange g' ChangePaused NoticePaused authority (env_now env) None None"
    using assms current by (auto simp: pauseGoal_def goal_readers bindE_Inr_iff Let_def split: if_splits)
  then show ?thesis
  proof cases
    case same
    then show ?thesis using current by (auto simp: same_budget_def intro!: proper_unchanged unchanged_moves)
  next
    case limited
    show ?thesis
      by (rule controlled_proper [OF current(1) limited(2,3)]) (use limited(1) in \<open>simp_all add: same_goal_parts normal_goal_def\<close>)
  next
    case active
    show ?thesis
      by (rule controlled_proper [OF current(1) active(2,3)]) (use active(1) in \<open>simp_all add: same_goal_parts normal_goal_def\<close>)
  qed
qed

lemma resume_proper:
  assumes "resumeGoal env authority st = Inr outcome"
  shows "proper ResumeGoal st outcome"
proof -
  obtain current g' where current: "goal (st_shared st) = Some current"
      "checked env (current\<lparr>go_status := GoalActive, go_pausedAt := None, go_blockedReason := None,
         go_updatedAt := env_now env\<rparr>) = Inr g'"
      "outcome = semanticChange g' ChangeResumed NoticeResumed authority (env_now env) None None"
      "go_status current = GoalPaused \<or> go_status current = GoalBlocked \<or> go_status current = GoalBudgetLimited"
      "\<not> exhausted current"
    using assms by (auto simp: resumeGoal_def goal_readers bindE_Inr_iff exhausted_def split: if_splits)
  show ?thesis
    by (rule controlled_proper [OF current(1-3)]) (use current(4,5) in \<open>simp_all add: same_goal_parts normal_goal_def\<close>)
qed

lemma rebudget_step:
  assumes "go_status current \<noteq> GoalComplete" "go_tokenBudget g = b" "go_usage g = go_usage current"
    and "go_status g = rebudgeted_status current b"
  shows "status_step (SetTokenBudget b) current g"
  using assms by (simp add: rebudgeted_status_def exhausted_def)

lemma budget_proper:
  assumes "setTokenBudget env budget authority st = Inr outcome"
  shows "proper (SetTokenBudget budget) st outcome"
proof -
  obtain current where current: "goal (st_shared st) = Some current" "go_status current \<noteq> GoalComplete"
      "outcome = unchanged current \<and> go_tokenBudget current = budget \<and> go_status current = rebudgeted_status current budget
       \<or> (\<exists>g'. checked env (current\<lparr>go_tokenBudget := budget, go_status := rebudgeted_status current budget,
            go_updatedAt := env_now env\<rparr>) = Inr g'
          \<and> outcome = semanticChange g' ChangeBudgetUpdated NoticeBudgetUpdated authority (env_now env) None None)"
    using assms by (cases budget) (auto simp: setTokenBudget_def goal_readers positiveInt_def bindE_Inr_iff Let_def split: if_splits)
  from current(3) show ?thesis
  proof (elim disjE conjE exE)
    assume "outcome = unchanged current" "go_tokenBudget current = budget" "go_status current = rebudgeted_status current budget"
    then show ?thesis
      using current(1,2) by (auto intro!: proper_unchanged unchanged_moves rebudget_step simp del: status_step.simps)
  next
    fix g' assume changed: "checked env (current\<lparr>go_tokenBudget := budget,
         go_status := rebudgeted_status current budget, go_updatedAt := env_now env\<rparr>) = Inr g'"
      "outcome = semanticChange g' ChangeBudgetUpdated NoticeBudgetUpdated authority (env_now env) None None"
    show ?thesis
      by (rule controlled_proper [OF current(1) changed])
        (use current(2) in \<open>simp_all add: same_goal_parts normal_goal_def rebudget_step del: status_step.simps\<close>)
  qed
qed

lemma block_proper:
  assumes "blockGoal env words authority st = Inr outcome"
  shows "proper (BlockGoal words) st outcome"
proof -
  obtain current reason g where g: "goal (st_shared st) = Some current"
      "checked env (current\<lparr>go_status := GoalBlocked, go_blockedReason := Some reason, go_updatedAt := env_now env\<rparr>) = Inr g"
      "outcome = semanticChange g ChangeBlocked NoticeBlocked authority (env_now env) None (Some reason)"
      "go_status current = GoalActive" "parseBlockedReason words = Some reason"
    using assms by (auto simp: blockGoal_def goal_readers bindE_Inr_iff split: if_splits)
  have "parseBlockedReason reason = Some reason"
    using g(5) trimmed_text_normal by (simp add: parseBlockedReason_def)
  then show ?thesis
    using g(4) by (intro controlled_proper [OF g(1-3)]) (simp_all add: same_goal_parts normal_goal_def)
qed

lemma complete_proper:
  assumes "completeGoal env words i gen authority st = Inr outcome"
  shows "proper (CompleteGoal words i gen) st outcome"
proof -
  obtain current reason g where g: "goal (st_shared st) = Some current"
      "checked env (current\<lparr>go_status := GoalComplete, go_completedAt := Some (env_now env), go_updatedAt := env_now env\<rparr>) = Inr g"
      "outcome = semanticChange g ChangeCompleted NoticeCompleted authority (env_now env) None (Some reason)"
      "go_status current = GoalActive" "go_instanceId current = i" "go_generation current = gen"
    using assms by (auto simp: completeGoal_def goal_readers bindE_Inr_iff split: if_splits)
  show ?thesis
    using g(4-6) by (intro controlled_proper [OF g(1-3)]) (simp_all add: same_goal_parts normal_goal_def)
qed

lemma required_text: "requiredText words = Inr k \<Longrightarrow> k = trim words \<and> k \<noteq> []"
  by (auto simp: requiredText_def Let_def split: if_splits)

lemma settlement_proper:
  assumes "recordSettlement env k s authority st = Inr outcome" "requiredText (gst_settlementKey s) = Inr k"
  shows "proper (RecordSettlement s) st outcome"
proof -
  have k: "k = trim (gst_settlementKey s)" "parseReceipt k = Some k"
    using required_text [OF assms(2)] by (auto simp: parseReceipt_def)
  obtain current where current: "goal (st_shared st) = Some current"
    using assms(1) by (auto simp: recordSettlement_def goal_readers bindE_Inr_iff)
  show ?thesis
  proof (cases "k \<in> set (go_settlementReceipts current)")
    case True
    then have "outcome = unchanged current"
      using assms(1) current by (auto simp: recordSettlement_def goal_readers bindE_Inr_iff split: if_splits)
    with True show ?thesis
      using current k(1) by (simp add: proper_unchanged goal_moves.counted)
  next
    case False
    define status where "status = (if go_status current \<noteq> GoalComplete \<and> budget_exhausted (go_tokenBudget current)
        (addUsage (gu_tokens (go_usage current)) (gst_usage s)) then GoalBudgetLimited else go_status current)"
    define g where "g = current\<lparr>go_status := status, go_usage := settled_usage (go_usage current) s,
        go_settlementReceipts := sort_cmp (env_collation env) (go_settlementReceipts current @ [k]),
        go_updatedAt := (if status = go_status current then go_updatedAt current else env_now env)\<rparr>"
    obtain g' where g': "checked env g = Inr g'"
        "outcome = semanticChange g' ChangeUsageRecorded NoticeBudgetLimited authority (env_now env) None None
         \<or> outcome = persistedChange g' ChangeUsageRecorded (env_now env)"
      using assms(1) current False
      by (auto simp: recordSettlement_def goal_readers bindE_Inr_iff Let_def status_def g_def
          split del: if_split split: if_split_asm)
    have "normal_goal current \<Longrightarrow> normal_goal g"
      using k(2) by (auto simp: normal_goal_def g_def)
    moreover have "goal_moves (RecordSettlement s) (Some current) (Some g)"
      using False k(1)
      by (intro goal_moves.settled)
        (auto simp: g_def same_goal_parts status_def exhausted_def settled_usage_def)
    ultimately show ?thesis
      using current by (intro proper_change [OF g']) (auto simp: normal_store_def)
  qed
qed

section \<open>Requests\<close>

lemma parse_objective_normal: "parseObjective words = Some objective \<Longrightarrow> parseObjective objective = Some objective"
  by (simp add: parseObjective_def trimmed_text_normal)

text \<open>A granted request clears the Goal or is a mutation whose outcomes are proper.\<close>

lemma request_cases:
  assumes "goalRequest env authority op st = Inr mutation"
  obtains (clear) "op = ClearGoal" "authority = UserControl" "clearGoal env UserControl st = Inr mutation"
  | (mutate) operation where "authority = authority_of op" "mutate env st operation = Inr mutation"
      "\<And>outcome. operation st = Inr outcome \<Longrightarrow> proper op st outcome"
proof (cases op)
  case (CreateGoal words fileGoal settlements rootOf)
  with assms show ?thesis
    by (auto simp: requireAuthority_def bindE_Inr_iff intro!: mutate intro: create_proper parse_objective_normal)
next
  case (EditGoal expected words)
  with assms show ?thesis
    by (auto simp: requireAuthority_def bindE_Inr_iff intro!: mutate intro: edit_proper parse_objective_normal)
next
  case PauseGoal
  with assms show ?thesis
    by (auto simp: requireAuthority_def bindE_Inr_iff intro!: mutate intro: pause_proper)
next
  case ResumeGoal
  with assms show ?thesis
    by (auto simp: requireAuthority_def bindE_Inr_iff intro!: mutate intro: resume_proper)
next
  case ClearGoal
  with assms clear show ?thesis
    by (auto simp: requireAuthority_def bindE_Inr_iff)
next
  case (SetTokenBudget budget)
  with assms show ?thesis
    by (auto simp: requireAuthority_def bindE_Inr_iff intro!: mutate intro: budget_proper)
next
  case (RecordSettlement s)
  with assms show ?thesis
    by (auto simp: requireAuthority_def bindE_Inr_iff intro!: mutate intro: settlement_proper)
next
  case (BlockGoal words)
  with assms show ?thesis
    by (auto simp: requireAuthority_def bindE_Inr_iff intro!: mutate intro: block_proper)
next
  case (CompleteGoal words i gen)
  with assms show ?thesis
    by (auto simp: requireAuthority_def bindE_Inr_iff intro!: mutate intro: complete_proper)
qed

section \<open>The store after a request\<close>

text \<open>A commit changes the Goal and appends notices to the reminders, nothing else.\<close>

definition only_goal :: "SessionStoreState \<Rightarrow> SessionStoreState \<Rightarrow> bool" where
  "only_goal st st' \<longleftrightarrow> (\<exists>g added. st_shared st' = (st_shared st)\<lparr>goal := g,
       reminders := reminders (st_shared st) @ added\<rparr> \<and> st_agentName st' = st_agentName st
     \<and> (\<forall>r \<in> set added. \<exists>n. goal_reminder_of r n))"

lemma mutation_commits:
  assumes "mutate env st operation = Inr mutation" "fresh_ids env st"
    and "\<And>outcome. operation st = Inr outcome \<Longrightarrow> proper op st outcome"
  shows "\<exists>st'. commitGoalMutation lc st mutation clock = Inr st' \<and> goal_contract (goal_notice_state st') \<and> only_goal st st'
    \<and> (normal_store st \<longrightarrow> normal_store st' \<and> goal_moves op (goal (st_shared st)) (goal (st_shared st')))"
  using assms(1)
proof (cases rule: mutate_cases)
  case (unchanged outcome)
  then show ?thesis
    using assms(3) by (auto simp: committed_patch checker_decides proper_def only_goal_def intro!: exI [of _ "goal (st_shared st)"] exI [of _ "[]"])
next
  case (changed outcome event added)
  let ?e = "eventFor (mr_goal outcome) (me_action event) (me_occurredAt event) (me_reason event)"
  have ok: "proper op st outcome"
    using assms(3) changed(1) by blast
  then have changed_goal: "gc_goal ?e = Some (mr_goal outcome)"
    using changed(2) by (simp add: proper_def eventFor_def)
  have "added = [] \<or> (\<exists>r n. added = [r] \<and> goal_reminder_of r n \<and> rm_id r \<notin> rm_id ` set (reminders (st_shared st)))"
    using outcome_reminders_cases [OF changed(4)] assms(2) by (auto simp: fresh_ids_def)
  then have notices: "\<forall>r \<in> set added. \<exists>n. goal_reminder_of r n"
    by auto
  from committed_goal [OF \<open>added = [] \<or> _\<close>, of lc ?e clock] obtain st' where st':
      "commitGoalMutation lc st mutation clock = Inr st'" "st_agentName st' = st_agentName st"
      "st_shared st' = (st_shared st)\<lparr>goal := Some (mr_goal outcome), reminders := reminders (st_shared st) @ added\<rparr>"
    unfolding changed_goal changed(3) by blast
  have "goal_contract (goal_notice_state st')"
    using changed(5) predicted_state [OF st'(3,2)] by (simp add: checker_decides)
  moreover have "only_goal st st'"
    unfolding only_goal_def using st' notices by (intro exI [of _ "Some (mr_goal outcome)"] exI [of _ added]) simp
  ultimately show ?thesis
    using ok changed(2) st' by (simp add: proper_def normal_store_def)
qed

lemma clear_commits:
  assumes "clearGoal env UserControl st = Inr mutation" "fresh_ids env st"
  shows "\<exists>st'. commitGoalMutation lc st mutation clock = Inr st' \<and> goal_contract (goal_notice_state st') \<and> only_goal st st'
    \<and> normal_store st' \<and> goal_moves ClearGoal (goal (st_shared st)) (goal (st_shared st'))"
proof -
  obtain g r where g: "assertRootLead st = Inr ()" "sessionGoalNoticeInvariantError (goal_notice_state st) = None"
      "goal (st_shared st) = Some g"
      "goalReminder (env_isUuid env) (env_newReminder env) g NoticeCleared UserControl (env_now env) None = Inr r"
      "mutation = (no_patch, GoalChanged (eventFor g ChangeCleared (env_now env) None) # map ReminderAdded [r])"
    using assms(1) by (auto simp: clearGoal_def requiredGoal_def assertGoalContract_def assertRootLead_def bindE_Inr_iff)
  obtain n where n: "goal_reminder_of r n" "rm_id r = env_newReminder env" "gn_action n = NoticeCleared" "gn_goal n = None"
    using new_reminder [OF g(4)] by blast
  have "[r] = [] \<or> (\<exists>r' n. [r] = [r'] \<and> goal_reminder_of r' n \<and> rm_id r' \<notin> rm_id ` set (reminders (st_shared st)))"
    using n assms(2) by (auto simp: fresh_ids_def)
  from committed_goal [OF this, of lc "eventFor g ChangeCleared (env_now env) None" clock] obtain st' where st':
      "commitGoalMutation lc st mutation clock = Inr st'" "st_agentName st' = st_agentName st"
      "st_shared st' = (st_shared st)\<lparr>goal := None, reminders := reminders (st_shared st) @ [r]\<rparr>"
    unfolding g(5) by (auto simp: eventFor_def)
  let ?s = "goal_notice_state st"
  have "goal_notice_state st' = ?s\<lparr>ns_goal := None, ns_reminders := ns_reminders ?s @ [r]\<rparr>"
    using st' by (simp add: goal_notice_state_def Let_def)
  moreover have "goal_contract (?s\<lparr>ns_goal := None, ns_reminders := ns_reminders ?s @ [r]\<rparr>)"
    by (rule cleared_contract [OF _ root_lead_state [OF g(1)] n(1,3,4)])
      (use g(2) n(2) assms(2) in \<open>simp_all add: checker_decides fresh_ids_def goal_notice_state_def Let_def\<close>)
  moreover have "only_goal st st'"
    unfolding only_goal_def using st' n(1) by (intro exI [of _ None] exI [of _ "[r]"]) auto
  ultimately show ?thesis
    using st' g(3) by (auto simp: normal_store_def goal_moves.cleared)
qed

lemma request_commits:
  assumes "goalRequest env authority op st = Inr mutation" "fresh_ids env st"
  shows "\<exists>st'. commitGoalMutation lc st mutation clock = Inr st' \<and> goal_contract (goal_notice_state st') \<and> only_goal st st'
    \<and> (normal_store st \<longrightarrow> normal_store st' \<and> goal_moves op (goal (st_shared st)) (goal (st_shared st')))"
  using assms(1)
proof (cases rule: request_cases)
  case clear
  then show ?thesis using clear_commits [OF _ assms(2)] by blast
next
  case (mutate operation)
  then show ?thesis using mutation_commits [OF _ assms(2)] by blast
qed

lemma request_authority: "goalRequest env authority op st = Inr mutation \<Longrightarrow> authority = authority_of op"
  by (erule request_cases) auto

end
