(* ===== verification/SessionGoalHistory.thy ===== *)
theory SessionGoalHistory
  imports SessionGoalRuns
begin

text \<open>
  The Goal of a Session over time: every request that is granted keeps the contract and moves the Goal
  along its lifecycle, a settlement is counted once, a Goal is limited exactly while its budget is
  spent, and the pending notices can always be handed to the model.
\<close>

section \<open>Materializing the notices\<close>

lemma id_of_new [simp]: "msg_id (messageFor n) = gn_id n"
  by (simp add: messageFor_def)

lemma materialize_all:
  assumes "distinct (map gn_id ns)" "\<forall>n \<in> set ns. gn_id n \<notin> msg_id ` set ms"
  shows "materialize ms ns = Inr (ms @ map messageFor ns)"
  using assms
proof (induction ns arbitrary: ms)
  case (Cons n ns)
  then have "\<forall>x \<in> set ns. gn_id x \<notin> msg_id ` set (ms @ [messageFor n])"
    by (auto simp: rev_image_eqI)
  with Cons show ?case by auto
qed simp

lemma message_notices_append [simp]: "message_notices (xs @ ys) = message_notices xs @ message_notices ys"
  by (simp add: message_notices_def)

lemma message_notices_new [simp]: "message_notices (map messageFor ns) = ns"
  by (induction ns) (auto simp: message_notices_def messageFor_def map_filter_def)

lemma find_new:
  assumes "distinct (map gn_id ns)" "n \<in> set ns"
  shows "find (\<lambda>m. msg_id m = gn_id n) (map messageFor ns) = Some (messageFor n)"
  using assms by (induction ns) auto

lemma exact_new: "isExactGoalNoticeMessage (Some (messageFor n)) n"
  by (simp add: messageFor_def)

lemma find_append_new:
  "find P (xs @ ys) = (case find P xs of Some x \<Rightarrow> Some x | None \<Rightarrow> find P ys)"
  by (induction xs) auto

text \<open>The notice of a reminder has the reminder's id, as the service writes it.\<close>

definition aligned :: "SessionStoreState \<Rightarrow> bool" where
  "aligned st \<longleftrightarrow> (\<forall>p \<in> set (goalReminders (reminders (st_shared st))). gn_id (snd p) = rm_id (fst p))"

definition pending_notices :: "SessionStoreState \<Rightarrow> GoalNoticePart list" where
  "pending_notices st = map snd (filter (\<lambda>p. \<not> is_consumed p) (goalReminders (reminders (st_shared st))))"

lemma pending_notices_code:
  "List.map_filter goal_reminder (filter isPendingGoalReminder rs)
     = map snd (filter (\<lambda>p. \<not> is_consumed p) (goalReminders rs))"
  by (induction rs) (auto simp: goalReminders_def map_filter_def isPendingGoalReminder_def is_consumed_def)

definition consumed_at :: "int \<Rightarrow> jstring list \<Rightarrow> Reminder \<Rightarrow> Reminder" where
  "consumed_at now ids r = (if rm_id r \<in> set ids \<and> rm_consumedAt r = None then r\<lparr>rm_consumedAt := Some now\<rparr> else r)"

lemma consumed_at_simps [simp]:
  "rm_id (consumed_at now ids r) = rm_id r" "goal_reminder (consumed_at now ids r) = goal_reminder r"
  by (simp add: consumed_at_def) (cases "rm_delivery r"; simp add: consumed_at_def goal_reminder_def)

lemma goalReminders_consumed:
  "goalReminders (map (consumed_at now ids) rs) = map (\<lambda>p. (consumed_at now ids (fst p), snd p)) (goalReminders rs)"
  by (induction rs) (auto simp: goalReminders_def map_filter_def)

lemma all_consumed:
  assumes "pending = filter isPendingGoalReminder rs"
    and "p \<in> set (goalReminders (map (consumed_at now (map rm_id pending)) rs))"
  shows "is_consumed p"
proof -
  obtain q where q: "q \<in> set (goalReminders rs)" "p = (consumed_at now (map rm_id pending) (fst q), snd q)"
    using assms(2) by (auto simp: goalReminders_consumed)
  then have "fst q \<in> set rs" "goal_reminder (fst q) = Some (snd q)"
    by (auto simp: goalReminders_def map_filter_def)
  then have "rm_consumedAt (fst q) = None \<Longrightarrow> rm_id (fst q) \<in> set (map rm_id pending)"
    using assms(1) by (auto simp: isPendingGoalReminder_def)
  then show ?thesis
    using q(2) by (auto simp: is_consumed_def consumed_at_def)
qed

text \<open>Handing the pending notices to the model keeps the contract and leaves none pending.\<close>

lemma materialized_contract:
  assumes contract: "goal_contract state" and root: "isRootLead state"
    and aligned: "\<forall>p \<in> set (goalReminders (ns_reminders state)). gn_id (snd p) = rm_id (fst p)"
    and pending: "pending = filter isPendingGoalReminder (ns_reminders state)"
    and ns: "ns = map snd (filter (\<lambda>p. \<not> is_consumed p) (goalReminders (ns_reminders state)))"
  shows "goal_contract (state\<lparr>ns_messages := ns_messages state @ map messageFor ns,
    ns_reminders := map (consumed_at now (map rm_id pending)) (ns_reminders state)\<rparr>)"
    (is "goal_contract ?state'")
proof -
  let ?R = "goalReminders (ns_reminders state)" and ?ms = "ns_messages state"
  let ?R' = "goalReminders (map (consumed_at now (map rm_id pending)) (ns_reminders state))"
  let ?f = "\<lambda>p. (consumed_at now (map rm_id pending) (fst p), snd p)"
  have R': "?R' = map ?f ?R"
    by (rule goalReminders_consumed)
  have consumed: "filter is_consumed ?R' = ?R'" "filter (\<lambda>p. \<not> is_consumed p) ?R' = []"
    using all_consumed [OF pending] by (auto simp: filter_id_conv filter_empty_conv)
  have c: "distinct (map (rm_id \<circ> fst) ?R)" "?R = filter is_consumed ?R @ filter (\<lambda>p. \<not> is_consumed p) ?R"
      "\<And>p. p \<in> set ?R \<Longrightarrow> \<not> is_consumed p \<Longrightarrow> rm_id (fst p) \<notin> msg_id ` set ?ms"
      "\<And>p. p \<in> set ?R \<Longrightarrow> is_consumed p \<Longrightarrow> isExactGoalNoticeMessage (find (\<lambda>m. msg_id m = rm_id (fst p)) ?ms) (snd p)"
      "message_notices ?ms = map snd (filter is_consumed ?R)" "provedGoalError state = None"
    using contract by (auto simp: goal_contract_def Let_def)
  have "map gn_id ns = map (rm_id \<circ> fst) (filter (\<lambda>p. \<not> is_consumed p) ?R)"
    using aligned by (simp add: ns)
  then have ids: "distinct (map gn_id ns)"
    using distinct_map_filter [OF c(1)] by simp
  have "isExactGoalNoticeMessage (find (\<lambda>m. msg_id m = rm_id (fst p)) (?ms @ map messageFor ns)) (snd p)"
    if p: "p \<in> set ?R" for p
  proof (cases "is_consumed p")
    case True
    from c(4) [OF p True] exact_message_id(2) [OF c(4) [OF p True]] show ?thesis
      by (auto simp: find_append_new)
  next
    case False
    have "find (\<lambda>m. msg_id m = rm_id (fst p)) ?ms = None"
      using c(3) [OF p False] by (force simp: find_None_iff)
    moreover have "find (\<lambda>m. msg_id m = rm_id (fst p)) (map messageFor ns) = Some (messageFor (snd p))"
      using find_new [OF ids, of "snd p"] p False aligned by (force simp: ns)
    ultimately show ?thesis
      using exact_new by (simp add: find_append_new)
  qed
  then have exact: "\<forall>p \<in> set ?R'. isExactGoalNoticeMessage
      (find (\<lambda>m. msg_id m = rm_id (fst p)) (?ms @ map messageFor ns)) (snd p)"
    by (auto simp: R')
  have notices: "map snd ?R' = map snd ?R"
    by (simp add: R' comp_def)
  have "message_notices (?ms @ map messageFor ns) = map snd ?R"
    using c(2,5) ns by (metis map_append message_notices_append message_notices_new)
  moreover have "map (rm_id \<circ> fst) ?R' = map (rm_id \<circ> fst) ?R"
    by (simp add: R' comp_def)
  moreover have "provedGoalError ?state' = None"
    using c(6) by (cases ?R rule: rev_cases) (auto simp: provedGoalError_def R' at_last_def split: option.splits prod.splits if_splits)
  moreover have "isRootLead ?state'"
    using root by (simp add: isRootLead_def)
  ultimately show ?thesis
    using c(1) exact notices all_consumed [OF pending] by (auto simp: goal_contract_def Let_def consumed)
qed

lemma materialization_commits:
  assumes "goal_contract (goal_notice_state st)" "assertRootLead st = Inr ()" "aligned st"
  shows "\<exists>mutation st'. materializeModelContextNotices env st = Inr mutation
    \<and> commitGoalMutation lc st mutation clock = Inr st' \<and> goal_contract (goal_notice_state st')
    \<and> pending_notices st' = [] \<and> aligned st'
    \<and> messages (st_shared st') = messages (st_shared st) @ map messageFor (pending_notices st)
    \<and> goal (st_shared st') = goal (st_shared st) \<and> assertRootLead st' = Inr ()"
proof -
  let ?s = "st_shared st" and ?state = "goal_notice_state st"
  let ?pending = "filter isPendingGoalReminder (reminders ?s)"
  let ?R = "goalReminders (reminders ?s)"
  define rs where "rs = map (consumed_at (env_now env) (map rm_id ?pending)) (reminders ?s)"
  have notices: "List.map_filter goal_reminder ?pending = pending_notices st"
    by (simp add: pending_notices_code pending_notices_def)
  have ok: "sessionGoalNoticeInvariantError ?state = None"
    using assms(1) by (simp add: checker_decides)
  show ?thesis
  proof (cases "?pending = []")
    case True
    then have "pending_notices st = []"
      using notices by (simp add: map_filter_def)
    with True show ?thesis
      using assms ok
      by (auto simp: materializeModelContextNotices_def assertGoalContract_def check.simps committed_patch Let_def)
  next
    case False
    have c: "distinct (map (rm_id \<circ> fst) ?R)"
        "\<forall>p \<in> set (filter (\<lambda>p. \<not> is_consumed p) ?R). rm_id (fst p) \<notin> msg_id ` set (messages ?s)"
      using assms(1) by (auto simp: goal_contract_def goal_notice_state_def Let_def)
    have "map gn_id (pending_notices st) = map (rm_id \<circ> fst) (filter (\<lambda>p. \<not> is_consumed p) ?R)"
      using assms(3) by (simp add: pending_notices_def aligned_def)
    then have ids: "distinct (map gn_id (pending_notices st))"
      using distinct_map_filter [OF c(1)] by simp
    have new: "\<forall>n \<in> set (pending_notices st). gn_id n \<notin> msg_id ` set (messages ?s)"
      using c(2) assms(3) by (auto simp: pending_notices_def aligned_def)
    let ?ms = "messages ?s @ map messageFor (pending_notices st)"
    have contract: "goal_contract (?state\<lparr>ns_messages := ?ms, ns_reminders := rs\<rparr>)"
      using materialized_contract [OF assms(1) root_lead_state [OF assms(2)], where pending = ?pending
          and ns = "pending_notices st" and now = "env_now env"] assms(3)
      by (simp add: goal_notice_state_def Let_def aligned_def pending_notices_def rs_def)
    have rs: "map (\<lambda>r. if rm_id r \<in> set (map rm_id ?pending) \<and> rm_consumedAt r = None
        then r\<lparr>rm_consumedAt := Some (env_now env)\<rparr> else r) (reminders ?s) = rs"
      by (simp add: rs_def consumed_at_def)
    have granted: "materializeModelContextNotices env st = Inr (no_patch\<lparr>p_messages := Some ?ms, p_reminders := Some rs\<rparr>, [])"
      using assms(2) ok False contract materialize_all [OF ids new]
      unfolding materializeModelContextNotices_def Let_def rs notices
      by (simp add: assertGoalContract_def check.simps checker_decides)
    define st' where "st' = st\<lparr>st_shared := ?s\<lparr>messages := ?ms, reminders := rs\<rparr>\<rparr>"
    have "commitGoalMutation lc st (no_patch\<lparr>p_messages := Some ?ms, p_reminders := Some rs\<rparr>, []) clock = Inr st'"
      by (simp add: committed_patch st'_def apply_patch_def)
    moreover have "goal_notice_state st' = ?state\<lparr>ns_messages := ?ms, ns_reminders := rs\<rparr>"
      by (simp add: st'_def goal_notice_state_def Let_def)
    moreover have "pending_notices st' = []"
      using all_consumed [OF refl] by (simp add: pending_notices_def st'_def rs_def filter_empty_conv)
    moreover have "aligned st'"
      using assms(3) by (simp add: aligned_def st'_def rs_def goalReminders_consumed)
    ultimately show ?thesis
      using granted contract assms(2) by (auto simp: st'_def assertRootLead_def)
  qed
qed

section \<open>Histories\<close>

text \<open>The granted requests of a Session in order, with materializations anywhere between them.\<close>

inductive goal_history :: "collation \<Rightarrow> SessionStoreState \<Rightarrow> GoalOperation list \<Rightarrow> SessionStoreState \<Rightarrow> bool"
  for lc :: collation and st :: SessionStoreState where
  begins: "goal_history lc st [] st"
| granted: "goal_history lc st ops mid \<Longrightarrow> fresh_ids env mid \<Longrightarrow> goalRequest env authority op mid = Inr mutation
    \<Longrightarrow> commitGoalMutation lc mid mutation clock = Inr st' \<Longrightarrow> goal_history lc st (ops @ [op]) st'"
| materialized: "goal_history lc st ops mid \<Longrightarrow> materializeModelContextNotices env mid = Inr mutation
    \<Longrightarrow> commitGoalMutation lc mid mutation clock = Inr st' \<Longrightarrow> goal_history lc st ops st'"

definition goal_state_ok :: "SessionStoreState \<Rightarrow> bool" where
  "goal_state_ok st \<longleftrightarrow> goal_contract (goal_notice_state st) \<and> normal_store st \<and> aligned st
     \<and> assertRootLead st = Inr ()"

lemma only_goal_frame:
  assumes "only_goal st st'"
  shows "aligned st \<Longrightarrow> aligned st'" "assertRootLead st' = assertRootLead st"
proof -
  obtain g added where added: "st_shared st' = (st_shared st)\<lparr>goal := g, reminders := reminders (st_shared st) @ added\<rparr>" "st_agentName st' = st_agentName st"
      "\<forall>r \<in> set added. \<exists>n. goal_reminder_of r n"
    using assms by (auto simp: only_goal_def)
  have "\<forall>p \<in> set (goalReminders added). gn_id (snd p) = rm_id (fst p)"
    using added(3) by (auto simp: goalReminders_def map_filter_def goal_reminder_def goal_reminder_of_def)
  moreover have "reminders (st_shared st') = reminders (st_shared st) @ added"
    using added(1) by simp
  ultimately show "aligned st \<Longrightarrow> aligned st'"
    by (auto simp: aligned_def)
  show "assertRootLead st' = assertRootLead st"
    using added(1,2) by (simp add: assertRootLead_def)
qed

lemma granted_ok:
  assumes "goalRequest env authority op st = Inr mutation" "fresh_ids env st"
    and "commitGoalMutation lc st mutation clock = Inr st'" "goal_state_ok st"
  shows "goal_state_ok st'" "goal_moves op (goal (st_shared st)) (goal (st_shared st'))"
  using request_commits [OF assms(1,2), of lc clock] assms(3,4) only_goal_frame
  by (auto simp: goal_state_ok_def)

lemma materialized_ok:
  assumes "materializeModelContextNotices env st = Inr mutation"
    and "commitGoalMutation lc st mutation clock = Inr st'" "goal_state_ok st"
  shows "goal_state_ok st'" "goal (st_shared st') = goal (st_shared st)"
  using materialization_commits [of st env lc clock] assms by (auto simp: goal_state_ok_def normal_store_def)

lemma history_ok: "goal_history lc st ops st' \<Longrightarrow> goal_state_ok st \<Longrightarrow> goal_state_ok st'"
  by (induction rule: goal_history.induct) (auto intro: granted_ok(1) materialized_ok(1))

section \<open>The budget\<close>

definition limited_as_spent :: "SessionGoal \<Rightarrow> bool" where
  "limited_as_spent g \<longleftrightarrow> go_status g \<noteq> GoalComplete \<longrightarrow> (go_status g = GoalBudgetLimited \<longleftrightarrow> exhausted g)"

fun counts_tokens :: "GoalOperation \<Rightarrow> bool" where
  "counts_tokens (RecordSettlement s) \<longleftrightarrow> 0 \<le> totalTokens (gst_usage s)"
| "counts_tokens _ \<longleftrightarrow> True"

lemma exhausted_iff:
  "exhausted g \<longleftrightarrow> (\<exists>b. go_tokenBudget g = Some b \<and> b \<le> totalTokens (gu_tokens (go_usage g)))"
  by (cases "go_tokenBudget g") (simp_all add: exhausted_def budget_exhausted_def option_test_def)

lemma moves_limited:
  assumes "goal_moves op old new" "counts_tokens op" "\<forall>g \<in> set_option old. limited_as_spent g"
  shows "\<forall>g \<in> set_option new. limited_as_spent g"
  using assms
proof (cases rule: goal_moves.cases)
  case (controlled g g')
  then show ?thesis
    using assms(3) by (cases op) (auto simp: limited_as_spent_def exhausted_iff same_goal_parts)
next
  case (settled g g' s)
  then show ?thesis
    using assms(2,3)
    by (auto simp: limited_as_spent_def exhausted_iff same_goal_parts settled_usage_def addUsage_def split: if_splits)
qed (auto simp: limited_as_spent_def exhausted_iff same_goal_parts)

lemma history_limited:
  assumes "goal_history lc st ops st'" "goal_state_ok st" "\<forall>op \<in> set ops. counts_tokens op"
    and "\<forall>g \<in> set_option (goal (st_shared st)). limited_as_spent g"
  shows "\<forall>g \<in> set_option (goal (st_shared st')). limited_as_spent g"
  using assms
proof (induction rule: goal_history.induct)
  case (granted ops mid env authority op mutation clock st')
  have "goal_moves op (goal (st_shared mid)) (goal (st_shared st'))"
    by (rule granted_ok(2) [OF granted(3,2,4) history_ok [OF granted(1) granted.prems(1)]])
  moreover have "counts_tokens op" "\<forall>g \<in> set_option (goal (st_shared mid)). limited_as_spent g"
    using granted.IH [OF granted.prems(1) _ granted.prems(3)] granted.prems(2) by simp_all
  ultimately show ?case
    by (rule moves_limited)
next
  case (materialized ops mid env mutation clock st')
  have "goal (st_shared st') = goal (st_shared mid)"
    by (rule materialized_ok(2) [OF materialized(2,3) history_ok [OF materialized(1) materialized.prems(1)]])
  with materialized.IH [OF materialized.prems] show ?case by simp
qed

section \<open>Settlements\<close>

text \<open>The settlements that count: the first of each key the Goal has no receipt for.\<close>

fun uncounted :: "jstring set \<Rightarrow> GoalSettlement list \<Rightarrow> GoalSettlement list" where
  "uncounted seen [] = []"
| "uncounted seen (s # ss) = (let k = trim (gst_settlementKey s) in
     if k \<in> seen then uncounted seen ss else s # uncounted (insert k seen) ss)"

definition settlement_keys :: "GoalSettlement list \<Rightarrow> jstring set" where
  "settlement_keys ss = (\<lambda>s. trim (gst_settlementKey s)) ` set ss"

fun settlement_of :: "GoalOperation \<Rightarrow> GoalSettlement option" where
  "settlement_of (RecordSettlement s) = Some s"
| "settlement_of _ = None"

fun replaces_goal :: "GoalOperation \<Rightarrow> bool" where
  "replaces_goal (CreateGoal objective fileGoal settlements rootOf) \<longleftrightarrow> True"
| "replaces_goal ClearGoal \<longleftrightarrow> True"
| "replaces_goal _ \<longleftrightarrow> False"

lemma uncounted_snoc:
  "uncounted seen (ss @ [s]) = uncounted seen ss
     @ (if trim (gst_settlementKey s) \<in> seen \<union> settlement_keys ss then [] else [s])"
  by (induction ss arbitrary: seen) (auto simp: settlement_keys_def Let_def)

definition accounted :: "SessionGoal \<Rightarrow> GoalSettlement list \<Rightarrow> SessionGoal \<Rightarrow> bool" where
  "accounted g ss g' \<longleftrightarrow>
     go_usage g' = foldl settled_usage (go_usage g) (uncounted (set (go_settlementReceipts g)) ss)
   \<and> set (go_settlementReceipts g') = set (go_settlementReceipts g) \<union> settlement_keys ss"

lemma moves_accounted:
  assumes "goal_moves op (Some g1) new" "\<not> replaces_goal op" "accounted g ss g1"
  shows "\<exists>g2. new = Some g2 \<and> accounted g (ss @ (case settlement_of op of None \<Rightarrow> [] | Some s \<Rightarrow> [s])) g2
    \<and> go_instanceId g2 = go_instanceId g1"
  using assms(1)
proof (cases rule: goal_moves.cases)
  case (controlled g')
  then have "settlement_of op = None" by (cases op) auto
  with controlled assms(3) show ?thesis by (simp add: same_goal_parts accounted_def)
next
  case (settled g' s)
  then show ?thesis
    using assms(3) by (auto simp: accounted_def uncounted_snoc settlement_keys_def same_goal_parts)
next
  case (counted s)
  then show ?thesis
    using assms(3) by (auto simp: accounted_def uncounted_snoc settlement_keys_def)
qed (use assms in \<open>auto simp: same_goal_parts accounted_def\<close>)

lemma history_accounted:
  assumes "goal_history lc st ops st'" "goal_state_ok st" "\<forall>op \<in> set ops. \<not> replaces_goal op"
    and "goal (st_shared st) = Some g"
  shows "\<exists>g'. goal (st_shared st') = Some g' \<and> accounted g (List.map_filter settlement_of ops) g'
    \<and> go_instanceId g' = go_instanceId g"
  using assms
proof (induction rule: goal_history.induct)
  case begins
  then show ?case by (simp add: accounted_def settlement_keys_def map_filter_def)
next
  case (granted ops mid env authority op mutation clock st')
  then obtain g1 where g1: "goal (st_shared mid) = Some g1" "accounted g (List.map_filter settlement_of ops) g1"
      "go_instanceId g1 = go_instanceId g"
    by auto
  have "goal_moves op (Some g1) (goal (st_shared st'))"
    using granted_ok(2) [OF granted(3,2,4) history_ok [OF granted(1)]] granted.prems(1) g1(1) by simp
  from moves_accounted [OF this _ g1(2)] granted.prems(2) g1(3) show ?case
    by (auto simp: map_filter_def split: option.splits)
next
  case (materialized ops mid env mutation clock st')
  then show ?case
    using materialized_ok(2) [OF materialized(2,3) history_ok [OF materialized(1)]] by simp
qed

section \<open>A settlement the schema refuses\<close>

lemma checked_usage: "checked env g = Inr g' \<Longrightarrow> go_usage g' = go_usage g \<and> goal_refined g'"
  by (auto simp: checkedGoal_def parseSessionGoal_def Let_def split: option.splits if_splits)

text \<open>
  The Goal schema wants the total to be the sum of the input and the output tokens, while a
  provider's own total is kept as reported: a settlement of such a run is never counted.
\<close>

lemma unbalanced_settlement_refused:
  assumes "goal (st_shared st) = Some g" "goal_refined g"
    and "trim (gst_settlementKey s) \<notin> set (go_settlementReceipts g)"
    and "totalTokens (gst_usage s) \<noteq> inputTokens (gst_usage s) + outputTokens (gst_usage s)"
  shows "\<exists>e. goalRequest env authority (RecordSettlement s) st = Inl e"
proof (cases "goalRequest env authority (RecordSettlement s) st")
  case (Inr mutation)
  then obtain k outcome where k: "requiredText (gst_settlementKey s) = Inr k" "recordSettlement env k s authority st = Inr outcome"
    by (auto simp: bindE_Inr_iff mutate_def)
  then have "k \<notin> set (go_settlementReceipts g)"
    using required_text assms(3) by auto
  then obtain g0 g' where "checked env g0 = Inr g'" "go_usage g0 = settled_usage (go_usage g) s"
    using k(2) assms(1)
    by (auto simp: recordSettlement_def goal_readers bindE_Inr_iff Let_def split del: if_split split: if_split_asm)
  then have "totalTokens (gu_tokens (settled_usage (go_usage g) s))
      = inputTokens (gu_tokens (settled_usage (go_usage g) s)) + outputTokens (gu_tokens (settled_usage (go_usage g) s))"
    using checked_usage [of env g0 g'] by (metis goal_refined_def)
  then show ?thesis
    using assms(2,4) by (simp add: settled_usage_def addUsage_def goal_refined_def)
qed auto

section \<open>The properties\<close>

text \<open>
  C17: The checker of the Goal contract decides it: it reports no error exactly when notices belong to
  a root Lead, reminder ids are distinct, consumed reminders come first and each has its exact
  message, pending ones have none, the transcript's notices are those of the consumed reminders in
  order, and the latest notice proves the Goal or its absence.
\<close>

theorem goal_contract_checker_exact:
  "sessionGoalNoticeInvariantError state = None \<longleftrightarrow> goal_contract state"
  by (rule checker_decides)

text \<open>
  C12: A request to the Goal service that is granted can always be committed, and the store it
  commits keeps the contract, whatever the operation; only the Goal changes and notices are appended.
\<close>

theorem granted_goal_requests_commit:
  assumes "goalRequest env authority op st = Inr mutation" "fresh_ids env st" "goal_state_ok st"
  shows "\<exists>st'. commitGoalMutation lc st mutation clock = Inr st' \<and> goal_state_ok st' \<and> only_goal st st'"
  using request_commits [OF assms(1,2), of lc clock] granted_ok(1) [OF assms(1,2) _ assms(3), of lc clock] by blast

text \<open>
  C13: A granted request comes from the authority its operation needs and moves the Goal along the
  lifecycle: only an edit changes the generation, by one; a completed Goal changes only by
  settlements until it is replaced or cleared; only settlements change the usage; only the agent
  blocks and completes, and only an active Goal.
\<close>

theorem goal_requests_follow_lifecycle:
  assumes "goalRequest env authority op st = Inr mutation" "fresh_ids env st" "goal_state_ok st"
    and "commitGoalMutation lc st mutation clock = Inr st'"
  shows "authority = authority_of op \<and> goal_moves op (goal (st_shared st)) (goal (st_shared st'))"
  using request_authority [OF assms(1)] granted_ok(2) [OF assms(1,2,4,3)] by simp

text \<open>
  C15: Along any history of granted requests a Goal that is not complete is budget limited exactly
  while its tokens have reached its budget.
\<close>

theorem goal_limited_exactly_when_spent:
  assumes "goal_history lc st ops st'" "goal_state_ok st" "\<forall>op \<in> set ops. counts_tokens op"
    and "\<forall>g \<in> set_option (goal (st_shared st)). limited_as_spent g"
    and "goal (st_shared st') = Some g" "go_status g \<noteq> GoalComplete"
  shows "go_status g = GoalBudgetLimited \<longleftrightarrow>
    option_test (\<lambda>b. b \<le> totalTokens (gu_tokens (go_usage g))) (go_tokenBudget g)"
  using history_limited [OF assms(1-4)] assms(5,6)
  by (simp add: limited_as_spent_def exhausted_def budget_exhausted_def)

text \<open>
  C14: Whatever is requested in between, and however often a settlement is delivered, each settlement
  key is counted into the Goal's usage exactly once, and its receipt is kept.
\<close>

theorem goal_settlements_counted_once:
  assumes "goal_history lc st ops st'" "goal_state_ok st" "\<forall>op \<in> set ops. \<not> replaces_goal op"
    and "goal (st_shared st) = Some g"
  shows "\<exists>g'. goal (st_shared st') = Some g' \<and> go_instanceId g' = go_instanceId g
    \<and> go_usage g' = foldl settled_usage (go_usage g)
        (uncounted (set (go_settlementReceipts g)) (List.map_filter settlement_of ops))
    \<and> set (go_settlementReceipts g') = set (go_settlementReceipts g)
        \<union> settlement_keys (List.map_filter settlement_of ops)"
  using history_accounted [OF assms] by (auto simp: accounted_def)

text \<open>
  C16: After any history the pending notices can be handed to the model: it succeeds, each pending
  notice becomes one message at the end of the transcript, in order, none stays pending, and the
  contract and the Goal stay.
\<close>

theorem goal_notices_reach_the_model:
  assumes "goal_history lc st ops st'" "goal_state_ok st"
  shows "\<exists>mutation st''. materializeModelContextNotices env st' = Inr mutation
    \<and> commitGoalMutation lc st' mutation clock = Inr st'' \<and> goal_state_ok st'' \<and> pending_notices st'' = []
    \<and> messages (st_shared st'') = messages (st_shared st') @ map messageFor (pending_notices st')
    \<and> goal (st_shared st'') = goal (st_shared st')"
  using materialization_commits [of st' env lc clock] history_ok [OF assms]
  by (auto simp: goal_state_ok_def normal_store_def)

end
