(* ===== verification/RuntimeWitnesses.thy ===== *)
theory RuntimeWitnesses
  imports ExampleSession SessionPublication ReplicaLog SessionGoalHistory
begin

text \<open>
  The properties of the event log, of the browser's replica and of the Goal service at concrete
  stores: a Session whose stop request is saved and published, a replica that receives two envelopes
  and one that recovers from a snapshot, and a Goal that is created, settled and handed to the model.
\<close>

section \<open>A store\<close>

definition ex_store :: SessionStoreState where
  "ex_store = \<lparr> st_shared = empty_session, st_agentName = js ''lead'', st_compression = createEmptyCompressionState,
     st_source = None, st_lastTodoWriteStepIndex = None, st_memoryLearning = None, st_readSnapshots = [],
     st_events = [], st_eventOffset = 0, st_nextEventId = 0, st_publishableNextEventId = 0 \<rparr>"

definition ex_stop :: SessionEventPayload where
  "ex_stop = StreamPayload (StopRequested (js ''e'') 5)"

definition ex_v0 :: SessionEventEnvelope where
  "ex_v0 = \<lparr> ev_id = 0, ev_createdAt = 5, ev_payload = ex_stop \<rparr>"

definition ex_v1 :: SessionEventEnvelope where
  "ex_v1 = \<lparr> ev_id = 1, ev_createdAt = 6, ev_payload = ShutdownPayload None \<rparr>"

definition ex_entry :: "SessionEntry" where
  "ex_entry = \<lparr> se_store = ex_store\<lparr>st_events := [ex_v0], st_nextEventId := 1\<rparr>, se_barriers = [(1, 0)],
     se_operations = [\<lparr> po_snapshot = ex_store, po_barrier = None \<rparr>,
       \<lparr> po_snapshot = ex_store\<lparr>st_events := [ex_v0], st_nextEventId := 1\<rparr>, po_barrier = Some 1 \<rparr>],
     se_continuations = [], se_failed = False, se_saved = None, se_published = [] \<rparr>"

definition ex_settled :: SessionEntry where
  "ex_settled = runContinuation (saveSucceeds (saveSucceeds ex_entry))"

definition ex_shut :: SessionEntry where
  "ex_shut = ex_settled\<lparr>se_store := (se_store ex_settled)\<lparr>st_events := [ex_v0, ex_v1], st_nextEventId := 2,
     st_publishableNextEventId := 2\<rparr>, se_published := [ex_v0, ex_v1]\<rparr>"

lemma ex_empty_log: "empty_log ex_store"
  by (simp add: empty_log_def ex_store_def)

lemma ex_append: "appendEntry flat (newEntry ex_store) ex_stop 5 (ex_ctx 5 ''0'') = Inr ex_entry"
  by code_simp

lemma ex_append_shutdown: "appendEntry flat ex_settled (ShutdownPayload None) 6 (ex_ctx 6 ''0'') = Inr ex_shut"
  by code_simp

lemma ex_entry_trace: "entry_trace flat (newEntry ex_store) ex_entry [(ex_v0, True)]"
proof -
  have "entry_trace flat (newEntry ex_store) ex_entry ([] @ map (\<lambda>v. (v, isDurableControlEvent (ev_payload v)))
      (added (se_store (newEntry ex_store)) (se_store ex_entry)))"
    by (rule entry_trace.append [OF entry_trace.start ex_append])
  moreover have "map (\<lambda>v. (v, isDurableControlEvent (ev_payload v)))
      (added (se_store (newEntry ex_store)) (se_store ex_entry)) = [(ex_v0, True)]"
    by code_simp
  ultimately show ?thesis by simp
qed

lemma ex_shut_trace: "entry_trace flat (newEntry ex_store) ex_shut [(ex_v0, True), (ex_v1, False)]"
proof -
  have "backlog (se_store (saveSucceeds (saveSucceeds ex_entry))) \<le> MAX_EVENTS"
    by code_simp
  then have "entry_trace flat (newEntry ex_store) ex_settled [(ex_v0, True)]"
    unfolding ex_settled_def
    by (intro entry_trace.continued entry_trace.saved ex_entry_trace)
  from entry_trace.append [OF this ex_append_shutdown]
  have "entry_trace flat (newEntry ex_store) ex_shut ([(ex_v0, True)] @ map (\<lambda>v. (v, isDurableControlEvent (ev_payload v)))
      (added (se_store ex_settled) (se_store ex_shut)))" .
  moreover have "map (\<lambda>v. (v, isDurableControlEvent (ev_payload v)))
      (added (se_store ex_settled) (se_store ex_shut)) = [(ex_v1, False)]"
    by code_simp
  ultimately show ?thesis by simp
qed

section \<open>The event log\<close>

theorem listeners_see_log_in_order_witness:
  "ids_from 0 (se_published ex_shut) \<and> se_published ex_shut = [ex_v0, ex_v1]"
  using listeners_see_log_in_order [OF ex_empty_log disjI1 [OF refl] ex_shut_trace]
  by (simp add: ex_store_def ex_shut_def)

theorem guarded_events_published_after_save_witness:
  "option_test (\<lambda>snapshot. ev_id ex_v0 < st_nextEventId snapshot) (se_saved ex_shut)"
  by (rule guarded_events_published_after_save [OF ex_empty_log disjI1 [OF refl] ex_shut_trace])
    (simp_all add: ex_shut_def)

theorem settled_saves_publish_everything_witness: "se_published (settle ex_entry) = [ex_v0]"
proof -
  have "\<not> se_failed ex_entry" "backlog (se_store ex_entry) \<le> MAX_EVENTS"
    by (simp add: ex_entry_def) code_simp
  from settled_saves_publish_everything [OF ex_empty_log disjI1 [OF refl] ex_entry_trace this]
  show ?thesis by simp
qed

section \<open>The replica\<close>

text \<open>A log whose every envelope moves the working directory.\<close>

definition ex_remote :: "int \<Rightarrow> GlobalSessionEventEnvelope" where
  "ex_remote i = \<lparr> ge_slug = js ''p'', ge_sessionId = js ''s'', ge_eventId = i, ge_createdAt = i,
     ge_payload = StreamPayload (CwdChanged (js ''/'') (js ''/w'')), ge_agentName = js ''lead'' \<rparr>"

definition ex_web :: WebSessionStoreState where
  "ex_web = \<lparr> wb_slug = Some (js ''p''), wb_shared = empty_session, wb_hydrated = True, wb_createdAt = 1,
     wb_cwd = None, wb_agentName = None, wb_localSendingMessages = [], wb_nextModelSelection = None,
     wb_activeModelBinding = None, wb_events = [], wb_eventOffset = 0, wb_nextEventId = 0, wb_awaiting = False,
     wb_generation = 0, wb_buffer = [] \<rparr>"

definition ex_uuid :: client_uuid where "ex_uuid = (\<lambda>_ _. js ''u'')"

fun applied :: "js_error + WebSessionStoreState \<times> 'r \<Rightarrow> WebSessionStoreState" where
  "applied (Inr (w, r)) = w"
| "applied (Inl e) = ex_web"

lemma ex_numbered: "numbered ex_remote"
  by (simp add: numbered_def ex_remote_def)

text \<open>
  Between the two envelopes an HTTP response patches the model selection, ahead of the log, and a
  metadata event patches the title.
\<close>

definition ex_model :: SessionModelState where
  "ex_model = \<lparr> mst_modelSelection = \<lparr> sms_revision = 3, sms_override = None \<rparr>,
     mst_nextModelSelection = \<lparr> nms_requested = \<lparr> rms_mode = ModeSessionOverride,
       rms_selection = emb_selection ex_binding \<rparr>, nms_resolved = ex_binding \<rparr>, mst_activeModelBinding = None \<rparr>"

definition ex_metadata :: SessionMetadataPatch where
  "ex_metadata = \<lparr> mp_title = Some (Some (js ''t'')), mp_createdAt = None, mp_rootSessionId = None,
     mp_parentSessionId = None, mp_agentName = None \<rparr>"

definition ex_web1 :: WebSessionStoreState where
  "ex_web1 = applied (applyRemoteEnvelope flat ex_uuid ex_web (ex_remote 0))"

definition ex_web2 :: WebSessionStoreState where
  "ex_web2 = metadataPatchUpdates (applyModelStatePatch ex_web1 ex_model) ex_metadata"

definition ex_web3 :: WebSessionStoreState where
  "ex_web3 = applied (applyRemoteEnvelope flat ex_uuid ex_web2 (ex_remote 1))"

lemma ex_replica_trace:
  "replica_trace flat ex_uuid ex_remote ex_web ex_web3 empty_session 0
     [(1, ModelPatched ex_model), (1, MetadataPatched ex_metadata)]"
proof -
  have first: "applyRemoteEnvelope flat ex_uuid ex_web (ex_remote 0) = Inr (ex_web1, RAApplied)"
    by code_simp
  have second: "applyRemoteEnvelope flat ex_uuid ex_web2 (ex_remote 1) = Inr (ex_web3, RAApplied)"
    by code_simp
  have "wb_nextEventId ex_web1 = 1" "wb_nextEventId (applyModelStatePatch ex_web1 ex_model) = 1"
    by code_simp+
  note ids = this
  have "replica_trace flat ex_uuid ex_remote ex_web ex_web empty_session 0 []"
    using replica_trace.opened [of flat ex_uuid ex_remote ex_web] by (simp add: ex_web_def)
  then have "replica_trace flat ex_uuid ex_remote ex_web ex_web1 empty_session 0 []"
    by (rule replica_trace.delivered [where L = ex_remote and i = 0]) (rule first)
  from replica_trace.metadata [OF replica_trace.model [OF this, of ex_model], of ex_metadata]
  have "replica_trace flat ex_uuid ex_remote ex_web ex_web2 empty_session 0
     [(1, ModelPatched ex_model), (1, MetadataPatched ex_metadata)]"
    by (simp add: ex_web2_def ids)
  then show ?thesis
    by (rule replica_trace.delivered [where L = ex_remote and i = 1]) (rule second)
qed

theorem replica_folds_the_log_witness:
  "wb_shared ex_web3 = empty_session\<lparr>cwd := js ''/w'', title := Some (js ''t''),
     modelSelection := \<lparr> sms_revision = 3, sms_override = None \<rparr>\<rparr>
   \<and> replay flat ex_uuid ex_remote empty_session 0 [(1, ModelPatched ex_model), (1, MetadataPatched ex_metadata)] 2
       = Inr (wb_shared ex_web3)
   \<and> (\<exists>s. run_log (envelope_step flat ex_uuid) empty_session [ex_remote 0, ex_remote 1] = Inr s
       \<and> agree_but_labels s (wb_shared ex_web3))"
proof -
  have "wb_shared ex_web3 = empty_session\<lparr>cwd := js ''/w'', title := Some (js ''t''),
     modelSelection := \<lparr> sms_revision = 3, sms_override = None \<rparr>\<rparr>" "wb_nextEventId ex_web3 = 2"
    by code_simp+
  moreover have "segment ex_remote 0 2 = [ex_remote 0, ex_remote 1]"
    by (simp add: segment_def upt_rec)
  ultimately show ?thesis
    using replica_folds_the_log [OF ex_replica_trace ex_numbered] by (simp add: ex_web_def)
qed

text \<open>A replica that waits for a snapshot at cursor 0 while envelope 1 has arrived.\<close>

definition ex_awaiting :: WebSessionStoreState where
  "ex_awaiting = ex_web\<lparr>wb_awaiting := True, wb_generation := 1, wb_buffer := [(1, 1, ex_remote 1)]\<rparr>"

definition ex_snapshot :: SessionAuthoritativeSnapshot where
  "ex_snapshot = \<lparr> sn_metadata = \<lparr> mp_title = None, mp_createdAt = None, mp_rootSessionId = None,
       mp_parentSessionId = None, mp_agentName = None \<rparr>, sn_projection = empty_session,
     sn_nextModelSelection = None, sn_activeModelBinding = None, sn_eventCursor = 0 \<rparr>"

theorem recovery_drains_and_goes_live_witness:
  "\<exists>w'. applyAuthoritativeSnapshot flat ex_uuid ex_awaiting ex_snapshot 1 = Inr (w', SAApplied)
     \<and> \<not> wb_awaiting w' \<and> wb_nextEventId w' = 2 \<and> wb_shared w' = empty_session\<lparr>cwd := js ''/w''\<rparr>"
proof -
  let ?b = "wb_shared (authoritativeSnapshotUpdates ex_awaiting ex_snapshot True)"
  have generation: "wb_generation ex_awaiting = 1" and cursor: "sn_eventCursor ex_snapshot = 0"
    by (simp_all add: ex_awaiting_def ex_snapshot_def)
  have seg: "segment ex_remote 1 2 = [ex_remote 1]"
    by (simp add: segment_def)
  have b: "?b = empty_session" by code_simp
  have "admitted flat ex_uuid ex_remote ?b 1 2"
    unfolding admitted_def seg b by (simp add: ex_remote_def split: sum.splits)
  moreover have "run_log (envelope_step flat ex_uuid) ?b (segment ex_remote 1 2) = Inr (empty_session\<lparr>cwd := js ''/w''\<rparr>)"
    unfolding seg b by code_simp
  moreover have "buffered_ids ex_awaiting 1 0 = {1 ..< 2}"
    by (auto simp: buffered_ids_def ex_awaiting_def)
  ultimately show ?thesis
    using recovery_drains_and_goes_live [of ex_awaiting ex_remote ex_snapshot 2 ?b flat ex_uuid
        "empty_session\<lparr>cwd := js ''/w''\<rparr>"] ex_numbered generation cursor
    by (simp add: ex_awaiting_def buffer_ok_def)
qed

section \<open>A Goal\<close>

definition ex_env :: "int \<Rightarrow> string \<Rightarrow> GoalEnvironment" where
  "ex_env now i = \<lparr> env_isUuid = (\<lambda>_. True), env_collation = flat, env_now = now, env_newInstance = js ''i'',
     env_newReminder = js i \<rparr>"

definition ex_clock :: "nat \<Rightarrow> int \<times> ReduceContext" where
  "ex_clock = (\<lambda>_. (1, ex_ctx 1 ''0''))"

definition ex_create :: GoalOperation where
  "ex_create = CreateGoal (js ''x'') None [] (\<lambda>_. None)"

definition ex_settle :: GoalOperation where
  "ex_settle = RecordSettlement \<lparr> gst_settlementKey = js ''k'', gst_goalInstanceId = js ''i'',
     gst_usage = \<lparr> inputTokens = 2, outputTokens = 3, totalTokens = 5, reasoningTokens = 0, cachedInputTokens = 0 \<rparr>,
     gst_executionTimeMs = 7, gst_terminal = True \<rparr>"

fun granted :: "goal_error + goal_mutation \<Rightarrow> goal_mutation" where
  "granted (Inr m) = m"
| "granted (Inl e) = (no_patch, [])"

fun stored :: "store_error + SessionStoreState \<Rightarrow> SessionStoreState" where
  "stored (Inr st) = st"
| "stored (Inl e) = ex_store"

definition after_request :: "GoalEnvironment \<Rightarrow> GoalNoticeAuthority \<Rightarrow> GoalOperation \<Rightarrow> SessionStoreState \<Rightarrow> SessionStoreState" where
  "after_request env authority op st = stored (commitGoalMutation flat st (granted (goalRequest env authority op st)) ex_clock)"

definition ex_created :: SessionStoreState where
  "ex_created = after_request (ex_env 1 ''a'') UserControl ex_create ex_store"

definition ex_budgeted :: SessionStoreState where
  "ex_budgeted = after_request (ex_env 2 ''b'') UserControl (SetTokenBudget (Some 4)) ex_created"

definition ex_counted :: SessionStoreState where
  "ex_counted = after_request (ex_env 3 ''c'') RuntimeAuthority ex_settle ex_budgeted"

definition ex_again :: SessionStoreState where
  "ex_again = after_request (ex_env 4 ''d'') RuntimeAuthority ex_settle ex_counted"

definition request_ok :: "GoalEnvironment \<Rightarrow> GoalNoticeAuthority \<Rightarrow> GoalOperation \<Rightarrow> SessionStoreState \<Rightarrow> bool" where
  "request_ok env authority op st \<longleftrightarrow> (case goalRequest env authority op st of Inl _ \<Rightarrow> False
     | Inr m \<Rightarrow> (case commitGoalMutation flat st m ex_clock of Inl _ \<Rightarrow> False | Inr _ \<Rightarrow> True)) \<and> fresh_ids env st"

lemma request_okD:
  assumes "request_ok env authority op st"
  shows "goalRequest env authority op st = Inr (granted (goalRequest env authority op st))"
    "commitGoalMutation flat st (granted (goalRequest env authority op st)) ex_clock
       = Inr (after_request env authority op st)" "fresh_ids env st"
  using assms by (auto simp: request_ok_def after_request_def split: sum.splits)

lemma ex_requests:
  "request_ok (ex_env 1 ''a'') UserControl ex_create ex_store"
  "request_ok (ex_env 2 ''b'') UserControl (SetTokenBudget (Some 4)) ex_created"
  "request_ok (ex_env 3 ''c'') RuntimeAuthority ex_settle ex_budgeted"
  "request_ok (ex_env 4 ''d'') RuntimeAuthority ex_settle ex_counted"
  by code_simp+

lemma ex_goal_ok: "goal_state_ok ex_store"
proof -
  have "sessionGoalNoticeInvariantError (goal_notice_state ex_store) = None" "assertRootLead ex_store = Inr ()"
    by code_simp+
  then show ?thesis
    by (simp add: goal_state_ok_def checker_decides normal_store_def aligned_def ex_store_def empty_session_def
        goalReminders_def map_filter_def)
qed

lemma ex_created_ok: "goal_state_ok ex_created"
  using granted_ok(1) [OF request_okD(1,3,2) [OF ex_requests(1)] ex_goal_ok]
  by (simp add: ex_created_def)

lemma ex_history: "goal_history flat ex_created [SetTokenBudget (Some 4), ex_settle, ex_settle] ex_again"
proof -
  have one: "goal_history flat ex_created [SetTokenBudget (Some 4)] ex_budgeted"
    using goal_history.granted [OF goal_history.begins request_okD(3,1,2) [OF ex_requests(2)]]
    by (simp add: ex_budgeted_def)
  have two: "goal_history flat ex_created [SetTokenBudget (Some 4), ex_settle] ex_counted"
    using goal_history.granted [OF one request_okD(3,1,2) [OF ex_requests(3)]]
    by (simp add: ex_counted_def)
  show ?thesis
    using goal_history.granted [OF two request_okD(3,1,2) [OF ex_requests(4)]]
    by (simp add: ex_again_def)
qed

definition ex_goal :: SessionGoal where
  "ex_goal = newGoal (ex_env 1 ''a'') (js ''x'')"

definition ex_limited :: SessionGoal where
  "ex_limited = ex_goal\<lparr>go_status := GoalBudgetLimited, go_tokenBudget := Some 4,
     go_usage := settled_usage (go_usage ex_goal) \<lparr> gst_settlementKey = js ''k'', gst_goalInstanceId = js ''i'',
       gst_usage = \<lparr> inputTokens = 2, outputTokens = 3, totalTokens = 5, reasoningTokens = 0, cachedInputTokens = 0 \<rparr>,
       gst_executionTimeMs = 7, gst_terminal = True \<rparr>,
     go_settlementReceipts := [js ''k''], go_updatedAt := 3\<rparr>"

lemma ex_goals: "goal (st_shared ex_created) = Some ex_goal" "goal (st_shared ex_again) = Some ex_limited"
  by code_simp+

theorem granted_goal_requests_commit_witness:
  "\<exists>st'. commitGoalMutation flat ex_store (granted (goalRequest (ex_env 1 ''a'') UserControl ex_create ex_store)) ex_clock
      = Inr st' \<and> goal_state_ok st' \<and> only_goal ex_store st'"
  by (rule granted_goal_requests_commit [OF request_okD(1,3) [OF ex_requests(1)] ex_goal_ok])

theorem goal_requests_follow_lifecycle_witness:
  "UserControl = authority_of ex_create \<and> goal_moves ex_create (goal (st_shared ex_store)) (Some ex_goal)"
  using goal_requests_follow_lifecycle [OF request_okD(1,3) [OF ex_requests(1)] ex_goal_ok request_okD(2) [OF ex_requests(1)]]
  by (simp add: ex_created_def [symmetric] ex_goals)

theorem goal_limited_exactly_when_spent_witness:
  "go_status ex_limited = GoalBudgetLimited \<longleftrightarrow>
    option_test (\<lambda>b. b \<le> totalTokens (gu_tokens (go_usage ex_limited))) (go_tokenBudget ex_limited)"
proof (rule goal_limited_exactly_when_spent [OF ex_history ex_created_ok _ _ ex_goals(2)])
  show "\<forall>op \<in> set [SetTokenBudget (Some 4), ex_settle, ex_settle]. counts_tokens op"
    by (simp add: ex_settle_def)
  show "\<forall>g \<in> set_option (goal (st_shared ex_created)). limited_as_spent g"
    by (simp add: ex_goals ex_goal_def newGoal_def limited_as_spent_def exhausted_iff)
  show "go_status ex_limited \<noteq> GoalComplete"
    by (simp add: ex_limited_def)
qed

theorem goal_settlements_counted_once_witness:
  "go_usage ex_limited = foldl settled_usage (go_usage ex_goal)
     (uncounted {} (List.map_filter settlement_of [ex_settle, ex_settle]))"
proof -
  have "\<forall>op \<in> set [SetTokenBudget (Some 4), ex_settle, ex_settle]. \<not> replaces_goal op"
    by (simp add: ex_settle_def)
  from goal_settlements_counted_once [OF ex_history ex_created_ok this ex_goals(1)] ex_goals(2)
  show ?thesis
    by (simp add: ex_goal_def newGoal_def map_filter_def)
qed

theorem goal_notices_reach_the_model_witness:
  "\<exists>mutation st''. materializeModelContextNotices (ex_env 5 ''e'') ex_again = Inr mutation
    \<and> commitGoalMutation flat ex_again mutation ex_clock = Inr st'' \<and> goal_state_ok st'' \<and> pending_notices st'' = []
    \<and> messages (st_shared st'') = messages (st_shared ex_again) @ map messageFor (pending_notices ex_again)
    \<and> goal (st_shared st'') = goal (st_shared ex_again)"
  by (rule goal_notices_reach_the_model [OF ex_history ex_created_ok])

end
