(* ===== verification/Utf8.thy ===== *)
theory Utf8
  imports JsText
begin

text \<open>
  The bytes of a string: UTF-8 as \<open>TextEncoder\<close> and \<open>hash.update\<close> of node:crypto write it. A lone
  surrogate is written as U+FFFD, so only well-formed strings are determined by their bytes.
\<close>

section \<open>Encoding\<close>

definition unit_octets :: "jchar \<Rightarrow> nat list" where
  "unit_octets c = (let n = unat c in
     if is_high c \<or> is_low c then [0xEF, 0xBF, 0xBD]
     else if n < 0x80 then [n]
     else if n < 0x800 then [0xC0 + n div 64, 0x80 + n mod 64]
     else [0xE0 + n div 64 div 64, 0x80 + n div 64 mod 64, 0x80 + n mod 64])"

definition pair_octets :: "jchar \<Rightarrow> jchar \<Rightarrow> nat list" where
  "pair_octets h l = (let n = 0x10000 + (unat h - 0xD800) * 1024 + (unat l - 0xDC00) in
     [0xF0 + n div 64 div 64 div 64, 0x80 + n div 64 div 64 mod 64, 0x80 + n div 64 mod 64, 0x80 + n mod 64])"

fun utf8_octets :: "jstring \<Rightarrow> nat list" where
  "utf8_octets [] = []"
| "utf8_octets [c] = unit_octets c"
| "utf8_octets (c # d # cs) =
    (if is_high c \<and> is_low d then pair_octets c d @ utf8_octets cs
     else unit_octets c @ utf8_octets (d # cs))"

definition utf8_bytes :: "jstring \<Rightarrow> 8 word list" where
  "utf8_bytes s = map of_nat (utf8_octets s)"

text \<open>Evaluated, an ASCII character is its own byte.\<close>

lemma utf8_bytes_code [code]:
  "utf8_bytes [] = []"
  "utf8_bytes (c # cs) = (if c < 0x80 then ucast c # utf8_bytes cs else map of_nat (utf8_octets (c # cs)))"
proof -
  have "utf8_bytes (c # cs) = ucast c # utf8_bytes cs" if "c < 0x80"
  proof -
    have "\<not> is_high c" "\<not> is_low c" "unat c < 0x80"
      using that by (auto simp: is_high_def is_low_def word_less_nat_alt word_le_nat_alt)
    moreover have "(of_nat (unat c) :: 8 word) = ucast c"
      by simp
    ultimately show ?thesis
      by (cases cs) (simp_all add: utf8_bytes_def unit_octets_def)
  qed
  then show "utf8_bytes (c # cs) = (if c < 0x80 then ucast c # utf8_bytes cs else map of_nat (utf8_octets (c # cs)))"
    by (simp add: utf8_bytes_def)
qed (simp add: utf8_bytes_def)

text \<open>Every surrogate belongs to a pair.\<close>

fun well_formed_text :: "jstring \<Rightarrow> bool" where
  "well_formed_text [] = True"
| "well_formed_text [c] = (\<not> is_high c \<and> \<not> is_low c)"
| "well_formed_text (c # d # cs) =
    (if is_high c \<and> is_low d then well_formed_text cs
     else \<not> is_high c \<and> \<not> is_low c \<and> well_formed_text (d # cs))"

lemma length_utf8_octets: "length (utf8_octets s) = utf8ByteLength s"
proof -
  have "length (unit_octets c) = unit_bytes c" for c
  proof -
    have "\<not> unat c < 0x800" if "is_high c \<or> is_low c"
      using that by (auto simp: is_high_def is_low_def word_le_nat_alt)
    then show ?thesis
      by (auto simp: unit_octets_def unit_bytes_def Let_def word_less_nat_alt)
  qed
  then show ?thesis
    by (induction s rule: utf8ByteLength.induct) (simp_all add: pair_octets_def Let_def)
qed

section \<open>Decoding\<close>

text \<open>A decoder for the bytes of well-formed strings, to code units.\<close>

fun decode_octets :: "nat list \<Rightarrow> nat list" where
  "decode_octets [] = []"
| "decode_octets (a # rest) =
    (if a < 0x80 then a # decode_octets rest
     else if a < 0xE0 then
       (case rest of b # r \<Rightarrow> ((a - 0xC0) * 64 + (b - 0x80)) # decode_octets r | _ \<Rightarrow> [])
     else if a < 0xF0 then
       (case rest of b # c # r \<Rightarrow> (((a - 0xE0) * 64 + (b - 0x80)) * 64 + (c - 0x80)) # decode_octets r | _ \<Rightarrow> [])
     else (case rest of
         b # c # d # r \<Rightarrow>
           (let n = (((a - 0xF0) * 64 + (b - 0x80)) * 64 + (c - 0x80)) * 64 + (d - 0x80) - 0x10000 in
            (0xD800 + n div 1024) # (0xDC00 + n mod 1024) # decode_octets r)
       | _ \<Rightarrow> []))"

lemma unat_small: "unat (c :: jchar) < 0x10000"
proof -
  have "unat c < 2 ^ LENGTH(16)"
    by (rule unsigned_less)
  then show ?thesis by simp
qed

lemma sextets: "(n div 64) * 64 + n mod 64 = (n :: nat)"
  by simp

lemma decode_unit:
  assumes "\<not> is_high c" "\<not> is_low c"
  shows "decode_octets (unit_octets c @ rest) = unat c # decode_octets rest"
proof -
  note small = unat_small [of c]
  have "unat c div 64 div 64 < 16"
    using small by (simp add: div_mult2_eq [symmetric] less_mult_imp_div_less)
  moreover have "unat c div 64 < 32" if "unat c < 0x800"
    using that by (simp add: less_mult_imp_div_less)
  ultimately show ?thesis
    using assms by (auto simp: unit_octets_def Let_def sextets)
qed

lemma decode_four:
  "decode_octets ((0xF0 + a) # (0x80 + b) # (0x80 + c) # (0x80 + d) # rest) =
     (0xD800 + (((a * 64 + b) * 64 + c) * 64 + d - 0x10000) div 1024)
     # (0xDC00 + (((a * 64 + b) * 64 + c) * 64 + d - 0x10000) mod 1024) # decode_octets rest"
  by (simp add: Let_def)

lemma decode_pair:
  assumes "is_high h" "is_low l"
  shows "decode_octets (pair_octets h l @ rest) = unat h # unat l # decode_octets rest"
proof -
  have range: "0xD800 \<le> unat h" "unat h \<le> 0xDBFF" "0xDC00 \<le> unat l" "unat l \<le> 0xDFFF"
    using assms by (auto simp: is_high_def is_low_def word_le_nat_alt)
  define n where "n = (unat h - 0xD800) * 1024 + (unat l - 0xDC00)"
  have "unat l - 0xDC00 < 1024"
    using range by simp
  then have parts: "n div 1024 = unat h - 0xD800" "n mod 1024 = unat l - 0xDC00"
    unfolding n_def by (simp_all only: div_mult_self3 mod_mult_self3 div_less mod_less)
  have octets: "pair_octets h l = (let m = 0x10000 + n in
      [0xF0 + m div 64 div 64 div 64, 0x80 + m div 64 div 64 mod 64, 0x80 + m div 64 mod 64, 0x80 + m mod 64])"
    by (simp add: pair_octets_def n_def add.assoc)
  have four: "((m div 64 div 64 div 64 * 64 + m div 64 div 64 mod 64) * 64 + m div 64 mod 64) * 64 + m mod 64 = m"
    for m :: nat
    by (simp only: sextets)
  show ?thesis
    unfolding octets Let_def append.simps decode_four four by (simp add: parts range)
qed

lemma decode_encode: "well_formed_text s \<Longrightarrow> decode_octets (utf8_octets s) = map unat s"
proof (induction s rule: utf8_octets.induct)
  case (2 c)
  then show ?case
    using decode_unit [of c "[]"] by simp
next
  case (3 c d cs)
  then show ?case
    by (cases "is_high c \<and> is_low d") (simp_all add: decode_pair decode_unit del: decode_octets.simps)
qed simp

lemma octets_small: "\<forall>n \<in> set (utf8_octets s). n < 256"
proof -
  have unit: "\<forall>n \<in> set (unit_octets c). n < 256" for c
  proof -
    note small = unat_small [of c]
    have "unat c div 64 div 64 < 16"
      using small by (simp add: div_mult2_eq [symmetric] less_mult_imp_div_less)
    moreover have "unat c div 64 < 32" if "unat c < 0x800"
      using that by (simp add: less_mult_imp_div_less)
    moreover have "k mod 64 < 64" for k :: nat
      by simp
    ultimately show ?thesis
      by (auto simp: unit_octets_def Let_def intro: order.strict_trans [of _ 64])
  qed
  have pair: "\<forall>n \<in> set (pair_octets h l). n < 256" if "is_high h" "is_low l" for h l
  proof -
    have "unat h \<le> 0xDBFF" "unat l \<le> 0xDFFF"
      using that by (auto simp: is_high_def is_low_def word_le_nat_alt)
    then have "0x10000 + (unat h - 0xD800) * 1024 + (unat l - 0xDC00) < 16 * (64 * 64 * 64)"
      by auto
    then have "(0x10000 + (unat h - 0xD800) * 1024 + (unat l - 0xDC00)) div 64 div 64 div 64 < 16"
      by (simp add: div_mult2_eq [symmetric] less_mult_imp_div_less)
    moreover have "k mod 64 < 64" for k :: nat
      by simp
    ultimately show ?thesis
      by (auto simp: pair_octets_def Let_def intro: order.strict_trans [of _ 64])
  qed
  show ?thesis
    by (induction s rule: utf8_octets.induct) (use unit pair in auto)
qed

lemma utf8_bytes_inject:
  assumes "well_formed_text s" "well_formed_text t"
  shows "utf8_bytes s = utf8_bytes t \<longleftrightarrow> s = t"
proof
  assume eq: "utf8_bytes s = utf8_bytes t"
  have bytes: "map unat (utf8_bytes u) = utf8_octets u" for u
  proof -
    have "unat (of_nat n :: 8 word) = n" if "n \<in> set (utf8_octets u)" for n
      using octets_small [of u] that by (simp add: unat_of_nat)
    then show ?thesis
      by (simp add: utf8_bytes_def comp_def map_idI)
  qed
  have "utf8_octets s = utf8_octets t"
    using bytes [of s] bytes [of t] eq by simp
  then have "map unat s = map unat t"
    using decode_encode assms by metis
  then show "s = t"
    by (rule map_injective [OF _ injI]) (rule unsigned_word_eqI)
qed simp

text \<open>The zero byte stands for U+0000 alone.\<close>

lemma zero_byte:
  assumes "0 \<notin> set s"
  shows "0 \<notin> set (utf8_bytes s)"
proof -
  have "0 \<notin> set (unit_octets c)" if "c \<noteq> 0" for c
    using that by (auto simp: unit_octets_def Let_def unat_eq_0)
  moreover have "0 \<notin> set (pair_octets h l)" for h l
    by (simp add: pair_octets_def Let_def)
  ultimately have "0 \<notin> set s \<Longrightarrow> 0 \<notin> set (utf8_octets s)"
    by (induction s rule: utf8_octets.induct) auto
  moreover have "(of_nat n :: 8 word) \<noteq> 0" if "n \<in> set (utf8_octets s)" "n \<noteq> 0" for n
  proof -
    have "n < 256"
      using octets_small [of s] that(1) by blast
    then have "unat (of_nat n :: 8 word) = n"
      by (simp add: unat_of_nat)
    with that(2) show ?thesis by auto
  qed
  ultimately show ?thesis
    using assms by (force simp: utf8_bytes_def)
qed

lemma lone_surrogates_collapse: "utf8_bytes [0xD800] = utf8_bytes [0xDC00]"
  by (simp add: utf8_bytes_def unit_octets_def is_high_def is_low_def word_le_nat_alt)

end
