(* ===== verification/SessionInputState.thy ===== *)
theory SessionInputState
  imports SessionLog JsonText Utf8
begin

text \<open>
  The queue of messages a client sends to a Session, packages/agent-core/src/session-input/service.ts:
  the receipts that make requests idempotent, and the checks, conflict projections and conversions the
  operations share. The operations are in \<open>SessionInputService\<close>.

  The copies the service makes of what it stores are identities here, and error messages are left
  out. \<open>sha256\<close> (of bytes, as a hexadecimal text), \<open>crypto.randomUUID\<close> and \<open>Date.now\<close> are parameters (\<open>InputEnvironment\<close>; \<open>ie_now\<close>
  and \<open>ie_nowAgain\<close> are the two clock readings an operation makes at most).
\<close>

section \<open>Receipts\<close>

datatype MessageReceiptStatus = ReceiptPending | ReceiptCanonical | ReceiptDeleted
datatype CommandReceiptStatus = CommandExecuting | CommandCompleted | CommandFailed | CommandIndeterminate

record SessionMessageInputReceipt =
  ir_clientRequestId :: jstring
  ir_messageId :: jstring
  ir_requestFingerprint :: jstring
  ir_status :: MessageReceiptStatus
  ir_requestedModelSelection :: RequestedModelSelection

record SessionCommandInputReceipt =
  cr_clientRequestId :: jstring
  cr_requestFingerprint :: jstring
  cr_status :: CommandReceiptStatus
  cr_error :: "jstring option"
  cr_requestedModelSelection :: RequestedModelSelection

datatype SessionInputReceipt =
    MessageReceipt SessionMessageInputReceipt
  | CommandReceipt SessionCommandInputReceipt

fun receipt_request_id :: "SessionInputReceipt \<Rightarrow> jstring" where
  "receipt_request_id (MessageReceipt r) = ir_clientRequestId r"
| "receipt_request_id (CommandReceipt r) = cr_clientRequestId r"

fun receipt_fingerprint :: "SessionInputReceipt \<Rightarrow> jstring" where
  "receipt_fingerprint (MessageReceipt r) = ir_requestFingerprint r"
| "receipt_fingerprint (CommandReceipt r) = cr_requestFingerprint r"

text \<open>The part of the store this service reads and writes.\<close>

record SessionInputState =
  in_store :: SessionStoreState
  in_receipts :: "SessionInputReceipt list"
  in_queueDispatchBarrierAt :: "int option"
  in_updatedAt :: int

record InputEnvironment =
  ie_now :: int
  ie_nowAgain :: int
  ie_newId :: jstring
  ie_sha256 :: "8 word list \<Rightarrow> jstring"

abbreviation in_shared :: "SessionInputState \<Rightarrow> SessionProjection" where
  "in_shared st \<equiv> st_shared (in_store st)"

abbreviation in_pending :: "SessionInputState \<Rightarrow> PendingSessionMessage list" where
  "in_pending st \<equiv> pendingMessages (in_shared st)"

abbreviation in_messages :: "SessionInputState \<Rightarrow> SessionMessage list" where
  "in_messages st \<equiv> messages (in_shared st)"

section \<open>Conflicts\<close>

datatype SessionInputConflictReason =
    NotRoot | NotFound | RevisionConflict | StateConflict | IdempotencyConflict | EmptyQueue
  | IdentityCollision | CorruptReceipt

datatype ConflictStatus = ConflictQueued | ConflictSteering | ConflictCanonical | ConflictDeleted

record SessionInputConflictCurrent =
  cc_messageId :: jstring
  cc_clientRequestId :: jstring
  cc_status :: ConflictStatus
  cc_revision :: "int option"
  cc_content :: "jstring option"
  cc_executionId :: "jstring option"

datatype input_error =
    SessionInputConflictError SessionInputConflictReason "SessionInputConflictCurrent option"
  | InputTypeError
  | AbortedSignal
  | AttachmentResolverMismatch

abbreviation conflict :: "SessionInputConflictReason \<Rightarrow> input_error" where
  "conflict reason \<equiv> SessionInputConflictError reason None"

fun guard :: "bool \<Rightarrow> input_error \<Rightarrow> input_error + unit" where
  "guard ok e = (if ok then Inr () else Inl e)"

definition pendingConflictProjection :: "PendingSessionMessage \<Rightarrow> SessionInputConflictCurrent" where
  "pendingConflictProjection m = \<lparr> cc_messageId = pm_id m, cc_clientRequestId = pm_clientRequestId m,
     cc_status = (case pm_state m of Queued \<Rightarrow> ConflictQueued | Steering \<Rightarrow> ConflictSteering),
     cc_revision = Some (pm_revision m), cc_content = Some (pm_content m), cc_executionId = None \<rparr>"

fun text_of_part :: "UserSessionPart \<Rightarrow> jstring option" where
  "text_of_part (UserText t) = Some (tx_text t)"
| "text_of_part _ = None"

fun message_text :: "SessionMessage \<Rightarrow> jstring" where
  "message_text (UserMessage u) = concat (List.map_filter text_of_part (um_parts u))"
| "message_text (AssistantMessage a) = []"

fun message_executionId :: "SessionMessage \<Rightarrow> jstring option" where
  "message_executionId (UserMessage u) = um_executionId u"
| "message_executionId (AssistantMessage a) = Some (am_executionId a)"

definition canonicalConflictProjection ::
  "SessionMessage list \<Rightarrow> SessionMessageInputReceipt \<Rightarrow> input_error + SessionInputConflictCurrent" where
  "canonicalConflictProjection ms r = (case find (\<lambda>m. msg_id m = ir_messageId r) ms of
     None \<Rightarrow> Inl (conflict CorruptReceipt)
   | Some m \<Rightarrow> Inr \<lparr> cc_messageId = ir_messageId r, cc_clientRequestId = ir_clientRequestId r,
       cc_status = ConflictCanonical, cc_revision = None, cc_content = Some (message_text m),
       cc_executionId = message_executionId m \<rparr>)"

section \<open>Checks\<close>

definition assertNonEmpty :: "jstring \<Rightarrow> input_error + unit" where
  "assertNonEmpty value = guard (trim value \<noteq> []) InputTypeError"

definition assertMessageContent :: "jstring \<Rightarrow> bool \<Rightarrow> input_error + unit" where
  "assertMessageContent content hasAttachments =
     guard (\<not> (trim content = [] \<and> \<not> hasAttachments)) InputTypeError"

definition MAX_ATTACHMENTS_PER_MESSAGE :: nat where "MAX_ATTACHMENTS_PER_MESSAGE = 10"

definition is_hex :: "jchar \<Rightarrow> bool" where
  "is_hex c \<longleftrightarrow> 0x30 \<le> c \<and> c \<le> 0x39 \<or> 0x61 \<le> c \<and> c \<le> 0x66 \<or> 0x41 \<le> c \<and> c \<le> 0x46"

text \<open>The pattern of attachment ids, position by position.\<close>

definition attachment_id_char :: "nat \<Rightarrow> jchar \<Rightarrow> bool" where
  "attachment_id_char i c =
    (if i \<in> {8, 13, 18, 23} then c = 0x2D
     else if i = 14 then 0x31 \<le> c \<and> c \<le> 0x38
     else if i = 19 then c \<in> {0x38, 0x39, 0x61, 0x62, 0x41, 0x42}
     else is_hex c)"

definition isAttachmentId :: "jstring \<Rightarrow> bool" where
  "isAttachmentId s \<longleftrightarrow> length s = 36 \<and> (\<forall>(i, c) \<in> set (List.enumerate 0 s). attachment_id_char i c)"

definition assertAttachmentIds :: "jstring list \<Rightarrow> input_error + unit" where
  "assertAttachmentIds ids = guard (length ids \<le> MAX_ATTACHMENTS_PER_MESSAGE \<and> distinct ids
     \<and> (\<forall>i \<in> set ids. isAttachmentId i)) InputTypeError"

definition validateParentAgentProvenance :: "ParentAgentMessageProvenance \<Rightarrow> input_error + unit" where
  "validateParentAgentProvenance p = guard (trim (pap_senderSessionId p) \<noteq> [] \<and> trim (pap_senderAgentName p) \<noteq> []
     \<and> trim (pap_senderExecutionId p) \<noteq> [] \<and> trim (pap_senderToolBatchId p) \<noteq> []
     \<and> trim (pap_senderToolCallId p) \<noteq> [] \<and> 0 \<le> pap_senderRunOrdinal p) InputTypeError"

definition copyAndValidateResolvedAttachments ::
  "jstring list \<Rightarrow> AttachmentDescriptor list \<Rightarrow> input_error + AttachmentDescriptor list" where
  "copyAndValidateResolvedAttachments ids descriptors =
    (if map att_id descriptors \<noteq> ids then Inl AttachmentResolverMismatch else Inr descriptors)"

definition assertRootSession :: "SessionInputState \<Rightarrow> input_error + unit" where
  "assertRootSession st = guard (sessionId (in_shared st) = rootSessionId (in_shared st)) (conflict NotRoot)"

definition assertMessageIdentityAvailable :: "SessionInputState \<Rightarrow> jstring \<Rightarrow> input_error + unit" where
  "assertMessageIdentityAvailable st messageId =
     guard (messageId \<notin> pm_id ` set (in_pending st) \<and> messageId \<notin> msg_id ` set (in_messages st))
       (conflict IdentityCollision)"

section \<open>Time\<close>

definition opt_time :: "int option \<Rightarrow> int" where
  "opt_time t = (case t of None \<Rightarrow> 0 | Some x \<Rightarrow> x)"

fun message_times :: "SessionMessage \<Rightarrow> int list" where
  "message_times (UserMessage u) = [um_createdAt u, opt_time (um_completedAt u)]"
| "message_times (AssistantMessage a) = [am_createdAt a, opt_time (am_completedAt a)]"

definition pending_times :: "PendingSessionMessage \<Rightarrow> int list" where
  "pending_times m = [pm_acceptedAt m, pm_updatedAt m]"

definition execution_times :: "SessionExecutionRecord \<Rightarrow> int list" where
  "execution_times e = [ex_startedAt e, (case ex_state e of Terminal _ t _ _ _ \<Rightarrow> t | _ \<Rightarrow> 0),
     opt_time (ex_stopRequestedAt e)]"

definition recorded_times :: "SessionInputState \<Rightarrow> int list" where
  "recorded_times st = concat (map pending_times (in_pending st)) @ concat (map message_times (in_messages st))
     @ concat (map execution_times (executions (in_shared st)))"

definition nextSessionTimestamp :: "SessionInputState \<Rightarrow> int \<Rightarrow> int" where
  "nextSessionTimestamp st now =
     max now (fold max (recorded_times st) (max (in_updatedAt st) (opt_time (in_queueDispatchBarrierAt st))) + 1)"

section \<open>Comparisons\<close>

definition sameSelection :: "ModelSelectionRef \<Rightarrow> ModelSelectionRef \<Rightarrow> bool" where
  "sameSelection l r \<longleftrightarrow> msr_model l = msr_model r \<and> msr_variant l = msr_variant r"

definition sameRequestedSelection :: "RequestedModelSelection \<Rightarrow> RequestedModelSelection \<Rightarrow> bool" where
  "sameRequestedSelection l r \<longleftrightarrow> rms_mode l = rms_mode r
     \<and> msr_model (rms_selection l) = msr_model (rms_selection r)
     \<and> msr_variant (rms_selection l) = msr_variant (rms_selection r)"

fun sameOptionalModelAudit :: "MessageModelAudit option \<Rightarrow> MessageModelAudit option \<Rightarrow> bool" where
  "sameOptionalModelAudit (Some l) (Some r) \<longleftrightarrow> sameRequestedSelection (mma_requested l) (mma_requested r)
     \<and> sameSelection (mma_actual l) (mma_actual r) \<and> mma_reason l = mma_reason r"
| "sameOptionalModelAudit l r \<longleftrightarrow> l = r"

definition assertExecutionStartMatches ::
  "ExecutionStartEvent option \<Rightarrow> jstring \<Rightarrow> ExecutionModelBindingSummary \<Rightarrow> SessionExecutionOrigin
   \<Rightarrow> input_error + unit" where
  "assertExecutionStartMatches event executionId binding origin = (case event of
     None \<Rightarrow> Inr ()
   | Some e \<Rightarrow> guard (es_executionId e = executionId \<and> es_origin e = origin
       \<and> emb_modelRuntimeRevision (es_binding e) = emb_modelRuntimeRevision binding
       \<and> sameSelection (emb_selection (es_binding e)) (emb_selection binding)) (conflict StateConflict))"

definition validateAudit ::
  "PendingSessionMessage \<Rightarrow> MessageModelAudit \<Rightarrow> ExecutionModelBindingSummary \<Rightarrow> input_error + unit" where
  "validateAudit m audit binding =
     guard (sameRequestedSelection (pm_requestedModelSelection m) (mma_requested audit)
       \<and> sameSelection (mma_actual audit) (emb_selection binding))
       (SessionInputConflictError RevisionConflict (Some (pendingConflictProjection m)))"

record ResolvedSessionInputSnapshot =
  rs_pending :: PendingSessionMessage
  rs_modelAudit :: MessageModelAudit

definition same_revision :: "PendingSessionMessage \<Rightarrow> PendingSessionMessage \<Rightarrow> bool" where
  "same_revision m p \<longleftrightarrow> pm_revision m = pm_revision p \<and> pm_clientRequestId m = pm_clientRequestId p
     \<and> pm_content m = pm_content p \<and> pm_source m = pm_source p
     \<and> pm_targetExecutionId m = pm_targetExecutionId p \<and> pm_targetRunOrdinal m = pm_targetRunOrdinal p
     \<and> pm_claimedAt m = pm_claimedAt p
     \<and> sameOptionalModelAudit (pm_targetModelAudit m) (pm_targetModelAudit p)
     \<and> sameRequestedSelection (pm_requestedModelSelection m) (pm_requestedModelSelection p)"

definition validateResolvedSnapshot ::
  "PendingSessionMessage option \<Rightarrow> ResolvedSessionInputSnapshot \<Rightarrow> ExecutionModelBindingSummary
   \<Rightarrow> PendingMessageState \<Rightarrow> input_error + PendingSessionMessage" where
  "validateResolvedSnapshot current snapshot binding expectedState = (case current of
     None \<Rightarrow> Inl (conflict NotFound)
   | Some m \<Rightarrow>
       (if pm_id m \<noteq> pm_id (rs_pending snapshot)
        then Inl (SessionInputConflictError RevisionConflict (Some (pendingConflictProjection m)))
        else if pm_state m \<noteq> expectedState
        then Inl (SessionInputConflictError StateConflict (Some (pendingConflictProjection m)))
        else if \<not> same_revision m (rs_pending snapshot)
        then Inl (SessionInputConflictError RevisionConflict (Some (pendingConflictProjection m)))
        else bindE (validateAudit m (rs_modelAudit snapshot) binding) (\<lambda>_. Inr m)))"

section \<open>Messages\<close>

definition requireQueuedMessage :: "SessionInputState \<Rightarrow> jstring \<Rightarrow> int \<Rightarrow> input_error + PendingSessionMessage" where
  "requireQueuedMessage st messageId expectedRevision =
    (case find (\<lambda>m. pm_id m = messageId) (in_pending st) of
       None \<Rightarrow>
         (case List.map_filter (\<lambda>r. case r of MessageReceipt m \<Rightarrow> if ir_messageId m = messageId then Some m else None
              | CommandReceipt _ \<Rightarrow> None) (in_receipts st) of
            [] \<Rightarrow> Inl (conflict NotFound)
          | r # _ \<Rightarrow>
              (case ir_status r of
                 ReceiptPending \<Rightarrow> Inl (conflict CorruptReceipt)
               | ReceiptCanonical \<Rightarrow> bindE (canonicalConflictProjection (in_messages st) r) (\<lambda>projection.
                   Inl (SessionInputConflictError StateConflict (Some projection)))
               | ReceiptDeleted \<Rightarrow> Inl (SessionInputConflictError StateConflict (Some
                   \<lparr> cc_messageId = ir_messageId r, cc_clientRequestId = ir_clientRequestId r,
                     cc_status = ConflictDeleted, cc_revision = None, cc_content = None, cc_executionId = None \<rparr>))))
     | Some current \<Rightarrow>
         (if pm_revision current \<noteq> expectedRevision
          then Inl (SessionInputConflictError RevisionConflict (Some (pendingConflictProjection current)))
          else if pm_state current \<noteq> Queued
          then Inl (SessionInputConflictError StateConflict (Some (pendingConflictProjection current)))
          else Inr current))"

definition toCanonicalMessage ::
  "PendingSessionMessage \<Rightarrow> jstring \<Rightarrow> int \<Rightarrow> int \<Rightarrow> MessageModelAudit \<Rightarrow> bool \<Rightarrow> SessionMessage" where
  "toCanonicalMessage m executionId runOrdinal completedAt modelAudit includeClientRequestId =
     UserMessage \<lparr> um_id = pm_id m, um_createdAt = pm_acceptedAt m, um_completedAt = Some completedAt,
       um_executionId = Some executionId, um_runOrdinal = Some runOrdinal,
       um_clientRequestId = (if includeClientRequestId then Some (pm_clientRequestId m) else None),
       um_inputSource = Some (pm_source m), um_parentAgentProvenance = pm_parentAgentProvenance m,
       um_compacted = None,
       um_parts = UserText \<lparr> tx_id = pm_id m @ js '':text'', tx_text = pm_content m,
           tx_createdAt = pm_acceptedAt m, tx_completedAt = Some completedAt, tx_meta = None \<rparr>
         # map (\<lambda>a. UserAttachment \<lparr> ap_id = pm_id m @ js '':attachment:'' @ att_id a, ap_attachment = a,
             ap_createdAt = pm_acceptedAt m, ap_completedAt = Some completedAt \<rparr>) (pm_attachments m),
       um_modelAudit = Some modelAudit \<rparr>"

definition currentSteerAudit :: "PendingSessionMessage \<Rightarrow> input_error + MessageModelAudit" where
  "currentSteerAudit m = (case (pm_state m, pm_targetModelAudit m) of
     (Steering, Some audit) \<Rightarrow> Inr audit
   | _ \<Rightarrow> Inl (SessionInputConflictError StateConflict (Some (pendingConflictProjection m))))"

text \<open>A message just accepted: queued, at revision 0.\<close>

definition acceptedMessage ::
  "jstring \<Rightarrow> jstring \<Rightarrow> jstring \<Rightarrow> AttachmentDescriptor list \<Rightarrow> SessionMessageSource
   \<Rightarrow> ParentAgentMessageProvenance option \<Rightarrow> int \<Rightarrow> RequestedModelSelection \<Rightarrow> jstring list
   \<Rightarrow> PendingSessionMessage" where
  "acceptedMessage messageId requestId content attachments source provenance acceptedAt requested skills =
     \<lparr> pm_id = messageId, pm_clientRequestId = requestId, pm_content = content, pm_attachments = attachments,
       pm_source = source, pm_parentAgentProvenance = provenance, pm_state = Queued, pm_revision = 0,
       pm_acceptedAt = acceptedAt, pm_updatedAt = acceptedAt, pm_targetExecutionId = None,
       pm_targetRunOrdinal = None, pm_targetModelAudit = None, pm_claimedAt = None,
       pm_requestedModelSelection = requested, pm_executionSkillNames = skills \<rparr>"

section \<open>Updating the receipts\<close>

fun set_receipt_status :: "jstring set \<Rightarrow> MessageReceiptStatus \<Rightarrow> SessionInputReceipt \<Rightarrow> SessionInputReceipt" where
  "set_receipt_status ids status (MessageReceipt r) =
     MessageReceipt (if ir_messageId r \<in> ids then r\<lparr>ir_status := status\<rparr> else r)"
| "set_receipt_status ids status (CommandReceipt r) = CommandReceipt r"

fun receipt_message_id :: "SessionInputReceipt \<Rightarrow> jstring option" where
  "receipt_message_id (MessageReceipt r) = Some (ir_messageId r)"
| "receipt_message_id (CommandReceipt r) = None"

definition receipt_message_ids :: "SessionInputReceipt list \<Rightarrow> jstring list" where
  "receipt_message_ids receipts = List.map_filter receipt_message_id receipts"

text \<open>Every message of the list must have a receipt.\<close>

definition updateReceiptStatuses ::
  "SessionInputReceipt list \<Rightarrow> jstring list \<Rightarrow> MessageReceiptStatus \<Rightarrow> input_error + SessionInputReceipt list" where
  "updateReceiptStatuses receipts ids status =
    (if set ids \<subseteq> set (receipt_message_ids receipts)
     then Inr (map (set_receipt_status (set ids) status) receipts)
     else Inl (conflict CorruptReceipt))"

definition updateReceiptStatus ::
  "SessionInputReceipt list \<Rightarrow> jstring \<Rightarrow> MessageReceiptStatus \<Rightarrow> input_error + SessionInputReceipt list" where
  "updateReceiptStatus receipts messageId status = updateReceiptStatuses receipts [messageId] status"

definition find_receipt :: "SessionInputReceipt list \<Rightarrow> jstring \<Rightarrow> SessionInputReceipt option" where
  "find_receipt receipts requestId = find (\<lambda>r. receipt_request_id r = requestId) receipts"

definition requireExecutingCommandReceipt ::
  "SessionInputReceipt list \<Rightarrow> jstring \<Rightarrow> input_error + SessionCommandInputReceipt" where
  "requireExecutingCommandReceipt receipts requestId = (case find_receipt receipts requestId of
     Some (CommandReceipt r) \<Rightarrow>
       (if cr_status r \<noteq> CommandExecuting then Inl (conflict StateConflict) else Inr r)
   | _ \<Rightarrow> Inl (conflict CorruptReceipt))"

text \<open>The receipt that was found is replaced, the first of its request id.\<close>

fun replace_receipt :: "jstring \<Rightarrow> SessionInputReceipt \<Rightarrow> SessionInputReceipt list \<Rightarrow> SessionInputReceipt list" where
  "replace_receipt requestId r [] = []"
| "replace_receipt requestId r (x # xs) =
    (if receipt_request_id x = requestId then r # xs else x # replace_receipt requestId r xs)"

definition replaceExecutingCommandReceipt ::
  "SessionInputReceipt list \<Rightarrow> jstring \<Rightarrow> (SessionCommandInputReceipt \<Rightarrow> SessionCommandInputReceipt)
   \<Rightarrow> input_error + SessionInputReceipt list" where
  "replaceExecutingCommandReceipt receipts requestId update =
     bindE (requireExecutingCommandReceipt receipts requestId) (\<lambda>current.
       Inr (replace_receipt requestId (CommandReceipt (update current)) receipts))"

section \<open>Replays\<close>

record MessageAcceptance =
  ma_clientRequestId :: jstring
  ma_messageId :: jstring
  ma_status :: MessageReceiptStatus
  ma_message :: "PendingSessionMessage option"

datatype CommandRequestReplay =
    ReplayCommand jstring CommandReceiptStatus
  | ReplayMessage MessageAcceptance
  | ReplayError jstring CommandReceiptStatus jstring

datatype CommandRequestClaim = Claimed | Replayed CommandRequestReplay

definition acceptanceForMessageReceipt ::
  "PendingSessionMessage list \<Rightarrow> SessionMessageInputReceipt \<Rightarrow> input_error + MessageAcceptance" where
  "acceptanceForMessageReceipt queue r =
    (let pending = find (\<lambda>m. pm_id m = ir_messageId r) queue in
     if ir_status r = ReceiptPending \<and> pending = None then Inl (conflict CorruptReceipt)
     else Inr \<lparr> ma_clientRequestId = ir_clientRequestId r, ma_messageId = ir_messageId r,
       ma_status = ir_status r, ma_message = pending \<rparr>)"

fun replayForReceipt ::
  "PendingSessionMessage list \<Rightarrow> SessionInputReceipt \<Rightarrow> jstring \<Rightarrow> input_error + CommandRequestReplay" where
  "replayForReceipt queue (MessageReceipt r) requestFingerprint =
    (if ir_requestFingerprint r \<noteq> requestFingerprint then Inl (conflict IdempotencyConflict)
     else bindE (acceptanceForMessageReceipt queue r) (\<lambda>a. Inr (ReplayMessage a)))"
| "replayForReceipt queue (CommandReceipt r) requestFingerprint =
    (if cr_requestFingerprint r \<noteq> requestFingerprint then Inl (conflict IdempotencyConflict)
     else if cr_status r = CommandFailed \<or> cr_status r = CommandIndeterminate
     then Inr (ReplayError (cr_clientRequestId r) (cr_status r)
       (case cr_error r of None \<Rightarrow> js ''Command outcome is unavailable'' | Some e \<Rightarrow> e))
     else Inr (ReplayCommand (cr_clientRequestId r) (cr_status r)))"

section \<open>Fingerprints\<close>

fun source_name :: "SessionMessageSource \<Rightarrow> jstring" where
  "source_name SourceUser = js ''user''"
| "source_name SourceAutomation = js ''automation''"
| "source_name SourceParentAgent = js ''parent_agent''"

fun mode_name :: "ModelSelectionMode \<Rightarrow> jstring" where
  "mode_name ModeProfileDefault = js ''profile_default''"
| "mode_name ModeSessionOverride = js ''session_override''"

definition variant_text :: "ModelSelectionRef \<Rightarrow> jstring" where
  "variant_text s = (case msr_variant s of None \<Rightarrow> [] | Some v \<Rightarrow> v)"

text \<open>What is hashed: the bytes of each field, each followed by a zero byte.\<close>

definition terminated_bytes :: "jstring list \<Rightarrow> 8 word list" where
  "terminated_bytes texts = concat (map (\<lambda>text. utf8_bytes text @ [0]) texts)"

definition input_preimage ::
  "SessionMessageSource \<Rightarrow> jstring \<Rightarrow> jstring list \<Rightarrow> RequestedModelSelection \<Rightarrow> 8 word list" where
  "input_preimage source content attachmentIds requested =
     terminated_bytes ([source_name source, content, mode_name (rms_mode requested),
       msr_model (rms_selection requested), variant_text (rms_selection requested)] @ attachmentIds)"

definition sessionInputFingerprint ::
  "(8 word list \<Rightarrow> jstring) \<Rightarrow> SessionMessageSource \<Rightarrow> jstring \<Rightarrow> jstring list \<Rightarrow> RequestedModelSelection \<Rightarrow> jstring" where
  "sessionInputFingerprint sha256 source content attachmentIds requested =
     sha256 (input_preimage source content attachmentIds requested)"

text \<open>The other fingerprints hash fields separated by zero bytes.\<close>

fun separated_bytes :: "jstring list \<Rightarrow> 8 word list" where
  "separated_bytes [] = []"
| "separated_bytes [text] = utf8_bytes text"
| "separated_bytes (text # texts) = utf8_bytes text @ 0 # separated_bytes texts"

datatype ParentDelivery = DeliverSteer | DeliverQueue

fun delivery_name :: "ParentDelivery \<Rightarrow> jstring" where
  "delivery_name DeliverSteer = js ''steer''"
| "delivery_name DeliverQueue = js ''queue''"

definition parentAgentMessageFingerprint ::
  "(8 word list \<Rightarrow> jstring) \<Rightarrow> jstring \<Rightarrow> jstring \<Rightarrow> ParentDelivery \<Rightarrow> ParentAgentMessageProvenance
   \<Rightarrow> RequestedModelSelection \<Rightarrow> jstring" where
  "parentAgentMessageFingerprint sha256 content expectedExecutionId delivery p requested =
     sha256 (separated_bytes [js ''parent-agent-message'',
       sessionInputFingerprint sha256 SourceParentAgent content [] requested,
       expectedExecutionId, delivery_name delivery, pap_senderSessionId p, pap_senderAgentName p,
       pap_senderExecutionId p, decimal (pap_senderRunOrdinal p), pap_senderToolBatchId p,
       pap_senderToolCallId p])"

definition parentAgentResumeFingerprint ::
  "(8 word list \<Rightarrow> jstring) \<Rightarrow> jstring \<Rightarrow> jstring \<Rightarrow> ParentAgentMessageProvenance \<Rightarrow> RequestedModelSelection \<Rightarrow> jstring" where
  "parentAgentResumeFingerprint sha256 instruction executionId p requested =
     sha256 (separated_bytes [js ''parent-agent-resume'',
       sessionInputFingerprint sha256 SourceParentAgent instruction [] requested,
       executionId, pap_senderSessionId p, pap_senderExecutionId p, pap_senderToolBatchId p,
       pap_senderToolCallId p])"

definition skillCommandInputFingerprint ::
  "(8 word list \<Rightarrow> jstring) \<Rightarrow> SessionMessageSource \<Rightarrow> jstring \<Rightarrow> jstring \<Rightarrow> RequestedModelSelection \<Rightarrow> jstring" where
  "skillCommandInputFingerprint sha256 source skillName skillContent requested =
     sha256 (separated_bytes [js ''skill-command'',
       sessionInputFingerprint sha256 source skillContent [] requested, skillName, skillContent])"

end
