(* ===== verification/SessionInputService.thy ===== *)
theory SessionInputService
  imports SessionInputState
begin

text \<open>
  The operations of the input service (packages/agent-core/src/session-input/service.ts and
  model-selection-service.ts). The callback of each durable mutation is a function from the state to
  a result and an \<open>InputMutation\<close>: the two patched fields and the events. \<open>commitInput\<close> is what the
  store manager does with it; \<open>serveInputs\<close> runs a list of requests, a refused one changing nothing.
\<close>

section \<open>Mutations\<close>

record InputMutation =
  im_receipts :: "SessionInputReceipt list option"
  im_barrier :: "int option option"
  im_events :: "StreamEvent list"

abbreviation no_mutation :: InputMutation where
  "no_mutation \<equiv> \<lparr> im_receipts = None, im_barrier = None, im_events = [] \<rparr>"

abbreviation events_only :: "StreamEvent list \<Rightarrow> InputMutation" where
  "events_only es \<equiv> \<lparr> im_receipts = None, im_barrier = None, im_events = es \<rparr>"

abbreviation with_receipts :: "SessionInputReceipt list \<Rightarrow> StreamEvent list \<Rightarrow> InputMutation" where
  "with_receipts rs es \<equiv> \<lparr> im_receipts = Some rs, im_barrier = None, im_events = es \<rparr>"

type_synonym 'a input_mutation = "input_error + 'a \<times> InputMutation"

definition input_changes :: "SessionInputState \<Rightarrow> InputMutation \<Rightarrow> bool" where
  "input_changes st m \<longleftrightarrow> im_receipts m \<noteq> None
     \<or> (im_barrier m \<noteq> None \<and> im_barrier m \<noteq> Some (in_queueDispatchBarrierAt st)) \<or> im_events m \<noteq> []"

definition commitInput ::
  "collation \<Rightarrow> int \<Rightarrow> (nat \<Rightarrow> int \<times> ReduceContext) \<Rightarrow> SessionInputState \<Rightarrow> InputMutation
   \<Rightarrow> store_error + SessionInputState" where
  "commitInput lc now clock st m =
    (if \<not> input_changes st m then Inr st
     else bindE (applyMutation lc (in_store st) no_patch
         (map (\<lambda>(i, e). (StreamPayload e, clock i)) (List.enumerate 0 (im_events m)))) (\<lambda>store'.
       Inr \<lparr> in_store = store',
         in_receipts = (case im_receipts m of None \<Rightarrow> in_receipts st | Some rs \<Rightarrow> rs),
         in_queueDispatchBarrierAt = (case im_barrier m of None \<Rightarrow> in_queueDispatchBarrierAt st | Some b \<Rightarrow> b),
         in_updatedAt = max now (in_updatedAt st + 1) \<rparr>))"

section \<open>Reading\<close>

definition getPendingMessages :: "SessionInputState \<Rightarrow> PendingSessionMessage list" where
  "getPendingMessages st = in_pending st"

definition hasDurableMessage :: "SessionInputState \<Rightarrow> jstring \<Rightarrow> input_error + bool" where
  "hasDurableMessage st requestId = bindE (assertNonEmpty requestId) (\<lambda>_.
     Inr (\<exists>r \<in> set (in_receipts st). (case r of
       MessageReceipt m \<Rightarrow> ir_clientRequestId m = requestId \<and> ir_status m \<noteq> ReceiptDeleted
     | CommandReceipt _ \<Rightarrow> False)))"

text \<open>A known request is answered from its receipt, when its fingerprint is the recorded one.\<close>

fun replayAcceptance ::
  "SessionInputState \<Rightarrow> SessionInputReceipt \<Rightarrow> jstring \<Rightarrow> input_error + MessageAcceptance" where
  "replayAcceptance st (MessageReceipt r) requestFingerprint =
    (if ir_requestFingerprint r \<noteq> requestFingerprint then Inl (conflict IdempotencyConflict)
     else acceptanceForMessageReceipt (in_pending st) r)"
| "replayAcceptance st (CommandReceipt r) requestFingerprint = Inl (conflict IdempotencyConflict)"

definition replayed :: "input_error + 'a \<Rightarrow> 'a input_mutation" where
  "replayed r = bindE r (\<lambda>a. Inr (a, no_mutation))"

record ParentAgentMessageInput =
  pi_content :: jstring
  pi_clientRequestId :: jstring
  pi_expectedExecutionId :: jstring
  pi_delivery :: ParentDelivery
  pi_provenance :: ParentAgentMessageProvenance

definition checkParentAgentMessage :: "ParentAgentMessageInput \<Rightarrow> input_error + unit" where
  "checkParentAgentMessage input =
     bindE (assertMessageContent (pi_content input) False) (\<lambda>_.
     bindE (assertNonEmpty (pi_clientRequestId input)) (\<lambda>_.
     bindE (assertNonEmpty (pi_expectedExecutionId input)) (\<lambda>_.
     validateParentAgentProvenance (pi_provenance input))))"

definition parentFingerprint :: "InputEnvironment \<Rightarrow> ParentAgentMessageInput \<Rightarrow> RequestedModelSelection \<Rightarrow> jstring" where
  "parentFingerprint env input requested = parentAgentMessageFingerprint (ie_sha256 env) (pi_content input)
     (pi_expectedExecutionId input) (pi_delivery input) (pi_provenance input) requested"

fun receipt_requested :: "SessionInputReceipt \<Rightarrow> RequestedModelSelection" where
  "receipt_requested (MessageReceipt r) = ir_requestedModelSelection r"
| "receipt_requested (CommandReceipt r) = cr_requestedModelSelection r"

definition getParentAgentMessageReplay ::
  "InputEnvironment \<Rightarrow> SessionInputState \<Rightarrow> ParentAgentMessageInput \<Rightarrow> input_error + MessageAcceptance option" where
  "getParentAgentMessageReplay env st input = bindE (checkParentAgentMessage input) (\<lambda>_.
     case find_receipt (in_receipts st) (pi_clientRequestId input) of
       None \<Rightarrow> Inr None
     | Some receipt \<Rightarrow> bindE (replayAcceptance st receipt
           (parentFingerprint env input (receipt_requested receipt))) (\<lambda>a. Inr (Some a)))"

record CommandInput =
  ci_content :: jstring
  ci_clientRequestId :: jstring
  ci_source :: SessionMessageSource
  ci_requested :: RequestedModelSelection

record SkillCommandInput =
  si_content :: jstring
  si_clientRequestId :: jstring
  si_source :: SessionMessageSource
  si_requested :: RequestedModelSelection
  si_skillName :: jstring
  si_skillContent :: jstring

definition commandFingerprint :: "InputEnvironment \<Rightarrow> CommandInput \<Rightarrow> jstring" where
  "commandFingerprint env input =
     sessionInputFingerprint (ie_sha256 env) (ci_source input) (ci_content input) [] (ci_requested input)"

definition getCommandReplay ::
  "InputEnvironment \<Rightarrow> SessionInputState \<Rightarrow> CommandInput \<Rightarrow> input_error + CommandRequestReplay option" where
  "getCommandReplay env st input =
     bindE (assertNonEmpty (ci_content input)) (\<lambda>_.
     bindE (assertNonEmpty (ci_clientRequestId input)) (\<lambda>_.
     case find_receipt (in_receipts st) (ci_clientRequestId input) of
       None \<Rightarrow> Inr None
     | Some receipt \<Rightarrow> bindE (replayForReceipt (in_pending st) receipt (commandFingerprint env input)) (\<lambda>r.
         Inr (Some r))))"

definition validateNormalizedSkillCommandInput :: "SkillCommandInput \<Rightarrow> input_error + unit" where
  "validateNormalizedSkillCommandInput input =
     bindE (assertNonEmpty (si_content input)) (\<lambda>_.
     bindE (assertNonEmpty (si_clientRequestId input)) (\<lambda>_.
     bindE (assertNonEmpty (si_skillName input)) (\<lambda>_.
     assertNonEmpty (si_skillContent input))))"

definition skillFingerprint :: "InputEnvironment \<Rightarrow> SkillCommandInput \<Rightarrow> jstring" where
  "skillFingerprint env input = skillCommandInputFingerprint (ie_sha256 env) (si_source input)
     (si_skillName input) (si_skillContent input) (si_requested input)"

definition getSkillCommandReplay ::
  "InputEnvironment \<Rightarrow> SessionInputState \<Rightarrow> SkillCommandInput \<Rightarrow> input_error + CommandRequestReplay option" where
  "getSkillCommandReplay env st input = bindE (validateNormalizedSkillCommandInput input) (\<lambda>_.
     case find_receipt (in_receipts st) (si_clientRequestId input) of
       None \<Rightarrow> Inr None
     | Some (CommandReceipt r) \<Rightarrow>
         bindE (replayForReceipt (in_pending st) (CommandReceipt r)
           (sessionInputFingerprint (ie_sha256 env) (si_source input) (si_content input) []
             (si_requested input))) (\<lambda>replay. Inr (Some replay))
     | Some (MessageReceipt r) \<Rightarrow>
         bindE (replayAcceptance st (MessageReceipt r) (skillFingerprint env input)) (\<lambda>a.
           Inr (Some (ReplayMessage a))))"

section \<open>Accepting messages\<close>

definition messageReceipt ::
  "jstring \<Rightarrow> jstring \<Rightarrow> jstring \<Rightarrow> MessageReceiptStatus \<Rightarrow> RequestedModelSelection \<Rightarrow> SessionInputReceipt" where
  "messageReceipt requestId messageId requestFingerprint status requested =
     MessageReceipt \<lparr> ir_clientRequestId = requestId, ir_messageId = messageId,
       ir_requestFingerprint = requestFingerprint, ir_status = status,
       ir_requestedModelSelection = requested \<rparr>"

definition acceptedResult :: "PendingSessionMessage \<Rightarrow> MessageAcceptance" where
  "acceptedResult m = \<lparr> ma_clientRequestId = pm_clientRequestId m, ma_messageId = pm_id m,
     ma_status = ReceiptPending, ma_message = Some m \<rparr>"

definition fresh_time :: "InputEnvironment \<Rightarrow> SessionInputState \<Rightarrow> int" where
  "fresh_time env st = nextSessionTimestamp st (ie_now env)"

text \<open>Some queued message activates another Skill.\<close>

definition skill_conflict :: "PendingSessionMessage list \<Rightarrow> jstring \<Rightarrow> bool" where
  "skill_conflict queue skillName \<longleftrightarrow> (\<exists>m \<in> set queue. (case pm_executionSkillNames m of
     [] \<Rightarrow> False | pendingSkill # _ \<Rightarrow> pendingSkill \<noteq> skillName))"

definition skillNotice :: "jstring \<Rightarrow> jstring" where
  "skillNotice skillName = js ''Activating skill \"'' @ skillName @ js ''\"...''"

definition acceptSkillCommandMessage ::
  "InputEnvironment \<Rightarrow> SkillCommandInput \<Rightarrow> SessionInputState \<Rightarrow> MessageAcceptance input_mutation" where
  "acceptSkillCommandMessage env input st =
     bindE (validateNormalizedSkillCommandInput input) (\<lambda>_.
     bindE (assertRootSession st) (\<lambda>_.
     case find_receipt (in_receipts st) (si_clientRequestId input) of
       Some existing \<Rightarrow> replayed (replayAcceptance st existing (skillFingerprint env input))
     | None \<Rightarrow>
         bindE (guard (\<not> skill_conflict (in_pending st) (si_skillName input)) (conflict StateConflict)) (\<lambda>_.
         bindE (assertMessageIdentityAvailable st (ie_newId env)) (\<lambda>_.
         let m = acceptedMessage (ie_newId env) (si_clientRequestId input) (si_skillContent input) []
               (si_source input) None (fresh_time env st) (si_requested input) [si_skillName input] in
         Inr (acceptedResult m, with_receipts (in_receipts st @ [messageReceipt (si_clientRequestId input)
             (ie_newId env) (skillFingerprint env input) ReceiptPending (si_requested input)])
           [SystemNotice (skillNotice (si_skillName input)), MessageAccepted m])))))"

record AcceptMessageInput =
  ai_content :: jstring
  ai_attachmentIds :: "jstring list"
  ai_clientRequestId :: jstring
  ai_source :: SessionMessageSource
  ai_messageId :: "jstring option"
  ai_requested :: RequestedModelSelection

definition acceptFingerprint :: "InputEnvironment \<Rightarrow> AcceptMessageInput \<Rightarrow> jstring" where
  "acceptFingerprint env input = sessionInputFingerprint (ie_sha256 env) (ai_source input)
     (ai_content input) (ai_attachmentIds input) (ai_requested input)"

definition checkAcceptMessage :: "AcceptMessageInput \<Rightarrow> input_error + unit" where
  "checkAcceptMessage input =
     bindE (assertAttachmentIds (ai_attachmentIds input)) (\<lambda>_.
     bindE (assertMessageContent (ai_content input) (ai_attachmentIds input \<noteq> [])) (\<lambda>_.
     assertNonEmpty (ai_clientRequestId input)))"

definition new_message_id :: "InputEnvironment \<Rightarrow> jstring option \<Rightarrow> jstring" where
  "new_message_id env given = (case given of None \<Rightarrow> ie_newId env | Some i \<Rightarrow> i)"

text \<open>The two mutations of \<open>acceptMessage\<close>: the replay, and the commit once the attachments are resolved.\<close>

definition acceptMessageReplay ::
  "InputEnvironment \<Rightarrow> AcceptMessageInput \<Rightarrow> SessionInputState \<Rightarrow> input_error + MessageAcceptance option" where
  "acceptMessageReplay env input st = bindE (assertRootSession st) (\<lambda>_.
     case find_receipt (in_receipts st) (ai_clientRequestId input) of
       None \<Rightarrow> Inr None
     | Some existing \<Rightarrow> bindE (replayAcceptance st existing (acceptFingerprint env input)) (\<lambda>a. Inr (Some a)))"

definition acceptMessageCommit ::
  "InputEnvironment \<Rightarrow> AcceptMessageInput \<Rightarrow> AttachmentDescriptor list \<Rightarrow> SessionInputState
   \<Rightarrow> MessageAcceptance input_mutation" where
  "acceptMessageCommit env input attachments st =
     bindE (assertRootSession st) (\<lambda>_.
     case find_receipt (in_receipts st) (ai_clientRequestId input) of
       Some existing \<Rightarrow> replayed (replayAcceptance st existing (acceptFingerprint env input))
     | None \<Rightarrow>
         let messageId = new_message_id env (ai_messageId input) in
         bindE (assertMessageIdentityAvailable st messageId) (\<lambda>_.
         let m = acceptedMessage messageId (ai_clientRequestId input) (ai_content input) attachments
               (ai_source input) None (fresh_time env st) (ai_requested input) [] in
         Inr (acceptedResult m, with_receipts (in_receipts st @ [messageReceipt (ai_clientRequestId input)
             messageId (acceptFingerprint env input) ReceiptPending (ai_requested input)])
           [MessageAccepted m])))"

text \<open>The state may change between the two, while the attachments are resolved.\<close>

definition acceptMessage ::
  "InputEnvironment \<Rightarrow> (jstring list \<Rightarrow> AttachmentDescriptor list) \<Rightarrow> AcceptMessageInput
   \<Rightarrow> SessionInputState \<Rightarrow> SessionInputState \<Rightarrow> MessageAcceptance input_mutation" where
  "acceptMessage env resolveDescriptors input before st =
     bindE (checkAcceptMessage input) (\<lambda>_.
     bindE (acceptMessageReplay env input before) (\<lambda>replay.
     case replay of
       Some acceptance \<Rightarrow> Inr (acceptance, no_mutation)
     | None \<Rightarrow>
         bindE (copyAndValidateResolvedAttachments (ai_attachmentIds input)
           (resolveDescriptors (ai_attachmentIds input))) (\<lambda>attachments.
         acceptMessageCommit env input attachments st)))"

definition acceptParentAgentMessage ::
  "InputEnvironment \<Rightarrow> ParentAgentMessageInput \<Rightarrow> RequestedModelSelection \<Rightarrow> bool \<Rightarrow> SessionInputState
   \<Rightarrow> MessageAcceptance input_mutation" where
  "acceptParentAgentMessage env input requested aborted st =
     bindE (checkParentAgentMessage input) (\<lambda>_.
     bindE (guard (\<not> aborted) AbortedSignal) (\<lambda>_.
     bindE (guard (parentSessionId (in_shared st) = Some (pap_senderSessionId (pi_provenance input)))
       (conflict NotRoot)) (\<lambda>_.
     case find_receipt (in_receipts st) (pi_clientRequestId input) of
       Some existing \<Rightarrow> replayed (replayAcceptance st existing (parentFingerprint env input requested))
     | None \<Rightarrow>
         bindE (assertMessageIdentityAvailable st (ie_newId env)) (\<lambda>_.
         let m = acceptedMessage (ie_newId env) (pi_clientRequestId input) (pi_content input) []
               SourceParentAgent (Some (pi_provenance input)) (fresh_time env st) requested [] in
         Inr (acceptedResult m, with_receipts (in_receipts st @ [messageReceipt (pi_clientRequestId input)
             (ie_newId env) (parentFingerprint env input requested) ReceiptPending requested])
           [MessageAccepted m])))))"

section \<open>Commands\<close>

definition recordQueueDispatchBarrier :: "int \<Rightarrow> SessionInputState \<Rightarrow> unit input_mutation" where
  "recordQueueDispatchBarrier timestamp st = Inr ((), \<lparr> im_receipts = None,
     im_barrier = Some (Some (max (opt_time (in_queueDispatchBarrierAt st)) timestamp)), im_events = [] \<rparr>)"

definition claimCommand ::
  "InputEnvironment \<Rightarrow> CommandInput \<Rightarrow> SessionInputState \<Rightarrow> CommandRequestClaim input_mutation" where
  "claimCommand env input st =
     bindE (assertNonEmpty (ci_content input)) (\<lambda>_.
     bindE (assertNonEmpty (ci_clientRequestId input)) (\<lambda>_.
     bindE (assertRootSession st) (\<lambda>_.
     case find_receipt (in_receipts st) (ci_clientRequestId input) of
       Some existing \<Rightarrow> replayed (bindE (replayForReceipt (in_pending st) existing
           (commandFingerprint env input)) (\<lambda>r. Inr (Replayed r)))
     | None \<Rightarrow> Inr (Claimed, with_receipts (in_receipts st @ [CommandReceipt
           \<lparr> cr_clientRequestId = ci_clientRequestId input, cr_requestFingerprint = commandFingerprint env input,
             cr_status = CommandExecuting, cr_error = None,
             cr_requestedModelSelection = ci_requested input \<rparr>]) []))))"

definition completeCommand :: "jstring \<Rightarrow> SessionInputState \<Rightarrow> unit input_mutation" where
  "completeCommand requestId st =
     bindE (assertRootSession st) (\<lambda>_.
     bindE (replaceExecutingCommandReceipt (in_receipts st) requestId
       (\<lambda>r. r\<lparr>cr_status := CommandCompleted\<rparr>)) (\<lambda>receipts.
     Inr ((), with_receipts receipts [])))"

definition failCommand :: "jstring \<Rightarrow> jstring \<Rightarrow> SessionInputState \<Rightarrow> unit input_mutation" where
  "failCommand requestId message st =
     bindE (assertNonEmpty message) (\<lambda>_.
     bindE (assertRootSession st) (\<lambda>_.
     bindE (replaceExecutingCommandReceipt (in_receipts st) requestId
       (\<lambda>r. r\<lparr>cr_status := CommandFailed, cr_error := Some message\<rparr>)) (\<lambda>receipts.
     Inr ((), with_receipts receipts []))))"

record CompleteAsMessageInput =
  xi_clientRequestId :: jstring
  xi_content :: jstring
  xi_source :: SessionMessageSource
  xi_requested :: RequestedModelSelection
  xi_executionSkillNames :: "jstring list"
  xi_messageId :: "jstring option"

definition checkCompleteAsMessage :: "CompleteAsMessageInput \<Rightarrow> input_error + unit" where
  "checkCompleteAsMessage input =
     bindE (assertNonEmpty (xi_content input)) (\<lambda>_.
     bindE (guard (distinct (xi_executionSkillNames input) \<and> length (xi_executionSkillNames input) \<le> 1)
       (conflict StateConflict)) (\<lambda>_.
     guard (\<forall>name \<in> set (xi_executionSkillNames input). trim name \<noteq> []) InputTypeError))"

definition completeCommandAsMessage ::
  "InputEnvironment \<Rightarrow> CompleteAsMessageInput \<Rightarrow> SessionInputState \<Rightarrow> MessageAcceptance input_mutation" where
  "completeCommandAsMessage env input st =
     bindE (checkCompleteAsMessage input) (\<lambda>_.
     bindE (assertRootSession st) (\<lambda>_.
     bindE (requireExecutingCommandReceipt (in_receipts st) (xi_clientRequestId input)) (\<lambda>command.
     bindE (guard (sameRequestedSelection (cr_requestedModelSelection command) (xi_requested input))
       (conflict IdempotencyConflict)) (\<lambda>_.
     bindE (guard (\<not> (\<exists>skill \<in> set (xi_executionSkillNames input). skill_conflict (in_pending st) skill))
       (conflict StateConflict)) (\<lambda>_.
     let messageId = new_message_id env (xi_messageId input) in
     bindE (assertMessageIdentityAvailable st messageId) (\<lambda>_.
     let m = acceptedMessage messageId (xi_clientRequestId input) (xi_content input) [] (xi_source input) None
           (fresh_time env st) (xi_requested input) (xi_executionSkillNames input);
         receipt = messageReceipt (xi_clientRequestId input) messageId (cr_requestFingerprint command)
           ReceiptPending (xi_requested input) in
     Inr (acceptedResult m, with_receipts
       (map (\<lambda>r. if receipt_request_id r = xi_clientRequestId input then receipt else r) (in_receipts st))
       [MessageAccepted m])))))))"

section \<open>Editing, deleting and steering\<close>

definition editMessage ::
  "InputEnvironment \<Rightarrow> jstring \<Rightarrow> int \<Rightarrow> jstring \<Rightarrow> SessionInputState \<Rightarrow> PendingSessionMessage input_mutation" where
  "editMessage env messageId expectedRevision content st =
     bindE (assertRootSession st) (\<lambda>_.
     bindE (requireQueuedMessage st messageId expectedRevision) (\<lambda>current.
     bindE (guard (\<not> (trim content = [] \<and> pm_attachments current = []))
       (SessionInputConflictError StateConflict (Some (pendingConflictProjection current)))) (\<lambda>_.
     let m = current\<lparr>pm_content := content, pm_revision := pm_revision current + 1,
           pm_updatedAt := fresh_time env st\<rparr> in
     Inr (m, events_only [MessageEdited m]))))"

text \<open>The result is the deleted revision and the time.\<close>

definition deleteMessage ::
  "InputEnvironment \<Rightarrow> jstring \<Rightarrow> int \<Rightarrow> SessionInputState \<Rightarrow> (jstring \<times> jstring \<times> int \<times> int) input_mutation" where
  "deleteMessage env messageId expectedRevision st =
     bindE (assertRootSession st) (\<lambda>_.
     bindE (requireQueuedMessage st messageId expectedRevision) (\<lambda>current.
     let deletedAt = fresh_time env st; revision = pm_revision current + 1 in
     bindE (updateReceiptStatus (in_receipts st) (pm_id current) ReceiptDeleted) (\<lambda>receipts.
     Inr ((pm_id current, pm_clientRequestId current, revision, deletedAt),
       with_receipts receipts [MessageDeleted (pm_id current) (pm_clientRequestId current) revision deletedAt]))))"

record ClaimSteerInput =
  ti_messageId :: jstring
  ti_expectedRevision :: int
  ti_expectedExecutionId :: jstring
  ti_runOrdinal :: int
  ti_modelAudit :: MessageModelAudit
  ti_claimedAt :: "int option"

definition claimSteer ::
  "InputEnvironment \<Rightarrow> ClaimSteerInput \<Rightarrow> SessionInputState \<Rightarrow> PendingSessionMessage input_mutation" where
  "claimSteer env input st =
     bindE (assertNonEmpty (ti_expectedExecutionId input)) (\<lambda>_.
     bindE (requireQueuedMessage st (ti_messageId input) (ti_expectedRevision input)) (\<lambda>current.
     let m = current\<lparr>pm_state := Steering, pm_revision := pm_revision current + 1,
           pm_updatedAt := fresh_time env st, pm_targetExecutionId := Some (ti_expectedExecutionId input),
           pm_targetRunOrdinal := Some (ti_runOrdinal input), pm_targetModelAudit := Some (ti_modelAudit input),
           pm_claimedAt := Some (case ti_claimedAt input of None \<Rightarrow> ie_nowAgain env | Some t \<Rightarrow> t)\<rparr> in
     Inr (m, events_only [MessageSteerClaimed m])))"

definition release_steer :: "int \<Rightarrow> PendingSessionMessage \<Rightarrow> PendingSessionMessage" where
  "release_steer timestamp m = m\<lparr>pm_state := Queued, pm_revision := pm_revision m + 1, pm_updatedAt := timestamp,
     pm_targetExecutionId := None, pm_targetRunOrdinal := None, pm_targetModelAudit := None,
     pm_claimedAt := None\<rparr>"

definition rollback_match :: "jstring option \<Rightarrow> jstring list option \<Rightarrow> PendingSessionMessage \<Rightarrow> bool" where
  "rollback_match executionId messageIds m \<longleftrightarrow> pm_state m = Steering
     \<and> (executionId = None \<or> pm_targetExecutionId m = executionId)
     \<and> (case messageIds of None \<Rightarrow> True | Some ids \<Rightarrow> pm_id m \<in> set ids)"

definition rollbackSteers ::
  "InputEnvironment \<Rightarrow> jstring option \<Rightarrow> jstring list option \<Rightarrow> SessionInputState
   \<Rightarrow> PendingSessionMessage list input_mutation" where
  "rollbackSteers env executionId messageIds st =
    (let ms = map (\<lambda>(i, m). release_steer (fresh_time env st + int i) m)
       (List.enumerate 0 (filter (rollback_match executionId messageIds) (in_pending st))) in
     Inr (ms, events_only (map MessageSteerRolledBack ms)))"

end
