(* ===== verification/SessionInputDelivery.thy ===== *)
theory SessionInputDelivery
  imports SessionInputService
begin

text \<open>
  The operations of the input service that hand queued messages to an Execution, the union of all
  mutating requests with the run of a list of them, and the checks the Session file loader makes of
  the messages and receipts against each other (packages/agent-core/src/store/helpers.ts; its checks
  of each of them alone are in \<open>SessionFileChecks\<close>).
\<close>

section \<open>Delivering\<close>

definition queued_messages :: "SessionInputState \<Rightarrow> PendingSessionMessage list" where
  "queued_messages st = filter (\<lambda>m. pm_state m = Queued) (in_pending st)"

text \<open>The snapshots must match the queue from its head, one by one.\<close>

fun resolveQueuePrefix ::
  "PendingSessionMessage list \<Rightarrow> ResolvedSessionInputSnapshot list \<Rightarrow> ExecutionModelBindingSummary
   \<Rightarrow> input_error + PendingSessionMessage list" where
  "resolveQueuePrefix queued [] binding = Inr []"
| "resolveQueuePrefix queued (snapshot # rest) binding =
     bindE (validateResolvedSnapshot (if queued = [] then None else Some (hd queued)) snapshot binding Queued)
       (\<lambda>current. bindE (resolveQueuePrefix (tl queued) rest binding) (\<lambda>ms. Inr (current # ms)))"

definition canonical_messages ::
  "jstring \<Rightarrow> int \<Rightarrow> int \<Rightarrow> PendingSessionMessage list \<Rightarrow> MessageModelAudit list \<Rightarrow> SessionMessage list" where
  "canonical_messages executionId runOrdinal committedAt ms audits =
     map (\<lambda>(m, audit). toCanonicalMessage m executionId runOrdinal committedAt audit True) (zip ms audits)"

record BeginQueueInput =
  bq_executionId :: jstring
  bq_runOrdinal :: int
  bq_snapshots :: "ResolvedSessionInputSnapshot list"
  bq_binding :: ExecutionModelBindingSummary
  bq_origin :: SessionExecutionOrigin
  bq_executionStart :: "ExecutionStartEvent option"
  bq_aborted :: bool

definition start_events :: "ExecutionStartEvent option \<Rightarrow> StreamEvent list" where
  "start_events e = (case e of None \<Rightarrow> [] | Some start \<Rightarrow> [Lifecycle (ExecutionStart start)])"

definition beginQueueExecution ::
  "InputEnvironment \<Rightarrow> BeginQueueInput \<Rightarrow> SessionInputState
   \<Rightarrow> (PendingSessionMessage list \<times> SessionMessage list) input_mutation" where
  "beginQueueExecution env input st =
     bindE (assertNonEmpty (bq_executionId input)) (\<lambda>_.
     bindE (guard (\<not> bq_aborted input) AbortedSignal) (\<lambda>_.
     bindE (guard (bq_snapshots input \<noteq> []) (conflict EmptyQueue)) (\<lambda>_.
     bindE (guard (parentSessionId (in_shared st) = None \<or> bq_executionStart input \<noteq> None)
       (conflict StateConflict)) (\<lambda>_.
     bindE (assertExecutionStartMatches (bq_executionStart input) (bq_executionId input) (bq_binding input)
       (bq_origin input)) (\<lambda>_.
     bindE (resolveQueuePrefix (queued_messages st) (bq_snapshots input) (bq_binding input)) (\<lambda>pending.
     let committed = canonical_messages (bq_executionId input) (bq_runOrdinal input) (fresh_time env st)
           pending (map rs_modelAudit (bq_snapshots input)) in
     bindE (updateReceiptStatuses (in_receipts st) (map pm_id pending) ReceiptCanonical) (\<lambda>receipts.
     Inr ((pending, committed), \<lparr> im_receipts = Some receipts, im_barrier = Some None,
       im_events = start_events (bq_executionStart input)
         @ [MessagesCommitted (bq_executionId input) committed] \<rparr>))))))))"

record BeginResumeInput =
  br_executionId :: jstring
  br_runOrdinal :: int
  br_snapshots :: "ResolvedSessionInputSnapshot list"
  br_binding :: ExecutionModelBindingSummary
  br_instruction :: jstring
  br_clientRequestId :: jstring
  br_provenance :: ParentAgentMessageProvenance
  br_requested :: RequestedModelSelection
  br_modelAudit :: MessageModelAudit
  br_executionStart :: ExecutionStartEvent
  br_aborted :: bool

definition checkResume :: "BeginResumeInput \<Rightarrow> input_error + unit" where
  "checkResume input =
     bindE (assertNonEmpty (br_executionId input)) (\<lambda>_.
     bindE (assertNonEmpty (br_clientRequestId input)) (\<lambda>_.
     bindE (assertMessageContent (br_instruction input) False) (\<lambda>_.
     bindE (validateParentAgentProvenance (br_provenance input)) (\<lambda>_.
     assertExecutionStartMatches (Some (br_executionStart input)) (br_executionId input) (br_binding input)
       OriginToolCall))))"

definition beginChildResumeExecution ::
  "InputEnvironment \<Rightarrow> BeginResumeInput \<Rightarrow> SessionInputState
   \<Rightarrow> (PendingSessionMessage list \<times> SessionMessage list) input_mutation" where
  "beginChildResumeExecution env input st =
     bindE (checkResume input) (\<lambda>_.
     bindE (guard (\<not> br_aborted input) AbortedSignal) (\<lambda>_.
     bindE (guard (parentSessionId (in_shared st) = Some (pap_senderSessionId (br_provenance input)))
       (conflict NotRoot)) (\<lambda>_.
     bindE (guard (br_clientRequestId input \<notin> receipt_request_id ` set (in_receipts st))
       (conflict IdempotencyConflict)) (\<lambda>_.
     bindE (resolveQueuePrefix (queued_messages st) (br_snapshots input) (br_binding input)) (\<lambda>pending.
     bindE (assertMessageIdentityAvailable st (ie_newId env)) (\<lambda>_.
     let acceptedAt = fresh_time env st;
         instruction = acceptedMessage (ie_newId env) (br_clientRequestId input) (br_instruction input) []
           SourceParentAgent (Some (br_provenance input)) acceptedAt (br_requested input) [] in
     bindE (validateAudit instruction (br_modelAudit input) (br_binding input)) (\<lambda>_.
     let committedAt = max acceptedAt (nextSessionTimestamp st (ie_nowAgain env));
         committed = canonical_messages (br_executionId input) (br_runOrdinal input) committedAt
             pending (map rs_modelAudit (br_snapshots input))
           @ [toCanonicalMessage instruction (br_executionId input) (br_runOrdinal input) committedAt
               (br_modelAudit input) True];
         fingerprint = parentAgentResumeFingerprint (ie_sha256 env) (br_instruction input)
           (br_executionId input) (br_provenance input) (br_requested input) in
     bindE (updateReceiptStatuses (in_receipts st) (map pm_id pending) ReceiptCanonical) (\<lambda>receipts.
     Inr ((pending @ [instruction], committed), \<lparr>
       im_receipts = Some (receipts @ [messageReceipt (br_clientRequestId input) (ie_newId env) fingerprint
         ReceiptCanonical (br_requested input)]),
       im_barrier = Some None,
       im_events = [Lifecycle (ExecutionStart (br_executionStart input)),
         MessagesCommitted (br_executionId input) committed] \<rparr>)))))))))"

record BeginDirectInput =
  bd_executionId :: jstring
  bd_runOrdinal :: int
  bd_content :: jstring
  bd_source :: "SessionMessageSource option"
  bd_messageId :: "jstring option"
  bd_clientRequestId :: "jstring option"
  bd_requested :: RequestedModelSelection
  bd_modelAudit :: MessageModelAudit
  bd_binding :: ExecutionModelBindingSummary
  bd_aborted :: bool

definition direct_source :: "BeginDirectInput \<Rightarrow> SessionMessageSource" where
  "direct_source input = (case bd_source input of None \<Rightarrow> SourceUser | Some s \<Rightarrow> s)"

definition beginDirectExecution ::
  "InputEnvironment \<Rightarrow> BeginDirectInput \<Rightarrow> SessionInputState \<Rightarrow> SessionMessage input_mutation" where
  "beginDirectExecution env input st =
     bindE (assertNonEmpty (bd_executionId input)) (\<lambda>_.
     bindE (assertNonEmpty (bd_content input)) (\<lambda>_.
     bindE (guard (\<not> bd_aborted input) AbortedSignal) (\<lambda>_.
     let messageId = new_message_id env (bd_messageId input) in
     bindE (assertMessageIdentityAvailable st messageId) (\<lambda>_.
     let createdAt = fresh_time env st in
     bindE (case bd_clientRequestId input of
         None \<Rightarrow> Inr ()
       | Some requestId \<Rightarrow> bindE (assertNonEmpty requestId) (\<lambda>_.
           guard (find_receipt (in_receipts st) requestId = None) (conflict IdempotencyConflict))) (\<lambda>_.
     let requestId = (case bd_clientRequestId input of None \<Rightarrow> js ''direct:'' @ messageId | Some r \<Rightarrow> r);
         pending = acceptedMessage messageId requestId (bd_content input) [] (direct_source input) None
           createdAt (bd_requested input) [] in
     bindE (validateAudit pending (bd_modelAudit input) (bd_binding input)) (\<lambda>_.
     let m = toCanonicalMessage pending (bd_executionId input) (bd_runOrdinal input) createdAt
           (bd_modelAudit input) (bd_clientRequestId input \<noteq> None) in
     Inr (m, \<lparr> im_receipts = (case bd_clientRequestId input of
         None \<Rightarrow> None
       | Some r \<Rightarrow> Some (in_receipts st @ [messageReceipt r messageId
           (sessionInputFingerprint (ie_sha256 env) (direct_source input) (bd_content input) []
             (bd_requested input)) ReceiptCanonical (bd_requested input)])),
       im_barrier = None, im_events = [MessagesCommitted (bd_executionId input) [m]] \<rparr>)))))))"

record CommitSteersInput =
  sc_executionId :: jstring
  sc_runOrdinal :: int
  sc_snapshots :: "ResolvedSessionInputSnapshot list"
  sc_binding :: ExecutionModelBindingSummary
  sc_committedAt :: "int option"
  sc_aborted :: bool

definition resolveSteer ::
  "SessionInputState \<Rightarrow> CommitSteersInput \<Rightarrow> ResolvedSessionInputSnapshot \<Rightarrow> input_error + PendingSessionMessage" where
  "resolveSteer st input snapshot =
    (case find (\<lambda>m. pm_id m = pm_id (rs_pending snapshot)) (in_pending st) of
       None \<Rightarrow> Inl (conflict NotFound)
     | Some current \<Rightarrow>
         bindE (guard (pm_state current = Steering \<and> pm_targetExecutionId current = Some (sc_executionId input)
             \<and> pm_targetRunOrdinal current = Some (sc_runOrdinal input))
           (SessionInputConflictError StateConflict (Some (pendingConflictProjection current)))) (\<lambda>_.
         validateResolvedSnapshot (Some current) snapshot (sc_binding input) Steering))"

definition commitSteers ::
  "InputEnvironment \<Rightarrow> CommitSteersInput \<Rightarrow> SessionInputState \<Rightarrow> SessionMessage list input_mutation" where
  "commitSteers env input st =
    (if sc_snapshots input = [] then Inr ([], no_mutation)
     else bindE (guard (\<not> sc_aborted input) AbortedSignal) (\<lambda>_.
       let committedAt = (case sc_committedAt input of None \<Rightarrow> fresh_time env st | Some t \<Rightarrow> t) in
       bindE (mapE (resolveSteer st input) (sc_snapshots input)) (\<lambda>pending.
       bindE (mapE currentSteerAudit pending) (\<lambda>audits.
       let committed = canonical_messages (sc_executionId input) (sc_runOrdinal input) committedAt pending audits in
       bindE (updateReceiptStatuses (in_receipts st) (map pm_id pending) ReceiptCanonical) (\<lambda>receipts.
       Inr (committed, with_receipts receipts [MessagesCommitted (sc_executionId input) committed]))))))"

section \<open>Requests\<close>

datatype InputRequest =
    RecordBarrier int
  | AcceptSkillCommand SkillCommandInput
  | ClaimCommand CommandInput
  | CompleteCommand jstring
  | CompleteCommandAsMessage CompleteAsMessageInput
  | FailCommand jstring jstring
  | AcceptMessage AcceptMessageInput "AttachmentDescriptor list"
  | AcceptParentAgentMessage ParentAgentMessageInput RequestedModelSelection bool
  | EditMessage jstring int jstring
  | DeleteMessage jstring int
  | ClaimSteer ClaimSteerInput
  | BeginQueueExecution BeginQueueInput
  | BeginChildResumeExecution BeginResumeInput
  | BeginDirectExecution BeginDirectInput
  | CommitSteers CommitSteersInput
  | RollbackSteers "jstring option" "jstring list option"

definition mutation_of :: "'a input_mutation \<Rightarrow> input_error + InputMutation" where
  "mutation_of r = bindE r (\<lambda>(_, m). Inr m)"

text \<open>What the request commits; \<open>AcceptMessage\<close> comes with the attachments it has resolved.\<close>

fun inputMutation :: "InputEnvironment \<Rightarrow> InputRequest \<Rightarrow> SessionInputState \<Rightarrow> input_error + InputMutation" where
  "inputMutation env (RecordBarrier t) st = mutation_of (recordQueueDispatchBarrier t st)"
| "inputMutation env (AcceptSkillCommand i) st = mutation_of (acceptSkillCommandMessage env i st)"
| "inputMutation env (ClaimCommand i) st = mutation_of (claimCommand env i st)"
| "inputMutation env (CompleteCommand r) st = mutation_of (completeCommand r st)"
| "inputMutation env (CompleteCommandAsMessage i) st = mutation_of (completeCommandAsMessage env i st)"
| "inputMutation env (FailCommand r e) st = mutation_of (failCommand r e st)"
| "inputMutation env (AcceptMessage i attachments) st =
     bindE (checkAcceptMessage i) (\<lambda>_.
     bindE (copyAndValidateResolvedAttachments (ai_attachmentIds i) attachments) (\<lambda>resolved.
     mutation_of (acceptMessageCommit env i resolved st)))"
| "inputMutation env (AcceptParentAgentMessage i requested aborted) st =
     mutation_of (acceptParentAgentMessage env i requested aborted st)"
| "inputMutation env (EditMessage i revision content) st = mutation_of (editMessage env i revision content st)"
| "inputMutation env (DeleteMessage i revision) st = mutation_of (deleteMessage env i revision st)"
| "inputMutation env (ClaimSteer i) st = mutation_of (claimSteer env i st)"
| "inputMutation env (BeginQueueExecution i) st = mutation_of (beginQueueExecution env i st)"
| "inputMutation env (BeginChildResumeExecution i) st = mutation_of (beginChildResumeExecution env i st)"
| "inputMutation env (BeginDirectExecution i) st = mutation_of (beginDirectExecution env i st)"
| "inputMutation env (CommitSteers i) st = mutation_of (commitSteers env i st)"
| "inputMutation env (RollbackSteers e ids) st = mutation_of (rollbackSteers env e ids st)"

datatype request_error = RequestRefused input_error | CommitRejected store_error

text \<open>A request with what it reads from outside: environment, save time and times of its events.\<close>

type_synonym timed_request = "InputEnvironment \<times> int \<times> (nat \<Rightarrow> int \<times> ReduceContext) \<times> InputRequest"

fun serveInput :: "collation \<Rightarrow> timed_request \<Rightarrow> SessionInputState \<Rightarrow> request_error + SessionInputState" where
  "serveInput lc (env, now, clock, request) st =
     bindE (liftE RequestRefused (inputMutation env request st)) (\<lambda>m.
       liftE CommitRejected (commitInput lc now clock st m))"

fun serveInputs :: "collation \<Rightarrow> timed_request list \<Rightarrow> SessionInputState \<Rightarrow> SessionInputState" where
  "serveInputs lc [] st = st"
| "serveInputs lc (r # rs) st =
     serveInputs lc rs (case serveInput lc r st of Inl _ \<Rightarrow> st | Inr st' \<Rightarrow> st')"

section \<open>The loader: messages against receipts\<close>

definition message_receipts :: "SessionInputReceipt list \<Rightarrow> SessionMessageInputReceipt list" where
  "message_receipts rs = List.map_filter (\<lambda>r. case r of MessageReceipt m \<Rightarrow> Some m | CommandReceipt _ \<Rightarrow> None) rs"

text \<open>A \<open>Map\<close> built from a list keeps the last entry of a key.\<close>

definition canonical_by_id :: "SessionMessage list \<Rightarrow> jstring \<Rightarrow> SessionMessage option" where
  "canonical_by_id ms i = find (\<lambda>m. msg_id m = i) (rev ms)"

definition pending_by_id :: "PendingSessionMessage list \<Rightarrow> jstring \<Rightarrow> PendingSessionMessage option" where
  "pending_by_id ms i = find (\<lambda>m. pm_id m = i) (rev ms)"

definition receipt_by_message_id :: "SessionInputReceipt list \<Rightarrow> jstring \<Rightarrow> SessionMessageInputReceipt option" where
  "receipt_by_message_id rs i = find (\<lambda>r. ir_messageId r = i) (rev (message_receipts rs))"

fun audited_selection :: "SessionMessage \<Rightarrow> RequestedModelSelection option" where
  "audited_selection (UserMessage u) = map_option mma_requested (um_modelAudit u)"
| "audited_selection (AssistantMessage a) = None"

fun delivered_for :: "jstring \<Rightarrow> SessionMessage \<Rightarrow> bool" where
  "delivered_for requestId (UserMessage u) \<longleftrightarrow> um_clientRequestId u = Some requestId"
| "delivered_for requestId (AssistantMessage a) \<longleftrightarrow> False"

definition pending_ok :: "SessionInputState \<Rightarrow> PendingSessionMessage \<Rightarrow> bool" where
  "pending_ok st m \<longleftrightarrow> canonical_by_id (in_messages st) (pm_id m) = None
     \<and> option_test (\<lambda>r. ir_status r = ReceiptPending \<and> ir_clientRequestId r = pm_clientRequestId m)
         (receipt_by_message_id (in_receipts st) (pm_id m))"

definition receipt_ok :: "SessionInputState \<Rightarrow> SessionMessageInputReceipt \<Rightarrow> bool" where
  "receipt_ok st r =
    (let pending = pending_by_id (in_pending st) (ir_messageId r);
         canonical = canonical_by_id (in_messages st) (ir_messageId r);
         requested = (case pending of Some m \<Rightarrow> Some (pm_requestedModelSelection m)
           | None \<Rightarrow> (case canonical of None \<Rightarrow> None | Some c \<Rightarrow> audited_selection c)) in
     (requested = None \<or> requested = Some (ir_requestedModelSelection r))
     \<and> (ir_status r = ReceiptPending \<longrightarrow> pending \<noteq> None)
     \<and> (ir_status r = ReceiptCanonical \<longrightarrow> option_test (delivered_for (ir_clientRequestId r)) canonical)
     \<and> (ir_status r = ReceiptDeleted \<longrightarrow> pending = None \<and> canonical = None))"

fun command_ok :: "SessionInputReceipt \<Rightarrow> bool" where
  "command_ok (CommandReceipt r) \<longleftrightarrow>
     (cr_status r = CommandFailed \<or> cr_status r = CommandIndeterminate) = (cr_error r \<noteq> None)"
| "command_ok (MessageReceipt r) \<longleftrightarrow> True"

definition unique_inputs :: "SessionInputState \<Rightarrow> bool" where
  "unique_inputs st \<longleftrightarrow> distinct (map pm_id (in_pending st))
     \<and> distinct (map pm_clientRequestId (in_pending st))
     \<and> distinct (map receipt_request_id (in_receipts st))"

definition inputs_agree :: "SessionInputState \<Rightarrow> bool" where
  "inputs_agree st \<longleftrightarrow> unique_inputs st \<and> (\<forall>r \<in> set (in_receipts st). command_ok r)
     \<and> (\<forall>m \<in> set (in_pending st). pending_ok st m)
     \<and> (\<forall>r \<in> set (message_receipts (in_receipts st)). receipt_ok st r)"

end
