(* ===== verification/SessionInbox.thy ===== *)
theory SessionInbox
  imports SessionInputDelivery
begin

text \<open>
  What the input service promises, as an abstract inbox: the queue, the conversation and the receipts
  of messages, with the five ways they change. Every request the service commits is such a step
  (a refinement), so the facts about queued messages are proved once, on the inbox.
\<close>

section \<open>The inbox\<close>

record Inbox =
  ib_queue :: "PendingSessionMessage list"
  ib_conversation :: "SessionMessage list"
  ib_receipts :: "SessionMessageInputReceipt set"

definition receipt_set :: "SessionInputReceipt list \<Rightarrow> SessionMessageInputReceipt set" where
  "receipt_set rs = {r. MessageReceipt r \<in> set rs}"

definition inbox_of :: "SessionInputState \<Rightarrow> Inbox" where
  "inbox_of st = \<lparr> ib_queue = in_pending st, ib_conversation = in_messages st,
     ib_receipts = receipt_set (in_receipts st) \<rparr>"

definition set_status ::
  "jstring set \<Rightarrow> MessageReceiptStatus \<Rightarrow> SessionMessageInputReceipt \<Rightarrow> SessionMessageInputReceipt" where
  "set_status ids status r = (if ir_messageId r \<in> ids then r\<lparr>ir_status := status\<rparr> else r)"

definition receipt_for :: "SessionMessageInputReceipt \<Rightarrow> PendingSessionMessage \<Rightarrow> bool" where
  "receipt_for r m \<longleftrightarrow> ir_messageId r = pm_id m \<and> ir_clientRequestId r = pm_clientRequestId m
     \<and> ir_requestedModelSelection r = pm_requestedModelSelection m"

text \<open>The audit a claim has put on a message is one of its own selection.\<close>

definition audit_ok :: "PendingSessionMessage \<Rightarrow> bool" where
  "audit_ok m \<longleftrightarrow> (case pm_targetModelAudit m of None \<Rightarrow> True
     | Some a \<Rightarrow> mma_requested a = pm_requestedModelSelection m)"

definition revised :: "PendingSessionMessage \<Rightarrow> PendingSessionMessage \<Rightarrow> bool" where
  "revised m m' \<longleftrightarrow> pm_id m' = pm_id m \<and> pm_clientRequestId m' = pm_clientRequestId m
     \<and> pm_requestedModelSelection m' = pm_requestedModelSelection m \<and> pm_acceptedAt m' = pm_acceptedAt m
     \<and> pm_revision m' = pm_revision m + 1 \<and> audit_ok m'"

text \<open>The conversation's copy of a queued message.\<close>

definition delivers :: "PendingSessionMessage \<Rightarrow> SessionMessage \<Rightarrow> bool" where
  "delivers m c \<longleftrightarrow> msg_id c = pm_id m \<and> delivered_for (pm_clientRequestId m) c
     \<and> audited_selection c = Some (pm_requestedModelSelection m) \<and> message_text c = pm_content m"

definition unused_id :: "Inbox \<Rightarrow> jstring \<Rightarrow> bool" where
  "unused_id b i \<longleftrightarrow> i \<notin> pm_id ` set (ib_queue b) \<and> i \<notin> msg_id ` set (ib_conversation b)
     \<and> i \<notin> ir_messageId ` ib_receipts b"

lemma unused_idD:
  assumes "unused_id b i"
  shows "m \<in> set (ib_queue b) \<Longrightarrow> pm_id m \<noteq> i" "c \<in> set (ib_conversation b) \<Longrightarrow> msg_id c \<noteq> i"
    "r \<in> ib_receipts b \<Longrightarrow> ir_messageId r \<noteq> i"
  using assms by (auto simp: unused_id_def)

text \<open>A message sent past the queue, with its receipt if it has a request id.\<close>

definition direct_delivery :: "Inbox \<Rightarrow> SessionMessage list \<Rightarrow> SessionMessageInputReceipt set \<Rightarrow> bool" where
  "direct_delivery b cs rs \<longleftrightarrow> cs = [] \<and> rs = {} \<or> (\<exists>c. cs = [c] \<and> unused_id b (msg_id c)
     \<and> (rs = {} \<or> (\<exists>r. rs = {r} \<and> ir_messageId r = msg_id c \<and> ir_status r = ReceiptCanonical
       \<and> delivered_for (ir_clientRequestId r) c
       \<and> audited_selection c = Some (ir_requestedModelSelection r))))"

inductive inbox_step :: "Inbox \<Rightarrow> Inbox \<Rightarrow> bool" where
  idle: "inbox_step b b"
| accept: "inbox_step b (b\<lparr>ib_queue := ib_queue b @ [m], ib_conversation := ib_conversation b @ notices,
      ib_receipts := insert r (ib_receipts b)\<rparr>)"
  if "unused_id b (pm_id m)" and "receipt_for r m" and "ir_status r = ReceiptPending"
    and "audit_ok m" and "\<forall>x \<in> set (ib_queue b). pm_acceptedAt x < pm_acceptedAt m"
    and "\<forall>c \<in> set notices. msg_id c \<noteq> pm_id m \<and> unused_id b (msg_id c)"
| revise: "inbox_step b (b\<lparr>ib_queue := map f (ib_queue b)\<rparr>)"
  if "\<forall>m \<in> set (ib_queue b). f m = m \<or> revised m (f m)"
| delete: "inbox_step b (b\<lparr>ib_queue := filter (\<lambda>x. pm_id x \<noteq> pm_id m) (ib_queue b),
      ib_receipts := set_status {pm_id m} ReceiptDeleted ` ib_receipts b\<rparr>)"
  if "m \<in> set (ib_queue b)"
| deliver: "inbox_step b (b\<lparr>ib_queue := filter (\<lambda>x. pm_id x \<notin> pm_id ` set ms) (ib_queue b),
      ib_conversation := ib_conversation b @ cs @ direct,
      ib_receipts := set_status (pm_id ` set ms) ReceiptCanonical ` ib_receipts b \<union> rs\<rparr>)"
  if "set ms \<subseteq> set (ib_queue b)" and "list_all2 delivers ms cs" and "direct_delivery b direct rs"

section \<open>Consistency\<close>

definition receipt_sound :: "Inbox \<Rightarrow> SessionMessageInputReceipt \<Rightarrow> bool" where
  "receipt_sound b r = (case ir_status r of
     ReceiptPending \<Rightarrow> ir_messageId r \<in> pm_id ` set (ib_queue b)
   | ReceiptCanonical \<Rightarrow> ir_messageId r \<in> msg_id ` set (ib_conversation b)
       \<and> (\<forall>c \<in> set (ib_conversation b). msg_id c = ir_messageId r \<longrightarrow>
           delivered_for (ir_clientRequestId r) c \<and> audited_selection c = Some (ir_requestedModelSelection r))
   | ReceiptDeleted \<Rightarrow> ir_messageId r \<notin> pm_id ` set (ib_queue b)
       \<and> ir_messageId r \<notin> msg_id ` set (ib_conversation b))"

definition inbox_sound :: "Inbox \<Rightarrow> bool" where
  "inbox_sound b \<longleftrightarrow> distinct (map pm_id (ib_queue b))
     \<and> sorted_wrt (<) (map pm_acceptedAt (ib_queue b)) \<and> inj_on ir_messageId (ib_receipts b)
     \<and> (\<forall>m \<in> set (ib_queue b). audit_ok m \<and> pm_id m \<notin> msg_id ` set (ib_conversation b)
         \<and> (\<exists>r \<in> ib_receipts b. receipt_for r m \<and> ir_status r = ReceiptPending))
     \<and> (\<forall>r \<in> ib_receipts b. receipt_sound b r)"

lemma set_status_simps [simp]:
  "ir_messageId (set_status ids s r) = ir_messageId r"
  "ir_clientRequestId (set_status ids s r) = ir_clientRequestId r"
  "ir_requestFingerprint (set_status ids s r) = ir_requestFingerprint r"
  "ir_requestedModelSelection (set_status ids s r) = ir_requestedModelSelection r"
  "ir_status (set_status ids s r) = (if ir_messageId r \<in> ids then s else ir_status r)"
  by (simp_all add: set_status_def)

lemma receipt_for_set_status [simp]: "receipt_for (set_status ids s r) m = receipt_for r m"
  by (simp add: receipt_for_def)

lemma inj_set_status: "inj_on ir_messageId R \<Longrightarrow> inj_on ir_messageId (set_status ids s ` R)"
  by (auto simp: inj_on_def)

text \<open>The id a receipt has decides the message, and the message its receipt.\<close>

lemma pending_receipt:
  assumes "inbox_sound b" "m \<in> set (ib_queue b)" "r \<in> ib_receipts b" "ir_messageId r = pm_id m"
  shows "receipt_for r m" "ir_status r = ReceiptPending"
proof -
  obtain r' where r': "r' \<in> ib_receipts b" "receipt_for r' m" "ir_status r' = ReceiptPending"
    using assms(1,2) by (auto simp: inbox_sound_def)
  then have "r' = r"
    using assms by (auto simp: inbox_sound_def receipt_for_def inj_on_def)
  with r' show "receipt_for r m" "ir_status r = ReceiptPending"
    by simp_all
qed

lemma sound_intro:
  assumes "distinct (map pm_id (ib_queue b))" "sorted_wrt (<) (map pm_acceptedAt (ib_queue b))"
    and "inj_on ir_messageId (ib_receipts b)"
    and "\<And>m. m \<in> set (ib_queue b) \<Longrightarrow> pm_id m \<notin> msg_id ` set (ib_conversation b)"
    and "\<And>m. m \<in> set (ib_queue b) \<Longrightarrow> \<exists>r \<in> ib_receipts b. receipt_for r m \<and> ir_status r = ReceiptPending"
    and "\<And>r. r \<in> ib_receipts b \<Longrightarrow> receipt_sound b r" and "\<And>m. m \<in> set (ib_queue b) \<Longrightarrow> audit_ok m"
  shows "inbox_sound b"
  using assms by (simp add: inbox_sound_def)

lemma distinct_map_filter_id: "distinct (map f xs) \<Longrightarrow> distinct (map f (filter P xs))"
  by (induction xs) auto

lemma sorted_map_filter: "sorted_wrt R (map f xs) \<Longrightarrow> sorted_wrt R (map f (filter P xs))"
  by (induction xs) auto

lemma revise_keeps:
  assumes "\<forall>m \<in> set q. f m = m \<or> revised m (f m)" "m \<in> set q"
  shows "pm_id (f m) = pm_id m" "pm_acceptedAt (f m) = pm_acceptedAt m"
    "receipt_for r (f m) = receipt_for r m" "pm_revision m \<le> pm_revision (f m)"
    "audit_ok m \<Longrightarrow> audit_ok (f m)"
  using assms by (auto simp: revised_def receipt_for_def)

lemma revise_maps:
  assumes "\<forall>m \<in> set q. f m = m \<or> revised m (f m)"
  shows "map pm_id (map f q) = map pm_id q" "map pm_acceptedAt (map f q) = map pm_acceptedAt q"
  using revise_keeps [OF assms] by simp_all


lemma step_sound:
  assumes "inbox_step b b'" "inbox_sound b"
  shows "inbox_sound b'"
  using assms
proof cases
  case (accept m r notices)
  show ?thesis
  proof (rule sound_intro)
    show "inj_on ir_messageId (ib_receipts b')"
      using accept assms(2) by (auto simp: inbox_sound_def receipt_for_def unused_id_def)
    fix m' assume m': "m' \<in> set (ib_queue b')"
    have "msg_id c \<noteq> pm_id m'" if "c \<in> set notices" for c
      using accept(1,7) m' that by (auto simp: unused_id_def)
    moreover have "pm_id m' \<notin> msg_id ` set (ib_conversation b)"
      using accept m' assms(2) by (auto simp: inbox_sound_def unused_id_def)
    ultimately show "pm_id m' \<notin> msg_id ` set (ib_conversation b')"
      using accept(1) by (simp add: image_Un) (metis imageE)
    show "\<exists>r \<in> ib_receipts b'. receipt_for r m' \<and> ir_status r = ReceiptPending"
      using accept m' assms(2) by (auto simp: inbox_sound_def unused_id_def)
  next
    fix r' assume "r' \<in> ib_receipts b'"
    then consider "r' = r" | "r' \<in> ib_receipts b"
      using accept(1) by auto
    then show "receipt_sound b' r'"
    proof cases
      case 1
      then show ?thesis
        using accept by (auto simp: receipt_for_def receipt_sound_def)
    next
      case 2
      moreover have "receipt_sound b r'"
        using 2 assms(2) by (simp add: inbox_sound_def)
      moreover have "ir_messageId r' \<noteq> pm_id m" "\<forall>c \<in> set notices. msg_id c \<noteq> ir_messageId r'"
        using unused_idD(3) [OF _ 2] accept(2,7) by metis+
      ultimately show ?thesis
        using accept(1) by (auto simp: receipt_sound_def image_iff split: MessageReceiptStatus.splits)
    qed
  qed (use accept assms(2) in \<open>auto simp: inbox_sound_def sorted_wrt_append unused_id_def\<close>)
next
  case (revise f)
  note keeps = revise_keeps [OF revise(2)]
  have "pm_id ` f ` set (ib_queue b) = pm_id ` set (ib_queue b)"
    using keeps(1) by (auto simp: image_iff)
  then show ?thesis
    using revise(1) assms(2) revise_maps [OF revise(2)] keeps(1,3,5)
    by (simp add: inbox_sound_def receipt_sound_def del: map_map split: MessageReceiptStatus.splits)
next
  case (delete m)
  show ?thesis
  proof (rule sound_intro)
    fix r assume "r \<in> ib_receipts b'"
    then obtain r0 where r0: "r0 \<in> ib_receipts b" "r = set_status {pm_id m} ReceiptDeleted r0"
      using delete by auto
    then have "receipt_sound b r0" "pm_id m \<notin> msg_id ` set (ib_conversation b)"
      using assms(2) delete by (auto simp: inbox_sound_def)
    with r0 delete show "receipt_sound b' r"
      by (auto simp: receipt_sound_def split: MessageReceiptStatus.splits if_splits)
  next
    fix x assume "x \<in> set (ib_queue b')"
    then show "\<exists>r \<in> ib_receipts b'. receipt_for r x \<and> ir_status r = ReceiptPending"
      using delete assms(2) by (fastforce simp: inbox_sound_def receipt_for_def)
  qed (use delete assms(2) in \<open>auto simp: inbox_sound_def distinct_map_filter_id sorted_map_filter inj_set_status\<close>)
next
  case (deliver ms cs direct rs)
  have ids: "msg_id ` set cs = pm_id ` set ms"
    using deliver(3) by (induction rule: list_all2_induct) (auto simp: delivers_def)
  have ms: "\<exists>m \<in> set ms. delivers m c" if "c \<in> set cs" for c
    using deliver(3) that by (induction rule: list_all2_induct) auto
  have direct_ids: "msg_id c \<notin> pm_id ` set (ib_queue b)" "msg_id c \<notin> ir_messageId ` ib_receipts b"
      "msg_id c \<notin> msg_id ` set (ib_conversation b)" if "c \<in> set direct" for c
    using deliver(4) that by (auto simp: direct_delivery_def unused_id_def)
  show ?thesis
  proof (rule sound_intro)
    have "inj_on ir_messageId (set_status (pm_id ` set ms) ReceiptCanonical ` ib_receipts b)"
      using assms(2) by (auto simp: inbox_sound_def inj_set_status)
    moreover have "rs = {} \<or> (\<exists>r. rs = {r} \<and> ir_messageId r \<notin> ir_messageId ` ib_receipts b)"
      using deliver(4) by (auto simp: direct_delivery_def unused_id_def)
    ultimately show "inj_on ir_messageId (ib_receipts b')"
      using deliver(1) by (auto simp: image_image)
  next
    fix x assume "x \<in> set (ib_queue b')"
    then have x: "x \<in> set (ib_queue b)" "pm_id x \<notin> pm_id ` set ms"
      using deliver by auto
    have "pm_id x \<notin> msg_id ` set direct" "pm_id x \<notin> msg_id ` set (ib_conversation b)"
      using x(1) direct_ids(1) assms(2) by (force, simp add: inbox_sound_def)
    then show "pm_id x \<notin> msg_id ` set (ib_conversation b')"
      using deliver(1) x(2) ids by (simp add: image_Un)
    obtain r where "r \<in> ib_receipts b" "receipt_for r x" "ir_status r = ReceiptPending"
      using x assms(2) by (auto simp: inbox_sound_def)
    with x show "\<exists>r \<in> ib_receipts b'. receipt_for r x \<and> ir_status r = ReceiptPending"
      using deliver(1) by (intro bexI [of _ "set_status (pm_id ` set ms) ReceiptCanonical r"])
        (auto simp: receipt_for_def)
  next
    fix r assume "r \<in> ib_receipts b'"
    then consider (kept) r0 where "r0 \<in> ib_receipts b" "r = set_status (pm_id ` set ms) ReceiptCanonical r0"
      | (direct) c where "direct = [c]" "ir_messageId r = msg_id c" "ir_status r = ReceiptCanonical"
          "delivered_for (ir_clientRequestId r) c" "audited_selection c = Some (ir_requestedModelSelection r)"
      using deliver(1,4) by (auto simp: direct_delivery_def)
    then show "receipt_sound b' r"
    proof cases
      case direct
      have "msg_id c \<notin> msg_id ` set cs" "msg_id c \<notin> msg_id ` set (ib_conversation b)"
        using \<open>direct = [c]\<close> direct_ids [of c] ids deliver(2) by auto
      then have "c' = c" if "c' \<in> set (ib_conversation b')" "msg_id c' = msg_id c" for c'
        using that deliver(1) \<open>direct = [c]\<close> by (auto simp: image_iff)
      then show ?thesis
        using direct deliver(1) by (auto simp: receipt_sound_def)
    next
      case kept
      have r0: "receipt_sound b r0"
        using kept assms(2) by (simp add: inbox_sound_def)
      have fresh: "msg_id c \<noteq> ir_messageId r0" if "c \<in> set direct" for c
        using direct_ids(2) [OF that] kept(1) by force
      show ?thesis
      proof (cases "ir_messageId r0 \<in> pm_id ` set ms")
        case True
        have "delivered_for (ir_clientRequestId r0) c \<and> audited_selection c = Some (ir_requestedModelSelection r0)"
          if "c \<in> set (ib_conversation b')" "msg_id c = ir_messageId r0" for c
        proof -
          obtain m where m: "m \<in> set ms" "ir_messageId r0 = pm_id m"
            using True by auto
          then have "msg_id c \<notin> msg_id ` set (ib_conversation b)"
            using that(2) deliver(2) assms(2) by (auto simp: inbox_sound_def)
          then have "c \<in> set cs"
            using that deliver(1) fresh by (auto simp: image_iff)
          then obtain m' where m': "m' \<in> set ms" "delivers m' c"
            using ms by blast
          then have "ir_messageId r0 = pm_id m'" "m' \<in> set (ib_queue b)"
            using that(2) deliver(2) by (auto simp: delivers_def)
          then have "receipt_for r0 m'"
            using pending_receipt(1) [OF assms(2)] kept(1) by blast
          with m' show ?thesis
            by (auto simp: delivers_def receipt_for_def)
        qed
        moreover have "ir_messageId r0 \<in> msg_id ` set cs"
          using True ids by simp
        ultimately show ?thesis
          using True kept(2) deliver(1) by (auto simp: receipt_sound_def)
      next
        case False
        then have new: "\<forall>c \<in> set cs \<union> set direct. msg_id c \<noteq> ir_messageId r0"
          using ids fresh by (metis UnE imageI)
        show ?thesis
        proof (cases "ir_status r0")
          case ReceiptCanonical
          with False r0 kept(2) deliver(1) new show ?thesis
            by (auto simp: receipt_sound_def)
        next
          case ReceiptDeleted
          have "ir_messageId r0 \<notin> msg_id ` set (cs @ direct)"
            using new by force
          with ReceiptDeleted False r0 kept(2) deliver(1) show ?thesis
            by (auto simp: receipt_sound_def)
        qed (use False r0 kept(2) deliver(1) in \<open>auto simp: receipt_sound_def\<close>)
      qed
    qed
  qed (use deliver assms(2) in \<open>auto simp: inbox_sound_def distinct_map_filter_id sorted_map_filter\<close>)
qed (use assms in simp)


section \<open>What every step keeps\<close>

definition same_request :: "SessionMessageInputReceipt \<Rightarrow> SessionMessageInputReceipt \<Rightarrow> bool" where
  "same_request r r' \<longleftrightarrow> r' = r\<lparr>ir_status := ir_status r'\<rparr>"

lemma same_request_set_status [simp]: "same_request r (set_status ids s r)"
  by (simp add: same_request_def set_status_def)

lemma same_request_status [simp]: "same_request r (r\<lparr>ir_status := s\<rparr>)"
  by (simp add: same_request_def)

lemma same_request_refl [simp]: "same_request r r"
  by (simp add: same_request_def)

lemma same_request_trans: "same_request r r' \<Longrightarrow> same_request r' r'' \<Longrightarrow> same_request r r''"
  unfolding same_request_def by (metis SessionMessageInputReceipt.surjective SessionMessageInputReceipt.update_convs(4))

lemma same_request_fields:
  assumes "same_request r r'"
  shows "ir_messageId r' = ir_messageId r" "ir_clientRequestId r' = ir_clientRequestId r"
    "ir_requestFingerprint r' = ir_requestFingerprint r"
    "ir_requestedModelSelection r' = ir_requestedModelSelection r"
  using assms unfolding same_request_def
  by (metis SessionMessageInputReceipt.select_convs SessionMessageInputReceipt.surjective
      SessionMessageInputReceipt.update_convs(4))+

text \<open>A receipt stays for ever, and one that is settled stays as it is.\<close>

lemma step_keeps_receipt:
  assumes "inbox_step b b'" "inbox_sound b" "r \<in> ib_receipts b"
  shows "\<exists>r' \<in> ib_receipts b'. same_request r r' \<and> (ir_status r \<noteq> ReceiptPending \<longrightarrow> r' = r)"
  using assms(1)
proof cases
  case (delete m)
  have "ir_messageId r \<in> {pm_id m} \<Longrightarrow> ir_status r = ReceiptPending"
    using pending_receipt(2) [OF assms(2) delete(2) assms(3)] by simp
  then show ?thesis
    using delete(1) assms(3)
    by (intro bexI [of _ "set_status {pm_id m} ReceiptDeleted r"]) (auto simp: set_status_def)
next
  case (deliver ms cs direct rs)
  have "ir_messageId r \<in> pm_id ` set ms \<Longrightarrow> ir_status r = ReceiptPending"
    using pending_receipt(2) [OF assms(2) _ assms(3)] deliver(2) by auto
  then show ?thesis
    using deliver(1) assms(3)
    by (intro bexI [of _ "set_status (pm_id ` set ms) ReceiptCanonical r"]) (auto simp: set_status_def)
qed (use assms(3) in \<open>auto intro!: bexI [of _ r]\<close>)

text \<open>A message is past a revision once every queued copy of it has that revision or a later one.\<close>

definition past_revision :: "Inbox \<Rightarrow> jstring \<Rightarrow> int \<Rightarrow> bool" where
  "past_revision b i n \<longleftrightarrow> i \<in> ir_messageId ` ib_receipts b
     \<and> (\<forall>m \<in> set (ib_queue b). pm_id m = i \<longrightarrow> n \<le> pm_revision m)"

lemma step_keeps_past:
  assumes "inbox_step b b'" "inbox_sound b" "past_revision b i n"
  shows "past_revision b' i n"
proof -
  obtain r where r: "r \<in> ib_receipts b" "ir_messageId r = i"
    using assms(3) by (auto simp: past_revision_def)
  then obtain r' where "r' \<in> ib_receipts b'" "ir_messageId r' = i"
    using step_keeps_receipt [OF assms(1,2)] same_request_fields(1) by blast
  then have "i \<in> ir_messageId ` ib_receipts b'"
    by auto
  moreover have "n \<le> pm_revision m" if m: "m \<in> set (ib_queue b')" "pm_id m = i" for m
    using assms(1)
  proof cases
    case (accept m0 r0 notices)
    then show ?thesis
      using m r assms(3) unused_idD(3) [of b "pm_id m0" r] by (auto simp: past_revision_def)
  next
    case (revise f)
    then obtain m0 where m0: "m0 \<in> set (ib_queue b)" "m = f m0"
      using m(1) by auto
    then have "n \<le> pm_revision m0"
      using revise_keeps(1) [OF revise(2)] m(2) assms(3) by (simp add: past_revision_def)
    then show ?thesis
      using revise_keeps(4) [OF revise(2) m0(1)] m0(2) by simp
  qed (use m assms(3) in \<open>auto simp: past_revision_def\<close>)
  ultimately show ?thesis
    by (simp add: past_revision_def)
qed

end
