(* ===== verification/SessionInputRuns.thy ===== *)
theory SessionInputRuns
  imports SessionInbox
begin

text \<open>
  Every request the input service commits is a step of the inbox, and keeps the receipts well formed;
  so the messages and receipts it stores always agree.
\<close>

section \<open>The events of the service\<close>

fun queue_after :: "StreamEvent \<Rightarrow> PendingSessionMessage list \<Rightarrow> PendingSessionMessage list" where
  "queue_after (MessageAccepted m) q = q @ [m]"
| "queue_after (MessageEdited m) q = map (\<lambda>x. if pm_id x = pm_id m then m else x) q"
| "queue_after (MessageSteerClaimed m) q = map (\<lambda>x. if pm_id x = pm_id m then m else x) q"
| "queue_after (MessageSteerRolledBack m) q = map (\<lambda>x. if pm_id x = pm_id m then m else x) q"
| "queue_after (MessageDeleted i _ _ _) q = filter (\<lambda>x. pm_id x \<noteq> i) q"
| "queue_after (MessagesCommitted _ cs) q = filter (\<lambda>x. pm_id x \<notin> set (map msg_id cs)) q"
| "queue_after _ q = q"

fun conversation_after :: "StreamEvent \<Rightarrow> SessionMessage list \<Rightarrow> SessionMessage list" where
  "conversation_after (MessagesCommitted _ cs) ms =
     ms @ filter (\<lambda>c. msg_id c \<notin> set (map msg_id ms)) cs"
| "conversation_after _ ms = ms"

fun is_input_event :: "StreamEvent \<Rightarrow> bool" where
  "is_input_event (MessageAccepted _) = True"
| "is_input_event (MessageEdited _) = True"
| "is_input_event (MessageSteerClaimed _) = True"
| "is_input_event (MessageSteerRolledBack _) = True"
| "is_input_event (MessageDeleted _ _ _ _) = True"
| "is_input_event (MessagesCommitted _ _) = True"
| "is_input_event (Lifecycle (ExecutionStart _)) = True"
| "is_input_event _ = False"

definition same_session :: "SessionStoreState \<Rightarrow> SessionStoreState \<Rightarrow> bool" where
  "same_session st st' \<longleftrightarrow> sessionId (st_shared st') = sessionId (st_shared st)
     \<and> rootSessionId (st_shared st') = rootSessionId (st_shared st)
     \<and> parentSessionId (st_shared st') = parentSessionId (st_shared st)"

lemma delegated:
  assumes "delegateToProtocol lc st event ctx = Inr st'"
  obtains p where "reduceStreamEvent lc ((st_shared st)\<lparr>compression := None\<rparr>) event ctx = Inr p"
    "messages (st_shared st') = present (p_messages p) (messages (st_shared st))"
    "pendingMessages (st_shared st') = present (p_pendingMessages p) (pendingMessages (st_shared st))"
    "same_session st st'"
  using assms by (auto simp: delegateToProtocol_def bindE_Inr_iff same_session_def)

lemma record_shared:
  assumes "recordEvent lc st (StreamPayload e) publishable now ctx = Inr st'"
  shows "\<exists>st2. reduceStoreStream lc st e ctx = Inr st2 \<and> st_shared st' = st_shared st2"
  using assms by (auto simp: recordEvent_def bindE_Inr_iff Let_def)

lemma start_reduced:
  assumes "reduceStoreStream lc st (Lifecycle (ExecutionStart e)) ctx = Inr st'"
  shows "pendingMessages (st_shared st') = pendingMessages (st_shared st)"
    "messages (st_shared st') = messages (st_shared st)" "same_session st st'"
proof -
  have "st' = st \<or> delegateToProtocol lc st (Lifecycle (ExecutionStart e)) ctx = Inr st'"
    using assms by (auto simp: reduceStoreLifecycle_def bindE_Inr_iff split: if_splits)
  then consider "st' = st" | p where
      "reduceStreamEvent lc ((st_shared st)\<lparr>compression := None\<rparr>) (Lifecycle (ExecutionStart e)) ctx = Inr p"
      "messages (st_shared st') = present (p_messages p) (messages (st_shared st))"
      "pendingMessages (st_shared st') = present (p_pendingMessages p) (pendingMessages (st_shared st))"
      "same_session st st'"
    using delegated by metis
  then show "pendingMessages (st_shared st') = pendingMessages (st_shared st)"
      "messages (st_shared st') = messages (st_shared st)" "same_session st st'"
    by (cases; auto simp: reduceLifecycle_def onExecutionStart_def Let_def same_session_def split: if_splits)+
qed

definition recorded_as :: "StreamEvent \<Rightarrow> SessionStoreState \<Rightarrow> SessionStoreState \<Rightarrow> bool" where
  "recorded_as e st st' \<longleftrightarrow>
     pendingMessages (st_shared st') = queue_after e (pendingMessages (st_shared st))
     \<and> messages (st_shared st') = conversation_after e (messages (st_shared st)) \<and> same_session st st'"

lemma recorded_as_shared: "st_shared st2 = st_shared st' \<Longrightarrow> recorded_as e st st' \<Longrightarrow> recorded_as e st st2"
  by (simp add: recorded_as_def same_session_def)

lemma delegated_input_event:
  assumes "delegateToProtocol lc st e ctx = Inr st'" "is_input_event e" "\<forall>l. e \<noteq> Lifecycle l"
  shows "recorded_as e st st'"
proof -
  obtain p where p: "reduceStreamEvent lc ((st_shared st)\<lparr>compression := None\<rparr>) e ctx = Inr p"
      "messages (st_shared st') = present (p_messages p) (messages (st_shared st))"
      "pendingMessages (st_shared st') = present (p_pendingMessages p) (pendingMessages (st_shared st))"
      "same_session st st'"
    using assms(1) delegated by metis
  have "p_messages p = (case e of MessagesCommitted i cs \<Rightarrow> Some (conversation_after e (messages (st_shared st)))
        | _ \<Rightarrow> None)
      \<and> p_pendingMessages p = Some (queue_after e (pendingMessages (st_shared st)))"
    using assms(2,3) p(1)
    by (cases e) (simp_all add: onMessageReplaced_def onMessageDeleted_def onMessagesCommitted_def Let_def, auto)
  then show ?thesis
    using p(2-4) assms(2,3) by (cases e) (simp_all add: recorded_as_def)
qed

lemma input_event_reduced:
  assumes "reduceStoreStream lc st e ctx = Inr st'" "is_input_event e"
  shows "recorded_as e st st'"
proof (cases "\<exists>l. e = Lifecycle l")
  case True
  then obtain start where "e = Lifecycle (ExecutionStart start)"
    using assms(2) by (auto elim: is_input_event.elims)
  then show ?thesis
    using start_reduced [of lc st start ctx st'] assms(1) by (simp add: recorded_as_def)
next
  case False
  then have "\<exists>st2. delegateToProtocol lc st e ctx = Inr st2 \<and> st_shared st' = st_shared st2"
    using assms by (cases e) (auto simp: bindE_Inr_iff)
  then show ?thesis
    using delegated_input_event [OF _ assms(2)] False recorded_as_shared by blast
qed

lemma input_event_appended:
  assumes "appendEventToState lc st (StreamPayload e) False now ctx = Inr st'" "is_input_event e"
  shows "recorded_as e st st'"
proof (cases "isDuplicateLifecycle st (StreamPayload e)")
  case True
  then have "st' = st" "\<exists>x. e = Lifecycle (ExecutionStart x)"
    using assms by (auto simp: appendEventToState_def elim!: isDuplicateLifecycle.elims is_input_event.elims)
  then show ?thesis
    by (auto simp: recorded_as_def same_session_def)
next
  case False
  then obtain publishable where "recordEvent lc st (StreamPayload e) publishable now ctx = Inr st'"
    using assms(1) by (auto simp: appendEventToState_def)
  then show ?thesis
    using record_shared input_event_reduced [OF _ assms(2)] recorded_as_shared by blast
qed

lemma durable_input_event [simp]:
  "is_input_event e \<Longrightarrow> toDurableSessionEvent (StreamPayload e) = StreamPayload e"
  by (cases e rule: is_input_event.cases) auto

lemma input_events_applied:
  assumes "\<forall>e \<in> set es. is_input_event e"
    and "applyMutation lc st no_patch (map (\<lambda>(i, e). (StreamPayload e, clock i)) (List.enumerate n es)) = Inr st'"
  shows "pendingMessages (st_shared st') = fold queue_after es (pendingMessages (st_shared st))
    \<and> messages (st_shared st') = fold conversation_after es (messages (st_shared st)) \<and> same_session st st'"
  using assms
proof (induction es arbitrary: st n)
  case Nil
  then show ?case
    by (simp add: applyMutation_def same_session_def)
next
  case (Cons e es)
  obtain now ctx where clock: "clock n = (now, ctx)"
    by fastforce
  obtain mid where mid: "appendEventToState lc st (StreamPayload e) False now ctx = Inr mid"
      "applyMutation lc mid no_patch (map (\<lambda>(i, e). (StreamPayload e, clock i)) (List.enumerate (Suc n) es)) = Inr st'"
    using Cons.prems clock by (auto simp: applyMutation_def bindE_Inr_iff)
  then show ?case
    using Cons.IH [of mid "Suc n"] input_event_appended [OF mid(1)] Cons.prems(1)
    by (simp add: same_session_def recorded_as_def)
qed


lemma input_committed:
  assumes "commitInput lc now clock st m = Inr st'" "\<forall>e \<in> set (im_events m). is_input_event e"
  shows "in_pending st' = fold queue_after (im_events m) (in_pending st)
    \<and> in_messages st' = fold conversation_after (im_events m) (in_messages st)
    \<and> in_receipts st' = (case im_receipts m of None \<Rightarrow> in_receipts st | Some rs \<Rightarrow> rs)
    \<and> same_session (in_store st) (in_store st')"
proof (cases "input_changes st m")
  case False
  then show ?thesis
    using assms(1) by (simp add: commitInput_def input_changes_def same_session_def)
next
  case True
  then obtain store' where "applyMutation lc (in_store st) no_patch
      (map (\<lambda>(i, e). (StreamPayload e, clock i)) (List.enumerate 0 (im_events m))) = Inr store'"
      "in_store st' = store'" "in_receipts st' = (case im_receipts m of None \<Rightarrow> in_receipts st | Some rs \<Rightarrow> rs)"
    using assms(1) by (auto simp: commitInput_def bindE_Inr_iff)
  then show ?thesis
    using input_events_applied [OF assms(2)] by auto
qed

section \<open>Receipts\<close>

definition receipts_well_formed :: "SessionInputReceipt list \<Rightarrow> bool" where
  "receipts_well_formed rs \<longleftrightarrow> distinct (map receipt_request_id rs) \<and> (\<forall>r \<in> set rs. command_ok r)"

lemma find_receipt_None [simp]:
  "find_receipt rs i = None \<longleftrightarrow> i \<notin> receipt_request_id ` set rs"
  by (auto simp: find_receipt_def find_None_iff)

lemma find_receipt_Some:
  "find_receipt rs i = Some r \<Longrightarrow> r \<in> set rs \<and> receipt_request_id r = i"
  by (auto simp: find_receipt_def find_Some_iff)

lemma receipt_set_append [simp]:
  "receipt_set (rs @ [MessageReceipt r]) = insert r (receipt_set rs)"
  "receipt_set (rs @ [CommandReceipt c]) = receipt_set rs"
  by (auto simp: receipt_set_def)

lemma receipt_set_status [simp]:
  "receipt_set (map (set_receipt_status ids s) rs) = set_status ids s ` receipt_set rs"
proof (induction rs)
  case (Cons r rs)
  then show ?case
    by (cases r) (auto simp: receipt_set_def set_status_def)
qed (simp add: receipt_set_def)

lemma set_receipt_status_id [simp]: "receipt_request_id (set_receipt_status ids s r) = receipt_request_id r"
  by (cases r) simp_all

lemma set_receipt_status_ok [simp]: "command_ok (set_receipt_status ids s r) = command_ok r"
  by (cases r) simp_all

lemma well_formed_status [simp]:
  "receipts_well_formed (map (set_receipt_status ids s) rs) = receipts_well_formed rs"
  by (simp add: receipts_well_formed_def comp_def)

lemma well_formed_append:
  "receipts_well_formed (rs @ [r]) \<longleftrightarrow>
     receipts_well_formed rs \<and> receipt_request_id r \<notin> receipt_request_id ` set rs \<and> command_ok r"
  by (auto simp: receipts_well_formed_def)

lemma receipt_ids: "set (receipt_message_ids rs) = ir_messageId ` receipt_set rs"
  unfolding receipt_message_ids_def receipt_set_def
proof (induction rs)
  case (Cons r rs)
  then show ?case
    by (cases r) (auto simp: List.map_filter_simps)
qed (simp add: List.map_filter_simps)

lemma statuses_updated:
  assumes "updateReceiptStatuses rs ids s = Inr rs'"
  shows "rs' = map (set_receipt_status (set ids) s) rs" "set ids \<subseteq> ir_messageId ` receipt_set rs"
  using assms by (auto simp: updateReceiptStatuses_def receipt_ids split: if_splits)

lemma replaced_ids:
  assumes "receipt_request_id r = i"
  shows "map receipt_request_id (replace_receipt i r rs) = map receipt_request_id rs"
  using assms by (induction rs) auto

lemma replaced_members:
  assumes "find_receipt rs i = Some (CommandReceipt c)"
  shows "receipt_set (replace_receipt i (CommandReceipt c') rs) = receipt_set rs"
    "\<forall>x \<in> set rs. command_ok x \<Longrightarrow> command_ok (CommandReceipt c') \<Longrightarrow>
      \<forall>x \<in> set (replace_receipt i (CommandReceipt c') rs). command_ok x"
  using assms by (induction rs) (auto simp: receipt_set_def find_receipt_def split: if_splits)

lemma command_replaced:
  assumes "replaceExecutingCommandReceipt rs i f = Inr rs'" "receipts_well_formed rs"
    and "\<And>c. cr_clientRequestId (f c) = cr_clientRequestId c"
    and "\<And>c. cr_status c = CommandExecuting \<Longrightarrow> cr_error c = None \<Longrightarrow> command_ok (CommandReceipt (f c))"
  shows "receipt_set rs' = receipt_set rs" "receipts_well_formed rs'"
proof -
  obtain c where c: "find_receipt rs i = Some (CommandReceipt c)" "cr_status c = CommandExecuting"
      "rs' = replace_receipt i (CommandReceipt (f c)) rs"
    using assms(1) by (auto simp: replaceExecutingCommandReceipt_def requireExecutingCommandReceipt_def
        bindE_Inr_iff split: option.splits SessionInputReceipt.splits if_splits)
  then show "receipt_set rs' = receipt_set rs"
    using replaced_members(1) by simp
  have "command_ok (CommandReceipt c)" "cr_clientRequestId c = i"
    using find_receipt_Some [OF c(1)] assms(2) by (auto simp: receipts_well_formed_def)
  then have "command_ok (CommandReceipt (f c))" "receipt_request_id (CommandReceipt (f c)) = i"
    using c(2) assms(3,4) by auto
  then show "receipts_well_formed rs'"
    using c assms(2) replaced_ids replaced_members(2) by (simp add: receipts_well_formed_def)
qed

text \<open>A command receipt turned into a message receipt of the same request.\<close>

lemma command_to_message:
  assumes "find_receipt rs i = Some (CommandReceipt c)" "receipts_well_formed rs"
    and "ir_clientRequestId r = i"
  defines "rs' \<equiv> map (\<lambda>x. if receipt_request_id x = i then MessageReceipt r else x) rs"
  shows "receipt_set rs' = insert r (receipt_set rs)" "receipts_well_formed rs'"
proof -
  have c: "CommandReceipt c \<in> set rs" "cr_clientRequestId c = i"
    using find_receipt_Some [OF assms(1)] by auto
  have only: "x = CommandReceipt c" if "x \<in> set rs" "receipt_request_id x = i" for x
    using that c assms(2) by (auto simp: receipts_well_formed_def distinct_map inj_on_def)
  let ?f = "\<lambda>x. if receipt_request_id x = i then MessageReceipt r else x"
  have "MessageReceipt r0 \<in> set rs' \<longleftrightarrow> r0 = r \<or> MessageReceipt r0 \<in> set rs" for r0
  proof
    assume "r0 = r \<or> MessageReceipt r0 \<in> set rs"
    moreover have "?f (CommandReceipt c) \<in> set rs'"
      using c(1) unfolding rs'_def set_map by (rule imageI)
    moreover have "MessageReceipt r0 \<in> set rs'" if r0: "MessageReceipt r0 \<in> set rs"
    proof -
      have "?f (MessageReceipt r0) = MessageReceipt r0"
        using only [OF r0] by auto
      moreover have "?f (MessageReceipt r0) \<in> set rs'"
        using r0 unfolding rs'_def set_map by (rule imageI)
      ultimately show ?thesis
        by metis
    qed
    ultimately show "MessageReceipt r0 \<in> set rs'"
      using c(2) by auto
  qed (auto simp: rs'_def split: if_splits)
  then show "receipt_set rs' = insert r (receipt_set rs)"
    by (auto simp: receipt_set_def)
  have "map receipt_request_id rs' = map receipt_request_id rs"
    using assms(3) by (auto simp: rs'_def)
  moreover have "\<forall>x \<in> set rs'. command_ok x"
    using assms(2) by (auto simp: receipts_well_formed_def rs'_def)
  ultimately show "receipts_well_formed rs'"
    using assms(2) by (simp add: receipts_well_formed_def)
qed

end
