(* ===== verification/SessionInputRefinement.thy ===== *)
theory SessionInputRefinement
  imports SessionInputRuns
begin

text \<open>
  The refinement: whatever request the service commits, the inbox makes one of its steps, and the
  receipts stay well formed. What the callers promise is \<open>well_posed\<close>: new identifiers are new, and
  the audit of a steering claim is one of the message's own model selection.
\<close>

lemma guard_Inr [simp]: "guard ok e = Inr u \<longleftrightarrow> ok"
  by simp

declare guard.simps [simp del]

definition inputs_sound :: "SessionInputState \<Rightarrow> bool" where
  "inputs_sound st \<longleftrightarrow> inbox_sound (inbox_of st) \<and> receipts_well_formed (in_receipts st)"

definition input_refines :: "SessionInputState \<Rightarrow> SessionInputState \<Rightarrow> bool" where
  "input_refines st st' \<longleftrightarrow> inbox_step (inbox_of st) (inbox_of st') \<and> receipts_well_formed (in_receipts st')
     \<and> same_session (in_store st) (in_store st')"

fun request_ids :: "InputEnvironment \<Rightarrow> (nat \<Rightarrow> int \<times> ReduceContext) \<Rightarrow> InputRequest \<Rightarrow> jstring list" where
  "request_ids env clock (AcceptSkillCommand i) = [ie_newId env, rc_generateId (snd (clock 0)) 1]"
| "request_ids env clock (CompleteCommandAsMessage i) = [new_message_id env (xi_messageId i)]"
| "request_ids env clock (AcceptMessage i attachments) = [new_message_id env (ai_messageId i)]"
| "request_ids env clock (AcceptParentAgentMessage i requested aborted) = [ie_newId env]"
| "request_ids env clock (BeginChildResumeExecution i) = [ie_newId env]"
| "request_ids env clock (BeginDirectExecution i) = [new_message_id env (bd_messageId i)]"
| "request_ids env clock _ = []"

fun own_audit :: "InputRequest \<Rightarrow> PendingSessionMessage \<Rightarrow> bool" where
  "own_audit (ClaimSteer i) m \<longleftrightarrow> (pm_id m = ti_messageId i \<longrightarrow>
     mma_requested (ti_modelAudit i) = pm_requestedModelSelection m)"
| "own_audit _ m \<longleftrightarrow> True"

definition well_posed ::
  "InputEnvironment \<Rightarrow> (nat \<Rightarrow> int \<times> ReduceContext) \<Rightarrow> InputRequest \<Rightarrow> SessionInputState \<Rightarrow> bool" where
  "well_posed env clock request st \<longleftrightarrow> distinct (request_ids env clock request)
     \<and> (\<forall>i \<in> set (request_ids env clock request).
         i \<notin> set (receipt_message_ids (in_receipts st)) \<and> i \<notin> msg_id ` set (in_messages st)
         \<and> i \<notin> pm_id ` set (in_pending st))
     \<and> (\<forall>m \<in> set (in_pending st). own_audit request m)"

section \<open>Time\<close>

lemma fold_max_ge: "(a::int) \<le> fold max xs a \<and> (\<forall>x \<in> set xs. x \<le> fold max xs a)"
  by (induction xs arbitrary: a) (auto intro: order_trans [OF max.cobounded1] order_trans [OF max.cobounded2])

lemma timestamp_exceeds:
  assumes "t \<in> set (recorded_times st) \<or> t = in_updatedAt st \<or> t = opt_time (in_queueDispatchBarrierAt st)"
  shows "t < nextSessionTimestamp st now"
proof -
  let ?m = "max (in_updatedAt st) (opt_time (in_queueDispatchBarrierAt st))"
  have "t \<le> fold max (recorded_times st) ?m"
    using assms fold_max_ge [of ?m "recorded_times st"] by auto
  then show ?thesis
    by (simp add: nextSessionTimestamp_def)
qed

lemma accepted_later:
  "m \<in> set (in_pending st) \<Longrightarrow> pm_acceptedAt m < nextSessionTimestamp st now"
  by (rule timestamp_exceeds) (auto simp: recorded_times_def pending_times_def)

section \<open>The five steps\<close>

lemma uncommitted:
  "commitInput lc now clock st no_mutation = Inr st' \<Longrightarrow> inputs_sound st \<Longrightarrow> input_refines st st'"
  by (auto simp: commitInput_def input_changes_def input_refines_def inputs_sound_def same_session_def
      intro: inbox_step.idle)

lemma replayed_Inr [simp]: "replayed r = Inr (x, m) \<longleftrightarrow> r = Inr x \<and> m = no_mutation"
  by (auto simp: replayed_def bindE_Inr_iff)

lemma receipts_refine:
  assumes "commitInput lc now clock st (with_receipts rs []) = Inr st'" "inputs_sound st"
    and "receipt_set rs = receipt_set (in_receipts st)" "receipts_well_formed rs"
  shows "input_refines st st'"
proof -
  have "in_pending st' = in_pending st \<and> in_messages st' = in_messages st \<and> in_receipts st' = rs
      \<and> same_session (in_store st) (in_store st')"
    using input_committed [OF assms(1)] by simp
  moreover from this have "inbox_of st' = inbox_of st"
    using assms(3) by (simp add: inbox_of_def)
  ultimately show ?thesis
    using assms(4) by (simp add: input_refines_def inbox_step.idle)
qed

lemma barrier_refines:
  assumes "commitInput lc now clock st \<lparr> im_receipts = None, im_barrier = b, im_events = [] \<rparr> = Inr st'"
    and "inputs_sound st"
  shows "input_refines st st'"
proof -
  have "in_pending st' = in_pending st \<and> in_messages st' = in_messages st \<and> in_receipts st' = in_receipts st
      \<and> same_session (in_store st) (in_store st')"
    using input_committed [OF assms(1)] by simp
  then show ?thesis
    using assms(2) by (simp add: input_refines_def inputs_sound_def inbox_of_def inbox_step.idle)
qed

lemma accept_refines:
  assumes "commitInput lc now clock st (with_receipts rs [MessageAccepted m]) = Inr st'"
    and "receipt_set rs = insert r (receipt_set (in_receipts st))" "receipts_well_formed rs"
    and "receipt_for r m" "ir_status r = ReceiptPending" "audit_ok m"
    and "pm_id m \<notin> ir_messageId ` receipt_set (in_receipts st)"
    and "assertMessageIdentityAvailable st (pm_id m) = Inr ()"
    and "pm_acceptedAt m = nextSessionTimestamp st t"
  shows "input_refines st st'"
proof -
  have st': "in_pending st' = in_pending st @ [m] \<and> in_messages st' = in_messages st \<and> in_receipts st' = rs
      \<and> same_session (in_store st) (in_store st')"
    using input_committed [OF assms(1)] by simp
  then have eq: "inbox_of st' = (inbox_of st)\<lparr>ib_queue := ib_queue (inbox_of st) @ [m],
      ib_conversation := ib_conversation (inbox_of st) @ [], ib_receipts := insert r (ib_receipts (inbox_of st))\<rparr>"
    using assms(2) by (simp add: inbox_of_def)
  have "inbox_step (inbox_of st) (inbox_of st')"
    unfolding eq
  proof (rule inbox_step.accept)
    show "unused_id (inbox_of st) (pm_id m)"
      using assms(7,8) by (simp add: unused_id_def inbox_of_def assertMessageIdentityAvailable_def split: if_splits)
    show "\<forall>x \<in> set (ib_queue (inbox_of st)). pm_acceptedAt x < pm_acceptedAt m"
      using accepted_later assms(9) by (simp add: inbox_of_def)
  qed (use assms in simp_all)
  then show ?thesis
    using st' assms(3) by (simp add: input_refines_def)
qed

lemma revise_refines:
  assumes "commitInput lc now clock st (events_only es) = Inr st'" "\<forall>e \<in> set es. is_input_event e"
    and "fold conversation_after es (in_messages st) = in_messages st"
    and "fold queue_after es (in_pending st) = map f (in_pending st)" "inputs_sound st"
    and "\<forall>m \<in> set (in_pending st). f m = m \<or> revised m (f m)"
  shows "input_refines st st'"
proof -
  have st': "in_pending st' = map f (in_pending st) \<and> in_messages st' = in_messages st
      \<and> in_receipts st' = in_receipts st \<and> same_session (in_store st) (in_store st')"
    using input_committed [OF assms(1)] assms(2-4) by simp
  then have "inbox_of st' = (inbox_of st)\<lparr>ib_queue := map f (ib_queue (inbox_of st))\<rparr>"
    by (simp add: inbox_of_def)
  moreover have "inbox_step (inbox_of st) ((inbox_of st)\<lparr>ib_queue := map f (ib_queue (inbox_of st))\<rparr>)"
    using assms(6) by (intro inbox_step.revise) (simp add: inbox_of_def)
  ultimately show ?thesis
    using st' assms(5) by (simp add: input_refines_def inputs_sound_def)
qed

text \<open>One queued message replaced by its next revision.\<close>

lemma replace_refines:
  assumes "commitInput lc now clock st (events_only [e]) = Inr st'" "e = MessageEdited m' \<or> e = MessageSteerClaimed m'"
    and "requireQueuedMessage st i n = Inr m" "revised m m'" "inputs_sound st"
  shows "input_refines st st'"
proof (rule revise_refines [OF assms(1)])
  let ?f = "\<lambda>x. if pm_id x = pm_id m' then m' else x"
  show "fold queue_after [e] (in_pending st) = map ?f (in_pending st)"
    using assms(2) by auto
  have "m \<in> set (in_pending st)"
    using assms(3) by (auto simp: requireQueuedMessage_def bindE_Inr_iff find_Some_iff
        split: option.splits if_splits list.splits MessageReceiptStatus.splits)
  then have "x = m" if "x \<in> set (in_pending st)" "pm_id x = pm_id m'" for x
    using that assms(4,5)
    by (auto simp: revised_def inputs_sound_def inbox_sound_def inbox_of_def distinct_map inj_on_def)
  then show "\<forall>x \<in> set (in_pending st). ?f x = x \<or> revised x (?f x)"
    using assms(4) by auto
qed (use assms in auto)


lemma required_queued:
  assumes "requireQueuedMessage st i n = Inr m"
  shows "m \<in> set (in_pending st)" "pm_id m = i" "pm_revision m = n" "pm_state m = Queued"
proof -
  have "find (\<lambda>x. pm_id x = i) (in_pending st) = Some m \<and> pm_revision m = n \<and> pm_state m = Queued"
    using assms by (auto simp: requireQueuedMessage_def bindE_Inr_iff
        split: option.splits if_splits list.splits MessageReceiptStatus.splits)
  then show "m \<in> set (in_pending st)" "pm_id m = i" "pm_revision m = n" "pm_state m = Queued"
    by (auto simp: find_Some_iff)
qed

lemma delete_refines:
  assumes "commitInput lc now clock st (with_receipts rs [MessageDeleted (pm_id m) c n t]) = Inr st'"
    and "updateReceiptStatuses (in_receipts st) [pm_id m] ReceiptDeleted = Inr rs"
    and "m \<in> set (in_pending st)" "inputs_sound st"
  shows "input_refines st st'"
proof -
  have rs: "rs = map (set_receipt_status {pm_id m} ReceiptDeleted) (in_receipts st)"
    using statuses_updated(1) [OF assms(2)] by simp
  have st': "in_pending st' = filter (\<lambda>x. pm_id x \<noteq> pm_id m) (in_pending st)
      \<and> in_messages st' = in_messages st \<and> in_receipts st' = rs \<and> same_session (in_store st) (in_store st')"
    using input_committed [OF assms(1)] by simp
  then have "inbox_of st' = (inbox_of st)\<lparr>
      ib_queue := filter (\<lambda>x. pm_id x \<noteq> pm_id m) (ib_queue (inbox_of st)),
      ib_receipts := set_status {pm_id m} ReceiptDeleted ` ib_receipts (inbox_of st)\<rparr>"
    using rs by (simp add: inbox_of_def)
  moreover have "m \<in> set (ib_queue (inbox_of st))"
    using assms(3) by (simp add: inbox_of_def)
  ultimately show ?thesis
    using st' rs assms(4) inbox_step.delete by (simp add: input_refines_def inputs_sound_def)
qed

lemma delivered_state:
  assumes "commitInput lc now clock st
      \<lparr> im_receipts = rs, im_barrier = b, im_events = start_events e @ [MessagesCommitted i (cs @ direct)] \<rparr> = Inr st'"
    and "(case rs of None \<Rightarrow> in_receipts st | Some rs' \<Rightarrow> rs')
      = map (set_receipt_status (pm_id ` set ms) ReceiptCanonical) (in_receipts st) @ extra"
    and "set ms \<subseteq> set (in_pending st)" "list_all2 delivers ms cs"
    and "direct_delivery (inbox_of st) direct (receipt_set extra)" "inputs_sound st"
  shows "in_pending st' = filter (\<lambda>x. pm_id x \<notin> pm_id ` set ms) (in_pending st)
      \<and> in_messages st' = in_messages st @ cs @ direct
      \<and> in_receipts st' = map (set_receipt_status (pm_id ` set ms) ReceiptCanonical) (in_receipts st) @ extra
      \<and> same_session (in_store st) (in_store st')"
proof -
  have input: "\<forall>x \<in> set (start_events e @ [MessagesCommitted i (cs @ direct)]). is_input_event x"
    by (auto simp: start_events_def split: option.splits)
  have start: "fold queue_after (start_events e) q = q" "fold conversation_after (start_events e) c = c" for q c
    by (simp_all add: start_events_def split: option.split)
  have ids: "msg_id ` set cs = pm_id ` set ms"
    using assms(4) by (induction rule: list_all2_induct) (auto simp: delivers_def)
  have direct: "msg_id ` set direct \<inter> (pm_id ` set (in_pending st) \<union> msg_id ` set (in_messages st)) = {}"
    using assms(5) by (auto simp: direct_delivery_def unused_id_def inbox_of_def)
  have pending: "pm_id ` set ms \<inter> msg_id ` set (in_messages st) = {}"
    using assms(3,6) by (auto simp: inputs_sound_def inbox_sound_def inbox_of_def)
  have "filter (\<lambda>c. msg_id c \<notin> set (map msg_id (in_messages st))) (cs @ direct) = cs @ direct"
  proof (rule filter_True, rule ballI)
    fix c assume "c \<in> set (cs @ direct)"
    then have "msg_id c \<in> pm_id ` set ms \<union> msg_id ` set direct"
      using ids by auto
    then show "msg_id c \<notin> set (map msg_id (in_messages st))"
      using direct pending by auto
  qed
  moreover have "filter (\<lambda>x. pm_id x \<notin> set (map msg_id (cs @ direct))) (in_pending st)
      = filter (\<lambda>x. pm_id x \<notin> pm_id ` set ms) (in_pending st)"
  proof (rule filter_cong [OF refl])
    fix x assume "x \<in> set (in_pending st)"
    then have "pm_id x \<notin> msg_id ` set direct"
      using direct by blast
    then show "(pm_id x \<notin> set (map msg_id (cs @ direct))) = (pm_id x \<notin> pm_id ` set ms)"
      using ids by (simp add: image_Un)
  qed
  ultimately show ?thesis
    using input_committed [OF assms(1)] input start assms(2) by simp
qed

lemma deliver_refines:
  assumes "commitInput lc now clock st
      \<lparr> im_receipts = rs, im_barrier = b, im_events = start_events e @ [MessagesCommitted i (cs @ direct)] \<rparr> = Inr st'"
    and "(case rs of None \<Rightarrow> in_receipts st | Some rs' \<Rightarrow> rs')
      = map (set_receipt_status (pm_id ` set ms) ReceiptCanonical) (in_receipts st) @ extra"
    and "receipts_well_formed (in_receipts st @ extra)"
    and "set ms \<subseteq> set (in_pending st)" "list_all2 delivers ms cs"
    and "direct_delivery (inbox_of st) direct (receipt_set extra)" "inputs_sound st"
  shows "input_refines st st'"
proof -
  note st' = delivered_state [OF assms(1,2,4-7)]
  have set_append: "receipt_set (xs @ ys) = receipt_set xs \<union> receipt_set ys" for xs ys
    by (auto simp: receipt_set_def)
  have "inbox_of st' = (inbox_of st)\<lparr>
      ib_queue := filter (\<lambda>x. pm_id x \<notin> pm_id ` set ms) (ib_queue (inbox_of st)),
      ib_conversation := ib_conversation (inbox_of st) @ cs @ direct,
      ib_receipts := set_status (pm_id ` set ms) ReceiptCanonical ` ib_receipts (inbox_of st)
        \<union> receipt_set extra\<rparr>"
    using st' by (simp add: inbox_of_def set_append)
  moreover have "inbox_step (inbox_of st) \<dots>"
    using assms(4-6) by (intro inbox_step.deliver) (simp_all add: inbox_of_def)
  moreover have "receipts_well_formed (in_receipts st')"
    using st' assms(3) by (simp add: receipts_well_formed_def comp_def image_image ball_Un)
  ultimately show ?thesis
    using st' by (simp add: input_refines_def)
qed

section \<open>What the snapshots pin down\<close>

lemma same_selection_eq: "sameRequestedSelection l r \<longleftrightarrow> l = r"
  by (cases l; cases r; cases "rms_selection l"; cases "rms_selection r")
    (auto simp: sameRequestedSelection_def)

lemma audit_validated:
  "validateAudit m audit binding = Inr u \<longleftrightarrow>
     pm_requestedModelSelection m = mma_requested audit \<and> sameSelection (mma_actual audit) (emb_selection binding)"
  by (simp add: validateAudit_def same_selection_eq)

lemma snapshot_validated:
  assumes "validateResolvedSnapshot current snapshot binding s = Inr m"
  shows "current = Some m" "pm_id m = pm_id (rs_pending snapshot)" "pm_state m = s"
    "same_revision m (rs_pending snapshot)" "mma_requested (rs_modelAudit snapshot) = pm_requestedModelSelection m"
  using assms audit_validated
  by (auto simp: validateResolvedSnapshot_def bindE_Inr_iff split: option.splits if_splits)

lemma prefix_resolved:
  assumes "resolveQueuePrefix queued snapshots binding = Inr ms"
  shows "ms = take (length snapshots) queued \<and> length ms = length snapshots
    \<and> list_all2 (\<lambda>m s. pm_id m = pm_id (rs_pending s) \<and> same_revision m (rs_pending s)
        \<and> mma_requested (rs_modelAudit s) = pm_requestedModelSelection m) ms snapshots"
  using assms
proof (induction snapshots arbitrary: queued ms)
  case (Cons s rest)
  obtain m ms' where m: "validateResolvedSnapshot (if queued = [] then None else Some (hd queued)) s binding Queued
      = Inr m" "resolveQueuePrefix (tl queued) rest binding = Inr ms'" "ms = m # ms'"
    using Cons.prems by (auto simp: bindE_Inr_iff)
  then obtain qs where "queued = m # qs"
    using snapshot_validated(1) [OF m(1)] by (cases queued) auto
  then show ?case
    using snapshot_validated [OF m(1)] Cons.IH [OF m(2)] m(3) by auto
qed simp

lemma canonical_fields [simp]:
  "msg_id (toCanonicalMessage m e o' t a c) = pm_id m"
  "delivered_for r (toCanonicalMessage m e o' t a c) \<longleftrightarrow> c \<and> r = pm_clientRequestId m"
  "audited_selection (toCanonicalMessage m e o' t a c) = Some (mma_requested a)"
  "message_text (toCanonicalMessage m e o' t a c) = pm_content m"
proof -
  have "List.map_filter text_of_part (map (\<lambda>x. UserAttachment (f x)) xs) = []" for f and xs :: "AttachmentDescriptor list"
    by (induction xs) (simp_all add: List.map_filter_simps)
  then show "message_text (toCanonicalMessage m e o' t a c) = pm_content m"
    by (simp add: toCanonicalMessage_def List.map_filter_simps)
qed (auto simp: toCanonicalMessage_def)

lemma canonical_delivers:
  assumes "list_all2 (\<lambda>m a. mma_requested a = pm_requestedModelSelection m) ms audits"
  shows "list_all2 delivers ms (canonical_messages e o' t ms audits)"
  using assms unfolding canonical_messages_def
  by (induction rule: list_all2_induct) (simp_all add: delivers_def)

lemma steers_resolved:
  assumes "mapE (resolveSteer st input) snapshots = Inr ms"
  shows "length ms = length snapshots \<and> (\<forall>m \<in> set ms. m \<in> set (in_pending st) \<and> pm_state m = Steering
    \<and> pm_targetExecutionId m = Some (sc_executionId input))
    \<and> map pm_id ms = map (\<lambda>s. pm_id (rs_pending s)) snapshots"
  using assms
proof (induction snapshots arbitrary: ms)
  case (Cons s rest)
  obtain m ms' where m: "resolveSteer st input s = Inr m" "mapE (resolveSteer st input) rest = Inr ms'" "ms = m # ms'"
    using Cons.prems by (auto simp: bindE_Inr_iff)
  then have "find (\<lambda>m. pm_id m = pm_id (rs_pending s)) (in_pending st) = Some m \<and> pm_state m = Steering
      \<and> pm_targetExecutionId m = Some (sc_executionId input)"
    by (auto simp: resolveSteer_def bindE_Inr_iff dest!: snapshot_validated(1) split: option.splits if_splits)
  then show ?case
    using Cons.IH [OF m(2)] m(3) by (auto simp: find_Some_iff)
qed simp

lemma steer_audits:
  assumes "mapE currentSteerAudit ms = Inr audits" "\<forall>m \<in> set ms. audit_ok m"
  shows "list_all2 (\<lambda>m a. mma_requested a = pm_requestedModelSelection m) ms audits"
  using assms
proof (induction ms arbitrary: audits)
  case (Cons m ms)
  then show ?case
    by (auto simp: bindE_Inr_iff currentSteerAudit_def audit_ok_def
        split: option.splits PendingMessageState.splits)
qed simp


section \<open>Each request\<close>

lemma mutation_of_Inr: "mutation_of r = Inr m \<longleftrightarrow> (\<exists>x. r = Inr (x, m))"
  by (auto simp: mutation_of_def bindE_Inr_iff)

lemma well_posed_fresh:
  assumes "well_posed env clock request st" "i \<in> set (request_ids env clock request)"
  shows "i \<notin> ir_messageId ` receipt_set (in_receipts st)"
  using assms by (simp add: well_posed_def receipt_ids)

lemma accepted_fields [simp]:
  "pm_id (acceptedMessage i r c a s p t q k) = i" "audit_ok (acceptedMessage i r c a s p t q k)"
  "pm_acceptedAt (acceptedMessage i r c a s p t q k) = t"
  "pm_clientRequestId (acceptedMessage i r c a s p t q k) = r"
  "pm_requestedModelSelection (acceptedMessage i r c a s p t q k) = q"
  "pm_content (acceptedMessage i r c a s p t q k) = c"
  by (simp_all add: acceptedMessage_def audit_ok_def)

text \<open>A message and its receipt appended for a new request.\<close>

lemma append_refines:
  assumes "commitInput lc now clock st (with_receipts (in_receipts st @ [messageReceipt r i f ReceiptPending q])
      [MessageAccepted (acceptedMessage i r c a s p (fresh_time env st) q k)]) = Inr st'"
    and "find_receipt (in_receipts st) r = None" "assertMessageIdentityAvailable st i = Inr ()"
    and "i \<notin> ir_messageId ` receipt_set (in_receipts st)" "inputs_sound st"
  shows "input_refines st st'"
proof (rule accept_refines [OF assms(1), where r = "\<lparr> ir_clientRequestId = r, ir_messageId = i,
    ir_requestFingerprint = f, ir_status = ReceiptPending, ir_requestedModelSelection = q \<rparr>"])
  show "receipts_well_formed (in_receipts st @ [messageReceipt r i f ReceiptPending q])"
    using assms(2,5) by (simp add: well_formed_append inputs_sound_def messageReceipt_def)
qed (use assms in \<open>simp_all add: messageReceipt_def receipt_for_def fresh_time_def\<close>)

lemma acceptMessage_refines:
  assumes "inputMutation env (AcceptMessage i attachments) st = Inr m" "commitInput lc now clock st m = Inr st'"
    and "inputs_sound st" "well_posed env clock (AcceptMessage i attachments) st"
  shows "input_refines st st'"
proof -
  obtain resolved x where "acceptMessageCommit env i resolved st = Inr (x, m)"
    using assms(1) by (auto simp: bindE_Inr_iff mutation_of_Inr)
  then consider "m = no_mutation"
    | "find_receipt (in_receipts st) (ai_clientRequestId i) = None"
      "assertMessageIdentityAvailable st (new_message_id env (ai_messageId i)) = Inr ()"
      "m = with_receipts (in_receipts st @ [messageReceipt (ai_clientRequestId i)
          (new_message_id env (ai_messageId i)) (acceptFingerprint env i) ReceiptPending (ai_requested i)])
        [MessageAccepted (acceptedMessage (new_message_id env (ai_messageId i)) (ai_clientRequestId i)
          (ai_content i) resolved (ai_source i) None (fresh_time env st) (ai_requested i) [])]"
    by (auto simp: acceptMessageCommit_def bindE_Inr_iff Let_def mutation_of_Inr split: option.splits)
  then show ?thesis
  proof cases
    case 1
    then show ?thesis using uncommitted assms by blast
  next
    case 2
    show ?thesis
      using append_refines [OF assms(2) [unfolded 2(3)] 2(1,2)] well_posed_fresh [OF assms(4)] assms(3) by simp
  qed
qed

lemma acceptParent_refines:
  assumes "inputMutation env (AcceptParentAgentMessage i q aborted) st = Inr m"
    and "commitInput lc now clock st m = Inr st'"
    and "inputs_sound st" "well_posed env clock (AcceptParentAgentMessage i q aborted) st"
  shows "input_refines st st'"
proof -
  obtain x where "acceptParentAgentMessage env i q aborted st = Inr (x, m)"
    using assms(1) by (auto simp: mutation_of_Inr)
  then consider "m = no_mutation"
    | "find_receipt (in_receipts st) (pi_clientRequestId i) = None"
      "assertMessageIdentityAvailable st (ie_newId env) = Inr ()"
      "m = with_receipts (in_receipts st @ [messageReceipt (pi_clientRequestId i) (ie_newId env)
          (parentFingerprint env i q) ReceiptPending q])
        [MessageAccepted (acceptedMessage (ie_newId env) (pi_clientRequestId i) (pi_content i) []
          SourceParentAgent (Some (pi_provenance i)) (fresh_time env st) q [])]"
    by (auto simp: acceptParentAgentMessage_def bindE_Inr_iff Let_def mutation_of_Inr split: option.splits)
  then show ?thesis
  proof cases
    case 1
    then show ?thesis using uncommitted assms by blast
  next
    case 2
    show ?thesis
      using append_refines [OF assms(2) [unfolded 2(3)] 2(1,2)] well_posed_fresh [OF assms(4)] assms(3) by simp
  qed
qed

lemma command_refines:
  assumes "inputMutation env request st = Inr m" "commitInput lc now clock st m = Inr st'" "inputs_sound st"
    and "(\<exists>i. request = ClaimCommand i) \<or> (\<exists>r. request = CompleteCommand r) \<or> (\<exists>r e. request = FailCommand r e)"
  shows "input_refines st st'"
proof -
  have wf: "receipts_well_formed (in_receipts st)"
    using assms(3) by (simp add: inputs_sound_def)
  have "m = no_mutation
    \<or> (\<exists>rs. m = with_receipts rs [] \<and> receipt_set rs = receipt_set (in_receipts st) \<and> receipts_well_formed rs)"
    using assms(4)
  proof (elim disjE exE)
    fix i assume "request = ClaimCommand i"
    with assms(1) wf show ?thesis
      by (fastforce simp: claimCommand_def bindE_Inr_iff mutation_of_Inr well_formed_append split: option.splits)
  next
    fix r assume "request = CompleteCommand r"
    then obtain rs where "replaceExecutingCommandReceipt (in_receipts st) r (\<lambda>c. c\<lparr>cr_status := CommandCompleted\<rparr>)
        = Inr rs" "m = with_receipts rs []"
      using assms(1) by (auto simp: completeCommand_def bindE_Inr_iff mutation_of_Inr)
    with wf show ?thesis
      using command_replaced by fastforce
  next
    fix r e assume "request = FailCommand r e"
    then obtain rs where "replaceExecutingCommandReceipt (in_receipts st) r
        (\<lambda>c. c\<lparr>cr_status := CommandFailed, cr_error := Some e\<rparr>) = Inr rs" "m = with_receipts rs []"
      using assms(1) by (auto simp: failCommand_def bindE_Inr_iff mutation_of_Inr)
    with wf show ?thesis
      using command_replaced by fastforce
  qed
  then show ?thesis
    using uncommitted receipts_refine assms(2,3) by metis
qed


lemma edit_refines:
  assumes "inputMutation env (EditMessage i n c) st = Inr m" "commitInput lc now clock st m = Inr st'"
    and "inputs_sound st"
  shows "input_refines st st'"
proof -
  obtain old where old: "requireQueuedMessage st i n = Inr old"
      "m = events_only [MessageEdited (old\<lparr>pm_content := c, pm_revision := pm_revision old + 1,
         pm_updatedAt := fresh_time env st\<rparr>)]"
    using assms(1) by (auto simp: editMessage_def bindE_Inr_iff mutation_of_Inr Let_def)
  have "audit_ok old"
    using required_queued(1) [OF old(1)] assms(3) by (simp add: inputs_sound_def inbox_sound_def inbox_of_def)
  then have "revised old (old\<lparr>pm_content := c, pm_revision := pm_revision old + 1,
      pm_updatedAt := fresh_time env st\<rparr>)"
    by (simp add: revised_def audit_ok_def split: option.splits)
  then show ?thesis
    using replace_refines [OF assms(2) [unfolded old(2)] _ old(1) _ assms(3)] by blast
qed

lemma claim_refines:
  assumes "inputMutation env (ClaimSteer i) st = Inr m" "commitInput lc now clock st m = Inr st'"
    and "inputs_sound st" "well_posed env clock (ClaimSteer i) st"
  shows "input_refines st st'"
proof -
  obtain old where old: "requireQueuedMessage st (ti_messageId i) (ti_expectedRevision i) = Inr old"
      "m = events_only [MessageSteerClaimed (old\<lparr>pm_state := Steering, pm_revision := pm_revision old + 1,
         pm_updatedAt := fresh_time env st, pm_targetExecutionId := Some (ti_expectedExecutionId i),
         pm_targetRunOrdinal := Some (ti_runOrdinal i), pm_targetModelAudit := Some (ti_modelAudit i),
         pm_claimedAt := Some (case ti_claimedAt i of None \<Rightarrow> ie_nowAgain env | Some t \<Rightarrow> t)\<rparr>)]"
    using assms(1) by (auto simp: claimSteer_def bindE_Inr_iff mutation_of_Inr Let_def)
  have "mma_requested (ti_modelAudit i) = pm_requestedModelSelection old"
    using required_queued(1,2) [OF old(1)] assms(4) by (auto simp: well_posed_def)
  then show ?thesis
    using replace_refines [OF assms(2) [unfolded old(2)] _ old(1) _ assms(3)]
    by (simp add: revised_def audit_ok_def)
qed

lemma deleteMessage_refines:
  assumes "inputMutation env (DeleteMessage i n) st = Inr m" "commitInput lc now clock st m = Inr st'"
    and "inputs_sound st"
  shows "input_refines st st'"
proof -
  obtain old rs where old: "requireQueuedMessage st i n = Inr old"
      "updateReceiptStatuses (in_receipts st) [pm_id old] ReceiptDeleted = Inr rs"
      "m = with_receipts rs [MessageDeleted (pm_id old) (pm_clientRequestId old) (pm_revision old + 1) (fresh_time env st)]"
    using assms(1)
    by (auto simp: deleteMessage_def bindE_Inr_iff mutation_of_Inr Let_def updateReceiptStatus_def)
  show ?thesis
    by (rule delete_refines [OF assms(2) [unfolded old(3)] old(2) required_queued(1) [OF old(1)] assms(3)])
qed

lemma released_from:
  assumes "y \<in> set (map (\<lambda>(i, m). release_steer (t + int i) m) (List.enumerate n ms))"
  shows "\<exists>i. \<exists>y0 \<in> set ms. y = release_steer (t + int i) y0"
proof -
  obtain i y0 where "(i, y0) \<in> set (List.enumerate n ms)" "y = release_steer (t + int i) y0"
    using assms by auto
  moreover have "y0 \<in> set ms" if "(i, y0) \<in> set (List.enumerate n ms)" for i y0
    using set_zip_rightD that unfolding enumerate_eq_zip by metis
  ultimately show ?thesis
    by blast
qed

text \<open>The messages a rollback releases are replaced one by one.\<close>

lemma fold_rolled_back:
  assumes "distinct (map pm_id ms)"
  shows "fold queue_after (map MessageSteerRolledBack ms) q
    = map (\<lambda>x. case find (\<lambda>m. pm_id m = pm_id x) ms of None \<Rightarrow> x | Some m \<Rightarrow> m) q"
  using assms
proof (induction ms arbitrary: q)
  case (Cons m ms)
  have "find (\<lambda>y. pm_id y = pm_id m) ms = None"
    using Cons.prems by (simp add: find_None_iff) (metis imageI)
  then show ?case
    using Cons by (auto simp: split: option.splits)
qed simp

lemma released_ids: "map pm_id (map (\<lambda>(i, m). release_steer (t + int i) m) (List.enumerate n ms)) = map pm_id ms"
  by (induction ms arbitrary: n) (simp_all add: release_steer_def)

lemma rollback_refines:
  assumes "inputMutation env (RollbackSteers e ids) st = Inr m" "commitInput lc now clock st m = Inr st'"
    and "inputs_sound st"
  shows "input_refines st st'"
proof -
  let ?ms = "map (\<lambda>(i, m). release_steer (fresh_time env st + int i) m)
    (List.enumerate 0 (filter (rollback_match e ids) (in_pending st)))"
  let ?f = "\<lambda>x. case find (\<lambda>m. pm_id m = pm_id x) ?ms of None \<Rightarrow> x | Some m \<Rightarrow> m"
  have m: "m = events_only (map MessageSteerRolledBack ?ms)"
    using assms(1) by (simp add: rollbackSteers_def mutation_of_Inr Let_def)
  have queue: "distinct (map pm_id (in_pending st))"
    using assms(3) by (simp add: inputs_sound_def inbox_sound_def inbox_of_def)
  show ?thesis
  proof (rule revise_refines [OF assms(2) [unfolded m] _ _ _ assms(3)])
    show "fold queue_after (map MessageSteerRolledBack ?ms) (in_pending st) = map ?f (in_pending st)"
      by (rule fold_rolled_back) (simp only: released_ids distinct_map_filter_id [OF queue])
    have "fold conversation_after (map MessageSteerRolledBack ms) c = c" for ms c
      by (induction ms) simp_all
    then show "fold conversation_after (map MessageSteerRolledBack ?ms) (in_messages st) = in_messages st"
      by blast
    show "\<forall>x \<in> set (in_pending st). ?f x = x \<or> revised x (?f x)"
    proof
      fix x assume x: "x \<in> set (in_pending st)"
      show "?f x = x \<or> revised x (?f x)"
      proof (cases "find (\<lambda>m. pm_id m = pm_id x) ?ms")
        case (Some y)
        then have "y \<in> set ?ms" "pm_id y = pm_id x"
          using find_SomeD by fast+
        then obtain i y0 where y0: "y = release_steer (fresh_time env st + int i) y0" "y0 \<in> set (in_pending st)"
          using released_from [OF \<open>y \<in> set ?ms\<close>] by auto
        then have "y0 = x"
          using x queue \<open>pm_id y = pm_id x\<close> by (auto simp: release_steer_def distinct_map inj_on_def)
        then show ?thesis
          using y0(1) Some by (simp add: revised_def release_steer_def audit_ok_def)
      qed simp
    qed
  qed auto
qed

lemma completeAsMessage_refines:
  assumes "inputMutation env (CompleteCommandAsMessage i) st = Inr m" "commitInput lc now clock st m = Inr st'"
    and "inputs_sound st" "well_posed env clock (CompleteCommandAsMessage i) st"
  shows "input_refines st st'"
proof -
  let ?id = "new_message_id env (xi_messageId i)"
  let ?m = "acceptedMessage ?id (xi_clientRequestId i) (xi_content i) [] (xi_source i) None
    (fresh_time env st) (xi_requested i) (xi_executionSkillNames i)"
  obtain c where c: "requireExecutingCommandReceipt (in_receipts st) (xi_clientRequestId i) = Inr c"
      "assertMessageIdentityAvailable st ?id = Inr ()"
      "m = with_receipts (map (\<lambda>r. if receipt_request_id r = xi_clientRequestId i
          then messageReceipt (xi_clientRequestId i) ?id (cr_requestFingerprint c) ReceiptPending (xi_requested i)
          else r) (in_receipts st)) [MessageAccepted ?m]"
    using assms(1) by (auto simp: completeCommandAsMessage_def bindE_Inr_iff mutation_of_Inr Let_def)
  then have found: "find_receipt (in_receipts st) (xi_clientRequestId i) = Some (CommandReceipt c)"
    by (auto simp: requireExecutingCommandReceipt_def split: option.splits SessionInputReceipt.splits if_splits)
  let ?r = "\<lparr> ir_clientRequestId = xi_clientRequestId i, ir_messageId = ?id,
    ir_requestFingerprint = cr_requestFingerprint c, ir_status = ReceiptPending,
    ir_requestedModelSelection = xi_requested i \<rparr>"
  have wf: "receipts_well_formed (in_receipts st)"
    using assms(3) by (simp add: inputs_sound_def)
  show ?thesis
    using accept_refines [OF assms(2) [unfolded c(3) messageReceipt_def], of ?r]
      command_to_message [OF found wf, of ?r] c(2) well_posed_fresh [OF assms(4)]
    by (simp add: receipt_for_def fresh_time_def)
qed

lemma recordBarrier_refines:
  assumes "inputMutation env (RecordBarrier t) st = Inr m" "commitInput lc now clock st m = Inr st'"
    and "inputs_sound st"
  shows "input_refines st st'"
  using assms barrier_refines by (auto simp: recordQueueDispatchBarrier_def mutation_of_Inr)


section \<open>Deliveries\<close>

lemma prefix_delivers:
  assumes "resolveQueuePrefix (queued_messages st) snapshots binding = Inr ms"
  shows "set ms \<subseteq> set (in_pending st)"
    "list_all2 delivers ms (canonical_messages e o' t ms (map rs_modelAudit snapshots))"
proof -
  have "set ms \<subseteq> set (queued_messages st)"
    using prefix_resolved [OF assms] set_take_subset by metis
  then show "set ms \<subseteq> set (in_pending st)"
    by (auto simp: queued_messages_def)
  have "list_all2 (\<lambda>m s. mma_requested (rs_modelAudit s) = pm_requestedModelSelection m) ms snapshots"
    using prefix_resolved [OF assms] by (auto elim: list_all2_mono)
  then have "list_all2 (\<lambda>m a. mma_requested a = pm_requestedModelSelection m) ms (map rs_modelAudit snapshots)"
    by (simp add: list.rel_map)
  then show "list_all2 delivers ms (canonical_messages e o' t ms (map rs_modelAudit snapshots))"
    by (rule canonical_delivers)
qed

lemma no_direct: "direct_delivery b [] (receipt_set [])"
  by (simp add: direct_delivery_def receipt_set_def)

lemma beginQueue_refines:
  assumes "inputMutation env (BeginQueueExecution i) st = Inr m" "commitInput lc now clock st m = Inr st'"
    and "inputs_sound st"
  shows "input_refines st st'"
proof -
  let ?cs = "\<lambda>ms. canonical_messages (bq_executionId i) (bq_runOrdinal i) (fresh_time env st) ms
      (map rs_modelAudit (bq_snapshots i))"
  obtain ms rs where ms: "resolveQueuePrefix (queued_messages st) (bq_snapshots i) (bq_binding i) = Inr ms"
      "updateReceiptStatuses (in_receipts st) (map pm_id ms) ReceiptCanonical = Inr rs"
      "m = \<lparr> im_receipts = Some rs, im_barrier = Some None, im_events = start_events (bq_executionStart i)
        @ [MessagesCommitted (bq_executionId i) (?cs ms @ [])] \<rparr>"
    using assms(1) by (auto simp: beginQueueExecution_def bindE_Inr_iff mutation_of_Inr Let_def)
  show ?thesis
  proof (rule deliver_refines [OF assms(2) [unfolded ms(3)] _ _ _ _ no_direct assms(3)])
    show "(case Some rs of None \<Rightarrow> in_receipts st | Some rs' \<Rightarrow> rs')
        = map (set_receipt_status (pm_id ` set ms) ReceiptCanonical) (in_receipts st) @ []"
      using statuses_updated(1) [OF ms(2)] by simp
    show "receipts_well_formed (in_receipts st @ [])"
      using assms(3) by (simp add: inputs_sound_def)
  qed (use prefix_delivers [OF ms(1)] in simp_all)
qed

lemma commitSteers_refines:
  assumes "inputMutation env (CommitSteers i) st = Inr m" "commitInput lc now clock st m = Inr st'"
    and "inputs_sound st"
  shows "input_refines st st'"
proof (cases "sc_snapshots i = []")
  case True
  then show ?thesis
    using assms uncommitted by (auto simp: commitSteers_def mutation_of_Inr)
next
  case False
  then obtain ms audits rs t where ms: "mapE (resolveSteer st i) (sc_snapshots i) = Inr ms"
      "mapE currentSteerAudit ms = Inr audits"
      "updateReceiptStatuses (in_receipts st) (map pm_id ms) ReceiptCanonical = Inr rs"
      "m = \<lparr> im_receipts = Some rs, im_barrier = None, im_events = start_events None
        @ [MessagesCommitted (sc_executionId i)
            (canonical_messages (sc_executionId i) (sc_runOrdinal i) t ms audits @ [])] \<rparr>"
    using assms(1) by (auto simp: commitSteers_def bindE_Inr_iff mutation_of_Inr Let_def start_events_def)
  have pending: "\<forall>x \<in> set ms. x \<in> set (in_pending st)"
    using steers_resolved [OF ms(1)] by simp
  then have "\<forall>x \<in> set ms. audit_ok x"
    using assms(3) by (auto simp: inputs_sound_def inbox_sound_def inbox_of_def)
  note audits = canonical_delivers [OF steer_audits [OF ms(2) this]]
  show ?thesis
  proof (rule deliver_refines [OF assms(2) [unfolded ms(4)] _ _ _ audits no_direct assms(3)])
    show "(case Some rs of None \<Rightarrow> in_receipts st | Some rs' \<Rightarrow> rs')
        = map (set_receipt_status (pm_id ` set ms) ReceiptCanonical) (in_receipts st) @ []"
      using statuses_updated(1) [OF ms(3)] by simp
    show "receipts_well_formed (in_receipts st @ [])"
      using assms(3) by (simp add: inputs_sound_def)
  qed (use pending in blast)
qed

lemma new_id_unused:
  assumes "assertMessageIdentityAvailable st i = Inr u" "i \<notin> ir_messageId ` receipt_set (in_receipts st)"
  shows "unused_id (inbox_of st) i"
  using assms by (simp add: unused_id_def inbox_of_def assertMessageIdentityAvailable_def split: if_splits)

lemma beginDirect_refines:
  assumes "inputMutation env (BeginDirectExecution i) st = Inr m" "commitInput lc now clock st m = Inr st'"
    and "inputs_sound st" "well_posed env clock (BeginDirectExecution i) st"
  shows "input_refines st st'"
proof -
  let ?id = "new_message_id env (bd_messageId i)"
  let ?request = "case bd_clientRequestId i of None \<Rightarrow> js ''direct:'' @ ?id | Some r \<Rightarrow> r"
  let ?c = "toCanonicalMessage (acceptedMessage ?id ?request (bd_content i) [] (direct_source i) None
      (fresh_time env st) (bd_requested i) []) (bd_executionId i) (bd_runOrdinal i) (fresh_time env st)
      (bd_modelAudit i) (bd_clientRequestId i \<noteq> None)"
  define extra where "extra = (case bd_clientRequestId i of None \<Rightarrow> [] | Some r \<Rightarrow> [messageReceipt r ?id
      (sessionInputFingerprint (ie_sha256 env) (direct_source i) (bd_content i) [] (bd_requested i))
      ReceiptCanonical (bd_requested i)])"
  have checked: "assertMessageIdentityAvailable st ?id = Inr ()"
      "case bd_clientRequestId i of None \<Rightarrow> True | Some r \<Rightarrow> find_receipt (in_receipts st) r = None"
      "mma_requested (bd_modelAudit i) = bd_requested i"
    using assms(1) by (auto simp: beginDirectExecution_def bindE_Inr_iff mutation_of_Inr Let_def
        audit_validated split: option.splits if_splits)
  have m: "m = \<lparr> im_receipts = (case bd_clientRequestId i of None \<Rightarrow> None | Some r \<Rightarrow> Some (in_receipts st @ extra)),
      im_barrier = None, im_events = start_events None @ [MessagesCommitted (bd_executionId i) ([] @ [?c])] \<rparr>"
    using assms(1) by (auto simp: beginDirectExecution_def bindE_Inr_iff mutation_of_Inr Let_def extra_def
        start_events_def split: option.splits)
  have unused: "unused_id (inbox_of st) ?id"
    using new_id_unused [OF checked(1)] well_posed_fresh [OF assms(4)] by simp
  have "set_receipt_status {} s r = r" for s r
    by (cases r) simp_all
  then have status: "map (set_receipt_status {} s) rs = rs" for s rs
    by (simp add: map_idI)
  show ?thesis
  proof (rule deliver_refines [OF assms(2) [unfolded m], where ms = "[]" and extra = extra])
    show "receipts_well_formed (in_receipts st @ extra)"
      using assms(3) checked(2)
      by (simp add: extra_def inputs_sound_def well_formed_append messageReceipt_def split: option.splits)
    show "direct_delivery (inbox_of st) [?c] (receipt_set extra)"
      using unused checked(3)
      by (simp add: direct_delivery_def extra_def receipt_set_def messageReceipt_def split: option.split)
    show "(case case bd_clientRequestId i of None \<Rightarrow> None | Some r \<Rightarrow> Some (in_receipts st @ extra) of
          None \<Rightarrow> in_receipts st | Some rs' \<Rightarrow> rs')
        = map (set_receipt_status (pm_id ` set []) ReceiptCanonical) (in_receipts st) @ extra"
      by (simp add: extra_def status split: option.split)
  qed (use assms(3) in simp_all)
qed

lemma beginResume_refines:
  assumes "inputMutation env (BeginChildResumeExecution i) st = Inr m" "commitInput lc now clock st m = Inr st'"
    and "inputs_sound st" "well_posed env clock (BeginChildResumeExecution i) st"
  shows "input_refines st st'"
proof -
  let ?t = "max (fresh_time env st) (nextSessionTimestamp st (ie_nowAgain env))"
  let ?p = "acceptedMessage (ie_newId env) (br_clientRequestId i) (br_instruction i) [] SourceParentAgent
      (Some (br_provenance i)) (fresh_time env st) (br_requested i) []"
  let ?c = "toCanonicalMessage ?p (br_executionId i) (br_runOrdinal i) ?t (br_modelAudit i) True"
  let ?cs = "\<lambda>ms. canonical_messages (br_executionId i) (br_runOrdinal i) ?t ms (map rs_modelAudit (br_snapshots i))"
  define extra where "extra = [messageReceipt (br_clientRequestId i) (ie_newId env)
      (parentAgentResumeFingerprint (ie_sha256 env) (br_instruction i) (br_executionId i) (br_provenance i)
        (br_requested i)) ReceiptCanonical (br_requested i)]"
  obtain ms rs where ms: "resolveQueuePrefix (queued_messages st) (br_snapshots i) (br_binding i) = Inr ms"
      "updateReceiptStatuses (in_receipts st) (map pm_id ms) ReceiptCanonical = Inr rs"
      "assertMessageIdentityAvailable st (ie_newId env) = Inr ()"
      "br_clientRequestId i \<notin> receipt_request_id ` set (in_receipts st)"
      "mma_requested (br_modelAudit i) = br_requested i"
      "m = \<lparr> im_receipts = Some (rs @ extra), im_barrier = Some None,
         im_events = start_events (Some (br_executionStart i))
           @ [MessagesCommitted (br_executionId i) (?cs ms @ [?c])] \<rparr>"
    using assms(1) by (auto simp: beginChildResumeExecution_def bindE_Inr_iff mutation_of_Inr Let_def
        audit_validated extra_def start_events_def split: if_splits)
  have unused: "unused_id (inbox_of st) (ie_newId env)"
    using new_id_unused [OF ms(3)] well_posed_fresh [OF assms(4)] by simp
  show ?thesis
  proof (rule deliver_refines [OF assms(2) [unfolded ms(6)] _ _ prefix_delivers [OF ms(1)], where extra = extra])
    show "(case Some (rs @ extra) of None \<Rightarrow> in_receipts st | Some rs' \<Rightarrow> rs')
        = map (set_receipt_status (pm_id ` set ms) ReceiptCanonical) (in_receipts st) @ extra"
      using statuses_updated(1) [OF ms(2)] by simp
    show "receipts_well_formed (in_receipts st @ extra)"
      using assms(3) ms(4) by (simp add: extra_def inputs_sound_def well_formed_append messageReceipt_def)
    show "direct_delivery (inbox_of st) [?c] (receipt_set extra)"
      using unused ms(5)
      by (simp add: direct_delivery_def extra_def receipt_set_def messageReceipt_def)
  qed (use assms(3) in simp)
qed


section \<open>Skill commands\<close>

lemma notice_appended:
  assumes "appendEventToState lc st (StreamPayload (SystemNotice n)) False now ctx = Inr st'"
  shows "pendingMessages (st_shared st') = pendingMessages (st_shared st)
    \<and> (\<exists>c. messages (st_shared st') = messages (st_shared st) @ [c] \<and> msg_id c = rc_generateId ctx 1)
    \<and> same_session st st'"
proof -
  obtain publishable where "recordEvent lc st (StreamPayload (SystemNotice n)) publishable now ctx = Inr st'"
    using assms by (auto simp: appendEventToState_def)
  then obtain st2 where st2: "delegateToProtocol lc st (SystemNotice n) ctx = Inr st2" "st_shared st' = st_shared st2"
    using record_shared by fastforce
  obtain p where "reduceStreamEvent lc ((st_shared st)\<lparr>compression := None\<rparr>) (SystemNotice n) ctx = Inr p"
      "messages (st_shared st2) = present (p_messages p) (messages (st_shared st))"
      "pendingMessages (st_shared st2) = present (p_pendingMessages p) (pendingMessages (st_shared st))"
      "same_session st st2"
    using st2(1) by (rule delegated)
  then show ?thesis
    using st2(2) by (auto simp: onSystemNotice_def Let_def same_session_def)
qed

lemma skill_committed:
  assumes "commitInput lc now clock st (with_receipts rs [SystemNotice n, MessageAccepted m]) = Inr st'"
  obtains c where "in_pending st' = in_pending st @ [m]" "in_messages st' = in_messages st @ [c]"
    "msg_id c = rc_generateId (snd (clock 0)) 1" "in_receipts st' = rs"
    "same_session (in_store st) (in_store st')"
proof -
  obtain t0 x0 t1 x1 where clock: "clock 0 = (t0, x0)" "clock 1 = (t1, x1)"
    by (metis surj_pair)
  obtain mid store' where mid: "appendEventToState lc (in_store st) (StreamPayload (SystemNotice n)) False t0 x0 = Inr mid"
      "appendEventToState lc mid (StreamPayload (MessageAccepted m)) False t1 x1 = Inr store'"
      "in_store st' = store'" "in_receipts st' = rs"
    using assms clock by (auto simp: commitInput_def input_changes_def applyMutation_def bindE_Inr_iff)
  have "recorded_as (MessageAccepted m) mid store'"
    using input_event_appended [OF mid(2)] by simp
  with notice_appended [OF mid(1)] mid(3,4) clock(1) that show ?thesis
    by (auto simp: recorded_as_def same_session_def)
qed

lemma acceptSkill_refines:
  assumes "inputMutation env (AcceptSkillCommand i) st = Inr m" "commitInput lc now clock st m = Inr st'"
    and "inputs_sound st" "well_posed env clock (AcceptSkillCommand i) st"
  shows "input_refines st st'"
proof -
  let ?m = "acceptedMessage (ie_newId env) (si_clientRequestId i) (si_skillContent i) [] (si_source i) None
      (fresh_time env st) (si_requested i) [si_skillName i]"
  let ?r = "\<lparr> ir_clientRequestId = si_clientRequestId i, ir_messageId = ie_newId env,
      ir_requestFingerprint = skillFingerprint env i, ir_status = ReceiptPending,
      ir_requestedModelSelection = si_requested i \<rparr>"
  consider "m = no_mutation"
    | "find_receipt (in_receipts st) (si_clientRequestId i) = None"
      "assertMessageIdentityAvailable st (ie_newId env) = Inr ()"
      "m = with_receipts (in_receipts st @ [MessageReceipt ?r]) [SystemNotice (skillNotice (si_skillName i)), MessageAccepted ?m]"
    using assms(1) by (auto simp: acceptSkillCommandMessage_def bindE_Inr_iff Let_def mutation_of_Inr
        messageReceipt_def split: option.splits)
  then show ?thesis
  proof cases
    case 1
    then show ?thesis using uncommitted assms by blast
  next
    case 2
    obtain c where c: "in_pending st' = in_pending st @ [?m]" "in_messages st' = in_messages st @ [c]"
        "msg_id c = rc_generateId (snd (clock 0)) 1" "in_receipts st' = in_receipts st @ [MessageReceipt ?r]"
        "same_session (in_store st) (in_store st')"
      using assms(2) [unfolded 2(3)] by (rule skill_committed)
    have "unused_id (inbox_of st) (ie_newId env)" "unused_id (inbox_of st) (msg_id c)" "msg_id c \<noteq> ie_newId env"
      using assms(4) c(3) by (auto simp: well_posed_def unused_id_def inbox_of_def receipt_ids)
    then have "inbox_step (inbox_of st) ((inbox_of st)\<lparr>ib_queue := ib_queue (inbox_of st) @ [?m],
        ib_conversation := ib_conversation (inbox_of st) @ [c], ib_receipts := insert ?r (ib_receipts (inbox_of st))\<rparr>)"
      using accepted_later by (intro inbox_step.accept) (simp_all add: receipt_for_def fresh_time_def inbox_of_def)
    moreover have "inbox_of st' = (inbox_of st)\<lparr>ib_queue := ib_queue (inbox_of st) @ [?m],
        ib_conversation := ib_conversation (inbox_of st) @ [c], ib_receipts := insert ?r (ib_receipts (inbox_of st))\<rparr>"
      using c by (simp add: inbox_of_def)
    moreover have "receipts_well_formed (in_receipts st')"
      using c(4) 2(1) assms(3) by (simp add: inputs_sound_def well_formed_append)
    ultimately show ?thesis
      using c(5) by (simp add: input_refines_def)
  qed
qed

section \<open>Every request\<close>

lemma request_refines:
  assumes "inputMutation env request st = Inr m" "commitInput lc now clock st m = Inr st'"
    and "inputs_sound st" "well_posed env clock request st"
  shows "input_refines st st'"
proof (cases request)
  case (RecordBarrier t)
  then show ?thesis using recordBarrier_refines assms by blast
next
  case (AcceptSkillCommand i)
  then show ?thesis using acceptSkill_refines assms by blast
next
  case (CompleteCommandAsMessage i)
  then show ?thesis using completeAsMessage_refines assms by blast
next
  case (AcceptMessage i attachments)
  then show ?thesis using acceptMessage_refines assms by blast
next
  case (AcceptParentAgentMessage i q aborted)
  then show ?thesis using acceptParent_refines assms by blast
next
  case (EditMessage i n c)
  then show ?thesis using edit_refines assms by blast
next
  case (DeleteMessage i n)
  then show ?thesis using deleteMessage_refines assms by blast
next
  case (ClaimSteer i)
  then show ?thesis using claim_refines assms by blast
next
  case (BeginQueueExecution i)
  then show ?thesis using beginQueue_refines assms by blast
next
  case (BeginChildResumeExecution i)
  then show ?thesis using beginResume_refines assms by blast
next
  case (BeginDirectExecution i)
  then show ?thesis using beginDirect_refines assms by blast
next
  case (CommitSteers i)
  then show ?thesis using commitSteers_refines assms by blast
next
  case (RollbackSteers e ids)
  then show ?thesis using rollback_refines assms by blast
qed (use command_refines [OF assms(1-3)] in blast)+

lemma refined_sound: "input_refines st st' \<Longrightarrow> inputs_sound st \<Longrightarrow> inputs_sound st'"
  using step_sound by (auto simp: input_refines_def inputs_sound_def)

end
