(* ===== verification/SessionInputHistory.thy ===== *)
theory SessionInputHistory
  imports SessionInputRefinement
begin

text \<open>
  The input service over a history of requests: its messages and receipts always agree, an accepted
  request stays accepted, a revision is consumed once, and the queue is delivered in its order.
\<close>

section \<open>Services over an inbox\<close>

fun all_admitted :: "('s \<Rightarrow> 'r \<Rightarrow> 's) \<Rightarrow> ('s \<Rightarrow> 'r \<Rightarrow> bool) \<Rightarrow> 's \<Rightarrow> 'r list \<Rightarrow> bool" where
  "all_admitted serve admitted s [] \<longleftrightarrow> True"
| "all_admitted serve admitted s (r # rs) \<longleftrightarrow> admitted s r \<and> all_admitted serve admitted (serve s r) rs"

text \<open>A client of the inbox knows of a service only that each request it serves is a step.\<close>

locale inbox_service =
  fixes serve :: "'s \<Rightarrow> 'r \<Rightarrow> 's"
    and admitted :: "'s \<Rightarrow> 'r \<Rightarrow> bool"
    and sound :: "'s \<Rightarrow> bool"
    and view :: "'s \<Rightarrow> Inbox"
  assumes serve_sound: "sound s \<Longrightarrow> admitted s r \<Longrightarrow> sound (serve s r)"
    and serve_step: "sound s \<Longrightarrow> admitted s r \<Longrightarrow> inbox_step (view s) (view (serve s r))"
    and view_sound: "sound s \<Longrightarrow> inbox_sound (view s)"
begin

lemma history_sound:
  "sound s \<Longrightarrow> all_admitted serve admitted s rs \<Longrightarrow> sound (foldl serve s rs)"
  by (induction rs arbitrary: s) (auto intro: serve_sound)

lemma history_receipt:
  assumes "sound s" "all_admitted serve admitted s rs" "r \<in> ib_receipts (view s)"
  shows "\<exists>r' \<in> ib_receipts (view (foldl serve s rs)). same_request r r'
    \<and> (ir_status r \<noteq> ReceiptPending \<longrightarrow> r' = r)"
  using assms
proof (induction rs arbitrary: s r)
  case Nil
  then show ?case
    by (intro bexI [of _ r]) simp_all
next
  case (Cons q rs)
  then have step: "inbox_step (view s) (view (serve s q))" "inbox_sound (view s)" "sound (serve s q)"
    using serve_step view_sound serve_sound by auto
  obtain r1 where r1: "r1 \<in> ib_receipts (view (serve s q))" "same_request r r1"
      "ir_status r \<noteq> ReceiptPending \<longrightarrow> r1 = r"
    using step_keeps_receipt [OF step(1,2) Cons.prems(3)] by blast
  obtain r2 where "r2 \<in> ib_receipts (view (foldl serve (serve s q) rs))" "same_request r1 r2"
      "ir_status r1 \<noteq> ReceiptPending \<longrightarrow> r2 = r1"
    using Cons.IH [OF step(3) _ r1(1)] Cons.prems(2) by auto
  with r1 same_request_trans show ?case
    by auto
qed

lemma history_past:
  "sound s \<Longrightarrow> all_admitted serve admitted s rs \<Longrightarrow> past_revision (view s) i n \<Longrightarrow>
     past_revision (view (foldl serve s rs)) i n"
proof (induction rs arbitrary: s)
  case (Cons q rs)
  then have "past_revision (view (serve s q)) i n"
    using step_keeps_past [OF serve_step view_sound] by simp
  then show ?case
    using Cons serve_sound by simp
qed simp

end

section \<open>The input service as one\<close>

definition serveOne :: "collation \<Rightarrow> SessionInputState \<Rightarrow> timed_request \<Rightarrow> SessionInputState" where
  "serveOne lc st r = (case serveInput lc r st of Inl _ \<Rightarrow> st | Inr st' \<Rightarrow> st')"

lemma serveInputs_foldl: "serveInputs lc rs st = foldl (serveOne lc) st rs"
  by (induction rs arbitrary: st) (simp_all add: serveOne_def)

fun posed :: "SessionInputState \<Rightarrow> timed_request \<Rightarrow> bool" where
  "posed st (env, now, clock, request) = well_posed env clock request st"

abbreviation all_posed :: "collation \<Rightarrow> SessionInputState \<Rightarrow> timed_request list \<Rightarrow> bool" where
  "all_posed lc \<equiv> all_admitted (serveOne lc) posed"

lemma served_refines:
  assumes "inputs_sound st" "posed st r"
  shows "input_refines st (serveOne lc st r)"
proof -
  obtain env now clock request where r: "r = (env, now, clock, request)"
    by (cases r)
  show ?thesis
  proof (cases "serveInput lc r st")
    case (Inl e)
    then show ?thesis
      using assms(1) by (simp add: serveOne_def input_refines_def inputs_sound_def same_session_def inbox_step.idle)
  next
    case (Inr st')
    then obtain m where "inputMutation env request st = Inr m" "commitInput lc now clock st m = Inr st'"
      by (auto simp: r bindE_Inr_iff)
    then show ?thesis
      using request_refines assms Inr by (simp add: r serveOne_def)
  qed
qed

interpretation input_service: inbox_service "serveOne lc" posed inputs_sound inbox_of
  for lc
proof unfold_locales
  show "inputs_sound (serveOne lc st r)" "inbox_step (inbox_of st) (inbox_of (serveOne lc st r))"
    if "inputs_sound st" "posed st r" for st r
    using served_refines [OF that] refined_sound that(1) by (auto simp: input_refines_def)
qed (simp add: inputs_sound_def)

lemma served_session:
  "inputs_sound st \<Longrightarrow> all_posed lc st rs \<Longrightarrow> same_session (in_store st) (in_store (serveInputs lc rs st))"
proof (induction rs arbitrary: st)
  case (Cons r rs)
  then have step: "input_refines st (serveOne lc st r)"
    using served_refines by simp
  then have "same_session (in_store st) (in_store (serveOne lc st r))" "inputs_sound (serveOne lc st r)"
    using refined_sound [OF step] Cons.prems(1) by (simp_all add: input_refines_def)
  with Cons show ?case
    by (fastforce simp: serveInputs_foldl same_session_def)
qed (simp add: same_session_def)

section \<open>Messages and receipts agree\<close>

lemma find_rev_None [simp]: "find P (rev xs) = None \<longleftrightarrow> (\<forall>x \<in> set xs. \<not> P x)"
  by (auto simp: find_None_iff)

lemma find_rev_Some: "find P (rev xs) = Some x \<Longrightarrow> x \<in> set xs \<and> P x"
  using find_SomeD by fastforce

lemma message_receipts_set [simp]: "set (message_receipts rs) = receipt_set rs"
  unfolding message_receipts_def receipt_set_def
proof (induction rs)
  case (Cons r rs)
  then show ?case by (cases r) (auto simp: List.map_filter_simps)
qed (simp add: List.map_filter_simps)

lemma sound_pending_ok:
  assumes "inputs_sound st" "m \<in> set (in_pending st)"
  shows "pending_ok st m"
proof -
  have b: "inbox_sound (inbox_of st)"
    using assms(1) by (simp add: inputs_sound_def)
  then obtain r0 where r0: "r0 \<in> receipt_set (in_receipts st)" "ir_messageId r0 = pm_id m"
    using assms(2) by (auto simp: inbox_sound_def inbox_of_def receipt_for_def)
  then obtain r where r: "receipt_by_message_id (in_receipts st) (pm_id m) = Some r"
    unfolding receipt_by_message_id_def
    using find_rev_None [of "\<lambda>r. ir_messageId r = pm_id m" "message_receipts (in_receipts st)"] by fastforce
  then have "r \<in> receipt_set (in_receipts st)" "ir_messageId r = pm_id m"
    using find_rev_Some unfolding receipt_by_message_id_def by fastforce+
  then have "receipt_for r m" "ir_status r = ReceiptPending"
    using pending_receipt [OF b, of m r] assms(2) by (simp_all add: inbox_of_def)
  moreover have "pm_id m \<notin> msg_id ` set (in_messages st)"
    using b assms(2) by (simp add: inbox_sound_def inbox_of_def)
  then have "canonical_by_id (in_messages st) (pm_id m) = None"
    by (simp add: canonical_by_id_def) (metis imageI)
  ultimately show ?thesis
    using r by (simp add: pending_ok_def option_test_def receipt_for_def)
qed

lemma sound_receipt_ok:
  assumes "inputs_sound st" "r \<in> receipt_set (in_receipts st)"
  shows "receipt_ok st r"
proof -
  have b: "inbox_sound (inbox_of st)"
    using assms(1) by (simp add: inputs_sound_def)
  have r: "receipt_sound (inbox_of st) r"
    using b assms(2) by (simp add: inbox_sound_def inbox_of_def)
  show ?thesis
  proof (cases "pending_by_id (in_pending st) (ir_messageId r)")
    case (Some m)
    then have m: "m \<in> set (in_pending st)" "ir_messageId r = pm_id m"
      using find_rev_Some unfolding pending_by_id_def by fastforce+
    then have "receipt_for r m" "ir_status r = ReceiptPending"
      using pending_receipt [OF b, of m r] assms(2) by (simp_all add: inbox_of_def)
    then show ?thesis
      using Some by (simp add: receipt_ok_def Let_def receipt_for_def)
  next
    case None
    then have gone: "ir_messageId r \<notin> pm_id ` set (in_pending st)"
      by (auto simp: pending_by_id_def)
    show ?thesis
    proof (cases "ir_status r")
      case ReceiptPending
      then show ?thesis using r gone by (simp add: receipt_sound_def inbox_of_def)
    next
      case ReceiptDeleted
      then have "canonical_by_id (in_messages st) (ir_messageId r) = None"
        using r by (simp add: receipt_sound_def inbox_of_def canonical_by_id_def) (metis imageI)
      then show ?thesis
        using None ReceiptDeleted by (simp add: receipt_ok_def Let_def)
    next
      case ReceiptCanonical
      then have c: "ir_messageId r \<in> msg_id ` set (in_messages st)"
          "\<forall>c \<in> set (in_messages st). msg_id c = ir_messageId r \<longrightarrow>
             delivered_for (ir_clientRequestId r) c \<and> audited_selection c = Some (ir_requestedModelSelection r)"
        using r by (auto simp: receipt_sound_def inbox_of_def)
      then obtain c where "canonical_by_id (in_messages st) (ir_messageId r) = Some c"
        using find_rev_None [of "\<lambda>c. msg_id c = ir_messageId r" "in_messages st"]
        unfolding canonical_by_id_def by fastforce
      moreover from this have "c \<in> set (in_messages st)" "msg_id c = ir_messageId r"
        using find_rev_Some unfolding canonical_by_id_def by fastforce+
      ultimately show ?thesis
        using None ReceiptCanonical c(2) by (simp add: receipt_ok_def Let_def option_test_def)
    qed
  qed
qed

lemma sound_input_valid:
  assumes "inputs_sound st"
  shows "inputs_agree st"
proof -
  have b: "inbox_sound (inbox_of st)" and wf: "receipts_well_formed (in_receipts st)"
    using assms by (simp_all add: inputs_sound_def)
  have ids: "distinct (map pm_id (in_pending st))"
    using b by (simp add: inbox_sound_def inbox_of_def)
  have "inj_on pm_clientRequestId (set (in_pending st))"
  proof (rule inj_onI)
    fix x y assume xy: "x \<in> set (in_pending st)" "y \<in> set (in_pending st)" "pm_clientRequestId x = pm_clientRequestId y"
    have "\<exists>r. MessageReceipt r \<in> set (in_receipts st) \<and> receipt_for r m" if "m \<in> set (in_pending st)" for m
      using b that by (auto simp: inbox_sound_def inbox_of_def receipt_set_def)
    then obtain rx ry where r: "MessageReceipt rx \<in> set (in_receipts st)" "MessageReceipt ry \<in> set (in_receipts st)"
        "receipt_for rx x" "receipt_for ry y"
      using xy(1,2) by blast
    then have "receipt_request_id (MessageReceipt rx) = receipt_request_id (MessageReceipt ry)"
      using xy(3) by (simp add: receipt_for_def)
    then have "MessageReceipt rx = MessageReceipt ry"
      using wf r(1,2) by (intro inj_onD [of receipt_request_id "set (in_receipts st)"])
        (simp_all only: receipts_well_formed_def distinct_map)
    then have "rx = ry"
      by simp
    then have "pm_id x = pm_id y"
      using r(3,4) by (simp add: receipt_for_def)
    then show "x = y"
      using xy(1,2) ids by (simp add: distinct_map inj_on_def)
  qed
  then have "distinct (map pm_clientRequestId (in_pending st))"
    using ids by (simp add: distinct_map)
  then show ?thesis
    using ids wf sound_pending_ok sound_receipt_ok assms
    by (simp add: inputs_agree_def unique_inputs_def receipts_well_formed_def)
qed

lemma new_inputs_sound:
  "in_pending st = [] \<Longrightarrow> in_receipts st = [] \<Longrightarrow> inputs_sound st"
  by (simp add: inputs_sound_def inbox_sound_def inbox_of_def receipts_well_formed_def receipt_set_def)

section \<open>Each request one step\<close>

text \<open>
  C18: each request the input service commits does one thing to its abstract inbox: it appends one
  message with its receipt, revises queued messages, deletes one, hands some to the conversation and
  marks exactly their receipts, or changes nothing.
\<close>
theorem input_requests_refine_inbox:
  assumes "inputs_sound st" "well_posed env clock request st"
    and "serveInput lc (env, now, clock, request) st = Inr st'"
  shows "inbox_step (inbox_of st) (inbox_of st') \<and> same_session (in_store st) (in_store st')"
  using served_refines [of st "(env, now, clock, request)" lc] assms
  by (simp add: serveOne_def input_refines_def)

section \<open>Accepted once\<close>

lemma receipt_findable:
  assumes "receipts_well_formed rs" "MessageReceipt r \<in> set rs"
  shows "find_receipt rs (ir_clientRequestId r) = Some (MessageReceipt r)"
proof -
  obtain x where x: "find_receipt rs (ir_clientRequestId r) = Some x"
    using assms(2) find_receipt_None [of rs "ir_clientRequestId r"]
    by (cases "find_receipt rs (ir_clientRequestId r)") force+
  then have "x = MessageReceipt r"
    using find_receipt_Some [OF x] assms
    by (intro inj_onD [of receipt_request_id "set rs"]) (simp_all add: receipts_well_formed_def distinct_map)
  with x show ?thesis by simp
qed

text \<open>An acceptance leaves a receipt of the request.\<close>

lemma accepted_receipt:
  assumes "acceptMessageCommit env i attachments st = Inr (a, m)" "commitInput lc now clock st m = Inr st'"
  shows "\<exists>r. MessageReceipt r \<in> set (in_receipts st') \<and> ir_clientRequestId r = ai_clientRequestId i
    \<and> ir_requestFingerprint r = acceptFingerprint env i \<and> ir_messageId r = ma_messageId a"
proof (cases "find_receipt (in_receipts st) (ai_clientRequestId i)")
  case None
  then have "\<exists>x. m = with_receipts (in_receipts st @ [messageReceipt (ai_clientRequestId i)
        (ma_messageId a) (acceptFingerprint env i) ReceiptPending (ai_requested i)]) [MessageAccepted x]"
    using assms(1) unfolding acceptMessageCommit_def None option.case
    by (auto simp: bindE_Inr_iff Let_def acceptedResult_def)
  then show ?thesis
    using input_committed [OF assms(2)] by (auto simp: messageReceipt_def)
next
  case (Some x)
  then have "replayAcceptance st x (acceptFingerprint env i) = Inr a" "m = no_mutation"
    using assms(1) by (auto simp: acceptMessageCommit_def bindE_Inr_iff)
  moreover have "st' = st"
    using assms(2) \<open>m = no_mutation\<close> by (simp add: commitInput_def input_changes_def)
  ultimately show ?thesis
    using find_receipt_Some [OF Some]
    by (cases x) (auto simp: acceptanceForMessageReceipt_def Let_def split: if_splits)
qed

lemma accepted_again:
  assumes "inputs_sound st" "MessageReceipt r \<in> set (in_receipts st)" "assertRootSession st = Inr ()"
    and "ir_clientRequestId r = ai_clientRequestId i" "ir_requestFingerprint r = acceptFingerprint env i"
    and "checkAcceptMessage i = Inr ()"
  shows "\<exists>a. acceptMessage env resolveDescriptors i st st = Inr (a, no_mutation) \<and> ma_messageId a = ir_messageId r
    \<and> ma_status a = ir_status r"
proof -
  have "find_receipt (in_receipts st) (ai_clientRequestId i) = Some (MessageReceipt r)"
    using receipt_findable [OF _ assms(2)] assms(1,4) by (simp add: inputs_sound_def)
  moreover have "find (\<lambda>m. pm_id m = ir_messageId r) (in_pending st) \<noteq> None" if "ir_status r = ReceiptPending"
  proof -
    have "receipt_sound (inbox_of st) r"
      using assms(1,2) by (simp add: inputs_sound_def inbox_sound_def inbox_of_def receipt_set_def)
    then show ?thesis
      using that by (auto simp: receipt_sound_def inbox_of_def find_None_iff)
  qed
  ultimately show ?thesis
    using assms(3,5,6) by (auto simp: acceptMessage_def acceptMessageReplay_def acceptanceForMessageReceipt_def Let_def)
qed

text \<open>
  C9: accepting a message is idempotent for good. Once a client's request has been accepted, repeating
  it at any later time, whatever the service has done in between and however the attachments resolve
  then, is answered with the same message and commits nothing, even if the message has been edited,
  delivered or deleted.
\<close>
theorem accepted_request_is_idempotent:
  assumes "inputs_sound st" "well_posed env clock (AcceptMessage i attachments) st"
    and "acceptMessage env (\<lambda>_. attachments) i before st = Inr (a, m)"
    and "acceptMessageReplay env i before = Inr None"
    and "commitInput lc now clock st m = Inr st1" "all_posed lc st1 requests"
    and "ie_sha256 later = ie_sha256 env"
  shows "\<exists>a'. acceptMessage later resolveDescriptors i (serveInputs lc requests st1) (serveInputs lc requests st1)
      = Inr (a', no_mutation) \<and> ma_messageId a' = ma_messageId a"
proof -
  obtain resolved where accepted: "checkAcceptMessage i = Inr ()"
      "copyAndValidateResolvedAttachments (ai_attachmentIds i) attachments = Inr resolved"
      "acceptMessageCommit env i resolved st = Inr (a, m)"
    using assms(3,4) by (auto simp: acceptMessage_def bindE_Inr_iff)
  have step: "input_refines st st1"
    using request_refines [OF _ assms(5,1,2)] accepted by (simp add: mutation_of_Inr)
  have sound: "inputs_sound st1"
    by (rule refined_sound [OF step assms(1)])
  obtain r where r: "r \<in> receipt_set (in_receipts st1)" "ir_clientRequestId r = ai_clientRequestId i"
      "ir_requestFingerprint r = acceptFingerprint env i" "ir_messageId r = ma_messageId a"
    using accepted_receipt [OF accepted(3) assms(5)] by (auto simp: receipt_set_def)
  let ?st = "serveInputs lc requests st1"
  obtain r' where r': "r' \<in> receipt_set (in_receipts ?st)" "same_request r r'"
    using input_service.history_receipt [OF sound assms(6)] r(1) by (auto simp: serveInputs_foldl inbox_of_def)
  have "assertRootSession ?st = assertRootSession st"
    using step served_session [OF sound assms(6)]
    by (simp add: assertRootSession_def input_refines_def same_session_def)
  moreover have "assertRootSession st = Inr ()"
    using accepted(3) by (auto simp: acceptMessageCommit_def bindE_Inr_iff)
  ultimately have root: "assertRootSession ?st = Inr ()"
    by simp
  have "inputs_sound ?st"
    using input_service.history_sound [OF sound assms(6)] by (simp add: serveInputs_foldl)
  moreover have "ir_requestFingerprint r' = acceptFingerprint later i"
    using r(3) same_request_fields(3) [OF r'(2)] assms(7) by (simp add: acceptFingerprint_def)
  ultimately show ?thesis
    using accepted_again [of ?st r' i later resolveDescriptors] r(2,4) same_request_fields(1,2) [OF r'(2)] r'(1)
      root accepted(1) by (auto simp: receipt_set_def)
qed

section \<open>Each revision consumed once\<close>

text \<open>The message and the revision a request says it knows.\<close>

fun expected_revision :: "InputRequest \<Rightarrow> (jstring \<times> int) option" where
  "expected_revision (EditMessage i n c) = Some (i, n)"
| "expected_revision (DeleteMessage i n) = Some (i, n)"
| "expected_revision (ClaimSteer c) = Some (ti_messageId c, ti_expectedRevision c)"
| "expected_revision _ = None"

lemma expected_queued:
  assumes "inputMutation env request st = Inr m" "expected_revision request = Some (i, n)"
  shows "\<exists>old. requireQueuedMessage st i n = Inr old \<and>
    ((\<exists>new e. m = events_only [e] \<and> (e = MessageEdited new \<or> e = MessageSteerClaimed new)
        \<and> pm_id new = i \<and> pm_revision new = n + 1)
     \<or> (\<exists>rs c r t. m = with_receipts rs [MessageDeleted i c r t]))"
proof (cases request)
  case (EditMessage i' n' c)
  then obtain old where "requireQueuedMessage st i n = Inr old"
      "m = events_only [MessageEdited (old\<lparr>pm_content := c, pm_revision := pm_revision old + 1,
         pm_updatedAt := fresh_time env st\<rparr>)]"
    using assms by (auto simp: editMessage_def bindE_Inr_iff mutation_of_Inr Let_def)
  with required_queued [OF this(1)] show ?thesis by auto
next
  case (DeleteMessage i' n')
  then obtain old rs r t where "requireQueuedMessage st i n = Inr old"
      "m = with_receipts rs [MessageDeleted (pm_id old) (pm_clientRequestId old) r t]"
    using assms by (auto simp: deleteMessage_def bindE_Inr_iff mutation_of_Inr Let_def)
  with required_queued [OF this(1)] show ?thesis by auto
next
  case (ClaimSteer x)
  then obtain old where "requireQueuedMessage st i n = Inr old"
      "m = events_only [MessageSteerClaimed (old\<lparr>pm_state := Steering, pm_revision := pm_revision old + 1,
         pm_updatedAt := fresh_time env st, pm_targetExecutionId := Some (ti_expectedExecutionId x),
         pm_targetRunOrdinal := Some (ti_runOrdinal x), pm_targetModelAudit := Some (ti_modelAudit x),
         pm_claimedAt := Some (case ti_claimedAt x of None \<Rightarrow> ie_nowAgain env | Some t \<Rightarrow> t)\<rparr>)]"
    using assms by (auto simp: claimSteer_def bindE_Inr_iff mutation_of_Inr Let_def)
  with required_queued [OF this(1)] show ?thesis by auto
qed (use assms(2) in simp_all)

lemma consumed:
  assumes "inputMutation env request st = Inr m" "expected_revision request = Some (i, n)"
    and "commitInput lc now clock st m = Inr st'" "inputs_sound st" "inputs_sound st'" "input_refines st st'"
  shows "past_revision (inbox_of st') i (n + 1)"
proof -
  obtain old where old: "requireQueuedMessage st i n = Inr old"
      "(\<exists>new e. m = events_only [e] \<and> (e = MessageEdited new \<or> e = MessageSteerClaimed new)
        \<and> pm_id new = i \<and> pm_revision new = n + 1)
     \<or> (\<exists>rs c r t. m = with_receipts rs [MessageDeleted i c r t])"
    using expected_queued [OF assms(1,2)] by blast
  have "past_revision (inbox_of st) i n"
  proof -
    have o: "old \<in> set (in_pending st)" "pm_id old = i" "pm_revision old = n"
      using required_queued [OF old(1)] by auto
    then obtain r where "r \<in> receipt_set (in_receipts st)" "ir_messageId r = i"
      using assms(4) by (auto simp: inputs_sound_def inbox_sound_def inbox_of_def receipt_for_def)
    moreover have "x = old" if "x \<in> set (in_pending st)" "pm_id x = i" for x
      using that o assms(4)
      by (auto simp: inputs_sound_def inbox_sound_def inbox_of_def distinct_map inj_on_def)
    then have "n \<le> pm_revision x" if "x \<in> set (in_pending st)" "pm_id x = i" for x
      using that o(3) by auto
    ultimately show ?thesis
      by (auto simp: past_revision_def inbox_of_def)
  qed
  then have "past_revision (inbox_of st') i n"
    using step_keeps_past assms(4,6) by (auto simp: inputs_sound_def input_refines_def)
  moreover have "\<forall>x \<in> set (in_pending st'). pm_id x = i \<longrightarrow> pm_revision x = n + 1"
    using old(2) input_committed [OF assms(3)] by auto
  ultimately show ?thesis
    by (simp add: past_revision_def inbox_of_def)
qed

text \<open>
  C10: a revision of a queued message is consumed at most once. After an edit, a deletion or a steering
  claim made at one revision has been committed, every later edit, deletion or claim at that revision
  or an older one is refused, whatever happens in between: two clients that saw the same message
  cannot both change it.
\<close>
theorem revision_consumed_once:
  assumes "inputs_sound st" "well_posed env clock request st"
    and "inputMutation env request st = Inr m" "commitInput lc now clock st m = Inr st1"
    and "all_posed lc st1 requests" "expected_revision request = Some (i, n)"
    and "expected_revision stale = Some (i, n')" "n' \<le> n"
  shows "\<exists>e. inputMutation env' stale (serveInputs lc requests st1) = Inl e"
proof -
  have step: "input_refines st st1"
    by (rule request_refines [OF assms(3,4,1,2)])
  have sound: "inputs_sound st1"
    by (rule refined_sound [OF step assms(1)])
  let ?st = "serveInputs lc requests st1"
  have past: "past_revision (inbox_of ?st) i (n + 1)"
    using input_service.history_past [OF sound assms(5) consumed [OF assms(3,6,4,1) sound step]]
    by (simp add: serveInputs_foldl)
  have "inputMutation env' stale ?st \<noteq> Inr m'" for m'
  proof
    assume "inputMutation env' stale ?st = Inr m'"
    then obtain old where "requireQueuedMessage ?st i n' = Inr old"
      using expected_queued [OF _ assms(7)] by blast
    from required_queued [OF this] past assms(8) show False
      by (auto simp: past_revision_def inbox_of_def)
  qed
  then show ?thesis
    by (cases "inputMutation env' stale ?st") auto
qed

end
