(* ===== verification/SessionFileChecks.thy ===== *)
theory SessionFileChecks
  imports SessionInputDelivery SessionGoalContract
begin

text \<open>
  The checks the Session file loader makes on the queued messages, the receipts and the user messages
  of a Session, each taken alone: the schemas of packages/agent-core/src/store/helpers.ts with their
  refinements, the check that a message is audited against a recorded run, and the limits on
  attachments of packages/protocol/src/attachments.ts. \<open>storedInputValid\<close> joins them with the checks
  of messages against receipts.

  The schemas trim some texts. Here such a text must have nothing to trim, so what is loaded is what
  was stored. An attachment id must match the service's own pattern, where \<open>z.uuid()\<close> also takes the
  nil and the maximal UUID. The types already say what a schema says of a field's type and of a
  literal's spelling.
\<close>

section \<open>Texts and selections\<close>

fun optionally :: "('a \<Rightarrow> bool) \<Rightarrow> 'a option \<Rightarrow> bool" where
  "optionally P None \<longleftrightarrow> True"
| "optionally P (Some x) \<longleftrightarrow> P x"

text \<open>\<open>z.string().trim().min(1)\<close> accepts the text and leaves it as it is.\<close>

definition settled_text :: "jstring \<Rightarrow> bool" where
  "settled_text s \<longleftrightarrow> s \<noteq> [] \<and> trim s = s"

definition selection_schema :: "ModelSelectionRef \<Rightarrow> bool" where
  "selection_schema r \<longleftrightarrow> settled_text (msr_model r) \<and> optionally settled_text (msr_variant r)"

definition requested_schema :: "RequestedModelSelection \<Rightarrow> bool" where
  "requested_schema q \<longleftrightarrow> selection_schema (rms_selection q)"

definition audit_schema :: "MessageModelAudit \<Rightarrow> bool" where
  "audit_schema a \<longleftrightarrow> requested_schema (mma_requested a) \<and> selection_schema (mma_actual a)"

definition provenance_schema :: "ParentAgentMessageProvenance \<Rightarrow> bool" where
  "provenance_schema p \<longleftrightarrow> settled_text (pap_senderSessionId p) \<and> settled_text (pap_senderAgentName p)
     \<and> settled_text (pap_senderExecutionId p) \<and> 0 \<le> pap_senderRunOrdinal p
     \<and> settled_text (pap_senderToolBatchId p) \<and> settled_text (pap_senderToolCallId p)"

section \<open>Attachments\<close>

definition MAX_ATTACHMENT_SIZE_BYTES :: int where "MAX_ATTACHMENT_SIZE_BYTES = 52428800"

text \<open>The control characters, Unicode class Cc.\<close>

definition is_control :: "jchar \<Rightarrow> bool" where
  "is_control c \<longleftrightarrow> c \<le> 0x1F \<or> 0x7F \<le> c \<and> c \<le> 0x9F"

definition isValidAttachmentName :: "jstring \<Rightarrow> bool" where
  "isValidAttachmentName s \<longleftrightarrow> trim s \<noteq> [] \<and> s \<noteq> js ''.'' \<and> s \<noteq> js ''..'' \<and> 0x2F \<notin> set s
     \<and> 0x5C \<notin> set s \<and> (\<forall>c \<in> set s. \<not> is_control c) \<and> utf8ByteLength s \<le> 255"

definition media_type_char :: "jchar \<Rightarrow> bool" where
  "media_type_char c \<longleftrightarrow> c \<in> set (js ''!#$%&'' @ [0x27] @ js ''*+.^_`|~-'')
     \<or> 0x30 \<le> c \<and> c \<le> 0x39 \<or> 0x61 \<le> c \<and> c \<le> 0x7A"

definition isValidAttachmentMediaType :: "jstring \<Rightarrow> bool" where
  "isValidAttachmentMediaType s \<longleftrightarrow> takeWhile media_type_char s \<noteq> []
     \<and> (case dropWhile media_type_char s of [] \<Rightarrow> False
        | c # subtype \<Rightarrow> c = 0x2F \<and> subtype \<noteq> [] \<and> (\<forall>d \<in> set subtype. media_type_char d))
     \<and> utf8ByteLength s \<le> 127"

definition attachment_schema :: "AttachmentDescriptor \<Rightarrow> bool" where
  "attachment_schema a \<longleftrightarrow> isAttachmentId (att_id a) \<and> isValidAttachmentName (att_name a)
     \<and> isValidAttachmentMediaType (att_mediaType a)
     \<and> 0 \<le> att_sizeBytes a \<and> att_sizeBytes a \<le> MAX_ATTACHMENT_SIZE_BYTES"

definition attachment_list_schema :: "AttachmentDescriptor list \<Rightarrow> bool" where
  "attachment_list_schema as \<longleftrightarrow> (\<forall>a \<in> set as. attachment_schema a)
     \<and> length as \<le> MAX_ATTACHMENTS_PER_MESSAGE \<and> distinct (map att_id as)"

section \<open>Queued messages\<close>

definition pending_schema :: "PendingSessionMessage \<Rightarrow> bool" where
  "pending_schema m \<longleftrightarrow> settled_text (pm_id m) \<and> settled_text (pm_clientRequestId m)
     \<and> attachment_list_schema (pm_attachments m) \<and> optionally provenance_schema (pm_parentAgentProvenance m)
     \<and> 0 \<le> pm_revision m \<and> optionally settled_text (pm_targetExecutionId m)
     \<and> optionally ((\<le>) 0) (pm_targetRunOrdinal m) \<and> optionally audit_schema (pm_targetModelAudit m)
     \<and> optionally ((\<le>) 0) (pm_claimedAt m) \<and> requested_schema (pm_requestedModelSelection m)
     \<and> (\<forall>name \<in> set (pm_executionSkillNames m). settled_text name) \<and> length (pm_executionSkillNames m) \<le> 1
     \<and> (pm_source m = SourceParentAgent) = (pm_parentAgentProvenance m \<noteq> None)
     \<and> (pm_source m = SourceParentAgent \<longrightarrow> pm_attachments m = [] \<and> pm_executionSkillNames m = [])
     \<and> (trim (pm_content m) \<noteq> [] \<or> pm_attachments m \<noteq> [])
     \<and> (case pm_state m of
          Steering \<Rightarrow> pm_targetExecutionId m \<noteq> None \<and> pm_targetRunOrdinal m \<noteq> None
            \<and> pm_targetModelAudit m \<noteq> None \<and> pm_claimedAt m \<noteq> None
        | Queued \<Rightarrow> pm_targetExecutionId m = None \<and> pm_targetRunOrdinal m = None
            \<and> pm_targetModelAudit m = None \<and> pm_claimedAt m = None)"

section \<open>Receipts\<close>

text \<open>The rule on a command's error is \<open>command_ok\<close>.\<close>

fun receipt_schema :: "SessionInputReceipt \<Rightarrow> bool" where
  "receipt_schema (MessageReceipt r) \<longleftrightarrow> settled_text (ir_clientRequestId r) \<and> settled_text (ir_messageId r)
     \<and> requested_schema (ir_requestedModelSelection r)"
| "receipt_schema (CommandReceipt r) \<longleftrightarrow> settled_text (cr_clientRequestId r)
     \<and> requested_schema (cr_requestedModelSelection r)"

section \<open>User messages\<close>

fun attachment_of_part :: "UserSessionPart \<Rightarrow> AttachmentDescriptor option" where
  "attachment_of_part (UserAttachment p) = Some (ap_attachment p)"
| "attachment_of_part _ = None"

definition part_attachments :: "UserSessionMessage \<Rightarrow> AttachmentDescriptor list" where
  "part_attachments u = List.map_filter attachment_of_part (um_parts u)"

definition part_texts :: "UserSessionMessage \<Rightarrow> jstring list" where
  "part_texts u = List.map_filter text_of_part (um_parts u)"

definition part_notices :: "UserSessionMessage \<Rightarrow> GoalNoticePart list" where
  "part_notices u = List.map_filter as_goal_notice (um_parts u)"

text \<open>A Goal notice is a message of its own; its schema is not among these checks.\<close>

definition sole_notice :: "UserSessionMessage \<Rightarrow> GoalNoticePart \<Rightarrow> bool" where
  "sole_notice u n \<longleftrightarrow> length (um_parts u) = 1 \<and> um_id u = gn_id n \<and> um_createdAt u = gn_createdAt n
     \<and> um_completedAt u = Some (gn_createdAt n) \<and> um_clientRequestId u = None \<and> um_modelAudit u = None
     \<and> um_executionId u = None \<and> um_runOrdinal u = None"

definition user_schema :: "UserSessionMessage \<Rightarrow> bool" where
  "user_schema u \<longleftrightarrow> optionally ((\<le>) 0) (um_runOrdinal u)
     \<and> optionally provenance_schema (um_parentAgentProvenance u) \<and> optionally audit_schema (um_modelAudit u)
     \<and> (\<forall>a \<in> set (part_attachments u). attachment_schema a)
     \<and> (um_inputSource u = Some SourceParentAgent) = (um_parentAgentProvenance u \<noteq> None)
     \<and> (um_inputSource u = Some SourceParentAgent \<longrightarrow> part_attachments u = [])
     \<and> (um_executionId u = None) = (um_runOrdinal u = None)
     \<and> length (part_attachments u) \<le> MAX_ATTACHMENTS_PER_MESSAGE \<and> distinct (map att_id (part_attachments u))
     \<and> (part_texts u \<noteq> [] \<or> part_attachments u \<noteq> [] \<longrightarrow>
          um_executionId u \<noteq> None \<and> um_runOrdinal u \<noteq> None \<and> um_modelAudit u \<noteq> None)
     \<and> (um_clientRequestId u \<noteq> None \<longrightarrow>
          (\<exists>t \<in> set (part_texts u). trim t \<noteq> []) \<or> part_attachments u \<noteq> [])
     \<and> (case part_notices u of [] \<Rightarrow> True | n # _ \<Rightarrow> sole_notice u n)"

section \<open>Messages against the recorded runs\<close>

text \<open>The selection of a run, by Execution id and ordinal; a \<open>Map\<close> keeps the last entry of a key.\<close>

definition run_selection :: "SessionExecutionRecord list \<Rightarrow> jstring \<Rightarrow> int \<Rightarrow> ModelSelectionRef option" where
  "run_selection exs i n = (case find (\<lambda>e. ex_id e = i) (rev exs) of
     None \<Rightarrow> None
   | Some e \<Rightarrow>
       (if 0 \<le> n \<and> n < int (length (ex_runs e))
        then Some (emb_selection (run_binding (ex_runs e ! nat n))) else None))"

definition audit_bound :: "SessionExecutionRecord list \<Rightarrow> UserSessionMessage \<Rightarrow> bool" where
  "audit_bound exs u = (case (um_modelAudit u, um_executionId u) of
     (Some audit, Some i) \<Rightarrow> (case um_runOrdinal u of
         None \<Rightarrow> False
       | Some n \<Rightarrow> run_selection exs i n = Some (mma_actual audit))
   | _ \<Rightarrow> True)"

fun message_schema :: "SessionExecutionRecord list \<Rightarrow> SessionMessage \<Rightarrow> bool" where
  "message_schema exs (UserMessage u) \<longleftrightarrow> user_schema u \<and> audit_bound exs u"
| "message_schema exs (AssistantMessage a) \<longleftrightarrow> True"

text \<open>Run ordinals are contiguous.\<close>

definition runs_numbered :: "SessionExecutionRecord \<Rightarrow> bool" where
  "runs_numbered e \<longleftrightarrow> map run_ordinal (ex_runs e) = map int [0..<length (ex_runs e)]"

section \<open>All of them\<close>

definition storedInputValid :: "SessionInputState \<Rightarrow> bool" where
  "storedInputValid st \<longleftrightarrow> inputs_agree st
     \<and> (\<forall>m \<in> set (in_pending st). pending_schema m)
     \<and> (\<forall>r \<in> set (in_receipts st). receipt_schema r)
     \<and> (\<forall>e \<in> set (executions (in_shared st)). runs_numbered e)
     \<and> (\<forall>c \<in> set (in_messages st). message_schema (executions (in_shared st)) c)"

end
