(* ===== verification/SessionInputLoads.thy ===== *)
theory SessionInputLoads
  imports SessionInputHistory SessionFileChecks ReducerFrames
begin

text \<open>
  What the input service stores passes the loader's checks on queued messages, receipts and user
  messages: every message and receipt a request commits passes its schema, a delivered message is
  audited against a recorded run, and the runs recorded before stay recorded. What the callers promise
  besides \<open>well_posed\<close> is \<open>request_valid\<close>.
\<close>

declare guard.simps [simp del]

section \<open>Recorded runs\<close>

definition keeps_runs :: "SessionExecutionRecord list \<Rightarrow> SessionExecutionRecord list \<Rightarrow> bool" where
  "keeps_runs exs exs' \<longleftrightarrow> (\<forall>i n s. run_selection exs i n = Some s \<longrightarrow> run_selection exs' i n = Some s)
     \<and> ((\<forall>e \<in> set exs. runs_numbered e) \<longrightarrow> (\<forall>e \<in> set exs'. runs_numbered e))"

lemma keeps_runs_refl [simp]: "keeps_runs exs exs"
  by (simp add: keeps_runs_def)

lemma keeps_runs_trans: "keeps_runs a b \<Longrightarrow> keeps_runs b c \<Longrightarrow> keeps_runs a c"
  by (simp add: keeps_runs_def)

lemma keeps_runsD: "keeps_runs exs exs' \<Longrightarrow> run_selection exs i n = Some s \<Longrightarrow> run_selection exs' i n = Some s"
  by (simp add: keeps_runs_def)

text \<open>A new Execution is recorded with its first run.\<close>

lemma started:
  assumes "es_executionId e \<notin> ex_id ` set exs"
  shows "keeps_runs exs (exs @ [startExecution e t])"
    "run_selection (exs @ [startExecution e t]) (es_executionId e) 0 = Some (emb_selection (es_binding e))"
proof -
  have "run_selection (exs @ [startExecution e t]) i n = run_selection exs i n" if "run_selection exs i n = Some s" for i n s
  proof -
    have "i \<in> ex_id ` set exs"
      using that find_SomeD by (fastforce simp: run_selection_def split: option.splits)
    then show ?thesis
      using assms by (auto simp: run_selection_def startExecution_def)
  qed
  moreover have "runs_numbered (startExecution e t)"
    by (simp add: runs_numbered_def startExecution_def)
  ultimately show "keeps_runs exs (exs @ [startExecution e t])"
    by (auto simp: keeps_runs_def)
  show "run_selection (exs @ [startExecution e t]) (es_executionId e) 0 = Some (emb_selection (es_binding e))"
    by (simp add: run_selection_def startExecution_def)
qed

lemma delegated_executions:
  assumes "delegateToProtocol lc st event ctx = Inr st'"
  shows "\<exists>p. reduceStreamEvent lc ((st_shared st)\<lparr>compression := None\<rparr>) event ctx = Inr p
    \<and> executions (st_shared st') = present (p_executions p) (executions (st_shared st))"
  using assms by (auto simp: delegateToProtocol_def bindE_Inr_iff)

lemma start_recorded:
  assumes "appendEventToState lc st (StreamPayload (Lifecycle (ExecutionStart e))) False now ctx = Inr st'"
  shows "es_executionId e \<in> ex_id ` set (executions (st_shared st)) \<and> executions (st_shared st') = executions (st_shared st)
    \<or> es_executionId e \<notin> ex_id ` set (executions (st_shared st))
      \<and> (\<exists>t. executions (st_shared st') = executions (st_shared st) @ [startExecution e t])"
proof -
  let ?exs = "executions (st_shared st)"
  have known: "es_executionId e \<notin> ex_id ` set ?exs" if "validateExecutionTransition ?exs (ExecutionStart e) = Valid"
  proof (cases "find_execution ?exs (es_executionId e)")
    case None
    then show ?thesis
      by (auto simp: find_execution_def find_None_iff)
  next
    case (Some x)
    then show ?thesis
      using that by (simp add: validateExecutionTransition_def validateStart_def lifecycle_executionId_def split: list.splits if_splits)
  qed
  have repeated: "es_executionId e \<in> ex_id ` set ?exs" if "validateExecutionTransition ?exs (ExecutionStart e) = Duplicate"
  proof (cases "find_execution ?exs (es_executionId e)")
    case None
    then show ?thesis
      using that by (simp add: validateExecutionTransition_def validateStart_def lifecycle_executionId_def split: if_splits)
  next
    case (Some x)
    then show ?thesis
      using find_SomeD [OF Some [unfolded find_execution_def]] by (metis imageI)
  qed
  show ?thesis
  proof (cases "validateExecutionTransition ?exs (ExecutionStart e)")
    case Duplicate
    then have "st' = st"
      using assms by (simp add: appendEventToState_def)
    then show ?thesis
      using repeated [OF Duplicate] by simp
  next
    case (Invalid r)
    then show ?thesis
      using assms by (auto simp: appendEventToState_def recordEvent_def bindE_Inr_iff reduceStoreLifecycle_def
          admitLifecycle_def)
  next
    case Valid
    then have "recordEvent lc st (StreamPayload (Lifecycle (ExecutionStart e))) (st_publishableNextEventId st) now ctx = Inr st'"
      using assms by (simp add: appendEventToState_def)
    from record_shared [OF this] obtain st2 where
        st2: "reduceStoreStream lc st (Lifecycle (ExecutionStart e)) ctx = Inr st2" "st_shared st' = st_shared st2"
      by blast
    then have "delegateToProtocol lc st (Lifecycle (ExecutionStart e)) ctx = Inr st2"
      using Valid by (auto simp: reduceStoreLifecycle_def admitLifecycle_def bindE_Inr_iff)
    then obtain p where "reduceStreamEvent lc ((st_shared st)\<lparr>compression := None\<rparr>) (Lifecycle (ExecutionStart e)) ctx = Inr p"
        "executions (st_shared st2) = present (p_executions p) ?exs"
      using delegated_executions by blast
    then show ?thesis
      using Valid known [OF Valid] st2(2)
      by (auto simp: reduceLifecycle_def final_output_ok_def onExecutionStart_def Let_def)
  qed
qed

text \<open>The events the service commits: input events, and the notice of a Skill command.\<close>

fun is_stored_event :: "StreamEvent \<Rightarrow> bool" where
  "is_stored_event (SystemNotice _) = True"
| "is_stored_event e = is_input_event e"

lemma input_is_stored: "is_input_event e \<Longrightarrow> is_stored_event e"
  by (cases e) auto

lemma event_keeps_runs:
  assumes "appendEventToState lc st (StreamPayload e) False now ctx = Inr st'" "is_stored_event e"
  shows "keeps_runs (executions (st_shared st)) (executions (st_shared st'))"
proof (cases "\<exists>l. e = Lifecycle l")
  case True
  then obtain l where l: "e = Lifecycle l"
    by blast
  then obtain start where "l = ExecutionStart start"
    using assms(2) by (cases l) auto
  with l have e: "e = Lifecycle (ExecutionStart start)"
    by simp
  from start_recorded [OF assms(1) [unfolded e]] show ?thesis
    using started(1) by auto
next
  case False
  then have "\<not> isDuplicateLifecycle st (StreamPayload e)" "\<not> touches_executions e"
    using assms(2) by (cases e; simp)+
  then obtain st2 where st2: "reduceStoreStream lc st e ctx = Inr st2" "st_shared st' = st_shared st2"
    using assms(1) record_shared unfolding appendEventToState_def by (metis (full_types))
  then obtain st3 where st3: "delegateToProtocol lc st e ctx = Inr st3" "st_shared st2 = st_shared st3"
    using False assms(2) by (cases e) (auto simp: bindE_Inr_iff)
  obtain p where "reduceStreamEvent lc ((st_shared st)\<lparr>compression := None\<rparr>) e ctx = Inr p"
      "executions (st_shared st3) = present (p_executions p) (executions (st_shared st))"
    using delegated_executions [OF st3(1)] by blast
  then show ?thesis
    using frame_executions [OF _ \<open>\<not> touches_executions e\<close>] st2(2) st3(2) by simp
qed

lemma durable_stored_event: "is_stored_event e \<Longrightarrow> toDurableSessionEvent (StreamPayload e) = StreamPayload e"
  by (cases e rule: is_stored_event.cases) auto

lemma stored_events_keep_runs:
  assumes "\<forall>e \<in> set es. is_stored_event e"
    and "applyMutation lc st no_patch (map (\<lambda>(i, e). (StreamPayload e, clock i)) (List.enumerate n es)) = Inr st'"
  shows "keeps_runs (executions (st_shared st)) (executions (st_shared st'))"
  using assms
proof (induction es arbitrary: st n)
  case Nil
  then show ?case
    by (simp add: applyMutation_def)
next
  case (Cons e es)
  obtain now ctx where clock: "clock n = (now, ctx)"
    by fastforce
  obtain mid where mid: "appendEventToState lc st (StreamPayload e) False now ctx = Inr mid"
      "applyMutation lc mid no_patch (map (\<lambda>(i, e). (StreamPayload e, clock i)) (List.enumerate (Suc n) es)) = Inr st'"
    using Cons.prems clock durable_stored_event by (auto simp: applyMutation_def bindE_Inr_iff)
  show ?case
    using keeps_runs_trans [OF event_keeps_runs [OF mid(1)] Cons.IH [OF _ mid(2)]] Cons.prems(1) by simp
qed

lemma committed_keeps_runs:
  assumes "commitInput lc now clock st m = Inr st'" "\<forall>e \<in> set (im_events m). is_stored_event e"
  shows "keeps_runs (executions (in_shared st)) (executions (in_shared st'))"
proof (cases "input_changes st m")
  case False
  then show ?thesis
    using assms(1) by (simp add: commitInput_def)
next
  case True
  then show ?thesis
    using assms stored_events_keep_runs by (fastforce simp: commitInput_def bindE_Inr_iff)
qed

lemma committed_start:
  assumes "commitInput lc now clock st m = Inr st'" "im_events m = Lifecycle (ExecutionStart e) # es"
    and "\<forall>x \<in> set es. is_stored_event x" "es_executionId e \<notin> ex_id ` set (executions (in_shared st))"
  shows "run_selection (executions (in_shared st')) (es_executionId e) 0 = Some (emb_selection (es_binding e))"
proof -
  obtain t ctx where clock: "clock 0 = (t, ctx)"
    by fastforce
  obtain mid where mid: "appendEventToState lc (in_store st) (StreamPayload (Lifecycle (ExecutionStart e))) False t ctx = Inr mid"
      "applyMutation lc mid no_patch (map (\<lambda>(i, e). (StreamPayload e, clock i)) (List.enumerate (Suc 0) es))
        = Inr (in_store st')"
    using assms(1,2) clock by (auto simp: commitInput_def input_changes_def applyMutation_def bindE_Inr_iff)
  obtain t' where "executions (st_shared mid) = executions (in_shared st) @ [startExecution e t']"
    using start_recorded [OF mid(1)] assms(4) by blast
  then have "run_selection (executions (st_shared mid)) (es_executionId e) 0 = Some (emb_selection (es_binding e))"
    using started(2) [OF assms(4)] by simp
  then show ?thesis
    using keeps_runsD [OF stored_events_keep_runs [OF assms(3) mid(2)]] by blast
qed

section \<open>What a commit stores\<close>

text \<open>A steering message is audited against the recorded run it is meant for.\<close>

definition steer_bound :: "SessionExecutionRecord list \<Rightarrow> PendingSessionMessage \<Rightarrow> bool" where
  "steer_bound exs m \<longleftrightarrow> (case (pm_targetExecutionId m, pm_targetRunOrdinal m, pm_targetModelAudit m) of
     (Some i, Some n, Some audit) \<Rightarrow> run_selection exs i n = Some (mma_actual audit)
   | _ \<Rightarrow> True)"

definition queued_valid :: "SessionExecutionRecord list \<Rightarrow> PendingSessionMessage \<Rightarrow> bool" where
  "queued_valid exs m \<longleftrightarrow> pending_schema m \<and> steer_bound exs m"

definition stored_valid :: "SessionInputState \<Rightarrow> bool" where
  "stored_valid st \<longleftrightarrow> (\<forall>m \<in> set (in_pending st). queued_valid (executions (in_shared st)) m)
     \<and> (\<forall>r \<in> set (in_receipts st). receipt_schema r)
     \<and> (\<forall>e \<in> set (executions (in_shared st)). runs_numbered e)
     \<and> (\<forall>c \<in> set (in_messages st). message_schema (executions (in_shared st)) c)"

lemma stored_valid_iff:
  "inputs_sound st \<Longrightarrow> stored_valid st \<longleftrightarrow> storedInputValid st
     \<and> (\<forall>m \<in> set (in_pending st). steer_bound (executions (in_shared st)) m)"
  using sound_input_valid by (auto simp: stored_valid_def storedInputValid_def queued_valid_def)

lemma message_schema_keeps: "keeps_runs exs exs' \<Longrightarrow> message_schema exs c \<Longrightarrow> message_schema exs' c"
  by (cases c) (auto simp: audit_bound_def keeps_runs_def split: option.splits)

lemma queued_valid_keeps: "keeps_runs exs exs' \<Longrightarrow> queued_valid exs m \<Longrightarrow> queued_valid exs' m"
  by (auto simp: queued_valid_def steer_bound_def keeps_runs_def split: option.splits)

fun event_valid :: "SessionExecutionRecord list \<Rightarrow> StreamEvent \<Rightarrow> bool" where
  "event_valid exs (MessageAccepted m) \<longleftrightarrow> queued_valid exs m"
| "event_valid exs (MessageEdited m) \<longleftrightarrow> queued_valid exs m"
| "event_valid exs (MessageSteerClaimed m) \<longleftrightarrow> queued_valid exs m"
| "event_valid exs (MessageSteerRolledBack m) \<longleftrightarrow> queued_valid exs m"
| "event_valid exs (MessagesCommitted i cs) \<longleftrightarrow> (\<forall>c \<in> set cs. message_schema exs c)"
| "event_valid exs _ \<longleftrightarrow> True"

lemma event_valid_keeps: "keeps_runs exs exs' \<Longrightarrow> event_valid exs e \<Longrightarrow> event_valid exs' e"
  using queued_valid_keeps message_schema_keeps by (cases e) auto

lemma queue_after_valid:
  assumes "\<forall>e \<in> set es. event_valid exs e" "\<forall>m \<in> set q. queued_valid exs m"
  shows "\<forall>m \<in> set (fold queue_after es q). queued_valid exs m"
  using assms
proof (induction es arbitrary: q)
  case (Cons e es)
  have "\<forall>m \<in> set (queue_after e q). queued_valid exs m"
    using Cons.prems by (cases e) auto
  then show ?case
    using Cons by simp
qed simp

lemma conversation_after_valid:
  assumes "\<forall>e \<in> set es. event_valid exs e" "\<forall>c \<in> set ms. message_schema exs c"
  shows "\<forall>c \<in> set (fold conversation_after es ms). message_schema exs c"
  using assms
proof (induction es arbitrary: ms)
  case (Cons e es)
  have "\<forall>c \<in> set (conversation_after e ms). message_schema exs c"
    using Cons.prems by (cases e) auto
  then show ?case
    using Cons by simp
qed simp

lemma commit_valid:
  assumes "commitInput lc now clock st m = Inr st'" "stored_valid st"
    and "\<forall>e \<in> set (im_events m). is_input_event e"
    and "\<forall>e \<in> set (im_events m). event_valid (executions (in_shared st')) e"
    and "\<forall>rs. im_receipts m = Some rs \<longrightarrow> (\<forall>r \<in> set rs. receipt_schema r)"
  shows "stored_valid st'"
proof -
  have runs: "keeps_runs (executions (in_shared st)) (executions (in_shared st'))"
    using committed_keeps_runs [OF assms(1)] assms(3) input_is_stored by blast
  have st': "in_pending st' = fold queue_after (im_events m) (in_pending st)"
      "in_messages st' = fold conversation_after (im_events m) (in_messages st)"
      "in_receipts st' = (case im_receipts m of None \<Rightarrow> in_receipts st | Some rs \<Rightarrow> rs)"
    using input_committed [OF assms(1,3)] by simp_all
  have "\<forall>x \<in> set (in_pending st). queued_valid (executions (in_shared st')) x"
      "\<forall>c \<in> set (in_messages st). message_schema (executions (in_shared st')) c"
    using assms(2) queued_valid_keeps [OF runs] message_schema_keeps [OF runs] by (simp_all add: stored_valid_def)
  from queue_after_valid [OF assms(4) this(1)] conversation_after_valid [OF assms(4) this(2)]
  show ?thesis
    using st' assms(2,5) runs by (simp add: stored_valid_def keeps_runs_def split: option.splits)
qed

text \<open>The same when no Execution starts: the events are judged where they are made.\<close>

lemma commit_valid_here:
  assumes "commitInput lc now clock st m = Inr st'" "stored_valid st"
    and "\<forall>e \<in> set (im_events m). is_input_event e \<and> event_valid (executions (in_shared st)) e"
    and "\<forall>rs. im_receipts m = Some rs \<longrightarrow> (\<forall>r \<in> set rs. receipt_schema r)"
  shows "stored_valid st'"
proof (rule commit_valid [OF assms(1,2) _ _ assms(4)])
  have "keeps_runs (executions (in_shared st)) (executions (in_shared st'))"
    using committed_keeps_runs [OF assms(1)] assms(3) input_is_stored by blast
  then show "\<forall>e \<in> set (im_events m). event_valid (executions (in_shared st')) e"
    using assms(3) event_valid_keeps by blast
qed (use assms(3) in blast)

section \<open>What the callers promise\<close>

text \<open>The run a delivery names is recorded with the binding, or the request starts its Execution.\<close>

definition delivery_posed ::
  "SessionExecutionRecord list \<Rightarrow> jstring \<Rightarrow> int \<Rightarrow> ExecutionModelBindingSummary \<Rightarrow> ExecutionStartEvent option \<Rightarrow> bool" where
  "delivery_posed exs i n binding start \<longleftrightarrow> run_selection exs i n = Some (emb_selection binding)
     \<or> n = 0 \<and> start \<noteq> None \<and> i \<notin> ex_id ` set exs"

definition claim_time :: "InputEnvironment \<Rightarrow> ClaimSteerInput \<Rightarrow> int" where
  "claim_time env i = (case ti_claimedAt i of None \<Rightarrow> ie_nowAgain env | Some t \<Rightarrow> t)"

fun request_valid :: "InputEnvironment \<Rightarrow> InputRequest \<Rightarrow> SessionInputState \<Rightarrow> bool" where
  "request_valid env (AcceptSkillCommand i) st \<longleftrightarrow> settled_text (ie_newId env)
     \<and> settled_text (si_clientRequestId i) \<and> settled_text (si_skillName i) \<and> requested_schema (si_requested i)
     \<and> si_source i \<noteq> SourceParentAgent"
| "request_valid env (ClaimCommand i) st \<longleftrightarrow> settled_text (ci_clientRequestId i) \<and> requested_schema (ci_requested i)"
| "request_valid env (CompleteCommandAsMessage i) st \<longleftrightarrow> settled_text (new_message_id env (xi_messageId i))
     \<and> (\<forall>name \<in> set (xi_executionSkillNames i). settled_text name) \<and> xi_source i \<noteq> SourceParentAgent"
| "request_valid env (AcceptMessage i attachments) st \<longleftrightarrow> settled_text (new_message_id env (ai_messageId i))
     \<and> settled_text (ai_clientRequestId i) \<and> requested_schema (ai_requested i)
     \<and> ai_source i \<noteq> SourceParentAgent \<and> (\<forall>a \<in> set attachments. attachment_schema a)"
| "request_valid env (AcceptParentAgentMessage i q aborted) st \<longleftrightarrow> settled_text (ie_newId env)
     \<and> settled_text (pi_clientRequestId i) \<and> requested_schema q \<and> provenance_schema (pi_provenance i)"
| "request_valid env (ClaimSteer i) st \<longleftrightarrow> settled_text (ti_expectedExecutionId i) \<and> 0 \<le> ti_runOrdinal i
     \<and> audit_schema (ti_modelAudit i) \<and> 0 \<le> claim_time env i
     \<and> run_selection (executions (in_shared st)) (ti_expectedExecutionId i) (ti_runOrdinal i)
         = Some (mma_actual (ti_modelAudit i))"
| "request_valid env (BeginQueueExecution i) st \<longleftrightarrow>
     (\<forall>s \<in> set (bq_snapshots i). audit_schema (rs_modelAudit s))
     \<and> delivery_posed (executions (in_shared st)) (bq_executionId i) (bq_runOrdinal i) (bq_binding i)
         (bq_executionStart i)"
| "request_valid env (BeginChildResumeExecution i) st \<longleftrightarrow> settled_text (ie_newId env)
     \<and> settled_text (br_clientRequestId i) \<and> provenance_schema (br_provenance i) \<and> audit_schema (br_modelAudit i)
     \<and> (\<forall>s \<in> set (br_snapshots i). audit_schema (rs_modelAudit s))
     \<and> delivery_posed (executions (in_shared st)) (br_executionId i) (br_runOrdinal i) (br_binding i)
         (Some (br_executionStart i))"
| "request_valid env (BeginDirectExecution i) st \<longleftrightarrow> settled_text (new_message_id env (bd_messageId i))
     \<and> optionally settled_text (bd_clientRequestId i) \<and> direct_source i \<noteq> SourceParentAgent
     \<and> audit_schema (bd_modelAudit i)
     \<and> delivery_posed (executions (in_shared st)) (bd_executionId i) (bd_runOrdinal i) (bd_binding i) None"
| "request_valid env _ st \<longleftrightarrow> True"

section \<open>Messages that pass\<close>

lemma accepted_valid:
  assumes "settled_text i" "settled_text r" "requested_schema q" "attachment_list_schema as"
    and "trim c \<noteq> [] \<or> as \<noteq> []" "(s = SourceParentAgent) = (p \<noteq> None)" "optionally provenance_schema p"
    and "s = SourceParentAgent \<longrightarrow> as = [] \<and> ks = []" "\<forall>k \<in> set ks. settled_text k" "length ks \<le> 1"
  shows "queued_valid exs (acceptedMessage i r c as s p t q ks)"
  using assms by (simp add: queued_valid_def pending_schema_def acceptedMessage_def steer_bound_def)

lemma no_attachments [simp]: "attachment_list_schema []"
  by (simp add: attachment_list_schema_def MAX_ATTACHMENTS_PER_MESSAGE_def)

lemma run_selection_bounds: "run_selection exs i n = Some s \<Longrightarrow> 0 \<le> n"
  by (auto simp: run_selection_def split: option.splits if_splits)

lemma canonical_valid:
  assumes "pending_schema m" "audit_schema a" "run_selection exs i n = Some (mma_actual a)"
  shows "message_schema exs (toCanonicalMessage m i n t a c)"
proof -
  let ?part = "\<lambda>x. UserAttachment \<lparr> ap_id = pm_id m @ js '':attachment:'' @ att_id x, ap_attachment = x,
    ap_createdAt = pm_acceptedAt m, ap_completedAt = Some t \<rparr>"
  have parts: "List.map_filter attachment_of_part (map ?part xs) = xs"
      "List.map_filter text_of_part (map ?part xs) = []" "List.map_filter as_goal_notice (map ?part xs) = []" for xs
    by (induction xs) (simp_all add: List.map_filter_simps)
  show ?thesis
    using assms run_selection_bounds [OF assms(3)]
    by (auto simp: toCanonicalMessage_def user_schema_def part_attachments_def part_texts_def part_notices_def
        audit_bound_def pending_schema_def attachment_list_schema_def List.map_filter_simps parts)
qed

lemma canonical_all_valid:
  assumes "\<forall>m \<in> set ms. pending_schema m" "length audits = length ms"
    and "\<forall>a \<in> set audits. audit_schema a \<and> run_selection exs i n = Some (mma_actual a)"
  shows "\<forall>c \<in> set (canonical_messages i n t ms audits). message_schema exs c"
proof -
  have "message_schema exs (toCanonicalMessage m i n t a True)" if "(m, a) \<in> set (zip ms audits)" for m a
    using canonical_valid set_zip_leftD [OF that] set_zip_rightD [OF that] assms(1,3) by blast
  then show ?thesis
    by (auto simp: canonical_messages_def)
qed

lemma statuses_valid:
  assumes "updateReceiptStatuses rs ids s = Inr rs'" "\<forall>r \<in> set rs. receipt_schema r"
  shows "\<forall>r \<in> set rs'. receipt_schema r"
proof -
  have "receipt_schema (set_receipt_status i s r) = receipt_schema r" for i s r
    by (cases r) simp_all
  then show ?thesis
    using statuses_updated(1) [OF assms(1)] assms(2) by simp
qed

lemma replaced_valid:
  assumes "\<forall>r \<in> set rs. receipt_schema r" "receipt_schema r'"
  shows "\<forall>r \<in> set (replace_receipt i r' rs). receipt_schema r"
  using assms by (induction rs) auto

lemma stored_unchanged: "commitInput lc now clock st no_mutation = Inr st' \<Longrightarrow> stored_valid st \<Longrightarrow> stored_valid st'"
  by (simp add: commitInput_def input_changes_def)

lemma stored_queued:
  assumes "stored_valid st" "m \<in> set (in_pending st)"
  shows "queued_valid (executions (in_shared st)) m"
  using assms by (simp add: stored_valid_def)

text \<open>A message accepted with its receipt.\<close>

lemma append_valid:
  assumes "commitInput lc now clock st (with_receipts rs [MessageAccepted m]) = Inr st'" "stored_valid st"
    and "queued_valid (executions (in_shared st)) m" "\<forall>r \<in> set rs. receipt_schema r"
  shows "stored_valid st'"
  by (rule commit_valid_here [OF assms(1,2)]) (use assms(3,4) in simp_all)

section \<open>Each request\<close>

lemma acceptMessage_valid:
  assumes "inputMutation env (AcceptMessage i attachments) st = Inr m" "commitInput lc now clock st m = Inr st'"
    and "stored_valid st" "request_valid env (AcceptMessage i attachments) st"
  shows "stored_valid st'"
proof -
  obtain resolved x where checked: "checkAcceptMessage i = Inr ()"
      "copyAndValidateResolvedAttachments (ai_attachmentIds i) attachments = Inr resolved"
      "acceptMessageCommit env i resolved st = Inr (x, m)"
    using assms(1) by (auto simp: bindE_Inr_iff mutation_of_Inr)
  then consider "m = no_mutation"
    | "m = with_receipts (in_receipts st @ [messageReceipt (ai_clientRequestId i)
          (new_message_id env (ai_messageId i)) (acceptFingerprint env i) ReceiptPending (ai_requested i)])
        [MessageAccepted (acceptedMessage (new_message_id env (ai_messageId i)) (ai_clientRequestId i)
          (ai_content i) resolved (ai_source i) None (fresh_time env st) (ai_requested i) [])]"
    by (auto simp: acceptMessageCommit_def bindE_Inr_iff Let_def mutation_of_Inr split: option.splits)
  then show ?thesis
  proof cases
    case 1
    then show ?thesis using stored_unchanged assms(2,3) by blast
  next
    case 2
    have "resolved = attachments" "map att_id attachments = ai_attachmentIds i"
        "length (ai_attachmentIds i) \<le> MAX_ATTACHMENTS_PER_MESSAGE" "distinct (ai_attachmentIds i)"
        "trim (ai_content i) \<noteq> [] \<or> ai_attachmentIds i \<noteq> []"
      using checked(1,2) by (auto simp: copyAndValidateResolvedAttachments_def checkAcceptMessage_def bindE_Inr_iff
          assertAttachmentIds_def assertMessageContent_def split: if_splits)
    then have "attachment_list_schema resolved" "trim (ai_content i) \<noteq> [] \<or> resolved \<noteq> []"
      using assms(4) by (auto simp: attachment_list_schema_def simp flip: length_map [of att_id attachments])
    then show ?thesis
      using append_valid [OF assms(2) [unfolded 2] assms(3) accepted_valid] assms(3,4)
      by (simp add: messageReceipt_def stored_valid_def)
  qed
qed

lemma acceptParent_valid:
  assumes "inputMutation env (AcceptParentAgentMessage i q aborted) st = Inr m"
    and "commitInput lc now clock st m = Inr st'"
    and "stored_valid st" "request_valid env (AcceptParentAgentMessage i q aborted) st"
  shows "stored_valid st'"
proof -
  obtain x where x: "acceptParentAgentMessage env i q aborted st = Inr (x, m)"
    using assms(1) by (auto simp: mutation_of_Inr)
  then have "trim (pi_content i) \<noteq> []"
    by (auto simp: acceptParentAgentMessage_def bindE_Inr_iff checkParentAgentMessage_def assertMessageContent_def)
  from x consider "m = no_mutation"
    | "m = with_receipts (in_receipts st @ [messageReceipt (pi_clientRequestId i) (ie_newId env)
          (parentFingerprint env i q) ReceiptPending q])
        [MessageAccepted (acceptedMessage (ie_newId env) (pi_clientRequestId i) (pi_content i) []
          SourceParentAgent (Some (pi_provenance i)) (fresh_time env st) q [])]"
    by (auto simp: acceptParentAgentMessage_def bindE_Inr_iff Let_def mutation_of_Inr split: option.splits)
  then show ?thesis
  proof cases
    case 1
    then show ?thesis using stored_unchanged assms(2,3) by blast
  next
    case 2
    show ?thesis
      using append_valid [OF assms(2) [unfolded 2] assms(3) accepted_valid] assms(3,4) \<open>trim (pi_content i) \<noteq> []\<close>
      by (simp add: messageReceipt_def stored_valid_def)
  qed
qed

lemma completeAsMessage_valid:
  assumes "inputMutation env (CompleteCommandAsMessage i) st = Inr m" "commitInput lc now clock st m = Inr st'"
    and "stored_valid st" "request_valid env (CompleteCommandAsMessage i) st"
  shows "stored_valid st'"
proof -
  let ?id = "new_message_id env (xi_messageId i)"
  let ?m = "acceptedMessage ?id (xi_clientRequestId i) (xi_content i) [] (xi_source i) None
    (fresh_time env st) (xi_requested i) (xi_executionSkillNames i)"
  obtain c where c: "requireExecutingCommandReceipt (in_receipts st) (xi_clientRequestId i) = Inr c"
      "sameRequestedSelection (cr_requestedModelSelection c) (xi_requested i)"
      "trim (xi_content i) \<noteq> []" "length (xi_executionSkillNames i) \<le> 1"
      "m = with_receipts (map (\<lambda>r. if receipt_request_id r = xi_clientRequestId i
          then messageReceipt (xi_clientRequestId i) ?id (cr_requestFingerprint c) ReceiptPending (xi_requested i)
          else r) (in_receipts st)) [MessageAccepted ?m]"
    using assms(1) by (auto simp: completeCommandAsMessage_def bindE_Inr_iff mutation_of_Inr Let_def
        checkCompleteAsMessage_def assertNonEmpty_def)
  then have "CommandReceipt c \<in> set (in_receipts st)" "cr_clientRequestId c = xi_clientRequestId i"
    by (auto simp: requireExecutingCommandReceipt_def dest!: find_receipt_Some
        split: option.splits SessionInputReceipt.splits if_splits)
  then have "settled_text (xi_clientRequestId i)" "requested_schema (xi_requested i)"
    using assms(3) c(2) by (auto simp: stored_valid_def same_selection_eq)
  moreover have "queued_valid (executions (in_shared st)) ?m"
    by (rule accepted_valid) (use calculation assms(4) c(3,4) in simp_all)
  ultimately show ?thesis
    using assms(3,4) by (intro append_valid [OF assms(2) [unfolded c(5)] assms(3)])
      (auto simp: messageReceipt_def stored_valid_def)
qed

lemma receipts_valid:
  assumes "commitInput lc now clock st (with_receipts rs []) = Inr st'" "stored_valid st"
    and "\<forall>r \<in> set rs. receipt_schema r"
  shows "stored_valid st'"
  by (rule commit_valid_here [OF assms(1,2)]) (use assms(3) in simp_all)

lemma command_replaced_valid:
  assumes "replaceExecutingCommandReceipt rs i f = Inr rs'" "\<forall>r \<in> set rs. receipt_schema r"
    and "\<And>c. receipt_schema (CommandReceipt c) \<Longrightarrow> receipt_schema (CommandReceipt (f c))"
  shows "\<forall>r \<in> set rs'. receipt_schema r"
proof -
  obtain c where c: "find_receipt rs i = Some (CommandReceipt c)" "rs' = replace_receipt i (CommandReceipt (f c)) rs"
    using assms(1) by (auto simp: replaceExecutingCommandReceipt_def requireExecutingCommandReceipt_def
        bindE_Inr_iff split: option.splits SessionInputReceipt.splits if_splits)
  then have "receipt_schema (CommandReceipt (f c))"
    using find_receipt_Some [OF c(1)] assms(2,3) by blast
  then show ?thesis
    unfolding c(2) by (rule replaced_valid [OF assms(2)])
qed

lemma command_valid:
  assumes "inputMutation env request st = Inr m" "commitInput lc now clock st m = Inr st'" "stored_valid st"
    and "request_valid env request st"
    and "(\<exists>i. request = ClaimCommand i) \<or> (\<exists>r. request = CompleteCommand r) \<or> (\<exists>r e. request = FailCommand r e)"
  shows "stored_valid st'"
proof -
  have rs: "\<forall>r \<in> set (in_receipts st). receipt_schema r"
    using assms(3) by (simp add: stored_valid_def)
  have "m = no_mutation \<or> (\<exists>rs. m = with_receipts rs [] \<and> (\<forall>r \<in> set rs. receipt_schema r))"
    using assms(5)
  proof (elim disjE exE)
    fix i assume "request = ClaimCommand i"
    with assms(1,4) rs show ?thesis
      by (fastforce simp: claimCommand_def bindE_Inr_iff mutation_of_Inr split: option.splits)
  next
    fix r assume "request = CompleteCommand r"
    then obtain rs' where "replaceExecutingCommandReceipt (in_receipts st) r (\<lambda>c. c\<lparr>cr_status := CommandCompleted\<rparr>)
        = Inr rs'" "m = with_receipts rs' []"
      using assms(1) by (auto simp: completeCommand_def bindE_Inr_iff mutation_of_Inr)
    moreover from this(1) have "\<forall>r \<in> set rs'. receipt_schema r"
      by (rule command_replaced_valid [OF _ rs]) simp
    ultimately show ?thesis
      by simp
  next
    fix r e assume "request = FailCommand r e"
    then obtain rs' where "replaceExecutingCommandReceipt (in_receipts st) r
        (\<lambda>c. c\<lparr>cr_status := CommandFailed, cr_error := Some e\<rparr>) = Inr rs'" "m = with_receipts rs' []"
      using assms(1) by (auto simp: failCommand_def bindE_Inr_iff mutation_of_Inr)
    moreover from this(1) have "\<forall>r \<in> set rs'. receipt_schema r"
      by (rule command_replaced_valid [OF _ rs]) simp
    ultimately show ?thesis
      by simp
  qed
  then show ?thesis
    using stored_unchanged receipts_valid assms(2,3) by metis
qed

lemma recordBarrier_valid:
  assumes "inputMutation env (RecordBarrier t) st = Inr m" "commitInput lc now clock st m = Inr st'" "stored_valid st"
  shows "stored_valid st'"
proof -
  obtain b where m: "m = \<lparr> im_receipts = None, im_barrier = b, im_events = [] \<rparr>"
    using assms(1) by (auto simp: recordQueueDispatchBarrier_def mutation_of_Inr)
  show ?thesis
    by (rule commit_valid_here [OF assms(2,3)]) (simp_all add: m)
qed

lemma edit_valid:
  assumes "inputMutation env (EditMessage i n c) st = Inr m" "commitInput lc now clock st m = Inr st'" "stored_valid st"
  shows "stored_valid st'"
proof -
  obtain old where old: "requireQueuedMessage st i n = Inr old" "trim c \<noteq> [] \<or> pm_attachments old \<noteq> []"
      "m = events_only [MessageEdited (old\<lparr>pm_content := c, pm_revision := pm_revision old + 1,
         pm_updatedAt := fresh_time env st\<rparr>)]"
    using assms(1) by (auto simp: editMessage_def bindE_Inr_iff mutation_of_Inr Let_def)
  have "queued_valid (executions (in_shared st)) old"
    using stored_queued [OF assms(3) required_queued(1) [OF old(1)]] .
  then have "queued_valid (executions (in_shared st)) (old\<lparr>pm_content := c, pm_revision := pm_revision old + 1,
      pm_updatedAt := fresh_time env st\<rparr>)"
    using old(2) required_queued(4) [OF old(1)]
    by (simp add: queued_valid_def pending_schema_def steer_bound_def)
  then show ?thesis
    by (intro commit_valid_here [OF assms(2,3)]) (simp_all add: old(3))
qed

lemma claim_valid:
  assumes "inputMutation env (ClaimSteer i) st = Inr m" "commitInput lc now clock st m = Inr st'" "stored_valid st"
    and "request_valid env (ClaimSteer i) st"
  shows "stored_valid st'"
proof -
  obtain old where old: "requireQueuedMessage st (ti_messageId i) (ti_expectedRevision i) = Inr old"
      "m = events_only [MessageSteerClaimed (old\<lparr>pm_state := Steering, pm_revision := pm_revision old + 1,
         pm_updatedAt := fresh_time env st, pm_targetExecutionId := Some (ti_expectedExecutionId i),
         pm_targetRunOrdinal := Some (ti_runOrdinal i), pm_targetModelAudit := Some (ti_modelAudit i),
         pm_claimedAt := Some (claim_time env i)\<rparr>)]"
    using assms(1) by (auto simp: claimSteer_def bindE_Inr_iff mutation_of_Inr Let_def claim_time_def)
  have "queued_valid (executions (in_shared st)) old"
    using stored_queued [OF assms(3) required_queued(1) [OF old(1)]] .
  then show ?thesis
    using assms(4) by (intro commit_valid_here [OF assms(2,3)])
      (simp_all add: old(2) queued_valid_def pending_schema_def steer_bound_def)
qed

lemma delete_valid:
  assumes "inputMutation env (DeleteMessage i n) st = Inr m" "commitInput lc now clock st m = Inr st'" "stored_valid st"
  shows "stored_valid st'"
proof -
  obtain old rs where "requireQueuedMessage st i n = Inr old"
    and old: "updateReceiptStatuses (in_receipts st) [pm_id old] ReceiptDeleted = Inr rs"
      "m = with_receipts rs [MessageDeleted (pm_id old) (pm_clientRequestId old) (pm_revision old + 1) (fresh_time env st)]"
    using assms(1)
    by (auto simp: deleteMessage_def bindE_Inr_iff mutation_of_Inr Let_def updateReceiptStatus_def)
  have "\<forall>r \<in> set rs. receipt_schema r"
    using statuses_valid [OF old(1)] assms(3) by (simp add: stored_valid_def)
  then show ?thesis
    by (intro commit_valid_here [OF assms(2,3)]) (simp_all add: old(2))
qed

lemma rollback_valid:
  assumes "inputMutation env (RollbackSteers e ids) st = Inr m" "commitInput lc now clock st m = Inr st'" "stored_valid st"
  shows "stored_valid st'"
proof -
  let ?from = "filter (rollback_match e ids) (in_pending st)"
  have m: "m = events_only (map MessageSteerRolledBack (map (\<lambda>(i, m). release_steer (fresh_time env st + int i) m)
      (List.enumerate 0 ?from)))"
    using assms(1) by (simp add: rollbackSteers_def mutation_of_Inr Let_def)
  have "queued_valid (executions (in_shared st)) y"
    if y: "y \<in> set (map (\<lambda>(i, m). release_steer (fresh_time env st + int i) m) (List.enumerate 0 ?from))" for y
  proof -
    obtain i y0 where y0: "y0 \<in> set (in_pending st)" "y = release_steer (fresh_time env st + int i) y0"
      using released_from [OF y] by auto
    then show ?thesis
      using stored_queued [OF assms(3) y0(1)]
      by (simp add: queued_valid_def pending_schema_def steer_bound_def release_steer_def)
  qed
  then show ?thesis
    by (intro commit_valid_here [OF assms(2,3)]) (auto simp: m)
qed

section \<open>Deliveries\<close>

lemma same_selection_ref: "sameSelection l r \<longleftrightarrow> l = r"
  by (cases l; cases r) (auto simp: sameSelection_def)

text \<open>Once the request is committed the run it delivers into is recorded.\<close>

lemma delivered_run:
  assumes "commitInput lc now clock st m = Inr st'" "im_events m = start_events start @ [MessagesCommitted j cs]"
    and "delivery_posed (executions (in_shared st)) i n binding start"
    and "assertExecutionStartMatches start i binding origin = Inr ()"
  shows "run_selection (executions (in_shared st')) i n = Some (emb_selection binding)"
proof -
  have keeps: "keeps_runs (executions (in_shared st)) (executions (in_shared st'))"
    using committed_keeps_runs [OF assms(1)] assms(2) by (simp add: start_events_def split: option.splits)
  consider "run_selection (executions (in_shared st)) i n = Some (emb_selection binding)"
    | e where "n = 0" "start = Some e" "i \<notin> ex_id ` set (executions (in_shared st))"
    using assms(3) by (auto simp: delivery_posed_def)
  then show ?thesis
  proof cases
    case 1
    then show ?thesis
      using keeps_runsD [OF keeps] by blast
  next
    case 2
    then have e: "es_executionId e = i" "emb_selection (es_binding e) = emb_selection binding"
      using assms(4) by (auto simp: assertExecutionStartMatches_def same_selection_ref)
    show ?thesis
      using committed_start [OF assms(1), of e "[MessagesCommitted j cs]"] assms(2) 2 e
      by (simp add: start_events_def)
  qed
qed

text \<open>A delivery stores what it should if its messages pass with the runs it leaves.\<close>

lemma delivery_valid:
  assumes "commitInput lc now clock st \<lparr> im_receipts = rs, im_barrier = b,
      im_events = start_events start @ [MessagesCommitted j cs] \<rparr> = Inr st'" "stored_valid st"
    and "\<forall>c \<in> set cs. message_schema (executions (in_shared st')) c"
    and "\<forall>rs'. rs = Some rs' \<longrightarrow> (\<forall>r \<in> set rs'. receipt_schema r)"
  shows "stored_valid st'"
  by (rule commit_valid [OF assms(1,2)]) (use assms(3,4) in \<open>auto simp: start_events_def split: option.splits\<close>)

lemma prefix_audits:
  assumes "resolveQueuePrefix queued snapshots binding = Inr ms"
  shows "\<forall>s \<in> set snapshots. mma_actual (rs_modelAudit s) = emb_selection binding"
  using assms
proof (induction snapshots arbitrary: queued ms)
  case (Cons s rest)
  obtain m ms' where m: "validateResolvedSnapshot (if queued = [] then None else Some (hd queued)) s binding Queued
      = Inr m" "resolveQueuePrefix (tl queued) rest binding = Inr ms'"
    using Cons.prems by (auto simp: bindE_Inr_iff)
  have "mma_actual (rs_modelAudit s) = emb_selection binding"
    using m(1) by (auto simp: validateResolvedSnapshot_def bindE_Inr_iff audit_validated same_selection_ref
        split: option.splits if_splits)
  then show ?case
    using Cons.IH [OF m(2)] by simp
qed simp

lemma prefix_valid:
  assumes "resolveQueuePrefix (queued_messages st) snapshots binding = Inr ms" "stored_valid st"
    and "\<forall>s \<in> set snapshots. audit_schema (rs_modelAudit s)"
    and "run_selection exs i n = Some (emb_selection binding)"
  shows "\<forall>c \<in> set (canonical_messages i n t ms (map rs_modelAudit snapshots)). message_schema exs c"
proof (rule canonical_all_valid)
  show "\<forall>m \<in> set ms. pending_schema m"
    using prefix_delivers(1) [OF assms(1)] assms(2) by (auto simp: stored_valid_def queued_valid_def)
  show "length (map rs_modelAudit snapshots) = length ms"
    unfolding length_map using prefix_resolved [OF assms(1)] by metis
  show "\<forall>a \<in> set (map rs_modelAudit snapshots). audit_schema a \<and> run_selection exs i n = Some (mma_actual a)"
    using prefix_audits [OF assms(1)] assms(3,4) by simp
qed

lemma beginQueue_valid:
  assumes "inputMutation env (BeginQueueExecution i) st = Inr m" "commitInput lc now clock st m = Inr st'"
    and "stored_valid st" "request_valid env (BeginQueueExecution i) st"
  shows "stored_valid st'"
proof -
  let ?cs = "\<lambda>ms. canonical_messages (bq_executionId i) (bq_runOrdinal i) (fresh_time env st) ms
      (map rs_modelAudit (bq_snapshots i))"
  obtain ms rs where ms: "resolveQueuePrefix (queued_messages st) (bq_snapshots i) (bq_binding i) = Inr ms"
      "updateReceiptStatuses (in_receipts st) (map pm_id ms) ReceiptCanonical = Inr rs"
      "assertExecutionStartMatches (bq_executionStart i) (bq_executionId i) (bq_binding i) (bq_origin i) = Inr ()"
      "m = \<lparr> im_receipts = Some rs, im_barrier = Some None, im_events = start_events (bq_executionStart i)
        @ [MessagesCommitted (bq_executionId i) (?cs ms)] \<rparr>"
    using assms(1) by (auto simp: beginQueueExecution_def bindE_Inr_iff mutation_of_Inr Let_def)
  have "run_selection (executions (in_shared st')) (bq_executionId i) (bq_runOrdinal i) = Some (emb_selection (bq_binding i))"
    by (rule delivered_run [OF assms(2) _ _ ms(3)]) (use assms(4) ms(4) in simp_all)
  then have "\<forall>c \<in> set (?cs ms). message_schema (executions (in_shared st')) c"
    using prefix_valid [OF ms(1) assms(3)] assms(4) by simp
  moreover have "\<forall>r \<in> set rs. receipt_schema r"
    using statuses_valid [OF ms(2)] assms(3) by (simp add: stored_valid_def)
  ultimately show ?thesis
    using delivery_valid [OF assms(2) [unfolded ms(4)] assms(3)] by simp
qed

lemma beginResume_valid:
  assumes "inputMutation env (BeginChildResumeExecution i) st = Inr m" "commitInput lc now clock st m = Inr st'"
    and "stored_valid st" "request_valid env (BeginChildResumeExecution i) st"
  shows "stored_valid st'"
proof -
  let ?t = "max (fresh_time env st) (nextSessionTimestamp st (ie_nowAgain env))"
  let ?p = "acceptedMessage (ie_newId env) (br_clientRequestId i) (br_instruction i) [] SourceParentAgent
      (Some (br_provenance i)) (fresh_time env st) (br_requested i) []"
  let ?c = "toCanonicalMessage ?p (br_executionId i) (br_runOrdinal i) ?t (br_modelAudit i) True"
  let ?cs = "\<lambda>ms. canonical_messages (br_executionId i) (br_runOrdinal i) ?t ms (map rs_modelAudit (br_snapshots i))"
  let ?r = "messageReceipt (br_clientRequestId i) (ie_newId env) (parentAgentResumeFingerprint (ie_sha256 env)
      (br_instruction i) (br_executionId i) (br_provenance i) (br_requested i)) ReceiptCanonical (br_requested i)"
  obtain ms rs where ms: "resolveQueuePrefix (queued_messages st) (br_snapshots i) (br_binding i) = Inr ms"
      "updateReceiptStatuses (in_receipts st) (map pm_id ms) ReceiptCanonical = Inr rs"
      "checkResume i = Inr ()" "validateAudit ?p (br_modelAudit i) (br_binding i) = Inr ()"
      "m = \<lparr> im_receipts = Some (rs @ [?r]), im_barrier = Some None,
         im_events = start_events (Some (br_executionStart i)) @ [MessagesCommitted (br_executionId i) (?cs ms @ [?c])] \<rparr>"
    using assms(1) by (auto simp: beginChildResumeExecution_def bindE_Inr_iff mutation_of_Inr Let_def start_events_def)
  have checked: "trim (br_instruction i) \<noteq> []"
      "assertExecutionStartMatches (Some (br_executionStart i)) (br_executionId i) (br_binding i) OriginToolCall = Inr ()"
    using ms(3) by (auto simp: checkResume_def bindE_Inr_iff assertMessageContent_def)
  have audit: "mma_requested (br_modelAudit i) = br_requested i"
      "mma_actual (br_modelAudit i) = emb_selection (br_binding i)"
    using ms(4) by (simp_all add: audit_validated same_selection_ref)
  have run: "run_selection (executions (in_shared st')) (br_executionId i) (br_runOrdinal i)
      = Some (emb_selection (br_binding i))"
    by (rule delivered_run [OF assms(2) _ _ checked(2)]) (use assms(4) ms(5) in simp_all)
  then have "\<forall>c \<in> set (?cs ms). message_schema (executions (in_shared st')) c"
    using prefix_valid [OF ms(1) assms(3)] assms(4) by simp
  moreover have requested: "requested_schema (br_requested i)"
    using assms(4) audit(1) by (auto simp: audit_schema_def)
  have "queued_valid [] ?p"
    using requested assms(4) checked(1) by (intro accepted_valid) simp_all
  then have "message_schema (executions (in_shared st')) ?c"
    using canonical_valid run audit(2) assms(4) by (simp add: queued_valid_def)
  moreover have "\<forall>r \<in> set (rs @ [?r]). receipt_schema r"
    using statuses_valid [OF ms(2)] assms(3,4) requested by (simp add: stored_valid_def messageReceipt_def)
  ultimately show ?thesis
    using delivery_valid [OF assms(2) [unfolded ms(5)] assms(3)] by auto
qed

lemma beginDirect_valid:
  assumes "inputMutation env (BeginDirectExecution i) st = Inr m" "commitInput lc now clock st m = Inr st'"
    and "stored_valid st" "request_valid env (BeginDirectExecution i) st"
  shows "stored_valid st'"
proof -
  let ?id = "new_message_id env (bd_messageId i)"
  let ?request = "case bd_clientRequestId i of None \<Rightarrow> js ''direct:'' @ ?id | Some r \<Rightarrow> r"
  let ?p = "acceptedMessage ?id ?request (bd_content i) [] (direct_source i) None (fresh_time env st) (bd_requested i) []"
  let ?c = "toCanonicalMessage ?p (bd_executionId i) (bd_runOrdinal i) (fresh_time env st)
      (bd_modelAudit i) (bd_clientRequestId i \<noteq> None)"
  obtain rs where checked: "trim (bd_content i) \<noteq> []" "validateAudit ?p (bd_modelAudit i) (bd_binding i) = Inr ()"
      "m = \<lparr> im_receipts = rs, im_barrier = None,
        im_events = start_events None @ [MessagesCommitted (bd_executionId i) [?c]] \<rparr>"
      "rs = (case bd_clientRequestId i of None \<Rightarrow> None | Some r \<Rightarrow> Some (in_receipts st @ [messageReceipt r ?id
        (sessionInputFingerprint (ie_sha256 env) (direct_source i) (bd_content i) [] (bd_requested i))
        ReceiptCanonical (bd_requested i)]))"
    using assms(1) by (auto simp: beginDirectExecution_def bindE_Inr_iff mutation_of_Inr Let_def start_events_def
        assertNonEmpty_def)
  have audit: "mma_requested (bd_modelAudit i) = bd_requested i"
      "mma_actual (bd_modelAudit i) = emb_selection (bd_binding i)"
    using checked(2) by (simp_all add: audit_validated same_selection_ref)
  have run: "run_selection (executions (in_shared st')) (bd_executionId i) (bd_runOrdinal i)
      = Some (emb_selection (bd_binding i))"
    by (rule delivered_run [OF assms(2), where start = None and origin = OriginUserMessage])
      (use assms(4) checked(3) in \<open>simp_all add: assertExecutionStartMatches_def\<close>)
  have requested: "requested_schema (bd_requested i)"
    using assms(4) audit(1) by (auto simp: audit_schema_def)
  have "message_schema (executions (in_shared st')) ?c"
    using run audit(2) requested assms(4) checked(1) run_selection_bounds [OF run]
    by (auto simp: toCanonicalMessage_def user_schema_def part_attachments_def part_texts_def part_notices_def
        audit_bound_def acceptedMessage_def List.map_filter_simps MAX_ATTACHMENTS_PER_MESSAGE_def)
  moreover have "\<forall>rs'. rs = Some rs' \<longrightarrow> (\<forall>r \<in> set rs'. receipt_schema r)"
    using requested assms(3,4) by (auto simp: checked(4) messageReceipt_def stored_valid_def split: option.splits)
  ultimately show ?thesis
    using delivery_valid [OF assms(2) [unfolded checked(3)] assms(3)] by simp
qed

lemma steers_bound:
  assumes "mapE (resolveSteer st input) snapshots = Inr ms"
  shows "\<forall>m \<in> set ms. m \<in> set (in_pending st) \<and> pm_targetExecutionId m = Some (sc_executionId input)
    \<and> pm_targetRunOrdinal m = Some (sc_runOrdinal input)"
  using assms
proof (induction snapshots arbitrary: ms)
  case (Cons s rest)
  obtain m ms' where m: "resolveSteer st input s = Inr m" "mapE (resolveSteer st input) rest = Inr ms'" "ms = m # ms'"
    using Cons.prems by (auto simp: bindE_Inr_iff)
  obtain current where current: "find (\<lambda>m. pm_id m = pm_id (rs_pending s)) (in_pending st) = Some current"
      "pm_targetExecutionId current = Some (sc_executionId input)"
      "pm_targetRunOrdinal current = Some (sc_runOrdinal input)"
      "validateResolvedSnapshot (Some current) s (sc_binding input) Steering = Inr m"
    using m(1) by (auto simp: resolveSteer_def bindE_Inr_iff split: option.splits)
  then have "current = m"
    using snapshot_validated(1) by fastforce
  then show ?case
    using Cons.IH [OF m(2)] m(3) current find_SomeD [OF current(1)] by simp
qed simp

lemma audits_of_steers:
  assumes "mapE currentSteerAudit ms = Inr audits"
  shows "length audits = length ms \<and> (\<forall>a \<in> set audits. \<exists>m \<in> set ms. pm_targetModelAudit m = Some a)"
  using assms
proof (induction ms arbitrary: audits)
  case (Cons m ms)
  obtain a as where a: "currentSteerAudit m = Inr a" "mapE currentSteerAudit ms = Inr as" "audits = a # as"
    using Cons.prems by (auto simp: bindE_Inr_iff)
  have "pm_targetModelAudit m = Some a"
    using a(1) by (auto simp: currentSteerAudit_def split: option.splits PendingMessageState.splits)
  then show ?case
    using Cons.IH [OF a(2)] a(3) by auto
qed simp

lemma commitSteers_valid:
  assumes "inputMutation env (CommitSteers i) st = Inr m" "commitInput lc now clock st m = Inr st'" "stored_valid st"
  shows "stored_valid st'"
proof (cases "sc_snapshots i = []")
  case True
  then show ?thesis
    using assms stored_unchanged by (auto simp: commitSteers_def mutation_of_Inr)
next
  case False
  then obtain ms audits rs t where ms: "mapE (resolveSteer st i) (sc_snapshots i) = Inr ms"
      "mapE currentSteerAudit ms = Inr audits"
      "updateReceiptStatuses (in_receipts st) (map pm_id ms) ReceiptCanonical = Inr rs"
      "m = \<lparr> im_receipts = Some rs, im_barrier = None, im_events = start_events None
        @ [MessagesCommitted (sc_executionId i)
            (canonical_messages (sc_executionId i) (sc_runOrdinal i) t ms audits)] \<rparr>"
    using assms(1) by (auto simp: commitSteers_def bindE_Inr_iff mutation_of_Inr Let_def start_events_def)
  have keeps: "keeps_runs (executions (in_shared st)) (executions (in_shared st'))"
    using committed_keeps_runs [OF assms(2)] by (simp add: ms(4) start_events_def)
  have queued: "queued_valid (executions (in_shared st)) x \<and> pm_targetExecutionId x = Some (sc_executionId i)
      \<and> pm_targetRunOrdinal x = Some (sc_runOrdinal i)" if "x \<in> set ms" for x
    using steers_bound [OF ms(1)] that assms(3) by (auto simp: stored_valid_def)
  have "audit_schema a \<and> run_selection (executions (in_shared st')) (sc_executionId i) (sc_runOrdinal i) = Some (mma_actual a)"
    if "a \<in> set audits" for a
  proof -
    obtain x where x: "x \<in> set ms" "pm_targetModelAudit x = Some a"
      using audits_of_steers [OF ms(2)] \<open>a \<in> set audits\<close> by blast
    then have "run_selection (executions (in_shared st)) (sc_executionId i) (sc_runOrdinal i) = Some (mma_actual a)"
        "audit_schema a"
      using conjunct1 [OF queued [OF x(1)]] conjunct2 [OF queued [OF x(1)]] x(2)
      by (simp_all add: queued_valid_def pending_schema_def steer_bound_def)
    then show ?thesis
      using keeps_runsD [OF keeps] by blast
  qed
  then have "\<forall>c \<in> set (canonical_messages (sc_executionId i) (sc_runOrdinal i) t ms audits).
      message_schema (executions (in_shared st')) c"
    using queued audits_of_steers [OF ms(2)] by (intro canonical_all_valid) (simp_all add: queued_valid_def)
  moreover have "\<forall>r \<in> set rs. receipt_schema r"
    using statuses_valid [OF ms(3)] assms(3) by (simp add: stored_valid_def)
  ultimately show ?thesis
    using delivery_valid [OF assms(2) [unfolded ms(4)] assms(3)] by simp
qed

section \<open>Skill commands\<close>

text \<open>The notice of a Skill command carries the provenance of the current run, or none.\<close>

lemma current_provenance:
  assumes "\<forall>e \<in> set (executions s). runs_numbered e"
  shows "currentMessageExecution s = (None, None) \<or> (\<exists>i n. currentMessageExecution s = (Some i, Some n) \<and> 0 \<le> n)"
proof (cases "current_run s")
  case (Some p)
  obtain i n where p: "p = (i, n)"
    by (cases p)
  obtain e r where e: "find (\<lambda>e. ex_id e = i) (executions s) = Some e" "at_last (ex_runs e) = Some r" "n = run_ordinal r"
    using Some unfolding p by (auto simp: current_run_def currentRunOrdinal_def split: option.splits)
  have "runs_numbered e"
    using find_SomeD [OF e(1)] assms by blast
  moreover have "r \<in> set (ex_runs e)"
    using e(2) by (auto simp: at_last_Some_iff)
  ultimately have "n \<in> set (map int [0..<length (ex_runs e)])"
    unfolding runs_numbered_def e(3) by (metis imageI set_map)
  then show ?thesis
    using Some p by (auto simp: currentMessageExecution_def)
qed (simp add: currentMessageExecution_def)

lemma notice_stored:
  assumes "appendEventToState lc st (StreamPayload (SystemNotice n)) False now ctx = Inr st'"
    and "\<forall>e \<in> set (executions (st_shared st)). runs_numbered e"
  shows "pendingMessages (st_shared st') = pendingMessages (st_shared st)
    \<and> (\<exists>c. messages (st_shared st') = messages (st_shared st) @ [c] \<and> (\<forall>exs. message_schema exs c))"
proof -
  obtain publishable where "recordEvent lc st (StreamPayload (SystemNotice n)) publishable now ctx = Inr st'"
    using assms(1) by (auto simp: appendEventToState_def)
  from record_shared [OF this] obtain st2 where st2: "delegateToProtocol lc st (SystemNotice n) ctx = Inr st2"
      "st_shared st' = st_shared st2"
    by auto
  obtain p where "reduceStreamEvent lc ((st_shared st)\<lparr>compression := None\<rparr>) (SystemNotice n) ctx = Inr p"
      "messages (st_shared st2) = present (p_messages p) (messages (st_shared st))"
      "pendingMessages (st_shared st2) = present (p_pendingMessages p) (pendingMessages (st_shared st))"
      "same_session st st2"
    using st2(1) by (rule delegated)
  then show ?thesis
    using st2(2) current_provenance [of "(st_shared st)\<lparr>compression := None\<rparr>"] assms(2)
    by (auto simp: onSystemNotice_def Let_def user_schema_def part_attachments_def part_texts_def part_notices_def
        audit_bound_def List.map_filter_simps MAX_ATTACHMENTS_PER_MESSAGE_def)
qed

lemma acceptSkill_valid:
  assumes "inputMutation env (AcceptSkillCommand i) st = Inr m" "commitInput lc now clock st m = Inr st'"
    and "stored_valid st" "request_valid env (AcceptSkillCommand i) st"
  shows "stored_valid st'"
proof -
  let ?m = "acceptedMessage (ie_newId env) (si_clientRequestId i) (si_skillContent i) [] (si_source i) None
      (fresh_time env st) (si_requested i) [si_skillName i]"
  let ?r = "messageReceipt (si_clientRequestId i) (ie_newId env) (skillFingerprint env i) ReceiptPending (si_requested i)"
  obtain x where x: "acceptSkillCommandMessage env i st = Inr (x, m)"
    using assms(1) by (auto simp: mutation_of_Inr)
  then have content: "trim (si_skillContent i) \<noteq> []"
    by (auto simp: acceptSkillCommandMessage_def bindE_Inr_iff validateNormalizedSkillCommandInput_def assertNonEmpty_def)
  from x consider "m = no_mutation"
    | "m = with_receipts (in_receipts st @ [?r]) [SystemNotice (skillNotice (si_skillName i)), MessageAccepted ?m]"
    by (auto simp: acceptSkillCommandMessage_def bindE_Inr_iff Let_def split: option.splits)
  then show ?thesis
  proof cases
    case 1
    then show ?thesis using stored_unchanged assms(2,3) by blast
  next
    case 2
    let ?exs = "executions (in_shared st')"
    have keeps: "keeps_runs (executions (in_shared st)) ?exs"
      using committed_keeps_runs [OF assms(2)] by (simp add: 2)
    obtain t0 x0 t1 x1 where clock: "clock 0 = (t0, x0)" "clock 1 = (t1, x1)"
      by (metis surj_pair)
    obtain mid store' where mid: "appendEventToState lc (in_store st) (StreamPayload (SystemNotice (skillNotice
          (si_skillName i)))) False t0 x0 = Inr mid"
        "appendEventToState lc mid (StreamPayload (MessageAccepted ?m)) False t1 x1 = Inr store'"
        "in_store st' = store'" "in_receipts st' = in_receipts st @ [?r]"
      using assms(2) clock by (auto simp: 2 commitInput_def input_changes_def applyMutation_def bindE_Inr_iff)
    obtain c where "messages (st_shared mid) = in_messages st @ [c]" "message_schema ?exs c"
        "pendingMessages (st_shared mid) = in_pending st"
      using notice_stored [OF mid(1)] assms(3) by (auto simp: stored_valid_def)
    moreover have "recorded_as (MessageAccepted ?m) mid store'"
      using input_event_appended [OF mid(2)] by simp
    ultimately have st': "in_pending st' = in_pending st @ [?m]" "in_messages st' = in_messages st @ [c]" "message_schema ?exs c"
      using mid(3) by (simp_all add: recorded_as_def)
    have "queued_valid ?exs ?m"
      using assms(4) content by (intro accepted_valid) simp_all
    moreover have "receipt_schema ?r"
      using assms(4) by (simp add: messageReceipt_def)
    ultimately show ?thesis
      using st' mid(4) assms(3) keeps queued_valid_keeps [OF keeps] message_schema_keeps [OF keeps]
      by (auto simp: stored_valid_def keeps_runs_def)
  qed
qed

section \<open>Every request\<close>

lemma request_keeps_valid:
  assumes "inputMutation env request st = Inr m" "commitInput lc now clock st m = Inr st'"
    and "stored_valid st" "request_valid env request st"
  shows "stored_valid st'"
proof (cases request)
  case (RecordBarrier t)
  then show ?thesis using recordBarrier_valid assms by blast
next
  case (AcceptSkillCommand i)
  then show ?thesis using acceptSkill_valid assms by blast
next
  case (CompleteCommandAsMessage i)
  then show ?thesis using completeAsMessage_valid assms by blast
next
  case (AcceptMessage i attachments)
  then show ?thesis using acceptMessage_valid assms by blast
next
  case (AcceptParentAgentMessage i q aborted)
  then show ?thesis using acceptParent_valid assms by blast
next
  case (EditMessage i n c)
  then show ?thesis using edit_valid assms by blast
next
  case (DeleteMessage i n)
  then show ?thesis using delete_valid assms by blast
next
  case (ClaimSteer i)
  then show ?thesis using claim_valid assms by blast
next
  case (BeginQueueExecution i)
  then show ?thesis using beginQueue_valid assms by blast
next
  case (BeginChildResumeExecution i)
  then show ?thesis using beginResume_valid assms by blast
next
  case (BeginDirectExecution i)
  then show ?thesis using beginDirect_valid assms by blast
next
  case (CommitSteers i)
  then show ?thesis using commitSteers_valid assms by blast
next
  case (RollbackSteers e ids)
  then show ?thesis using rollback_valid assms by blast
qed (use command_valid [OF assms] in blast)+

fun valid_request :: "SessionInputState \<Rightarrow> timed_request \<Rightarrow> bool" where
  "valid_request st (env, now, clock, request) \<longleftrightarrow> well_posed env clock request st \<and> request_valid env request st"

abbreviation all_valid :: "collation \<Rightarrow> SessionInputState \<Rightarrow> timed_request list \<Rightarrow> bool" where
  "all_valid lc \<equiv> all_admitted (serveOne lc) valid_request"

lemma served_valid:
  assumes "stored_valid st" "valid_request st r"
  shows "stored_valid (serveOne lc st r)"
proof -
  obtain env now clock request where r: "r = (env, now, clock, request)"
    by (cases r)
  show ?thesis
  proof (cases "serveInput lc r st")
    case (Inl e)
    then show ?thesis
      using assms(1) by (simp add: serveOne_def)
  next
    case (Inr st')
    then obtain m where "inputMutation env request st = Inr m" "commitInput lc now clock st m = Inr st'"
      by (auto simp: r bindE_Inr_iff)
    then show ?thesis
      using request_keeps_valid assms Inr by (simp add: r serveOne_def)
  qed
qed

lemma history_valid:
  assumes "inputs_sound st" "stored_valid st" "all_valid lc st requests"
  shows "inputs_sound (foldl (serveOne lc) st requests) \<and> stored_valid (foldl (serveOne lc) st requests)"
  using assms
proof (induction requests arbitrary: st)
  case (Cons r rs)
  have posed: "posed st r"
    using Cons.prems(3) by (cases r) simp
  show ?case
    using Cons.IH [OF input_service.serve_sound [OF Cons.prems(1) posed] served_valid [OF Cons.prems(2)]]
      Cons.prems(3) by simp
qed simp

text \<open>
  C8: what the input service stores passes the checks the Session file loader makes of queued
  messages, receipts and user messages: their schemas and refinements, unique ids and request ids, a
  pending receipt for every queued message and for no other, a delivered message for every canonical
  receipt and none for a deleted one, the recorded model selections, contiguous run ordinals, and for
  every delivered message a recorded run with the selection it was audited with; and steering messages
  stay bound to recorded runs. It holds after any
  list of requests, refused ones included, from a state that passes (a new Session, say) and whose
  steering messages are bound to recorded runs. The callers must use new identifiers and trimmed
  texts, give \<open>parent_agent\<close> messages their provenance, resolve attachments within the limits, and name
  recorded runs, or start the Execution they deliver into (\<open>well_posed\<close>, \<open>request_valid\<close>).
\<close>
theorem stored_inputs_always_load:
  assumes "inputs_sound st" "storedInputValid st"
    and "\<forall>m \<in> set (in_pending st). steer_bound (executions (in_shared st)) m"
    and "all_valid lc st requests"
  shows "storedInputValid (serveInputs lc requests st)
    \<and> (\<forall>m \<in> set (in_pending (serveInputs lc requests st)).
        steer_bound (executions (in_shared (serveInputs lc requests st))) m)"
proof -
  have "stored_valid st"
    using stored_valid_iff [OF assms(1)] assms(2,3) by simp
  from history_valid [OF assms(1) this assms(4)]
  have kept: "inputs_sound (serveInputs lc requests st)" "stored_valid (serveInputs lc requests st)"
    by (simp_all add: serveInputs_foldl)
  show ?thesis
    using kept(2) unfolding stored_valid_iff [OF kept(1)] .
qed

end
