(* ===== verification/SessionInputQueue.thy ===== *)
theory SessionInputQueue
  imports SessionInputRefinement
begin

text \<open>
  The order of the queue, the rollback of a steering claim, and the fingerprints that tell the requests
  of a client apart.
\<close>

section \<open>Order\<close>

lemma queued_prefix:
  assumes "distinct (map pm_id q)"
  shows "filter (\<lambda>x. pm_id x \<notin> pm_id ` set (take n q)) q = drop n q"
proof -
  have "set (map pm_id (take n q)) \<inter> set (map pm_id (drop n q)) = {}"
    using assms by (metis append_take_drop_id distinct_append map_append)
  then have "filter (\<lambda>x. pm_id x \<notin> pm_id ` set (take n q)) (drop n q) = drop n q"
    by (intro filter_True) auto
  moreover have "filter (\<lambda>x. pm_id x \<notin> pm_id ` set (take n q)) (take n q) = []"
    by (auto simp: filter_empty_conv)
  ultimately show ?thesis
    by (metis append_Nil append_take_drop_id filter_append)
qed

lemma queue_ordered:
  assumes "inputs_sound st"
  shows "distinct (map pm_id (queued_messages st))" "sorted_wrt (<) (map pm_acceptedAt (queued_messages st))"
  using assms
  by (auto simp: queued_messages_def inputs_sound_def inbox_sound_def inbox_of_def
      intro: distinct_map_filter_id sorted_map_filter)

text \<open>
  C11: a queue execution delivers the oldest queued messages, in the order they were accepted. The
  conversation grows by exactly one message for each of them, with its text and its request; the rest
  of the queue stays in order, messages held for steering stay where they are, and the dispatch
  barrier is lifted.
\<close>
theorem queue_delivered_in_order:
  assumes "inputs_sound st" "beginQueueExecution env i st = Inr ((pending, committed), m)"
    and "commitInput lc now clock st m = Inr st'"
  shows "pending = take (length (bq_snapshots i)) (queued_messages st) \<and> pending \<noteq> []
    \<and> sorted_wrt (<) (map pm_acceptedAt (queued_messages st))
    \<and> list_all2 delivers pending committed \<and> in_messages st' = in_messages st @ committed
    \<and> queued_messages st' = drop (length (bq_snapshots i)) (queued_messages st)
    \<and> filter (\<lambda>x. pm_state x = Steering) (in_pending st') = filter (\<lambda>x. pm_state x = Steering) (in_pending st)
    \<and> in_queueDispatchBarrierAt st' = None"
proof -
  have run: "resolveQueuePrefix (queued_messages st) (bq_snapshots i) (bq_binding i) = Inr pending
      \<and> committed = canonical_messages (bq_executionId i) (bq_runOrdinal i) (fresh_time env st) pending
          (map rs_modelAudit (bq_snapshots i))
      \<and> (\<exists>rs. updateReceiptStatuses (in_receipts st) (map pm_id pending) ReceiptCanonical = Inr rs
        \<and> m = \<lparr> im_receipts = Some rs, im_barrier = Some None, im_events = start_events (bq_executionStart i)
          @ [MessagesCommitted (bq_executionId i) (committed @ [])] \<rparr>) \<and> bq_snapshots i \<noteq> []"
    using assms(2) by (auto simp: beginQueueExecution_def bindE_Inr_iff Let_def)
  then obtain rs where rs: "updateReceiptStatuses (in_receipts st) (map pm_id pending) ReceiptCanonical = Inr rs"
      "m = \<lparr> im_receipts = Some rs, im_barrier = Some None, im_events = start_events (bq_executionStart i)
          @ [MessagesCommitted (bq_executionId i) (committed @ [])] \<rparr>"
    by blast
  have prefix: "pending = take (length (bq_snapshots i)) (queued_messages st)" "length pending = length (bq_snapshots i)"
    using prefix_resolved run by blast+
  have delivers: "set pending \<subseteq> set (in_pending st)" "list_all2 delivers pending committed"
    using prefix_delivers run by blast+
  have "(case Some rs of None \<Rightarrow> in_receipts st | Some rs' \<Rightarrow> rs')
      = map (set_receipt_status (pm_id ` set pending) ReceiptCanonical) (in_receipts st) @ []"
    using statuses_updated(1) [OF rs(1)] by simp
  note st' = delivered_state [OF assms(3) [unfolded rs(2)] this delivers no_direct assms(1)]
  let ?keep = "\<lambda>x. pm_id x \<notin> pm_id ` set pending"
  have "queued_messages st' = filter ?keep (queued_messages st)"
    using st' by (simp add: queued_messages_def conj_commute)
  then have rest: "queued_messages st' = drop (length (bq_snapshots i)) (queued_messages st)"
    using queued_prefix [OF queue_ordered(1) [OF assms(1)]] prefix(1) by simp
  have "?keep x" if "x \<in> set (in_pending st)" "pm_state x = Steering" for x
  proof
    assume "pm_id x \<in> pm_id ` set pending"
    then obtain y where y: "y \<in> set (queued_messages st)" "pm_id x = pm_id y"
      using prefix(1) by (auto dest: in_set_takeD)
    then have "x = y"
      using that(1) assms(1)
      by (auto simp: queued_messages_def inputs_sound_def inbox_sound_def inbox_of_def distinct_map inj_on_def)
    with y that(2) show False
      by (simp add: queued_messages_def)
  qed
  then have steering: "filter (\<lambda>x. pm_state x = Steering) (in_pending st')
      = filter (\<lambda>x. pm_state x = Steering) (in_pending st)"
    using st' by (auto intro: filter_cong)
  have "in_queueDispatchBarrierAt st' = None"
    using assms(3) by (auto simp: rs(2) commitInput_def input_changes_def bindE_Inr_iff)
  moreover have "pending \<noteq> []"
    using prefix(2) run by auto
  ultimately show ?thesis
    using prefix(1) queue_ordered(2) [OF assms(1)] delivers(2) st' rest steering by simp
qed

section \<open>Claims and rollbacks\<close>

text \<open>
  C19: rolling a steering claim back restores the message. After the claim and the rollback the message
  is queued again at its place, two revisions later, with its content and without target, audit or
  claim time; no other message, no receipt and no part of the conversation has changed.
\<close>
theorem rollback_undoes_claim:
  assumes "inputs_sound st" "claimSteer env i st = Inr (claimed, m)" "commitInput lc now clock st m = Inr st1"
    and "rollbackSteers env' None (Some [ti_messageId i]) st1 = Inr (released, m')"
    and "commitInput lc now' clock' st1 m' = Inr st2"
  shows "\<exists>old \<in> set (in_pending st). pm_id old = ti_messageId i \<and> pm_state old = Queued
    \<and> in_pending st2 = map (\<lambda>x. if pm_id x = ti_messageId i
        then old\<lparr>pm_revision := pm_revision old + 2, pm_updatedAt := nextSessionTimestamp st1 (ie_now env'),
          pm_targetExecutionId := None, pm_targetRunOrdinal := None, pm_targetModelAudit := None,
          pm_claimedAt := None\<rparr>
        else x) (in_pending st)
    \<and> in_messages st2 = in_messages st \<and> in_receipts st2 = in_receipts st"
proof -
  obtain old where old: "requireQueuedMessage st (ti_messageId i) (ti_expectedRevision i) = Inr old"
      "claimed = old\<lparr>pm_state := Steering, pm_revision := pm_revision old + 1,
         pm_updatedAt := fresh_time env st, pm_targetExecutionId := Some (ti_expectedExecutionId i),
         pm_targetRunOrdinal := Some (ti_runOrdinal i), pm_targetModelAudit := Some (ti_modelAudit i),
         pm_claimedAt := Some (case ti_claimedAt i of None \<Rightarrow> ie_nowAgain env | Some t \<Rightarrow> t)\<rparr>"
      "m = events_only [MessageSteerClaimed claimed]"
    using assms(2) by (auto simp: claimSteer_def bindE_Inr_iff Let_def)
  note q = required_queued [OF old(1)]
  have c: "pm_id claimed = ti_messageId i" "pm_state claimed = Steering"
    using q(2) by (simp_all add: old(2))
  have st1: "in_pending st1 = map (\<lambda>x. if pm_id x = ti_messageId i then claimed else x) (in_pending st)"
      "in_messages st1 = in_messages st" "in_receipts st1 = in_receipts st"
    using input_committed [OF assms(3)] c by (simp_all add: old(3))
  have distinct: "distinct (map pm_id (in_pending st))"
    using assms(1) by (simp add: inputs_sound_def inbox_sound_def inbox_of_def)
  let ?claim = "\<lambda>x. if pm_id x = ti_messageId i then claimed else x"
  have "filter (rollback_match None (Some [ti_messageId i])) (map ?claim xs)
      = (if ti_messageId i \<in> pm_id ` set xs then [claimed] else [])" if "distinct (map pm_id xs)" for xs
    using that by (induction xs) (auto simp: rollback_match_def c)
  then have "filter (rollback_match None (Some [ti_messageId i])) (in_pending st1) = [claimed]"
    using distinct imageI [OF q(1), of pm_id] q(2) by (simp add: st1(1))
  then have m': "m' = events_only [MessageSteerRolledBack (release_steer (fresh_time env' st1) claimed)]"
    using assms(4) by (simp add: rollbackSteers_def Let_def)
  have "in_pending st2 = map (\<lambda>x. if pm_id x = ti_messageId i then release_steer (fresh_time env' st1) claimed else x)
        (in_pending st)"
    using input_committed [OF assms(5)] c by (simp add: m' st1(1) release_steer_def)
  moreover have "release_steer (fresh_time env' st1) claimed = old\<lparr>pm_revision := pm_revision old + 2,
      pm_updatedAt := nextSessionTimestamp st1 (ie_now env'), pm_targetExecutionId := None,
      pm_targetRunOrdinal := None, pm_targetModelAudit := None, pm_claimedAt := None\<rparr>"
    using q(4) by (simp add: old(2) release_steer_def fresh_time_def)
  moreover have "in_messages st2 = in_messages st" "in_receipts st2 = in_receipts st"
    using input_committed [OF assms(5)] st1 by (simp_all add: m')
  ultimately show ?thesis
    using q by auto
qed

section \<open>Fingerprints\<close>

lemma terminated_field:
  assumes "x @ (0::8 word) # xs = y @ 0 # ys" "0 \<notin> set x" "0 \<notin> set y"
  shows "x = y \<and> xs = ys"
proof -
  have split: "takeWhile (\<lambda>c. c \<noteq> 0) (z @ 0 # zs) = z \<and> dropWhile (\<lambda>c. c \<noteq> 0) (z @ 0 # zs) = 0 # zs"
    if "(0::8 word) \<notin> set z" for z zs
    using that by (induction z) auto
  show ?thesis
    using split [OF assms(2), of xs] split [OF assms(3), of ys] assms(1) by (metis list.inject)
qed

text \<open>A field whose bytes can be told apart: no U+0000 and no lone surrogate.\<close>

definition plain_field :: "jstring \<Rightarrow> bool" where
  "plain_field f \<longleftrightarrow> 0 \<notin> set f \<and> well_formed_text f"

lemma terminated_fields:
  assumes "\<forall>f \<in> set xs \<union> set ys. plain_field f" "terminated_bytes xs = terminated_bytes ys"
  shows "xs = ys"
  using assms
proof (induction xs arbitrary: ys)
  case Nil
  then show ?case
    by (cases ys) (auto simp: terminated_bytes_def)
next
  case (Cons x xs)
  then obtain y ys' where ys: "ys = y # ys'"
    by (cases ys) (auto simp: terminated_bytes_def)
  have eq: "utf8_bytes x @ 0 # terminated_bytes xs = utf8_bytes y @ 0 # terminated_bytes ys'"
    using Cons.prems(2) ys by (simp add: terminated_bytes_def)
  have plain: "plain_field x" "plain_field y"
    using Cons.prems(1) ys by auto
  then have "utf8_bytes x = utf8_bytes y \<and> terminated_bytes xs = terminated_bytes ys'"
    by (intro terminated_field [OF eq] zero_byte) (simp_all add: plain_field_def)
  then show ?case
    using Cons.IH [of ys'] Cons.prems(1) plain ys by (auto simp: plain_field_def utf8_bytes_inject)
qed

lemma source_names:
  "source_name s = source_name s' \<longleftrightarrow> s = s'" "plain_field (source_name s)"
proof -
  show "source_name s = source_name s' \<longleftrightarrow> s = s'"
    by (cases s; cases s'; simp add: js_def)
  have "\<forall>s \<in> {SourceUser, SourceAutomation, SourceParentAgent}. plain_field (source_name s)"
    by code_simp
  then show "plain_field (source_name s)"
    by (cases s) simp_all
qed

lemma mode_names:
  "mode_name m = mode_name m' \<longleftrightarrow> m = m'" "plain_field (mode_name m)"
proof -
  show "mode_name m = mode_name m' \<longleftrightarrow> m = m'"
    by (cases m; cases m'; simp add: js_def)
  have "\<forall>m \<in> {ModeProfileDefault, ModeSessionOverride}. plain_field (mode_name m)"
    by code_simp
  then show "plain_field (mode_name m)"
    by (cases m) simp_all
qed

text \<open>The fields of a request that its fingerprint takes in; a missing model variant is an empty one.\<close>

definition request_fields ::
  "SessionMessageSource \<Rightarrow> jstring \<Rightarrow> jstring list \<Rightarrow> RequestedModelSelection \<Rightarrow> jstring list" where
  "request_fields source content ids q = [source_name source, content, mode_name (rms_mode q),
     msr_model (rms_selection q), variant_text (rms_selection q)] @ ids"

definition same_request_fields ::
  "SessionMessageSource \<Rightarrow> jstring \<Rightarrow> jstring list \<Rightarrow> RequestedModelSelection
   \<Rightarrow> SessionMessageSource \<Rightarrow> jstring \<Rightarrow> jstring list \<Rightarrow> RequestedModelSelection \<Rightarrow> bool" where
  "same_request_fields s c ids q s' c' ids' q' \<longleftrightarrow> s = s' \<and> c = c' \<and> ids = ids' \<and> rms_mode q = rms_mode q'
     \<and> msr_model (rms_selection q) = msr_model (rms_selection q')
     \<and> variant_text (rms_selection q) = variant_text (rms_selection q')"

definition collision :: "(8 word list \<Rightarrow> jstring) \<Rightarrow> 8 word list \<Rightarrow> 8 word list \<Rightarrow> bool" where
  "collision sha256 x y \<longleftrightarrow> x \<noteq> y \<and> sha256 x = sha256 y"

lemma preimage_identifies_request:
  assumes "\<forall>f \<in> set (request_fields s c ids q) \<union> set (request_fields s' c' ids' q'). plain_field f"
  shows "input_preimage s c ids q = input_preimage s' c' ids' q' \<longleftrightarrow> same_request_fields s c ids q s' c' ids' q'"
proof -
  have "input_preimage s c ids q = input_preimage s' c' ids' q' \<longleftrightarrow>
      request_fields s c ids q = request_fields s' c' ids' q'"
    unfolding input_preimage_def request_fields_def [symmetric]
    by (auto intro: terminated_fields [OF assms])
  then show ?thesis
    by (auto simp: request_fields_def same_request_fields_def source_names mode_names)
qed

text \<open>
  C20: the bytes that are hashed identify a request, its source, text, model selection and attachments,
  when its fields hold no U+0000 and no lone surrogate, which the encoding would not keep apart. So
  two requests have the same fingerprint exactly when they are the same, or when SHA-256 collides on
  those bytes; and short of a collision, a client request id that is used again for other input is
  refused with an idempotency conflict. Nothing is assumed of SHA-256.
\<close>
theorem fingerprint_identifies_request:
  assumes "\<forall>f \<in> {c, c', msr_model (rms_selection q), msr_model (rms_selection q'),
      variant_text (rms_selection q), variant_text (rms_selection q')} \<union> set ids \<union> set ids'. plain_field f"
  shows "(input_preimage s c ids q = input_preimage s' c' ids' q' \<longleftrightarrow> same_request_fields s c ids q s' c' ids' q')
    \<and> (sessionInputFingerprint sha256 s c ids q = sessionInputFingerprint sha256 s' c' ids' q' \<longleftrightarrow>
        same_request_fields s c ids q s' c' ids' q'
        \<or> collision sha256 (input_preimage s c ids q) (input_preimage s' c' ids' q'))
    \<and> (ir_requestFingerprint r = sessionInputFingerprint sha256 s c ids q
          \<and> \<not> same_request_fields s c ids q s' c' ids' q'
          \<and> \<not> collision sha256 (input_preimage s c ids q) (input_preimage s' c' ids' q')
        \<longrightarrow> replayAcceptance st (MessageReceipt r) (sessionInputFingerprint sha256 s' c' ids' q')
          = Inl (conflict IdempotencyConflict))"
proof -
  have pre: "input_preimage s c ids q = input_preimage s' c' ids' q' \<longleftrightarrow> same_request_fields s c ids q s' c' ids' q'"
    by (rule preimage_identifies_request) (use assms source_names(2) mode_names(2) in \<open>auto simp: request_fields_def\<close>)
  then have fp: "sessionInputFingerprint sha256 s c ids q = sessionInputFingerprint sha256 s' c' ids' q' \<longleftrightarrow>
      same_request_fields s c ids q s' c' ids' q'
      \<or> collision sha256 (input_preimage s c ids q) (input_preimage s' c' ids' q')"
    unfolding sessionInputFingerprint_def collision_def by metis
  with pre show ?thesis
    by simp
qed

text \<open>Why lone surrogates are left out: such texts share their bytes.\<close>

lemma lone_surrogates_share_fingerprint:
  "sessionInputFingerprint sha256 s [0xD800] ids q = sessionInputFingerprint sha256 s [0xDC00] ids q"
  by (simp add: sessionInputFingerprint_def input_preimage_def terminated_bytes_def lone_surrogates_collapse)

end
