(* ===== verification/ModelSelectionService.thy ===== *)
theory ModelSelectionService
  imports SessionLog
begin

text \<open>
  The model override of a user-facing root Session
  (packages/agent-core/src/session-input/model-selection-service.ts) and the identity of root Sessions
  it rests on (packages/agent-core/src/agents/root-session-identity.ts).
\<close>

section \<open>Root Sessions\<close>

definition ROOT_AGENT_NAMES :: "jstring list" where
  "ROOT_AGENT_NAMES = [js ''lead'', js ''discussion'']"

definition isRootAgentName :: "jstring \<Rightarrow> bool" where
  "isRootAgentName agentName \<longleftrightarrow> agentName \<in> set ROOT_AGENT_NAMES"

definition isUserFacingRootSession :: "SessionStoreState \<Rightarrow> bool" where
  "isUserFacingRootSession st \<longleftrightarrow> parentSessionId (st_shared st) = None
     \<and> rootSessionId (st_shared st) = sessionId (st_shared st) \<and> isRootAgentName (st_agentName st)"

definition isRootLeadSession :: "SessionStoreState \<Rightarrow> bool" where
  "isRootLeadSession st \<longleftrightarrow> isUserFacingRootSession st \<and> st_agentName st = js ''lead''"

datatype IdentityViolation =
    RootNotOwn | ChildOwnsRoot | OwnParent | RootAgentRequired | RootAgentIsChild | SourceOnChild
  | SourceMissing | DiscussionSourceRequired | DiscussionAgentRequired

definition discussion_source :: "RootSessionSource option \<Rightarrow> bool" where
  "discussion_source source = (case source of Some (TodoSource _ entry) \<Rightarrow> entry = DiscussionEntry | _ \<Rightarrow> False)"

definition sessionIdentityInvariantError :: "SessionStoreState \<Rightarrow> IdentityViolation option" where
  "sessionIdentityInvariantError st =
    (let s = st_shared st; isRoot = (parentSessionId s = None) in
     if isRoot \<and> rootSessionId s \<noteq> sessionId s then Some RootNotOwn
     else if \<not> isRoot \<and> rootSessionId s = sessionId s then Some ChildOwnsRoot
     else if parentSessionId s = Some (sessionId s) then Some OwnParent
     else if isRoot \<and> \<not> isRootAgentName (st_agentName st) then Some RootAgentRequired
     else if \<not> isRoot \<and> isRootAgentName (st_agentName st) then Some RootAgentIsChild
     else if st_source st \<noteq> None \<and> \<not> isRoot then Some SourceOnChild
     else if isRoot \<and> st_source st = None then Some SourceMissing
     else if st_agentName st = js ''discussion''
       then (if discussion_source (st_source st) then None else Some DiscussionSourceRequired)
     else if discussion_source (st_source st) then Some DiscussionAgentRequired
     else None)"

lemma identity_root:
  "sessionIdentityInvariantError st = None \<Longrightarrow>
     (isUserFacingRootSession st \<longleftrightarrow> parentSessionId (st_shared st) = None)
     \<and> (isUserFacingRootSession st \<longleftrightarrow> isRootAgentName (st_agentName st))
     \<and> (isUserFacingRootSession st \<longleftrightarrow> st_source st \<noteq> None)"
  by (auto simp: sessionIdentityInvariantError_def isUserFacingRootSession_def Let_def split: if_splits)

section \<open>The override\<close>

datatype selection_error =
    SelectionConflict int SessionModelSelection
  | SelectionNotAllowed
  | SelectionCommitFailed store_error

definition resolveDurableSessionModelOverride :: "SessionStoreState \<Rightarrow> selection_error + ModelSelectionRef option" where
  "resolveDurableSessionModelOverride st =
    (let selection = modelSelection (st_shared st) in
     if \<not> isUserFacingRootSession st
     then (if sms_revision selection \<noteq> 0 \<or> sms_override selection \<noteq> None then Inl SelectionNotAllowed
           else Inr None)
     else Inr (sms_override selection))"

definition getModelSelection :: "SessionStoreState \<Rightarrow> selection_error + SessionModelSelection" where
  "getModelSelection st =
     bindE (resolveDurableSessionModelOverride st) (\<lambda>_. Inr (modelSelection (st_shared st)))"

definition patched_selection :: "SessionModelSelection \<Rightarrow> RequestedModelSelection \<Rightarrow> SessionModelSelection" where
  "patched_selection current requested =
    \<lparr> sms_revision = sms_revision current + 1,
      sms_override = (case rms_mode requested of ModeProfileDefault \<Rightarrow> None
        | ModeSessionOverride \<Rightarrow> Some (rms_selection requested)) \<rparr>"

text \<open>The state is read twice: before the mutation is queued and when it runs.\<close>

definition patchModelSelection ::
  "collation \<Rightarrow> int \<times> ReduceContext \<Rightarrow> int \<Rightarrow> RequestedModelSelection \<Rightarrow> SessionStoreState
   \<Rightarrow> SessionStoreState \<Rightarrow> selection_error + SessionModelSelection \<times> SessionStoreState" where
  "patchModelSelection lc time expectedRevision requested before st =
    (if \<not> isUserFacingRootSession before then Inl SelectionNotAllowed
     else if \<not> isUserFacingRootSession st then Inl SelectionNotAllowed
     else if sms_revision (modelSelection (st_shared st)) \<noteq> expectedRevision
     then Inl (SelectionConflict expectedRevision (modelSelection (st_shared st)))
     else
       (let selection = patched_selection (modelSelection (st_shared st)) requested in
        bindE (liftE SelectionCommitFailed
            (applyMutation lc st no_patch [(StreamPayload (ModelSelectionChanged selection), time)])) (\<lambda>st'.
          Inr (selection, st'))))"

lemma selection_recorded:
  "\<exists>st'. applyMutation lc st no_patch [(StreamPayload (ModelSelectionChanged selection), time)] = Inr st'
     \<and> st_shared st' = (st_shared st)\<lparr>modelSelection := selection\<rparr> \<and> st_agentName st' = st_agentName st"
  by (cases time) (simp add: applyMutation_def appendEventToState_def recordEvent_def delegateToProtocol_def
      Let_def apply_patch_def)

text \<open>
  C21: a model override changes by compare-and-set. On a user-facing root Session a patch succeeds
  exactly at the current revision; it then stores the next revision with the requested override (none
  for the profile default), which reading gives back, and the same patch repeated is refused with the
  selection it has stored. On any other Session it is refused, whatever the revision.
\<close>
theorem model_selection_compare_and_set:
  "(\<not> isUserFacingRootSession st \<longrightarrow> patchModelSelection lc t n q st st = Inl SelectionNotAllowed)
   \<and> (isUserFacingRootSession st \<and> n \<noteq> sms_revision (modelSelection (st_shared st)) \<longrightarrow>
        patchModelSelection lc t n q st st = Inl (SelectionConflict n (modelSelection (st_shared st))))
   \<and> (isUserFacingRootSession st \<and> n = sms_revision (modelSelection (st_shared st)) \<longrightarrow>
        (\<exists>selection st'. patchModelSelection lc t n q st st = Inr (selection, st')
          \<and> sms_revision selection = n + 1
          \<and> resolveDurableSessionModelOverride st' = Inr (case rms_mode q of
              ModeProfileDefault \<Rightarrow> None | ModeSessionOverride \<Rightarrow> Some (rms_selection q))
          \<and> getModelSelection st' = Inr selection
          \<and> patchModelSelection lc t n q st' st' = Inl (SelectionConflict n selection)))"
proof (intro conjI impI)
  assume root: "isUserFacingRootSession st \<and> n = sms_revision (modelSelection (st_shared st))"
  let ?new = "patched_selection (modelSelection (st_shared st)) q"
  obtain st' where st': "applyMutation lc st no_patch [(StreamPayload (ModelSelectionChanged ?new), t)] = Inr st'"
      "st_shared st' = (st_shared st)\<lparr>modelSelection := ?new\<rparr>" "st_agentName st' = st_agentName st"
    using selection_recorded by blast
  then have "isUserFacingRootSession st'"
    using root by (simp add: isUserFacingRootSession_def)
  then show "\<exists>selection st'. patchModelSelection lc t n q st st = Inr (selection, st')
      \<and> sms_revision selection = n + 1
      \<and> resolveDurableSessionModelOverride st' = Inr (case rms_mode q of
          ModeProfileDefault \<Rightarrow> None | ModeSessionOverride \<Rightarrow> Some (rms_selection q))
      \<and> getModelSelection st' = Inr selection
      \<and> patchModelSelection lc t n q st' st' = Inl (SelectionConflict n selection)"
    using root st' by (intro exI [of _ ?new] exI [of _ st'])
      (simp add: patchModelSelection_def getModelSelection_def resolveDurableSessionModelOverride_def
        patched_selection_def Let_def)
qed (simp_all add: patchModelSelection_def)

end
