(* ===== verification/SessionInputWitnesses.thy ===== *)
theory SessionInputWitnesses
  imports ExampleSession SessionInputLoads SessionInputQueue ModelSelectionService
begin

text \<open>
  The properties of the input service at a concrete Session: two messages accepted, one edited,
  delivered or claimed for steering and released again.
\<close>

section \<open>A Session with a queue\<close>

definition in_new :: SessionInputState where
  "in_new = \<lparr> in_store = \<lparr> st_shared = empty_session, st_agentName = js ''lead'',
       st_compression = createEmptyCompressionState, st_source = Some DirectSource,
       st_lastTodoWriteStepIndex = None, st_memoryLearning = None, st_readSnapshots = [],
       st_events = [], st_eventOffset = 0, st_nextEventId = 0, st_publishableNextEventId = 0 \<rparr>,
     in_receipts = [], in_queueDispatchBarrierAt = None, in_updatedAt = 0 \<rparr>"

text \<open>A digest of bounded length, in the place of SHA-256: many byte sequences share a value.\<close>

definition checksum :: "8 word list \<Rightarrow> jstring" where
  "checksum bytes = [word_of_int (foldl (\<lambda>h b. (h * 31 + uint b) mod 65521) 7 bytes)]"

definition in_env :: InputEnvironment where
  "in_env = \<lparr> ie_now = 10, ie_nowAgain = 11, ie_newId = js ''new'', ie_sha256 = checksum \<rparr>"

definition in_clock :: "nat \<Rightarrow> int \<times> ReduceContext" where
  "in_clock = (\<lambda>_. (12, ex_ctx 12 ''n''))"

definition in_selection :: RequestedModelSelection where
  "in_selection = \<lparr> rms_mode = ModeProfileDefault, rms_selection = emb_selection (es_binding ex_start) \<rparr>"

definition in_first :: AcceptMessageInput where
  "in_first = \<lparr> ai_content = js ''hi'', ai_attachmentIds = [], ai_clientRequestId = js ''q1'',
     ai_source = SourceUser, ai_messageId = Some (js ''m1''), ai_requested = in_selection \<rparr>"

definition in_second :: AcceptMessageInput where
  "in_second = \<lparr> ai_content = js ''there'', ai_attachmentIds = [], ai_clientRequestId = js ''q2'',
     ai_source = SourceUser, ai_messageId = Some (js ''m2''), ai_requested = in_selection \<rparr>"

definition timed :: "InputRequest \<Rightarrow> timed_request" where
  "timed request = (in_env, 13, in_clock, request)"

definition in_history :: "timed_request list" where
  "in_history = [timed (AcceptMessage in_second []), timed (EditMessage (js ''m1'') 0 (js ''hello'')),
     timed (DeleteMessage (js ''m1'') 0)]"

definition in_queued :: PendingSessionMessage where
  "in_queued = acceptedMessage (js ''m1'') (js ''q1'') (js ''hi'') [] SourceUser None 10 in_selection []"

text \<open>The Session once the first message is accepted.\<close>

definition in_one :: SessionInputState where
  "in_one = in_new\<lparr>in_store := (in_store in_new)\<lparr>st_shared := empty_session\<lparr>pendingMessages := [in_queued]\<rparr>,
       st_memoryLearning := Some \<lparr> ml_processedThroughMessageId = None, ml_eligibleThroughMessageId = None,
         ml_idleSince = None \<rparr>,
       st_events := [\<lparr> ev_id = 0, ev_createdAt = 12, ev_payload = StreamPayload (MessageAccepted in_queued) \<rparr>],
       st_nextEventId := 1\<rparr>,
     in_receipts := [messageReceipt (js ''q1'') (js ''m1'') (acceptFingerprint in_env in_first) ReceiptPending
       in_selection],
     in_updatedAt := 13\<rparr>"

lemma in_new_sound: "inputs_sound in_new"
  by (rule new_inputs_sound) (simp_all add: in_new_def empty_session_def)

lemma right_projr: "\<not> isl x \<Longrightarrow> x = Inr (projr x)"
  by (simp add: sum.collapse(2))

lemma one_served:
  assumes "\<not> isl (inputMutation env q st)" "\<not> isl (commitInput lc now clock st (projr (inputMutation env q st)))"
  shows "inputMutation env q st = Inr (projr (inputMutation env q st))
    \<and> commitInput lc now clock st (projr (inputMutation env q st)) = Inr (serveOne lc st (env, now, clock, q))"
proof -
  obtain m where m: "inputMutation env q st = Inr m"
    using assms(1) by (cases "inputMutation env q st") auto
  then obtain st' where "commitInput lc now clock st m = Inr st'"
    using assms(2) by (cases "commitInput lc now clock st m") auto
  with m show ?thesis
    by (simp add: serveOne_def)
qed

lemma in_first_posed: "well_posed in_env in_clock (AcceptMessage in_first []) in_new"
  by code_simp

lemma in_history_posed: "all_posed flat in_one in_history"
  by code_simp

lemma in_first_served: "serveInput flat (in_env, 13, in_clock, AcceptMessage in_first []) in_new = Inr in_one"
  by code_simp

lemma in_one_sound: "inputs_sound in_one"
  using input_service.serve_sound [OF in_new_sound, of "timed (AcceptMessage in_first [])" flat]
    in_first_posed in_first_served by (simp add: timed_def serveOne_def)

section \<open>Histories\<close>

text \<open>
  Besides the history, the first message is delivered to a new Execution, and the second one is claimed
  for steering it.
\<close>

definition in_audit :: MessageModelAudit where
  "in_audit = \<lparr> mma_requested = in_selection, mma_actual = emb_selection ex_binding, mma_reason = None \<rparr>"

definition in_begin :: BeginQueueInput where
  "in_begin = \<lparr> bq_executionId = js ''e1'', bq_runOrdinal = 0,
     bq_snapshots = [\<lparr> rs_pending = hd (in_pending in_one), rs_modelAudit = in_audit \<rparr>],
     bq_binding = ex_binding, bq_origin = OriginUserMessage, bq_executionStart = Some ex_start,
     bq_aborted = False \<rparr>"

definition in_claim :: ClaimSteerInput where
  "in_claim = \<lparr> ti_messageId = js ''m1'', ti_expectedRevision = 0, ti_expectedExecutionId = js ''e1'',
     ti_runOrdinal = 0, ti_modelAudit = in_audit, ti_claimedAt = None \<rparr>"

definition in_deliveries :: "timed_request list" where
  "in_deliveries = [timed (BeginQueueExecution in_begin), timed (AcceptMessage in_second []),
     timed (ClaimSteer (in_claim\<lparr>ti_messageId := js ''m2''\<rparr>))]"

theorem stored_inputs_always_load_witness:
  "storedInputValid (serveInputs flat in_deliveries in_one)
   \<and> length (in_messages (serveInputs flat in_deliveries in_one)) = 1
   \<and> map pm_state (in_pending (serveInputs flat in_deliveries in_one)) = [Steering]"
proof -
  have "storedInputValid in_one" "\<forall>m \<in> set (in_pending in_one). steer_bound (executions (in_shared in_one)) m"
    by code_simp+
  moreover have "all_valid flat in_one in_deliveries"
    by code_simp
  moreover have "length (in_messages (serveInputs flat in_deliveries in_one)) = 1"
      "map pm_state (in_pending (serveInputs flat in_deliveries in_one)) = [Steering]"
    by code_simp+
  ultimately show ?thesis
    using stored_inputs_always_load [OF in_one_sound] by blast
qed

theorem input_requests_refine_inbox_witness:
  "inbox_step (inbox_of in_new) (inbox_of in_one) \<and> ib_queue (inbox_of in_one) \<noteq> []"
proof -
  have "in_pending in_one \<noteq> []"
    by code_simp
  then show ?thesis
    using input_requests_refine_inbox [OF in_new_sound in_first_posed in_first_served] by (simp add: inbox_of_def)
qed

definition in_accepted :: "MessageAcceptance \<times> InputMutation" where
  "in_accepted = projr (acceptMessage in_env (\<lambda>_. []) in_first in_new in_new)"

lemma in_accepted: "acceptMessage in_env (\<lambda>_. []) in_first in_new in_new = Inr (fst in_accepted, snd in_accepted)"
proof -
  have "\<not> isl (acceptMessage in_env (\<lambda>_. []) in_first in_new in_new)"
    by code_simp
  then show ?thesis
    by (simp add: in_accepted_def right_projr [symmetric])
qed

lemma in_accepted_committed: "commitInput flat 13 in_clock in_new (snd in_accepted) = Inr in_one"
proof -
  have "acceptMessageReplay in_env in_first in_new = Inr None"
    by code_simp
  then have "inputMutation in_env (AcceptMessage in_first []) in_new = Inr (snd in_accepted)"
    using in_accepted by (auto simp: acceptMessage_def bindE_Inr_iff mutation_of_Inr
        intro!: exI [of _ "fst in_accepted"])
  then show ?thesis
    using in_first_served by simp
qed

theorem accepted_request_is_idempotent_witness:
  "\<exists>a. acceptMessage in_env (\<lambda>_. []) in_first (serveInputs flat in_history in_one)
      (serveInputs flat in_history in_one) = Inr (a, no_mutation) \<and> ma_messageId a = js ''m1''"
proof -
  have "acceptMessageReplay in_env in_first in_new = Inr None" "ma_messageId (fst in_accepted) = js ''m1''"
    by code_simp+
  then show ?thesis
    using accepted_request_is_idempotent [OF in_new_sound in_first_posed in_accepted _ in_accepted_committed
        in_history_posed refl] by simp
qed

theorem revision_consumed_once_witness:
  "\<exists>e. inputMutation in_env (DeleteMessage (js ''m1'') 0)
      (serveInputs flat [timed (AcceptMessage in_second [])]
        (serveOne flat in_one (timed (EditMessage (js ''m1'') 0 (js ''hello''))))) = Inl e"
proof -
  let ?edit = "EditMessage (js ''m1'') 0 (js ''hello'')"
  let ?m = "projr (inputMutation in_env ?edit in_one)"
  let ?st = "serveOne flat in_one (timed ?edit)"
  have "\<not> isl (inputMutation in_env ?edit in_one)" "\<not> isl (commitInput flat 13 in_clock in_one ?m)"
    by code_simp+
  then have run: "inputMutation in_env ?edit in_one = Inr ?m" "commitInput flat 13 in_clock in_one ?m = Inr ?st"
    using one_served unfolding timed_def by blast+
  have posed: "well_posed in_env in_clock ?edit in_one" "all_posed flat ?st [timed (AcceptMessage in_second [])]"
    by code_simp+
  show ?thesis
    by (rule revision_consumed_once [OF in_one_sound posed(1) run posed(2), where i = "js ''m1''" and n = 0 and n' = 0]) simp_all
qed

text \<open>
  What the callers promise is needed. Only queued and delivered messages are looked at when an id is
  supplied, so the id of a deleted message is accepted again; a \<open>parent_agent\<close> message is accepted
  without provenance, a direct message into an Execution that is not recorded, and a claim with a
  negative time. After each of them the file does not load.
\<close>

definition in_direct :: BeginDirectInput where
  "in_direct = \<lparr> bd_executionId = js ''e9'', bd_runOrdinal = 0, bd_content = js ''go'', bd_source = None,
     bd_messageId = Some (js ''m9''), bd_clientRequestId = None, bd_requested = in_selection,
     bd_modelAudit = in_audit, bd_binding = ex_binding, bd_aborted = False \<rparr>"

lemma unkept_promises_break_file:
  "\<not> storedInputValid (serveInputs flat [timed (DeleteMessage (js ''m1'') 0),
     timed (AcceptMessage (in_second\<lparr>ai_messageId := Some (js ''m1'')\<rparr>) [])] in_one)"
  "\<not> storedInputValid (serveInputs flat [timed (AcceptMessage (in_second\<lparr>ai_source := SourceParentAgent\<rparr>) [])] in_one)"
  "\<not> storedInputValid (serveInputs flat [timed (BeginDirectExecution in_direct)] in_one)"
  "\<not> storedInputValid (serveInputs flat [timed (ClaimSteer (in_claim\<lparr>ti_claimedAt := Some (-1)\<rparr>))] in_one)"
  by code_simp+

section \<open>The queue\<close>

definition in_begun :: "(PendingSessionMessage list \<times> SessionMessage list) \<times> InputMutation" where
  "in_begun = projr (beginQueueExecution in_env in_begin in_one)"

theorem queue_delivered_in_order_witness:
  "\<exists>st. commitInput flat 13 in_clock in_one (snd in_begun) = Inr st
    \<and> in_messages st = in_messages in_one @ snd (fst in_begun) \<and> snd (fst in_begun) \<noteq> []"
proof -
  have "\<not> isl (beginQueueExecution in_env in_begin in_one)"
      "\<not> isl (commitInput flat 13 in_clock in_one (snd in_begun))" "snd (fst in_begun) \<noteq> []"
    by code_simp+
  then have "beginQueueExecution in_env in_begin in_one = Inr ((fst (fst in_begun), snd (fst in_begun)), snd in_begun)"
      "commitInput flat 13 in_clock in_one (snd in_begun) = Inr (projr (commitInput flat 13 in_clock in_one (snd in_begun)))"
    by (simp_all add: in_begun_def right_projr [symmetric])
  with queue_delivered_in_order [OF in_one_sound this] \<open>snd (fst in_begun) \<noteq> []\<close> show ?thesis
    by blast
qed

definition in_claimed :: "PendingSessionMessage \<times> InputMutation" where
  "in_claimed = projr (claimSteer in_env in_claim in_one)"

definition in_steering :: SessionInputState where
  "in_steering = projr (commitInput flat 13 in_clock in_one (snd in_claimed))"

definition in_released :: "PendingSessionMessage list \<times> InputMutation" where
  "in_released = projr (rollbackSteers in_env None (Some [js ''m1'']) in_steering)"

definition in_restored :: SessionInputState where
  "in_restored = projr (commitInput flat 13 in_clock in_steering (snd in_released))"

theorem rollback_undoes_claim_witness:
  "in_messages in_restored = in_messages in_one \<and> map pm_state (in_pending in_restored) = [Queued]
    \<and> map pm_revision (in_pending in_restored) = [2]"
proof -
  have ok: "\<not> isl (claimSteer in_env in_claim in_one)"
      "\<not> isl (commitInput flat 13 in_clock in_one (snd in_claimed))"
      "\<not> isl (rollbackSteers in_env None (Some [js ''m1'']) in_steering)"
      "\<not> isl (commitInput flat 13 in_clock in_steering (snd in_released))"
    by code_simp+
  have pending: "in_pending in_one = [in_queued]" "pm_state in_queued = Queued" "pm_revision in_queued = 0"
      "pm_id in_queued = ti_messageId in_claim"
    by (simp_all add: in_one_def in_queued_def acceptedMessage_def in_claim_def)
  have run: "claimSteer in_env in_claim in_one = Inr (fst in_claimed, snd in_claimed)"
      "commitInput flat 13 in_clock in_one (snd in_claimed) = Inr in_steering"
      "rollbackSteers in_env None (Some [ti_messageId in_claim]) in_steering = Inr (fst in_released, snd in_released)"
      "commitInput flat 13 in_clock in_steering (snd in_released) = Inr in_restored"
    using ok(1-4) by (simp_all add: in_claimed_def in_steering_def in_released_def in_restored_def in_claim_def
        right_projr [symmetric])
  show ?thesis
    using rollback_undoes_claim [OF in_one_sound run] pending by auto
qed

text \<open>The request id of the first message, used again for another text.\<close>

theorem fingerprint_identifies_request_witness:
  "replayAcceptance in_one (hd (in_receipts in_one)) (sessionInputFingerprint checksum SourceUser (js ''ho'') [] in_selection)
     = Inl (conflict IdempotencyConflict)
   \<and> (\<exists>e. inputMutation in_env (AcceptMessage (in_first\<lparr>ai_content := js ''ho''\<rparr>) []) in_one = Inl e)"
proof -
  define r where "r = \<lparr> ir_clientRequestId = js ''q1'', ir_messageId = js ''m1'',
    ir_requestFingerprint = sessionInputFingerprint checksum SourceUser (js ''hi'') [] in_selection,
    ir_status = ReceiptPending, ir_requestedModelSelection = in_selection \<rparr>"
  have r: "hd (in_receipts in_one) = MessageReceipt r"
    by (simp add: r_def in_one_def messageReceipt_def acceptFingerprint_def in_env_def in_first_def)
  have plain: "\<forall>f \<in> {js ''hi'', js ''ho'', msr_model (rms_selection in_selection), msr_model (rms_selection in_selection),
      variant_text (rms_selection in_selection), variant_text (rms_selection in_selection)} \<union> set [] \<union> set []. plain_field f"
    by code_simp
  have other: "\<not> same_request_fields SourceUser (js ''hi'') [] in_selection SourceUser (js ''ho'') [] in_selection"
    by code_simp
  have "sessionInputFingerprint checksum SourceUser (js ''hi'') [] in_selection
      \<noteq> sessionInputFingerprint checksum SourceUser (js ''ho'') [] in_selection"
    by code_simp
  then have "\<not> collision checksum (input_preimage SourceUser (js ''hi'') [] in_selection)
      (input_preimage SourceUser (js ''ho'') [] in_selection)"
    by (simp add: collision_def sessionInputFingerprint_def)
  moreover have "isl (inputMutation in_env (AcceptMessage (in_first\<lparr>ai_content := js ''ho''\<rparr>) []) in_one)"
    by code_simp
  ultimately show ?thesis
    using fingerprint_identifies_request [OF plain, of SourceUser SourceUser checksum r in_one] other
    by (auto simp: r r_def isl_def)
qed

theorem model_selection_compare_and_set_witness:
  "\<exists>selection st'. patchModelSelection flat (in_clock 0) 0 in_selection (in_store in_new) (in_store in_new)
      = Inr (selection, st') \<and> sms_revision selection = 1 \<and> getModelSelection st' = Inr selection"
proof -
  have "isUserFacingRootSession (in_store in_new)" "sms_revision (modelSelection (in_shared in_new)) = 0"
    by code_simp+
  then show ?thesis
    using model_selection_compare_and_set [of "in_store in_new" flat "in_clock 0" 0 in_selection] by auto
qed

end
