(* ===== verification/Spec2Isabelle.thy ===== *)
theory Spec2Isabelle
  imports Witnesses CompressionWitnesses RuntimeWitnesses SessionInputWitnesses
begin

text \<open>
  A verification library for the Session core of ArchCode, a coding-agent application whose server
  runs agents and whose browser client follows them.

  \<^bold>\<open>The program.\<close> A Session is one conversation with an agent. Its state is a projection: the
  fold of a log of events (packages/protocol). The server keeps one store per Session and appends to
  its log (packages/agent-core/src/store); services commit mutations to the store, each a patch and a
  list of events: queued messages (session-input), the Goal of a root Session (session-goal), the
  compression of old history (compression). A durable event is published once the snapshot that holds
  it is saved. The browser (apps/web/src/store/session-store.ts) receives the published envelopes and
  folds them with the same reducer. The library models that path from a client's request to the
  replica in the browser.

  \<^bold>\<open>Theories and sources.\<close>

  \<^item> Prelude: \<open>ArchPrelude\<close> (strings, exceptions, arrays, keyed updates, folds of a log),
    \<open>JsText\<close> (UTF-8 lengths and suffixes, trimming), \<open>Utf8\<close> (the bytes of a string), \<open>JsonText\<close> (\<open>JSON.stringify\<close>), \<open>JsValue\<close>
    (untyped values and the \<open>equal\<close> of execution.ts).
  \<^item> Data: \<open>ProtocolTypes\<close>, \<open>ProtocolState\<close>, \<open>ProtocolEvents\<close>: types.ts and the other
    declarations of packages/protocol; a patch is the \<open>Partial<SessionProjection>\<close> a reduction returns.
  \<^item> The reducer, packages/protocol/src/reduce.ts: \<open>ExecutionLifecycle\<close> (with execution.ts),
    \<open>SessionCapacity\<close> (session-capacity.ts), \<open>SessionStatistics\<close> (usage.ts), \<open>Messages\<close>,
    \<open>CompressionSnapshots\<close> (with compression.ts) and \<open>Reducer\<close>, which has a definition for every case
    of the switch.
  \<^item> What the reducer keeps: \<open>ReducerFrames\<close> (which event touches which part), \<open>ExecutionInvariant\<close>
    and \<open>SessionLifecycle\<close> (Executions: an invariant, the abstract relation \<open>exec_step\<close>, the
    refinement), \<open>SessionSteps\<close>, \<open>Transcript\<close>, \<open>TranscriptEvents\<close>, \<open>SessionOutcome\<close>,
    \<open>BlockStreams\<close>, \<open>ToolParts\<close> (the states of one tool call), \<open>ToolCalls\<close>, \<open>SessionContents\<close>, \<open>Compaction\<close>.
  \<^item> Compression, packages/agent-core/src/compression: \<open>CompressionTypes\<close>, \<open>CompressionRefs\<close>
    (refs.ts, coverage.ts), \<open>CompressionSummaries\<close> (summary.ts with its regular expressions as
    matchers), \<open>CompressionStates\<close> (state.ts), \<open>CompressionRanges\<close> (validation.ts, protection.ts,
    normalize.ts, deduplication.ts, purge-errors.ts, original-range.ts), \<open>CompressionEngine\<close>
    (dynamic-range.ts); \<open>ScanLaws\<close>, \<open>CompressionScans\<close>, \<open>CompressionMaterialize\<close>, \<open>CompressionTotal\<close>
    and \<open>CompressionLiveness\<close> show when a request succeeds.
  \<^item> The store: \<open>StoreReducer\<close> (store/reduce.ts over the protocol reducer), \<open>SessionLog\<close>
    (store/session-store-manager.ts: appending, mutations, saves, barriers), \<open>SessionPublication\<close> (what
    a listener sees, for every interleaving of appends, mutations, saves and continuations).
  \<^item> The browser: \<open>SessionReplica\<close> (session-store.ts), \<open>ReplicaLog\<close> (it folds the log, with the
    metadata, model-state and local-event patches where it meets them).
  \<^item> Goals, packages/agent-core/src/session-goal: \<open>SessionGoalContract\<close> (invariant.ts, schema.ts),
    \<open>SessionGoalFacts\<close>, \<open>SessionGoalService\<close> (service.ts), \<open>SessionGoalRuns\<close>, \<open>SessionGoalHistory\<close>.
  \<^item> Input, packages/agent-core/src/session-input: \<open>SessionInputState\<close> (receipts, checks,
    fingerprints, time), \<open>SessionInputService\<close> (accepting, commands, editing, steering),
    \<open>SessionInputDelivery\<close> (executions begun from the queue, runs of requests, and the checks of
    store/helpers.ts on messages against receipts), \<open>SessionFileChecks\<close> (its schemas of queued
    messages, receipts and user messages), \<open>SessionInbox\<close> (the abstract inbox), \<open>SessionInputRuns\<close>
    and \<open>SessionInputRefinement\<close> (each request is an inbox step), \<open>SessionInputHistory\<close> and
    \<open>SessionInputQueue\<close> (the properties), \<open>SessionInputLoads\<close> (what is stored passes the schemas),
    \<open>ModelSelectionService\<close> (model-selection-service.ts and
    agents/root-session-identity.ts).
  \<^item> \<open>ExampleSession\<close> and the theories named \<open>Witnesses\<close> apply the properties to concrete Sessions.

  A definition has the name of its function. A class with private state is a record, its methods are
  functions from state to state; an exception is the left value of a sum, with its message left out
  where nothing reads it. Inside one component, small definitions in lower case name an expression of
  the function they are part of.

  \<^bold>\<open>What the lemmas show.\<close> For the fold: Executions stay well formed and follow the lifecycle,
  steps and statistics agree with the records, tool results are final, reminders are consumed once,
  capacities hold, and the reducer throws only for a tool event without an Assistant message. For the
  store: listeners see a gapless prefix of the log in order, a durable event not before its save, and
  all of it once the saves succeed; the replica is the replay of that log with the browser's own
  patches whatever the transport does, hence its fold but for the labels they set, and its recovery ends. For the services: a Goal keeps its contract and its lifecycle and counts every
  settlement once; an accepted message is accepted once, delivered in order, changed by one client per
  revision, and stored with its receipt as the loader's checks of messages and receipts ask. For compression: blocks stay disjoint, cover settled
  history only, and can be traced back to their messages. Interfaces between theories are locales:
  \<open>keyed_upsert\<close>, \<open>log_invariant\<close>, \<open>scanner\<close>, \<open>ref_format\<close>, \<open>tool_invariant\<close> and \<open>inbox_service\<close>, each
  interpreted on the definitions of the program.

  \<^bold>\<open>Parameters.\<close> Code outside the repository and effects are arguments: \<open>localeCompare\<close> (\<open>lc\<close>,
  with the laws of a collation where they are needed), \<open>crypto.randomUUID\<close>, \<open>Date.now\<close>, SHA-256, the
  uuid check of the schema library and the attachment resolver. What a property needs of identifiers
  (that a generated one is new) is a named hypothesis, \<open>event_fresh\<close> or \<open>well_posed\<close>; what the file
  checks need of the service's callers (trimmed texts, provenance of \<open>parent_agent\<close> messages, recorded
  runs) is \<open>request_valid\<close>; and a witness meets each. Nothing is assumed of SHA-256, a function on
  bytes: the fingerprint property leaves its collisions open, and asks of texts that they hold no
  U+0000 and no lone surrogate (\<open>plain_field\<close>).

  \<^bold>\<open>Bounds and loops.\<close> A log in memory keeps \<open>MAX_EVENTS\<close> = 10000 envelopes; the publication
  properties ask that the envelopes behind an open barrier stay within it, since resolving a barrier
  drops older ones. The recovery buffer of the browser holds 1000 envelopes. Every loop of the source
  that is modelled is total: structural recursion, or a measure (the scan of a text, the scan for a
  code point boundary, the drain of the recovery buffer). There is no fuel. Times, counters and
  revisions are integers without a bound: the source's are doubles, exact below 2 to the 53. String
  lengths are natural numbers, code units 16-bit words.

  \<^bold>\<open>Simplifications.\<close> An object used as a dictionary is an association list in insertion order;
  integer-like keys, which JavaScript moves to the front, do not occur. Copies made to avoid sharing
  are identities, values being immutable here. Error messages of the input service and of Goal errors
  are left out. An asynchronous method is the list of its atomic sections: \<open>acceptMessage\<close>, which
  awaits the attachments, reads one state and commits to another.

  \<^bold>\<open>Not modelled.\<close> The reading and writing of files, the schema library and most of its schemas
  (store/helpers.ts apart from the checks of queued messages, receipts, user messages and run
  ordinals), the orchestration of executions
  (execution/session-execution-manager.ts), which interleaves timers, processes and model calls around
  the transitions that are modelled, the agents' prompts and model adapters, tools, the analysis of
  shell commands over a third-party syntax tree, memory, automations, todos of a project, skills,
  configuration, and the user interface. The child Session tree and the eviction of stores in the
  browser are outside the replica.
\<close>

end
